(* ===== verification/Prelude.thy ===== *)
theory Prelude
  imports Complex_Main "HOL-Library.Sublist" "HOL-Library.Multiset"
    "HOL-Library.List_Lexorder" "HOL-Library.Char_ord"
begin

text \<open>
  The shared base of the development: Python strings as HOL strings (code points below 256,
  i.e. Latin-1 text), the string operations of the standard library that the program uses, the
  shape of an operation that threads a state and may raise, SQLAlchemy's
  \<^verbatim>\<open>scalar_one_or_none\<close>, pagination, and generic list lemmas.
\<close>

named_theorems ops "definitions of the services, unfolded together in proofs about them"
named_theorems frame "what an operation leaves unchanged"

section \<open>Strings\<close>

type_synonym str = string

text \<open>\<^verbatim>\<open>str.isspace\<close> on code points below 256 (what \<^verbatim>\<open>strip\<close> and \<^verbatim>\<open>split\<close> remove).\<close>

definition is_space :: "char \<Rightarrow> bool" where
  "is_space c \<longleftrightarrow> (let n = (of_char c :: nat) in
     (9 \<le> n \<and> n \<le> 13) \<or> (28 \<le> n \<and> n \<le> 32) \<or> n = 133 \<or> n = 160)"

text \<open>\<^verbatim>\<open>str.lower\<close> on code points below 256.\<close>

definition lower_char :: "char \<Rightarrow> char" where
  "lower_char c = (let n = (of_char c :: nat) in
     if (65 \<le> n \<and> n \<le> 90) \<or> (192 \<le> n \<and> n \<le> 222 \<and> n \<noteq> 215) then char_of (n + 32) else c)"

definition lower :: "str \<Rightarrow> str" where
  "lower s = map lower_char s"

definition lstrip :: "str \<Rightarrow> str" where
  "lstrip s = dropWhile is_space s"

definition rstrip :: "str \<Rightarrow> str" where
  "rstrip s = rev (dropWhile is_space (rev s))"

definition strip :: "str \<Rightarrow> str" where
  "strip s = rstrip (lstrip s)"

text \<open>Python's substring test \<^verbatim>\<open>p in s\<close>.\<close>

fun py_in :: "str \<Rightarrow> str \<Rightarrow> bool" where
  "py_in p [] = (p = [])"
| "py_in p (c # cs) = (prefix p (c # cs) \<or> py_in p cs)"

lemma py_in_iff_sublist: "py_in p s = sublist p s"
  by (induction s) (auto simp: sublist_Cons_right)

text \<open>\<^verbatim>\<open>sep.join(xs)\<close>.\<close>

fun join_with :: "str \<Rightarrow> str list \<Rightarrow> str" where
  "join_with sep [] = []"
| "join_with sep [x] = x"
| "join_with sep (x # y # zs) = x @ sep @ join_with sep (y # zs)"

text \<open>\<^verbatim>\<open>s.split()\<close> on runs of white space, by an accumulator for the current word.\<close>

fun split_ws_acc :: "str \<Rightarrow> str \<Rightarrow> str list" where
  "split_ws_acc w [] = (if w = [] then [] else [rev w])"
| "split_ws_acc w (c # cs) =
     (if is_space c then (if w = [] then split_ws_acc [] cs else rev w # split_ws_acc [] cs)
      else split_ws_acc (c # w) cs)"

definition split_ws :: "str \<Rightarrow> str list" where
  "split_ws s = split_ws_acc [] s"

text \<open>\<^verbatim>\<open>s.split(c)\<close> for a one-character separator: always at least one piece.\<close>

fun split_on :: "char \<Rightarrow> str \<Rightarrow> str list" where
  "split_on d [] = [[]]"
| "split_on d (c # cs) =
     (if c = d then [] # split_on d cs
      else (case split_on d cs of [] \<Rightarrow> [[c]] | w # ws \<Rightarrow> (c # w) # ws))"

lemma split_on_nonempty [simp]: "split_on d s \<noteq> []"
  by (induction s) (auto split: list.split)

section \<open>Pieces and joins\<close>

lemma split_on_append:
  "d \<notin> set a \<Longrightarrow> split_on d (a @ d # b) = a # split_on d b"
  by (induction a) auto

lemma split_on_none: "d \<notin> set a \<Longrightarrow> split_on d a = [a]"
  by (induction a) auto

lemma join_with_append:
  "xs \<noteq> [] \<Longrightarrow> ys \<noteq> [] \<Longrightarrow> join_with s (xs @ ys) = join_with s xs @ s @ join_with s ys"
proof (induction xs)
  case (Cons x xs)
  then show ?case by (cases xs; cases ys) simp_all
qed simp

lemma set_lstrip: "set (lstrip s) \<subseteq> set s"
  unfolding lstrip_def using set_dropWhileD by fastforce

lemma set_strip: "set (strip s) \<subseteq> set s"
  using set_lstrip [of s] set_dropWhileD [of _ is_space "rev (lstrip s)"] by (auto simp: strip_def rstrip_def)

lemma dropWhile_keeps: "c \<in> set s \<Longrightarrow> \<not> p c \<Longrightarrow> c \<in> set (dropWhile p s)"
  by (induction s) auto

lemma strip_keeps: "c \<in> set s \<Longrightarrow> \<not> is_space c \<Longrightarrow> c \<in> set (strip s)"
  using dropWhile_keeps [of c "rev (lstrip s)" is_space] dropWhile_keeps [of c s is_space]
  by (simp add: strip_def rstrip_def lstrip_def)

lemma split_on_join:
  "ts \<noteq> [] \<Longrightarrow> split_on d (join_with [d] ts) = concat (map (split_on d) ts)"
proof (induction ts)
  case (Cons t ts)
  have app: "split_on d (a @ d # b) = split_on d a @ split_on d b" for a b
    by (induction a) (auto split: list.split)
  show ?case
  proof (cases ts)
    case (Cons u us)
    then show ?thesis using Cons.IH app [of t "join_with [d] ts"] by simp
  qed simp
qed simp

lemma strip_id:
  assumes "s \<noteq> []" and "\<not> is_space (hd s)" and "\<not> is_space (last s)"
  shows "strip s = s"
proof -
  have "lstrip s = s" using assms(1,2) by (cases s) (simp_all add: lstrip_def)
  moreover have "dropWhile is_space (rev s) = rev s"
    using assms(1,3) by (cases s rule: rev_cases) simp_all
  ultimately show ?thesis by (simp add: strip_def rstrip_def)
qed

section \<open>Numbers\<close>

text \<open>Decimal rendering of a natural number (\<^verbatim>\<open>str(n)\<close>).\<close>

fun show_nat :: "nat \<Rightarrow> str" where
  "show_nat n =
     (if n < 10 then [char_of (48 + n)] else show_nat (n div 10) @ [char_of (48 + n mod 10)])"

declare show_nat.simps [simp del]

text \<open>Rounding half to even, and a float rendered with two decimals (\<^verbatim>\<open>f"{x:.2f}"\<close>) or one.\<close>

definition round_half_even :: "real \<Rightarrow> int" where
  "round_half_even x =
     (let f = \<lfloor>x\<rfloor>; r = x - of_int f
      in if r < 1 / 2 then f else if r > 1 / 2 then f + 1 else if even f then f else f + 1)"

definition show_fixed :: "nat \<Rightarrow> real \<Rightarrow> str" where
  "show_fixed k x =
     (let n = nat (round_half_even (\<bar>x\<bar> * 10 ^ k)); f = show_nat (n mod 10 ^ k)
      in (if x < 0 then ''-'' else []) @ show_nat (n div 10 ^ k) @ ''.''
         @ replicate (k - length f) CHR ''0'' @ f)"

definition round_to :: "nat \<Rightarrow> real \<Rightarrow> real" where
  "round_to k x = of_int (round_half_even (x * 10 ^ k)) / 10 ^ k"

lemma round_half_even_bounds: "\<bar>of_int (round_half_even x) - x\<bar> \<le> 1 / 2"
proof -
  have "of_int \<lfloor>x\<rfloor> \<le> x" and "x < of_int \<lfloor>x\<rfloor> + 1" by linarith+
  then show ?thesis by (auto simp: round_half_even_def Let_def)
qed

lemma round_half_even_mono_int:
  assumes "of_int a \<le> x" and "x \<le> of_int b"
  shows "a \<le> round_half_even x \<and> round_half_even x \<le> b"
proof -
  have "\<bar>of_int (round_half_even x) - x\<bar> < 1" using round_half_even_bounds [of x] by linarith
  then have "of_int a - 1 < real_of_int (round_half_even x)" and "real_of_int (round_half_even x) < of_int b + 1"
    using assms by linarith+
  then show ?thesis by linarith
qed

lemma round_to_bounds:
  assumes "0 \<le> x" and "x \<le> 1"
  shows "0 \<le> round_to k x \<and> round_to k x \<le> 1"
proof -
  have "x * 10 ^ k \<le> of_int (10 ^ k)" using assms by simp
  then have "0 \<le> round_half_even (x * 10 ^ k) \<and> round_half_even (x * 10 ^ k) \<le> 10 ^ k"
    using assms(1) by (intro round_half_even_mono_int) auto
  then show ?thesis by (simp add: round_to_def divide_le_eq)
qed

section \<open>Truth of optional strings\<close>

text \<open>\<^verbatim>\<open>s or default\<close> and truthiness for values of type \<^verbatim>\<open>str | None\<close>.\<close>

definition truthy :: "str option \<Rightarrow> bool" where
  "truthy s \<longleftrightarrow> (case s of None \<Rightarrow> False | Some t \<Rightarrow> t \<noteq> [])"

definition or_empty :: "str option \<Rightarrow> str" where
  "or_empty s = (case s of None \<Rightarrow> [] | Some t \<Rightarrow> t)"

lemma truthy_simps [simp]: "truthy None = False" "truthy (Some t) = (t \<noteq> [])"
  by (simp_all add: truthy_def)

lemma or_empty_simps [simp]: "or_empty None = []" "or_empty (Some t) = t"
  by (simp_all add: or_empty_def)

section \<open>Lists\<close>

text \<open>Replace every row that satisfies a predicate (an UPDATE ... WHERE).\<close>

definition update_where :: "('a \<Rightarrow> bool) \<Rightarrow> ('a \<Rightarrow> 'a) \<Rightarrow> 'a list \<Rightarrow> 'a list" where
  "update_where p f xs = map (\<lambda>x. if p x then f x else x) xs"

lemma length_update_where [simp]: "length (update_where p f xs) = length xs"
  by (simp add: update_where_def)

lemma set_update_where:
  "set (update_where p f xs) = f ` {x \<in> set xs. p x} \<union> {x \<in> set xs. \<not> p x}"
  by (auto simp: update_where_def)

lemma in_set_update_where:
  "y \<in> set (update_where p f xs) \<longleftrightarrow> (\<exists>x \<in> set xs. y = (if p x then f x else x))"
  by (auto simp: update_where_def)

lemma map_update_where:
  assumes "\<And>x. x \<in> set xs \<Longrightarrow> p x \<Longrightarrow> g (f x) = g x"
  shows "map g (update_where p f xs) = map g xs"
  using assms by (simp add: update_where_def)

lemma image_set_update:
  assumes "\<And>x. g (f x) = g x"
  shows "g ` set (update_where p f xs) = g ` set xs"
  unfolding set_map [symmetric] using assms by (intro arg_cong [where f = set] map_update_where) simp

lemma filter_update_where_other:
  assumes "\<And>x. x \<in> set xs \<Longrightarrow> p x \<Longrightarrow> \<not> q x \<and> \<not> q (f x)"
  shows "filter q (update_where p f xs) = filter q xs"
  using assms by (induction xs) (auto simp: update_where_def)

lemma filter_update_where:
  assumes "\<And>x. x \<in> set xs \<Longrightarrow> p x \<Longrightarrow> q (f x) = q x"
  shows "filter q (update_where p f xs) = update_where p f (filter q xs)"
  using assms by (induction xs) (auto simp: update_where_def)

lemma update_where_none:
  assumes "\<And>x. x \<in> set xs \<Longrightarrow> \<not> p x"
  shows "update_where p f xs = xs"
  using assms by (simp add: update_where_def map_idI)

lemma distinct_map_filter_sub:
  assumes "distinct (map f (filter p xs))" and "\<And>x. x \<in> set xs \<Longrightarrow> q x \<Longrightarrow> p x"
  shows "distinct (map f (filter q xs))"
  using assms by (induction xs) (auto split: if_splits)

lemma distinct_filter_update:
  assumes "distinct (map k (filter p xs))"
    and "\<And>x. x \<in> set xs \<Longrightarrow> q x \<Longrightarrow> k (f x) = k x \<and> (p (f x) \<longrightarrow> p x)"
  shows "distinct (map k (filter p (update_where q f xs)))"
proof -
  have "subseq (map k (filter p (update_where q f xs))) (map k (filter p xs))"
    using assms(2)
  proof (induction xs)
    case (Cons a xs)
    then have IH: "subseq (map k (filter p (update_where q f xs))) (map k (filter p xs))"
      by (simp add: update_where_def)
    from Cons.prems [of a] have "q a \<Longrightarrow> k (f a) = k a \<and> (p (f a) \<longrightarrow> p a)" by simp
    with IH show ?case
      by (cases "q a"; cases "p a") (auto simp: update_where_def)
  qed (simp add: update_where_def)
  with assms(1) show ?thesis by (metis distinct_nthsI subseq_conv_nths)
qed

text \<open>A row of a table with distinct keys is found by its key, and only that row.\<close>

lemma filter_key_present:
  assumes "distinct (map f xs)" and "x \<in> set xs"
  shows "filter (\<lambda>y. f y = f x) xs = [x]"
  using assms
proof (induction xs)
  case (Cons a xs)
  show ?case
  proof (cases "x = a")
    case True
    then have "filter (\<lambda>y. f y = f x) xs = []"
      using Cons.prems(1) by (metis (mono_tags, lifting) distinct.simps(2) filter_False image_eqI
          list.set_map list.simps(9))
    with True show ?thesis by simp
  next
    case False
    with Cons.prems have "x \<in> set xs" and "f a \<noteq> f x" by auto
    with Cons show ?thesis by simp
  qed
qed simp

lemma key_unique:
  assumes "distinct (map f xs)" and "x \<in> set xs" and "y \<in> set xs" and "f x = f y"
  shows "x = y"
  using assms by (metis filter_key_present list.inject)

lemma find_key:
  assumes "distinct (map f xs)"
  shows "List.find (\<lambda>y. f y = i) xs = Some x \<longleftrightarrow> x \<in> set xs \<and> f x = i"
proof -
  have find: "List.find (\<lambda>y. f y = i) xs = (case filter (\<lambda>y. f y = i) xs of [] \<Rightarrow> None | y # _ \<Rightarrow> Some y)"
    by (induction xs) auto
  show ?thesis
  proof
    assume "x \<in> set xs \<and> f x = i"
    with filter_key_present [OF assms, of x] show "List.find (\<lambda>y. f y = i) xs = Some x"
      by (auto simp: find)
  qed (auto simp: find_Some_iff)
qed

text \<open>At most one row of a distinct projection has a given key.\<close>

lemma filter_key_le_one:
  assumes "distinct (map f xs)"
  shows "filter (\<lambda>x. f x = k) xs = [] \<or> (\<exists>x. filter (\<lambda>x. f x = k) xs = [x])"
  using assms
proof (induction xs)
  case (Cons a xs)
  show ?case
  proof (cases "f a = k")
    case True
    then have "filter (\<lambda>x. f x = k) xs = []"
      using Cons.prems by (metis (mono_tags, lifting) distinct.simps(2) filter_False image_eqI list.set_map list.simps(9))
    then show ?thesis using True by simp
  qed (use Cons in auto)
qed simp

section \<open>Operations that thread a state and may raise\<close>

text \<open>
  An operation returns the state it leaves together with a value or an exception. A raise that
  follows a commit leaves the committed state, one that precedes it the state of the caller.
\<close>

type_synonym ('s, 'e, 'a) op = "'s \<Rightarrow> 's \<times> ('e + 'a)"

text \<open>ORDER BY key DESC: the rows sorted by the key, greatest first.\<close>

definition order_desc :: "('a \<Rightarrow> 'k::linorder) \<Rightarrow> 'a list \<Rightarrow> 'a list" where
  "order_desc f xs = rev (sort_key f xs)"

lemma mset_order_desc [simp]: "mset (order_desc f xs) = mset xs"
  by (simp add: order_desc_def)

lemma set_order_desc [simp]: "set (order_desc f xs) = set xs"
  by (simp add: order_desc_def)

lemma length_order_desc [simp]: "length (order_desc f xs) = length xs"
  by (simp add: order_desc_def)

lemma sorted_order_desc: "sorted_wrt (\<lambda>x y. f y \<le> f x) (order_desc f xs)"
proof -
  have "sorted_wrt (\<lambda>x y. f x \<le> f y) (sort_key f xs)"
    using sorted_sort_key [of f xs] by (simp add: sorted_map)
  then show ?thesis by (simp add: order_desc_def sorted_wrt_rev)
qed

section \<open>Pagination\<close>

text \<open>\<^verbatim>\<open>OFFSET (page-1)*size LIMIT size\<close>, and the pages that a client walks.\<close>

definition page_slice :: "nat \<Rightarrow> nat \<Rightarrow> 'a list \<Rightarrow> 'a list" where
  "page_slice page n xs = take n (drop ((page - 1) * n) xs)"

lemma pages_upto:
  "concat (map (\<lambda>p. page_slice (Suc p) k xs) [0..<n]) = take (n * k) xs"
proof (induction n)
  case (Suc n)
  have "take (n * k) xs @ take k (drop (n * k) xs) = take (n * k + k) xs"
    by (simp add: take_add)
  with Suc show ?case by (simp add: page_slice_def add.commute)
qed simp

lemma pages_cover:
  assumes "length xs \<le> n * k"
  shows "concat (map (\<lambda>p. page_slice (Suc p) k xs) [0..<n]) = xs"
  using assms by (simp add: pages_upto)

section \<open>Invariants of step relations\<close>

text \<open>
  The contract that the step relations of the components share: every step keeps an invariant. What
  holds of one step under the invariant then holds of any number of steps.
\<close>

locale step_invariant =
  fixes step :: "'s \<Rightarrow> 's \<Rightarrow> bool"
    and inv :: "'s \<Rightarrow> bool"
  assumes step_inv: "step s t \<Longrightarrow> inv s \<Longrightarrow> inv t"
begin

lemma steps_inv: "step\<^sup>*\<^sup>* s t \<Longrightarrow> inv s \<Longrightarrow> inv t"
  by (induction rule: rtranclp_induct) (auto intro: step_inv)

lemma steps_stable:
  assumes "step\<^sup>*\<^sup>* s t" and "inv s" and "Q s" and "\<And>a b. step a b \<Longrightarrow> inv a \<Longrightarrow> Q a \<Longrightarrow> Q b"
  shows "Q t"
  using assms(1,3)
proof (induction rule: rtranclp_induct)
  case (step a b)
  with steps_inv [OF step.hyps(1) assms(2)] assms(4) show ?case by blast
qed

lemma steps_track:
  assumes "step\<^sup>*\<^sup>* s t" and "inv s" and "P s x"
    and "\<And>a b x. step a b \<Longrightarrow> inv a \<Longrightarrow> P a x \<Longrightarrow> \<exists>y. P b y \<and> R x y"
    and "\<And>x. R x x" and "\<And>x y z. R x y \<Longrightarrow> R y z \<Longrightarrow> R x z"
  shows "\<exists>y. P t y \<and> R x y"
  using assms(1)
proof (induction rule: rtranclp_induct)
  case base
  with assms(3,5) show ?case by blast
next
  case (step a b)
  then obtain y where "P a y" "R x y" by blast
  with assms(4) [OF step.hyps(2) steps_inv [OF step.hyps(1) assms(2)]] assms(6) show ?case by blast
qed

end

end
