(* ===== verification/Errors.thy ===== *)
theory Errors
  imports Prelude
begin

text \<open>
  The exception hierarchy of \<^verbatim>\<open>core/exceptions.py\<close>, with the exceptions of other packages that the
  services raise or let escape, and the HTTP status that \<^verbatim>\<open>main.py\<close> gives each of them.
\<close>

section \<open>Exceptions\<close>

text \<open>
  One constructor per class of \<^verbatim>\<open>core/exceptions.py\<close>, carrying the constructor's arguments. The last
  group are not \<^verbatim>\<open>AutoApplyError\<close>s: built-in exceptions and those of SQLAlchemy.
\<close>

datatype exn =
    DatabaseError str
  | DatabaseConnectionError str
  | QueryError str
  | IntegrityError str
  | RecordNotFoundError str str
  | LLMError str
  | LLMProviderError str str
  | LLMRateLimitError str
  | LLMTimeoutError str
  | BrowserError str
  | SessionError str
  | NavigationError str str
  | FormFillError str str
  | DocumentError str
  | ParseError str str
  | GenerationError str
  | TemplateError str str
  | ATSError str
  | JobPlatformError str str
  | AuthenticationError str str
  | SearchError str str
  | ApplicationSubmissionError str str
  | AuthError str
  | RateLimitError str
  | AuthorizationError str
  | ValueError str
  | KeyError str
  | PermissionError str
  | RuntimeError str
  | DBIntegrityError
  | MultipleResultsFound
  | OtherError str

text \<open>The classes below \<^verbatim>\<open>AutoApplyError\<close>.\<close>

fun is_domain_error :: "exn \<Rightarrow> bool" where
  "is_domain_error (ValueError _) = False"
| "is_domain_error (KeyError _) = False"
| "is_domain_error (PermissionError _) = False"
| "is_domain_error (RuntimeError _) = False"
| "is_domain_error DBIntegrityError = False"
| "is_domain_error MultipleResultsFound = False"
| "is_domain_error (OtherError _) = False"
| "is_domain_error _ = True"

text \<open>The \<^verbatim>\<open>code\<close> attribute that the constructors set.\<close>

fun exn_code :: "exn \<Rightarrow> str" where
  "exn_code (DatabaseError _) = ''DATABASE_ERROR''"
| "exn_code (DatabaseConnectionError _) = ''DATABASE_CONNECTION_ERROR''"
| "exn_code (QueryError _) = ''DATABASE_QUERY_ERROR''"
| "exn_code (IntegrityError _) = ''DATABASE_INTEGRITY_ERROR''"
| "exn_code (RecordNotFoundError _ _) = ''RECORD_NOT_FOUND''"
| "exn_code (LLMError _) = ''LLM_ERROR''"
| "exn_code (LLMProviderError _ _) = ''LLM_PROVIDER_ERROR''"
| "exn_code (LLMRateLimitError _) = ''LLM_RATE_LIMIT''"
| "exn_code (LLMTimeoutError _) = ''LLM_TIMEOUT''"
| "exn_code (BrowserError _) = ''BROWSER_ERROR''"
| "exn_code (SessionError _) = ''BROWSER_SESSION_ERROR''"
| "exn_code (NavigationError _ _) = ''BROWSER_NAVIGATION_ERROR''"
| "exn_code (FormFillError _ _) = ''BROWSER_FORM_FILL_ERROR''"
| "exn_code (DocumentError _) = ''DOCUMENT_ERROR''"
| "exn_code (ParseError _ _) = ''DOCUMENT_PARSE_ERROR''"
| "exn_code (GenerationError _) = ''DOCUMENT_GENERATION_ERROR''"
| "exn_code (TemplateError _ _) = ''DOCUMENT_TEMPLATE_ERROR''"
| "exn_code (ATSError _) = ''ATS_ERROR''"
| "exn_code (JobPlatformError _ _) = ''PLATFORM_ERROR''"
| "exn_code (AuthenticationError _ _) = ''PLATFORM_AUTH_ERROR''"
| "exn_code (SearchError _ _) = ''PLATFORM_SEARCH_ERROR''"
| "exn_code (ApplicationSubmissionError _ _) = ''PLATFORM_APPLICATION_ERROR''"
| "exn_code (AuthError _) = ''AUTH_ERROR''"
| "exn_code (RateLimitError _) = ''RATE_LIMIT''"
| "exn_code (AuthorizationError _) = ''FORBIDDEN_ERROR''"
| "exn_code _ = []"

text \<open>The \<^verbatim>\<open>message\<close> attribute, from the classes with a formatted message.\<close>

fun exn_message :: "exn \<Rightarrow> str" where
  "exn_message (RecordNotFoundError entity i) =
     (if i = [] then entity @ '' not found''
      else entity @ '' with id '' @ [CHR 39] @ i @ [CHR 39] @ '' not found'')"
| "exn_message (LLMProviderError p m) =
     ''LLM provider '' @ [CHR 39] @ p @ [CHR 39] @ '' error: '' @ m"
| "exn_message (LLMRateLimitError p) =
     ''Rate limit exceeded for provider '' @ [CHR 39] @ p @ [CHR 39]"
| "exn_message (NavigationError u m) =
     (if u = [] then m else ''Navigation failed for '' @ [CHR 39] @ u @ [CHR 39] @ '': '' @ m)"
| "exn_message (FormFillError f m) =
     (if f = [] then m else ''Form fill failed for '' @ [CHR 39] @ f @ [CHR 39] @ '': '' @ m)"
| "exn_message (ParseError f m) =
     (if f = [] then m else ''Failed to parse '' @ [CHR 39] @ f @ [CHR 39] @ '': '' @ m)"
| "exn_message (TemplateError t m) =
     (if t = [] then m else ''Template '' @ [CHR 39] @ t @ [CHR 39] @ '' error: '' @ m)"
| "exn_message (JobPlatformError p m) =
     (if p = [] then m else ''Platform '' @ [CHR 39] @ p @ [CHR 39] @ '' error: '' @ m)"
| "exn_message (AuthenticationError p m) =
     (if p = [] then m else ''Platform '' @ [CHR 39] @ p @ [CHR 39] @ '' error: '' @ m)"
| "exn_message (SearchError p m) =
     (if p = [] then m else ''Platform '' @ [CHR 39] @ p @ [CHR 39] @ '' error: '' @ m)"
| "exn_message (ApplicationSubmissionError p m) =
     (if p = [] then m else ''Platform '' @ [CHR 39] @ p @ [CHR 39] @ '' error: '' @ m)"
| "exn_message (DatabaseError m) = m"
| "exn_message (DatabaseConnectionError m) = m"
| "exn_message (QueryError m) = m"
| "exn_message (IntegrityError m) = m"
| "exn_message (LLMError m) = m"
| "exn_message (LLMTimeoutError m) = m"
| "exn_message (BrowserError m) = m"
| "exn_message (SessionError m) = m"
| "exn_message (DocumentError m) = m"
| "exn_message (GenerationError m) = m"
| "exn_message (ATSError m) = m"
| "exn_message (AuthError m) = m"
| "exn_message (RateLimitError m) = m"
| "exn_message (AuthorizationError m) = m"
| "exn_message (ValueError m) = m"
| "exn_message (KeyError m) = m"
| "exn_message (PermissionError m) = m"
| "exn_message (RuntimeError m) = m"
| "exn_message (OtherError m) = m"
| "exn_message DBIntegrityError = []"
| "exn_message MultipleResultsFound = []"

section \<open>HTTP boundary\<close>

text \<open>
  \<^verbatim>\<open>autoapply_error_handler\<close>: the first matching test wins. An exception that is not a domain error
  has no handler, so the framework answers 500.
\<close>

definition http_status :: "exn \<Rightarrow> nat" where
  "http_status e =
     (if \<not> is_domain_error e then 500
      else if (case e of RecordNotFoundError _ _ \<Rightarrow> True | _ \<Rightarrow> False) then 404
      else if suffix ''AUTH_ERROR'' (exn_code e) then 401
      else if suffix ''FORBIDDEN_ERROR'' (exn_code e) then 403
      else if suffix ''RATE_LIMIT'' (exn_code e) then 429
      else if suffix ''INTEGRITY_ERROR'' (exn_code e) then 409
      else 500)"

section \<open>Queries that expect one row\<close>

text \<open>SQLAlchemy's \<^verbatim>\<open>scalar_one_or_none\<close>: None on no row, the row on one, a raise on several.\<close>

fun scalar_one_or_none :: "'a list \<Rightarrow> exn + 'a option" where
  "scalar_one_or_none [] = Inr None"
| "scalar_one_or_none [x] = Inr (Some x)"
| "scalar_one_or_none (x # y # zs) = Inl MultipleResultsFound"

lemma scalar_one_None: "scalar_one_or_none xs = Inr None \<longleftrightarrow> xs = []"
  by (cases xs rule: scalar_one_or_none.cases) auto

lemma scalar_one_Some: "scalar_one_or_none xs = Inr (Some x) \<longleftrightarrow> xs = [x]"
  by (cases xs rule: scalar_one_or_none.cases) auto

lemma scalar_one_distinct:
  assumes "distinct (map f xs)"
  shows "\<exists>r. scalar_one_or_none (filter (\<lambda>x. f x = k) xs) = Inr r"
  using filter_key_le_one [OF assms, of k] by auto

end
