(* ===== verification/Models.thy ===== *)
theory Models
  imports Errors
begin

text \<open>
  The data model: the enumerations of \<^verbatim>\<open>models/enums.py\<close>, one record per table of \<^verbatim>\<open>models/*.py\<close>, the
  database as a record of tables (rows in insertion order), and the unique indexes and constraints
  that the models declare. Times are integers, money and scores exact reals. The column
  \<^verbatim>\<open>updated_at\<close>, which no service reads, and columns of display data that no modelled code reads or
  writes are left out.
\<close>

section \<open>Enumerations\<close>

datatype application_status =
    QUEUED | PENDING_REVIEW | APPROVED | APPLYING | APPLIED
  | INTERVIEW | REJECTED | OFFER | WITHDRAWN | FAILED

datatype job_status = JOB_NEW | JOB_SAVED | JOB_APPLIED | JOB_HIDDEN

datatype apply_mode = AUTONOMOUS | REVIEW | BATCH

datatype resume_type = BASE | TAILORED | OPTIMIZED

datatype llm_purpose =
    RESUME_TAILOR | COVER_LETTER | ATS_OPTIMIZE | JOB_ANALYSIS | HARNESS_JUDGE | SKILL_DISTILL | GENERAL

datatype run_verdict_result = SUCCESS | PARTIAL | VERDICT_FAILED

datatype failure_class =
    LOGIN_FAILED | SESSION_EXPIRED | CAPTCHA_WALL | TWOFA_REQUIRED | ANTIBOT_BLOCK | DOM_DRIFT
  | FIELD_MISSING | AGENT_OFFTRACK | LOOP | LLM_ERROR | TIMEOUT | RATE_LIMITED | UNKNOWN

datatype skill_status = ACTIVE | RETIRED

text \<open>\<^verbatim>\<open>StrEnum\<close> members are their string values.\<close>

fun status_value :: "application_status \<Rightarrow> str" where
  "status_value QUEUED = ''queued''"
| "status_value PENDING_REVIEW = ''pending_review''"
| "status_value APPROVED = ''approved''"
| "status_value APPLYING = ''applying''"
| "status_value APPLIED = ''applied''"
| "status_value INTERVIEW = ''interview''"
| "status_value REJECTED = ''rejected''"
| "status_value OFFER = ''offer''"
| "status_value WITHDRAWN = ''withdrawn''"
| "status_value FAILED = ''failed''"

fun purpose_value :: "llm_purpose \<Rightarrow> str" where
  "purpose_value RESUME_TAILOR = ''resume_tailor''"
| "purpose_value COVER_LETTER = ''cover_letter''"
| "purpose_value ATS_OPTIMIZE = ''ats_optimize''"
| "purpose_value JOB_ANALYSIS = ''job_analysis''"
| "purpose_value HARNESS_JUDGE = ''harness_judge''"
| "purpose_value SKILL_DISTILL = ''skill_distill''"
| "purpose_value GENERAL = ''general''"

fun verdict_value :: "run_verdict_result \<Rightarrow> str" where
  "verdict_value SUCCESS = ''success''"
| "verdict_value PARTIAL = ''partial''"
| "verdict_value VERDICT_FAILED = ''failed''"

section \<open>Rows\<close>

record user =
  u_id :: str
  u_email :: str
  u_hashed_password :: "str option"
  u_full_name :: "str option"
  u_is_active :: bool
  u_is_superuser :: bool
  u_deleted_at :: "int option"

record job =
  j_id :: str
  j_user :: str
  j_platform :: str
  j_platform_job_id :: str
  j_title :: str
  j_company :: str
  j_location :: str
  j_url :: str
  j_description :: str
  j_salary_range :: "str option"
  j_job_type :: "str option"
  j_remote :: bool
  j_posted_date :: "int option"
  j_experience_level :: "str option"
  j_match_score :: "real option"
  j_skills_required :: "(str list \<times> str list) option"
  j_status :: job_status
  j_created_at :: int

record resume =
  r_id :: str
  r_user :: str
  r_name :: str
  r_type :: resume_type
  r_template_id :: str
  r_base_resume_id :: "str option"
  r_job_id :: "str option"
  r_file_path_pdf :: "str option"
  r_file_path_docx :: "str option"
  r_ats_score :: "real option"
  r_content_text :: "str option"
  r_created_at :: int

record application =
  a_id :: str
  a_user :: str
  a_job :: str
  a_resume :: "str option"
  a_status :: application_status
  a_mode :: apply_mode
  a_ats_score :: "real option"
  a_cover_letter_path :: "str option"
  a_applied_at :: "int option"
  a_response_date :: "int option"
  a_notes :: "str option"
  a_screenshots :: "str list option"
  a_created_at :: int

record refresh_token =
  rt_id :: str
  rt_user :: str
  rt_hash :: str
  rt_family :: str
  rt_used :: bool
  rt_revoked :: bool
  rt_expires :: int

record reset_token =
  pr_id :: str
  pr_user :: str
  pr_hash :: str
  pr_expires :: int
  pr_used_at :: "int option"

record domain_skill =
  sk_id :: str
  sk_domain :: str
  sk_version :: int
  sk_content :: str
  sk_score :: int
  sk_status :: skill_status
  sk_pii_checked :: bool
  sk_created_by :: "str option"

record skill_feedback =
  fb_skill :: str
  fb_run :: "str option"
  fb_delta :: int
  fb_reason :: "str option"

record llm_usage =
  lu_user :: str
  lu_provider :: str
  lu_model :: str
  lu_prompt_tokens :: int
  lu_completion_tokens :: int
  lu_total_tokens :: int
  lu_cost_usd :: real
  lu_latency_ms :: int
  lu_purpose :: llm_purpose
  lu_trace :: "str option"
  lu_status :: "str option"
  lu_error :: "str option"
  lu_created_at :: int

record system_issue =
  si_category :: str
  si_severity :: str
  si_signals :: "(str \<times> nat) list"
  si_diagnosis :: str
  si_status :: str
  si_detected_at :: int

record encrypted_blob =
  eb_kek :: str
  eb_wrapped_dek :: str
  eb_ciphertext :: str
  eb_scheme :: str

record user_credential =
  uc_id :: str
  uc_user :: str
  uc_kind :: str
  uc_provider :: str
  uc_blob :: encrypted_blob
  uc_kek :: str

record platform_session =
  ps_id :: str
  ps_user :: str
  ps_platform :: str
  ps_last_verified :: "int option"
  ps_expires :: "int option"
  ps_fingerprint :: "str option"

record user_llm_config =
  lc_user :: str
  lc_provider :: str
  lc_fallbacks :: "str list"
  lc_model :: str

record user_settings =
  us_user :: str
  us_apply_mode :: str
  us_max_parallel :: int
  us_min_ats_score :: real
  us_provider :: str
  us_platforms :: "str list"
  us_profile :: "str option"

text \<open>The harness tables. A trajectory's steps and a diagnosis' signals are JSON columns.\<close>

record run_step =
  st_n :: nat
  st_action :: "str option"
  st_url :: "str option"
  st_evaluation :: "str option"
  st_next_goal :: "str option"

record run_signals =
  sg_errors :: "str list"
  sg_evaluations :: "str list"
  sg_consecutive_failures :: nat
  sg_loop_detected :: bool
  sg_timed_out :: bool
  sg_llm_error :: bool
  sg_final_url :: "str option"

record run_trajectory =
  tj_id :: str
  tj_user :: str
  tj_application :: str
  tj_platform :: str
  tj_steps :: "run_step list"
  tj_screenshots :: "str list"
  tj_self_report :: "str option"
  tj_tokens :: int
  tj_cost_usd :: real
  tj_duration_ms :: int
  tj_status :: str
  tj_skills_used :: "str list option"

record run_verdict =
  rv_id :: str
  rv_user :: str
  rv_run :: str
  rv_verdict :: run_verdict_result
  rv_confidence :: real
  rv_reason :: str
  rv_model :: "str option"

record run_diagnosis =
  rd_id :: str
  rd_user :: str
  rd_run :: str
  rd_class :: failure_class
  rd_root_cause :: str
  rd_signals :: run_signals
  rd_action :: "str option"

section \<open>The database\<close>

record db =
  users :: "user list"
  jobs :: "job list"
  resumes :: "resume list"
  applications :: "application list"
  refresh_tokens :: "refresh_token list"
  reset_tokens :: "reset_token list"
  llm_usages :: "llm_usage list"
  credentials :: "user_credential list"
  llm_configs :: "user_llm_config list"
  settings_rows :: "user_settings list"
  platform_sessions :: "platform_session list"
  trajectories :: "run_trajectory list"
  verdicts :: "run_verdict list"
  diagnoses :: "run_diagnosis list"
  domain_skills :: "domain_skill list"
  skill_feedbacks :: "skill_feedback list"
  system_issues :: "system_issue list"

definition empty_db :: db where
  "empty_db = \<lparr>users = [], jobs = [], resumes = [], applications = [], refresh_tokens = [],
     reset_tokens = [], llm_usages = [], credentials = [], llm_configs = [], settings_rows = [],
     platform_sessions = [], trajectories = [], verdicts = [], diagnoses = [], domain_skills = [],
     skill_feedbacks = [], system_issues = []\<rparr>"

section \<open>Constraints\<close>

text \<open>
  \<^verbatim>\<open>uq_app_active_job\<close>: at most one active application per (user, job); terminal states do not
  count. The services' \<^verbatim>\<open>_TERMINAL_STATES\<close> mirrors the index.
\<close>

definition terminal_states :: "application_status list" where
  "terminal_states = [REJECTED, WITHDRAWN, FAILED]"

definition is_active_app :: "application \<Rightarrow> bool" where
  "is_active_app a \<longleftrightarrow> a_status a \<notin> set terminal_states"

definition app_key :: "application \<Rightarrow> str \<times> str" where
  "app_key a = (a_user a, a_job a)"

definition uq_app_active_job :: "application list \<Rightarrow> bool" where
  "uq_app_active_job xs \<longleftrightarrow> distinct (map app_key (filter is_active_app xs))"

definition uq_job_platform_id :: "job list \<Rightarrow> bool" where
  "uq_job_platform_id xs \<longleftrightarrow> distinct (map (\<lambda>j. (j_user j, j_platform j, j_platform_job_id j)) xs)"

definition uq_user_email :: "user list \<Rightarrow> bool" where
  "uq_user_email xs \<longleftrightarrow> distinct (map u_email xs)"

text \<open>Primary keys: every table's ids are distinct.\<close>

definition pk_ok :: "db \<Rightarrow> bool" where
  "pk_ok d \<longleftrightarrow> distinct (map u_id (users d)) \<and> distinct (map j_id (jobs d))
     \<and> distinct (map r_id (resumes d)) \<and> distinct (map a_id (applications d))
     \<and> distinct (map rt_id (refresh_tokens d)) \<and> distinct (map pr_id (reset_tokens d))"

text \<open>
  The uniqueness constraints of the tables that are not tenant tables: \<^verbatim>\<open>uq_user_credential\<close>,
  \<^verbatim>\<open>uq_platform_session\<close>, \<^verbatim>\<open>uq_domain_skill_version\<close>, the skill ids, and one settings and LLM row a user.
\<close>

definition uq_shared :: "db \<Rightarrow> bool" where
  "uq_shared d \<longleftrightarrow> distinct (map (\<lambda>c. (uc_user c, uc_kind c, uc_provider c)) (credentials d))
     \<and> distinct (map (\<lambda>s. (ps_user s, ps_platform s)) (platform_sessions d))
     \<and> distinct (map (\<lambda>s. (sk_domain s, sk_version s)) (domain_skills d))
     \<and> distinct (map sk_id (domain_skills d))
     \<and> distinct (map lc_user (llm_configs d)) \<and> distinct (map us_user (settings_rows d))"

lemma uq_shared_update [simp]:
  "uq_shared (d\<lparr>applications := as\<rparr>) = uq_shared d"
  "uq_shared (d\<lparr>jobs := js\<rparr>) = uq_shared d"
  "uq_shared (d\<lparr>resumes := rs\<rparr>) = uq_shared d"
  "uq_shared (d\<lparr>users := us\<rparr>) = uq_shared d"
  "uq_shared (d\<lparr>refresh_tokens := ts\<rparr>) = uq_shared d"
  "uq_shared (d\<lparr>reset_tokens := ps\<rparr>) = uq_shared d"
  by (simp_all add: uq_shared_def)

lemma uq_shared_empty [simp]: "uq_shared empty_db"
  by (simp add: uq_shared_def empty_db_def)

definition db_ok :: "db \<Rightarrow> bool" where
  "db_ok d \<longleftrightarrow> pk_ok d \<and> uq_shared d \<and> uq_app_active_job (applications d) \<and> uq_job_platform_id (jobs d)
     \<and> uq_user_email (users d)"

text \<open>
  A flush or commit of the pending rows: the database takes them if its constraints hold, and
  otherwise raises and keeps its state.
\<close>

definition commit :: "db \<Rightarrow> (db, exn, unit) op" where
  "commit d' d = (if db_ok d' then (d', Inr ()) else (d, Inl DBIntegrityError))"

lemma terminal_iff: "s \<in> set terminal_states \<longleftrightarrow> s = REJECTED \<or> s = WITHDRAWN \<or> s = FAILED"
  by (auto simp: terminal_states_def)

lemma status_value_inj: "status_value s = status_value t \<longleftrightarrow> s = t"
  by (cases s; cases t) simp_all

end
