(* ===== verification/Tenant.thy ===== *)
theory Tenant
  imports Models
begin

text \<open>
  Per-user isolation (\<^verbatim>\<open>db/tenant.py\<close>): the \<^verbatim>\<open>do_orm_execute\<close> filter that adds \<^verbatim>\<open>user_id = :uid\<close> to
  every ORM SELECT on a tenant entity, and the interface \<open>tenant_table\<close> of the tables it protects.
\<close>

section \<open>The filter\<close>

text \<open>The \<^verbatim>\<open>current_user_id\<close> context variable: None in the worker, the user's id in a request.\<close>

type_synonym ctx = "str option"

record execute_state =
  is_select :: bool
  is_column_load :: bool
  is_relationship_load :: bool
  skip_tenant_filter :: bool

definition apply_tenant_filter :: "ctx \<Rightarrow> execute_state \<Rightarrow> ('r \<Rightarrow> str) \<Rightarrow> 'r list \<Rightarrow> 'r list" where
  "apply_tenant_filter uid st owner rows =
     (case uid of
        None \<Rightarrow> rows
      | Some u \<Rightarrow>
          if is_select st \<and> \<not> is_column_load st \<and> \<not> is_relationship_load st \<and> \<not> skip_tenant_filter st
          then filter (\<lambda>r. owner r = u) rows else rows)"

text \<open>A plain \<^verbatim>\<open>select(Model)\<close>, and one with \<^verbatim>\<open>skip_tenant_filter=True\<close>.\<close>

definition select_rows :: "ctx \<Rightarrow> ('r \<Rightarrow> str) \<Rightarrow> 'r list \<Rightarrow> 'r list" where
  "select_rows uid owner rows =
     apply_tenant_filter uid \<lparr>is_select = True, is_column_load = False,
       is_relationship_load = False, skip_tenant_filter = False\<rparr> owner rows"

definition select_unscoped :: "ctx \<Rightarrow> ('r \<Rightarrow> str) \<Rightarrow> 'r list \<Rightarrow> 'r list" where
  "select_unscoped uid owner rows =
     apply_tenant_filter uid \<lparr>is_select = True, is_column_load = False,
       is_relationship_load = False, skip_tenant_filter = True\<rparr> owner rows"

lemma select_rows_simps [simp]:
  "select_rows None owner rows = rows"
  "select_rows (Some u) owner rows = filter (\<lambda>r. owner r = u) rows"
  by (simp_all add: select_rows_def apply_tenant_filter_def)

lemma select_unscoped_all [simp]: "select_unscoped c owner rows = rows"
  by (simp add: select_unscoped_def apply_tenant_filter_def split: option.split)

text \<open>\<^verbatim>\<open>select(Model).where(Model.id == i)\<close> followed by \<^verbatim>\<open>scalar_one_or_none\<close>, and \<^verbatim>\<open>db.get\<close>.\<close>

definition find_row :: "ctx \<Rightarrow> ('r \<Rightarrow> str) \<Rightarrow> ('r \<Rightarrow> str) \<Rightarrow> str \<Rightarrow> 'r list \<Rightarrow> exn + 'r option" where
  "find_row uid owner ident i rows =
     scalar_one_or_none (filter (\<lambda>r. ident r = i) (select_rows uid owner rows))"

definition db_get :: "ctx \<Rightarrow> ('r \<Rightarrow> str) \<Rightarrow> ('r \<Rightarrow> str) \<Rightarrow> str \<Rightarrow> 'r list \<Rightarrow> 'r option" where
  "db_get uid owner ident i rows = List.find (\<lambda>r. ident r = i) (select_rows uid owner rows)"

section \<open>Tenant tables\<close>

text \<open>
  What the services rely on: a table of the database is read and written as a list of rows, each
  with an owner and an id, and writing one table leaves the id uniqueness of the database to that
  table's rows.
\<close>

locale tenant_table =
  fixes rows :: "db \<Rightarrow> 'r list"
    and put :: "'r list \<Rightarrow> db \<Rightarrow> db"
    and owner :: "'r \<Rightarrow> str"
    and ident :: "'r \<Rightarrow> str"
  assumes rows_put: "rows (put xs d) = xs"
    and put_rows: "put (rows d) d = d"
    and pk_rows: "pk_ok d \<Longrightarrow> distinct (map ident (rows d))"
begin

definition view :: "str \<Rightarrow> db \<Rightarrow> 'r list" where
  "view u d = filter (\<lambda>r. owner r = u) (rows d)"

lemma distinct_view: "pk_ok d \<Longrightarrow> distinct (map ident (view u d))"
  using pk_rows [of d] by (simp add: view_def distinct_map_filter)

lemma find_total:
  assumes "pk_ok d"
  shows "\<exists>r. find_row c owner ident i (rows d) = Inr r"
proof (cases c)
  case None
  then show ?thesis
    using scalar_one_distinct [OF pk_rows [OF assms], of i] by (simp add: find_row_def)
next
  case (Some u)
  then show ?thesis
    using scalar_one_distinct [OF distinct_view [OF assms, of u], of i]
    by (simp add: find_row_def view_def)
qed

lemma find_owned:
  assumes "find_row (Some u) owner ident i (rows d) = Inr (Some r)"
  shows "r \<in> set (rows d) \<and> owner r = u \<and> ident r = i"
proof -
  have "r \<in> set (filter (\<lambda>r. ident r = i) (filter (\<lambda>r. owner r = u) (rows d)))"
    using assms by (simp add: find_row_def scalar_one_Some)
  then show ?thesis by simp
qed

lemma find_present:
  assumes "pk_ok d" and "r \<in> set (rows d)" and "owner r = u" and "ident r = i"
  shows "find_row (Some u) owner ident i (rows d) = Inr (Some r)"
proof -
  have "r \<in> set (view u d)" using assms by (simp add: view_def)
  then have "filter (\<lambda>y. ident y = ident r) (view u d) = [r]"
    by (rule filter_key_present [OF distinct_view [OF assms(1)]])
  with assms(4) show ?thesis by (simp add: find_row_def view_def)
qed

lemma find_foreign:
  assumes "pk_ok d" and "r \<in> set (rows d)" and "owner r \<noteq> u" and "ident r = i"
  shows "find_row (Some u) owner ident i (rows d) = Inr None"
proof -
  have "filter (\<lambda>x. ident x = i) (view u d) = []"
    using key_unique [OF pk_rows [OF assms(1)] _ assms(2)] assms(3,4)
    by (fastforce simp: view_def filter_empty_conv)
  then show ?thesis by (simp add: find_row_def view_def)
qed

lemma find_view:
  assumes "view u d = view u d'"
  shows "find_row (Some u) owner ident i (rows d) = find_row (Some u) owner ident i (rows d')"
  using assms by (simp add: find_row_def view_def)

lemma view_append_foreign:
  assumes "\<And>r. r \<in> set rs \<Longrightarrow> owner r = u" and "v \<noteq> u"
  shows "view v (put (rows d @ rs) d) = view v d"
  using assms by (auto simp: view_def rows_put filter_empty_conv)

lemma view_append_own:
  assumes "\<And>r. r \<in> set rs \<Longrightarrow> owner r = u"
  shows "view u (put (rows d @ rs) d) = view u d @ rs"
  using assms by (auto simp: view_def rows_put)

lemma view_update_foreign:
  assumes "\<And>r. r \<in> set (rows d) \<Longrightarrow> p r \<Longrightarrow> owner r = u \<and> owner (f r) = u" and "v \<noteq> u"
  shows "view v (put (update_where p f (rows d)) d) = view v d"
  unfolding view_def rows_put using assms by (intro filter_update_where_other) auto

lemma view_update_own:
  assumes "\<And>r. r \<in> set (rows d) \<Longrightarrow> p r \<Longrightarrow> owner (f r) = owner r"
  shows "view u (put (update_where p f (rows d)) d) = update_where p f (view u d)"
  unfolding view_def rows_put using assms by (intro filter_update_where) auto

end

interpretation app_tbl: tenant_table applications "\<lambda>xs d. d\<lparr>applications := xs\<rparr>" a_user a_id
  by unfold_locales (simp_all add: pk_ok_def)

interpretation job_tbl: tenant_table jobs "\<lambda>xs d. d\<lparr>jobs := xs\<rparr>" j_user j_id
  by unfold_locales (simp_all add: pk_ok_def)

interpretation resume_tbl: tenant_table resumes "\<lambda>xs d. d\<lparr>resumes := xs\<rparr>" r_user r_id
  by unfold_locales (simp_all add: pk_ok_def)

text \<open>What user \<open>u\<close> can see of the tenant tables.\<close>

definition same_view :: "str \<Rightarrow> db \<Rightarrow> db \<Rightarrow> bool" where
  "same_view u d d' \<longleftrightarrow> app_tbl.view u d = app_tbl.view u d' \<and> job_tbl.view u d = job_tbl.view u d'
     \<and> resume_tbl.view u d = resume_tbl.view u d'"

lemma same_view_refl [simp]: "same_view u d d"
  by (simp add: same_view_def)

lemma same_view_trans: "same_view u a b \<Longrightarrow> same_view u b c \<Longrightarrow> same_view u a c"
  by (simp add: same_view_def)

lemma same_view_applications:
  "same_view u (d\<lparr>applications := xs\<rparr>) d \<longleftrightarrow> filter (\<lambda>a. a_user a = u) xs = app_tbl.view u d"
  by (simp add: same_view_def app_tbl.view_def job_tbl.view_def resume_tbl.view_def)

end
