(* ===== verification/Applications.thy ===== *)
theory Applications
  imports Tenant
begin

text \<open>
  Application lifecycle (\<^verbatim>\<open>services/application.py\<close>): create (idempotent), batch create, list with
  pagination, get, approve, status update, and the response projection. Every operation takes the
  tenant context of its session; generated ids and the clock are arguments.
\<close>

section \<open>Requests and responses (\<^verbatim>\<open>schemas/application.py\<close>)\<close>

record application_create =
  ac_job_id :: str
  ac_resume_id :: "str option"
  ac_mode :: apply_mode

record application_batch_create =
  ab_job_ids :: "str list"
  ab_resume_id :: "str option"
  ab_mode :: apply_mode

record application_status_update =
  su_status :: application_status
  su_notes :: "str option"

record application_response =
  ar_app :: application
  ar_job_title :: "str option"
  ar_company :: "str option"

record application_list_response =
  al_items :: "application_response list"
  al_total :: nat
  al_page :: nat
  al_page_size :: nat
  al_has_next :: bool

definition DEFAULT_PAGE_SIZE :: nat where "DEFAULT_PAGE_SIZE = 20"
definition MAX_PAGE_SIZE :: nat where "MAX_PAGE_SIZE = 100"

section \<open>Operations\<close>

text \<open>
  The related job is an argument: \<open>None\<close> when the relationship is not loaded (a fresh row), \<open>Some\<close> of
  the loaded value otherwise.
\<close>

definition application_to_response :: "job option option \<Rightarrow> application \<Rightarrow> application_response" where
  "application_to_response loaded a =
     (case loaded of
        Some (Some j) \<Rightarrow> \<lparr>ar_app = a, ar_job_title = Some (j_title j), ar_company = Some (j_company j)\<rparr>
      | _ \<Rightarrow> \<lparr>ar_app = a, ar_job_title = None, ar_company = None\<rparr>)"

definition assert_owned ::
  "ctx \<Rightarrow> ('r \<Rightarrow> str) \<Rightarrow> ('r \<Rightarrow> str) \<Rightarrow> str \<Rightarrow> str \<Rightarrow> 'r list \<Rightarrow> exn + unit" where
  "assert_owned c owner ident model i rows =
     (case find_row c owner ident i rows of
        Inl e \<Rightarrow> Inl e
      | Inr None \<Rightarrow> Inl (RecordNotFoundError (model @ '' '' @ [CHR 39] @ i @ [CHR 39] @ '' not found'') [])
      | Inr (Some r) \<Rightarrow> Inr ())"

definition new_application ::
  "str \<Rightarrow> str \<Rightarrow> str \<Rightarrow> str option \<Rightarrow> apply_mode \<Rightarrow> int \<Rightarrow> application" where
  "new_application i u j r m now =
     \<lparr>a_id = i, a_user = u, a_job = j, a_resume = r, a_status = QUEUED, a_mode = m,
      a_ats_score = None, a_cover_letter_path = None, a_applied_at = None, a_response_date = None,
      a_notes = None, a_screenshots = None, a_created_at = now\<rparr>"

text \<open>
  The insert runs in a savepoint; on a constraint violation the active application of the job is
  returned instead, and if there is none the violation is raised again.
\<close>

definition create_application ::
  "ctx \<Rightarrow> str \<Rightarrow> application_create \<Rightarrow> str \<Rightarrow> int \<Rightarrow> (db, exn, application) op" where
  "create_application c user_id data new_id now d =
     (case assert_owned c j_user j_id ''Job'' (ac_job_id data) (jobs d) of
        Inl e \<Rightarrow> (d, Inl e)
      | Inr _ \<Rightarrow>
       (case (if truthy (ac_resume_id data)
              then assert_owned c r_user r_id ''Resume'' (or_empty (ac_resume_id data)) (resumes d)
              else Inr ()) of
          Inl e \<Rightarrow> (d, Inl e)
        | Inr _ \<Rightarrow>
         (let a = new_application new_id user_id (ac_job_id data) (ac_resume_id data) (ac_mode data) now
          in case commit (d\<lparr>applications := applications d @ [a]\<rparr>) d of
               (d', Inr _) \<Rightarrow> (d', Inr a)
             | (_, Inl _) \<Rightarrow>
                (case scalar_one_or_none (filter (\<lambda>x. a_job x = ac_job_id data \<and>
                        a_status x \<notin> set terminal_states) (select_rows c a_user (applications d))) of
                   Inl e \<Rightarrow> (d, Inl e)
                 | Inr (Some x) \<Rightarrow> (d, Inr x)
                 | Inr None \<Rightarrow> (d, Inl DBIntegrityError)))))"

text \<open>
  The batch loop over \<^verbatim>\<open>data.job_ids\<close>, in order and with repetitions. \<open>gen\<close> is the id generator: the
  n-th row that the loop adds takes the n-th generated id.
\<close>

fun batch_rows ::
  "str \<Rightarrow> str option \<Rightarrow> apply_mode \<Rightarrow> int \<Rightarrow> str list \<Rightarrow> (nat \<Rightarrow> str) \<Rightarrow> nat \<Rightarrow> str list \<Rightarrow> application list" where
  "batch_rows u r m now skip gen n [] = []"
| "batch_rows u r m now skip gen n (j # js) =
     (if j \<in> set skip then batch_rows u r m now skip gen n js
      else new_application (gen n) u j r m now # batch_rows u r m now skip gen (Suc n) js)"

text \<open>Python's rendering of a list of strings without quotes in them.\<close>

definition py_list_repr :: "str list \<Rightarrow> str" where
  "py_list_repr xs = ''['' @ join_with '', '' (map (\<lambda>x. [CHR 39] @ x @ [CHR 39]) xs) @ '']''"

definition create_batch ::
  "ctx \<Rightarrow> str \<Rightarrow> application_batch_create \<Rightarrow> (nat \<Rightarrow> str) \<Rightarrow> int \<Rightarrow> (db, exn, application list) op" where
  "create_batch c user_id data gen now d =
     (case (if truthy (ab_resume_id data)
            then assert_owned c r_user r_id ''Resume'' (or_empty (ab_resume_id data)) (resumes d)
            else Inr ()) of
        Inl e \<Rightarrow> (d, Inl e)
      | Inr _ \<Rightarrow>
       (let requested = set (ab_job_ids data);
            owned = set (map j_id (filter (\<lambda>j. j_id j \<in> requested) (select_rows c j_user (jobs d))));
            missing = filter (\<lambda>i. i \<notin> owned) (remdups (ab_job_ids data))
        in if missing \<noteq> [] then
             (d, Inl (RecordNotFoundError (''Jobs not found: '' @ py_list_repr (sort missing)) []))
           else
             (let existing_active = map a_job (filter (\<lambda>a. a_job a \<in> requested \<and>
                    a_status a \<notin> set terminal_states) (select_rows c a_user (applications d)));
                  new = batch_rows user_id (ab_resume_id data) (ab_mode data) now existing_active
                          gen 0 (ab_job_ids data)
              in case commit (d\<lparr>applications := applications d @ new\<rparr>) d of
                   (d', Inr _) \<Rightarrow> (d', Inr new)
                 | (d', Inl e) \<Rightarrow> (d', Inl e))))"

definition list_applications ::
  "ctx \<Rightarrow> nat \<Rightarrow> nat \<Rightarrow> application_status option \<Rightarrow> db \<Rightarrow> application_list_response" where
  "list_applications c page page_size st d =
     (let k = min page_size MAX_PAGE_SIZE;
          rows = filter (\<lambda>a. case st of None \<Rightarrow> True | Some s \<Rightarrow> a_status a = s)
                   (select_rows c a_user (applications d));
          apps = page_slice page k (order_desc a_created_at rows);
          total = length rows
      in \<lparr>al_items = map (\<lambda>a. application_to_response
                       (Some (db_get c j_user j_id (a_job a) (jobs d))) a) apps,
          al_total = total, al_page = page, al_page_size = k, al_has_next = page * k < total\<rparr>)"

definition get_application :: "ctx \<Rightarrow> str \<Rightarrow> db \<Rightarrow> exn + application" where
  "get_application c app_id d =
     (case find_row c a_user a_id app_id (applications d) of
        Inl e \<Rightarrow> Inl e
      | Inr None \<Rightarrow> Inl (RecordNotFoundError ''Application'' app_id)
      | Inr (Some a) \<Rightarrow> Inr a)"

text \<open>Writing one loaded row back and committing.\<close>

definition save_application :: "application \<Rightarrow> (db, exn, application) op" where
  "save_application a d =
     (case commit (d\<lparr>applications :=
             update_where (\<lambda>x. a_id x = a_id a) (\<lambda>_. a) (applications d)\<rparr>) d of
        (d', Inr _) \<Rightarrow> (d', Inr a)
      | (d', Inl e) \<Rightarrow> (d', Inl e))"

definition approve_application :: "ctx \<Rightarrow> str \<Rightarrow> (db, exn, application) op" where
  "approve_application c app_id d =
     (case get_application c app_id d of
        Inl e \<Rightarrow> (d, Inl e)
      | Inr a \<Rightarrow>
          if a_status a \<notin> {PENDING_REVIEW, QUEUED} then
            (d, Inl (ValueError (''Cannot approve application in '' @ [CHR 39] @
               status_value (a_status a) @ [CHR 39] @ '' state. '' @
               ''Only pending_review or queued applications can be approved.'')))
          else save_application (a\<lparr>a_status := APPROVED\<rparr>) d)"

definition update_status ::
  "ctx \<Rightarrow> str \<Rightarrow> application_status_update \<Rightarrow> int \<Rightarrow> (db, exn, application) op" where
  "update_status c app_id upd now d =
     (case get_application c app_id d of
        Inl e \<Rightarrow> (d, Inl e)
      | Inr a \<Rightarrow>
         (let a1 = a\<lparr>a_status := su_status upd\<rparr>;
              a2 = (case su_notes upd of None \<Rightarrow> a1 | Some n \<Rightarrow> a1\<lparr>a_notes := Some n\<rparr>);
              a3 = (if su_status upd = APPLIED then a2\<lparr>a_applied_at := Some now\<rparr> else a2)
          in save_application a3 d))"

lemmas application_ops =
  create_application_def create_batch_def approve_application_def update_status_def

section \<open>Constraints under the operations\<close>

lemma db_ok_applications:
  assumes "db_ok d"
  shows "db_ok (d\<lparr>applications := xs\<rparr>) \<longleftrightarrow> distinct (map a_id xs) \<and> uq_app_active_job xs"
  using assms by (auto simp: db_ok_def pk_ok_def)

lemma commit_ok: "db_ok d \<Longrightarrow> db_ok (fst (commit d' d))"
  by (simp add: commit_def)

lemma commit_cases:
  obtains "commit d' d = (d', Inr ())" "db_ok d'" | "commit d' d = (d, Inl DBIntegrityError)" "\<not> db_ok d'"
  by (cases "db_ok d'") (auto simp: commit_def)

lemma uq_append_fresh:
  assumes "uq_app_active_job xs" and "is_active_app a"
  shows "uq_app_active_job (xs @ [a]) \<longleftrightarrow> app_key a \<notin> app_key ` {x \<in> set xs. is_active_app x}"
  using assms by (simp add: uq_app_active_job_def)

lemma uq_update:
  assumes "uq_app_active_job xs"
    and "\<And>x. x \<in> set xs \<Longrightarrow> q x \<Longrightarrow> app_key (f x) = app_key x \<and> (is_active_app (f x) \<longrightarrow> is_active_app x)"
  shows "uq_app_active_job (update_where q f xs)"
  using assms unfolding uq_app_active_job_def by (rule distinct_filter_update) auto

text \<open>
  Writing back a row whose key is unchanged and that was active if it is active now cannot violate
  a constraint: the commit succeeds.
\<close>

lemma save_application_succeeds:
  assumes "db_ok d" and "x \<in> set (applications d)" and "a_id a = a_id x" and "app_key a = app_key x"
    and "is_active_app a \<Longrightarrow> is_active_app x"
  shows "save_application a d =
    (d\<lparr>applications := update_where (\<lambda>y. a_id y = a_id a) (\<lambda>_. a) (applications d)\<rparr>, Inr a)"
proof -
  let ?xs = "update_where (\<lambda>y. a_id y = a_id a) (\<lambda>_. a) (applications d)"
  have pk: "distinct (map a_id (applications d))" and uq: "uq_app_active_job (applications d)"
    using assms(1) by (auto simp: db_ok_def pk_ok_def)
  have "uq_app_active_job ?xs"
  proof (rule uq_update [OF uq])
    fix y assume "y \<in> set (applications d)" and "a_id y = a_id a"
    then have "y = x" using key_unique [OF pk _ assms(2)] assms(3) by simp
    then show "app_key a = app_key y \<and> (is_active_app a \<longrightarrow> is_active_app y)" using assms(4,5) by simp
  qed
  moreover have "distinct (map a_id ?xs)" using pk by (subst map_update_where) auto
  ultimately have "db_ok (d\<lparr>applications := ?xs\<rparr>)" by (simp add: db_ok_applications [OF assms(1)])
  then show ?thesis by (simp add: save_application_def commit_def)
qed

lemma save_application_result:
  "save_application a d =
     (d\<lparr>applications := update_where (\<lambda>x. a_id x = a_id a) (\<lambda>_. a) (applications d)\<rparr>, Inr a)
   \<or> save_application a d = (d, Inl DBIntegrityError)"
  by (simp add: save_application_def commit_def)

lemma get_application_owned:
  assumes "get_application (Some u) i d = Inr a"
  shows "a \<in> set (applications d) \<and> a_user a = u \<and> a_id a = i"
proof -
  have "find_row (Some u) a_user a_id i (applications d) = Inr (Some a)"
    using assms by (auto simp: get_application_def split: sum.splits option.splits)
  then show ?thesis by (rule app_tbl.find_owned)
qed

lemma get_application_present:
  assumes "db_ok d" and "a \<in> set (applications d)"
  shows "get_application (Some (a_user a)) (a_id a) d = Inr a"
  using app_tbl.find_present [of d a "a_user a" "a_id a"] assms
  by (simp add: get_application_def db_ok_def)

lemma assert_owned_Inr:
  "assert_owned c owner ident m i rows = Inr () \<longleftrightarrow> (\<exists>r. find_row c owner ident i rows = Inr (Some r))"
  by (auto simp: assert_owned_def split: sum.splits option.splits)

section \<open>Every operation keeps the constraints\<close>

lemma save_application_db_ok: "db_ok d \<Longrightarrow> db_ok (fst (save_application a d))"
  by (auto simp: save_application_def commit_def)

lemma create_application_db_ok: "db_ok d \<Longrightarrow> db_ok (fst (create_application c u data i now d))"
  by (auto simp: create_application_def commit_def Let_def split: sum.splits option.splits)

lemma create_batch_db_ok: "db_ok d \<Longrightarrow> db_ok (fst (create_batch c u data gen now d))"
  by (auto simp: create_batch_def commit_def Let_def split: sum.splits)

lemma approve_application_db_ok: "db_ok d \<Longrightarrow> db_ok (fst (approve_application c i d))"
  by (auto simp: approve_application_def save_application_db_ok split: sum.splits)

lemma update_status_db_ok: "db_ok d \<Longrightarrow> db_ok (fst (update_status c i upd now d))"
  by (auto simp: update_status_def Let_def save_application_db_ok split: sum.splits)

section \<open>The rows of a batch\<close>

lemma batch_rows_job: "map a_job (batch_rows u r m now skip gen n js) = filter (\<lambda>j. j \<notin> set skip) js"
  by (induction js arbitrary: n) (auto simp: new_application_def)

lemma batch_rows_id:
  "map a_id (batch_rows u r m now skip gen n js) =
     map (\<lambda>k. gen (n + k)) [0..<length (filter (\<lambda>j. j \<notin> set skip) js)]"
  by (induction js arbitrary: n) (auto simp: new_application_def map_upt_Suc simp del: upt_Suc)

lemma batch_rows_distinct:
  assumes "inj gen"
  shows "distinct (map a_id (batch_rows u r m now skip gen n js))"
proof -
  have "inj_on (\<lambda>k. gen (n + k)) S" for S
    by (rule inj_onI) (simp add: inj_eq [OF assms])
  then show ?thesis by (simp add: batch_rows_id distinct_map)
qed

lemma batch_rows_fresh:
  assumes "\<And>k. gen k \<notin> S"
  shows "S \<inter> a_id ` set (batch_rows u r m now skip gen n js) = {}"
  using assms by (induction js arbitrary: n) (auto simp: new_application_def)

lemma batch_rows_fields:
  "a \<in> set (batch_rows u r m now skip gen n js) \<Longrightarrow>
     a_user a = u \<and> a_resume a = r \<and> a_mode a = m \<and> a_status a = QUEUED \<and> a_job a \<notin> set skip
     \<and> a_job a \<in> set js \<and> (\<exists>k. a_id a = gen k)"
  by (induction js arbitrary: n) (auto simp: new_application_def split: if_splits)

lemma new_application_active [simp]: "is_active_app (new_application i u j r m now)"
  by (simp add: is_active_app_def new_application_def terminal_iff)

lemma batch_rows_active:
  "filter is_active_app (batch_rows u r m now skip gen n js) = batch_rows u r m now skip gen n js"
  by (rule filter_True) (auto dest!: batch_rows_fields simp: is_active_app_def terminal_iff)

text \<open>
  Appending a batch keeps the active-application index exactly when no job occurs twice in it
  and none has an active application of the user already.
\<close>

lemma uq_append_batch:
  assumes uq: "uq_app_active_job xs" and skip: "\<And>a. a \<in> set xs \<Longrightarrow> is_active_app a \<Longrightarrow> a_user a = u \<Longrightarrow>
      a_job a \<in> set js \<Longrightarrow> a_job a \<in> set skip"
  shows "uq_app_active_job (xs @ batch_rows u r m now skip gen n js) \<longleftrightarrow>
    distinct (filter (\<lambda>j. j \<notin> set skip) js)"
proof -
  let ?new = "batch_rows u r m now skip gen n js"
  have keys: "map app_key ?new = map (Pair u) (map a_job ?new)"
    by (auto simp: app_key_def dest!: batch_rows_fields)
  have "distinct (map app_key ?new) \<longleftrightarrow> distinct (filter (\<lambda>j. j \<notin> set skip) js)"
    unfolding keys batch_rows_job by (simp add: distinct_map inj_on_def)
  moreover have "app_key ` {x \<in> set xs. is_active_app x} \<inter> app_key ` set ?new = {}"
  proof -
    { fix a b assume "a \<in> set xs" "is_active_app a" "b \<in> set ?new" "app_key a = app_key b"
      then have False using skip [of a] batch_rows_fields [of b] by (auto simp: app_key_def) }
    then show ?thesis by (force simp: disjoint_iff)
  qed
  ultimately show ?thesis
    using uq by (auto simp: uq_app_active_job_def batch_rows_active)
qed

section \<open>Functional behaviour\<close>

definition is_staged :: "application \<Rightarrow> bool" where
  "is_staged a \<longleftrightarrow> a_status a \<in> {PENDING_REVIEW, QUEUED}"

definition active_apps :: "str \<Rightarrow> str \<Rightarrow> db \<Rightarrow> application list" where
  "active_apps u j d = filter (\<lambda>x. a_user x = u \<and> a_job x = j \<and> is_active_app x) (applications d)"

lemma existing_query:
  "filter (\<lambda>x. a_job x = j \<and> a_status x \<notin> set terminal_states) (select_rows (Some u) a_user (applications d))
     = active_apps u j d"
  by (auto simp: active_apps_def is_active_app_def intro: filter_cong)

lemma active_apps_le_one:
  assumes "db_ok d"
  shows "active_apps u j d = [] \<or> (\<exists>x. active_apps u j d = [x])"
proof -
  have "distinct (map app_key (filter is_active_app (applications d)))"
    using assms by (simp add: db_ok_def uq_app_active_job_def)
  from filter_key_le_one [OF this, of "(u, j)"]
  show ?thesis by (simp add: active_apps_def app_key_def conj_ac)
qed

lemma append_fresh_ok:
  assumes "db_ok d" and "i \<notin> a_id ` set (applications d)"
  shows "db_ok (d\<lparr>applications := applications d @ [new_application i u j r m now]\<rparr>)
    \<longleftrightarrow> active_apps u j d = []"
proof -
  have uq: "uq_app_active_job (applications d)" and pk: "distinct (map a_id (applications d))"
    using assms(1) by (auto simp: db_ok_def pk_ok_def)
  have "app_key (new_application i u j r m now) \<notin> app_key ` {x \<in> set (applications d). is_active_app x}
    \<longleftrightarrow> active_apps u j d = []"
    by (auto simp: app_key_def new_application_def active_apps_def filter_empty_conv)
  then show ?thesis
    using pk assms(2) uq_append_fresh [OF uq, of "new_application i u j r m now"]
    by (simp add: db_ok_applications [OF assms(1)]) (simp add: new_application_def)
qed

definition create_allowed :: "str \<Rightarrow> str \<Rightarrow> str option \<Rightarrow> db \<Rightarrow> bool" where
  "create_allowed u j r d \<longleftrightarrow>
     (\<exists>x \<in> set (jobs d). j_id x = j \<and> j_user x = u)
     \<and> (truthy r \<longrightarrow> (\<exists>x \<in> set (resumes d). r_id x = or_empty r \<and> r_user x = u))"

lemma assert_owned_iff:
  assumes "pk_ok d"
  shows "assert_owned (Some u) j_user j_id m i (jobs d) = Inr () \<longleftrightarrow>
           (\<exists>x \<in> set (jobs d). j_id x = i \<and> j_user x = u)"
    and "assert_owned (Some u) r_user r_id m i (resumes d) = Inr () \<longleftrightarrow>
           (\<exists>x \<in> set (resumes d). r_id x = i \<and> r_user x = u)"
  by (auto simp: assert_owned_Inr dest: job_tbl.find_owned resume_tbl.find_owned
      intro: job_tbl.find_present [OF assms] resume_tbl.find_present [OF assms])

lemma create_application_reduce:
  assumes "db_ok d" and "create_allowed u (ac_job_id data) (ac_resume_id data) d"
  shows "create_application (Some u) u data i now d =
    (let a = new_application i u (ac_job_id data) (ac_resume_id data) (ac_mode data) now in
     case commit (d\<lparr>applications := applications d @ [a]\<rparr>) d of
       (d', Inr _) \<Rightarrow> (d', Inr a)
     | (_, Inl _) \<Rightarrow> (case scalar_one_or_none (active_apps u (ac_job_id data) d) of
           Inl e \<Rightarrow> (d, Inl e) | Inr (Some x) \<Rightarrow> (d, Inr x) | Inr None \<Rightarrow> (d, Inl DBIntegrityError)))"
proof -
  have pk: "pk_ok d" using assms(1) by (simp add: db_ok_def)
  have "assert_owned (Some u) j_user j_id ''Job'' (ac_job_id data) (jobs d) = Inr ()"
    using assms(2) by (simp add: assert_owned_iff(1) [OF pk] create_allowed_def)
  moreover have "(if truthy (ac_resume_id data)
      then assert_owned (Some u) r_user r_id ''Resume'' (or_empty (ac_resume_id data)) (resumes d)
      else Inr ()) = Inr ()"
    using assms(2) by (simp add: assert_owned_iff(2) [OF pk] create_allowed_def)
  ultimately show ?thesis
    unfolding create_application_def existing_query by (simp add: Let_def)
qed

lemma create_application_new:
  assumes "db_ok d" and "i \<notin> a_id ` set (applications d)"
    and "create_allowed u (ac_job_id data) (ac_resume_id data) d"
    and "active_apps u (ac_job_id data) d = []"
  shows "create_application (Some u) u data i now d =
    (d\<lparr>applications := applications d @
        [new_application i u (ac_job_id data) (ac_resume_id data) (ac_mode data) now]\<rparr>,
     Inr (new_application i u (ac_job_id data) (ac_resume_id data) (ac_mode data) now))"
  using append_fresh_ok [OF assms(1,2)] assms(4)
  by (simp add: create_application_reduce [OF assms(1,3)] commit_def Let_def)

lemma create_application_existing:
  assumes "db_ok d" and "i \<notin> a_id ` set (applications d)"
    and "create_allowed u (ac_job_id data) (ac_resume_id data) d"
    and "active_apps u (ac_job_id data) d = [x]"
  shows "create_application (Some u) u data i now d = (d, Inr x)"
  using append_fresh_ok [OF assms(1,2)] assms(4)
  by (simp add: create_application_reduce [OF assms(1,3)] commit_def Let_def)

text \<open>
  C7: creating an application twice is creating it once. For a job and resume of the user, the
  first call inserts a queued row (or returns the active one), and any later call for the same job
  returns that very row and leaves the database as it is.
\<close>

theorem create_application_idempotent:
  assumes "db_ok d" and "create_allowed u (ac_job_id data) (ac_resume_id data) d"
    and "i \<notin> a_id ` set (applications d)" and "i' \<notin> insert i (a_id ` set (applications d))"
    and "ac_job_id data' = ac_job_id data" and "create_allowed u (ac_job_id data') (ac_resume_id data') d"
  shows "\<exists>d' a. create_application (Some u) u data i now d = (d', Inr a)
           \<and> active_apps u (ac_job_id data) d' = [a]
           \<and> create_application (Some u) u data' i' now2 d' = (d', Inr a)"
proof (cases "active_apps u (ac_job_id data) d = []")
  case True
  let ?a = "new_application i u (ac_job_id data) (ac_resume_id data) (ac_mode data) now"
  let ?d = "d\<lparr>applications := applications d @ [?a]\<rparr>"
  have c: "create_application (Some u) u data i now d = (?d, Inr ?a)"
    by (rule create_application_new [OF assms(1,3,2) True])
  have ok: "db_ok ?d" using append_fresh_ok [OF assms(1,3)] True by simp
  have act: "active_apps u (ac_job_id data) ?d = [?a]"
    using True by (simp add: active_apps_def) (simp add: new_application_def)
  have al: "create_allowed u (ac_job_id data') (ac_resume_id data') ?d"
    using assms(6) by (simp add: create_allowed_def)
  have "i' \<notin> a_id ` set (applications ?d)" using assms(4) by (auto simp: new_application_def)
  from create_application_existing [OF ok this al] act assms(5)
  have c2: "create_application (Some u) u data' i' now2 ?d = (?d, Inr ?a)" by simp
  show ?thesis by (intro exI [of _ ?d] exI [of _ ?a] conjI c act c2)
next
  case False
  then obtain x where x: "active_apps u (ac_job_id data) d = [x]"
    using active_apps_le_one [OF assms(1)] by blast
  have "i' \<notin> a_id ` set (applications d)" using assms(4) by simp
  from create_application_existing [OF assms(1) this assms(6)] assms(5) x
  have c2: "create_application (Some u) u data' i' now2 d = (d, Inr x)" by simp
  have c1: "create_application (Some u) u data i now d = (d, Inr x)"
    by (rule create_application_existing [OF assms(1,3,2) x])
  show ?thesis by (intro exI [of _ d] exI [of _ x] conjI c1 x c2)
qed

text \<open>A small database for the concrete instances: one user, one job of theirs, no application.\<close>

definition sample_job :: job where
  "sample_job = \<lparr>j_id = ''j1'', j_user = ''u1'', j_platform = ''linkedin'', j_platform_job_id = ''p1'',
     j_title = ''Engineer'', j_company = ''Acme'', j_location = [], j_url = ''x'', j_description = [],
     j_salary_range = None, j_job_type = None, j_remote = False, j_posted_date = None, j_experience_level = None,
     j_match_score = None, j_skills_required = None,
     j_status = JOB_NEW, j_created_at = 0\<rparr>"

definition sample_db :: db where
  "sample_db = empty_db\<lparr>jobs := [sample_job, sample_job\<lparr>j_id := ''j2'', j_platform_job_id := ''p2''\<rparr>]\<rparr>"

definition sample_create :: application_create where
  "sample_create = \<lparr>ac_job_id = ''j1'', ac_resume_id = None, ac_mode = AUTONOMOUS\<rparr>"

lemmas sample_defs = sample_db_def sample_job_def sample_create_def empty_db_def uq_shared_def

lemma sample_db_ok: "db_ok sample_db"
  by (simp add: sample_defs db_ok_def pk_ok_def uq_app_active_job_def uq_job_platform_id_def
      uq_user_email_def)

theorem create_application_idempotent_witness:
  "\<exists>d' a. create_application (Some ''u1'') ''u1'' sample_create ''a1'' 5 sample_db = (d', Inr a)
     \<and> active_apps ''u1'' ''j1'' d' = [a]
     \<and> create_application (Some ''u1'') ''u1'' sample_create ''a2'' 6 d' = (d', Inr a)"
proof -
  have al: "create_allowed ''u1'' (ac_job_id sample_create) (ac_resume_id sample_create) sample_db"
    by (simp add: create_allowed_def sample_defs)
  show ?thesis
    using create_application_idempotent [OF sample_db_ok al _ _ refl al, of "''a1''" "''a2''" 5 6]
    by (simp add: sample_defs)
qed

text \<open>
  C8: approval is guarded. In a database that satisfies its constraints, approving succeeds exactly
  on a row of the caller in \<^verbatim>\<open>pending_review\<close> or \<^verbatim>\<open>queued\<close>, and then changes that row's status to
  \<^verbatim>\<open>approved\<close> and nothing else; otherwise it raises \<^verbatim>\<open>RecordNotFoundError\<close> (no such row of the caller)
  or \<^verbatim>\<open>ValueError\<close> (another state) and changes nothing. It never fails on a constraint.
\<close>

theorem approve_application_spec:
  assumes "db_ok d" and "approve_application (Some u) i d = (d', r)"
  shows "case r of
      Inr a \<Rightarrow> (\<exists>x \<in> set (applications d). a_id x = i \<and> a_user x = u \<and> is_staged x \<and> a = x\<lparr>a_status := APPROVED\<rparr>)
        \<and> d' = d\<lparr>applications := update_where (\<lambda>x. a_id x = i) (\<lambda>_. a) (applications d)\<rparr>
    | Inl e \<Rightarrow> d' = d \<and>
        (e = RecordNotFoundError ''Application'' i \<and> (\<forall>x \<in> set (applications d). a_id x = i \<longrightarrow> a_user x \<noteq> u)
         \<or> (\<exists>m. e = ValueError m) \<and> (\<exists>x \<in> set (applications d). a_id x = i \<and> a_user x = u \<and> \<not> is_staged x))"
proof (cases "get_application (Some u) i d")
  case (Inl e)
  obtain o' where "find_row (Some u) a_user a_id i (applications d) = Inr o'"
    using app_tbl.find_total [of d "Some u" i] assms(1) by (auto simp: db_ok_def)
  with Inl have o': "o' = None" and e: "e = RecordNotFoundError ''Application'' i"
    by (auto simp: get_application_def split: option.splits)
  have "\<forall>x \<in> set (applications d). a_id x = i \<longrightarrow> a_user x \<noteq> u"
    using get_application_present [OF assms(1)] Inl by (metis Inl_Inr_False)
  moreover have "d' = d" and "r = Inl e" using Inl assms(2) by (simp_all add: approve_application_def)
  ultimately show ?thesis using e by simp
next
  case (Inr x)
  then have x: "x \<in> set (applications d)" "a_user x = u" "a_id x = i"
    using get_application_owned by auto
  show ?thesis
  proof (cases "is_staged x")
    case True
    let ?a = "x\<lparr>a_status := APPROVED\<rparr>"
    have "save_application ?a d =
        (d\<lparr>applications := update_where (\<lambda>y. a_id y = a_id ?a) (\<lambda>_. ?a) (applications d)\<rparr>, Inr ?a)"
      using True by (intro save_application_succeeds [OF assms(1) x(1)])
        (auto simp: app_key_def is_active_app_def terminal_iff is_staged_def)
    then have "(d', r) = (d\<lparr>applications := update_where (\<lambda>y. a_id y = i) (\<lambda>_. ?a) (applications d)\<rparr>, Inr ?a)"
      using assms(2) Inr x(3) True by (auto simp: approve_application_def is_staged_def)
    with x True show ?thesis by auto
  next
    case False
    then show ?thesis using assms(2) Inr x by (auto simp: approve_application_def is_staged_def)
  qed
qed

definition staged_db :: db where
  "staged_db = sample_db\<lparr>applications :=
     [(new_application ''a1'' ''u1'' ''j1'' None REVIEW 1)\<lparr>a_status := PENDING_REVIEW\<rparr>,
      new_application ''a2'' ''u1'' ''j2'' None BATCH 2]\<rparr>"

lemma staged_db_ok: "db_ok staged_db"
  by (simp add: staged_db_def sample_defs db_ok_def pk_ok_def uq_app_active_job_def app_key_def
      uq_job_platform_id_def uq_user_email_def new_application_def)

lemma approve_staged_result:
  "snd (approve_application (Some ''u1'') ''a1'' staged_db) =
     Inr ((new_application ''a1'' ''u1'' ''j1'' None REVIEW 1)\<lparr>a_status := APPROVED\<rparr>)"
proof -
  let ?x = "(new_application ''a1'' ''u1'' ''j1'' None REVIEW 1)\<lparr>a_status := PENDING_REVIEW\<rparr>"
  have x: "?x \<in> set (applications staged_db)" by (simp add: staged_db_def)
  have "get_application (Some ''u1'') ''a1'' staged_db = Inr ?x"
    using get_application_present [OF staged_db_ok x] by (simp add: new_application_def)
  moreover have "save_application (?x\<lparr>a_status := APPROVED\<rparr>) staged_db = (staged_db\<lparr>applications :=
      update_where (\<lambda>y. a_id y = a_id (?x\<lparr>a_status := APPROVED\<rparr>)) (\<lambda>_. ?x\<lparr>a_status := APPROVED\<rparr>)
        (applications staged_db)\<rparr>, Inr (?x\<lparr>a_status := APPROVED\<rparr>))"
    by (rule save_application_succeeds [OF staged_db_ok x])
      (simp_all add: app_key_def is_active_app_def terminal_iff)
  ultimately show ?thesis by (simp add: approve_application_def)
qed

theorem approve_application_spec_witness:
  "\<exists>d'. d' = staged_db\<lparr>applications := update_where (\<lambda>x. a_id x = ''a1'')
     (\<lambda>_. (new_application ''a1'' ''u1'' ''j1'' None REVIEW 1)\<lparr>a_status := APPROVED\<rparr>) (applications staged_db)\<rparr>
     \<and> fst (approve_application (Some ''u1'') ''a1'' staged_db) = d'"
  using approve_application_spec [OF staged_db_ok prod.collapse [symmetric], of "''u1''" "''a1''"]
  by (simp add: approve_staged_result)

text \<open>
  walking the pages of the list shows every matching application of the caller exactly once, in
  creation order, newest first, and the flag \<^verbatim>\<open>has_next\<close> is true exactly on the pages before the end.
\<close>

theorem list_applications_pages:
  assumes "length rows \<le> n * k" and "k = min page_size MAX_PAGE_SIZE"
    and "rows = filter (\<lambda>a. case st of None \<Rightarrow> True | Some s \<Rightarrow> a_status a = s) (select_rows c a_user (applications d))"
  shows "concat (map (\<lambda>p. map ar_app (al_items (list_applications c (Suc p) page_size st d))) [0..<n])
           = order_desc a_created_at rows
    \<and> (al_has_next (list_applications c p page_size st d) \<longleftrightarrow> drop (p * k) (order_desc a_created_at rows) \<noteq> [])
    \<and> al_total (list_applications c p page_size st d) = length rows"
proof (intro conjI)
  have item: "ar_app (application_to_response l a) = a" for l a
    by (simp add: application_to_response_def split: option.split)
  have "map ar_app (al_items (list_applications c p page_size st d)) =
      page_slice p k (order_desc a_created_at rows)" for p
    using assms(2,3) by (simp add: list_applications_def Let_def comp_def item)
  then show "concat (map (\<lambda>p. map ar_app (al_items (list_applications c (Suc p) page_size st d))) [0..<n])
      = order_desc a_created_at rows"
    using pages_cover [of "order_desc a_created_at rows" n k] assms(1) by simp
  show "al_has_next (list_applications c p page_size st d) \<longleftrightarrow> drop (p * k) (order_desc a_created_at rows) \<noteq> []"
    using assms(2,3) by (auto simp: list_applications_def Let_def not_le)
  show "al_total (list_applications c p page_size st d) = length rows"
    using assms(3) by (simp add: list_applications_def Let_def)
qed

theorem list_applications_pages_witness:
  "concat (map (\<lambda>p. map ar_app (al_items (list_applications (Some ''u1'') (Suc p) 1 None staged_db))) [0..<2])
     = order_desc a_created_at (applications staged_db)"
  using list_applications_pages [of _ 2 1 1 None "Some ''u1''" staged_db, OF _ _ refl]
  by (simp add: staged_db_def MAX_PAGE_SIZE_def new_application_def)

text \<open>
  the batch. When every requested job (and the resume) is the caller's and the generated ids are
  fresh, the batch inserts one queued row for every requested job without an active application, in
  request order; but if such a job is listed twice, the unique index rejects the whole batch.
\<close>

theorem create_batch_spec:
  assumes "db_ok d" and "inj gen" and "\<And>k. gen k \<notin> a_id ` set (applications d)"
    and "\<And>j. j \<in> set (ab_job_ids data) \<Longrightarrow> create_allowed u j (ab_resume_id data) d"
    and "ab_job_ids data \<noteq> []"
  defines "todo \<equiv> filter (\<lambda>j. active_apps u j d = []) (ab_job_ids data)"
  shows "if distinct todo
     then \<exists>new. create_batch (Some u) u data gen now d = (d\<lparr>applications := applications d @ new\<rparr>, Inr new)
            \<and> map a_job new = todo \<and> (\<forall>a \<in> set new. a_user a = u \<and> a_status a = QUEUED \<and> a_mode a = ab_mode data)
     else create_batch (Some u) u data gen now d = (d, Inl DBIntegrityError)"
proof -
  let ?js = "ab_job_ids data"
  let ?active = "map a_job (filter (\<lambda>a. a_job a \<in> set ?js \<and> a_status a \<notin> set terminal_states)
      (select_rows (Some u) a_user (applications d)))"
  let ?new = "batch_rows u (ab_resume_id data) (ab_mode data) now ?active gen 0 ?js"
  have pk: "pk_ok d" and uq: "uq_app_active_job (applications d)" and pka: "distinct (map a_id (applications d))"
    using assms(1) by (auto simp: db_ok_def pk_ok_def)
  have active: "j \<in> set ?active \<longleftrightarrow> active_apps u j d \<noteq> []" if "j \<in> set ?js" for j
    using that by (auto simp: active_apps_def is_active_app_def filter_empty_conv)
  have todo: "filter (\<lambda>j. j \<notin> set ?active) ?js = todo"
    unfolding todo_def using active by (intro filter_cong) auto
  have res: "(if truthy (ab_resume_id data)
      then assert_owned (Some u) r_user r_id ''Resume'' (or_empty (ab_resume_id data)) (resumes d)
      else Inr ()) = Inr ()"
    using assms(4,5) by (cases ?js) (auto simp: assert_owned_iff(2) [OF pk] create_allowed_def)
  have own: "filter (\<lambda>i. i \<notin> j_id ` {j \<in> set (select_rows (Some u) j_user (jobs d)). j_id j \<in> set ?js}) (remdups ?js) = []"
    using assms(4) by (fastforce simp: filter_empty_conv create_allowed_def)
  have red: "create_batch (Some u) u data gen now d =
      (case commit (d\<lparr>applications := applications d @ ?new\<rparr>) d of
         (d', Inr _) \<Rightarrow> (d', Inr ?new) | (d', Inl e) \<Rightarrow> (d', Inl e))"
    unfolding create_batch_def res using own
    by (simp add: Let_def del: select_rows_simps filter_filter)
  have ids: "distinct (map a_id (applications d @ ?new))"
  proof -
    have "distinct (map a_id ?new)"
      by (rule batch_rows_distinct [OF assms(2)])
    moreover have "a_id ` set (applications d) \<inter> a_id ` set ?new = {}"
      by (rule batch_rows_fresh [OF assms(3)])
    ultimately show ?thesis using pka by simp
  qed
  have "db_ok (d\<lparr>applications := applications d @ ?new\<rparr>) \<longleftrightarrow> distinct todo"
    unfolding db_ok_applications [OF assms(1)] using ids todo active
    by (subst uq_append_batch [OF uq]) (auto simp: active_apps_def filter_empty_conv)
  moreover have "map a_job ?new = todo" using todo by (simp add: batch_rows_job)
  ultimately show ?thesis
    unfolding red by (auto simp: commit_def dest: batch_rows_fields)
qed

theorem create_batch_spec_witness:
  "create_batch (Some ''u1'') ''u1'' \<lparr>ab_job_ids = [''j1'', ''j1''], ab_resume_id = None, ab_mode = BATCH\<rparr>
     (\<lambda>k. ''x'' @ replicate k (CHR ''y'')) 7 sample_db = (sample_db, Inl DBIntegrityError)"
proof -
  have inj: "inj (\<lambda>k. ''x'' @ replicate k (CHR ''y''))" by (auto simp: inj_def dest: arg_cong [of _ _ length])
  show ?thesis
    using create_batch_spec [OF sample_db_ok inj, where u = "''u1''" and now = 7
      and data = "\<lparr>ab_job_ids = [''j1'', ''j1''], ab_resume_id = None, ab_mode = BATCH\<rparr>"]
    by (simp add: sample_defs create_allowed_def active_apps_def)
qed

end
