(* ===== verification/Dispatch.thy ===== *)
theory Dispatch
  imports Applications
begin

text \<open>
  Dispatch (\<^verbatim>\<open>services/dispatch.py\<close>, \<^verbatim>\<open>services/queue_backend.py\<close>) and the application routes
  (\<^verbatim>\<open>api/v1/applications.py\<close>) that compose it with the application service. The Arq pool is not code of
  this repository: its \<^verbatim>\<open>enqueue_job\<close> is an argument, and the locale \<open>arq_pool\<close> states the documented
  behaviour that the code relies on (a job id that Arq still knows is not enqueued twice).
\<close>

section \<open>The queue interface\<close>

type_synonym 'p enqueue_job = "'p \<Rightarrow> str \<Rightarrow> str \<Rightarrow> str option \<Rightarrow> nat option \<Rightarrow> 'p \<times> str option"

text \<open>
  \<open>known\<close> are the job ids that Arq remembers (queued, running, or with a kept result) and \<open>queued\<close>
  the jobs that wait: id, task name, argument.
\<close>

locale arq_pool =
  fixes enqueue_job :: "'p enqueue_job"
    and known :: "'p \<Rightarrow> str set"
    and queued :: "'p \<Rightarrow> (str \<times> str \<times> str) list"
  assumes enqueue_fresh: "jid \<notin> known p \<Longrightarrow> enqueue_job p task x (Some jid) def = (p', r) \<Longrightarrow>
      r = Some jid \<and> known p' = insert jid (known p) \<and> queued p' = queued p @ [(jid, task, x)]"
    and enqueue_dup: "jid \<in> known p \<Longrightarrow> enqueue_job p task x (Some jid) def = (p', r) \<Longrightarrow>
      r = None \<and> known p' = known p \<and> queued p' = queued p"

section \<open>Operations\<close>

definition APPLY_TASK :: str where "APPLY_TASK = ''apply_to_job''"
definition REVIEW_TASK :: str where "REVIEW_TASK = ''review_application_run''"

definition apply_job_id :: "str \<Rightarrow> str" where
  "apply_job_id i = ''apply:'' @ i"

text \<open>\<^verbatim>\<open>ArqBackend.enqueue\<close>: the job id, or None on a dedup hit.\<close>

definition arq_backend_enqueue ::
  "'p enqueue_job \<Rightarrow> 'p \<Rightarrow> str \<Rightarrow> str \<Rightarrow> str option \<Rightarrow> nat option \<Rightarrow> 'p \<times> str option" where
  "arq_backend_enqueue enq pool task x job_id defer = enq pool task x job_id defer"

definition enqueue_apply ::
  "'p enqueue_job \<Rightarrow> 'p option \<Rightarrow> str \<Rightarrow> nat option \<Rightarrow> 'p option \<times> str option" where
  "enqueue_apply enq pool i defer =
     (case pool of
        None \<Rightarrow> (None, None)
      | Some p \<Rightarrow> (case enq p APPLY_TASK i (Some (apply_job_id i)) defer of (p', j) \<Rightarrow> (Some p', j)))"

text \<open>Status by mode; only the autonomous mode enqueues. The row is the one just created or returned.\<close>

definition dispatch_for_mode ::
  "'p enqueue_job \<Rightarrow> 'p option \<Rightarrow> application \<Rightarrow> db \<Rightarrow> (db \<times> 'p option) \<times> (exn + application)" where
  "dispatch_for_mode enq pool a d =
     (if a_mode a = AUTONOMOUS then
        (case save_application (a\<lparr>a_status := QUEUED\<rparr>) d of
           (d', Inl e) \<Rightarrow> ((d', pool), Inl e)
         | (d', Inr a') \<Rightarrow> ((d', fst (enqueue_apply enq pool (a_id a') None)), Inr a'))
      else
        (case save_application (a\<lparr>a_status := PENDING_REVIEW\<rparr>) d of
           (d', r) \<Rightarrow> ((d', pool), r)))"

fun enqueue_all :: "'p enqueue_job \<Rightarrow> 'p option \<Rightarrow> str list \<Rightarrow> 'p option" where
  "enqueue_all enq pool [] = pool"
| "enqueue_all enq pool (i # is) = enqueue_all enq (fst (enqueue_apply enq pool i None)) is"

definition bulk_approve ::
  "'p enqueue_job \<Rightarrow> 'p option \<Rightarrow> ctx \<Rightarrow> str list \<Rightarrow> db \<Rightarrow> (db \<times> 'p option) \<times> (exn + nat)" where
  "bulk_approve enq pool c ids d =
     (let apps = filter (\<lambda>a. a_id a \<in> set ids \<and> is_staged a) (select_rows c a_user (applications d));
          sel = map a_id apps
      in case commit (d\<lparr>applications :=
                update_where (\<lambda>a. a_id a \<in> set sel) (\<lambda>a. a\<lparr>a_status := APPROVED\<rparr>) (applications d)\<rparr>) d of
           (d', Inl e) \<Rightarrow> ((d', pool), Inl e)
         | (d', Inr _) \<Rightarrow> ((d', enqueue_all enq pool sel), Inr (length apps)))"

section \<open>Routes\<close>

text \<open>\<^verbatim>\<open>POST /applications\<close>: create (or return the existing row), then dispatch it.\<close>

definition create_route ::
  "'p enqueue_job \<Rightarrow> str \<Rightarrow> application_create \<Rightarrow> str \<Rightarrow> int \<Rightarrow> db \<times> 'p option
     \<Rightarrow> (db \<times> 'p option) \<times> (exn + application_response)" where
  "create_route enq u data new_id now s =
     (case create_application (Some u) u data new_id now (fst s) of
        (d', Inl e) \<Rightarrow> ((d', snd s), Inl e)
      | (d', Inr a) \<Rightarrow>
         (case dispatch_for_mode enq (snd s) a d' of
            (s', Inl e) \<Rightarrow> (s', Inl e)
          | (s', Inr a') \<Rightarrow> (s', Inr (application_to_response None a'))))"

fun dispatch_each ::
  "'p enqueue_job \<Rightarrow> application list \<Rightarrow> db \<times> 'p option \<Rightarrow> (db \<times> 'p option) \<times> (exn + application list)" where
  "dispatch_each enq [] s = (s, Inr [])"
| "dispatch_each enq (a # as) s =
     (case dispatch_for_mode enq (snd s) a (fst s) of
        (s', Inl e) \<Rightarrow> (s', Inl e)
      | (s', Inr a') \<Rightarrow>
         (case dispatch_each enq as s' of
            (s'', Inl e) \<Rightarrow> (s'', Inl e)
          | (s'', Inr as') \<Rightarrow> (s'', Inr (a' # as'))))"

definition batch_route ::
  "'p enqueue_job \<Rightarrow> str \<Rightarrow> application_batch_create \<Rightarrow> (nat \<Rightarrow> str) \<Rightarrow> int \<Rightarrow> db \<times> 'p option
     \<Rightarrow> (db \<times> 'p option) \<times> (exn + application_response list)" where
  "batch_route enq u data gen now s =
     (case create_batch (Some u) u data gen now (fst s) of
        (d', Inl e) \<Rightarrow> ((d', snd s), Inl e)
      | (d', Inr as) \<Rightarrow>
         (case dispatch_each enq as (d', snd s) of
            (s', Inl e) \<Rightarrow> (s', Inl e)
          | (s', Inr as') \<Rightarrow> (s', Inr (map (application_to_response None) as'))))"

definition approve_route ::
  "'p enqueue_job \<Rightarrow> str \<Rightarrow> str \<Rightarrow> db \<times> 'p option \<Rightarrow> (db \<times> 'p option) \<times> (exn + application_response)" where
  "approve_route enq u i s =
     (case approve_application (Some u) i (fst s) of
        (d', Inl e) \<Rightarrow> ((d', snd s), Inl e)
      | (d', Inr a) \<Rightarrow>
          ((d', fst (enqueue_apply enq (snd s) (a_id a) None)),
           Inr (application_to_response (Some (db_get (Some u) j_user j_id (a_job a) (jobs d'))) a)))"

definition get_route :: "str \<Rightarrow> str \<Rightarrow> db \<times> 'p option \<Rightarrow> exn + application_response" where
  "get_route u i s =
     (case get_application (Some u) i (fst s) of
        Inl e \<Rightarrow> Inl e
      | Inr a \<Rightarrow> Inr (application_to_response
          (Some (db_get (Some u) j_user j_id (a_job a) (jobs (fst s)))) a))"

definition update_status_route ::
  "str \<Rightarrow> str \<Rightarrow> application_status_update \<Rightarrow> int \<Rightarrow> db \<times> 'p option
     \<Rightarrow> (db \<times> 'p option) \<times> (exn + application_response)" where
  "update_status_route u i upd now s =
     (case update_status (Some u) i upd now (fst s) of
        (d', Inl e) \<Rightarrow> ((d', snd s), Inl e)
      | (d', Inr a) \<Rightarrow> ((d', snd s),
           Inr (application_to_response (Some (db_get (Some u) j_user j_id (a_job a) (jobs d'))) a)))"

section \<open>Consequences of the queue interface\<close>

context arq_pool
begin

lemma enqueue_apply_known:
  "known (the (fst (enqueue_apply enqueue_job (Some p) i def))) = insert (apply_job_id i) (known p)"
proof (cases "apply_job_id i \<in> known p")
  case True
  with enqueue_dup [OF this, of APPLY_TASK i "def"] show ?thesis
    by (auto simp: enqueue_apply_def split: prod.split)
next
  case False
  with enqueue_fresh [OF this, of APPLY_TASK i "def"] show ?thesis
    by (auto simp: enqueue_apply_def split: prod.split)
qed

lemma enqueue_apply_queued:
  "queued (the (fst (enqueue_apply enqueue_job (Some p) i def))) =
     queued p @ (if apply_job_id i \<in> known p then [] else [(apply_job_id i, APPLY_TASK, i)])"
proof (cases "apply_job_id i \<in> known p")
  case True
  with enqueue_dup [OF this, of APPLY_TASK i "def"] show ?thesis
    by (auto simp: enqueue_apply_def split: prod.split)
next
  case False
  with enqueue_fresh [OF this, of APPLY_TASK i "def"] show ?thesis
    by (auto simp: enqueue_apply_def split: prod.split)
qed

lemma enqueue_apply_Some: "\<exists>p'. fst (enqueue_apply enqueue_job (Some p) i def) = Some p'"
  by (auto simp: enqueue_apply_def split: prod.split)

text \<open>Enqueueing twice is enqueueing once.\<close>

lemma enqueue_apply_idem:
  assumes "fst (enqueue_apply enqueue_job (Some p) i def) = Some p'"
  shows "queued (the (fst (enqueue_apply enqueue_job (Some p') i def'))) = queued p'"
  using enqueue_apply_queued [of p' i def'] enqueue_apply_known [of p i "def"] assms by simp

lemma enqueue_all_Some: "\<exists>p'. enqueue_all enqueue_job (Some p) is = Some p'"
proof (induction "is" arbitrary: p)
  case (Cons i "is")
  then show ?case using enqueue_apply_Some [of p i None] by auto
qed simp

lemma enqueue_all_known:
  "known (the (enqueue_all enqueue_job (Some p) is)) = known p \<union> apply_job_id ` set is"
proof (induction "is" arbitrary: p)
  case (Cons i "is")
  obtain p' where p': "fst (enqueue_apply enqueue_job (Some p) i None) = Some p'"
    using enqueue_apply_Some by blast
  with enqueue_apply_known [of p i None] Cons.IH [of p'] show ?case by auto
qed simp

lemma enqueue_all_queued:
  assumes "distinct is"
  shows "queued (the (enqueue_all enqueue_job (Some p) is)) = queued p @
     map (\<lambda>i. (apply_job_id i, APPLY_TASK, i)) (filter (\<lambda>i. apply_job_id i \<notin> known p) is)"
  using assms
proof (induction "is" arbitrary: p)
  case (Cons i "is")
  obtain p' where p': "fst (enqueue_apply enqueue_job (Some p) i None) = Some p'"
    using enqueue_apply_Some by blast
  have k: "known p' = insert (apply_job_id i) (known p)"
    using enqueue_apply_known [of p i None] p' by simp
  have q: "queued p' = queued p @ (if apply_job_id i \<in> known p then [] else [(apply_job_id i, APPLY_TASK, i)])"
    using enqueue_apply_queued [of p i None] p' by simp
  have "filter (\<lambda>i. apply_job_id i \<notin> known p') is = filter (\<lambda>i. apply_job_id i \<notin> known p) is"
    using Cons.prems k by (intro filter_cong) (auto simp: apply_job_id_def)
  with Cons.IH [of p'] Cons.prems p' q show ?case by simp
qed simp

end

section \<open>Functional behaviour\<close>

lemma save_active_status:
  assumes "db_ok d" and "a \<in> set (applications d)" and "is_active_app a" and "s \<notin> set terminal_states"
  shows "save_application (a\<lparr>a_status := s\<rparr>) d =
    (d\<lparr>applications := update_where (\<lambda>x. a_id x = a_id a) (\<lambda>_. a\<lparr>a_status := s\<rparr>) (applications d)\<rparr>,
     Inr (a\<lparr>a_status := s\<rparr>))"
  using save_application_succeeds [OF assms(1,2), of "a\<lparr>a_status := s\<rparr>"] assms(3,4)
  by (simp add: app_key_def is_active_app_def)

text \<open>The commit of a bulk approval cannot fail: staged and approved rows are both active.\<close>

lemma bulk_approve_reduce:
  fixes u :: str and ids :: "str list"
  assumes "db_ok d"
  defines "sel \<equiv> filter (\<lambda>a. a_user a = u \<and> a_id a \<in> set ids \<and> is_staged a) (applications d)"
  shows "bulk_approve enq pool (Some u) ids d =
      ((d\<lparr>applications := update_where (\<lambda>a. a \<in> set sel) (\<lambda>a. a\<lparr>a_status := APPROVED\<rparr>) (applications d)\<rparr>,
        enqueue_all enq pool (map a_id sel)), Inr (length sel))"
proof -
  have pk: "distinct (map a_id (applications d))" and uq: "uq_app_active_job (applications d)"
    using assms(1) by (auto simp: db_ok_def pk_ok_def)
  have sel: "filter (\<lambda>a. a_id a \<in> set ids \<and> is_staged a) (select_rows (Some u) a_user (applications d)) = sel"
    by (auto simp: sel_def intro: filter_cong)
  have member: "a_id a \<in> set (map a_id sel) \<longleftrightarrow> a \<in> set sel" if "a \<in> set (applications d)" for a
    using key_unique [OF pk that] by (auto simp: sel_def)
  let ?upd = "update_where (\<lambda>a. a \<in> set sel) (\<lambda>a. a\<lparr>a_status := APPROVED\<rparr>) (applications d)"
  have upd: "update_where (\<lambda>a. a_id a \<in> set (map a_id sel)) (\<lambda>a. a\<lparr>a_status := APPROVED\<rparr>) (applications d) = ?upd"
    unfolding update_where_def using member by (intro map_cong) auto
  have "uq_app_active_job ?upd"
    by (rule uq_update [OF uq]) (auto simp: sel_def app_key_def is_active_app_def is_staged_def terminal_iff)
  moreover have "map a_id ?upd = map a_id (applications d)" by (rule map_update_where) simp
  ultimately have ok: "db_ok (d\<lparr>applications := ?upd\<rparr>)"
    using pk by (simp add: db_ok_applications [OF assms(1)])
  show ?thesis
    unfolding bulk_approve_def sel Let_def upd using ok by (simp add: commit_def)
qed

lemma bulk_approve_db_ok: "db_ok d \<Longrightarrow> db_ok (fst (fst (bulk_approve enq pool c ids d)))"
  by (simp add: bulk_approve_def commit_def Let_def)

definition dispatched_status :: "apply_mode \<Rightarrow> application_status" where
  "dispatched_status m = (if m = AUTONOMOUS then QUEUED else PENDING_REVIEW)"

context arq_pool
begin

lemma dispatch_active_row:
  assumes "db_ok d" and "a \<in> set (applications d)" and "is_active_app a"
  defines "b \<equiv> a\<lparr>a_status := dispatched_status (a_mode a)\<rparr>"
  shows "\<exists>p'. dispatch_for_mode enqueue_job (Some p) a d =
      ((d\<lparr>applications := update_where (\<lambda>x. a_id x = a_id a) (\<lambda>_. b) (applications d)\<rparr>, Some p'), Inr b)
    \<and> queued p' = queued p @ (if a_mode a = AUTONOMOUS \<and> apply_job_id (a_id a) \<notin> known p
        then [(apply_job_id (a_id a), APPLY_TASK, a_id a)] else [])"
proof (cases "a_mode a = AUTONOMOUS")
  case True
  obtain p' where p': "fst (enqueue_apply enqueue_job (Some p) (a_id a) None) = Some p'"
    using enqueue_apply_Some by blast
  have "save_application (a\<lparr>a_status := QUEUED\<rparr>) d =
      (d\<lparr>applications := update_where (\<lambda>x. a_id x = a_id a) (\<lambda>_. b) (applications d)\<rparr>, Inr b)"
    using save_active_status [OF assms(1-3), of QUEUED] True
    by (simp add: b_def dispatched_status_def terminal_iff)
  with True p' enqueue_apply_queued [of p "a_id a" None] show ?thesis
    by (simp add: dispatch_for_mode_def b_def)
next
  case False
  have "save_application (a\<lparr>a_status := PENDING_REVIEW\<rparr>) d =
      (d\<lparr>applications := update_where (\<lambda>x. a_id x = a_id a) (\<lambda>_. b) (applications d)\<rparr>, Inr b)"
    using save_active_status [OF assms(1-3), of PENDING_REVIEW] False
    by (simp add: b_def dispatched_status_def terminal_iff)
  with False show ?thesis by (simp add: dispatch_for_mode_def)
qed

lemma create_route_existing:
  assumes "db_ok d" and "i \<notin> a_id ` set (applications d)"
    and "create_allowed u (ac_job_id data) (ac_resume_id data) d"
    and "active_apps u (ac_job_id data) d = [x]"
  defines "y \<equiv> x\<lparr>a_status := dispatched_status (a_mode x)\<rparr>"
  shows "\<exists>p' r. create_route enqueue_job u data i now (d, Some p) =
      ((d\<lparr>applications := update_where (\<lambda>z. a_id z = a_id x) (\<lambda>_. y) (applications d)\<rparr>, Some p'), Inr r)
    \<and> ar_app r = y
    \<and> queued p' = queued p @ (if a_mode x = AUTONOMOUS \<and> apply_job_id (a_id x) \<notin> known p
        then [(apply_job_id (a_id x), APPLY_TASK, a_id x)] else [])"
proof -
  have x: "x \<in> set (active_apps u (ac_job_id data) d)" using assms(4) by simp
  then have "x \<in> set (applications d)" and "is_active_app x" by (auto simp: active_apps_def)
  from dispatch_active_row [OF assms(1) this, of p]
    create_application_existing [OF assms(1-4), of now]
  show ?thesis unfolding y_def
    by (auto simp: create_route_def application_to_response_def)
qed

lemma bulk_approve_result:
  fixes u :: str and ids :: "str list"
  assumes "db_ok d"
  defines "sel \<equiv> filter (\<lambda>a. a_user a = u \<and> a_id a \<in> set ids \<and> is_staged a) (applications d)"
  shows "\<exists>p'. bulk_approve enqueue_job (Some p) (Some u) ids d =
      ((d\<lparr>applications := update_where (\<lambda>a. a \<in> set sel) (\<lambda>a. a\<lparr>a_status := APPROVED\<rparr>) (applications d)\<rparr>,
        Some p'), Inr (length sel))
    \<and> queued p' = queued p @ map (\<lambda>i. (apply_job_id i, APPLY_TASK, i))
        (filter (\<lambda>i. apply_job_id i \<notin> known p) (map a_id sel))"
proof -
  have dist: "distinct (map a_id sel)"
    using assms(1) by (simp add: sel_def distinct_map_filter db_ok_def pk_ok_def)
  obtain p' where p': "enqueue_all enqueue_job (Some p) (map a_id sel) = Some p'"
    using enqueue_all_Some by blast
  have "bulk_approve enqueue_job (Some p) (Some u) ids d =
      ((d\<lparr>applications := update_where (\<lambda>a. a \<in> set sel) (\<lambda>a. a\<lparr>a_status := APPROVED\<rparr>) (applications d)\<rparr>,
        enqueue_all enqueue_job (Some p) (map a_id sel)), Inr (length sel))"
    unfolding sel_def by (rule bulk_approve_reduce [OF assms(1)])
  with p' enqueue_all_queued [OF dist, of p] show ?thesis by simp
qed

end

text \<open>A pool that behaves as the interface says, for the concrete instances.\<close>

definition list_enqueue :: "(str \<times> str \<times> str) list enqueue_job" where
  "list_enqueue p task x jid defer =
     (case jid of
        None \<Rightarrow> (p @ [([], task, x)], Some [])
      | Some j \<Rightarrow> if j \<in> fst ` set p then (p, None) else (p @ [(j, task, x)], Some j))"

interpretation list_pool: arq_pool list_enqueue "\<lambda>p. fst ` set p" "\<lambda>p. p"
  by unfold_locales (auto simp: list_enqueue_def split: if_splits)

text \<open>The repository's own provider, \<^verbatim>\<open>ArqBackend\<close>, keeps the laws of the pool it wraps.\<close>

interpretation backend_pool: arq_pool "arq_backend_enqueue list_enqueue" "\<lambda>p. fst ` set p" "\<lambda>p. p"
  by unfold_locales (auto simp: arq_backend_enqueue_def list_enqueue_def split: if_splits)

text \<open>
  bulk approval. It approves exactly the caller's staged applications among the given ids,
  returns their number, leaves every other row as it is, and enqueues one apply job for each of
  them, in row order, except those whose job Arq still knows. It never fails on a constraint.
\<close>

theorem bulk_approve_spec:
  assumes "arq_pool enq known queued" and "db_ok d"
    and "sel = filter (\<lambda>a. a_user a = u \<and> a_id a \<in> set ids \<and> is_staged a) (applications d)"
  shows "\<exists>p'. bulk_approve enq (Some p) (Some u) ids d =
      ((d\<lparr>applications := update_where (\<lambda>a. a \<in> set sel) (\<lambda>a. a\<lparr>a_status := APPROVED\<rparr>) (applications d)\<rparr>,
        Some p'), Inr (length sel))
    \<and> queued p' = queued p @ map (\<lambda>i. (apply_job_id i, APPLY_TASK, i))
        (filter (\<lambda>i. apply_job_id i \<notin> known p) (map a_id sel))"
  using arq_pool.bulk_approve_result [OF assms(1,2)] assms(3) by simp

theorem bulk_approve_spec_witness:
  "\<exists>p'. snd (fst (bulk_approve list_enqueue (Some []) (Some ''u1'') [''a2'', ''a1'', ''zz''] staged_db)) = Some p'
     \<and> p' = [(apply_job_id ''a1'', APPLY_TASK, ''a1''), (apply_job_id ''a2'', APPLY_TASK, ''a2'')]"
  using bulk_approve_spec [OF list_pool.arq_pool_axioms staged_db_ok refl, where u = "''u1''"
      and ids = "[''a2'', ''a1'', ''zz'']" and p = "[]"]
  by (auto simp: staged_db_def is_staged_def new_application_def)

text \<open>
  the create route dispatches by mode. For a job without an active application, the route leaves
  one new row, \<^verbatim>\<open>queued\<close> with an apply job in the queue when the mode is autonomous, and
  \<^verbatim>\<open>pending_review\<close> with the queue untouched otherwise.
\<close>

theorem create_route_dispatches:
  assumes "arq_pool enq known queued" and "db_ok d" and "i \<notin> a_id ` set (applications d)"
    and "create_allowed u (ac_job_id data) (ac_resume_id data) d"
    and "active_apps u (ac_job_id data) d = []" and "apply_job_id i \<notin> known p"
  shows "\<exists>d' p' r. create_route enq u data i now (d, Some p) = ((d', Some p'), Inr r)
    \<and> applications d' = applications d @ [ar_app r] \<and> a_id (ar_app r) = i
    \<and> a_status (ar_app r) = (if ac_mode data = AUTONOMOUS then QUEUED else PENDING_REVIEW)
    \<and> queued p' = queued p @ (if ac_mode data = AUTONOMOUS then [(apply_job_id i, APPLY_TASK, i)] else [])"
proof -
  let ?a = "new_application i u (ac_job_id data) (ac_resume_id data) (ac_mode data) now"
  let ?d = "d\<lparr>applications := applications d @ [?a]\<rparr>"
  let ?b = "?a\<lparr>a_status := dispatched_status (a_mode ?a)\<rparr>"
  have c: "create_application (Some u) u data i now d = (?d, Inr ?a)"
    by (rule create_application_new [OF assms(2,3,4,5)])
  have ok: "db_ok ?d" using append_fresh_ok [OF assms(2,3)] assms(5) by simp
  have "update_where (\<lambda>x. a_id x = a_id ?a) (\<lambda>_. ?b) (applications ?d) = applications d @ [?b]"
    using assms(3) by (auto simp: update_where_def new_application_def intro!: map_idI)
  moreover have "a_id ?a = i" and "a_mode ?a = ac_mode data" by (simp_all add: new_application_def)
  ultimately show ?thesis
    using arq_pool.dispatch_active_row [OF assms(1) ok, of ?a p] assms(6) c
    by (auto simp: create_route_def application_to_response_def dispatched_status_def)
qed

theorem create_route_dispatches_witness:
  "\<exists>d' r. create_route list_enqueue ''u1'' sample_create ''a1'' 5 (sample_db, Some []) =
     ((d', Some [(apply_job_id ''a1'', APPLY_TASK, ''a1'')]), Inr r) \<and> a_status (ar_app r) = QUEUED"
proof -
  have al: "create_allowed ''u1'' (ac_job_id sample_create) (ac_resume_id sample_create) sample_db"
    by (simp add: create_allowed_def sample_defs)
  show ?thesis
    using create_route_dispatches [OF list_pool.arq_pool_axioms sample_db_ok _ al, of "''a1''" "[]" 5]
    by (auto simp: sample_defs active_apps_def)
qed

text \<open>
  posting a job that already has an active application re-dispatches that application, whatever
  its state: an application that was already \<^verbatim>\<open>applied\<close> (or is at \<^verbatim>\<open>interview\<close> or \<^verbatim>\<open>offer\<close>) goes back to
  \<^verbatim>\<open>queued\<close> or \<^verbatim>\<open>pending_review\<close>, and in the autonomous mode its apply job is enqueued again as soon as
  Arq has forgotten the first one.
\<close>

theorem create_route_redispatches:
  assumes "arq_pool enq known queued" and "db_ok d" and "i \<notin> a_id ` set (applications d)"
    and "create_allowed u (ac_job_id data) (ac_resume_id data) d"
    and "active_apps u (ac_job_id data) d = [x]"
  shows "\<exists>d' p' r. create_route enq u data i now (d, Some p) = ((d', Some p'), Inr r)
    \<and> ar_app r = x\<lparr>a_status := dispatched_status (a_mode x)\<rparr> \<and> ar_app r \<in> set (applications d')
    \<and> queued p' = queued p @ (if a_mode x = AUTONOMOUS \<and> apply_job_id (a_id x) \<notin> known p
        then [(apply_job_id (a_id x), APPLY_TASK, a_id x)] else [])"
proof -
  have "x \<in> set (active_apps u (ac_job_id data) d)" using assms(5) by simp
  then have x: "x \<in> set (applications d)" by (simp add: active_apps_def)
  obtain p' r where "create_route enq u data i now (d, Some p) =
      ((d\<lparr>applications := update_where (\<lambda>z. a_id z = a_id x)
          (\<lambda>_. x\<lparr>a_status := dispatched_status (a_mode x)\<rparr>) (applications d)\<rparr>, Some p'), Inr r)"
    and "ar_app r = x\<lparr>a_status := dispatched_status (a_mode x)\<rparr>"
    and "queued p' = queued p @ (if a_mode x = AUTONOMOUS \<and> apply_job_id (a_id x) \<notin> known p
        then [(apply_job_id (a_id x), APPLY_TASK, a_id x)] else [])"
    using arq_pool.create_route_existing [OF assms, of now p] by blast
  with x show ?thesis by (auto simp: in_set_update_where)
qed

definition applied_db :: db where
  "applied_db = sample_db\<lparr>applications :=
     [(new_application ''a1'' ''u1'' ''j1'' None AUTONOMOUS 1)\<lparr>a_status := APPLIED, a_applied_at := Some 2\<rparr>]\<rparr>"

lemma applied_db_ok: "db_ok applied_db"
  by (simp add: applied_db_def sample_defs db_ok_def pk_ok_def uq_app_active_job_def app_key_def
      uq_job_platform_id_def uq_user_email_def new_application_def)

theorem create_route_redispatches_witness:
  "\<exists>d' r. create_route list_enqueue ''u1'' sample_create ''a2'' 9 (applied_db, Some []) =
     ((d', Some [(apply_job_id ''a1'', APPLY_TASK, ''a1'')]), Inr r) \<and> a_status (ar_app r) = QUEUED"
proof -
  have al: "create_allowed ''u1'' (ac_job_id sample_create) (ac_resume_id sample_create) applied_db"
    by (simp add: create_allowed_def applied_db_def sample_defs)
  have act: "active_apps ''u1'' (ac_job_id sample_create) applied_db = [(new_application ''a1'' ''u1'' ''j1''
      None AUTONOMOUS 1)\<lparr>a_status := APPLIED, a_applied_at := Some 2\<rparr>]"
    by (simp add: active_apps_def applied_db_def sample_defs new_application_def is_active_app_def terminal_iff)
  have fresh: "''a2'' \<notin> a_id ` set (applications applied_db)"
    by (simp add: applied_db_def new_application_def)
  show ?thesis
    using create_route_redispatches [OF list_pool.arq_pool_axioms applied_db_ok fresh al act, of 9 "[]"]
    by (auto simp: new_application_def dispatched_status_def)
qed

end
