(* ===== verification/Api.thy ===== *)
theory Api
  imports Dispatch
begin

text \<open>
  The application routes as one request handler, and per-user isolation of the whole interface:
  no request of a user changes a row of another user, and no reply depends on one.
\<close>

datatype app_request =
    RCreate application_create
  | RBatch application_batch_create
  | RApprove str
  | RBulkApprove "str list"
  | RUpdate str application_status_update
  | RList nat nat "application_status option"
  | RGet str

datatype app_reply =
    PApp application_response
  | PApps "application_response list"
  | PCount nat
  | PList application_list_response

text \<open>\<open>gen\<close> is the id generator of the request and \<open>now\<close> its clock.\<close>

fun handle ::
  "'p enqueue_job \<Rightarrow> str \<Rightarrow> (nat \<Rightarrow> str) \<Rightarrow> int \<Rightarrow> app_request \<Rightarrow> db \<times> 'p option
     \<Rightarrow> (db \<times> 'p option) \<times> (exn + app_reply)" where
  "handle enq u gen now (RCreate data) s =
     (case create_route enq u data (gen 0) now s of (s', r) \<Rightarrow> (s', map_sum id PApp r))"
| "handle enq u gen now (RBatch data) s =
     (case batch_route enq u data gen now s of (s', r) \<Rightarrow> (s', map_sum id PApps r))"
| "handle enq u gen now (RApprove i) s =
     (case approve_route enq u i s of (s', r) \<Rightarrow> (s', map_sum id PApp r))"
| "handle enq u gen now (RBulkApprove ids) s =
     (case bulk_approve enq (snd s) (Some u) ids (fst s) of (s', r) \<Rightarrow> (s', map_sum id PCount r))"
| "handle enq u gen now (RUpdate i upd) s =
     (case update_status_route u i upd now s of (s', r) \<Rightarrow> (s', map_sum id PApp r))"
| "handle enq u gen now (RList page k st) s = (s, Inr (PList (list_applications (Some u) page k st (fst s))))"
| "handle enq u gen now (RGet i) s = (s, map_sum id PApp (get_route u i s))"

section \<open>The effect of a request on the database\<close>

text \<open>
  Every request leaves the database it found, or one in which only rows of the caller were
  appended, with ids of the set \<open>G\<close>, or replaced by rows of the caller with the same id: the relation \<open>own_change\<close>, closed under composition.
\<close>

inductive own_change :: "str \<Rightarrow> str set \<Rightarrow> db \<Rightarrow> db \<Rightarrow> bool" for u G where
  refl: "own_change u G d d"
| append: "\<lbrakk>own_change u G d d'; db_ok (d'\<lparr>applications := applications d' @ as\<rparr>);
    \<And>a. a \<in> set as \<Longrightarrow> a_user a = u \<and> a_id a \<in> G\<rbrakk> \<Longrightarrow> own_change u G d (d'\<lparr>applications := applications d' @ as\<rparr>)"
| update: "\<lbrakk>own_change u G d d'; db_ok (d'\<lparr>applications := update_where q f (applications d')\<rparr>);
    \<And>a. a \<in> set (applications d') \<Longrightarrow> q a \<Longrightarrow>
      a_user a = u \<and> a_user (f a) = u \<and> a_id (f a) = a_id a\<rbrakk> \<Longrightarrow>
    own_change u G d (d'\<lparr>applications := update_where q f (applications d')\<rparr>)"

lemma own_change_trans: "own_change u G b c \<Longrightarrow> own_change u G a b \<Longrightarrow> own_change u G a c"
  by (induction rule: own_change.induct) (auto intro: own_change.intros)

lemma own_change_db_ok: "own_change u G d d' \<Longrightarrow> db_ok d \<Longrightarrow> db_ok d'"
  by (induction rule: own_change.induct) auto

lemma own_change_ids:
  "own_change u G d d' \<Longrightarrow> a_id ` set (applications d') \<subseteq> a_id ` set (applications d) \<union> G"
proof (induction rule: own_change.induct)
  case (update d d' q f)
  then have "map a_id (update_where q f (applications d')) = map a_id (applications d')"
    by (intro map_update_where) auto
  then have "a_id ` set (update_where q f (applications d')) = a_id ` set (applications d')"
    unfolding set_map [symmetric] by (rule arg_cong [where f = set])
  with update.IH show ?case by simp
qed auto

lemma own_change_same_view:
  assumes "own_change u G d d'" and "v \<noteq> u"
  shows "same_view v d' d"
  using assms(1)
proof (induction rule: own_change.induct)
  case (append d d' as)
  have "same_view v (d'\<lparr>applications := applications d' @ as\<rparr>) d'"
    using append.hyps(3) assms(2)
    by (auto simp: same_view_applications app_tbl.view_def filter_empty_conv)
  then show ?case using append.IH by (rule same_view_trans)
next
  case (update d d' q f)
  have "same_view v (d'\<lparr>applications := update_where q f (applications d')\<rparr>) d'"
    unfolding same_view_applications app_tbl.view_def
    using update.hyps(3) assms(2) by (intro filter_update_where_other) auto
  then show ?case using update.IH by (rule same_view_trans)
qed simp

section \<open>Each operation is an own change\<close>

lemma save_own_change:
  assumes "db_ok d" and "x \<in> set (applications d)" and "a_id a = a_id x" and "a_user x = u" and "a_user a = u"
  shows "own_change u G d (fst (save_application a d))"
proof -
  have "distinct (map a_id (applications d))" using assms(1) by (simp add: db_ok_def pk_ok_def)
  then have owner: "a_user y = u" if "y \<in> set (applications d)" "a_id y = a_id a" for y
    using key_unique [OF _ that(1) assms(2), of a_id] that(2) assms(3,4) by simp
  show ?thesis unfolding save_application_def
    by (cases rule: commit_cases [of "d\<lparr>applications := update_where (\<lambda>x. a_id x = a_id a) (\<lambda>_. a) (applications d)\<rparr>" d])
      (auto intro!: own_change.update own_change.refl simp: owner assms(5))
qed

lemma create_own_change:
  assumes "i \<in> G"
  shows "own_change u G d (fst (create_application (Some u) u data i now d))"
  using assms
  by (auto simp: create_application_def commit_def Let_def new_application_def
      intro!: own_change.intros split: sum.splits option.splits)

lemma create_batch_own_change:
  "own_change u (range gen) d (fst (create_batch (Some u) u data gen now d))"
  by (auto simp: create_batch_def commit_def Let_def
      intro!: own_change.intros dest: batch_rows_fields split: sum.splits)

lemma approve_own_change:
  assumes "db_ok d"
  shows "own_change u G d (fst (approve_application (Some u) i d))"
proof (cases "get_application (Some u) i d")
  case (Inr a)
  with get_application_owned [OF this] show ?thesis
    by (auto simp: approve_application_def intro: own_change.refl save_own_change [OF assms, of a])
qed (simp add: approve_application_def own_change.refl)

lemma update_status_own_change:
  assumes "db_ok d"
  shows "own_change u G d (fst (update_status (Some u) i upd now d))"
proof (cases "get_application (Some u) i d")
  case (Inr a)
  with get_application_owned [OF this] show ?thesis
    by (auto simp: update_status_def Let_def intro!: save_own_change [OF assms, of a] split: option.split)
qed (simp add: update_status_def own_change.refl)

text \<open>What creation returns is a row of the caller that is stored.\<close>

lemma create_returns_own:
  assumes "create_application (Some u) u data i now d = (d', Inr a)"
  shows "a \<in> set (applications d') \<and> a_user a = u"
proof -
  have "a \<in> set (active_apps u (ac_job_id data) d)"
    if "scalar_one_or_none (active_apps u (ac_job_id data) d) = Inr (Some a)"
    using that by (simp add: scalar_one_Some)
  then show ?thesis using assms unfolding create_application_def existing_query
    by (auto simp: commit_def Let_def new_application_def active_apps_def
        split: sum.splits option.splits if_splits)
qed

lemma commit_return:
  assumes "(case commit d1 d of (d', Inr _) \<Rightarrow> (d', Inr x) | (d', Inl e) \<Rightarrow> (d', Inl e)) = (d', Inr y)"
  shows "d' = d1 \<and> y = x"
  using assms by (simp add: commit_def split: if_split_asm)

lemma if_raise: "(if c then (s, Inl e) else X) = (s', Inr y) \<Longrightarrow> X = (s', Inr y)"
  by (simp split: if_split_asm)

lemma create_batch_result:
  assumes "create_batch (Some u) u data gen now d = (d', Inr as)"
  shows "d' = d\<lparr>applications := applications d @ as\<rparr>
    \<and> (\<exists>skip. as = batch_rows u (ab_resume_id data) (ab_mode data) now skip gen 0 (ab_job_ids data))"
proof (cases "if truthy (ab_resume_id data)
    then assert_owned (Some u) r_user r_id ''Resume'' (or_empty (ab_resume_id data)) (resumes d) else Inr ()")
  case (Inr r)
  note res = commit_return [OF if_raise [OF assms [unfolded create_batch_def Let_def Inr sum.case]]]
  show ?thesis
  proof
    show "d' = d\<lparr>applications := applications d @ as\<rparr>"
      by (rule trans [OF res [THEN conjunct1]]) (simp only: res [THEN conjunct2])
  qed (rule exI, rule res [THEN conjunct2])
qed (use assms in \<open>simp add: create_batch_def\<close>)

lemma create_batch_returns_own:
  assumes "create_batch (Some u) u data gen now d = (d', Inr as)"
  shows "\<forall>a \<in> set as. a \<in> set (applications d') \<and> a_user a = u"
  using create_batch_result [OF assms] by (auto dest: batch_rows_fields)

text \<open>Saving a row of the table keeps the pairs of id and owner.\<close>

definition id_owners :: "db \<Rightarrow> (str \<times> str) set" where
  "id_owners d = (\<lambda>a. (a_id a, a_user a)) ` set (applications d)"

lemma save_id_owners:
  assumes "db_ok d" and "(a_id a, a_user a) \<in> id_owners d"
  shows "id_owners (fst (save_application a d)) = id_owners d"
proof -
  obtain x where x: "x \<in> set (applications d)" "a_id x = a_id a" "a_user x = a_user a"
    using assms(2) by (auto simp: id_owners_def)
  have pk: "distinct (map a_id (applications d))" using assms(1) by (simp add: db_ok_def pk_ok_def)
  have "map (\<lambda>a. (a_id a, a_user a)) (update_where (\<lambda>y. a_id y = a_id a) (\<lambda>_. a) (applications d))
      = map (\<lambda>a. (a_id a, a_user a)) (applications d)"
    using key_unique [OF pk _ x(1)] x by (intro map_update_where) auto
  then have "(\<lambda>a. (a_id a, a_user a)) ` set (update_where (\<lambda>y. a_id y = a_id a) (\<lambda>_. a) (applications d))
      = (\<lambda>a. (a_id a, a_user a)) ` set (applications d)"
    unfolding set_map [symmetric] by (rule arg_cong [where f = set])
  then show ?thesis using save_application_result [of a d] by (elim disjE) (simp_all add: id_owners_def)
qed

lemma dispatch_db:
  "fst (fst (dispatch_for_mode enq pool a d)) =
     fst (save_application (a\<lparr>a_status := dispatched_status (a_mode a)\<rparr>) d)"
  "snd (dispatch_for_mode enq pool a d) =
     snd (save_application (a\<lparr>a_status := dispatched_status (a_mode a)\<rparr>) d)"
  by (auto simp: dispatch_for_mode_def dispatched_status_def split: prod.splits sum.splits)

lemma dispatch_own_change:
  assumes "db_ok d" and "(a_id a, u) \<in> id_owners d" and "a_user a = u"
  shows "own_change u G d (fst (fst (dispatch_for_mode enq pool a d)))"
proof -
  obtain x where "x \<in> set (applications d)" "a_id x = a_id a" "a_user x = u"
    using assms(2) by (auto simp: id_owners_def)
  then show ?thesis unfolding dispatch_db using assms by (intro save_own_change [of d x]) auto
qed

lemma dispatch_id_owners:
  assumes "db_ok d" and "(a_id a, u) \<in> id_owners d" and "a_user a = u"
  shows "id_owners (fst (fst (dispatch_for_mode enq pool a d))) = id_owners d"
  unfolding dispatch_db using assms by (intro save_id_owners) auto

lemma dispatch_each_own_change:
  assumes "db_ok (fst s)" and "\<forall>a \<in> set as. (a_id a, u) \<in> id_owners (fst s) \<and> a_user a = u"
  shows "own_change u G (fst s) (fst (fst (dispatch_each enq as s)))"
  using assms
proof (induction as arbitrary: s)
  case (Cons a as)
  obtain s' r where s': "dispatch_for_mode enq (snd s) a (fst s) = (s', r)" by (cases "dispatch_for_mode enq (snd s) a (fst s)")
  have o1: "own_change u G (fst s) (fst s')"
    using dispatch_own_change [of "fst s" a u G enq "snd s"] Cons.prems s' by simp
  have i: "id_owners (fst s') = id_owners (fst s)"
    using dispatch_id_owners [of "fst s" a u enq "snd s"] Cons.prems s' by simp
  have "db_ok (fst s')" using own_change_db_ok [OF o1] Cons.prems by simp
  then have "own_change u G (fst s') (fst (fst (dispatch_each enq as s')))"
    using Cons i by simp
  with o1 s' show ?case
    by (auto split: sum.splits prod.splits dest: own_change_trans)
qed (simp add: own_change.refl)

lemma create_route_own_change:
  assumes "db_ok (fst s)" and "i \<in> G"
  shows "own_change u G (fst s) (fst (fst (create_route enq u data i now s)))"
proof (cases "create_application (Some u) u data i now (fst s)")
  case (Pair d' r)
  have o1: "own_change u G (fst s) d'" using create_own_change [OF assms(2), of u "fst s" data now] Pair by simp
  show ?thesis
  proof (cases r)
    case (Inr a)
    have "a \<in> set (applications d') \<and> a_user a = u" using create_returns_own Pair Inr by simp
    then have "own_change u G d' (fst (fst (dispatch_for_mode enq (snd s) a d')))"
      by (intro dispatch_own_change own_change_db_ok [OF o1 assms(1)]) (auto simp: id_owners_def)
    with o1 Pair Inr show ?thesis
      by (auto simp: create_route_def split: sum.splits prod.splits dest: own_change_trans)
  qed (use o1 Pair in \<open>simp add: create_route_def\<close>)
qed

lemma batch_route_own_change:
  assumes "db_ok (fst s)"
  shows "own_change u (range gen) (fst s) (fst (fst (batch_route enq u data gen now s)))"
proof (cases "create_batch (Some u) u data gen now (fst s)")
  case (Pair d' r)
  have o1: "own_change u (range gen) (fst s) d'" using create_batch_own_change [of u gen "fst s" data now] Pair by simp
  show ?thesis
  proof (cases r)
    case (Inr as)
    have "\<forall>a \<in> set as. a \<in> set (applications d') \<and> a_user a = u"
      using create_batch_returns_own Pair Inr by simp
    then have "own_change u (range gen) d' (fst (fst (dispatch_each enq as (d', snd s))))"
      using dispatch_each_own_change [of "(d', snd s)" as u _ enq] own_change_db_ok [OF o1 assms]
      by (force simp: id_owners_def)
    with o1 Pair Inr show ?thesis
      by (auto simp: batch_route_def split: sum.splits prod.splits dest: own_change_trans)
  qed (use o1 Pair in \<open>simp add: batch_route_def\<close>)
qed

lemma bulk_own_change:
  fixes u :: str
  assumes "db_ok d"
  shows "own_change u G d (fst (fst (bulk_approve enq pool (Some u) ids d)))"
proof -
  let ?sel = "filter (\<lambda>a. a_user a = u \<and> a_id a \<in> set ids \<and> is_staged a) (applications d)"
  have "db_ok (fst (fst (bulk_approve enq pool (Some u) ids d)))" by (rule bulk_approve_db_ok [OF assms])
  then show ?thesis unfolding bulk_approve_reduce [OF assms] fst_conv
    by (intro own_change.update own_change.refl) auto
qed

lemma handle_own_change:
  assumes "db_ok (fst s)"
  shows "own_change u (range gen) (fst s) (fst (fst (handle enq u gen now r s)))"
proof (cases r)
  case (RCreate data)
  then show ?thesis using create_route_own_change [OF assms, of "gen 0" "range gen" u enq data now]
    by (simp add: split_beta)
next
  case (RBatch data)
  then show ?thesis using batch_route_own_change [OF assms, of u gen enq data now]
    by (simp add: split_beta)
next
  case (RApprove i)
  have "fst (fst (approve_route enq u i s)) = fst (approve_application (Some u) i (fst s))"
    by (simp add: approve_route_def split: prod.split sum.split)
  with RApprove show ?thesis using approve_own_change [OF assms, of u _ i] by (simp add: split_beta)
next
  case (RBulkApprove ids)
  then show ?thesis using bulk_own_change [OF assms, of u _ enq "snd s" ids] by (simp add: split_beta)
next
  case (RUpdate i upd)
  have "fst (fst (update_status_route u i upd now s)) = fst (update_status (Some u) i upd now (fst s))"
    by (simp add: update_status_route_def split: prod.split sum.split)
  with RUpdate show ?thesis using update_status_own_change [OF assms, of u _ i upd now]
    by (simp add: split_beta)
qed (simp_all add: own_change.refl)

section \<open>Sequences of requests\<close>

text \<open>A request with its authenticated user, its id generator and its clock.\<close>

record call =
  c_user :: str
  c_gen :: "nat \<Rightarrow> str"
  c_now :: int
  c_req :: app_request

fun serve :: "'p enqueue_job \<Rightarrow> call list \<Rightarrow> db \<times> 'p option \<Rightarrow> (db \<times> 'p option) \<times> (str \<times> (exn + app_reply)) list" where
  "serve enq [] s = (s, [])"
| "serve enq (c # cs) s =
     (case handle enq (c_user c) (c_gen c) (c_now c) (c_req c) s of
        (s', r) \<Rightarrow> (case serve enq cs s' of (s'', rs) \<Rightarrow> (s'', (c_user c, r) # rs)))"

lemma serve_db_ok: "db_ok (fst s) \<Longrightarrow> db_ok (fst (fst (serve enq cs s)))"
proof (induction cs arbitrary: s)
  case (Cons c cs)
  have "db_ok (fst (fst (handle enq (c_user c) (c_gen c) (c_now c) (c_req c) s)))"
    by (rule own_change_db_ok [OF handle_own_change [OF Cons.prems] Cons.prems])
  from Cons.IH [OF this] show ?case by (simp add: split_beta)
qed simp

lemma serve_foreign:
  assumes "db_ok (fst s)" and "\<forall>c \<in> set cs. c_user c \<noteq> v"
  shows "same_view v (fst (fst (serve enq cs s))) (fst s)"
  using assms
proof (induction cs arbitrary: s)
  case (Cons c cs)
  let ?s = "fst (handle enq (c_user c) (c_gen c) (c_now c) (c_req c) s)"
  have o: "own_change (c_user c) (range (c_gen c)) (fst s) (fst ?s)" by (rule handle_own_change [OF Cons.prems(1)])
  have "same_view v (fst (fst (serve enq cs ?s))) (fst ?s)"
    using Cons.prems by (intro Cons.IH own_change_db_ok [OF o]) auto
  moreover have "same_view v (fst ?s) (fst s)"
    using Cons.prems(2) by (intro own_change_same_view [OF o]) auto
  ultimately show ?case using same_view_trans by (fastforce simp: split_beta)
qed simp

end
