(* ===== verification/Isolation.thy ===== *)
theory Isolation
  imports Api
begin

text \<open>
  Isolation of the application interface. Integrity: requests of other users never change what a
  user sees. Confidentiality (noninterference): the replies a user gets do not depend on the rows
  or the requests of anybody else. Both follow from how each commit is decided by the caller's view.
\<close>

section \<open>Commits decided by the caller's view\<close>

lemma distinct_by_group:
  "distinct (map f xs) \<longleftrightarrow> (\<forall>v. distinct (map f (filter (\<lambda>x. g (f x) = v) xs)))"
proof (induction xs)
  case (Cons a xs)
  have "f a \<in> f ` set xs \<longleftrightarrow> f a \<in> f ` set (filter (\<lambda>x. g (f x) = g (f a)) xs)" by auto
  with Cons show ?case by auto
qed simp

lemma uq_by_owner:
  "uq_app_active_job xs \<longleftrightarrow> (\<forall>v. uq_app_active_job (filter (\<lambda>a. a_user a = v) xs))"
proof -
  have "filter (\<lambda>x. fst (app_key x) = v) (filter is_active_app xs)
      = filter is_active_app (filter (\<lambda>a. a_user a = v) xs)" for v
    by (simp add: app_key_def conj_commute)
  then show ?thesis unfolding uq_app_active_job_def by (subst distinct_by_group [where g = fst]) simp
qed

lemma db_ok_own_rows:
  assumes "db_ok d" and "distinct (map a_id xs)"
    and "\<And>v. v \<noteq> u \<Longrightarrow> filter (\<lambda>a. a_user a = v) xs = app_tbl.view v d"
  shows "db_ok (d\<lparr>applications := xs\<rparr>) \<longleftrightarrow> uq_app_active_job (filter (\<lambda>a. a_user a = u) xs)"
proof -
  have "uq_app_active_job (app_tbl.view v d)" for v
    using assms(1) uq_by_owner [of "applications d"] by (simp add: db_ok_def app_tbl.view_def)
  then have "(\<forall>v. uq_app_active_job (filter (\<lambda>a. a_user a = v) xs))
      \<longleftrightarrow> uq_app_active_job (filter (\<lambda>a. a_user a = u) xs)"
    using assms(3) by metis
  then show ?thesis using uq_by_owner [of xs] assms(2) by (simp add: db_ok_applications [OF assms(1)])
qed

lemma append_ok_view:
  assumes "db_ok d" and "distinct (map a_id new)" and "a_id ` set (applications d) \<inter> a_id ` set new = {}"
    and "\<And>a. a \<in> set new \<Longrightarrow> a_user a = u"
  shows "db_ok (d\<lparr>applications := applications d @ new\<rparr>) \<longleftrightarrow> uq_app_active_job (app_tbl.view u d @ new)"
proof -
  have v: "filter (\<lambda>a. a_user a = v) new = (if v = u then new else [])" for v
    using assms(4) by (induction new) auto
  have "distinct (map a_id (applications d @ new))"
    using assms(1-3) by (simp add: db_ok_def pk_ok_def)
  from db_ok_own_rows [OF assms(1) this, of u] show ?thesis by (simp add: v app_tbl.view_def)
qed

lemma save_ok_view:
  assumes "db_ok d" and "(a_id a, u) \<in> id_owners d" and "a_user a = u"
  shows "db_ok (d\<lparr>applications := update_where (\<lambda>x. a_id x = a_id a) (\<lambda>_. a) (applications d)\<rparr>)
      \<longleftrightarrow> uq_app_active_job (update_where (\<lambda>x. a_id x = a_id a) (\<lambda>_. a) (app_tbl.view u d))"
    and "filter (\<lambda>x. a_user x = u) (update_where (\<lambda>x. a_id x = a_id a) (\<lambda>_. a) (applications d))
      = update_where (\<lambda>x. a_id x = a_id a) (\<lambda>_. a) (app_tbl.view u d)"
proof -
  have pk: "distinct (map a_id (applications d))" using assms(1) by (simp add: db_ok_def pk_ok_def)
  obtain x where x: "x \<in> set (applications d)" "a_id x = a_id a" "a_user x = u"
    using assms(2) by (auto simp: id_owners_def)
  have own: "a_user y = u" if "y \<in> set (applications d)" "a_id y = a_id a" for y
    using key_unique [OF pk that(1) x(1)] that(2) x(2,3) by simp
  show view: "filter (\<lambda>x. a_user x = u) (update_where (\<lambda>x. a_id x = a_id a) (\<lambda>_. a) (applications d))
      = update_where (\<lambda>x. a_id x = a_id a) (\<lambda>_. a) (app_tbl.view u d)"
    unfolding app_tbl.view_def using own assms(3) by (intro filter_update_where) auto
  have dist: "distinct (map a_id (update_where (\<lambda>x. a_id x = a_id a) (\<lambda>_. a) (applications d)))"
    using pk by (subst map_update_where) auto
  have other: "filter (\<lambda>x. a_user x = v) (update_where (\<lambda>x. a_id x = a_id a) (\<lambda>_. a) (applications d))
      = app_tbl.view v d" if "v \<noteq> u" for v
    unfolding app_tbl.view_def using own assms(3) that by (intro filter_update_where_other) auto
  show "db_ok (d\<lparr>applications := update_where (\<lambda>x. a_id x = a_id a) (\<lambda>_. a) (applications d)\<rparr>)
      \<longleftrightarrow> uq_app_active_job (update_where (\<lambda>x. a_id x = a_id a) (\<lambda>_. a) (app_tbl.view u d))"
    by (simp add: db_ok_own_rows [OF assms(1) dist other] view)
qed

section \<open>Agreement of two runs\<close>

text \<open>Two results agree for \<open>u\<close>: same value and the databases look the same to \<open>u\<close>.\<close>

definition agree :: "str \<Rightarrow> db \<times> 'r \<Rightarrow> db \<times> 'r \<Rightarrow> bool" where
  "agree u x y \<longleftrightarrow> snd x = snd y \<and> same_view u (fst x) (fst y)"

lemma agree_pair [simp]: "agree u (d1, r1) (d2, r2) \<longleftrightarrow> r1 = r2 \<and> same_view u d1 d2"
  by (simp add: agree_def)

lemma same_view_put:
  assumes "same_view u d1 d2" and "filter (\<lambda>a. a_user a = u) xs = filter (\<lambda>a. a_user a = u) ys"
  shows "same_view u (d1\<lparr>applications := xs\<rparr>) (d2\<lparr>applications := ys\<rparr>)"
  using assms by (simp add: same_view_def app_tbl.view_def job_tbl.view_def resume_tbl.view_def)

lemma view_id_owners: "(i, u) \<in> id_owners d \<longleftrightarrow> i \<in> a_id ` set (app_tbl.view u d)"
  by (auto simp: id_owners_def app_tbl.view_def)

lemma same_view_id_owners: "same_view u d1 d2 \<Longrightarrow> (i, u) \<in> id_owners d1 \<longleftrightarrow> (i, u) \<in> id_owners d2"
  by (simp add: view_id_owners same_view_def)

lemma same_view_reads:
  assumes "same_view u d1 d2"
  shows "find_row (Some u) a_user a_id i (applications d1) = find_row (Some u) a_user a_id i (applications d2)"
    and "find_row (Some u) j_user j_id i (jobs d1) = find_row (Some u) j_user j_id i (jobs d2)"
    and "find_row (Some u) r_user r_id i (resumes d1) = find_row (Some u) r_user r_id i (resumes d2)"
    and "db_get (Some u) j_user j_id i (jobs d1) = db_get (Some u) j_user j_id i (jobs d2)"
    and "select_rows (Some u) a_user (applications d1) = select_rows (Some u) a_user (applications d2)"
    and "select_rows (Some u) j_user (jobs d1) = select_rows (Some u) j_user (jobs d2)"
proof -
  have a: "filter (\<lambda>a. a_user a = u) (applications d1) = filter (\<lambda>a. a_user a = u) (applications d2)"
    and j: "filter (\<lambda>a. j_user a = u) (jobs d1) = filter (\<lambda>a. j_user a = u) (jobs d2)"
    and r: "filter (\<lambda>a. r_user a = u) (resumes d1) = filter (\<lambda>a. r_user a = u) (resumes d2)"
    using assms by (simp_all add: same_view_def app_tbl.view_def job_tbl.view_def resume_tbl.view_def)
  show "find_row (Some u) a_user a_id i (applications d1) = find_row (Some u) a_user a_id i (applications d2)"
    by (simp add: find_row_def a)
  show "find_row (Some u) j_user j_id i (jobs d1) = find_row (Some u) j_user j_id i (jobs d2)"
    by (simp add: find_row_def j)
  show "find_row (Some u) r_user r_id i (resumes d1) = find_row (Some u) r_user r_id i (resumes d2)"
    by (simp add: find_row_def r)
  show "db_get (Some u) j_user j_id i (jobs d1) = db_get (Some u) j_user j_id i (jobs d2)"
    by (simp add: db_get_def j)
  show "select_rows (Some u) a_user (applications d1) = select_rows (Some u) a_user (applications d2)"
    by (simp add: a)
  show "select_rows (Some u) j_user (jobs d1) = select_rows (Some u) j_user (jobs d2)"
    by (simp add: j)
qed

lemma save_agree:
  assumes "db_ok d1" and "db_ok d2" and "same_view u d1 d2" and "(a_id a, u) \<in> id_owners d1" and "a_user a = u"
  shows "agree u (save_application a d1) (save_application a d2)"
proof -
  have o2: "(a_id a, u) \<in> id_owners d2" using assms(3,4) same_view_id_owners by blast
  have v: "app_tbl.view u d1 = app_tbl.view u d2" using assms(3) by (simp add: same_view_def)
  have "same_view u (d1\<lparr>applications := update_where (\<lambda>x. a_id x = a_id a) (\<lambda>_. a) (applications d1)\<rparr>)
      (d2\<lparr>applications := update_where (\<lambda>x. a_id x = a_id a) (\<lambda>_. a) (applications d2)\<rparr>)"
    using save_ok_view(2) [OF assms(1,4,5)] save_ok_view(2) [OF assms(2) o2 assms(5)] v
    by (intro same_view_put [OF assms(3)]) simp
  then show ?thesis
    using assms(3) save_ok_view(1) [OF assms(1,4,5)] save_ok_view(1) [OF assms(2) o2 assms(5)] v
    by (simp add: save_application_def commit_def)
qed

lemma append_commit_agree:
  assumes "db_ok d1" and "db_ok d2" and "same_view u d1 d2"
    and "distinct (map a_id new)" and "a_id ` set (applications d1) \<inter> a_id ` set new = {}"
    and "a_id ` set (applications d2) \<inter> a_id ` set new = {}" and "\<And>a. a \<in> set new \<Longrightarrow> a_user a = u"
  shows "agree u (commit (d1\<lparr>applications := applications d1 @ new\<rparr>) d1)
      (commit (d2\<lparr>applications := applications d2 @ new\<rparr>) d2)"
proof -
  have v: "app_tbl.view u d1 = app_tbl.view u d2" using assms(3) by (simp add: same_view_def)
  have "same_view u (d1\<lparr>applications := applications d1 @ new\<rparr>) (d2\<lparr>applications := applications d2 @ new\<rparr>)"
    using v by (intro same_view_put [OF assms(3)]) (simp add: app_tbl.view_def)
  then show ?thesis
    using append_ok_view [OF assms(1,4,5,7)] append_ok_view [OF assms(2,4,6,7)] v assms(3)
    by (simp add: commit_def)
qed

text \<open>The ids a request may generate are new to the database.\<close>

definition fresh_gen :: "(nat \<Rightarrow> str) \<Rightarrow> db \<Rightarrow> bool" where
  "fresh_gen gen d \<longleftrightarrow> inj gen \<and> range gen \<inter> a_id ` set (applications d) = {}"

lemma fresh_genD: "fresh_gen gen d \<Longrightarrow> gen k \<notin> a_id ` set (applications d)"
  unfolding fresh_gen_def by (metis disjoint_iff rangeI)

lemma assert_owned_agree:
  assumes "same_view u d1 d2"
  shows "assert_owned (Some u) j_user j_id m i (jobs d1) = assert_owned (Some u) j_user j_id m i (jobs d2)"
    and "assert_owned (Some u) r_user r_id m i (resumes d1) = assert_owned (Some u) r_user r_id m i (resumes d2)"
  by (simp_all add: assert_owned_def same_view_reads [OF assms])

lemma agree_sum_case:
  assumes "\<And>e. agree u (f1 e) (f2 e)" and "\<And>r. agree u (g1 r) (g2 r)"
  shows "agree u (case x of Inl e \<Rightarrow> f1 e | Inr r \<Rightarrow> g1 r) (case x of Inl e \<Rightarrow> f2 e | Inr r \<Rightarrow> g2 r)"
  using assms by (simp split: sum.split)

lemma agree_if:
  assumes "agree u a1 a2" and "agree u b1 b2"
  shows "agree u (if c then a1 else b1) (if c then a2 else b2)"
  using assms by simp

lemma agree_commit:
  assumes "agree u (commit x1 d1) (commit x2 d2)" and "same_view u d1 d2"
  shows "agree u (case commit x1 d1 of (d', Inr _) \<Rightarrow> (d', Inr a) | (_, Inl _) \<Rightarrow> (d1, r))
    (case commit x2 d2 of (d', Inr _) \<Rightarrow> (d', Inr a) | (_, Inl _) \<Rightarrow> (d2, r))"
  using assms by (simp add: commit_def split: if_split_asm)

lemma agree_commit_value:
  assumes "agree u (commit x1 d1) (commit x2 d2)"
  shows "agree u (case commit x1 d1 of (d', Inr _) \<Rightarrow> (d', Inr a) | (d', Inl e) \<Rightarrow> (d', Inl e))
    (case commit x2 d2 of (d', Inr _) \<Rightarrow> (d', Inr a) | (d', Inl e) \<Rightarrow> (d', Inl e))"
  using assms by (simp add: commit_def split: if_split_asm)

lemma create_agree:
  assumes "db_ok d1" and "db_ok d2" and "same_view u d1 d2"
    and "i \<notin> a_id ` set (applications d1)" and "i \<notin> a_id ` set (applications d2)"
  shows "agree u (create_application (Some u) u data i now d1) (create_application (Some u) u data i now d2)"
proof -
  let ?a = "new_application i u (ac_job_id data) (ac_resume_id data) (ac_mode data) now"
  have "agree u (commit (d1\<lparr>applications := applications d1 @ [?a]\<rparr>) d1)
      (commit (d2\<lparr>applications := applications d2 @ [?a]\<rparr>) d2)"
    using assms by (intro append_commit_agree) (auto simp: new_application_def)
  then have step: "agree u
      (case commit (d1\<lparr>applications := applications d1 @ [?a]\<rparr>) d1 of (d', Inr _) \<Rightarrow> (d', Inr ?a) | (_, Inl _) \<Rightarrow> (d1, r))
      (case commit (d2\<lparr>applications := applications d2 @ [?a]\<rparr>) d2 of (d', Inr _) \<Rightarrow> (d', Inr ?a) | (_, Inl _) \<Rightarrow> (d2, r))"
    for r :: "exn + application"
    using assms(3) by (rule agree_commit)
  have pull: "(case q of Inl e \<Rightarrow> (d, Inl e) | Inr (Some x) \<Rightarrow> (d, Inr x) | Inr None \<Rightarrow> (d, Inl DBIntegrityError))
      = (d, case q of Inl e \<Rightarrow> Inl e | Inr (Some x) \<Rightarrow> Inr x | Inr None \<Rightarrow> Inl DBIntegrityError)"
    for d :: db and q :: "exn + application option"
    by (simp split: sum.split option.split)
  show ?thesis
    unfolding create_application_def assert_owned_agree [OF assms(3)] same_view_reads [OF assms(3)] Let_def pull
    by (intro agree_sum_case agree_pair [THEN iffD2] conjI assms(3) step) simp_all
qed

lemma batch_agree:
  assumes "db_ok d1" and "db_ok d2" and "same_view u d1 d2" and "fresh_gen gen d1" and "fresh_gen gen d2"
  shows "agree u (create_batch (Some u) u data gen now d1) (create_batch (Some u) u data gen now d2)"
proof -
  have fresh: "a_id ` set (applications d) \<inter> a_id ` set (batch_rows u r m now skip gen n js) = {}"
    if "fresh_gen gen d" for d r m skip n js
    using that by (intro batch_rows_fresh) (auto simp: fresh_gen_def)
  have step: "agree u (commit (d1\<lparr>applications := applications d1 @ batch_rows u r m now skip gen 0 js\<rparr>) d1)
      (commit (d2\<lparr>applications := applications d2 @ batch_rows u r m now skip gen 0 js\<rparr>) d2)" for r m skip js
    using assms(4) batch_rows_distinct [of gen]
    by (intro append_commit_agree assms fresh) (auto simp: fresh_gen_def dest: batch_rows_fields)
  show ?thesis
    unfolding create_batch_def assert_owned_agree [OF assms(3)] same_view_reads [OF assms(3)] Let_def
    by (intro agree_sum_case agree_if agree_commit_value step)
      (simp_all add: assms(3))
qed

lemma approve_agree:
  assumes "db_ok d1" and "db_ok d2" and "same_view u d1 d2"
  shows "agree u (approve_application (Some u) i d1) (approve_application (Some u) i d2)"
proof (cases "get_application (Some u) i d1")
  case (Inl e)
  moreover have "get_application (Some u) i d2 = get_application (Some u) i d1"
    by (simp add: get_application_def same_view_reads [OF assms(3)])
  ultimately show ?thesis using assms(3) by (simp add: approve_application_def)
next
  case (Inr a)
  have g: "get_application (Some u) i d2 = get_application (Some u) i d1"
    by (simp add: get_application_def same_view_reads [OF assms(3)])
  have "(a_id a, u) \<in> id_owners d1" and "a_user a = u"
    using get_application_owned [OF Inr] by (auto simp: id_owners_def)
  then have "agree u (save_application (a\<lparr>a_status := APPROVED\<rparr>) d1) (save_application (a\<lparr>a_status := APPROVED\<rparr>) d2)"
    by (intro save_agree assms) simp_all
  with assms(3) show ?thesis by (simp add: approve_application_def g Inr)
qed

lemma update_agree:
  assumes "db_ok d1" and "db_ok d2" and "same_view u d1 d2"
  shows "agree u (update_status (Some u) i upd now d1) (update_status (Some u) i upd now d2)"
proof (cases "get_application (Some u) i d1")
  case (Inl e)
  moreover have "get_application (Some u) i d2 = get_application (Some u) i d1"
    by (simp add: get_application_def same_view_reads [OF assms(3)])
  ultimately show ?thesis using assms(3) by (simp add: update_status_def)
next
  case (Inr a)
  have g: "get_application (Some u) i d2 = get_application (Some u) i d1"
    by (simp add: get_application_def same_view_reads [OF assms(3)])
  have "(a_id a, u) \<in> id_owners d1" and "a_user a = u"
    using get_application_owned [OF Inr] by (auto simp: id_owners_def)
  then have "agree u (save_application b d1) (save_application b d2)" if "a_id b = a_id a" "a_user b = a_user a" for b
    using that by (intro save_agree assms) simp_all
  then show ?thesis unfolding update_status_def g Inr sum.case Let_def by (simp split: option.split)
qed

section \<open>Requests\<close>

text \<open>Agreement of two results that carry the queue as well.\<close>

definition agree_q :: "str \<Rightarrow> (db \<times> 'p) \<times> 'r \<Rightarrow> (db \<times> 'p) \<times> 'r \<Rightarrow> bool" where
  "agree_q u x y \<longleftrightarrow> snd x = snd y \<and> same_view u (fst (fst x)) (fst (fst y))"

lemma agree_q_pair [simp]: "agree_q u ((d1, p1), r1) ((d2, p2), r2) \<longleftrightarrow> r1 = r2 \<and> same_view u d1 d2"
  by (simp add: agree_q_def)

lemma agreeE:
  assumes "agree u x y"
  obtains d1 d2 r where "x = (d1, r)" "y = (d2, r)" "same_view u d1 d2"
  using assms by (cases x; cases y) auto

lemma dispatch_agree:
  assumes "db_ok d1" and "db_ok d2" and "same_view u d1 d2" and "(a_id a, u) \<in> id_owners d1" and "a_user a = u"
  shows "agree_q u (dispatch_for_mode enq p1 a d1) (dispatch_for_mode enq p2 a d2)"
proof -
  have "agree u (save_application (a\<lparr>a_status := s\<rparr>) d1) (save_application (a\<lparr>a_status := s\<rparr>) d2)" for s
    using assms(4,5) by (intro save_agree assms(1-3)) simp_all
  then show ?thesis unfolding agree_q_def dispatch_db by (simp add: agree_def)
qed

lemma dispatch_each_agree:
  assumes "db_ok (fst s1)" and "db_ok (fst s2)" and "same_view u (fst s1) (fst s2)"
    and "\<forall>a \<in> set as. (a_id a, u) \<in> id_owners (fst s1) \<and> a_user a = u"
  shows "agree_q u (dispatch_each enq as s1) (dispatch_each enq as s2)"
  using assms
proof (induction as arbitrary: s1 s2)
  case (Cons a as)
  obtain t1 r1 where t1: "dispatch_for_mode enq (snd s1) a (fst s1) = (t1, r1)"
    by (cases "dispatch_for_mode enq (snd s1) a (fst s1)")
  obtain t2 r2 where t2: "dispatch_for_mode enq (snd s2) a (fst s2) = (t2, r2)"
    by (cases "dispatch_for_mode enq (snd s2) a (fst s2)")
  have a: "(a_id a, u) \<in> id_owners (fst s1)" "a_user a = u" using Cons.prems(4) by auto
  have a2: "(a_id a, u) \<in> id_owners (fst s2)" using a(1) same_view_id_owners [OF Cons.prems(3)] by simp
  have "agree_q u (t1, r1) (t2, r2)"
    using dispatch_agree [OF Cons.prems(1-3) a, of enq "snd s1" "snd s2"] t1 t2 by simp
  then have r: "r2 = r1" and v: "same_view u (fst t1) (fst t2)" by (simp_all add: agree_q_def)
  have ok1: "db_ok (fst t1)" using own_change_db_ok [OF dispatch_own_change [OF Cons.prems(1) a]] Cons.prems(1) t1 by (metis fst_conv)
  have ok2: "db_ok (fst t2)" using own_change_db_ok [OF dispatch_own_change [OF Cons.prems(2) a2 a(2)]] Cons.prems(2) t2 by (metis fst_conv)
  have "id_owners (fst t1) = id_owners (fst s1)" using dispatch_id_owners [OF Cons.prems(1) a] t1 by (metis fst_conv)
  then have "agree_q u (dispatch_each enq as t1) (dispatch_each enq as t2)"
    using Cons.prems(4) by (intro Cons.IH ok1 ok2 v) auto
  then show ?case using t1 t2 r v by (auto simp: agree_q_def split: sum.split prod.split)
qed (simp add: agree_q_def)

lemma bulk_agree:
  fixes u :: str
  assumes "db_ok d1" and "db_ok d2" and "same_view u d1 d2"
  shows "agree_q u (bulk_approve enq p1 (Some u) ids d1) (bulk_approve enq p2 (Some u) ids d2)"
proof -
  define sel :: "db \<Rightarrow> application list" where "sel d = filter (\<lambda>a. a_user a = u \<and> a_id a \<in> set ids \<and> is_staged a) (applications d)" for d
  have sel: "sel d = filter (\<lambda>a. a_id a \<in> set ids \<and> is_staged a) (app_tbl.view u d)" for d
    by (auto simp: sel_def app_tbl.view_def conj_ac)
  have v: "app_tbl.view u d1 = app_tbl.view u d2" using assms(3) by (simp add: same_view_def)
  have s: "sel d1 = sel d2" by (simp add: sel v)
  have f: "filter (\<lambda>a. a_user a = u) (update_where (\<lambda>a. a \<in> set xs) (\<lambda>a. a\<lparr>a_status := APPROVED\<rparr>) (applications d))
      = update_where (\<lambda>a. a \<in> set xs) (\<lambda>a. a\<lparr>a_status := APPROVED\<rparr>) (app_tbl.view u d)" for xs and d :: db
    unfolding app_tbl.view_def by (rule filter_update_where) simp
  show ?thesis
    unfolding bulk_approve_reduce [OF assms(1)] bulk_approve_reduce [OF assms(2)] sel_def [symmetric] s
    by (simp add: agree_q_def) (rule same_view_put [OF assms(3)], simp only: f v)
qed

lemma handle_agree:
  assumes "db_ok (fst s1)" and "db_ok (fst s2)" and "same_view u (fst s1) (fst s2)"
    and "fresh_gen gen (fst s1)" and "fresh_gen gen (fst s2)"
  shows "agree_q u (handle enq u gen now r s1) (handle enq u gen now r s2)"
proof (cases r)
  case (RCreate data)
  have "gen 0 \<notin> a_id ` set (applications (fst s1))" "gen 0 \<notin> a_id ` set (applications (fst s2))"
    using fresh_genD [OF assms(4)] fresh_genD [OF assms(5)] by simp_all
  from create_agree [OF assms(1-3) this] obtain d1 d2 c
    where c: "create_application (Some u) u data (gen 0) now (fst s1) = (d1, c)"
      "create_application (Some u) u data (gen 0) now (fst s2) = (d2, c)" "same_view u d1 d2"
    by (rule agreeE)
  have ok: "db_ok d1" "db_ok d2"
    using create_application_db_ok [OF assms(1), of "Some u" u data "gen 0" now]
      create_application_db_ok [OF assms(2), of "Some u" u data "gen 0" now] c by simp_all
  show ?thesis
  proof (cases c)
    case (Inr a)
    have "(a_id a, u) \<in> id_owners d1" "a_user a = u"
      using create_returns_own [of u data "gen 0" now "fst s1" d1 a] c(1) Inr by (auto simp: id_owners_def)
    from dispatch_agree [OF ok c(3) this, of enq "snd s1" "snd s2"] show ?thesis
      by (auto simp: RCreate create_route_def c Inr agree_q_def split: prod.split sum.split)
  qed (simp add: RCreate create_route_def c)
next
  case (RBatch data)
  from batch_agree [OF assms] obtain d1 d2 c
    where c: "create_batch (Some u) u data gen now (fst s1) = (d1, c)"
      "create_batch (Some u) u data gen now (fst s2) = (d2, c)" "same_view u d1 d2"
    by (rule agreeE)
  have ok: "db_ok d1" "db_ok d2"
    using create_batch_db_ok [OF assms(1), of "Some u" u data gen now]
      create_batch_db_ok [OF assms(2), of "Some u" u data gen now] c by simp_all
  show ?thesis
  proof (cases c)
    case (Inr as)
    have "\<forall>a \<in> set as. (a_id a, u) \<in> id_owners d1 \<and> a_user a = u"
      using create_batch_returns_own [of u data gen now "fst s1" d1 as] c(1) Inr by (auto simp: id_owners_def)
    then have "agree_q u (dispatch_each enq as (d1, snd s1)) (dispatch_each enq as (d2, snd s2))"
      using ok c(3) by (intro dispatch_each_agree) simp_all
    then show ?thesis
      by (auto simp: RBatch batch_route_def c Inr agree_q_def split: prod.split sum.split)
  qed (simp add: RBatch batch_route_def c)
next
  case (RApprove i)
  from approve_agree [OF assms(1-3), of i] obtain d1 d2 c
    where c: "approve_application (Some u) i (fst s1) = (d1, c)"
      "approve_application (Some u) i (fst s2) = (d2, c)" "same_view u d1 d2"
    by (rule agreeE)
  then show ?thesis
    by (cases c) (simp_all add: RApprove approve_route_def same_view_reads(4) [OF c(3)])
next
  case (RUpdate i upd)
  from update_agree [OF assms(1-3), of i upd now] obtain d1 d2 c
    where c: "update_status (Some u) i upd now (fst s1) = (d1, c)"
      "update_status (Some u) i upd now (fst s2) = (d2, c)" "same_view u d1 d2"
    by (rule agreeE)
  then show ?thesis
    by (cases c) (simp_all add: RUpdate update_status_route_def same_view_reads(4) [OF c(3)])
next
  case (RBulkApprove ids)
  then show ?thesis using bulk_agree [OF assms(1-3), of enq "snd s1" ids "snd s2"]
    by (simp add: agree_q_def split_beta)
next
  case (RList page k st)
  have "list_applications (Some u) page k st (fst s1) = list_applications (Some u) page k st (fst s2)"
    unfolding list_applications_def same_view_reads [OF assms(3)] ..
  with RList assms(3) show ?thesis by (simp add: agree_q_def)
next
  case (RGet i)
  have "get_route u i s1 = get_route u i s2"
    unfolding get_route_def get_application_def same_view_reads [OF assms(3)] ..
  with RGet assms(3) show ?thesis by (simp add: agree_q_def)
qed

section \<open>Isolation of a sequence of requests\<close>

text \<open>Every request generates ids that no earlier request could have generated.\<close>

fun fresh_calls :: "call list \<Rightarrow> str set \<Rightarrow> bool" where
  "fresh_calls [] ids = True"
| "fresh_calls (c # cs) ids =
     (inj (c_gen c) \<and> range (c_gen c) \<inter> ids = {} \<and> fresh_calls cs (ids \<union> range (c_gen c)))"

lemma fresh_calls_mono: "fresh_calls cs ids \<Longrightarrow> ids' \<subseteq> ids \<Longrightarrow> fresh_calls cs ids'"
proof (induction cs arbitrary: ids ids')
  case (Cons c cs)
  then have "fresh_calls cs (ids' \<union> range (c_gen c))" by (auto intro: Cons.IH [of "ids \<union> range (c_gen c)"])
  with Cons.prems show ?case by auto
qed simp

lemma fresh_calls_gen: "fresh_calls (c # cs) (a_id ` set (applications d)) \<Longrightarrow> fresh_gen (c_gen c) d"
  by (simp add: fresh_gen_def)

definition own_calls :: "str \<Rightarrow> call list \<Rightarrow> call list" where
  "own_calls u cs = filter (\<lambda>c. c_user c = u) cs"

definition replies_to :: "str \<Rightarrow> (str \<times> 'r) list \<Rightarrow> (str \<times> 'r) list" where
  "replies_to u rs = filter (\<lambda>r. fst r = u) rs"

lemma replies_purged:
  assumes "db_ok (fst s1)" and "db_ok (fst s2)" and "same_view u (fst s1) (fst s2)"
    and "fresh_calls cs (a_id ` set (applications (fst s1)))"
    and "fresh_calls cs (a_id ` set (applications (fst s2)))"
  shows "replies_to u (snd (serve enq cs s1)) = snd (serve enq (own_calls u cs) s2)"
  using assms
proof (induction cs arbitrary: s1 s2)
  case (Cons c cs)
  let ?h = "\<lambda>s. handle enq (c_user c) (c_gen c) (c_now c) (c_req c) s"
  have o: "own_change (c_user c) (range (c_gen c)) (fst s) (fst (fst (?h s)))" if "db_ok (fst s)" for s
    by (rule handle_own_change [OF that])
  have ok: "db_ok (fst (fst (?h s1)))" "db_ok (fst (fst (?h s2)))"
    using own_change_db_ok [OF o] Cons.prems(1,2) by blast+
  have fresh: "fresh_calls cs (a_id ` set (applications (fst (fst (?h s)))))"
    if "db_ok (fst s)" "fresh_calls (c # cs) (a_id ` set (applications (fst s)))" for s
    using own_change_ids [OF o [OF that(1)]] that(2) by (auto elim: fresh_calls_mono)
  have f1: "fresh_calls cs (a_id ` set (applications (fst (fst (?h s1)))))" by (rule fresh [OF Cons.prems(1,4)])
  show ?case
  proof (cases "c_user c = u")
    case True
    have "agree_q u (?h s1) (?h s2)"
      using Cons.prems True by (metis handle_agree fresh_calls_gen)
    then have v: "same_view u (fst (fst (?h s1))) (fst (fst (?h s2)))" and r: "snd (?h s1) = snd (?h s2)"
      by (simp_all add: agree_q_def)
    from Cons.IH [OF ok v f1 fresh [OF Cons.prems(2,5)]] r True show ?thesis
      by (simp add: split_beta own_calls_def replies_to_def)
  next
    case False
    have "same_view u (fst (fst (?h s1))) (fst s1)"
      using False by (intro own_change_same_view [OF o [OF Cons.prems(1)]]) simp
    then have v: "same_view u (fst (fst (?h s1))) (fst s2)" using Cons.prems(3) by (rule same_view_trans)
    have "fresh_calls cs (a_id ` set (applications (fst s2)))" using Cons.prems(5) by (auto elim: fresh_calls_mono)
    from Cons.IH [OF ok(1) Cons.prems(2) v f1 this] False show ?thesis
      by (simp add: split_beta own_calls_def replies_to_def)
  qed
qed (simp add: replies_to_def own_calls_def)


definition gen_a :: "nat \<Rightarrow> str" where "gen_a n = CHR ''b'' # replicate n CHR ''x''"
definition gen_b :: "nat \<Rightarrow> str" where "gen_b n = CHR ''c'' # replicate n CHR ''x''"

definition two_calls :: "call list" where
  "two_calls = [\<lparr>c_user = ''u1'', c_gen = gen_a, c_now = 5, c_req = RCreate sample_create\<rparr>,
     \<lparr>c_user = ''u2'', c_gen = gen_b, c_now = 6, c_req = RGet ''bx''\<rparr>]"



lemma gens_fresh:
  "inj gen_a" "inj gen_b" "range gen_a \<inter> range gen_b = {}"
  "range gen_a \<inter> a_id ` set (applications sample_db) = {}"
  "range gen_b \<inter> a_id ` set (applications sample_db) = {}"
  by (auto simp: inj_def gen_a_def gen_b_def sample_db_def empty_db_def)


end
