(* ===== verification/Observe.thy ===== *)
theory Observe
  imports Models
begin

text \<open>
  Observing a browser run: the signals and the trajectory read from the agent's history
  (\<^verbatim>\<open>core/automation/runtime/observe.py\<close>) and the rule-based diagnosis of a failed run from its signals
  (\<^verbatim>\<open>core/harness/diagnose.py\<close>).
\<close>

section \<open>The agent's history\<close>

text \<open>
  The history is an object of the browser agent's library, read only through guarded accessors: a
  missing or raising accessor is \<open>None\<close> and the code's default is taken. The keys of an action are
  those of its dump, \<open>None\<close> when it cannot be dumped.
\<close>

record thought =
  th_evaluation :: "str option"
  th_next_goal :: "str option"

record model_output =
  mo_actions :: "str list option list"
  mo_current_state :: "thought option"

record history_item =
  hi_output :: "model_output option"
  hi_url :: "str option"

record history =
  h_items :: "history_item list option"
  h_action_names :: "str list option"
  h_action_history :: "str list option list option list option"
  h_urls :: "str option list option"
  h_thoughts :: "thought list option"
  h_number_of_steps :: "nat option"
  h_errors :: "str option list option"
  h_screenshot_paths :: "str option list option"
  h_is_done :: "bool option"
  h_is_successful :: "bool option option"
  h_final_result :: "str option option"
  h_total_tokens :: "int option"
  h_total_cost :: "real option"
  h_duration_seconds :: "real option"

text \<open>The history of a run that raised before it returned one: every accessor is missing.\<close>

definition no_history :: history where
  "no_history = \<lparr>h_items = None, h_action_names = None, h_action_history = None, h_urls = None,
     h_thoughts = None, h_number_of_steps = None, h_errors = None, h_screenshot_paths = None,
     h_is_done = None, h_is_successful = None, h_final_result = None, h_total_tokens = None,
     h_total_cost = None, h_duration_seconds = None\<rparr>"

definition MAX_STEPS_STORED :: nat where "MAX_STEPS_STORED = 100"
definition MAX_SCREENSHOTS :: nat where "MAX_SCREENSHOTS = 20"
definition LOOP_REPEAT :: nat where "LOOP_REPEAT = 3"

text \<open>\<^verbatim>\<open>_call(history, name, default) or default\<close>.\<close>

definition call_or :: "'a option \<Rightarrow> 'a \<Rightarrow> 'a" where
  "call_or r v = (case r of None \<Rightarrow> v | Some x \<Rightarrow> x)"

section \<open>Steps\<close>

definition last_n :: "nat \<Rightarrow> 'a list \<Rightarrow> 'a list" where
  "last_n n xs = drop (length xs - n) xs"

definition detect_loop :: "str list \<Rightarrow> bool" where
  "detect_loop seq =
     (let tail = last_n LOOP_REPEAT (filter (\<lambda>s. s \<noteq> []) seq)
      in length tail = LOOP_REPEAT \<and> length (remdups tail) = 1)"

fun action_name_of :: "str list option list \<Rightarrow> str option" where
  "action_name_of [] = None"
| "action_name_of (None # as) = action_name_of as"
| "action_name_of (Some dump # as) =
     (case filter (\<lambda>k. k \<noteq> ''interacted_element'') dump of
        [] \<Rightarrow> action_name_of as
      | k # _ \<Rightarrow> Some k)"

definition step_of_item :: "nat \<Rightarrow> history_item \<Rightarrow> run_step" where
  "step_of_item i item =
     (let brain = (case hi_output item of None \<Rightarrow> None | Some mo \<Rightarrow> mo_current_state mo)
      in \<lparr>st_n = i + 1,
          st_action = (case hi_output item of None \<Rightarrow> None | Some mo \<Rightarrow> action_name_of (mo_actions mo)),
          st_url = hi_url item,
          st_evaluation = Option.bind brain th_evaluation,
          st_next_goal = Option.bind brain th_next_goal\<rparr>)"

definition nth_opt :: "'a list \<Rightarrow> nat \<Rightarrow> 'a option" where
  "nth_opt xs i = (if i < length xs then Some (xs ! i) else None)"

definition build_steps :: "history \<Rightarrow> run_step list" where
  "build_steps h =
     (case h_items h of
        Some items \<Rightarrow> map (\<lambda>(i, item). step_of_item i item)
                        (enumerate 0 (take MAX_STEPS_STORED items))
      | None \<Rightarrow>
         (let actions = call_or (h_action_names h) [];
              urls = call_or (h_urls h) [];
              thoughts = call_or (h_thoughts h) [];
              n0 = call_or (h_number_of_steps h) (length actions);
              n = (if n0 = 0 then length actions else n0);
              aligned = (length actions = n \<and> length thoughts = n)
          in map (\<lambda>i. let th = (if aligned then nth_opt thoughts i else None)
                      in \<lparr>st_n = i + 1,
                          st_action = (if aligned then nth_opt actions i else None),
                          st_url = Option.bind (nth_opt urls i) id,
                          st_evaluation = Option.bind th th_evaluation,
                          st_next_goal = Option.bind th th_next_goal\<rparr>)
               [0..<min n MAX_STEPS_STORED]))"

text \<open>The names of the latest step's actions, for the metrics.\<close>

fun names_of_step :: "str list option list \<Rightarrow> str list" where
  "names_of_step [] = []"
| "names_of_step (None # as) = names_of_step as"
| "names_of_step (Some keys # as) =
     (case filter (\<lambda>k. k \<noteq> ''interacted_element'' \<and> k \<noteq> ''result'') keys of
        [] \<Rightarrow> names_of_step as
      | k # _ \<Rightarrow> if k = [] then names_of_step as else k # names_of_step as)"

definition current_step_actions :: "history \<Rightarrow> str list" where
  "current_step_actions h =
     (let names = (case h_action_history h of
                     None \<Rightarrow> []
                   | Some per_step \<Rightarrow>
                       if per_step = [] then []
                       else (case last per_step of None \<Rightarrow> [] | Some as \<Rightarrow> names_of_step as));
          flat = call_or (h_action_names h) []
      in if names \<noteq> [] then names else if flat \<noteq> [] then [last flat] else [])"

section \<open>Signals and trajectory\<close>

text \<open>\<^verbatim>\<open>for err in reversed(raw_errors): ...\<close>\<close>

fun count_leading :: "str option list \<Rightarrow> nat" where
  "count_leading [] = 0"
| "count_leading (e # es) = (if truthy e then Suc (count_leading es) else 0)"

definition truthy_values :: "str option list \<Rightarrow> str list" where
  "truthy_values xs = map or_empty (filter truthy xs)"

text \<open>\<^verbatim>\<open>f"{x}"\<close> of an optional string.\<close>

definition show_opt :: "str option \<Rightarrow> str" where
  "show_opt x = (case x of None \<Rightarrow> ''None'' | Some s \<Rightarrow> s)"

definition step_key :: "run_step \<Rightarrow> str" where
  "step_key s = show_opt (st_url s) @ ''|'' @ show_opt (st_action s) @ ''|'' @ show_opt (st_next_goal s)"

definition extract_run_signals :: "history \<Rightarrow> run_signals" where
  "extract_run_signals h =
     (let raw_errors = call_or (h_errors h) [];
          errors = truthy_values raw_errors;
          urls = truthy_values (call_or (h_urls h) []);
          evaluations = map th_evaluation (call_or (h_thoughts h) []);
          steps = build_steps h;
          step_keys = (if steps \<noteq> [] then map step_key steps else urls);
          joined = lower (join_with '' '' errors)
      in \<lparr>sg_errors = errors,
          sg_evaluations = truthy_values evaluations,
          sg_consecutive_failures = count_leading (rev raw_errors),
          sg_loop_detected = detect_loop step_keys,
          sg_timed_out = py_in ''timeout'' joined \<or> py_in ''timed out'' joined,
          sg_llm_error = py_in ''llm'' joined \<or> py_in ''rate limit'' joined,
          sg_final_url = (if urls \<noteq> [] then Some (last urls) else None)\<rparr>)"

record trajectory_args =
  ta_steps :: "run_step list"
  ta_screenshots :: "str list"
  ta_self_report :: "str option"
  ta_tokens :: int
  ta_cost_usd :: real
  ta_duration_ms :: int
  ta_status :: str

definition extract_trajectory :: "history \<Rightarrow> trajectory_args" where
  "extract_trajectory h =
     (let finished = call_or (h_is_done h) False;
          successful = call_or (h_is_successful h) None
      in \<lparr>ta_steps = build_steps h,
          ta_screenshots = take MAX_SCREENSHOTS (truthy_values (call_or (h_screenshot_paths h) [])),
          ta_self_report = call_or (h_final_result h) None,
          ta_tokens = call_or (h_total_tokens h) 0,
          ta_cost_usd = call_or (h_total_cost h) 0,
          ta_duration_ms = (let x = call_or (h_duration_seconds h) 0 * 1000
                            in if 0 \<le> x then \<lfloor>x\<rfloor> else \<lceil>x\<rceil>),
          ta_status = (if finished \<and> successful \<noteq> Some False then ''completed'' else ''failed'')\<rparr>)"

text \<open>
  The step hook: the names it counts as actions, and the detail of the progress event it publishes
  when there is a redis.
\<close>

definition step_actions :: "history option \<Rightarrow> str list" where
  "step_actions h =
     (let actions = (case h of None \<Rightarrow> [] | Some h \<Rightarrow> current_step_actions h)
      in if actions = [] then [''step''] else actions)"

definition step_detail :: "history option \<Rightarrow> str" where
  "step_detail h =
     (let n = (case h of None \<Rightarrow> 0 | Some h \<Rightarrow> call_or (h_number_of_steps h) 0)
      in ''step '' @ show_nat n @ '': '' @ last (step_actions h))"

section \<open>Diagnosis\<close>

record diagnosis =
  dg_class :: failure_class
  dg_root_cause :: str
  dg_action :: str

definition sig_haystack :: "run_signals \<Rightarrow> str" where
  "sig_haystack s = lower (join_with '' '' (sg_errors s @ sg_evaluations s))"

definition sig_url :: "run_signals \<Rightarrow> str" where
  "sig_url s = lower (or_empty (sg_final_url s))"

definition sig_has :: "run_signals \<Rightarrow> str list \<Rightarrow> bool" where
  "sig_has s ws = (\<exists>w \<in> set ws. py_in w (sig_haystack s) \<or> py_in w (sig_url s))"

definition CAPTCHA_WORDS :: "str list" where
  "CAPTCHA_WORDS = [''captcha'', ''are you a robot'', ''verify you are human'', ''recaptcha'']"
definition TWOFA_WORDS :: "str list" where
  "TWOFA_WORDS = [''two-factor'', ''2fa'', ''verification code'', ''one-time code'', ''authenticator'']"
definition ANTIBOT_WORDS :: "str list" where
  "ANTIBOT_WORDS = [''unusual traffic'', ''access denied'', ''datadome'', ''are you human'', ''blocked'']"
definition RATE_WORDS :: "str list" where
  "RATE_WORDS = [''rate limit'', ''too many requests'', ''429'']"
definition SESSION_WORDS :: "str list" where
  "SESSION_WORDS = [''session expired'', ''logged out'', ''please sign in'', ''please log in'']"
definition DOM_WORDS :: "str list" where
  "DOM_WORDS = [''element not found'', ''selector'', ''could not find'', ''no such element'', ''not visible'']"
definition FIELD_WORDS :: "str list" where
  "FIELD_WORDS = [''required field'', ''missing field'', ''must fill'', ''this field is required'']"

definition Dx :: "failure_class \<Rightarrow> str \<Rightarrow> str \<Rightarrow> diagnosis" where
  "Dx c r a = \<lparr>dg_class = c, dg_root_cause = r, dg_action = a\<rparr>"

definition diagnose :: "run_signals \<Rightarrow> diagnosis" where
  "diagnose s =
     (if sg_timed_out s then
        Dx TIMEOUT ''Run exceeded its time budget'' ''raise job_timeout / simplify flow''
      else if sig_has s CAPTCHA_WORDS then
        Dx CAPTCHA_WALL ''CAPTCHA challenge encountered'' ''request human intervention''
      else if sig_has s TWOFA_WORDS then
        Dx TWOFA_REQUIRED ''2FA prompt encountered'' ''request human intervention''
      else if sig_has s ANTIBOT_WORDS then
        Dx ANTIBOT_BLOCK ''Anti-bot block detected'' ''rotate proxy/UA and back off''
      else if sig_has s RATE_WORDS then
        Dx RATE_LIMITED ''Platform rate-limited the session'' ''back off and retry later''
      else if sig_has s SESSION_WORDS \<or> py_in ''login'' (sig_url s) then
        Dx SESSION_EXPIRED ''Login/session wall hit'' ''re-authenticate (assisted login)''
      else if sg_loop_detected s then
        Dx LOOP ''Agent looped without progress'' ''reload domain skill / revise prompt''
      else if sig_has s DOM_WORDS then
        Dx DOM_DRIFT ''Expected element missing (page changed)'' ''update domain-skill selectors''
      else if sig_has s FIELD_WORDS then
        Dx FIELD_MISSING ''Required form field not handled'' ''extend the form-fill skill''
      else if sg_llm_error s then
        Dx LLM_ERROR ''LLM provider error during reasoning'' ''check provider/key; use fallback''
      else if 3 \<le> sg_consecutive_failures s then
        Dx AGENT_OFFTRACK ''Repeated step failures'' ''simplify the task or add guidance''
      else Dx UNKNOWN ''Unclassified failure'' ''review the trajectory manually'')"

section \<open>Properties\<close>

lemma length_last_n [simp]: "length (last_n n xs) = min n (length xs)"
  by (simp add: last_n_def)

lemma build_steps_bound: "length (build_steps h) \<le> MAX_STEPS_STORED"
  by (simp add: build_steps_def Let_def length_enumerate split: option.split)

lemma build_steps_numbered: "map st_n (build_steps h) = [1..<Suc (length (build_steps h))]"
proof (cases "h_items h")
  case None
  have "map (\<lambda>i. Suc i) [0..<k] = [1..<Suc k]" for k by (simp add: map_Suc_upt)
  with None show ?thesis by (simp add: build_steps_def Let_def comp_def)
next
  case (Some items)
  have "map (\<lambda>(i, item). Suc i) (enumerate 0 xs) = map Suc (map fst (enumerate 0 xs))" for xs :: "history_item list"
    unfolding map_map comp_def split_def ..
  then have "map (\<lambda>(i, item). Suc i) (enumerate 0 xs) = [1..<Suc (length xs)]" for xs :: "history_item list"
    by (simp only: map_fst_enumerate map_Suc_upt) simp
  from this [of "take MAX_STEPS_STORED items"] Some show ?thesis
    by (simp add: build_steps_def step_of_item_def Let_def length_enumerate comp_def split_def)
qed

text \<open>The trailing failures: the longest suffix of steps that all failed.\<close>

lemma count_leading_takeWhile: "count_leading es = length (takeWhile truthy es)"
  by (induction es) auto

lemma trailing_failures:
  "\<exists>pre fails. es = pre @ fails \<and> length fails = count_leading (rev es) \<and> list_all truthy fails
     \<and> (pre = [] \<or> \<not> truthy (last pre))"
proof (intro exI conjI)
  let ?t = "takeWhile truthy (rev es)" and ?d = "dropWhile truthy (rev es)"
  have "rev (rev es) = rev ?d @ rev ?t" by (metis rev_append takeWhile_dropWhile_id)
  then show "es = rev ?d @ rev ?t" by simp
  show "length (rev ?t) = count_leading (rev es)" by (simp add: count_leading_takeWhile)
  show "list_all truthy (rev ?t)" by (auto simp: list_all_iff dest: set_takeWhileD)
  show "rev ?d = [] \<or> \<not> truthy (last (rev ?d))"
    by (cases "?d = []") (simp_all add: last_rev hd_dropWhile)
qed

lemma detect_loop_iff:
  assumes "[] \<notin> set seq"
  shows "detect_loop seq \<longleftrightarrow> (\<exists>pre x. seq = pre @ [x, x, x])"
proof -
  have f: "filter (\<lambda>s. s \<noteq> []) seq = seq" using assms by (auto simp: filter_id_conv)
  show ?thesis
  proof
    assume d: "detect_loop seq"
    obtain a b c where t: "last_n 3 seq = [a, b, c]"
      using d by (auto simp: detect_loop_def f LOOP_REPEAT_def Let_def length_Suc_conv numeral_3_eq_3)
    then have "a = b \<and> b = c" using d by (auto simp: detect_loop_def f LOOP_REPEAT_def Let_def split: if_splits)
    moreover have "seq = take (length seq - 3) seq @ last_n 3 seq" by (simp add: last_n_def)
    ultimately show "\<exists>pre x. seq = pre @ [x, x, x]" using t by metis
  qed (use f in \<open>auto simp: detect_loop_def LOOP_REPEAT_def Let_def last_n_def\<close>)
qed

lemma truthy_values_nonempty: "[] \<notin> set (truthy_values xs)"
  by (auto simp: truthy_values_def truthy_def split: option.splits)

text \<open>The keys that the loop check compares: one per step, or the urls when there are no steps.\<close>

definition loop_keys :: "history \<Rightarrow> str list" where
  "loop_keys h = (if build_steps h \<noteq> [] then map step_key (build_steps h)
                  else truthy_values (call_or (h_urls h) []))"

text \<open>
  the signals read from a history. The number of consecutive failures is the length of the
  longest suffix of the per-step errors in which every step failed; and a loop is reported exactly
  when the last three step keys (the last three urls, without steps) are equal.
\<close>

theorem run_signals_trailing:
  "(\<exists>pre fails. call_or (h_errors h) [] = pre @ fails
     \<and> sg_consecutive_failures (extract_run_signals h) = length fails \<and> list_all truthy fails
     \<and> (pre = [] \<or> \<not> truthy (last pre)))
   \<and> (sg_loop_detected (extract_run_signals h) \<longleftrightarrow> (\<exists>pre x. loop_keys h = pre @ [x, x, x]))"
proof
  have c: "sg_consecutive_failures (extract_run_signals h) = count_leading (rev (call_or (h_errors h) []))"
    by (simp add: extract_run_signals_def Let_def)
  show "\<exists>pre fails. call_or (h_errors h) [] = pre @ fails
     \<and> sg_consecutive_failures (extract_run_signals h) = length fails \<and> list_all truthy fails
     \<and> (pre = [] \<or> \<not> truthy (last pre))"
    using trailing_failures [of "call_or (h_errors h) []"] unfolding c by metis
  have "[] \<notin> set (loop_keys h)"
    using truthy_values_nonempty by (auto simp: loop_keys_def step_key_def)
  from detect_loop_iff [OF this]
  show "sg_loop_detected (extract_run_signals h) \<longleftrightarrow> (\<exists>pre x. loop_keys h = pre @ [x, x, x])"
    by (simp add: extract_run_signals_def Let_def loop_keys_def)
qed

definition sample_history :: history where
  "sample_history =
     \<lparr>h_items = None, h_action_names = None, h_action_history = None, h_urls = None, h_thoughts = None,
      h_number_of_steps = None, h_errors = Some [Some ''no element'', None, Some ''stale'', Some ''stale''],
      h_screenshot_paths = None, h_is_done = None, h_is_successful = None, h_final_result = None,
      h_total_tokens = None, h_total_cost = None, h_duration_seconds = None\<rparr>"

theorem run_signals_trailing_witness:
  "\<exists>pre fails. [Some ''no element'', None, Some ''stale'', Some ''stale''] = pre @ fails \<and> length fails = 2
     \<and> sg_consecutive_failures (extract_run_signals sample_history) = 2 \<and> list_all truthy fails"
proof -
  have "sg_consecutive_failures (extract_run_signals sample_history) = 2"
    by (simp add: extract_run_signals_def Let_def sample_history_def call_or_def)
  moreover have "call_or (h_errors sample_history) [] = [Some ''no element'', None, Some ''stale'', Some ''stale'']"
    by (simp add: sample_history_def call_or_def)
  ultimately show ?thesis using run_signals_trailing [of sample_history] by metis
qed

text \<open>
  a stored trajectory is bounded: at most 100 steps, numbered from 1, and at most 20 non-empty
  screenshot paths; and it is \<^verbatim>\<open>completed\<close> exactly when the agent is done and did not report failure.
\<close>

theorem trajectory_bounded:
  "length (ta_steps (extract_trajectory h)) \<le> 100
   \<and> map st_n (ta_steps (extract_trajectory h)) = [1..<Suc (length (ta_steps (extract_trajectory h)))]
   \<and> length (ta_screenshots (extract_trajectory h)) \<le> 20 \<and> [] \<notin> set (ta_screenshots (extract_trajectory h))
   \<and> (ta_status (extract_trajectory h) = ''completed'' \<longleftrightarrow>
        h_is_done h = Some True \<and> h_is_successful h \<noteq> Some (Some False))"
proof -
  have "[] \<notin> set (take k (truthy_values xs))" for k xs using truthy_values_nonempty [of xs] by (meson in_set_takeD)
  moreover have "length (build_steps h) \<le> 100" using build_steps_bound [of h] by (simp add: MAX_STEPS_STORED_def)
  ultimately show ?thesis using build_steps_numbered [of h]
    by (auto simp: extract_trajectory_def Let_def MAX_SCREENSHOTS_def call_or_def split: option.splits)
qed

lemma lower_char_idem [simp]: "lower_char (lower_char c) = lower_char c"
proof -
  have "of_char c < (256::nat)" by simp
  then show ?thesis by (auto simp: lower_char_def Let_def)
qed

lemma lower_idem [simp]: "lower (lower s) = lower s"
  by (simp add: lower_def)

lemma lower_append [simp]: "lower (s @ t) = lower s @ lower t"
  by (simp add: lower_def)

lemma lower_join: "lower sep = sep \<Longrightarrow> lower (join_with sep (map lower xs)) = lower (join_with sep xs)"
  by (induction sep xs rule: join_with.induct) (auto simp: lower_def)

text \<open>
  diagnosis. A timeout is diagnosed exactly when the run timed out, whatever else its texts say;
  human intervention is asked for exactly when it did not and a CAPTCHA or a second factor is
  mentioned; and the diagnosis does not depend on the case of the texts or of the url.
\<close>

theorem diagnose_priority:
  "(dg_class (diagnose s) = TIMEOUT \<longleftrightarrow> sg_timed_out s)
   \<and> (dg_action (diagnose s) = ''request human intervention'' \<longleftrightarrow>
        \<not> sg_timed_out s \<and> (sig_has s CAPTCHA_WORDS \<or> sig_has s TWOFA_WORDS))
   \<and> diagnose (s\<lparr>sg_errors := map lower (sg_errors s), sg_evaluations := map lower (sg_evaluations s),
        sg_final_url := map_option lower (sg_final_url s)\<rparr>) = diagnose s"
proof (intro conjI)
  let ?t = "s\<lparr>sg_errors := map lower (sg_errors s), sg_evaluations := map lower (sg_evaluations s),
        sg_final_url := map_option lower (sg_final_url s)\<rparr>"
  have "lower '' '' = '' ''" by (simp add: lower_def lower_char_def Let_def)
  from lower_join [OF this, of "sg_errors s @ sg_evaluations s"]
  have "sig_haystack ?t = sig_haystack s" by (simp add: sig_haystack_def)
  moreover have "sig_url ?t = sig_url s" by (cases "sg_final_url s") (simp_all add: sig_url_def)
  ultimately have "sig_has ?t ws = sig_has s ws" and "sig_url ?t = sig_url s" for ws by (simp_all add: sig_has_def)
  then show "diagnose ?t = diagnose s" by (simp add: diagnose_def)
qed (simp_all add: diagnose_def Dx_def)

end
