(* ===== verification/Regex.thy ===== *)
theory Regex
  imports Prelude
begin

text \<open>
  The part of Python's \<^verbatim>\<open>re\<close> that the program uses, on Latin-1 text: character classes, sequence,
  ordered alternation, greedy repetition and word boundaries. \<open>ends r s i\<close> lists where a match of
  \<open>r\<close> that starts at position \<open>i\<close> may end, in the order the backtracking engine tries them, so that
  the head is the end of the match that Python reports.
\<close>

section \<open>Character classes\<close>

definition is_digit :: "char \<Rightarrow> bool" where
  "is_digit c \<longleftrightarrow> (let n = (of_char c :: nat) in 48 \<le> n \<and> n \<le> 57)"

definition is_upper_az :: "char \<Rightarrow> bool" where
  "is_upper_az c \<longleftrightarrow> (let n = (of_char c :: nat) in 65 \<le> n \<and> n \<le> 90)"

definition is_lower_az :: "char \<Rightarrow> bool" where
  "is_lower_az c \<longleftrightarrow> (let n = (of_char c :: nat) in 97 \<le> n \<and> n \<le> 122)"

text \<open>\<^verbatim>\<open>str.isalnum\<close> and the class \<^verbatim>\<open>\w\<close> below code point 256.\<close>

definition is_alnum :: "char \<Rightarrow> bool" where
  "is_alnum c \<longleftrightarrow> is_digit c \<or> is_upper_az c \<or> is_lower_az c
     \<or> (let n = (of_char c :: nat) in n \<in> {170, 178, 179, 181, 185, 186, 188, 189, 190}
          \<or> (192 \<le> n \<and> n \<noteq> 215 \<and> n \<noteq> 247))"

definition is_word :: "char \<Rightarrow> bool" where
  "is_word c \<longleftrightarrow> is_alnum c \<or> c = CHR ''_''"

section \<open>Expressions\<close>

datatype rx =
    REps
  | RChr "char \<Rightarrow> bool"
  | RSeq rx rx
  | RAlt rx rx
  | RStar rx
  | RWordB

definition RPlus :: "rx \<Rightarrow> rx" where "RPlus r = RSeq r (RStar r)"
definition ROpt :: "rx \<Rightarrow> rx" where "ROpt r = RAlt r REps"
definition RLit :: "char \<Rightarrow> rx" where "RLit c = RChr (\<lambda>x. x = c)"

fun RStr :: "str \<Rightarrow> rx" where
  "RStr [] = REps"
| "RStr (c # cs) = RSeq (RLit c) (RStr cs)"

fun RSeqs :: "rx list \<Rightarrow> rx" where
  "RSeqs [] = REps"
| "RSeqs [r] = r"
| "RSeqs (r # rs) = RSeq r (RSeqs rs)"

fun RAlts :: "rx list \<Rightarrow> rx" where
  "RAlts [] = RChr (\<lambda>_. False)"
| "RAlts [r] = r"
| "RAlts (r # rs) = RAlt r (RAlts rs)"

text \<open>\<^verbatim>\<open>r{m,n}\<close> (greedy): \<open>m\<close> copies, then up to \<open>n\<close> more.\<close>

fun RRep :: "nat \<Rightarrow> nat \<Rightarrow> rx \<Rightarrow> rx" where
  "RRep (Suc m) n r = RSeq r (RRep m n r)"
| "RRep 0 (Suc n) r = ROpt (RSeq r (RRep 0 n r))"
| "RRep 0 0 r = REps"

text \<open>\<^verbatim>\<open>r{m,}\<close>.\<close>

fun RAtLeast :: "nat \<Rightarrow> rx \<Rightarrow> rx" where
  "RAtLeast (Suc m) r = RSeq r (RAtLeast m r)"
| "RAtLeast 0 r = RStar r"

section \<open>Matching\<close>

definition word_at :: "str \<Rightarrow> nat \<Rightarrow> bool" where
  "word_at s i \<longleftrightarrow> i < length s \<and> is_word (s ! i)"

definition at_boundary :: "str \<Rightarrow> nat \<Rightarrow> bool" where
  "at_boundary s i \<longleftrightarrow> word_at s i \<noteq> (0 < i \<and> word_at s (i - 1))"

function (sequential) ends :: "rx \<Rightarrow> str \<Rightarrow> nat \<Rightarrow> nat list" where
  "ends REps s i = [i]"
| "ends (RChr p) s i = (if i < length s \<and> p (s ! i) then [Suc i] else [])"
| "ends (RSeq a b) s i = concat (map (ends b s) (ends a s i))"
| "ends (RAlt a b) s i = ends a s i @ ends b s i"
| "ends (RStar a) s i =
     concat (map (ends (RStar a) s) (filter (\<lambda>j. i < j \<and> j \<le> length s) (ends a s i))) @ [i]"
| "ends RWordB s i = (if at_boundary s i then [i] else [])"
  by pat_completeness auto
termination
  by (relation "measures [\<lambda>(r, s, i). size r, \<lambda>(r, s, i). length s - i]") auto

lemmas ends_star = ends.simps(5)
declare ends_star [simp del]

lemma ends_star_set:
  "j \<in> set (ends (RStar a) s i) \<longleftrightarrow>
     j = i \<or> (\<exists>k \<in> set (ends a s i). i < k \<and> k \<le> length s \<and> j \<in> set (ends (RStar a) s k))"
  unfolding ends_star [of a s i] by auto

text \<open>\<^verbatim>\<open>pattern.search(s)\<close>: the leftmost match, as its start and end.\<close>

definition search_from :: "rx \<Rightarrow> str \<Rightarrow> nat \<Rightarrow> (nat \<times> nat) option" where
  "search_from r s k =
     (case filter (\<lambda>i. ends r s i \<noteq> []) [k..<Suc (length s)] of
        [] \<Rightarrow> None | i # _ \<Rightarrow> Some (i, hd (ends r s i)))"

definition rx_search :: "rx \<Rightarrow> str \<Rightarrow> bool" where
  "rx_search r s \<longleftrightarrow> search_from r s 0 \<noteq> None"

definition slice :: "str \<Rightarrow> nat \<Rightarrow> nat \<Rightarrow> str" where
  "slice s i j = take (j - i) (drop i s)"

section \<open>Reference semantics\<close>

inductive matches :: "rx \<Rightarrow> str \<Rightarrow> nat \<Rightarrow> nat \<Rightarrow> bool" where
  eps: "matches REps s i i"
| chr: "i < length s \<Longrightarrow> p (s ! i) \<Longrightarrow> matches (RChr p) s i (Suc i)"
| seq: "matches a s i j \<Longrightarrow> matches b s j k \<Longrightarrow> matches (RSeq a b) s i k"
| alt1: "matches a s i j \<Longrightarrow> matches (RAlt a b) s i j"
| alt2: "matches b s i j \<Longrightarrow> matches (RAlt a b) s i j"
| star0: "matches (RStar a) s i i"
| star1: "matches a s i j \<Longrightarrow> matches (RStar a) s j k \<Longrightarrow> matches (RStar a) s i k"
| wordb: "at_boundary s i \<Longrightarrow> matches RWordB s i i"

inductive_cases matches_elims:
  "matches REps s i j" "matches (RChr p) s i j" "matches (RSeq a b) s i j"
  "matches (RAlt a b) s i j" "matches RWordB s i j"

lemma matches_mono: "matches r s i j \<Longrightarrow> i \<le> j"
  by (induction rule: matches.induct) auto

lemma matches_bound: "matches r s i j \<Longrightarrow> i \<le> length s \<Longrightarrow> j \<le> length s"
  by (induction rule: matches.induct) auto

lemma ends_sound: "j \<in> set (ends r s i) \<Longrightarrow> matches r s i j"
proof (induction r s i arbitrary: j rule: ends.induct)
  case (5 a s i)
  from "5.prems" consider "j = i" | k where "k \<in> set (ends a s i)" "i < k" "k \<le> length s"
      "j \<in> set (ends (RStar a) s k)"
    using ends_star_set [of j a s i] by blast
  then show ?case
  proof cases
    case 2
    then have "matches a s i k" and "matches (RStar a) s k j" using "5.IH" by auto
    then show ?thesis by (rule matches.star1)
  qed (simp add: matches.star0)
qed (auto intro: matches.intros split: if_splits)

lemma ends_complete: "matches r s i j \<Longrightarrow> i \<le> length s \<Longrightarrow> j \<in> set (ends r s i)"
proof (induction rule: matches.induct)
  case (seq a s i j b k)
  then have "j \<le> length s" using matches_bound by blast
  with seq show ?case by auto
next
  case (star0 a s i)
  then show ?case using ends_star_set by blast
next
  case (star1 a s i j k)
  have jl: "j \<le> length s" using matches_bound star1.hyps(1) star1.prems by blast
  show ?case
  proof (cases "i = j")
    case True
    with star1 show ?thesis by simp
  next
    case False
    then have "i < j" using matches_mono [OF star1.hyps(1)] by simp
    with star1.IH star1.prems jl show ?thesis using ends_star_set [of k a s i] by blast
  qed
qed auto

lemma ends_iff: "i \<le> length s \<Longrightarrow> j \<in> set (ends r s i) \<longleftrightarrow> matches r s i j"
  using ends_sound ends_complete by blast

lemma search_from_None:
  "search_from r s k = None \<longleftrightarrow> (\<forall>i. k \<le> i \<longrightarrow> i \<le> length s \<longrightarrow> ends r s i = [])"
proof -
  have "search_from r s k = None \<longleftrightarrow> filter (\<lambda>i. ends r s i \<noteq> []) [k..<Suc (length s)] = []"
    by (simp only: search_from_def split: list.split) simp
  then show ?thesis by (auto simp: filter_empty_conv less_Suc_eq_le simp del: upt_Suc)
qed

lemma rx_search_iff: "rx_search r s \<longleftrightarrow> (\<exists>i j. i \<le> length s \<and> matches r s i j)"
proof -
  have "ends r s i = [] \<longleftrightarrow> (\<forall>j. \<not> matches r s i j)" if "i \<le> length s" for i
    using ends_iff [OF that, of _ r] by (cases "ends r s i") auto
  then show ?thesis unfolding rx_search_def search_from_None by auto
qed

end
