(* ===== verification/Harness.thy ===== *)
theory Harness
  imports Observe Regex Tenant "HOL-Library.Product_Lexorder"
begin

text \<open>
  The self-evolving harness: the PII gate and the registry of domain skills
  (\<^verbatim>\<open>core/harness/skills.py\<close>), the records of a review (\<^verbatim>\<open>record.py\<close>), its controller (\<^verbatim>\<open>review.py\<close>)
  and the worker's review task (\<^verbatim>\<open>workers/tasks.py\<close>). The language model is an argument, as is the
  named-entity recogniser: it gives the texts labelled as persons, or \<open>None\<close> when it cannot be loaded.
\<close>

section \<open>The PII gate\<close>

definition RETIRE_THRESHOLD :: int where "RETIRE_THRESHOLD = - 3"
definition VERSION_RETRIES :: nat where "VERSION_RETRIES = 3"

text \<open>\<^verbatim>\<open>[\w.+-]+@[\w-]+\.[\w.-]+\<close>\<close>

definition local_char :: "char \<Rightarrow> bool" where
  "local_char c \<longleftrightarrow> is_word c \<or> c = CHR ''.'' \<or> c = CHR ''+'' \<or> c = CHR ''-''"
definition label_char :: "char \<Rightarrow> bool" where
  "label_char c \<longleftrightarrow> is_word c \<or> c = CHR ''-''"
definition domain_char :: "char \<Rightarrow> bool" where
  "domain_char c \<longleftrightarrow> is_word c \<or> c = CHR ''.'' \<or> c = CHR ''-''"

definition EMAIL_RX :: rx where
  "EMAIL_RX = RSeqs [RPlus (RChr local_char), RLit (CHR ''@''), RPlus (RChr label_char),
     RLit (CHR ''.''), RPlus (RChr domain_char)]"

text \<open>\<^verbatim>\<open>\b\+?\d[\d\-\s().]{7,}\d\b\<close>\<close>

definition phone_char :: "char \<Rightarrow> bool" where
  "phone_char c \<longleftrightarrow> is_digit c \<or> is_space c \<or> c \<in> {CHR ''-'', CHR ''('', CHR '')'', CHR ''.''}"

definition PHONE_RX :: rx where
  "PHONE_RX = RSeqs [RWordB, ROpt (RLit (CHR ''+'')), RChr is_digit, RAtLeast 7 (RChr phone_char),
     RChr is_digit, RWordB]"

text \<open>\<^verbatim>\<open>(?:sk-|ghp_|xox[baprs]-|AKIA|Bearer\s)[A-Za-z0-9_\-]{8,}\<close>\<close>

definition token_char :: "char \<Rightarrow> bool" where
  "token_char c \<longleftrightarrow> is_upper_az c \<or> is_lower_az c \<or> is_digit c \<or> c = CHR ''_'' \<or> c = CHR ''-''"

definition TOKEN_RX :: rx where
  "TOKEN_RX = RSeqs [RAlts [RStr ''sk-'', RStr ''ghp_'',
       RSeqs [RStr ''xox'', RChr (\<lambda>c. c \<in> set ''baprs''), RLit (CHR ''-'')],
       RStr ''AKIA'', RSeqs [RStr ''Bearer'', RChr is_space]],
     RAtLeast 8 (RChr token_char)]"

text \<open>\<^verbatim>\<open>\b\d{1,5}\s+(?:[A-Z][a-z]+\s+){1,3}(?:St|Street|...|Drive)\b\<close>\<close>

definition ADDRESS_RX :: rx where
  "ADDRESS_RX = RSeqs [RWordB, RRep 1 4 (RChr is_digit), RPlus (RChr is_space),
     RRep 1 2 (RSeqs [RChr is_upper_az, RPlus (RChr is_lower_az), RPlus (RChr is_space)]),
     RAlts (map RStr [''St'', ''Street'', ''Ave'', ''Avenue'', ''Rd'', ''Road'', ''Blvd'', ''Lane'', ''Dr'', ''Drive'']),
     RWordB]"

definition PII_PATTERNS :: "rx list" where
  "PII_PATTERNS = [EMAIL_RX, PHONE_RX, TOKEN_RX, ADDRESS_RX]"

type_synonym ner = "str \<Rightarrow> str list option"

definition contains_person_name :: "ner \<Rightarrow> str \<Rightarrow> bool" where
  "contains_person_name ner content =
     (case ner content of
        None \<Rightarrow> False
      | Some persons \<Rightarrow> (\<exists>p \<in> set persons. 2 \<le> length (split_ws p)))"

definition pii_clean :: "ner \<Rightarrow> str \<Rightarrow> bool" where
  "pii_clean ner content =
     (if \<exists>r \<in> set PII_PATTERNS. rx_search r content then False
      else \<not> contains_person_name ner content)"

section \<open>The skill registry\<close>

definition max_version :: "str \<Rightarrow> db \<Rightarrow> int option" where
  "max_version domain d =
     (case map sk_version (filter (\<lambda>s. sk_domain s = domain) (domain_skills d)) of
        [] \<Rightarrow> None | v # vs \<Rightarrow> Some (fold max vs v))"

definition next_version :: "str \<Rightarrow> db \<Rightarrow> int" where
  "next_version domain d = (case max_version domain d of None \<Rightarrow> 0 | Some v \<Rightarrow> v) + 1"

definition new_skill :: "str \<Rightarrow> str \<Rightarrow> str \<Rightarrow> str \<Rightarrow> int \<Rightarrow> domain_skill" where
  "new_skill i domain content created_by v =
     \<lparr>sk_id = i, sk_domain = domain, sk_version = v, sk_content = content, sk_score = 0,
      sk_status = ACTIVE, sk_pii_checked = True, sk_created_by = Some created_by\<rparr>"

text \<open>
  The insert loop. \<open>interf\<close> is what other sessions commit between an attempt's read of the greatest
  version and its insert (the identity when nothing runs concurrently), by attempt.
\<close>

fun insert_skill ::
  "nat \<Rightarrow> nat \<Rightarrow> (nat \<Rightarrow> db \<Rightarrow> db) \<Rightarrow> str \<Rightarrow> str \<Rightarrow> str \<Rightarrow> str \<Rightarrow> db \<Rightarrow> db \<times> domain_skill option" where
  "insert_skill 0 k interf i domain content created_by d = (d, None)"
| "insert_skill (Suc n) k interf i domain content created_by d =
     (let s = new_skill i domain content created_by (next_version domain d);
          d1 = interf k d
      in case commit (d1\<lparr>domain_skills := domain_skills d1 @ [s]\<rparr>) d1 of
           (d', Inr _) \<Rightarrow> (d', Some s)
         | (_, Inl _) \<Rightarrow> insert_skill n (Suc k) interf i domain content created_by d1)"

definition record_skill ::
  "ner \<Rightarrow> (nat \<Rightarrow> db \<Rightarrow> db) \<Rightarrow> str \<Rightarrow> str \<Rightarrow> str \<Rightarrow> str \<Rightarrow> (db, exn, domain_skill option) op" where
  "record_skill ner interf i domain content created_by d =
     (if \<not> pii_clean ner content then (d, Inr None)
      else
        (case scalar_one_or_none (filter (\<lambda>s. sk_domain s = domain \<and> sk_content s = content
                \<and> sk_status s = ACTIVE) (domain_skills d)) of
           Inl e \<Rightarrow> (d, Inl e)
         | Inr (Some dup) \<Rightarrow> (d, Inr (Some dup))
         | Inr None \<Rightarrow>
             (case insert_skill VERSION_RETRIES 0 interf i domain content created_by d of
                (d', r) \<Rightarrow> (d', Inr r))))"

definition adjust_score :: "int \<Rightarrow> domain_skill \<Rightarrow> domain_skill" where
  "adjust_score delta s =
     (let s1 = s\<lparr>sk_score := sk_score s + delta\<rparr>
      in if sk_score s1 \<le> RETIRE_THRESHOLD then s1\<lparr>sk_status := RETIRED\<rparr> else s1)"

definition add_feedback ::
  "str \<Rightarrow> int \<Rightarrow> str option \<Rightarrow> str option \<Rightarrow> (db, exn, domain_skill option) op" where
  "add_feedback i delta reason run d =
     (case List.find (\<lambda>s. sk_id s = i) (domain_skills d) of
        None \<Rightarrow> (d, Inr None)
      | Some s \<Rightarrow>
         (case commit (d\<lparr>domain_skills := update_where (\<lambda>x. sk_id x = i) (adjust_score delta) (domain_skills d),
                skill_feedbacks := skill_feedbacks d @
                  [\<lparr>fb_skill = i, fb_run = run, fb_delta = delta, fb_reason = reason\<rparr>]\<rparr>) d of
            (d', Inr _) \<Rightarrow> (d', Inr (Some (adjust_score delta s)))
          | (d', Inl e) \<Rightarrow> (d', Inl e)))"

definition load_skills :: "str \<Rightarrow> nat \<Rightarrow> db \<Rightarrow> domain_skill list" where
  "load_skills domain limit d =
     take limit (order_desc (\<lambda>s. (sk_score s, sk_version s))
       (filter (\<lambda>s. sk_domain s = domain \<and> sk_status s = ACTIVE) (domain_skills d)))"

text \<open>The dash of the header is written as its three UTF-8 bytes.\<close>

definition guidance_header :: str where
  "guidance_header = ''Learned guidance for this site (from past runs '' @ [CHR 0xE2, CHR 0x80, CHR 0x94]
     @ '' treat as hints, verify live):''"

definition build_skill_guidance :: "domain_skill list \<Rightarrow> str" where
  "build_skill_guidance skills =
     (if skills = [] then []
      else
        (let ls = guidance_header #
               map (\<lambda>s. ''- '' @ strip (sk_content s)) (filter (\<lambda>s. strip (sk_content s) \<noteq> []) skills)
         in if 1 < length ls then join_with [CHR 10] ls else []))"

section \<open>Records of a review\<close>

record judge_output =
  jo_verdict :: run_verdict_result
  jo_confidence :: real
  jo_reason :: str

record distilled_skill =
  ds_worth_saving :: bool
  ds_content :: str

definition record_verdict :: "str \<Rightarrow> str \<Rightarrow> str \<Rightarrow> judge_output \<Rightarrow> (db, exn, unit) op" where
  "record_verdict i user run judge d =
     commit (d\<lparr>verdicts := verdicts d @
       [\<lparr>rv_id = i, rv_user = user, rv_run = run, rv_verdict = jo_verdict judge,
         rv_confidence = jo_confidence judge, rv_reason = jo_reason judge, rv_model = None\<rparr>]\<rparr>) d"

definition record_diagnosis :: "str \<Rightarrow> str \<Rightarrow> str \<Rightarrow> diagnosis \<Rightarrow> run_signals \<Rightarrow> (db, exn, unit) op" where
  "record_diagnosis i user run dg signals d =
     commit (d\<lparr>diagnoses := diagnoses d @
       [\<lparr>rd_id = i, rd_user = user, rd_run = run, rd_class = dg_class dg, rd_root_cause = dg_root_cause dg,
         rd_signals = signals, rd_action = Some (dg_action dg)\<rparr>]\<rparr>) d"

section \<open>The review\<close>

text \<open>
  The language model: a judgement and a distillation of a run and its signals, or the exception of
  the call.
\<close>

record review_llm =
  llm_judge :: "run_trajectory \<Rightarrow> run_signals \<Rightarrow> exn + judge_output"
  llm_distil :: "run_trajectory \<Rightarrow> run_signals \<Rightarrow> exn + distilled_skill"

record review_outcome =
  ro_verdict :: run_verdict_result
  ro_failure_class :: "failure_class option"
  ro_skill_id :: "str option"

definition review_run ::
  "ner \<Rightarrow> review_llm \<Rightarrow> (nat \<Rightarrow> str) \<Rightarrow> run_trajectory \<Rightarrow> run_signals \<Rightarrow> (db, exn, review_outcome) op" where
  "review_run ner llm gen traj signals d =
     (case llm_judge llm traj signals of
        Inl e \<Rightarrow> (d, Inl e)
      | Inr judge \<Rightarrow>
       (case record_verdict (gen 0) (tj_user traj) (tj_id traj) judge d of
          (d1, Inl e) \<Rightarrow> (d1, Inl e)
        | (d1, Inr _) \<Rightarrow>
         (case (if jo_verdict judge \<noteq> SUCCESS
                then (case record_diagnosis (gen 1) (tj_user traj) (tj_id traj) (diagnose signals) signals d1 of
                        (d2, Inl e) \<Rightarrow> (d2, Inl e)
                      | (d2, Inr _) \<Rightarrow> (d2, Inr (Some (dg_class (diagnose signals)))))
                else (d1, Inr None)) of
            (d2, Inl e) \<Rightarrow> (d2, Inl e)
          | (d2, Inr fc) \<Rightarrow>
           (case llm_distil llm traj signals of
              Inl e \<Rightarrow> (d2, Inl e)
            | Inr ds \<Rightarrow>
                if ds_worth_saving ds \<and> strip (ds_content ds) \<noteq> [] then
                  (case record_skill ner (\<lambda>_ x. x) (gen 2) (tj_platform traj) (ds_content ds) ''distiller'' d2 of
                     (d3, Inl e) \<Rightarrow> (d3, Inl e)
                   | (d3, Inr sk) \<Rightarrow> (d3, Inr \<lparr>ro_verdict = jo_verdict judge, ro_failure_class = fc,
                                               ro_skill_id = map_option sk_id sk\<rparr>))
                else (d2, Inr \<lparr>ro_verdict = jo_verdict judge, ro_failure_class = fc, ro_skill_id = None\<rparr>)))))"

fun feed_back :: "str list \<Rightarrow> int \<Rightarrow> str option \<Rightarrow> str \<Rightarrow> (db, exn, unit) op" where
  "feed_back [] delta reason run d = (d, Inr ())"
| "feed_back (i # is) delta reason run d =
     (case add_feedback i delta reason (Some run) d of
        (d', Inl e) \<Rightarrow> (d', Inl e)
      | (d', Inr _) \<Rightarrow> feed_back is delta reason run d')"

definition score_skills_from_verdict :: "run_trajectory \<Rightarrow> run_verdict_result \<Rightarrow> (db, exn, unit) op" where
  "score_skills_from_verdict traj verdict d =
     (let skill_ids = (case tj_skills_used traj of None \<Rightarrow> [] | Some is \<Rightarrow> is)
      in if skill_ids = [] then (d, Inr ())
         else feed_back skill_ids (if verdict = SUCCESS then 1 else - 1)
                (Some (''run verdict='' @ verdict_value verdict)) (tj_id traj) d)"

definition transient_llm :: "exn \<Rightarrow> bool" where
  "transient_llm e = (case e of LLMRateLimitError _ \<Rightarrow> True | LLMTimeoutError _ \<Rightarrow> True | _ \<Rightarrow> False)"

text \<open>
  The review task: a rate limit or a timeout of the provider is raised for Arq to retry, every other
  failure is logged and the task returns. \<open>build\<close> builds the user's language model.
\<close>

definition review_application_run ::
  "ner \<Rightarrow> (db \<Rightarrow> str \<Rightarrow> exn + review_llm) \<Rightarrow> (nat \<Rightarrow> str) \<Rightarrow> str \<Rightarrow> run_signals \<Rightarrow> (db, exn, unit) op" where
  "review_application_run ner build gen run_id signals d =
     (case List.find (\<lambda>t. tj_id t = run_id) (trajectories d) of
        None \<Rightarrow> (d, Inr ())
      | Some traj \<Rightarrow>
         (case (case build d (tj_user traj) of
                  Inl e \<Rightarrow> (d, Inl e)
                | Inr llm \<Rightarrow>
                    (case review_run ner llm gen traj signals d of
                       (d', Inl e) \<Rightarrow> (d', Inl e)
                     | (d', Inr out) \<Rightarrow> score_skills_from_verdict traj (ro_verdict out) d')) of
            (d', Inr _) \<Rightarrow> (d', Inr ())
          | (d', Inl e) \<Rightarrow> (d', if transient_llm e then Inl e else Inr ())))"

section \<open>The registry's invariant\<close>

text \<open>
  What holds of every registry built by recording and feedback: contents passed the gate, versions
  start at 1, a skill's score is the sum of its feedback, an active skill is above the threshold, and
  no content is active twice in a domain.
\<close>

definition skill_ok :: "ner \<Rightarrow> skill_feedback list \<Rightarrow> domain_skill \<Rightarrow> bool" where
  "skill_ok ner fbs s \<longleftrightarrow> pii_clean ner (sk_content s) \<and> sk_pii_checked s \<and> 1 \<le> sk_version s
     \<and> (sk_status s = ACTIVE \<longrightarrow> RETIRE_THRESHOLD < sk_score s)
     \<and> sk_score s = sum_list (map fb_delta (filter (\<lambda>f. fb_skill f = sk_id s) fbs))"

definition skills_inv :: "ner \<Rightarrow> db \<Rightarrow> bool" where
  "skills_inv ner d \<longleftrightarrow> db_ok d \<and> list_all (skill_ok ner (skill_feedbacks d)) (domain_skills d)
     \<and> fb_skill ` set (skill_feedbacks d) \<subseteq> sk_id ` set (domain_skills d)
     \<and> distinct (map (\<lambda>s. (sk_domain s, sk_content s)) (filter (\<lambda>s. sk_status s = ACTIVE) (domain_skills d)))"

inductive skill_step :: "ner \<Rightarrow> db \<Rightarrow> db \<Rightarrow> bool" for ner where
  recording: "record_skill ner (\<lambda>_ x. x) i domain content cb d = (d', r) \<Longrightarrow> skill_step ner d d'"
| scoring: "add_feedback i delta reason run d = (d', r) \<Longrightarrow> skill_step ner d d'"

lemma db_ok_skills:
  assumes "db_ok d"
  shows "db_ok (d\<lparr>domain_skills := ss, skill_feedbacks := fs\<rparr>) \<longleftrightarrow>
      distinct (map (\<lambda>s. (sk_domain s, sk_version s)) ss) \<and> distinct (map sk_id ss)"
    and "db_ok (d\<lparr>domain_skills := ss\<rparr>) \<longleftrightarrow>
      distinct (map (\<lambda>s. (sk_domain s, sk_version s)) ss) \<and> distinct (map sk_id ss)"
  using assms by (auto simp: db_ok_def pk_ok_def uq_shared_def)

lemma fold_max_ge: "v \<le> fold max vs (v :: int)" "x \<in> set vs \<Longrightarrow> x \<le> fold max vs v"
proof (induction vs arbitrary: v)
  case (Cons a vs)
  { case 1 show ?case using Cons.IH(1) [of "max a v"] by simp }
  { case 2 then show ?case using Cons.IH(1) [of "max a v"] Cons.IH(2) [of "max a v"] by auto }
qed simp_all

lemma next_version_fresh:
  assumes "s \<in> set (domain_skills d)" and "sk_domain s = domain"
  shows "sk_version s < next_version domain d"
proof -
  let ?vs = "map sk_version (filter (\<lambda>s. sk_domain s = domain) (domain_skills d))"
  have "sk_version s \<in> set ?vs" using assms by auto
  then obtain v vs where c: "?vs = v # vs" "sk_version s = v \<or> sk_version s \<in> set vs" by (cases ?vs) auto
  then show ?thesis using fold_max_ge [of v vs] fold_max_ge(2) [of "sk_version s" vs v]
    by (auto simp: next_version_def max_version_def)
qed

lemma next_version_positive:
  assumes "\<forall>s \<in> set (domain_skills d). 1 \<le> sk_version s"
  shows "1 \<le> next_version domain d"
proof (cases "filter (\<lambda>s. sk_domain s = domain) (domain_skills d)")
  case (Cons s ss)
  then have "s \<in> set (domain_skills d)" by (auto dest!: filter_eq_ConsD)
  with assms fold_max_ge(1) [of "sk_version s" "map sk_version ss"] Cons show ?thesis
    by (fastforce simp: next_version_def max_version_def)
qed (simp add: next_version_def max_version_def)

lemma append_skill_ok:
  assumes "db_ok d" and "i \<notin> sk_id ` set (domain_skills d)"
  shows "db_ok (d\<lparr>domain_skills := domain_skills d @ [new_skill i domain content cb (next_version domain d)]\<rparr>)"
proof -
  have "(domain, next_version domain d) \<notin> (\<lambda>s. (sk_domain s, sk_version s)) ` set (domain_skills d)"
    using next_version_fresh by fastforce
  with assms show ?thesis
    by (simp add: db_ok_skills [OF assms(1)] new_skill_def) (simp add: db_ok_def uq_shared_def)
qed

text \<open>Without concurrent sessions the insert loop succeeds at once, or keeps failing on the id.\<close>

lemma insert_skill_sequential:
  "insert_skill (Suc n) k (\<lambda>_ x. x) i domain content cb d =
     (let s = new_skill i domain content cb (next_version domain d);
          d' = d\<lparr>domain_skills := domain_skills d @ [s]\<rparr>
      in if db_ok d' then (d', Some s) else (d, None))"
proof -
  have "insert_skill n k (\<lambda>_ x. x) i domain content cb d = (d, None)"
    if "\<not> db_ok (d\<lparr>domain_skills := domain_skills d @ [new_skill i domain content cb (next_version domain d)]\<rparr>)"
    for n k using that by (induction n arbitrary: k) (simp_all add: Let_def commit_def)
  then show ?thesis by (simp add: Let_def commit_def)
qed

definition active_dups :: "str \<Rightarrow> str \<Rightarrow> db \<Rightarrow> domain_skill list" where
  "active_dups domain content d =
     filter (\<lambda>s. sk_domain s = domain \<and> sk_content s = content \<and> sk_status s = ACTIVE) (domain_skills d)"

lemma active_duplicates:
  assumes "skills_inv ner d"
  shows "active_dups domain content d = []
    \<or> (\<exists>s. active_dups domain content d = [s])"
proof -
  have "distinct (map (\<lambda>s. (sk_domain s, sk_content s)) (filter (\<lambda>s. sk_status s = ACTIVE) (domain_skills d)))"
    using assms by (simp add: skills_inv_def)
  from filter_key_le_one [OF this, of "(domain, content)"] show ?thesis by (simp add: active_dups_def conj_ac)
qed

lemma record_skill_reduce:
  assumes "skills_inv ner d" and "pii_clean ner content"
  shows "record_skill ner (\<lambda>_ x. x) i domain content cb d =
    (case active_dups domain content d of
       s # _ \<Rightarrow> (d, Inr (Some s))
     | [] \<Rightarrow> (let s = new_skill i domain content cb (next_version domain d);
                 d' = d\<lparr>domain_skills := domain_skills d @ [s]\<rparr>
             in if db_ok d' then (d', Inr (Some s)) else (d, Inr None)))"
proof -
  have v: "VERSION_RETRIES = Suc 2" by (simp add: VERSION_RETRIES_def)
  from active_duplicates [OF assms(1), of domain content] show ?thesis
    unfolding record_skill_def active_dups_def [symmetric] v insert_skill_sequential
    using assms(2) by (auto simp: Let_def)
qed

lemma skill_ok_no_feedback:
  assumes "pii_clean ner content" and "1 \<le> v" and "i \<notin> fb_skill ` set fbs"
  shows "skill_ok ner fbs (new_skill i domain content cb v)"
proof -
  have "filter (\<lambda>f. fb_skill f = i) fbs = []" using assms(3) by (auto simp: filter_empty_conv)
  with assms show ?thesis by (simp add: skill_ok_def new_skill_def RETIRE_THRESHOLD_def)
qed

lemma record_skill_inv:
  assumes "skills_inv ner d" and "record_skill ner (\<lambda>_ x. x) i domain content cb d = (d', r)"
  shows "skills_inv ner d'"
proof (cases "d' = d")
  case False
  let ?s = "new_skill i domain content cb (next_version domain d)"
  let ?d = "d\<lparr>domain_skills := domain_skills d @ [?s]\<rparr>"
  have pii: "pii_clean ner content" using assms(2) False by (auto simp: record_skill_def split: if_splits)
  note red = record_skill_reduce [OF assms(1) pii, of i domain cb]
  have dups: "active_dups domain content d = []"
    and d': "d' = ?d" and ok: "db_ok ?d"
    using assms(2) False unfolding red by (auto simp: Let_def split: list.splits if_splits)
  have inv: "db_ok d" "list_all (skill_ok ner (skill_feedbacks d)) (domain_skills d)"
    "fb_skill ` set (skill_feedbacks d) \<subseteq> sk_id ` set (domain_skills d)"
    "distinct (map (\<lambda>s. (sk_domain s, sk_content s)) (filter (\<lambda>s. sk_status s = ACTIVE) (domain_skills d)))"
    using assms(1) by (simp_all add: skills_inv_def)
  have "i \<notin> sk_id ` set (domain_skills d)"
    using ok by (simp add: db_ok_skills(2) [OF inv(1)] new_skill_def)
  then have "skill_ok ner (skill_feedbacks d) ?s"
    using inv(2,3) by (intro skill_ok_no_feedback pii next_version_positive) (auto simp: list_all_iff skill_ok_def)
  moreover have "(domain, content) \<notin> (\<lambda>s. (sk_domain s, sk_content s)) ` {s \<in> set (domain_skills d). sk_status s = ACTIVE}"
    using dups by (auto simp: active_dups_def filter_empty_conv)
  ultimately show ?thesis using inv ok unfolding d' skills_inv_def
    by (simp add: new_skill_def) blast
qed (use assms in simp)

lemma adjust_score_fields:
  "sk_id (adjust_score delta s) = sk_id s" "sk_domain (adjust_score delta s) = sk_domain s"
  "sk_version (adjust_score delta s) = sk_version s" "sk_content (adjust_score delta s) = sk_content s"
  "sk_score (adjust_score delta s) = sk_score s + delta" "sk_pii_checked (adjust_score delta s) = sk_pii_checked s"
  "sk_status (adjust_score delta s) = ACTIVE \<longleftrightarrow> sk_status s = ACTIVE \<and> RETIRE_THRESHOLD < sk_score s + delta"
  by (auto simp: adjust_score_def Let_def)

lemma add_feedback_inv:
  assumes "skills_inv ner d" and "add_feedback i delta reason run d = (d', r)"
  shows "skills_inv ner d'"
proof (cases "d' = d")
  case False
  let ?f = "\<lparr>fb_skill = i, fb_run = run, fb_delta = delta, fb_reason = reason\<rparr>"
  let ?ss = "update_where (\<lambda>x. sk_id x = i) (adjust_score delta) (domain_skills d)"
  let ?d = "d\<lparr>domain_skills := ?ss, skill_feedbacks := skill_feedbacks d @ [?f]\<rparr>"
  obtain s where s: "s \<in> set (domain_skills d)" "sk_id s = i"
    using assms(2) False by (auto simp: add_feedback_def find_Some_iff in_set_conv_nth split: option.splits)
  have d': "d' = ?d" and ok: "db_ok ?d"
    using assms(2) False by (auto simp: add_feedback_def commit_def split: option.splits if_splits)
  have inv: "list_all (skill_ok ner (skill_feedbacks d)) (domain_skills d)"
    "fb_skill ` set (skill_feedbacks d) \<subseteq> sk_id ` set (domain_skills d)"
    "distinct (map (\<lambda>s. (sk_domain s, sk_content s)) (filter (\<lambda>s. sk_status s = ACTIVE) (domain_skills d)))"
    using assms(1) by (simp_all add: skills_inv_def)
  have "skill_ok ner (skill_feedbacks d @ [?f]) (if sk_id x = i then adjust_score delta x else x)"
    if "x \<in> set (domain_skills d)" for x
    using inv(1) that by (auto simp: list_all_iff skill_ok_def adjust_score_fields)
  then have "list_all (skill_ok ner (skill_feedbacks d @ [?f])) ?ss"
    by (auto simp: list_all_iff in_set_update_where)
  moreover have ids: "sk_id ` set ?ss = sk_id ` set (domain_skills d)"
    unfolding set_map [symmetric] by (rule arg_cong [where f = set], rule map_update_where) (simp add: adjust_score_fields)
  moreover have "distinct (map (\<lambda>s. (sk_domain s, sk_content s)) (filter (\<lambda>s. sk_status s = ACTIVE) ?ss))"
    by (rule distinct_filter_update [OF inv(3)]) (simp add: adjust_score_fields)
  ultimately show ?thesis using ok inv(2) s unfolding d' skills_inv_def by auto
qed (use assms in simp)

lemma skill_step_inv: "skill_step ner d d' \<Longrightarrow> skills_inv ner d \<Longrightarrow> skills_inv ner d'"
  by (induction rule: skill_step.induct) (auto intro: record_skill_inv add_feedback_inv)

interpretation registry: step_invariant "skill_step ner" "skills_inv ner" for ner
  by unfold_locales (rule skill_step_inv)


definition no_names :: ner where "no_names s = Some []"

definition sample_skill_db :: db where
  "sample_skill_db = fst (record_skill no_names (\<lambda>_ x. x) ''s1'' ''linkedin'' ''Open #apply'' ''distiller'' empty_db)"

lemma sample_content_clean: "pii_clean no_names ''Open #apply''"
  by code_simp

lemma empty_db_ok [simp]: "db_ok empty_db"
  by (simp add: db_ok_def pk_ok_def uq_app_active_job_def uq_job_platform_id_def uq_user_email_def uq_shared_def empty_db_def)

lemma empty_tables [simp]: "domain_skills empty_db = []" "skill_feedbacks empty_db = []"
  by (simp_all add: empty_db_def)

lemma empty_skills_inv: "skills_inv ner empty_db"
  by (simp add: skills_inv_def)

lemma sample_skill_db_skills:
  "domain_skills sample_skill_db = [new_skill ''s1'' ''linkedin'' ''Open #apply'' ''distiller'' 1]"
proof -
  have n: "next_version ''linkedin'' empty_db = 1" by (simp add: next_version_def max_version_def empty_db_def)
  have "db_ok (empty_db\<lparr>domain_skills := domain_skills empty_db @
      [new_skill ''s1'' ''linkedin'' ''Open #apply'' ''distiller'' (next_version ''linkedin'' empty_db)]\<rparr>)"
    by (rule append_skill_ok) simp_all
  moreover have "active_dups ''linkedin'' ''Open #apply'' empty_db = []" by (simp add: active_dups_def)
  ultimately show ?thesis unfolding sample_skill_db_def
    by (simp add: record_skill_reduce [OF empty_skills_inv sample_content_clean] Let_def n)
qed


section \<open>Recording, loading and the gate\<close>

text \<open>
  recording a skill never raises and never overwrites: content that fails the gate is refused,
  content that is already active in the domain returns that skill, and anything else is appended as
  the domain's newest version.
\<close>

theorem record_skill_result:
  assumes "skills_inv ner d" and "i \<notin> sk_id ` set (domain_skills d)"
  shows "(\<not> pii_clean ner content \<longrightarrow> record_skill ner (\<lambda>_ x. x) i domain content cb d = (d, Inr None))
    \<and> (\<forall>s \<in> set (domain_skills d). pii_clean ner content \<and> sk_domain s = domain \<and> sk_content s = content
         \<and> sk_status s = ACTIVE \<longrightarrow> record_skill ner (\<lambda>_ x. x) i domain content cb d = (d, Inr (Some s)))
    \<and> (pii_clean ner content \<and> (\<forall>s \<in> set (domain_skills d). \<not> (sk_domain s = domain \<and> sk_content s = content
         \<and> sk_status s = ACTIVE)) \<longrightarrow>
       (\<exists>s. record_skill ner (\<lambda>_ x. x) i domain content cb d = (d\<lparr>domain_skills := domain_skills d @ [s]\<rparr>, Inr (Some s))
          \<and> sk_content s = content \<and> sk_status s = ACTIVE
          \<and> (\<forall>t \<in> set (domain_skills d). sk_domain t = domain \<longrightarrow> sk_version t < sk_version s)))"
proof (intro conjI impI ballI)
  show "record_skill ner (\<lambda>_ x. x) i domain content cb d = (d, Inr None)" if "\<not> pii_clean ner content"
    using that by (simp add: record_skill_def)
next
  fix s assume s: "s \<in> set (domain_skills d)" and a: "pii_clean ner content \<and> sk_domain s = domain
      \<and> sk_content s = content \<and> sk_status s = ACTIVE"
  then have "s \<in> set (active_dups domain content d)" by (simp add: active_dups_def)
  with active_duplicates [OF assms(1), of domain content] have "active_dups domain content d = [s]" by auto
  with a show "record_skill ner (\<lambda>_ x. x) i domain content cb d = (d, Inr (Some s))"
    by (simp add: record_skill_reduce [OF assms(1)])
next
  assume a: "pii_clean ner content \<and> (\<forall>s \<in> set (domain_skills d). \<not> (sk_domain s = domain \<and> sk_content s = content
         \<and> sk_status s = ACTIVE))"
  then have "active_dups domain content d = []" by (auto simp: active_dups_def filter_empty_conv)
  moreover have "db_ok d" using assms(1) by (simp add: skills_inv_def)
  ultimately have "record_skill ner (\<lambda>_ x. x) i domain content cb d =
      (d\<lparr>domain_skills := domain_skills d @ [new_skill i domain content cb (next_version domain d)]\<rparr>,
       Inr (Some (new_skill i domain content cb (next_version domain d))))"
    using append_skill_ok [OF _ assms(2)] a by (simp add: record_skill_reduce [OF assms(1)] Let_def)
  then show "\<exists>s. record_skill ner (\<lambda>_ x. x) i domain content cb d = (d\<lparr>domain_skills := domain_skills d @ [s]\<rparr>, Inr (Some s))
          \<and> sk_content s = content \<and> sk_status s = ACTIVE
          \<and> (\<forall>t \<in> set (domain_skills d). sk_domain t = domain \<longrightarrow> sk_version t < sk_version s)"
    by (intro exI [of _ "new_skill i domain content cb (next_version domain d)"])
      (auto simp: new_skill_def next_version_fresh)
qed

theorem record_skill_result_witness:
  "\<exists>s. record_skill no_names (\<lambda>_ x. x) ''s1'' ''linkedin'' ''Open #apply'' ''distiller'' empty_db
     = (empty_db\<lparr>domain_skills := domain_skills empty_db @ [s]\<rparr>, Inr (Some s)) \<and> sk_status s = ACTIVE"
  using record_skill_result [OF empty_skills_inv, of "''s1''" no_names "''Open #apply''" "''linkedin''" "''distiller''"]
    sample_content_clean
  by simp blast

lemma sorted_take_drop:
  assumes "sorted_wrt P xs" and "x \<in> set (take n xs)" and "y \<in> set (drop n xs)"
  shows "P x y"
  using assms by (metis append_take_drop_id sorted_wrt_append)

text \<open>
  loading. The loaded skills are active skills of the domain, at most the limit, best score first
  (newest version first among equals); and an active skill that is left out is no better than any
  loaded one, and left out only because the limit is reached.
\<close>

theorem load_skills_best:
  "sorted_wrt (\<lambda>x y. (sk_score y, sk_version y) \<le> (sk_score x, sk_version x)) (load_skills domain limit d)
   \<and> length (load_skills domain limit d) \<le> limit
   \<and> (\<forall>s \<in> set (load_skills domain limit d). s \<in> set (domain_skills d) \<and> sk_domain s = domain \<and> sk_status s = ACTIVE)
   \<and> (\<forall>s \<in> set (domain_skills d). sk_domain s = domain \<and> sk_status s = ACTIVE \<and> s \<notin> set (load_skills domain limit d) \<longrightarrow>
        length (load_skills domain limit d) = limit
        \<and> (\<forall>t \<in> set (load_skills domain limit d). (sk_score s, sk_version s) \<le> (sk_score t, sk_version t)))"
proof -
  let ?k = "\<lambda>s. (sk_score s, sk_version s)"
  define xs where "xs = order_desc ?k (filter (\<lambda>s. sk_domain s = domain \<and> sk_status s = ACTIVE) (domain_skills d))"
  have l: "load_skills domain limit d = take limit xs" by (simp add: load_skills_def xs_def)
  have sorted: "sorted_wrt (\<lambda>x y. ?k y \<le> ?k x) xs" unfolding xs_def by (rule sorted_order_desc)
  have member: "s \<in> set xs \<longleftrightarrow> s \<in> set (domain_skills d) \<and> sk_domain s = domain \<and> sk_status s = ACTIVE" for s
    by (auto simp: xs_def)
  have out: "length (take limit xs) = limit \<and> (\<forall>t \<in> set (take limit xs). ?k s \<le> ?k t)"
    if "s \<in> set xs" "s \<notin> set (take limit xs)" for s
  proof -
    have s: "s \<in> set (drop limit xs)" using that by (metis append_take_drop_id in_set_conv_decomp set_append Un_iff)
    then have "limit \<le> length xs" by (cases "limit \<le> length xs") simp_all
    with sorted_take_drop [OF sorted _ s] show ?thesis by simp
  qed
  have "sorted_wrt (\<lambda>x y. ?k y \<le> ?k x) (take limit xs)" using sorted by (rule sorted_wrt_take)
  moreover have "\<forall>s \<in> set (take limit xs). s \<in> set xs" by (meson in_set_takeD)
  ultimately show ?thesis unfolding l using member out by simp blast
qed

definition two_skills_db :: db where
  "two_skills_db = empty_db\<lparr>domain_skills :=
     [new_skill ''s1'' ''linkedin'' ''Open #apply'' ''distiller'' 1,
      (new_skill ''s2'' ''linkedin'' ''Scroll first'' ''distiller'' 2)\<lparr>sk_score := 2\<rparr>]\<rparr>"

theorem load_skills_best_witness:
  "map sk_id (load_skills ''linkedin'' 1 two_skills_db) = [''s2''] \<and> length (load_skills ''linkedin'' 1 two_skills_db) = 1"
proof -
  have l: "load_skills ''linkedin'' 1 two_skills_db =
      [(new_skill ''s2'' ''linkedin'' ''Scroll first'' ''distiller'' 2)\<lparr>sk_score := 2\<rparr>]"
    by (simp add: load_skills_def two_skills_db_def order_desc_def new_skill_def)
  have "new_skill ''s1'' ''linkedin'' ''Open #apply'' ''distiller'' 1 \<in> set (domain_skills two_skills_db)"
    by (simp add: two_skills_db_def)
  moreover have "new_skill ''s1'' ''linkedin'' ''Open #apply'' ''distiller'' 1 \<notin> set (load_skills ''linkedin'' 1 two_skills_db)"
    unfolding l by (simp add: new_skill_def)
  ultimately have "length (load_skills ''linkedin'' 1 two_skills_db) = 1"
    using load_skills_best [of "''linkedin''" 1 two_skills_db] by (simp add: new_skill_def)
  then show ?thesis by (simp add: l [simplified] new_skill_def)
qed

lemma plus_matches:
  assumes "list_all p m" and "m \<noteq> []"
  shows "matches (RPlus (RChr p)) (pre @ m @ post) (length pre) (length pre + length m)"
proof -
  have star: "matches (RStar (RChr p)) (pre @ m @ post) (length pre) (length pre + length m)"
    if "list_all p m" for pre m
    using that
  proof (induction m arbitrary: pre)
    case (Cons c m)
    have "matches (RChr p) ((pre @ [c]) @ m @ post) (length pre) (Suc (length pre))"
      using Cons.prems by (intro matches.chr) (simp_all add: nth_append)
    moreover have "matches (RStar (RChr p)) ((pre @ [c]) @ m @ post) (Suc (length pre)) (Suc (length pre) + length m)"
      using Cons.IH [of "pre @ [c]"] Cons.prems by simp
    ultimately show ?case using matches.star1 by fastforce
  qed (simp add: matches.star0)
  obtain c m' where m: "m = c # m'" using assms(2) by (cases m) auto
  have "matches (RChr p) ((pre @ [c]) @ m' @ post) (length pre) (Suc (length pre))"
    using assms(1) m by (intro matches.chr) (simp_all add: nth_append)
  moreover have "matches (RStar (RChr p)) ((pre @ [c]) @ m' @ post) (Suc (length pre)) (Suc (length pre) + length m')"
    using star [of m' "pre @ [c]"] assms(1) m by simp
  ultimately show ?thesis unfolding RPlus_def m using matches.seq by fastforce
qed

lemma lit_matches: "matches (RLit c) (pre @ c # post) (length pre) (Suc (length pre))"
  unfolding RLit_def by (rule matches.chr) simp_all

text \<open>
  the gate refuses an e-mail address. A text with a local part, an at sign, a label and a dotted
  domain anywhere in it is never stored as a skill.
\<close>

theorem gate_refuses_email:
  assumes "list_all local_char l" "l \<noteq> []" and "list_all label_char m" "m \<noteq> []"
    and "list_all domain_char t" "t \<noteq> []"
  shows "record_skill ner interf i domain (pre @ l @ ''@'' @ m @ ''.'' @ t @ post) cb d = (d, Inr None)"
proof -
  let ?s = "pre @ l @ ''@'' @ m @ ''.'' @ t @ post"
  have 1: "matches (RPlus (RChr local_char)) ?s (length pre) (length (pre @ l))"
    using plus_matches [OF assms(1,2), of pre "''@'' @ m @ ''.'' @ t @ post"] by (simp add: add_ac)
  have 2: "matches (RLit (CHR ''@'')) ?s (length (pre @ l)) (length (pre @ l @ ''@''))"
    using lit_matches [of "CHR ''@''" "pre @ l" "m @ ''.'' @ t @ post"] by (simp add: add_ac)
  have 3: "matches (RPlus (RChr label_char)) ?s (length (pre @ l @ ''@'')) (length (pre @ l @ ''@'' @ m))"
    using plus_matches [OF assms(3,4), of "pre @ l @ ''@''" "''.'' @ t @ post"] by (simp add: add_ac)
  have 4: "matches (RLit (CHR ''.'')) ?s (length (pre @ l @ ''@'' @ m)) (length (pre @ l @ ''@'' @ m @ ''.''))"
    using lit_matches [of "CHR ''.''" "pre @ l @ ''@'' @ m" "t @ post"] by (simp add: add_ac)
  have 5: "matches (RPlus (RChr domain_char)) ?s (length (pre @ l @ ''@'' @ m @ ''.'')) (length (pre @ l @ ''@'' @ m @ ''.'' @ t))"
    using plus_matches [OF assms(5,6), of "pre @ l @ ''@'' @ m @ ''.''" post] by (simp add: add_ac)
  have "matches EMAIL_RX ?s (length pre) (length (pre @ l @ ''@'' @ m @ ''.'' @ t))"
    unfolding EMAIL_RX_def RSeqs.simps by (rule matches.seq [OF 1 matches.seq [OF 2 matches.seq [OF 3 matches.seq [OF 4 5]]]])
  then have "rx_search EMAIL_RX ?s" unfolding rx_search_iff by (intro exI [of _ "length pre"] exI conjI) simp_all
  then have "\<not> pii_clean ner ?s" by (simp add: pii_clean_def PII_PATTERNS_def)
  then show ?thesis by (simp add: record_skill_def)
qed

theorem gate_refuses_email_witness:
  "record_skill no_names (\<lambda>_ x. x) ''s1'' ''linkedin'' ''ask a.b@x-y.io now'' ''distiller'' empty_db = (empty_db, Inr None)"
  using gate_refuses_email [of "''a.b''" "''x-y''" "''io''" no_names "\<lambda>_ x. x" "''s1''" "''linkedin''" "''ask ''" "'' now''"
      "''distiller''" empty_db]
  by (simp add: local_char_def label_char_def domain_char_def is_word_def is_alnum_def is_digit_def is_upper_az_def
      is_lower_az_def Let_def)

section \<open>The review\<close>

lemma db_ok_reviews [simp]:
  "db_ok (d\<lparr>verdicts := vs\<rparr>) = db_ok d" "db_ok (d\<lparr>diagnoses := ds\<rparr>) = db_ok d"
  by (simp_all add: db_ok_def pk_ok_def uq_shared_def)

lemma db_ok_trajectories [simp]: "db_ok (d\<lparr>trajectories := ts\<rparr>) = db_ok d"
  by (simp add: db_ok_def pk_ok_def uq_shared_def)

lemma record_verdict_ok:
  "db_ok d \<Longrightarrow> record_verdict i u r j d = (d\<lparr>verdicts := verdicts d @
     [\<lparr>rv_id = i, rv_user = u, rv_run = r, rv_verdict = jo_verdict j,
       rv_confidence = jo_confidence j, rv_reason = jo_reason j, rv_model = None\<rparr>]\<rparr>, Inr ())"
  by (simp add: record_verdict_def commit_def)

lemma record_diagnosis_ok:
  "db_ok d \<Longrightarrow> record_diagnosis i u r dg sg d = (d\<lparr>diagnoses := diagnoses d @
     [\<lparr>rd_id = i, rd_user = u, rd_run = r, rd_class = dg_class dg, rd_root_cause = dg_root_cause dg,
       rd_signals = sg, rd_action = Some (dg_action dg)\<rparr>]\<rparr>, Inr ())"
  by (simp add: record_diagnosis_def commit_def)

lemma insert_skill_frame:
  "insert_skill n k (\<lambda>_ x. x) i domain content cb d = (d', r) \<Longrightarrow> \<exists>ss. d' = d\<lparr>domain_skills := ss\<rparr>"
proof (induction n arbitrary: k)
  case 0
  then show ?case by (intro exI [of _ "domain_skills d"]) simp
next
  case (Suc n)
  then show ?case unfolding insert_skill_sequential
    by (cases "db_ok (d\<lparr>domain_skills := domain_skills d @ [new_skill i domain content cb (next_version domain d)]\<rparr>)")
      (auto simp: Let_def intro: exI [of _ "domain_skills d"])
qed

lemma record_skill_frame:
  assumes "record_skill ner (\<lambda>_ x. x) i domain content cb d = (d', r)"
  shows "\<exists>ss. d' = d\<lparr>domain_skills := ss\<rparr>"
proof -
  have "\<exists>ss. d = d\<lparr>domain_skills := ss\<rparr>" by (intro exI [of _ "domain_skills d"]) simp
  with assms insert_skill_frame [of VERSION_RETRIES 0 i domain content cb d] show ?thesis
    by (auto simp: record_skill_def split: if_splits sum.splits option.splits prod.splits)
qed

lemma review_run_records:
  assumes "db_ok d" and "llm_judge llm traj sg = Inr judge" and "review_run ner llm gen traj sg d = (d', r)"
  shows "(\<exists>v. verdicts d' = verdicts d @ [v] \<and> rv_run v = tj_id traj \<and> rv_verdict v = jo_verdict judge)
    \<and> (if jo_verdict judge = SUCCESS then diagnoses d' = diagnoses d
       else \<exists>g. diagnoses d' = diagnoses d @ [g] \<and> rd_run g = tj_id traj \<and> rd_class g = dg_class (diagnose sg))"
proof -
  let ?v = "\<lparr>rv_id = gen 0, rv_user = tj_user traj, rv_run = tj_id traj, rv_verdict = jo_verdict judge,
       rv_confidence = jo_confidence judge, rv_reason = jo_reason judge, rv_model = None\<rparr>"
  let ?d1 = "d\<lparr>verdicts := verdicts d @ [?v]\<rparr>"
  let ?g = "\<lparr>rd_id = gen 1, rd_user = tj_user traj, rd_run = tj_id traj, rd_class = dg_class (diagnose sg),
       rd_root_cause = dg_root_cause (diagnose sg), rd_signals = sg, rd_action = Some (dg_action (diagnose sg))\<rparr>"
  define d2 where "d2 = (if jo_verdict judge \<noteq> SUCCESS then ?d1\<lparr>diagnoses := diagnoses d @ [?g]\<rparr> else ?d1)"
  have "\<exists>ss. d' = d2\<lparr>domain_skills := ss\<rparr>"
  proof (cases "llm_distil llm traj sg")
    case (Inl e)
    then have "d' = d2" using assms
      by (auto simp: review_run_def record_verdict_ok record_diagnosis_ok d2_def split: if_splits)
    then show ?thesis by (intro exI [of _ "domain_skills d2"]) simp
  next
    case (Inr ds)
    show ?thesis
    proof (cases "ds_worth_saving ds \<and> strip (ds_content ds) \<noteq> []")
      case True
      obtain d3 q where q: "record_skill ner (\<lambda>_ x. x) (gen 2) (tj_platform traj) (ds_content ds) ''distiller'' d2 = (d3, q)"
        by (cases "record_skill ner (\<lambda>_ x. x) (gen 2) (tj_platform traj) (ds_content ds) ''distiller'' d2")
      have "d' = d3" using assms Inr True q
        by (auto simp: review_run_def record_verdict_ok record_diagnosis_ok d2_def split: if_splits sum.splits)
      with record_skill_frame [OF q] show ?thesis by simp
    next
      case False
      then have "d' = d2" using assms Inr
        by (auto simp: review_run_def record_verdict_ok record_diagnosis_ok d2_def split: if_splits)
      then show ?thesis by (intro exI [of _ "domain_skills d2"]) simp
    qed
  qed
  then show ?thesis by (auto simp: d2_def)
qed

text \<open>
  a review that gets its judgement records exactly one verdict of the run, and a diagnosis (the one
  its signals call for) exactly when the verdict is not a success, even when the distillation that
  follows fails.
\<close>

theorem review_records_verdict:
  assumes "db_ok d" and "llm_judge llm traj sg = Inr judge"
  shows "(\<exists>v. verdicts (fst (review_run ner llm gen traj sg d)) = verdicts d @ [v]
        \<and> rv_run v = tj_id traj \<and> rv_verdict v = jo_verdict judge)
    \<and> (if jo_verdict judge = SUCCESS then diagnoses (fst (review_run ner llm gen traj sg d)) = diagnoses d
       else \<exists>g. diagnoses (fst (review_run ner llm gen traj sg d)) = diagnoses d @ [g]
          \<and> rd_run g = tj_id traj \<and> rd_class g = dg_class (diagnose sg))"
  by (rule review_run_records [OF assms prod.collapse [symmetric]])

definition sample_traj :: run_trajectory where
  "sample_traj = \<lparr>tj_id = ''t1'', tj_user = ''u1'', tj_application = ''a1'', tj_platform = ''linkedin'',
     tj_steps = [], tj_screenshots = [], tj_self_report = None, tj_tokens = 0, tj_cost_usd = 0,
     tj_duration_ms = 0, tj_status = ''failed'', tj_skills_used = Some [''s1'']\<rparr>"

definition sample_signals :: run_signals where
  "sample_signals = \<lparr>sg_errors = [''Timeout''], sg_evaluations = [], sg_consecutive_failures = 1,
     sg_loop_detected = False, sg_timed_out = True, sg_llm_error = False, sg_final_url = None\<rparr>"

definition sample_llm :: review_llm where
  "sample_llm = \<lparr>llm_judge = (\<lambda>_ _. Inr \<lparr>jo_verdict = VERDICT_FAILED, jo_confidence = 1, jo_reason = []\<rparr>),
     llm_distil = (\<lambda>_ _. Inl (LLMRateLimitError ''openai''))\<rparr>"

theorem review_records_verdict_witness:
  "\<exists>g. diagnoses (fst (review_run no_names sample_llm (\<lambda>n. show_nat n) sample_traj sample_signals empty_db)) = [g]
     \<and> rd_class g = TIMEOUT"
  using review_records_verdict [OF empty_db_ok, of sample_llm sample_traj sample_signals _ no_names "\<lambda>n. show_nat n"]
  by (simp add: sample_llm_def) (auto simp: empty_db_def diagnose_def sample_signals_def Dx_def)

text \<open>
  a retried review records its verdict again. When the distillation hits the provider's rate limit,
  the task raises after the verdict is committed, Arq runs it again, and each attempt appends
  another verdict of the same run (and another diagnosis).
\<close>

theorem review_retry_duplicates:
  assumes "db_ok d" and "List.find (\<lambda>t. tj_id t = i) (trajectories d) = Some traj"
    and "\<And>d'. build d' (tj_user traj) = Inr llm"
    and "llm_judge llm traj sg = Inr judge" and "llm_distil llm traj sg = Inl e" and "transient_llm e"
    and "review_application_run ner build gen i sg d = (d1, r1)"
    and "review_application_run ner build gen' i sg d1 = (d2, r2)"
  shows "r1 = Inl e \<and> (\<exists>v v'. verdicts d2 = verdicts d @ [v, v'] \<and> rv_run v = i \<and> rv_run v' = i)"
proof -
  have run: "\<exists>v ds. review_application_run ner build g i sg x =
      (x\<lparr>verdicts := verdicts x @ [v], diagnoses := ds\<rparr>, Inl e) \<and> rv_run v = i"
    if "db_ok x" "List.find (\<lambda>t. tj_id t = i) (trajectories x) = Some traj" for x g
  proof -
    have "tj_id traj = i" using that(2) by (auto simp: find_Some_iff)
    moreover
    let ?v = "\<lparr>rv_id = g 0, rv_user = tj_user traj, rv_run = tj_id traj, rv_verdict = jo_verdict judge,
        rv_confidence = jo_confidence judge, rv_reason = jo_reason judge, rv_model = None\<rparr>"
    let ?g = "\<lparr>rd_id = g 1, rd_user = tj_user traj, rd_run = tj_id traj, rd_class = dg_class (diagnose sg),
        rd_root_cause = dg_root_cause (diagnose sg), rd_signals = sg, rd_action = Some (dg_action (diagnose sg))\<rparr>"
    have "review_run ner llm g traj sg x = (x\<lparr>verdicts := verdicts x @ [?v],
        diagnoses := (if jo_verdict judge = SUCCESS then diagnoses x else diagnoses x @ [?g])\<rparr>, Inl e)"
      using that(1) assms(4,5) by (simp add: review_run_def record_verdict_ok record_diagnosis_ok)
    ultimately show ?thesis using that(2) assms(3,6)
      by (intro exI [of _ ?v] exI conjI) (simp_all add: review_application_run_def)
  qed
  obtain v ds where 1: "d1 = d\<lparr>verdicts := verdicts d @ [v], diagnoses := ds\<rparr>" "r1 = Inl e" "rv_run v = i"
    using run [OF assms(1,2), of gen] assms(7) by auto
  then have "db_ok d1" and "List.find (\<lambda>t. tj_id t = i) (trajectories d1) = Some traj"
    using assms(1,2) by simp_all
  then obtain v' ds' where "d2 = d1\<lparr>verdicts := verdicts d1 @ [v'], diagnoses := ds'\<rparr>" "rv_run v' = i"
    using run [of d1 gen'] assms(8) by auto
  with 1 show ?thesis by simp
qed

definition reviewed_db :: db where
  "reviewed_db = empty_db\<lparr>trajectories := [sample_traj]\<rparr>"

theorem review_retry_duplicates_witness:
  "\<exists>v v'. verdicts (fst (review_application_run no_names (\<lambda>_ _. Inr sample_llm) show_nat ''t1'' sample_signals
      (fst (review_application_run no_names (\<lambda>_ _. Inr sample_llm) show_nat ''t1'' sample_signals reviewed_db)))) = [v, v']"
proof -
  have f: "List.find (\<lambda>t. tj_id t = ''t1'') (trajectories reviewed_db) = Some sample_traj"
    by (simp add: reviewed_db_def sample_traj_def)
  have "db_ok reviewed_db" by (simp add: reviewed_db_def)
  from review_retry_duplicates [OF this f _ _ _ _ prod.collapse [symmetric] prod.collapse [symmetric],
      where build = "\<lambda>_ _. Inr sample_llm" and llm = sample_llm and sg = sample_signals
        and e = "LLMRateLimitError ''openai''" and ner = no_names and gen = show_nat and gen' = show_nat]
  show ?thesis by (simp add: sample_llm_def transient_llm_def) (auto simp: reviewed_db_def empty_db_def)
qed

text \<open>
  The feedback of a review: every skill that the run used gets +1 on a success and -1 otherwise.
\<close>

fun total_uses :: "str list \<Rightarrow> str \<Rightarrow> int" where
  "total_uses [] j = 0"
| "total_uses (i # is) j = (if i = j then 1 else 0) + total_uses is j"

lemma find_skill:
  assumes "db_ok d"
  shows "List.find (\<lambda>s. sk_id s = i) (domain_skills d) = Some s \<longleftrightarrow> s \<in> set (domain_skills d) \<and> sk_id s = i"
  using assms find_key [of sk_id "domain_skills d" i s] by (simp add: db_ok_def uq_shared_def)

lemma add_feedback_ok:
  assumes "db_ok d" and "i \<in> sk_id ` set (domain_skills d)"
  shows "\<exists>d' s. add_feedback i delta reason run d = (d', Inr (Some s)) \<and> db_ok d'
    \<and> domain_skills d' = update_where (\<lambda>x. sk_id x = i) (adjust_score delta) (domain_skills d)"
proof -
  obtain s where s: "List.find (\<lambda>s. sk_id s = i) (domain_skills d) = Some s"
    using assms find_skill [OF assms(1)] by blast
  let ?ss = "update_where (\<lambda>x. sk_id x = i) (adjust_score delta) (domain_skills d)"
  have "map sk_id ?ss = map sk_id (domain_skills d)"
    by (rule map_update_where) (simp add: adjust_score_fields)
  moreover have "map (\<lambda>s. (sk_domain s, sk_version s)) ?ss = map (\<lambda>s. (sk_domain s, sk_version s)) (domain_skills d)"
    by (rule map_update_where) (simp add: adjust_score_fields)
  ultimately have "db_ok (d\<lparr>domain_skills := ?ss, skill_feedbacks := fs\<rparr>)" for fs
    using assms(1) by (simp only: db_ok_skills(1) [OF assms(1)]) (simp add: db_ok_def uq_shared_def)
  with s show ?thesis by (simp add: add_feedback_def commit_def)
qed

definition score_of :: "str \<Rightarrow> db \<Rightarrow> int option" where
  "score_of i d = map_option sk_score (List.find (\<lambda>s. sk_id s = i) (domain_skills d))"

lemma find_adjust:
  "map_option sk_score (List.find (\<lambda>s. sk_id s = j) (update_where (\<lambda>x. sk_id x = i) (adjust_score delta) ss)) =
    map_option (\<lambda>v. v + (if i = j then delta else 0)) (map_option sk_score (List.find (\<lambda>s. sk_id s = j) ss))"
  by (induction ss) (auto simp: update_where_def adjust_score_fields)

lemma feed_back_scores:
  assumes "db_ok d" and "set is \<subseteq> sk_id ` set (domain_skills d)"
  shows "\<exists>d'. feed_back is delta reason run d = (d', Inr ())
    \<and> (\<forall>j. score_of j d' = map_option (\<lambda>v. v + delta * total_uses is j) (score_of j d))"
  using assms
proof (induction "is" arbitrary: d)
  case Nil
  then show ?case by (simp add: option.map_ident)
next
  case (Cons i "is")
  obtain d1 s where d1: "add_feedback i delta reason (Some run) d = (d1, Inr (Some s))" "db_ok d1"
    "domain_skills d1 = update_where (\<lambda>x. sk_id x = i) (adjust_score delta) (domain_skills d)"
    using add_feedback_ok [OF Cons.prems(1)] Cons.prems(2) by (metis insert_subset list.simps(15))
  have "sk_id ` set (domain_skills d1) = sk_id ` set (domain_skills d)"
    unfolding d1(3) set_map [symmetric] by (rule arg_cong [where f = set], rule map_update_where) (simp add: adjust_score_fields)
  with Cons.prems(2) have "set is \<subseteq> sk_id ` set (domain_skills d1)" by simp
  from Cons.IH [OF d1(2) this] obtain d' where d': "feed_back is delta reason run d1 = (d', Inr ())"
    and sc: "\<And>j. score_of j d' = map_option (\<lambda>v. v + delta * total_uses is j) (score_of j d1)" by blast
  have "score_of j d1 = map_option (\<lambda>v. v + (if i = j then delta else 0)) (score_of j d)" for j
    by (simp only: score_of_def d1(3) find_adjust)
  then have "score_of j d' = map_option (\<lambda>v. v + delta * total_uses (i # is) j) (score_of j d)" for j
    by (simp add: sc option.map_comp comp_def distrib_left add.assoc)
  with d1(1) d' show ?case by simp
qed

text \<open>
  the feedback loop. Scoring a run whose skills are all registered adds to each skill's score
  one point per use when the verdict is a success, and takes one per use otherwise; it changes the
  score of no other skill, and never fails.
\<close>

theorem verdict_scores_skills:
  assumes "db_ok d" and "tj_skills_used traj = Some used" and "set used \<subseteq> sk_id ` set (domain_skills d)"
  shows "\<exists>d'. score_skills_from_verdict traj v d = (d', Inr ())
    \<and> (\<forall>j. score_of j d' = map_option (\<lambda>s. if v = SUCCESS then s + total_uses used j else s - total_uses used j) (score_of j d))"
proof -
  have "\<exists>d'. feed_back used (if v = SUCCESS then 1 else - 1) reason (tj_id traj) d = (d', Inr ())
    \<and> (\<forall>j. score_of j d' = map_option (\<lambda>s. if v = SUCCESS then s + total_uses used j else s - total_uses used j) (score_of j d))"
    for reason
    using feed_back_scores [OF assms(1,3), of "if v = SUCCESS then 1 else - 1" reason "tj_id traj"]
    by (cases "v = SUCCESS") (simp_all del: feed_back.simps)
  with assms(2) show ?thesis
    by (cases "used = []") (auto simp: score_skills_from_verdict_def Let_def option.map_ident)
qed

theorem verdict_scores_skills_witness:
  "\<exists>d'. score_skills_from_verdict sample_traj PARTIAL sample_skill_db = (d', Inr ()) \<and> score_of ''s1'' d' = Some (- 1)"
proof -
  have "skills_inv no_names sample_skill_db"
    unfolding sample_skill_db_def by (rule record_skill_inv [OF empty_skills_inv prod.collapse [symmetric]])
  then have ok: "db_ok sample_skill_db" by (simp add: skills_inv_def)
  have "set [''s1''] \<subseteq> sk_id ` set (domain_skills sample_skill_db)"
    by (simp add: sample_skill_db_skills new_skill_def)
  from verdict_scores_skills [OF ok _ this, of sample_traj PARTIAL]
  obtain d' where d': "score_skills_from_verdict sample_traj PARTIAL sample_skill_db = (d', Inr ())"
    and s: "\<forall>j. score_of j d' = map_option (\<lambda>s. s - total_uses [''s1''] j) (score_of j sample_skill_db)"
    by (auto simp: sample_traj_def)
  have "score_of ''s1'' sample_skill_db = Some 0"
    by (simp add: score_of_def sample_skill_db_skills new_skill_def)
  with s have "score_of ''s1'' d' = Some (- 1)" by simp
  with d' show ?thesis by blast
qed

end
