(* ===== verification/Auth.thy ===== *)
theory Auth
  imports Models "HOL-Library.Countable"
begin

text \<open>
  Accounts and sessions: registration, login, refresh with rotation and reuse detection, logout,
  account deletion (\<^verbatim>\<open>api/v1/auth.py\<close>), password reset (\<^verbatim>\<open>services/password_reset.py\<close>), tokens
  (\<^verbatim>\<open>core/security.py\<close>) and the bearer-token dependencies (\<^verbatim>\<open>api/deps.py\<close>).

  The password hash, SHA-256 and the JWT library are arguments (the record \<open>crypto\<close>); what the code
  relies on is stated by the locale \<open>jwt_signing\<close> and by hypotheses on \<open>sha\<close>. Generated tokens and ids
  are arguments too. Times are in seconds.
\<close>

section \<open>Cryptography and settings\<close>

record claims =
  cl_sub :: "str option"
  cl_type :: str
  cl_iat :: int
  cl_exp :: int

text \<open>\<open>pw_verify\<close> is \<open>None\<close> when the library raises; \<open>jwt_decode\<close> at a time is \<open>None\<close> on any JWT error.\<close>

record crypto =
  pw_hash :: "str \<Rightarrow> str"
  pw_verify :: "str \<Rightarrow> str \<Rightarrow> bool option"
  dummy_hash :: str
  sha :: "str \<Rightarrow> str"
  jwt_encode :: "claims \<Rightarrow> str"
  jwt_decode :: "int \<Rightarrow> str \<Rightarrow> claims option"

record auth_settings =
  access_token_expire_minutes :: int
  refresh_token_expire_days :: int
  ws_ticket_expire_seconds :: int
  reset_token_expire_minutes :: int

section \<open>Tokens\<close>

definition verify_password :: "crypto \<Rightarrow> str \<Rightarrow> str option \<Rightarrow> bool" where
  "verify_password cr plain hashed =
     (case pw_verify cr plain (if truthy hashed then or_empty hashed else dummy_hash cr) of
        Some b \<Rightarrow> b | None \<Rightarrow> False)"

definition create_access_token :: "crypto \<Rightarrow> auth_settings \<Rightarrow> int \<Rightarrow> str \<Rightarrow> int option \<Rightarrow> str" where
  "create_access_token cr st now sub expires_minutes =
     (let minutes = (case expires_minutes of Some m \<Rightarrow> m | None \<Rightarrow> access_token_expire_minutes st)
      in jwt_encode cr \<lparr>cl_sub = Some sub, cl_type = ''access'', cl_iat = now, cl_exp = now + minutes * 60\<rparr>)"

definition create_ws_ticket :: "crypto \<Rightarrow> auth_settings \<Rightarrow> int \<Rightarrow> str \<Rightarrow> str" where
  "create_ws_ticket cr st now sub =
     jwt_encode cr \<lparr>cl_sub = Some sub, cl_type = ''ws_ticket'', cl_iat = now,
       cl_exp = now + ws_ticket_expire_seconds st\<rparr>"

definition decode_token :: "crypto \<Rightarrow> int \<Rightarrow> str \<Rightarrow> str option \<Rightarrow> exn + claims" where
  "decode_token cr now token expected_type =
     (case jwt_decode cr now token of
        None \<Rightarrow> Inl (AuthError ''Invalid or expired token'')
      | Some p \<Rightarrow>
          (case expected_type of
             None \<Rightarrow> Inr p
           | Some ty \<Rightarrow> if cl_type p \<noteq> ty then Inl (AuthError ''Invalid token type'') else Inr p))"

definition get_current_user :: "crypto \<Rightarrow> int \<Rightarrow> str \<Rightarrow> db \<Rightarrow> exn + user" where
  "get_current_user cr now token d =
     (case decode_token cr now token (Some ''access'') of
        Inl e \<Rightarrow> Inl e
      | Inr p \<Rightarrow>
         (case cl_sub p of
            None \<Rightarrow> Inl (AuthError ''Invalid token subject'')
          | Some sub \<Rightarrow>
             (case List.find (\<lambda>u. u_id u = sub) (users d) of
                None \<Rightarrow> Inl (AuthError ''Invalid or inactive user'')
              | Some u \<Rightarrow>
                  if \<not> u_is_active u \<or> u_deleted_at u \<noteq> None
                  then Inl (AuthError ''Invalid or inactive user'') else Inr u)))"

definition require_superuser :: "user \<Rightarrow> exn + user" where
  "require_superuser u =
     (if \<not> u_is_superuser u then Inl (AuthorizationError ''Superuser privileges required'') else Inr u)"

section \<open>Sessions\<close>

text \<open>
  What a response does to the refresh cookie. A route that raises sends the error handler's response,
  without the cookie the route had set or cleared: only a returned value carries one.
\<close>

datatype cookie = KeepCookie | SetCookie str | ClearCookie

text \<open>The generated values of one request: a raw token, row and family ids, and the clock.\<close>

record nonce =
  n_raw :: str
  n_id :: str
  n_family :: str
  n_now :: int

definition issue_session ::
  "crypto \<Rightarrow> auth_settings \<Rightarrow> nonce \<Rightarrow> user \<Rightarrow> str option \<Rightarrow> (db, exn, str \<times> cookie) op" where
  "issue_session cr st n u family d =
     (let row = \<lparr>rt_id = n_id n, rt_user = u_id u, rt_hash = sha cr (n_raw n),
                 rt_family = (if truthy family then or_empty family else n_family n),
                 rt_used = False, rt_revoked = False,
                 rt_expires = n_now n + refresh_token_expire_days st * 86400\<rparr>
      in case commit (d\<lparr>refresh_tokens := refresh_tokens d @ [row]\<rparr>) d of
           (d', Inl e) \<Rightarrow> (d', Inl e)
         | (d', Inr _) \<Rightarrow> (d', Inr (create_access_token cr st (n_now n) (u_id u) None, SetCookie (n_raw n))))"

definition user_by_email :: "str \<Rightarrow> db \<Rightarrow> exn + user option" where
  "user_by_email email d = scalar_one_or_none (filter (\<lambda>u. u_email u = email) (users d))"

definition register :: "crypto \<Rightarrow> str \<Rightarrow> str \<Rightarrow> str \<Rightarrow> str option \<Rightarrow> (db, exn, user) op" where
  "register cr new_id email password full_name d =
     (case user_by_email email d of
        Inl e \<Rightarrow> (d, Inl e)
      | Inr (Some _) \<Rightarrow> (d, Inl (IntegrityError ''Email already registered''))
      | Inr None \<Rightarrow>
         (let u = \<lparr>u_id = new_id, u_email = email, u_hashed_password = Some (pw_hash cr password),
                   u_full_name = full_name, u_is_active = True, u_is_superuser = False, u_deleted_at = None\<rparr>
          in case commit (d\<lparr>users := users d @ [u]\<rparr>) d of
               (d', Inr _) \<Rightarrow> (d', Inr u)
             | (d', Inl _) \<Rightarrow> (d', Inl (IntegrityError ''Email already registered''))))"

definition login :: "crypto \<Rightarrow> auth_settings \<Rightarrow> nonce \<Rightarrow> str \<Rightarrow> str \<Rightarrow> (db, exn, str \<times> cookie) op" where
  "login cr st n email password d =
     (case user_by_email email d of
        Inl e \<Rightarrow> (d, Inl e)
      | Inr found \<Rightarrow>
         (let pw_ok = verify_password cr password (Option.bind found u_hashed_password)
          in case found of
               None \<Rightarrow> (d, Inl (AuthError ''Invalid credentials''))
             | Some u \<Rightarrow>
                 if \<not> pw_ok \<or> \<not> u_is_active u \<or> u_deleted_at u \<noteq> None
                 then (d, Inl (AuthError ''Invalid credentials''))
                 else issue_session cr st n u None d))"

text \<open>
  Refresh. The claim is one conditional UPDATE whose row count decides; on a lost claim the family is
  revoked and committed before the raise, on an inactive user the claim is rolled back by it.
\<close>

definition claimable :: "refresh_token \<Rightarrow> refresh_token \<Rightarrow> bool" where
  "claimable row t \<longleftrightarrow> rt_id t = rt_id row \<and> \<not> rt_used t \<and> \<not> rt_revoked t"

definition revoke_family :: "str \<Rightarrow> db \<Rightarrow> db" where
  "revoke_family f d =
     d\<lparr>refresh_tokens := update_where (\<lambda>t. rt_family t = f) (\<lambda>t. t\<lparr>rt_revoked := True\<rparr>) (refresh_tokens d)\<rparr>"

definition revoke_user :: "str \<Rightarrow> db \<Rightarrow> db" where
  "revoke_user u d =
     d\<lparr>refresh_tokens := update_where (\<lambda>t. rt_user t = u) (\<lambda>t. t\<lparr>rt_revoked := True\<rparr>) (refresh_tokens d)\<rparr>"

definition token_row :: "crypto \<Rightarrow> str \<Rightarrow> db \<Rightarrow> exn + refresh_token option" where
  "token_row cr raw d = scalar_one_or_none (filter (\<lambda>t. rt_hash t = sha cr raw) (refresh_tokens d))"

definition refresh :: "crypto \<Rightarrow> auth_settings \<Rightarrow> nonce \<Rightarrow> str option \<Rightarrow> (db, exn, str \<times> cookie) op" where
  "refresh cr st n cookie d =
     (if \<not> truthy cookie then (d, Inl (AuthError ''Missing refresh token''))
      else
       (case token_row cr (or_empty cookie) d of
          Inl e \<Rightarrow> (d, Inl e)
        | Inr None \<Rightarrow> (d, Inl (AuthError ''Invalid refresh token''))
        | Inr (Some row) \<Rightarrow>
            if rt_expires row < n_now n then (d, Inl (AuthError ''Refresh token expired''))
            else if length (filter (claimable row) (refresh_tokens d)) = 0 then
              (revoke_family (rt_family row) d, Inl (AuthError ''Refresh token reuse detected''))
            else
              (let d1 = d\<lparr>refresh_tokens := update_where (claimable row) (\<lambda>t. t\<lparr>rt_used := True\<rparr>) (refresh_tokens d)\<rparr>
               in case List.find (\<lambda>u. u_id u = rt_user row) (users d) of
                    None \<Rightarrow> (d, Inl (AuthError ''Invalid or inactive user''))
                  | Some u \<Rightarrow>
                      if \<not> u_is_active u \<or> u_deleted_at u \<noteq> None
                      then (d, Inl (AuthError ''Invalid or inactive user''))
                      else
                        (case issue_session cr st n u (Some (rt_family row)) d1 of
                           (d', Inr r) \<Rightarrow> (d', Inr r)
                         | (_, Inl e) \<Rightarrow> (d, Inl e)))))"

definition logout :: "crypto \<Rightarrow> str option \<Rightarrow> (db, exn, cookie) op" where
  "logout cr cookie d =
     (if truthy cookie then
        (case token_row cr (or_empty cookie) d of
           Inl e \<Rightarrow> (d, Inl e)
         | Inr None \<Rightarrow> (d, Inr ClearCookie)
         | Inr (Some row) \<Rightarrow> (revoke_family (rt_family row) d, Inr ClearCookie))
      else (d, Inr ClearCookie))"

definition delete_account :: "user \<Rightarrow> int \<Rightarrow> db \<Rightarrow> db \<times> cookie" where
  "delete_account u now d =
     (case List.find (\<lambda>x. u_id x = u_id u) (users d) of
        None \<Rightarrow> (d, ClearCookie)
      | Some x \<Rightarrow>
          if u_deleted_at x = None then
            (revoke_user (u_id u)
               (d\<lparr>users := update_where (\<lambda>y. u_id y = u_id u) (\<lambda>y. y\<lparr>u_deleted_at := Some now\<rparr>) (users d)\<rparr>),
             ClearCookie)
          else (d, ClearCookie))"

section \<open>Password reset\<close>

text \<open>
  \<open>send\<close> is the mailer, given the address and the raw token of the link: \<open>Some\<close> exception when the
  delivery fails. The mails that were sent are part of the result.
\<close>

type_synonym mailer = "str \<Rightarrow> str \<Rightarrow> exn option"

definition request_password_reset ::
  "crypto \<Rightarrow> auth_settings \<Rightarrow> mailer \<Rightarrow> nonce \<Rightarrow> str \<Rightarrow> (db, exn, (str \<times> str) list) op" where
  "request_password_reset cr st send n email d =
     (case scalar_one_or_none (filter (\<lambda>u. u_email u = email \<and> u_deleted_at u = None \<and> u_is_active u) (users d)) of
        Inl e \<Rightarrow> (d, Inl e)
      | Inr None \<Rightarrow> (d, Inr [])
      | Inr (Some u) \<Rightarrow>
         (case commit (d\<lparr>reset_tokens := reset_tokens d @
                 [\<lparr>pr_id = n_id n, pr_user = u_id u, pr_hash = sha cr (n_raw n),
                   pr_expires = n_now n + reset_token_expire_minutes st * 60, pr_used_at = None\<rparr>]\<rparr>) d of
            (d', Inl e) \<Rightarrow> (d', Inl e)
          | (d', Inr _) \<Rightarrow>
              (d', case send (u_email u) (n_raw n) of
                     Some e \<Rightarrow> Inl e | None \<Rightarrow> Inr [(u_email u, n_raw n)])))"

definition reset_password :: "crypto \<Rightarrow> int \<Rightarrow> str \<Rightarrow> str \<Rightarrow> (db, exn, unit) op" where
  "reset_password cr now token new_password d =
     (let bad = (d, Inl (AuthError ''Invalid or expired reset token''))
      in case scalar_one_or_none (filter (\<lambda>t. pr_hash t = sha cr token) (reset_tokens d)) of
           Inl e \<Rightarrow> (d, Inl e)
         | Inr None \<Rightarrow> bad
         | Inr (Some row) \<Rightarrow>
             if pr_used_at row \<noteq> None then bad
             else if pr_expires row < now then bad
             else
               (case List.find (\<lambda>u. u_id u = pr_user row) (users d) of
                  None \<Rightarrow> bad
                | Some u \<Rightarrow>
                    if u_deleted_at u \<noteq> None then bad
                    else
                      (revoke_user (u_id u)
                        (d\<lparr>users := update_where (\<lambda>x. u_id x = u_id u)
                              (\<lambda>x. x\<lparr>u_hashed_password := Some (pw_hash cr new_password)\<rparr>) (users d),
                           reset_tokens := update_where
                              (\<lambda>t. pr_id t = pr_id row \<or> (pr_user t = u_id u \<and> pr_used_at t = None))
                              (\<lambda>t. t\<lparr>pr_used_at := Some now\<rparr>) (reset_tokens d)\<rparr>),
                       Inr ())))"

text \<open>The route's body: the same answer whether the address is known or not.\<close>

definition forgot_password ::
  "crypto \<Rightarrow> auth_settings \<Rightarrow> mailer \<Rightarrow> nonce \<Rightarrow> str \<Rightarrow> (db, exn, str) op" where
  "forgot_password cr st send n email d =
     (case request_password_reset cr st send n email d of
        (d', Inl e) \<Rightarrow> (d', Inl e)
      | (d', Inr mails) \<Rightarrow>
          (d', Inr ''If that email is registered, a password-reset link is on its way.''))"

section \<open>Steps\<close>

text \<open>A generated value never repeats one that is stored.\<close>

definition fresh_nonce :: "crypto \<Rightarrow> nonce \<Rightarrow> db \<Rightarrow> bool" where
  "fresh_nonce cr n d \<longleftrightarrow> n_id n \<notin> rt_id ` set (refresh_tokens d) \<and> sha cr (n_raw n) \<notin> rt_hash ` set (refresh_tokens d)
     \<and> n_family n \<notin> rt_family ` set (refresh_tokens d) \<and> n_family n \<noteq> []
     \<and> n_id n \<notin> pr_id ` set (reset_tokens d) \<and> sha cr (n_raw n) \<notin> pr_hash ` set (reset_tokens d)"

inductive auth_step :: "crypto \<Rightarrow> auth_settings \<Rightarrow> db \<Rightarrow> db \<Rightarrow> bool" for cr st where
  registers: "register cr i email password full_name d = (d', r) \<Longrightarrow> auth_step cr st d d'"
| logs_in: "fresh_nonce cr n d \<Longrightarrow> login cr st n email password d = (d', r) \<Longrightarrow> auth_step cr st d d'"
| refreshes: "fresh_nonce cr n d \<Longrightarrow> refresh cr st n cookie d = (d', r) \<Longrightarrow> auth_step cr st d d'"
| logs_out: "logout cr cookie d = (d', r) \<Longrightarrow> auth_step cr st d d'"
| deletes: "delete_account u now d = (d', c) \<Longrightarrow> auth_step cr st d d'"
| forgets: "fresh_nonce cr n d \<Longrightarrow> forgot_password cr st send n email d = (d', r) \<Longrightarrow> auth_step cr st d d'"
| resets: "reset_password cr now token new_password d = (d', r) \<Longrightarrow> auth_step cr st d d'"

text \<open>What a step may do to the refresh tokens.\<close>

definition live :: "refresh_token \<Rightarrow> bool" where
  "live t \<longleftrightarrow> \<not> rt_used t \<and> \<not> rt_revoked t"

inductive tok_step :: "refresh_token list \<Rightarrow> refresh_token list \<Rightarrow> bool" where
  keep: "tok_step ts ts"
| revoke: "tok_step ts (update_where p (\<lambda>t. t\<lparr>rt_revoked := True\<rparr>) ts)"
| start: "\<lbrakk>rt_id t \<notin> rt_id ` set ts; rt_hash t \<notin> rt_hash ` set ts; rt_family t \<notin> rt_family ` set ts\<rbrakk> \<Longrightarrow>
    tok_step ts (ts @ [t])"
| rotate: "\<lbrakk>row \<in> set ts; live row; rt_id t \<notin> rt_id ` set ts; rt_hash t \<notin> rt_hash ` set ts;
    rt_family t = rt_family row\<rbrakk> \<Longrightarrow>
    tok_step ts (update_where (claimable row) (\<lambda>t. t\<lparr>rt_used := True\<rparr>) ts @ [t])"

lemma issue_session_tokens:
  "issue_session cr st n u f d = (d', r) \<Longrightarrow>
    (d' = d \<and> (\<exists>e. r = Inl e)) \<or>
    (d' = d\<lparr>refresh_tokens := refresh_tokens d @ [\<lparr>rt_id = n_id n, rt_user = u_id u, rt_hash = sha cr (n_raw n),
        rt_family = (if truthy f then or_empty f else n_family n), rt_used = False, rt_revoked = False,
        rt_expires = n_now n + refresh_token_expire_days st * 86400\<rparr>]\<rparr>
     \<and> db_ok d' \<and> r = Inr (create_access_token cr st (n_now n) (u_id u) None, SetCookie (n_raw n)))"
  by (auto simp: issue_session_def commit_def Let_def split: if_splits)

lemma token_row_member: "token_row cr raw d = Inr (Some row) \<Longrightarrow> row \<in> set (refresh_tokens d) \<and> rt_hash row = sha cr raw"
proof -
  assume "token_row cr raw d = Inr (Some row)"
  then have "row \<in> set (filter (\<lambda>t. rt_hash t = sha cr raw) (refresh_tokens d))"
    by (simp add: token_row_def scalar_one_Some)
  then show ?thesis by simp
qed

lemma claimable_live:
  assumes "distinct (map rt_id ts)" and "row \<in> set ts"
  shows "length (filter (claimable row) ts) \<noteq> 0 \<longleftrightarrow> live row"
proof -
  have "filter (claimable row) ts \<noteq> [] \<longleftrightarrow> (\<exists>t \<in> set ts. claimable row t)" by (auto simp: filter_empty_conv)
  also have "\<dots> \<longleftrightarrow> live row"
    using key_unique [OF assms(1) _ assms(2)] assms(2) by (auto simp: claimable_def live_def)
  finally show ?thesis by simp
qed

text \<open>The cases of a refresh.\<close>

lemma refresh_cases:
  assumes "distinct (map rt_id (refresh_tokens d))" and "refresh cr st n cookie d = (d', r)"
  obtains (refused) e where "d' = d" "r = Inl e"
  | (reused) row where "token_row cr (or_empty cookie) d = Inr (Some row)" "\<not> live row"
      "n_now n \<le> rt_expires row" "d' = revoke_family (rt_family row) d" "r = Inl (AuthError ''Refresh token reuse detected'')"
  | (rotated) row u where "truthy cookie" "token_row cr (or_empty cookie) d = Inr (Some row)" "live row"
      "u \<in> set (users d)" "u_id u = rt_user row" "u_is_active u" "u_deleted_at u = None"
      "issue_session cr st n u (Some (rt_family row))
         (d\<lparr>refresh_tokens := update_where (claimable row) (\<lambda>t. t\<lparr>rt_used := True\<rparr>) (refresh_tokens d)\<rparr>) = (d', r)"
      "\<exists>x. r = Inr x"
proof (cases "truthy cookie")
  case False
  with assms(2) show ?thesis by (intro refused) (auto simp: refresh_def)
next
  case True
  show ?thesis
  proof (cases "token_row cr (or_empty cookie) d")
    case (Inl e)
    with True assms(2) show ?thesis by (intro refused) (auto simp: refresh_def)
  next
    case (Inr found)
    show ?thesis
    proof (cases found)
      case None
      with True Inr assms(2) show ?thesis by (intro refused) (auto simp: refresh_def)
    next
      case (Some row)
      have row: "row \<in> set (refresh_tokens d)" using token_row_member Inr Some by blast
      note cl = claimable_live [OF assms(1) row]
      show ?thesis
      proof (cases "rt_expires row < n_now n")
        case expired: True
        with True Inr Some assms(2) show ?thesis by (intro refused) (auto simp: refresh_def)
      next
        case valid: False
        show ?thesis
        proof (cases "live row")
          case False
          with cl have "length (filter (claimable row) (refresh_tokens d)) = 0" by blast
          with True Inr Some valid False assms(2) show ?thesis
            by (intro reused [of row]) (auto simp: refresh_def)
        next
          case lv: True
          with cl have claim: "length (filter (claimable row) (refresh_tokens d)) \<noteq> 0" by blast
          show ?thesis
          proof (cases "List.find (\<lambda>u. u_id u = rt_user row) (users d)")
            case None
            with True Inr Some valid claim assms(2) show ?thesis
              by (intro refused) (auto simp: refresh_def Let_def)
          next
            case u: (Some u)
            then have um: "u \<in> set (users d)" "u_id u = rt_user row" by (auto simp: find_Some_iff)
            let ?d1 = "d\<lparr>refresh_tokens := update_where (claimable row) (\<lambda>t. t\<lparr>rt_used := True\<rparr>) (refresh_tokens d)\<rparr>"
            obtain x y where i: "issue_session cr st n u (Some (rt_family row)) ?d1 = (x, y)"
              by (cases "issue_session cr st n u (Some (rt_family row)) ?d1")
            show ?thesis
            proof (cases "u_is_active u \<and> u_deleted_at u = None \<and> (\<exists>v. y = Inr v)")
              case act: True
              with True Inr Some valid claim u i assms(2) have "d' = x" "r = y"
                by (auto simp: refresh_def Let_def)
              with act True Inr Some lv um i show ?thesis by (intro rotated [of row u]) auto
            next
              case False
              then have "d' = d \<and> (\<exists>e. r = Inl e)"
                using True Inr Some valid claim u i assms(2)
                by (cases y) (auto simp: refresh_def Let_def split: if_splits)
              then show ?thesis by (elim conjE exE) (rule refused)
            qed
          qed
        qed
      qed
    qed
  qed
qed

lemma revoke_tokens [simp]:
  "refresh_tokens (revoke_family f d) =
     update_where (\<lambda>t. rt_family t = f) (\<lambda>t. t\<lparr>rt_revoked := True\<rparr>) (refresh_tokens d)"
  "refresh_tokens (revoke_user u d) =
     update_where (\<lambda>t. rt_user t = u) (\<lambda>t. t\<lparr>rt_revoked := True\<rparr>) (refresh_tokens d)"
  "users (revoke_family f d) = users d" "users (revoke_user u d) = users d"
  "reset_tokens (revoke_family f d) = reset_tokens d" "reset_tokens (revoke_user u d) = reset_tokens d"
  by (simp_all add: revoke_family_def revoke_user_def)

lemma login_tokens:
  assumes "login cr st n email password d = (d', r)" and "fresh_nonce cr n d"
  shows "tok_step (refresh_tokens d) (refresh_tokens d')"
proof -
  have "d' = d \<or> (\<exists>u. issue_session cr st n u None d = (d', r))"
    using assms(1) by (auto simp: login_def Let_def split: sum.splits option.splits if_splits)
  then show ?thesis
  proof
    assume "\<exists>u. issue_session cr st n u None d = (d', r)"
    then obtain u where "issue_session cr st n u None d = (d', r)" by blast
    from issue_session_tokens [OF this] assms(2) show ?thesis
      by (auto simp: fresh_nonce_def intro!: tok_step.keep tok_step.start)
  qed (simp add: tok_step.keep)
qed

lemma refresh_tokens_step:
  assumes "refresh cr st n cookie d = (d', r)" and "fresh_nonce cr n d" and "distinct (map rt_id (refresh_tokens d))"
    and "[] \<notin> rt_family ` set (refresh_tokens d)"
  shows "tok_step (refresh_tokens d) (refresh_tokens d')"
  using assms(3,1)
proof (cases rule: refresh_cases)
  case (refused e)
  then show ?thesis by (simp add: tok_step.keep)
next
  case (reused row)
  then show ?thesis by (simp add: tok_step.revoke)
next
  case (rotated row u)
  have row: "row \<in> set (refresh_tokens d)" using token_row_member rotated(2) by blast
  then have f: "rt_family row \<noteq> []" using assms(4) by force
  let ?t = "\<lparr>rt_id = n_id n, rt_user = u_id u, rt_hash = sha cr (n_raw n), rt_family = rt_family row,
      rt_used = False, rt_revoked = False, rt_expires = n_now n + refresh_token_expire_days st * 86400\<rparr>"
  have "refresh_tokens d' = update_where (claimable row) (\<lambda>t. t\<lparr>rt_used := True\<rparr>) (refresh_tokens d) @ [?t]"
    using issue_session_tokens [OF rotated(8)] rotated(9) f by auto
  with row rotated(3) assms(2) show ?thesis
    by (simp only:) (rule tok_step.rotate, auto simp: fresh_nonce_def)
qed

lemma reset_password_cases:
  assumes "reset_password cr now token pw d = (d', r)"
  obtains (refused) e where "d' = d" "r = Inl e"
  | (redeemed) row u where "scalar_one_or_none (filter (\<lambda>t. pr_hash t = sha cr token) (reset_tokens d)) = Inr (Some row)"
      "pr_used_at row = None" "now \<le> pr_expires row" "u \<in> set (users d)" "u_id u = pr_user row" "u_deleted_at u = None"
      "d' = revoke_user (u_id u) (d\<lparr>users := update_where (\<lambda>x. u_id x = u_id u)
           (\<lambda>x. x\<lparr>u_hashed_password := Some (pw_hash cr pw)\<rparr>) (users d),
         reset_tokens := update_where (\<lambda>t. pr_id t = pr_id row \<or> (pr_user t = u_id u \<and> pr_used_at t = None))
           (\<lambda>t. t\<lparr>pr_used_at := Some now\<rparr>) (reset_tokens d)\<rparr>)" "r = Inr ()"
proof (cases "scalar_one_or_none (filter (\<lambda>t. pr_hash t = sha cr token) (reset_tokens d))")
  case (Inl e)
  with assms show ?thesis by (intro refused) (auto simp: reset_password_def)
next
  case (Inr found)
  show ?thesis
  proof (cases found)
    case None
    with Inr assms show ?thesis by (intro refused) (auto simp: reset_password_def)
  next
    case (Some row)
    show ?thesis
    proof (cases "List.find (\<lambda>u. u_id u = pr_user row) (users d)")
      case None
      with Inr Some assms have "d' = d \<and> r = Inl (AuthError ''Invalid or expired reset token'')"
        by (auto simp: reset_password_def Let_def split: if_splits)
      then show ?thesis by (elim conjE) (rule refused)
    next
      case u: (Some u)
      then have um: "u \<in> set (users d)" "u_id u = pr_user row" by (auto simp: find_Some_iff)
      show ?thesis
      proof (cases "pr_used_at row = None \<and> now \<le> pr_expires row \<and> u_deleted_at u = None")
        case True
        then have "pr_used_at row = None" "\<not> pr_expires row < now" "u_deleted_at u = None" by auto
        with Inr Some u have "reset_password cr now token pw d = (revoke_user (u_id u)
            (d\<lparr>users := update_where (\<lambda>x. u_id x = u_id u) (\<lambda>x. x\<lparr>u_hashed_password := Some (pw_hash cr pw)\<rparr>) (users d),
               reset_tokens := update_where (\<lambda>t. pr_id t = pr_id row \<or> (pr_user t = u_id u \<and> pr_used_at t = None))
                 (\<lambda>t. t\<lparr>pr_used_at := Some now\<rparr>) (reset_tokens d)\<rparr>), Inr ())"
          by (simp add: reset_password_def Let_def)
        with assms True Inr Some um show ?thesis by (intro redeemed [of row u]) simp_all
      next
        case False
        with Inr Some u assms have "d' = d \<and> r = Inl (AuthError ''Invalid or expired reset token'')"
          by (auto simp: reset_password_def Let_def split: if_splits)
        then show ?thesis by (elim conjE) (rule refused)
      qed
    qed
  qed
qed

lemma forgot_cases:
  assumes "forgot_password cr st send n email d = (d', r)"
  shows "d' = d \<or> (\<exists>t. d' = d\<lparr>reset_tokens := reset_tokens d @ [t]\<rparr> \<and> pr_id t = n_id n \<and> pr_hash t = sha cr (n_raw n))"
  using assms by (auto simp: forgot_password_def request_password_reset_def commit_def
      split: sum.splits option.splits if_splits prod.splits)

lemma register_cases:
  assumes "register cr i email pw name d = (d', r)"
  shows "d' = d \<or> (\<exists>u. d' = d\<lparr>users := users d @ [u]\<rparr> \<and> u_id u = i \<and> db_ok d' \<and> r = Inr u)"
  using assms by (auto simp: register_def commit_def Let_def split: sum.splits option.splits if_splits)

text \<open>The invariant of the refresh tokens: at most one live token a family.\<close>

definition tok_inv :: "refresh_token list \<Rightarrow> bool" where
  "tok_inv ts \<longleftrightarrow> distinct (map rt_id ts) \<and> distinct (map rt_hash ts) \<and> distinct (map rt_family (filter live ts))
     \<and> [] \<notin> rt_family ` set ts"

lemma tok_inv_revoke:
  assumes "tok_inv ts"
  shows "tok_inv (update_where p (\<lambda>t. t\<lparr>rt_revoked := True\<rparr>) ts)"
proof -
  have "map g (update_where p (\<lambda>t. t\<lparr>rt_revoked := True\<rparr>) ts) = map g ts"
    if "\<And>t. g (t\<lparr>rt_revoked := True\<rparr>) = g t" for g :: "refresh_token \<Rightarrow> str"
    using that by (intro map_update_where) simp
  from this [of rt_id] this [of rt_hash] this [of rt_family] assms
  show ?thesis unfolding tok_inv_def set_map [symmetric]
    by (auto intro!: distinct_filter_update simp: live_def)
qed

lemma tok_inv_rotate:
  assumes "tok_inv ts" and "row \<in> set ts" and "live row" and "rt_id t \<notin> rt_id ` set ts"
    and "rt_hash t \<notin> rt_hash ` set ts" and "rt_family t = rt_family row"
  shows "tok_inv (update_where (claimable row) (\<lambda>t. t\<lparr>rt_used := True\<rparr>) ts @ [t])"
proof -
  let ?ts = "update_where (claimable row) (\<lambda>t. t\<lparr>rt_used := True\<rparr>) ts"
  have same: "map g ?ts = map g ts" if "\<And>t. g (t\<lparr>rt_used := True\<rparr>) = g t" for g :: "refresh_token \<Rightarrow> str"
    using that by (intro map_update_where) simp
  have fams: "distinct (map rt_family (filter live ts))" using assms(1) by (simp add: tok_inv_def)
  have "distinct (map rt_family (filter live ?ts))"
    by (rule distinct_filter_update [OF fams]) (simp add: live_def)
  moreover have "rt_family x \<noteq> rt_family row" if "x \<in> set ?ts" "live x" for x
  proof
    assume f: "rt_family x = rt_family row"
    from that obtain y where y: "y \<in> set ts" "x = (if claimable row y then y\<lparr>rt_used := True\<rparr> else y)"
      by (auto simp: in_set_update_where)
    then have "\<not> claimable row y" "x = y" using that(2) by (auto simp: live_def split: if_splits)
    moreover have "y = row"
      using key_unique [OF fams, of y row] y(1) \<open>x = y\<close> that(2) assms(2,3) f by simp
    ultimately show False using assms(3) by (simp add: claimable_def live_def)
  qed
  then have "rt_family row \<notin> rt_family ` set (filter live ?ts)" by force
  ultimately have "distinct (map rt_family (filter live (?ts @ [t])))" using assms(6) by simp
  moreover have "rt_family row \<noteq> []" using assms(1,2) by (force simp: tok_inv_def)
  ultimately show ?thesis
    using assms(1,4,5,6) same [of rt_id] same [of rt_hash] same [of rt_family]
    unfolding tok_inv_def set_map [symmetric] by (auto simp: same)
qed

lemma tok_step_inv: "tok_step ts ts' \<Longrightarrow> tok_inv ts \<Longrightarrow> [] \<notin> rt_family ` set ts' \<Longrightarrow> tok_inv ts'"
proof (induction rule: tok_step.induct)
  case (start t ts)
  then show ?case by (auto simp: tok_inv_def)
next
  case (rotate row ts t)
  then show ?case by (intro tok_inv_rotate)
qed (auto intro: tok_inv_revoke)

definition sess_inv :: "db \<Rightarrow> bool" where
  "sess_inv d \<longleftrightarrow> db_ok d \<and> tok_inv (refresh_tokens d) \<and> distinct (map pr_hash (reset_tokens d))"

lemma db_ok_tokens:
  assumes "db_ok d"
  shows "db_ok (d\<lparr>refresh_tokens := ts\<rparr>) \<longleftrightarrow> distinct (map rt_id ts)"
    and "db_ok (d\<lparr>users := us, refresh_tokens := ts\<rparr>) \<longleftrightarrow> distinct (map u_id us) \<and> distinct (map u_email us) \<and> distinct (map rt_id ts)"
    and "db_ok (d\<lparr>users := us, refresh_tokens := ts, reset_tokens := ps\<rparr>) \<longleftrightarrow>
      distinct (map u_id us) \<and> distinct (map u_email us) \<and> distinct (map rt_id ts) \<and> distinct (map pr_id ps)"
  using assms by (auto simp: db_ok_def pk_ok_def uq_user_email_def uq_shared_def)

lemma revoke_ids [simp]:
  "map rt_id (update_where p (\<lambda>t. t\<lparr>rt_revoked := True\<rparr>) ts) = map rt_id ts"
  by (rule map_update_where) simp

lemma db_ok_dist:
  "db_ok d \<Longrightarrow> distinct (map rt_id (refresh_tokens d))" "db_ok d \<Longrightarrow> distinct (map u_id (users d))"
  "db_ok d \<Longrightarrow> distinct (map u_email (users d))" "db_ok d \<Longrightarrow> distinct (map pr_id (reset_tokens d))"
  by (auto simp: db_ok_def pk_ok_def uq_user_email_def)

lemma revoke_db_ok [simp]: "db_ok d \<Longrightarrow> db_ok (revoke_family f d)" "db_ok d \<Longrightarrow> db_ok (revoke_user u d)"
  unfolding revoke_family_def revoke_user_def by (simp_all add: db_ok_tokens(1) db_ok_dist(1))

lemma user_update_ids:
  "map u_id (update_where p (\<lambda>x. x\<lparr>u_deleted_at := v\<rparr>) us) = map u_id us"
  "map u_email (update_where p (\<lambda>x. x\<lparr>u_deleted_at := v\<rparr>) us) = map u_email us"
  "map u_id (update_where p (\<lambda>x. x\<lparr>u_hashed_password := h\<rparr>) us) = map u_id us"
  "map u_email (update_where p (\<lambda>x. x\<lparr>u_hashed_password := h\<rparr>) us) = map u_email us"
  by (rule map_update_where; simp)+

lemma consume_ids [simp]:
  "map pr_id (update_where p (\<lambda>t. t\<lparr>pr_used_at := v\<rparr>) ts) = map pr_id ts"
  "map pr_hash (update_where p (\<lambda>t. t\<lparr>pr_used_at := v\<rparr>) ts) = map pr_hash ts"
  by (rule map_update_where; simp)+

lemma delete_account_cases:
  assumes "delete_account u now d = (d', c)"
  shows "d' = d \<or> d' = revoke_user (u_id u)
    (d\<lparr>users := update_where (\<lambda>y. u_id y = u_id u) (\<lambda>y. y\<lparr>u_deleted_at := Some now\<rparr>) (users d)\<rparr>)"
  using assms by (auto simp: delete_account_def split: option.splits if_splits)

lemma db_ok_users:
  assumes "db_ok d"
  shows "db_ok (d\<lparr>users := us\<rparr>) \<longleftrightarrow> distinct (map u_id us) \<and> distinct (map u_email us)"
    and "db_ok (d\<lparr>users := us, reset_tokens := ps\<rparr>) \<longleftrightarrow>
      distinct (map u_id us) \<and> distinct (map u_email us) \<and> distinct (map pr_id ps)"
    and "db_ok (d\<lparr>reset_tokens := ps\<rparr>) \<longleftrightarrow> distinct (map pr_id ps)"
  using assms by (auto simp: db_ok_def pk_ok_def uq_user_email_def uq_shared_def)

lemma auth_step_db_ok:
  assumes "auth_step cr st d d'" and "sess_inv d"
  shows "db_ok d'"
proof -
  have ok: "db_ok d" and ti: "tok_inv (refresh_tokens d)" using assms(2) by (simp_all add: sess_inv_def)
  show ?thesis using assms(1)
  proof cases
    case (registers i email password full_name r)
    with register_cases [OF this] ok show ?thesis by auto
  next
    case (logs_in n email password r)
    have "d' = d \<or> (\<exists>u. issue_session cr st n u None d = (d', r))"
      using logs_in(2) by (auto simp: login_def Let_def split: sum.splits option.splits if_splits)
    with ok issue_session_tokens show ?thesis by blast
  next
    case (refreshes n cookie r)
    show ?thesis using db_ok_dist(1) [OF ok] refreshes(2)
    proof (cases rule: refresh_cases)
      case (rotated row u)
      with issue_session_tokens [OF rotated(8)] show ?thesis by auto
    qed (use ok in auto)
  next
    case (logs_out cookie r)
    then show ?thesis using ok by (auto simp: logout_def split: if_splits sum.splits option.splits)
  next
    case (deletes u now c)
    with delete_account_cases [OF this] ok show ?thesis
      by (auto simp: db_ok_users db_ok_dist user_update_ids)
  next
    case (forgets n send email r)
    have "pr_id t = n_id n \<Longrightarrow> db_ok (d\<lparr>reset_tokens := reset_tokens d @ [t]\<rparr>)" for t
      using forgets(1) ok by (simp add: db_ok_users(3) db_ok_dist fresh_nonce_def)
    with forgot_cases [OF forgets(2)] ok show ?thesis by auto
  next
    case (resets now token pw r)
    then show ?thesis
    proof (cases rule: reset_password_cases)
      case (redeemed row u)
      then show ?thesis using ok by (simp add: db_ok_users db_ok_dist user_update_ids)
    qed (use ok in simp)
  qed
qed

lemma auth_step_tokens:
  assumes "auth_step cr st d d'" and "sess_inv d"
  shows "tok_step (refresh_tokens d) (refresh_tokens d')"
  using assms(1)
proof cases
  case (registers i email password full_name r)
  with register_cases [OF this] show ?thesis by (auto intro: tok_step.keep)
next
  case (logs_in n email password r)
  then show ?thesis using login_tokens by blast
next
  case (refreshes n cookie r)
  then show ?thesis using refresh_tokens_step assms(2) by (auto simp: sess_inv_def tok_inv_def)
next
  case (logs_out cookie r)
  then show ?thesis by (auto simp: logout_def split: if_splits sum.splits option.splits intro: tok_step.keep tok_step.revoke)
next
  case (deletes u now c)
  with delete_account_cases [OF this] show ?thesis by (auto intro: tok_step.keep tok_step.revoke)
next
  case (forgets n send email r)
  with forgot_cases [OF forgets(2)] show ?thesis by (auto intro: tok_step.keep)
next
  case (resets now token pw r)
  then show ?thesis
    by (cases rule: reset_password_cases) (simp_all add: tok_step.keep tok_step.revoke)
qed

text \<open>What a step may do to the reset tokens.\<close>

lemma auth_step_resets:
  assumes "auth_step cr st d d'" and "sess_inv d"
  shows "reset_tokens d' = reset_tokens d
    \<or> (\<exists>p v. reset_tokens d' = update_where p (\<lambda>t. t\<lparr>pr_used_at := Some v\<rparr>) (reset_tokens d))
    \<or> (\<exists>t. reset_tokens d' = reset_tokens d @ [t] \<and> pr_hash t \<notin> pr_hash ` set (reset_tokens d))"
  using assms(1)
proof cases
  case (registers i email password full_name r)
  with register_cases [OF this] show ?thesis by auto
next
  case (logs_in n email password r)
  have "d' = d \<or> (\<exists>u. issue_session cr st n u None d = (d', r))"
    using logs_in(2) by (auto simp: login_def Let_def split: sum.splits option.splits if_splits)
  then have "reset_tokens d' = reset_tokens d" by (auto dest: issue_session_tokens)
  then show ?thesis by blast
next
  case (refreshes n cookie r)
  have "distinct (map rt_id (refresh_tokens d))" using assms(2) by (simp add: sess_inv_def tok_inv_def)
  from this refreshes(2) have "reset_tokens d' = reset_tokens d"
    by (cases rule: refresh_cases) (auto dest: issue_session_tokens)
  then show ?thesis by blast
next
  case (logs_out cookie r)
  then show ?thesis by (auto simp: logout_def split: if_splits sum.splits option.splits)
next
  case (deletes u now c)
  with delete_account_cases [OF this] show ?thesis by auto
next
  case (forgets n send email r)
  with forgot_cases [OF forgets(2)] show ?thesis by (auto simp: fresh_nonce_def)
next
  case (resets now token pw r)
  then show ?thesis by (cases rule: reset_password_cases) auto
qed

text \<open>Families are never empty: a new session's family is generated, a rotated one is inherited.\<close>

lemma auth_step_families:
  assumes "auth_step cr st d d'" and "sess_inv d"
  shows "[] \<notin> rt_family ` set (refresh_tokens d')"
proof -
  have ne: "[] \<notin> rt_family ` set (refresh_tokens d)" using assms(2) by (simp add: sess_inv_def tok_inv_def)
  have rev: "[] \<notin> rt_family ` set (update_where p (\<lambda>t. t\<lparr>rt_revoked := True\<rparr>) (refresh_tokens d))" for p
    using ne by (subst image_set_update) simp_all
  have use: "rt_family ` set (update_where p (\<lambda>t. t\<lparr>rt_used := True\<rparr>) ts) = rt_family ` set ts" for p ts
    by (rule image_set_update) simp
  show ?thesis using assms(1)
  proof cases
    case (registers i email password full_name r)
    with register_cases [OF this] ne show ?thesis by auto
  next
    case (logs_in n email password r)
    have "d' = d \<or> (\<exists>u. issue_session cr st n u None d = (d', r))"
      using logs_in(2) by (auto simp: login_def Let_def split: sum.splits option.splits if_splits)
    with ne logs_in(1) show ?thesis by (auto dest!: issue_session_tokens simp: fresh_nonce_def)
  next
    case (refreshes n cookie r)
    have "distinct (map rt_id (refresh_tokens d))" using assms(2) by (simp add: sess_inv_def tok_inv_def)
    from this refreshes(2) show ?thesis
    proof (cases rule: refresh_cases)
      case (rotated row u)
      then have "rt_family row \<noteq> []" using ne token_row_member [OF rotated(2)] by force
      moreover have "[] \<notin> rt_family ` set (update_where (claimable row) (\<lambda>t. t\<lparr>rt_used := True\<rparr>) (refresh_tokens d))"
        unfolding use by (rule ne)
      ultimately show ?thesis using issue_session_tokens [OF rotated(8)] rotated(9) by fastforce
    next
      case (reused row)
      then show ?thesis by (simp only: revoke_tokens rev not_False_eq_True)
    qed (use ne in simp)
  next
    case (logs_out cookie r)
    then have "d' = d \<or> (\<exists>f. d' = revoke_family f d)"
      by (auto simp: logout_def split: if_splits sum.splits option.splits)
    with ne rev show ?thesis by (metis revoke_tokens(1))
  next
    case (deletes u now c)
    with delete_account_cases [OF this] ne rev show ?thesis by (metis revoke_tokens(2) db.select_convs(5) db.update_convs(1) db.surjective)
  next
    case (forgets n send email r)
    with forgot_cases [OF forgets(2)] ne show ?thesis by auto
  next
    case (resets now token pw r)
    then show ?thesis by (cases rule: reset_password_cases) (simp_all add: ne rev)
  qed
qed

lemma auth_step_inv:
  assumes "auth_step cr st d d'" and "sess_inv d"
  shows "sess_inv d'"
proof -
  have "tok_inv (refresh_tokens d')"
    using tok_step_inv [OF auth_step_tokens [OF assms]] auth_step_families [OF assms] assms(2)
    by (simp add: sess_inv_def)
  moreover have "distinct (map pr_hash (reset_tokens d'))"
    using auth_step_resets [OF assms] assms(2) by (auto simp: sess_inv_def)
  ultimately show ?thesis using auth_step_db_ok [OF assms] by (simp add: sess_inv_def)
qed

interpretation auth: step_invariant "auth_step cr st" sess_inv for cr st
  by unfold_locales (rule auth_step_inv)

section \<open>Single use and reuse detection\<close>

text \<open>Tokens that are used or revoked stay so, and keep their identity, through every step.\<close>

definition keeps_token :: "refresh_token \<Rightarrow> refresh_token \<Rightarrow> bool" where
  "keeps_token t t' \<longleftrightarrow> rt_id t' = rt_id t \<and> rt_hash t' = rt_hash t \<and> rt_family t' = rt_family t
     \<and> rt_user t' = rt_user t \<and> rt_expires t' = rt_expires t
     \<and> (rt_used t \<longrightarrow> rt_used t') \<and> (rt_revoked t \<longrightarrow> rt_revoked t')"

lemma keeps_token_refl [simp]: "keeps_token t t" by (simp add: keeps_token_def)

lemma keeps_token_trans: "keeps_token a b \<Longrightarrow> keeps_token b c \<Longrightarrow> keeps_token a c"
  by (simp add: keeps_token_def)

lemma update_keeps:
  assumes "t \<in> set ts" and "\<And>t. keeps_token t (f t)"
  shows "\<exists>t' \<in> set (update_where p f ts). keeps_token t t'"
proof (rule bexI [of _ "if p t then f t else t"])
  show "(if p t then f t else t) \<in> set (update_where p f ts)" using assms(1) by (auto simp: in_set_update_where)
qed (use assms(2) in simp)

lemma tok_step_keeps: "tok_step ts ts' \<Longrightarrow> t \<in> set ts \<Longrightarrow> \<exists>t' \<in> set ts'. keeps_token t t'"
proof (induction rule: tok_step.induct)
  case (revoke ts p)
  then show ?case by (rule update_keeps) (simp add: keeps_token_def)
next
  case (rotate row ts new)
  have "\<exists>t' \<in> set (update_where (claimable row) (\<lambda>t. t\<lparr>rt_used := True\<rparr>) ts). keeps_token t t'"
    using rotate.prems by (rule update_keeps) (simp add: keeps_token_def)
  then show ?case by auto
qed (auto intro: bexI [of _ t])

lemma auth_steps_keep:
  assumes "(auth_step cr st)\<^sup>*\<^sup>* d d'" and "sess_inv d" and "t \<in> set (refresh_tokens d)"
  shows "\<exists>t' \<in> set (refresh_tokens d'). keeps_token t t'"
  using auth.steps_track [OF assms(1,2), where P = "\<lambda>d t. t \<in> set (refresh_tokens d)" and R = keeps_token, OF assms(3)]
    tok_step_keeps [OF auth_step_tokens] keeps_token_trans
  by (metis keeps_token_refl)

text \<open>A family whose tokens are all revoked stays so: no step mints a token in it.\<close>

definition dead_family :: "str \<Rightarrow> refresh_token list \<Rightarrow> bool" where
  "dead_family f ts \<longleftrightarrow> f \<in> rt_family ` set ts \<and> (\<forall>t \<in> set ts. rt_family t = f \<longrightarrow> rt_revoked t)"

lemma tok_step_dead: "tok_step ts ts' \<Longrightarrow> dead_family f ts \<Longrightarrow> dead_family f ts'"
proof (induction rule: tok_step.induct)
  case (revoke ts p)
  have "rt_family ` set (update_where p (\<lambda>t. t\<lparr>rt_revoked := True\<rparr>) ts) = rt_family ` set ts"
    by (rule image_set_update) simp
  with revoke show ?case by (auto simp: dead_family_def in_set_update_where simp del: imageE)
next
  case (rotate row ts t)
  have "rt_family ` set (update_where (claimable row) (\<lambda>t. t\<lparr>rt_used := True\<rparr>) ts) = rt_family ` set ts"
    by (rule image_set_update) simp
  moreover have "rt_family row \<noteq> f" using rotate by (auto simp: dead_family_def live_def)
  ultimately show ?case using rotate by (auto simp: dead_family_def in_set_update_where split: if_splits)
qed (auto simp: dead_family_def)

lemma auth_steps_dead:
  assumes "(auth_step cr st)\<^sup>*\<^sup>* d d'" and "sess_inv d" and "dead_family f (refresh_tokens d)"
  shows "dead_family f (refresh_tokens d')"
  by (rule auth.steps_stable [OF assms(1,2), where Q = "\<lambda>d. dead_family f (refresh_tokens d)", OF assms(3)])
    (rule tok_step_dead [OF auth_step_tokens])

lemma token_row_present:
  assumes "sess_inv d" and "t \<in> set (refresh_tokens d)" and "rt_hash t = sha cr raw"
  shows "token_row cr raw d = Inr (Some t)"
proof -
  have "distinct (map rt_hash (refresh_tokens d))" using assms(1) by (simp add: sess_inv_def tok_inv_def)
  from filter_key_present [OF this assms(2)] assms(3) show ?thesis by (simp add: token_row_def)
qed

text \<open>Presenting a token that is not live.\<close>

lemma refresh_not_live:
  assumes "sess_inv d" and "t \<in> set (refresh_tokens d)" and "rt_hash t = sha cr raw" and "raw \<noteq> []" and "\<not> live t"
  shows "refresh cr st n (Some raw) d =
    (if rt_expires t < n_now n then (d, Inl (AuthError ''Refresh token expired''))
     else (revoke_family (rt_family t) d, Inl (AuthError ''Refresh token reuse detected'')))"
proof -
  have "distinct (map rt_id (refresh_tokens d))" using assms(1) by (simp add: sess_inv_def tok_inv_def)
  with claimable_live [OF this assms(2)] assms(5) have "filter (claimable t) (refresh_tokens d) = []" by simp
  with token_row_present [OF assms(1-3)] assms(4) show ?thesis by (simp add: refresh_def)
qed

lemma refresh_success:
  assumes "sess_inv d" and "refresh cr st n (Some raw) d = (d', Inr x)"
  obtains row where "row \<in> set (refresh_tokens d)" "rt_hash row = sha cr raw" "live row"
    "row\<lparr>rt_used := True\<rparr> \<in> set (refresh_tokens d')" "sess_inv d \<Longrightarrow> raw \<noteq> []"
proof -
  have "distinct (map rt_id (refresh_tokens d))" using assms(1) by (simp add: sess_inv_def tok_inv_def)
  from this assms(2) show ?thesis
  proof (cases rule: refresh_cases)
    case (rotated row u)
    have row: "row \<in> set (refresh_tokens d)" "rt_hash row = sha cr raw"
      using token_row_member rotated(2) by auto
    have "claimable row row" using rotated(3) by (simp add: claimable_def live_def)
    then have "row\<lparr>rt_used := True\<rparr> \<in> set (update_where (claimable row) (\<lambda>t. t\<lparr>rt_used := True\<rparr>) (refresh_tokens d))"
      using row(1) by (auto simp: in_set_update_where intro!: bexI [of _ row])
    with issue_session_tokens [OF rotated(8)] rotated(1,3,9) row show ?thesis by (intro that [of row]) auto
  qed auto
qed

text \<open>
  C9: a refresh token works once. After a successful refresh, and whatever requests follow, presenting
  the same token again fails, and revokes every token of its family (unless it has expired, when
  it is only refused).
\<close>

theorem refresh_single_use:
  assumes "sess_inv d" and "fresh_nonce cr n d" and "refresh cr st n (Some raw) d = (d1, Inr x)"
    and "(auth_step cr st)\<^sup>*\<^sup>* d1 d2"
  shows "\<exists>t \<in> set (refresh_tokens d2). rt_hash t = sha cr raw \<and>
    refresh cr st n2 (Some raw) d2 =
      (if rt_expires t < n_now n2 then (d2, Inl (AuthError ''Refresh token expired''))
       else (revoke_family (rt_family t) d2, Inl (AuthError ''Refresh token reuse detected'')))"
proof -
  obtain row where row: "rt_hash row = sha cr raw" "row\<lparr>rt_used := True\<rparr> \<in> set (refresh_tokens d1)" "raw \<noteq> []"
    using refresh_success [OF assms(1,3)] assms(1) by metis
  have inv1: "sess_inv d1" using auth_step_inv [OF auth_step.refreshes [OF assms(2,3)] assms(1)] .
  from auth_steps_keep [OF assms(4) inv1 row(2)]
  obtain t where t: "t \<in> set (refresh_tokens d2)" "keeps_token (row\<lparr>rt_used := True\<rparr>) t" by blast
  then have "\<not> live t" "rt_hash t = sha cr raw" using row(1) by (auto simp: keeps_token_def live_def)
  with t refresh_not_live [OF auth.steps_inv [OF assms(4) inv1] t(1) _ row(3)] show ?thesis by blast
qed

text \<open>
  C10: reuse detection is final. Once a replayed token has been detected, no token of its family is ever
  accepted again, however many requests follow, the newest one included.
\<close>

theorem reuse_kills_family:
  assumes "sess_inv d" and "row \<in> set (refresh_tokens d)"
    and "refresh cr st n (Some raw) d = (d1, Inl (AuthError ''Refresh token reuse detected''))"
    and "rt_hash row = sha cr raw" and "fresh_nonce cr n d"
    and "(auth_step cr st)\<^sup>*\<^sup>* d1 d2"
    and "t \<in> set (refresh_tokens d2)" and "rt_family t = rt_family row" and "rt_hash t = sha cr raw2"
  shows "\<exists>e. snd (refresh cr st n2 (Some raw2) d2) = Inl e"
proof -
  have ids: "distinct (map rt_id (refresh_tokens d))" using assms(1) by (simp add: sess_inv_def tok_inv_def)
  have d1: "d1 = revoke_family (rt_family row) d"
    using ids assms(3)
  proof (cases rule: refresh_cases)
    case (refused e)
    then show ?thesis using assms(3) token_row_present [OF assms(1,2,4)]
      by (auto simp: refresh_def Let_def issue_session_def commit_def split: if_splits option.splits)
  next
    case (reused row')
    then show ?thesis using token_row_present [OF assms(1,2,4)] by simp
  qed auto
  have "dead_family (rt_family row) (refresh_tokens d1)"
    using assms(2) unfolding d1 dead_family_def
    by (auto simp: in_set_update_where image_set_update)
  have inv1: "sess_inv d1" using auth_step_inv [OF auth_step.refreshes [OF assms(5,3)] assms(1)] .
  from auth_steps_dead [OF assms(6) inv1 \<open>dead_family (rt_family row) (refresh_tokens d1)\<close>] assms(7,8)
  have "\<not> live t" by (auto simp: dead_family_def live_def)
  with refresh_not_live [OF auth.steps_inv [OF assms(6) inv1] assms(7,9)] show ?thesis
    by (cases "raw2 = []") (auto simp: refresh_def)
qed

text \<open>
  C11: at most one live refresh token a session. In every database reached from one without sessions, no
  two tokens of a family are both unused and unrevoked, and no two tokens have the same hash.
\<close>

theorem one_live_token:
  assumes "(auth_step cr st)\<^sup>*\<^sup>* d0 d" and "db_ok d0" and "refresh_tokens d0 = []" and "reset_tokens d0 = []"
  shows "distinct (map rt_family (filter (\<lambda>t. \<not> rt_used t \<and> \<not> rt_revoked t) (refresh_tokens d)))
    \<and> distinct (map rt_hash (refresh_tokens d))"
proof -
  have "sess_inv d0" using assms(2-4) by (simp add: sess_inv_def tok_inv_def)
  from auth.steps_inv [OF assms(1) this] have "tok_inv (refresh_tokens d)" by (simp add: sess_inv_def)
  moreover have "live = (\<lambda>t. \<not> rt_used t \<and> \<not> rt_revoked t)" by (simp add: fun_eq_iff live_def)
  ultimately show ?thesis by (simp add: tok_inv_def)
qed

section \<open>A concrete session\<close>

text \<open>
  Sample cryptography for the instances: a reversible encoding of the claims, checked as the JWT
  library does (genuine and not expired).
\<close>

definition claims_code :: "claims \<Rightarrow> nat" where
  "claims_code c = to_nat (cl_sub c, cl_type c, cl_iat c, cl_exp c)"

definition sample_encode :: "claims \<Rightarrow> str" where
  "sample_encode c = replicate (claims_code c) CHR ''x''"

definition sample_decode :: "int \<Rightarrow> str \<Rightarrow> claims option" where
  "sample_decode now t =
     (case from_nat (length t) of (s, ty, i, e) \<Rightarrow>
        let c = \<lparr>cl_sub = s, cl_type = ty, cl_iat = i, cl_exp = e\<rparr>
        in if t = sample_encode c \<and> now < e then Some c else None)"

definition sample_crypto :: crypto where
  "sample_crypto = \<lparr>pw_hash = (\<lambda>p. CHR ''h'' # p), pw_verify = (\<lambda>p h. Some (h = CHR ''h'' # p)),
     dummy_hash = ''-'', sha = (\<lambda>r. CHR ''#'' # r), jwt_encode = sample_encode, jwt_decode = sample_decode\<rparr>"

definition sample_auth :: auth_settings where
  "sample_auth = \<lparr>access_token_expire_minutes = 15, refresh_token_expire_days = 30,
     ws_ticket_expire_seconds = 60, reset_token_expire_minutes = 30\<rparr>"

definition sample_user :: user where
  "sample_user = \<lparr>u_id = ''u1'', u_email = ''a@b.c'', u_hashed_password = Some ''hsecret'',
     u_full_name = None, u_is_active = True, u_is_superuser = False, u_deleted_at = None\<rparr>"

definition user_db :: db where "user_db = empty_db\<lparr>users := [sample_user]\<rparr>"

definition nonce_1 :: nonce where "nonce_1 = \<lparr>n_raw = ''r1'', n_id = ''t1'', n_family = ''f1'', n_now = 0\<rparr>"
definition nonce_2 :: nonce where "nonce_2 = \<lparr>n_raw = ''r2'', n_id = ''t2'', n_family = ''f2'', n_now = 10\<rparr>"
definition nonce_3 :: nonce where "nonce_3 = \<lparr>n_raw = ''r3'', n_id = ''t3'', n_family = ''f3'', n_now = 20\<rparr>"

definition login_db :: db where
  "login_db = fst (login sample_crypto sample_auth nonce_1 ''a@b.c'' ''secret'' user_db)"

definition rotated_db :: db where
  "rotated_db = fst (refresh sample_crypto sample_auth nonce_2 (Some ''r1'') login_db)"

definition tok1 :: refresh_token where
  "tok1 = \<lparr>rt_id = ''t1'', rt_user = ''u1'', rt_hash = ''#r1'', rt_family = ''f1'', rt_used = False,
     rt_revoked = False, rt_expires = 2592000\<rparr>"

definition tok2 :: refresh_token where
  "tok2 = \<lparr>rt_id = ''t2'', rt_user = ''u1'', rt_hash = ''#r2'', rt_family = ''f1'', rt_used = False,
     rt_revoked = False, rt_expires = 2592010\<rparr>"

lemmas auth_samples = sample_crypto_def sample_auth_def sample_user_def nonce_1_def nonce_2_def nonce_3_def
  tok1_def tok2_def

lemma user_db_ok: "db_ok user_db"
  by (simp add: user_db_def db_ok_def pk_ok_def uq_app_active_job_def uq_job_platform_id_def uq_user_email_def uq_shared_def empty_db_def)

lemma user_db_inv: "sess_inv user_db"
  using user_db_ok by (simp add: sess_inv_def tok_inv_def user_db_def empty_db_def)

lemma nonce_1_fresh: "fresh_nonce sample_crypto nonce_1 user_db"
  by (simp add: fresh_nonce_def user_db_def empty_db_def auth_samples)

lemma login_sample:
  "\<exists>x. login sample_crypto sample_auth nonce_1 ''a@b.c'' ''secret'' user_db
     = (user_db\<lparr>refresh_tokens := [tok1]\<rparr>, Inr (x, SetCookie ''r1''))"
proof -
  have "db_ok (user_db\<lparr>refresh_tokens := [tok1]\<rparr>)" by (simp add: db_ok_tokens(1) [OF user_db_ok])
  moreover have "refresh_tokens user_db = []" "users user_db = [sample_user]" by (simp_all add: user_db_def empty_db_def)
  ultimately show ?thesis
    by (simp add: login_def user_by_email_def issue_session_def commit_def Let_def verify_password_def auth_samples)
qed

lemma login_db_eq: "login_db = user_db\<lparr>refresh_tokens := [tok1]\<rparr>"
  using login_sample by (auto simp: login_db_def)

lemma login_step: "auth_step sample_crypto sample_auth user_db login_db"
  unfolding login_db_def by (rule auth_step.logs_in [OF nonce_1_fresh prod.collapse [symmetric]])

lemma login_db_inv: "sess_inv login_db"
  by (rule auth_step_inv [OF login_step user_db_inv])

lemma nonce_2_fresh: "fresh_nonce sample_crypto nonce_2 login_db"
  by (simp add: fresh_nonce_def login_db_eq user_db_def empty_db_def auth_samples)

lemma rotate_sample:
  "\<exists>x. refresh sample_crypto sample_auth nonce_2 (Some ''r1'') login_db
     = (login_db\<lparr>refresh_tokens := [tok1\<lparr>rt_used := True\<rparr>, tok2]\<rparr>, Inr (x, SetCookie ''r2''))"
proof -
  have ok: "db_ok login_db" using login_db_inv by (simp add: sess_inv_def)
  have "db_ok (login_db\<lparr>refresh_tokens := [tok1\<lparr>rt_used := True\<rparr>, tok2]\<rparr>)"
    by (simp add: db_ok_tokens(1) [OF ok] tok1_def tok2_def)
  moreover have "refresh_tokens login_db = [tok1]" "users login_db = [sample_user]"
    by (simp_all add: login_db_eq user_db_def)
  ultimately show ?thesis
    by (simp add: refresh_def token_row_def claimable_def update_where_def issue_session_def commit_def Let_def auth_samples)
qed

lemma rotated_db_eq: "rotated_db = login_db\<lparr>refresh_tokens := [tok1\<lparr>rt_used := True\<rparr>, tok2]\<rparr>"
  using rotate_sample by (auto simp: rotated_db_def)

theorem refresh_single_use_witness:
  "\<exists>t \<in> set (refresh_tokens rotated_db). rt_hash t = sha sample_crypto ''r1'' \<and>
     refresh sample_crypto sample_auth nonce_3 (Some ''r1'') rotated_db =
      (revoke_family (rt_family t) rotated_db, Inl (AuthError ''Refresh token reuse detected''))"
proof -
  obtain x where "refresh sample_crypto sample_auth nonce_2 (Some ''r1'') login_db = (rotated_db, Inr x)"
    using rotate_sample rotated_db_eq by auto
  from refresh_single_use [OF login_db_inv nonce_2_fresh this rtranclp.rtrancl_refl, of nonce_3]
  show ?thesis by (auto simp: rotated_db_eq auth_samples)
qed

lemma rotated_inv: "sess_inv rotated_db"
  unfolding rotated_db_def
  by (rule auth_step_inv [OF auth_step.refreshes [OF nonce_2_fresh prod.collapse [symmetric]] login_db_inv])

theorem reuse_kills_family_witness:
  "\<exists>e. snd (refresh sample_crypto sample_auth nonce_3 (Some ''r2'')
      (fst (refresh sample_crypto sample_auth nonce_3 (Some ''r1'') rotated_db))) = Inl e"
proof -
  have m: "tok1\<lparr>rt_used := True\<rparr> \<in> set (refresh_tokens rotated_db)" by (simp add: rotated_db_eq)
  have h: "rt_hash (tok1\<lparr>rt_used := True\<rparr>) = sha sample_crypto ''r1''" by (simp add: auth_samples)
  have r: "refresh sample_crypto sample_auth nonce_3 (Some ''r1'') rotated_db
      = (revoke_family ''f1'' rotated_db, Inl (AuthError ''Refresh token reuse detected''))"
    using refresh_not_live [OF rotated_inv m h, of sample_auth nonce_3] by (simp add: live_def auth_samples)
  have f: "fresh_nonce sample_crypto nonce_3 rotated_db"
    by (simp add: fresh_nonce_def rotated_db_eq login_db_eq user_db_def empty_db_def auth_samples)
  have t: "tok2\<lparr>rt_revoked := True\<rparr> \<in> set (refresh_tokens (revoke_family ''f1'' rotated_db))"
    by (simp add: rotated_db_eq update_where_def tok1_def tok2_def)
  from reuse_kills_family [OF rotated_inv m r h f rtranclp.rtrancl_refl t, of "''r2''" nonce_3]
  show ?thesis by (simp add: r) (simp add: auth_samples)
qed

theorem one_live_token_witness:
  "distinct (map rt_family (filter (\<lambda>t. \<not> rt_used t \<and> \<not> rt_revoked t) (refresh_tokens login_db)))"
proof -
  have "(auth_step sample_crypto sample_auth)\<^sup>*\<^sup>* user_db login_db" using login_step by (rule r_into_rtranclp)
  from one_live_token [OF this user_db_ok] show ?thesis by (simp add: user_db_def empty_db_def)
qed

section \<open>Login, deletion and reset\<close>

text \<open>
  login. It succeeds exactly for the account of the address with the right password that is active
  and not deleted, and then stores one live token in a family of its own; in every other case (an
  unknown address, a wrong password, an inactive or a deleted account) the answer is the same and
  nothing changes.
\<close>

theorem login_spec:
  assumes "db_ok d" and "fresh_nonce cr n d"
  shows "if \<exists>u \<in> set (users d). u_email u = email \<and> verify_password cr password (u_hashed_password u)
            \<and> u_is_active u \<and> u_deleted_at u = None
     then \<exists>u \<in> set (users d). \<exists>t. u_email u = email \<and> rt_user t = u_id u \<and> live t
            \<and> rt_family t \<notin> rt_family ` set (refresh_tokens d)
            \<and> login cr st n email password d = (d\<lparr>refresh_tokens := refresh_tokens d @ [t]\<rparr>,
                 Inr (create_access_token cr st (n_now n) (u_id u) None, SetCookie (n_raw n)))
     else login cr st n email password d = (d, Inl (AuthError ''Invalid credentials''))"
proof -
  have emails: "distinct (map u_email (users d))" by (rule db_ok_dist(3) [OF assms(1)])
  show ?thesis
  proof (cases "\<exists>u \<in> set (users d). u_email u = email")
    case False
    then have "user_by_email email d = Inr None" by (auto simp: user_by_email_def scalar_one_None filter_empty_conv)
    then have "login cr st n email password d = (d, Inl (AuthError ''Invalid credentials''))" by (simp add: login_def)
    with False show ?thesis by auto
  next
    case True
    then obtain u where u: "u \<in> set (users d)" "u_email u = email" by blast
    have e: "user_by_email email d = Inr (Some u)"
      using filter_key_present [OF emails u(1)] u(2) by (simp add: user_by_email_def)
    have only: "x = u" if "x \<in> set (users d)" "u_email x = email" for x
      using key_unique [OF emails that(1) u(1)] that(2) u(2) by simp
    let ?ok = "verify_password cr password (u_hashed_password u) \<and> u_is_active u \<and> u_deleted_at u = None"
    let ?t = "\<lparr>rt_id = n_id n, rt_user = u_id u, rt_hash = sha cr (n_raw n), rt_family = n_family n,
        rt_used = False, rt_revoked = False, rt_expires = n_now n + refresh_token_expire_days st * 86400\<rparr>"
    show ?thesis
    proof (cases ?ok)
      case True
      have "db_ok (d\<lparr>refresh_tokens := refresh_tokens d @ [?t]\<rparr>)"
        using assms by (simp add: db_ok_tokens(1) db_ok_dist(1) fresh_nonce_def)
      with True e have "login cr st n email password d = (d\<lparr>refresh_tokens := refresh_tokens d @ [?t]\<rparr>,
          Inr (create_access_token cr st (n_now n) (u_id u) None, SetCookie (n_raw n)))"
        by (simp add: login_def issue_session_def commit_def)
      then have "\<exists>t. u_email u = email \<and> rt_user t = u_id u \<and> live t \<and> rt_family t \<notin> rt_family ` set (refresh_tokens d)
            \<and> login cr st n email password d = (d\<lparr>refresh_tokens := refresh_tokens d @ [t]\<rparr>,
                 Inr (create_access_token cr st (n_now n) (u_id u) None, SetCookie (n_raw n)))"
        using u(2) assms(2) by (intro exI [of _ ?t]) (simp add: live_def fresh_nonce_def)
      with u True show ?thesis by auto
    next
      case False
      then have "login cr st n email password d = (d, Inl (AuthError ''Invalid credentials''))"
        using e by (auto simp: login_def)
      with False only show ?thesis by auto
    qed
  qed
qed

theorem login_spec_witness:
  "\<exists>t. rt_user t = ''u1'' \<and> live t \<and> refresh_tokens login_db = [t]"
  using login_spec [OF user_db_ok nonce_1_fresh, of "''a@b.c''" "''secret''" sample_auth]
  by (auto simp: verify_password_def auth_samples user_db_def empty_db_def login_db_def split: if_splits)

text \<open>The users after a step: same or more ids, and a deletion date stays.\<close>

definition gone :: "str \<Rightarrow> db \<Rightarrow> bool" where
  "gone i d \<longleftrightarrow> (\<exists>u \<in> set (users d). u_id u = i \<and> u_deleted_at u \<noteq> None)"

lemma gone_update:
  assumes "gone i d" and "users d' = update_where p f (users d)"
    and "\<And>x. u_id (f x) = u_id x \<and> (u_deleted_at x \<noteq> None \<longrightarrow> u_deleted_at (f x) \<noteq> None)"
  shows "gone i d'"
proof -
  obtain x where x: "x \<in> set (users d)" "u_id x = i" "u_deleted_at x \<noteq> None" using assms(1) by (auto simp: gone_def)
  have "(if p x then f x else x) \<in> set (users d')" using x(1) unfolding assms(2) in_set_update_where by blast
  with x assms(3) show ?thesis unfolding gone_def by (metis (full_types))
qed

lemma auth_step_gone:
  assumes "auth_step cr st d d'" and "sess_inv d" and "gone i d"
  shows "gone i d'"
  using assms(1)
proof cases
  case (registers i email password full_name r)
  with register_cases [OF this] assms(3) show ?thesis by (auto simp: gone_def)
next
  case (logs_in n email password r)
  have "d' = d \<or> (\<exists>u. issue_session cr st n u None d = (d', r))"
    using logs_in(2) by (auto simp: login_def Let_def split: sum.splits option.splits if_splits)
  with assms(3) show ?thesis by (auto simp: gone_def dest!: issue_session_tokens)
next
  case (refreshes n cookie r)
  have "distinct (map rt_id (refresh_tokens d))" using assms(2) by (simp add: sess_inv_def tok_inv_def)
  from this refreshes(2) have "users d' = users d"
    by (cases rule: refresh_cases) (auto dest: issue_session_tokens)
  with assms(3) show ?thesis by (simp add: gone_def)
next
  case (logs_out cookie r)
  then have "users d' = users d" by (auto simp: logout_def split: if_splits sum.splits option.splits)
  with assms(3) show ?thesis by (simp add: gone_def)
next
  case (deletes u now c)
  from delete_account_cases [OF this] show ?thesis
  proof
    assume "d' = revoke_user (u_id u)
      (d\<lparr>users := update_where (\<lambda>y. u_id y = u_id u) (\<lambda>y. y\<lparr>u_deleted_at := Some now\<rparr>) (users d)\<rparr>)"
    then have "users d' = update_where (\<lambda>y. u_id y = u_id u) (\<lambda>y. y\<lparr>u_deleted_at := Some now\<rparr>) (users d)" by simp
    with assms(3) show ?thesis by (rule gone_update) simp
  qed (use assms(3) in simp)
next
  case (forgets n send email r)
  with forgot_cases [OF forgets(2)] assms(3) show ?thesis by (auto simp: gone_def)
next
  case (resets now token pw r)
  then show ?thesis
  proof (cases rule: reset_password_cases)
    case (redeemed row u)
    then have "users d' = update_where (\<lambda>x. u_id x = u_id u) (\<lambda>x. x\<lparr>u_hashed_password := Some (pw_hash cr pw)\<rparr>) (users d)"
      by simp
    with assms(3) show ?thesis by (rule gone_update) simp
  qed (use assms(3) in simp)
qed

lemma gone_unique:
  assumes "db_ok d" and "gone i d" and "u \<in> set (users d)" and "u_id u = i"
  shows "u_deleted_at u \<noteq> None"
  using assms key_unique [OF db_ok_dist(2) [OF assms(1)]] by (metis gone_def)

text \<open>
  C15: a deleted account is closed. After the deletion, and whatever requests follow, no login of the
  account's address succeeds, no refresh token of the account is accepted, and no bearer token
  authenticates as it.
\<close>

theorem deleted_account_closed:
  assumes "sess_inv d" and "u \<in> set (users d)" and "delete_account u now d = (d1, c)"
    and "(auth_step cr st)\<^sup>*\<^sup>* d1 d2" and "x \<in> set (users d2)" and "u_id x = u_id u"
  shows "login cr st n (u_email x) password d2 = (d2, Inl (AuthError ''Invalid credentials''))
    \<and> (\<forall>t \<in> set (refresh_tokens d2). rt_user t = u_id u \<and> rt_hash t = sha cr raw \<longrightarrow>
         (\<exists>e. snd (refresh cr st n (Some raw) d2) = Inl e))
    \<and> (\<forall>token y. get_current_user cr now2 token d2 = Inr y \<longrightarrow> u_id y \<noteq> u_id u)"
proof -
  have ok: "db_ok d" using assms(1) by (simp add: sess_inv_def)
  have f: "List.find (\<lambda>y. u_id y = u_id u) (users d) = Some u"
    using find_key [OF db_ok_dist(2) [OF ok], of "u_id u" u] assms(2) by simp
  have g1: "gone (u_id u) d1"
  proof (cases "u_deleted_at u = None")
    case True
    have "u\<lparr>u_deleted_at := Some now\<rparr> \<in> set (update_where (\<lambda>y. u_id y = u_id u) (\<lambda>y. y\<lparr>u_deleted_at := Some now\<rparr>) (users d))"
      using assms(2) unfolding in_set_update_where by (intro bexI [of _ u]) simp_all
    moreover have "users d1 = update_where (\<lambda>y. u_id y = u_id u) (\<lambda>y. y\<lparr>u_deleted_at := Some now\<rparr>) (users d)"
      using f True assms(3) by (auto simp: delete_account_def)
    ultimately show ?thesis unfolding gone_def by (intro bexI [of _ "u\<lparr>u_deleted_at := Some now\<rparr>"]) simp_all
  qed (use f assms(2,3) in \<open>auto simp: delete_account_def gone_def\<close>)
  have inv1: "sess_inv d1" by (rule auth_step_inv [OF auth_step.deletes [OF assms(3)] assms(1)])
  have g2: "gone (u_id u) d2"
    by (rule auth.steps_stable [OF assms(4) inv1, where Q = "gone (u_id u)", OF g1]) (rule auth_step_gone)
  have inv2: "sess_inv d2" by (rule auth.steps_inv [OF assms(4) inv1])
  have ok2: "db_ok d2" using inv2 by (simp add: sess_inv_def)
  have del: "u_deleted_at y \<noteq> None" if "y \<in> set (users d2)" "u_id y = u_id u" for y
    using gone_unique [OF ok2 g2 that] .
  have "user_by_email (u_email x) d2 = Inr (Some x)"
    using filter_key_present [OF db_ok_dist(3) [OF ok2] assms(5)] by (simp add: user_by_email_def)
  then have 1: "login cr st n (u_email x) password d2 = (d2, Inl (AuthError ''Invalid credentials''))"
    using del [OF assms(5,6)] by (auto simp: login_def)
  have 2: "\<exists>e. snd (refresh cr st n (Some raw) d2) = Inl e"
    if t: "t \<in> set (refresh_tokens d2)" "rt_user t = u_id u" "rt_hash t = sha cr raw" for t
  proof -
    have ids: "distinct (map rt_id (refresh_tokens d2))" using inv2 by (simp add: sess_inv_def tok_inv_def)
    obtain d' r where r: "refresh cr st n (Some raw) d2 = (d', r)" by (cases "refresh cr st n (Some raw) d2")
    show ?thesis using ids r
    proof (cases rule: refresh_cases)
      case (rotated row v)
      then have "row = t" using token_row_present [OF inv2 t(1,3)] by simp
      with del [OF rotated(4)] rotated(5,7) t(2) show ?thesis by simp
    qed (use r in auto)
  qed
  have 3: "u_id y \<noteq> u_id u" if "get_current_user cr now2 token d2 = Inr y" for token y
  proof -
    have "y \<in> set (users d2) \<and> u_deleted_at y = None"
      using that by (auto simp: get_current_user_def find_Some_iff split: sum.splits option.splits if_splits)
    with del show ?thesis by blast
  qed
  from 1 2 3 show ?thesis by blast
qed

theorem deleted_account_closed_witness:
  "login sample_crypto sample_auth nonce_2 ''a@b.c'' ''secret'' (fst (delete_account sample_user 5 login_db))
     = (fst (delete_account sample_user 5 login_db), Inl (AuthError ''Invalid credentials''))"
proof -
  have m: "sample_user \<in> set (users login_db)" by (simp add: login_db_eq user_db_def)
  have x: "sample_user\<lparr>u_deleted_at := Some 5\<rparr> \<in> set (users (fst (delete_account sample_user 5 login_db)))"
    by (simp add: delete_account_def login_db_eq user_db_def sample_user_def update_where_def)
  have e: "u_email (sample_user\<lparr>u_deleted_at := Some 5\<rparr>) = ''a@b.c''" by (simp add: sample_user_def)
  from deleted_account_closed [OF login_db_inv m prod.collapse [symmetric] rtranclp.rtrancl_refl x,
      of sample_crypto sample_auth nonce_2 "''secret''" "''r1''" 0]
  show ?thesis by (simp add: e)
qed

text \<open>Reset tokens that are used stay used.\<close>

definition spent :: "str \<Rightarrow> db \<Rightarrow> bool" where
  "spent h d \<longleftrightarrow> (\<exists>t \<in> set (reset_tokens d). pr_hash t = h \<and> pr_used_at t \<noteq> None)"

lemma auth_step_spent:
  assumes "auth_step cr st d d'" and "sess_inv d" and "spent h d"
  shows "spent h d'"
proof -
  obtain t where t: "t \<in> set (reset_tokens d)" "pr_hash t = h" "pr_used_at t \<noteq> None"
    using assms(3) by (auto simp: spent_def)
  from auth_step_resets [OF assms(1,2)] show ?thesis
  proof (elim disjE exE)
    fix p v assume e: "reset_tokens d' = update_where p (\<lambda>t. t\<lparr>pr_used_at := Some v\<rparr>) (reset_tokens d)"
    have "(if p t then t\<lparr>pr_used_at := Some v\<rparr> else t) \<in> set (reset_tokens d')"
      unfolding e in_set_update_where using t(1) by blast
    with t show ?thesis unfolding spent_def by (intro bexI [of _ "if p t then t\<lparr>pr_used_at := Some v\<rparr> else t"]) auto
  qed (use t in \<open>auto simp: spent_def\<close>)
qed

lemma reset_spent:
  assumes "sess_inv d" and "spent (sha cr token) d"
  shows "reset_password cr now token pw d = (d, Inl (AuthError ''Invalid or expired reset token''))"
proof -
  obtain t where t: "t \<in> set (reset_tokens d)" "pr_hash t = sha cr token" "pr_used_at t \<noteq> None"
    using assms(2) by (auto simp: spent_def)
  have "distinct (map pr_hash (reset_tokens d))" using assms(1) by (simp add: sess_inv_def)
  from filter_key_present [OF this t(1)] t(2,3) show ?thesis by (auto simp: reset_password_def Let_def)
qed

text \<open>
  C12: a password reset is single use and ends every session. After a redemption, and whatever requests
  follow, the same token (and every other reset token the user had) is refused, and no refresh
  token that the user had before is accepted; and the redemption itself set the new password.
\<close>

theorem reset_single_use:
  assumes "sess_inv d" and "reset_password cr now token pw d = (d1, Inr ())" and "(auth_step cr st)\<^sup>*\<^sup>* d1 d2"
  shows "\<exists>u \<in> set (users d). \<exists>x \<in> set (users d1). u_id x = u_id u \<and> u_hashed_password x = Some (pw_hash cr pw)
    \<and> reset_password cr now2 token pw2 d2 = (d2, Inl (AuthError ''Invalid or expired reset token''))
    \<and> (\<forall>t \<in> set (reset_tokens d). \<forall>raw. pr_user t = u_id u \<and> pr_hash t = sha cr raw \<longrightarrow>
         reset_password cr now2 raw pw2 d2 = (d2, Inl (AuthError ''Invalid or expired reset token'')))
    \<and> (\<forall>t \<in> set (refresh_tokens d). \<forall>raw. rt_user t = u_id u \<and> rt_hash t = sha cr raw \<longrightarrow>
         (\<exists>e. snd (refresh cr st n (Some raw) d2) = Inl e))"
  using assms(2)
proof (cases rule: reset_password_cases)
  case (redeemed row u)
  have inv1: "sess_inv d1" by (rule auth_step_inv [OF auth_step.resets [OF assms(2)] assms(1)])
  have inv2: "sess_inv d2" by (rule auth.steps_inv [OF assms(3) inv1])
  have row: "row \<in> set (reset_tokens d)" "pr_hash row = sha cr token"
    using redeemed(1) by (auto simp: scalar_one_Some dest: filter_eq_ConsD)
  have spent1: "spent (pr_hash t) d1" if "t \<in> set (reset_tokens d)" "pr_user t = u_id u \<or> t = row" for t
  proof -
    let ?p = "\<lambda>t. pr_id t = pr_id row \<or> (pr_user t = u_id u \<and> pr_used_at t = None)"
    have "reset_tokens d1 = update_where ?p (\<lambda>t. t\<lparr>pr_used_at := Some now\<rparr>) (reset_tokens d)"
      by (simp add: redeemed(7))
    then have "(if ?p t then t\<lparr>pr_used_at := Some now\<rparr> else t) \<in> set (reset_tokens d1)"
      using that(1) by (simp only: in_set_update_where) blast
    with that(2) show ?thesis unfolding spent_def
      by (intro bexI [of _ "if ?p t then t\<lparr>pr_used_at := Some now\<rparr> else t"]) auto
  qed
  have refused: "reset_password cr now2 raw pw2 d2 = (d2, Inl (AuthError ''Invalid or expired reset token''))"
    if "t \<in> set (reset_tokens d)" "pr_user t = u_id u \<or> t = row" "pr_hash t = sha cr raw" for t raw
  proof (rule reset_spent [OF inv2])
    have "spent (sha cr raw) d1" using spent1 [OF that(1,2)] that(3) by simp
    then show "spent (sha cr raw) d2"
      by (rule auth.steps_stable [OF assms(3) inv1, where Q = "spent (sha cr raw)"]) (rule auth_step_spent)
  qed
  have dead: "\<exists>e. snd (refresh cr st n (Some raw) d2) = Inl e"
    if t: "t \<in> set (refresh_tokens d)" "rt_user t = u_id u" "rt_hash t = sha cr raw" for t raw
  proof -
    have "t\<lparr>rt_revoked := True\<rparr> \<in> set (refresh_tokens d1)"
      using t(1,2) by (simp only: redeemed(7) revoke_tokens in_set_update_where) (intro bexI [of _ t], simp_all)
    from auth_steps_keep [OF assms(3) inv1 this] obtain t2
      where t2: "t2 \<in> set (refresh_tokens d2)" "keeps_token (t\<lparr>rt_revoked := True\<rparr>) t2" by blast
    then have "\<not> live t2" "rt_hash t2 = sha cr raw" using t(3) by (auto simp: keeps_token_def live_def)
    with refresh_not_live [OF inv2 t2(1)] show ?thesis by (cases "raw = []") (auto simp: refresh_def)
  qed
  have "users d1 = update_where (\<lambda>x. u_id x = u_id u) (\<lambda>x. x\<lparr>u_hashed_password := Some (pw_hash cr pw)\<rparr>) (users d)"
    by (simp add: redeemed(7))
  then have "u\<lparr>u_hashed_password := Some (pw_hash cr pw)\<rparr> \<in> set (users d1)"
    using redeemed(4) by (simp only: in_set_update_where) (intro bexI [of _ u], simp_all)
  then have pwd: "\<exists>x \<in> set (users d1). u_id x = u_id u \<and> u_hashed_password x = Some (pw_hash cr pw)"
    by (rule rev_bexI) simp
  have own: "reset_password cr now2 token pw2 d2 = (d2, Inl (AuthError ''Invalid or expired reset token''))"
    by (rule refused [OF row(1) _ row(2)]) simp
  from pwd redeemed(4) own refused dead show ?thesis by blast
qed simp

definition reset_db :: db where
  "reset_db = login_db\<lparr>reset_tokens := [\<lparr>pr_id = ''p1'', pr_user = ''u1'', pr_hash = ''#k'', pr_expires = 100, pr_used_at = None\<rparr>]\<rparr>"

theorem reset_single_use_witness:
  "reset_password sample_crypto 60 ''k'' ''other'' (fst (reset_password sample_crypto 50 ''k'' ''newpass'' reset_db))
     = (fst (reset_password sample_crypto 50 ''k'' ''newpass'' reset_db), Inl (AuthError ''Invalid or expired reset token''))"
proof -
  have inv: "sess_inv reset_db"
    using login_db_inv by (simp add: sess_inv_def reset_db_def db_ok_users(3))
  have "snd (reset_password sample_crypto 50 ''k'' ''newpass'' reset_db) = Inr ()"
    by (simp add: reset_password_def reset_db_def login_db_eq user_db_def auth_samples)
  then have "reset_password sample_crypto 50 ''k'' ''newpass'' reset_db
      = (fst (reset_password sample_crypto 50 ''k'' ''newpass'' reset_db), Inr ())" by (metis prod.collapse)
  from reset_single_use [OF inv this rtranclp.rtrancl_refl, of 60 "''other''" sample_auth nonce_3]
  show ?thesis by blast
qed

section \<open>Bearer tokens\<close>

text \<open>
  What the code relies on of the JWT library, with one secret and one algorithm: a token decodes to
  its claims until it expires, and only tokens signed with the secret decode.
\<close>

locale jwt_signing =
  fixes cr :: crypto
  assumes decode_valid: "now < cl_exp c \<Longrightarrow> jwt_decode cr now (jwt_encode cr c) = Some c"
    and decode_expired: "cl_exp c \<le> now \<Longrightarrow> jwt_decode cr now (jwt_encode cr c) = None"
    and decode_genuine: "jwt_decode cr now t = Some c \<Longrightarrow> t = jwt_encode cr c"
begin

lemma decode_access:
  "decode_token cr now2 (create_access_token cr st now sub None) (Some ''access'') =
     (if now2 < now + access_token_expire_minutes st * 60
      then Inr \<lparr>cl_sub = Some sub, cl_type = ''access'', cl_iat = now, cl_exp = now + access_token_expire_minutes st * 60\<rparr>
      else Inl (AuthError ''Invalid or expired token''))"
  by (simp add: decode_token_def create_access_token_def decode_valid decode_expired)

lemma decode_ticket:
  "\<exists>e. decode_token cr now2 (create_ws_ticket cr st now sub) (Some ''access'') = Inl e"
  by (cases "now2 < now + ws_ticket_expire_seconds st")
    (simp_all add: decode_token_def create_ws_ticket_def decode_valid decode_expired)

lemma decode_access_ticket:
  "\<exists>e. decode_token cr now2 (create_access_token cr st now sub m) (Some ''ws_ticket'') = Inl e"
proof -
  let ?e = "now + (case m of Some m \<Rightarrow> m | None \<Rightarrow> access_token_expire_minutes st) * 60"
  show ?thesis
    by (cases "now2 < ?e") (simp_all add: decode_token_def create_access_token_def decode_valid decode_expired)
qed

lemma current_user_signed:
  assumes "get_current_user cr now token d = Inr u"
  shows "\<exists>i e. token = jwt_encode cr \<lparr>cl_sub = Some (u_id u), cl_type = ''access'', cl_iat = i, cl_exp = e\<rparr> \<and> now < e
    \<and> u \<in> set (users d) \<and> u_is_active u \<and> u_deleted_at u = None"
proof -
  obtain p where p: "jwt_decode cr now token = Some p" "cl_type p = ''access''" "cl_sub p = Some (u_id u)"
    and u: "u \<in> set (users d)" "u_is_active u" "u_deleted_at u = None"
    using assms by (auto simp: get_current_user_def decode_token_def find_Some_iff
        split: sum.splits option.splits if_splits)
  have t: "token = jwt_encode cr p" by (rule decode_genuine [OF p(1)])
  have "now < cl_exp p" using p(1) decode_expired [of p now] t by (cases "cl_exp p \<le> now") auto
  with t p u show ?thesis by (cases p) auto
qed

end

interpretation sample_jwt: jwt_signing sample_crypto
proof
  have dec: "sample_decode now (sample_encode c) = (if now < cl_exp c then Some c else None)" for now c
    by (simp add: sample_decode_def sample_encode_def claims_code_def Let_def)
  show "now < cl_exp c \<Longrightarrow> jwt_decode sample_crypto now (jwt_encode sample_crypto c) = Some c"
    and "cl_exp c \<le> now \<Longrightarrow> jwt_decode sample_crypto now (jwt_encode sample_crypto c) = None" for now c
    by (simp_all add: sample_crypto_def dec)
  show "jwt_decode sample_crypto now t = Some c \<Longrightarrow> t = jwt_encode sample_crypto c" for now t c
    by (auto simp: sample_crypto_def sample_decode_def Let_def split: prod.splits if_splits)
qed

text \<open>
  C16: bearer tokens. A request authenticates as a user only with an unexpired access token signed for
  that user, who is active and not deleted; the access token of a login does authenticate, exactly
  until it expires; and a WebSocket ticket never authenticates a request, nor an access token a WebSocket.
\<close>

theorem bearer_token_spec:
  assumes "jwt_signing cr" and "db_ok d" and "u \<in> set (users d)" and "u_is_active u" and "u_deleted_at u = None"
  shows "(get_current_user cr now2 (create_access_token cr st now (u_id u) None) d = Inr u \<longleftrightarrow>
            now2 < now + access_token_expire_minutes st * 60)
    \<and> (\<forall>token v. get_current_user cr now2 token d = Inr v \<longrightarrow>
         (\<exists>i e. token = jwt_encode cr \<lparr>cl_sub = Some (u_id v), cl_type = ''access'', cl_iat = i, cl_exp = e\<rparr>
            \<and> now2 < e \<and> u_is_active v \<and> u_deleted_at v = None))
    \<and> (\<exists>e. get_current_user cr now2 (create_ws_ticket cr st now sub) d = Inl e)
    \<and> (\<exists>e. decode_token cr now2 (create_access_token cr st now sub m) (Some ''ws_ticket'') = Inl e)"
proof (intro conjI allI impI)
  have "List.find (\<lambda>x. u_id x = u_id u) (users d) = Some u"
    using find_key [OF db_ok_dist(2) [OF assms(2)], of "u_id u" u] assms(3) by simp
  then show "get_current_user cr now2 (create_access_token cr st now (u_id u) None) d = Inr u \<longleftrightarrow>
      now2 < now + access_token_expire_minutes st * 60"
    using assms(4,5) by (simp add: get_current_user_def jwt_signing.decode_access [OF assms(1)])
  show "\<exists>i e. token = jwt_encode cr \<lparr>cl_sub = Some (u_id v), cl_type = ''access'', cl_iat = i, cl_exp = e\<rparr>
            \<and> now2 < e \<and> u_is_active v \<and> u_deleted_at v = None"
    if "get_current_user cr now2 token d = Inr v" for token v
    using jwt_signing.current_user_signed [OF assms(1) that] by blast
  show "\<exists>e. get_current_user cr now2 (create_ws_ticket cr st now sub) d = Inl e"
    using jwt_signing.decode_ticket [OF assms(1), of now2 st now sub] by (auto simp: get_current_user_def)
  show "\<exists>e. decode_token cr now2 (create_access_token cr st now sub m) (Some ''ws_ticket'') = Inl e"
    by (rule jwt_signing.decode_access_ticket [OF assms(1)])
qed

theorem bearer_token_spec_witness:
  "get_current_user sample_crypto 899 (create_access_token sample_crypto sample_auth 0 ''u1'' None) login_db = Inr sample_user"
proof -
  have "db_ok login_db" "sample_user \<in> set (users login_db)"
    using login_db_inv by (simp_all add: sess_inv_def login_db_eq user_db_def)
  from bearer_token_spec [OF sample_jwt.jwt_signing_axioms this, of 899 sample_auth 0] show ?thesis
    by (simp add: auth_samples)
qed

text \<open>
  the forgotten-password answer. With a mailer that delivers, the answer is the same for every
  address; but when the delivery fails, exactly the addresses of active accounts get an error.
\<close>

theorem forgot_password_answer:
  fixes email :: str
  assumes "db_ok d" and "fresh_nonce cr n d"
  defines "known \<equiv> \<exists>u \<in> set (users d). u_email u = email \<and> u_deleted_at u = None \<and> u_is_active u"
  shows "snd (forgot_password cr st send n email d) =
    (if known \<and> send email (n_raw n) \<noteq> None then Inl (the (send email (n_raw n)))
     else Inr ''If that email is registered, a password-reset link is on its way.'')"
proof -
  let ?q = "filter (\<lambda>u. u_email u = email \<and> u_deleted_at u = None \<and> u_is_active u) (users d)"
  have "distinct (map u_email (filter (\<lambda>u. u_deleted_at u = None \<and> u_is_active u) (users d)))"
    using db_ok_dist(3) [OF assms(1)] by (rule distinct_map_filter)
  from filter_key_le_one [OF this, of email]
  have q: "?q = [] \<or> (\<exists>u. ?q = [u])" by (simp add: conj_ac)
  have "db_ok (d\<lparr>reset_tokens := reset_tokens d @ [t]\<rparr>)" if "pr_id t = n_id n" for t
    using assms(1,2) that by (simp add: db_ok_users(3) db_ok_dist fresh_nonce_def)
  then have ok: "db_ok (d\<lparr>reset_tokens := reset_tokens d @ [\<lparr>pr_id = n_id n, pr_user = i, pr_hash = h, pr_expires = e,
      pr_used_at = None\<rparr>]\<rparr>)" for i h e by simp
  from q show ?thesis
  proof
    assume e: "?q = []"
    then have "\<not> known" by (auto simp: known_def filter_empty_conv)
    with e show ?thesis by (simp add: forgot_password_def request_password_reset_def)
  next
    assume "\<exists>u. ?q = [u]"
    then obtain u where e: "?q = [u]" by blast
    then have "u \<in> set ?q" by simp
    then have "known" "u_email u = email" by (auto simp: known_def)
    with e ok show ?thesis
      by (cases "send email (n_raw n)") (simp_all add: forgot_password_def request_password_reset_def commit_def)
  qed
qed

theorem forgot_password_answer_witness:
  "snd (forgot_password sample_crypto sample_auth (\<lambda>_ _. Some (OtherError ''SMTP'')) nonce_2 ''a@b.c'' login_db)
     = Inl (OtherError ''SMTP'')"
proof -
  have "db_ok login_db" using login_db_inv by (simp add: sess_inv_def)
  from forgot_password_answer [OF this nonce_2_fresh, of sample_auth "\<lambda>_ _. Some (OtherError ''SMTP'')" "''a@b.c''"]
  show ?thesis by (simp add: login_db_eq user_db_def sample_user_def)
qed

text \<open>
  registration. A new address gets an account with that address; a known one (or an id collision)
  gets the conflict error, and addresses stay unique.
\<close>

theorem register_spec:
  assumes "db_ok d" and "i \<notin> u_id ` set (users d)"
  shows "if email \<in> u_email ` set (users d)
     then register cr i email pw name d = (d, Inl (IntegrityError ''Email already registered''))
     else \<exists>u. register cr i email pw name d = (d\<lparr>users := users d @ [u]\<rparr>, Inr u) \<and> u_email u = email
          \<and> u_hashed_password u = Some (pw_hash cr pw) \<and> u_is_active u \<and> \<not> u_is_superuser u
          \<and> db_ok (d\<lparr>users := users d @ [u]\<rparr>)"
proof (cases "email \<in> u_email ` set (users d)")
  case True
  then obtain u where u: "u \<in> set (users d)" "u_email u = email" by auto
  from filter_key_present [OF db_ok_dist(3) [OF assms(1)] u(1)] u(2) True show ?thesis
    by (simp add: register_def user_by_email_def)
next
  case False
  then have "user_by_email email d = Inr None" by (auto simp: user_by_email_def scalar_one_None filter_empty_conv)
  moreover have "db_ok (d\<lparr>users := users d @ [u]\<rparr>)" if "u_id u = i" "u_email u = email" for u
    using that False assms by (simp add: db_ok_users(1) db_ok_dist)
  ultimately show ?thesis using False by (simp add: register_def commit_def Let_def)
qed

theorem register_spec_witness:
  "register sample_crypto ''u2'' ''a@b.c'' ''password'' None login_db = (login_db, Inl (IntegrityError ''Email already registered''))"
proof -
  have "db_ok login_db" "''u2'' \<notin> u_id ` set (users login_db)"
    using login_db_inv by (simp_all add: sess_inv_def login_db_eq user_db_def sample_user_def)
  from register_spec [OF this, of "''a@b.c''" sample_crypto "''password''" None] show ?thesis
    by (simp add: login_db_eq user_db_def sample_user_def)
qed

end
