(* ===== verification/Storage.thy ===== *)
theory Storage
  imports Errors
begin

text \<open>
  File storage: the tenant's facade (\<^verbatim>\<open>core/storage/service.py\<close>) with the key builders
  (\<^verbatim>\<open>core/storage/keys.py\<close>), over the local file system back end (\<^verbatim>\<open>core/storage/local.py\<close>). A file
  system is its regular files and its directories, as absolute paths of components without symbolic
  links; times and the HMAC of the signed URLs are arguments.
\<close>

section \<open>Paths\<close>

type_synonym path = "str list"

record fs =
  fs_files :: "(path \<times> str) list"
  fs_dirs :: "path list"

text \<open>\<^verbatim>\<open>Path.resolve\<close>: empty components and dots go, two dots drop the last one.\<close>

fun norm_path :: "path \<Rightarrow> str list \<Rightarrow> path" where
  "norm_path base [] = base"
| "norm_path base (c # cs) =
     (if c = [] \<or> c = ''.'' then norm_path base cs
      else if c = ''..'' then norm_path (butlast base) cs
      else norm_path (base @ [c]) cs)"

definition resolve_path :: "path \<Rightarrow> str \<Rightarrow> path" where
  "resolve_path rt key =
     norm_path (if key \<noteq> [] \<and> hd key = CHR ''/'' then [] else rt) (split_on CHR ''/'' key)"

definition path_str :: "path \<Rightarrow> str" where
  "path_str p = CHR ''/'' # join_with ''/'' p"

definition has_prefix :: "str \<Rightarrow> str \<Rightarrow> bool" where
  "has_prefix s p \<longleftrightarrow> take (length p) s = p"

definition local_path :: "path \<Rightarrow> str \<Rightarrow> exn + path" where
  "local_path rt key =
     (let resolved = resolve_path rt key
      in if has_prefix (path_str resolved) (path_str rt) then Inr resolved
         else Inl (ValueError (''path traversal rejected for key: '' @ key)))"

section \<open>The local back end\<close>

record stored_object =
  so_key :: str
  so_size :: nat
  so_content_type :: str

definition is_file :: "fs \<Rightarrow> path \<Rightarrow> bool" where
  "is_file f p \<longleftrightarrow> map_of (fs_files f) p \<noteq> None"

definition path_exists :: "fs \<Rightarrow> path \<Rightarrow> bool" where
  "path_exists f p \<longleftrightarrow> is_file f p \<or> p \<in> set (fs_dirs f)"

text \<open>The parents of a path, from the root down.\<close>

definition parents :: "path \<Rightarrow> path list" where
  "parents p = map (\<lambda>n. take n p) [0..<length p]"

definition os_error :: exn where
  "os_error = OtherError ''OSError''"

text \<open>
  \<^verbatim>\<open>mkdir(parents=True, exist_ok=True)\<close> fails when a parent is a file, and opening a directory for
  writing fails, after the parents have been made.
\<close>

definition local_put :: "path \<Rightarrow> str \<Rightarrow> str \<Rightarrow> str \<Rightarrow> (fs, exn, stored_object) op" where
  "local_put rt key data content_type f =
     (case local_path rt key of
        Inl e \<Rightarrow> (f, Inl e)
      | Inr p \<Rightarrow>
          if list_ex (is_file f) (parents p) then (f, Inl os_error)
          else
            (let f1 = f\<lparr>fs_dirs := fs_dirs f @ filter (\<lambda>q. q \<notin> set (fs_dirs f)) (parents p)\<rparr>
             in if p \<in> set (fs_dirs f1) then (f1, Inl os_error)
                else (f1\<lparr>fs_files := (p, data) # filter (\<lambda>x. fst x \<noteq> p) (fs_files f1)\<rparr>,
                      Inr \<lparr>so_key = key, so_size = length data, so_content_type = content_type\<rparr>)))"

definition local_get :: "path \<Rightarrow> str \<Rightarrow> fs \<Rightarrow> exn + str" where
  "local_get rt key f =
     (case local_path rt key of
        Inl e \<Rightarrow> Inl e
      | Inr p \<Rightarrow> (case map_of (fs_files f) p of Some x \<Rightarrow> Inr x | None \<Rightarrow> Inl os_error))"

definition local_exists :: "path \<Rightarrow> str \<Rightarrow> fs \<Rightarrow> exn + bool" where
  "local_exists rt key f = map_sum id (path_exists f) (local_path rt key)"

definition local_delete :: "path \<Rightarrow> str \<Rightarrow> (fs, exn, unit) op" where
  "local_delete rt key f =
     (case local_path rt key of
        Inl e \<Rightarrow> (f, Inl e)
      | Inr p \<Rightarrow>
          if is_file f p then (f\<lparr>fs_files := filter (\<lambda>x. fst x \<noteq> p) (fs_files f)\<rparr>, Inr ())
          else if path_exists f p then (f, Inl os_error)
          else (f, Inr ()))"

text \<open>\<^verbatim>\<open>rglob("*")\<close> finds the files strictly below the path; directories stay.\<close>

definition below :: "path \<Rightarrow> path \<Rightarrow> bool" where
  "below base p \<longleftrightarrow> length base < length p \<and> take (length base) p = base"

definition local_delete_prefix :: "path \<Rightarrow> str \<Rightarrow> (fs, exn, nat) op" where
  "local_delete_prefix rt pfx f =
     (case local_path rt pfx of
        Inl e \<Rightarrow> (f, Inl e)
      | Inr base \<Rightarrow>
          if \<not> path_exists f base then (f, Inr 0)
          else (f\<lparr>fs_files := filter (\<lambda>x. \<not> below base (fst x)) (fs_files f)\<rparr>,
                Inr (length (filter (\<lambda>x. below base (fst x)) (fs_files f)))))"

definition sign_url :: "(str \<Rightarrow> str \<Rightarrow> str) \<Rightarrow> str \<Rightarrow> str \<Rightarrow> nat \<Rightarrow> str" where
  "sign_url hmac secret key expiry = hmac secret (key @ '':'' @ show_nat expiry)"

definition local_url_for :: "(str \<Rightarrow> str \<Rightarrow> str) \<Rightarrow> str \<Rightarrow> nat \<Rightarrow> str \<Rightarrow> nat \<Rightarrow> str" where
  "local_url_for hmac secret now key expires_in =
     (let expiry = now + expires_in
      in ''/api/v1/files/'' @ key @ ''?expires='' @ show_nat expiry @ ''&sig='' @ sign_url hmac secret key expiry)"

section \<open>Keys and the tenant's facade\<close>

definition user_prefix :: "str \<Rightarrow> str" where
  "user_prefix u = ''users/'' @ u"

definition resume_key :: "str \<Rightarrow> str \<Rightarrow> str \<Rightarrow> str" where
  "resume_key u i ext = user_prefix u @ ''/resumes/'' @ i @ ''.'' @ ext"

definition upload_key :: "str \<Rightarrow> str \<Rightarrow> str \<Rightarrow> str" where
  "upload_key u i ext = user_prefix u @ ''/uploads/'' @ i @ ''.'' @ ext"

definition cover_letter_key :: "str \<Rightarrow> str \<Rightarrow> str \<Rightarrow> str" where
  "cover_letter_key u i ext = user_prefix u @ ''/cover_letters/'' @ i @ ''.'' @ ext"

definition screenshot_key :: "str \<Rightarrow> str \<Rightarrow> str \<Rightarrow> str" where
  "screenshot_key u i name = user_prefix u @ ''/screenshots/'' @ i @ ''/'' @ name"

definition trajectory_key :: "str \<Rightarrow> str \<Rightarrow> str" where
  "trajectory_key u i = user_prefix u @ ''/trajectories/'' @ i @ ''.json''"

definition tenant_check :: "str \<Rightarrow> str \<Rightarrow> exn + str" where
  "tenant_check u key =
     (if key \<noteq> user_prefix u \<and> \<not> has_prefix key (user_prefix u @ ''/'')
      then Inl (PermissionError (''key '' @ [CHR 39] @ key @ [CHR 39] @ '' is outside tenant prefix '' @ [CHR 39] @ user_prefix u @ [CHR 39]))
      else Inr key)"

definition service_put :: "path \<Rightarrow> str \<Rightarrow> str \<Rightarrow> str \<Rightarrow> str \<Rightarrow> (fs, exn, stored_object) op" where
  "service_put rt u key data content_type f =
     (case tenant_check u key of Inl e \<Rightarrow> (f, Inl e) | Inr k \<Rightarrow> local_put rt k data content_type f)"

definition service_get :: "path \<Rightarrow> str \<Rightarrow> str \<Rightarrow> fs \<Rightarrow> exn + str" where
  "service_get rt u key f = (case tenant_check u key of Inl e \<Rightarrow> Inl e | Inr k \<Rightarrow> local_get rt k f)"

definition service_delete :: "path \<Rightarrow> str \<Rightarrow> str \<Rightarrow> (fs, exn, unit) op" where
  "service_delete rt u key f =
     (case tenant_check u key of Inl e \<Rightarrow> (f, Inl e) | Inr k \<Rightarrow> local_delete rt k f)"

definition service_delete_prefix :: "path \<Rightarrow> str \<Rightarrow> str \<Rightarrow> (fs, exn, nat) op" where
  "service_delete_prefix rt u pfx f =
     (case tenant_check u pfx of Inl e \<Rightarrow> (f, Inl e) | Inr k \<Rightarrow> local_delete_prefix rt k f)"

text \<open>Copying a stored file to a fresh temporary file, whose content is the stored one.\<close>

definition service_materialize :: "path \<Rightarrow> str \<Rightarrow> str \<Rightarrow> fs \<Rightarrow> exn + str" where
  "service_materialize rt u key f =
     (case tenant_check u key of Inl e \<Rightarrow> Inl e | Inr k \<Rightarrow> local_get rt k f)"

section \<open>Where the keys of a tenant lead\<close>

definition simple_id :: "str \<Rightarrow> bool" where
  "simple_id u \<longleftrightarrow> CHR ''/'' \<notin> set u \<and> u \<noteq> [] \<and> u \<noteq> ''.'' \<and> u \<noteq> ''..''"

text \<open>A key without a parent component.\<close>

definition clean_key :: "str \<Rightarrow> bool" where
  "clean_key key \<longleftrightarrow> ''..'' \<notin> set (split_on CHR ''/'' key)"

definition in_tree :: "path \<Rightarrow> str \<Rightarrow> path \<Rightarrow> bool" where
  "in_tree rt u p \<longleftrightarrow> take (length rt + 2) p = rt @ [''users'', u]"

lemma norm_path_clean:
  "''..'' \<notin> set cs \<Longrightarrow> norm_path base cs = base @ filter (\<lambda>c. c \<noteq> [] \<and> c \<noteq> ''.'') cs"
  by (induction cs arbitrary: base) auto

lemma has_prefix_append [simp]: "has_prefix (p @ s) p"
  by (simp add: has_prefix_def)

lemma has_prefix_refl [simp]: "has_prefix p p"
  by (simp add: has_prefix_def)

lemma path_str_prefix: "has_prefix (path_str (rt @ xs)) (path_str rt)"
proof (cases "rt = [] \<or> xs = []")
  case True
  then show ?thesis by (auto simp: path_str_def has_prefix_def)
next
  case False
  then have "path_str (rt @ xs) = path_str rt @ ''/'' @ join_with ''/'' xs"
    by (simp add: path_str_def join_with_append)
  then show ?thesis by simp
qed

text \<open>A checked clean key leads into the tree of its user, whatever the root.\<close>

lemma tenant_path:
  assumes "simple_id u" and "clean_key key" and "tenant_check u key = Inr k"
  shows "k = key \<and> (\<exists>xs. local_path rt key = Inr (rt @ ''users'' # u # xs))"
proof -
  have u: "CHR ''/'' \<notin> set u" "u \<noteq> []" "u \<noteq> ''.''" using assms(1) by (auto simp: simple_id_def)
  have k: "k = key" "key = user_prefix u \<or> has_prefix key (user_prefix u @ ''/'')"
    using assms(3) by (auto simp: tenant_check_def split: if_splits)
  obtain cs where cs: "split_on CHR ''/'' key = ''users'' # u # cs"
  proof -
    have split2: "split_on CHR ''/'' (''users'' @ CHR ''/'' # r) = ''users'' # split_on CHR ''/'' r" for r
      by (rule split_on_append) simp
    show ?thesis using k(2)
    proof
      assume "key = user_prefix u"
      then have "split_on CHR ''/'' key = ''users'' # u # []"
        using split2 [of u] split_on_none [OF u(1)] by (simp add: user_prefix_def)
      then show ?thesis by (rule that)
    next
      assume "has_prefix key (user_prefix u @ ''/'')"
      then have "key = (user_prefix u @ ''/'') @ drop (length (user_prefix u @ ''/'')) key"
        unfolding has_prefix_def by (metis append_take_drop_id)
      then obtain r where "key = (user_prefix u @ ''/'') @ r" by blast
      then have "split_on CHR ''/'' key = ''users'' # u # split_on CHR ''/'' r"
        using split2 [of "u @ CHR ''/'' # r"] split_on_append [OF u(1), of r] by (simp add: user_prefix_def)
      then show ?thesis by (rule that)
    qed
  qed
  have "key \<noteq> [] \<and> hd key = CHR ''u''"
    using k(2) by (cases key) (auto simp: user_prefix_def has_prefix_def)
  then have "resolve_path rt key = norm_path rt (''users'' # u # cs)"
    by (simp add: resolve_path_def cs)
  also have "\<dots> = rt @ ''users'' # u # filter (\<lambda>c. c \<noteq> [] \<and> c \<noteq> ''.'') cs"
    using assms(2) u unfolding clean_key_def cs by (subst norm_path_clean) auto
  finally show ?thesis using k(1) path_str_prefix [of rt] by (simp add: local_path_def Let_def)
qed

lemma in_tree_users: "in_tree rt u (rt @ ''users'' # v # xs) \<longleftrightarrow> v = u"
  by (auto simp: in_tree_def)

lemma below_tree: "below (rt @ ''users'' # u # xs) p \<Longrightarrow> in_tree rt u p"
proof -
  assume "below (rt @ ''users'' # u # xs) p"
  then have "take (length (rt @ ''users'' # u # xs)) p = rt @ ''users'' # u # xs" by (simp add: below_def)
  then obtain ys where "p = rt @ ''users'' # u # ys" by (metis append_take_drop_id append.assoc append_Cons)
  then show ?thesis by (simp add: in_tree_users)
qed

lemma in_tree_unique: "in_tree rt u p \<Longrightarrow> in_tree rt v p \<Longrightarrow> u = v"
  by (simp add: in_tree_def)

lemma map_of_filter_key: "map_of (filter (\<lambda>x. q (fst x)) xs) p = (if q p then map_of xs p else None)"
  by (induction xs) auto

text \<open>The files of a tree, and what an operation on a path of another tree leaves of them.\<close>

definition tree_files :: "path \<Rightarrow> str \<Rightarrow> fs \<Rightarrow> (path \<times> str) list" where
  "tree_files rt u f = filter (\<lambda>x. in_tree rt u (fst x)) (fs_files f)"

lemma tree_files_filter:
  assumes "\<And>p. \<not> q p \<Longrightarrow> in_tree rt u p" and "u \<noteq> v"
  shows "filter (\<lambda>x. in_tree rt v (fst x)) (filter (\<lambda>x. q (fst x)) xs) = filter (\<lambda>x. in_tree rt v (fst x)) xs"
proof -
  have "q p" if "in_tree rt v p" for p
    using assms(1) [of p] in_tree_unique [OF _ that] assms(2) by blast
  then show ?thesis by (induction xs) auto
qed

lemma tenant_isolated_prefix:
  assumes "simple_id u" and "clean_key key" and "u \<noteq> v"
  shows "tree_files rt v (fst (service_delete_prefix rt u key f)) = tree_files rt v f"
proof (cases "tenant_check u key")
  case (Inr k)
  from tenant_path [OF assms(1,2) Inr, of rt] obtain xs where k: "k = key"
      and p: "local_path rt key = Inr (rt @ ''users'' # u # xs)" by blast
  have "filter (\<lambda>x. in_tree rt v (fst x)) (filter (\<lambda>x. \<not> below (rt @ ''users'' # u # xs) (fst x)) ys)
      = filter (\<lambda>x. in_tree rt v (fst x)) ys" for ys :: "(path \<times> str) list"
    by (rule tree_files_filter [OF _ assms(3)]) (use below_tree in simp)
  then show ?thesis using Inr p
    by (simp add: service_delete_prefix_def local_delete_prefix_def k tree_files_def del: filter_filter)
qed (simp add: service_delete_prefix_def)

section \<open>Properties\<close>

text \<open>
  C25: tenants are confined as long as keys have no parent component. Nothing that a user does through
  the facade changes a file of another user, and what a user reads depends only on the user's own files.
\<close>

theorem storage_isolated:
  assumes "simple_id u" and "simple_id v" and "u \<noteq> v" and "clean_key key"
  shows "tree_files rt v (fst (service_put rt u key data ct f)) = tree_files rt v f
    \<and> tree_files rt v (fst (service_delete rt u key f)) = tree_files rt v f
    \<and> tree_files rt v (fst (service_delete_prefix rt u key f)) = tree_files rt v f
    \<and> (tree_files rt u g = tree_files rt u f \<longrightarrow> service_get rt u key g = service_get rt u key f)"
proof (cases "tenant_check u key")
  case (Inl e)
  then show ?thesis by (simp add: service_put_def service_delete_def service_delete_prefix_def service_get_def)
next
  case (Inr k)
  from tenant_path [OF assms(1,4) Inr, of rt] obtain xs where k: "k = key"
      and p: "local_path rt key = Inr (rt @ ''users'' # u # xs)" by blast
  let ?p = "rt @ ''users'' # u # xs"
  have own: "in_tree rt u ?p" and other: "\<not> in_tree rt v ?p" using assms(3) by (simp_all add: in_tree_users)
  have single: "filter (\<lambda>x. in_tree rt v (fst x)) (filter (\<lambda>x. fst x \<noteq> ?p) ys) = filter (\<lambda>x. in_tree rt v (fst x)) ys" for ys :: "(path \<times> str) list"
    by (rule tree_files_filter [OF _ assms(3)]) (use own in simp)
  have "tree_files rt v (fst (service_put rt u key data ct f)) = tree_files rt v f"
    using Inr p other by (simp add: service_put_def local_put_def Let_def k tree_files_def single del: filter_filter)
  moreover have "tree_files rt v (fst (service_delete rt u key f)) = tree_files rt v f"
    using Inr p by (simp add: service_delete_def local_delete_def k tree_files_def single del: filter_filter)
  moreover have "tree_files rt v (fst (service_delete_prefix rt u key f)) = tree_files rt v f"
    using assms by (intro tenant_isolated_prefix)
  moreover have "service_get rt u key g = service_get rt u key f" if "tree_files rt u g = tree_files rt u f"
  proof -
    have "map_of (fs_files h) ?p = map_of (tree_files rt u h) ?p" for h
      by (simp add: tree_files_def map_of_filter_key own)
    then show ?thesis using Inr p that by (simp add: service_get_def local_get_def k)
  qed
  ultimately show ?thesis by blast
qed

definition sample_fs :: fs where
  "sample_fs =
     \<lparr>fs_files = [([''data'', ''users'', ''u1'', ''a''], ''A''), ([''data'', ''users'', ''u2'', ''b''], ''B'')],
      fs_dirs = [[], [''data''], [''data'', ''users''], [''data'', ''users'', ''u1''], [''data'', ''users'', ''u2'']]\<rparr>"

theorem storage_isolated_witness:
  "map snd (tree_files [''data''] ''u2'' (fst (service_delete_prefix [''data''] ''u1'' ''users/u1/'' sample_fs))) = [''B'']"
proof -
  have "tree_files [''data''] ''u2'' (fst (service_delete_prefix [''data''] ''u1'' ''users/u1/'' sample_fs)) =
      tree_files [''data''] ''u2'' sample_fs"
    by (rule storage_isolated [where v = "''u2''" and u = "''u1''", THEN conjunct2, THEN conjunct2, THEN conjunct1])
       (simp_all add: simple_id_def clean_key_def)
  then show ?thesis by (simp add: tree_files_def sample_fs_def in_tree_def)
qed

text \<open>
  the confinement needs the hypothesis. A key with parent components passes the prefix check and
  reads another user's file, and one that climbs out of the root passes the back end's check whenever a
  sibling's name merely begins with the root's.
\<close>

theorem parent_keys_escape:
  "service_get [''data''] ''u1'' ''users/u1/../u2/b'' sample_fs = Inr ''B''
   \<and> local_path [''data''] ''users/u1/../../../data-backup/x'' = Inr [''data-backup'', ''x'']"
  by code_simp

text \<open>The invariant of the back end: the parents of a file are directories, and a file has one entry.\<close>

definition fs_ok :: "fs \<Rightarrow> bool" where
  "fs_ok f \<longleftrightarrow> distinct (map fst (fs_files f)) \<and> (\<forall>p \<in> fst ` set (fs_files f). set (parents p) \<subseteq> set (fs_dirs f))"

lemma fs_ok_filter: "fs_ok f \<Longrightarrow> fs_ok (f\<lparr>fs_files := filter q (fs_files f)\<rparr>)"
  by (auto simp: fs_ok_def distinct_map_filter)

lemma fs_ok_put: "fs_ok f \<Longrightarrow> fs_ok (fst (local_put rt key data ct f))"
proof -
  assume f: "fs_ok f"
  show ?thesis
  proof (cases "local_path rt key")
    case (Inr p)
    let ?f1 = "f\<lparr>fs_dirs := fs_dirs f @ filter (\<lambda>q. q \<notin> set (fs_dirs f)) (parents p)\<rparr>"
    have f1: "fs_ok ?f1" using f by (auto simp: fs_ok_def)
    have "fs_ok (?f1\<lparr>fs_files := (p, data) # filter (\<lambda>x. fst x \<noteq> p) (fs_files ?f1)\<rparr>)"
      unfolding fs_ok_def
    proof (intro conjI ballI)
      fix q assume "q \<in> fst ` set (fs_files (?f1\<lparr>fs_files := (p, data) # filter (\<lambda>x. fst x \<noteq> p) (fs_files ?f1)\<rparr>))"
      then have "q = p \<or> q \<in> fst ` set (fs_files f)" by auto
      then have "set (parents q) \<subseteq> set (fs_dirs f) \<union> set (parents p)" using f unfolding fs_ok_def by blast
      then show "set (parents q) \<subseteq> set (fs_dirs (?f1\<lparr>fs_files := (p, data) # filter (\<lambda>x. fst x \<noteq> p) (fs_files ?f1)\<rparr>))"
        by auto
    qed (use f in \<open>auto simp: fs_ok_def distinct_map_filter\<close>)
    with f f1 Inr show ?thesis by (simp add: local_put_def Let_def)
  qed (simp add: local_put_def f)
qed

text \<open>
  The facade on the local file system as a store of files by user: what a purge relies on.
\<close>

locale user_files =
  fixes ok :: "'f \<Rightarrow> bool"
    and valid :: "str \<Rightarrow> bool"
    and files_of :: "str \<Rightarrow> 'f \<Rightarrow> 'c list"
    and purge :: "str \<Rightarrow> 'f \<Rightarrow> 'f \<times> (exn + nat)"
  assumes purge_own: "ok f \<Longrightarrow> valid u \<Longrightarrow> purge u f = (f', Inr n) \<Longrightarrow> files_of u f' = [] \<and> n = length (files_of u f)"
    and purge_other: "ok f \<Longrightarrow> valid u \<Longrightarrow> valid v \<Longrightarrow> u \<noteq> v \<Longrightarrow> files_of v (fst (purge u f)) = files_of v f"
    and purge_ok: "ok f \<Longrightarrow> ok (fst (purge u f))"

definition purge_files :: "path \<Rightarrow> str \<Rightarrow> fs \<Rightarrow> fs \<times> (exn + nat)" where
  "purge_files rt u f = service_delete_prefix rt u (user_prefix u @ ''/'') f"

definition proper_tree :: "path \<Rightarrow> fs \<Rightarrow> bool" where
  "proper_tree rt f \<longleftrightarrow> fs_ok f \<and> (\<forall>p \<in> fst ` set (fs_files f). \<forall>u. p \<noteq> rt @ [''users'', u])"

lemma user_root:
  assumes "simple_id u"
  shows "tenant_check u (user_prefix u @ ''/'') = Inr (user_prefix u @ ''/'')
    \<and> local_path rt (user_prefix u @ ''/'') = Inr (rt @ [''users'', u])"
proof -
  have u: "CHR ''/'' \<notin> set u" "u \<noteq> []" "u \<noteq> ''.''" "u \<noteq> ''..''" using assms by (auto simp: simple_id_def)
  have s: "split_on CHR ''/'' (user_prefix u @ ''/'') = [''users'', u, []]"
    using split_on_append [of "CHR ''/''" "''users''" "u @ ''/''"] split_on_append [OF u(1), of "[]"]
    by (simp add: user_prefix_def)
  have "resolve_path rt (user_prefix u @ ''/'') = norm_path rt [''users'', u, []]"
    unfolding resolve_path_def s by (simp add: user_prefix_def)
  then have "resolve_path rt (user_prefix u @ ''/'') = rt @ [''users'', u]" using u by simp
  then show ?thesis using path_str_prefix [of rt "[''users'', u]"]
    by (simp add: local_path_def Let_def tenant_check_def)
qed

interpretation local_files: user_files "proper_tree rt" simple_id "tree_files rt" "purge_files rt" for rt
proof
  fix f u f' n assume ok: "proper_tree rt f" and u: "simple_id u" and p: "purge_files rt u f = (f', Inr n)"
  have tree: "in_tree rt u q \<longleftrightarrow> below (rt @ [''users'', u]) q" if "q \<in> fst ` set (fs_files f)" for q
  proof
    assume "in_tree rt u q"
    then obtain r where q: "q = (rt @ [''users'', u]) @ r" unfolding in_tree_def by (metis append_take_drop_id)
    have "q \<noteq> rt @ [''users'', u]" using ok that by (auto simp: proper_tree_def)
    then show "below (rt @ [''users'', u]) q" unfolding q by (cases r) (simp_all add: below_def)
  qed (use below_tree [of rt u "[]"] in simp)
  have none: "filter (\<lambda>x. in_tree rt u (fst x)) (fs_files f) = []" if absent: "\<not> path_exists f (rt @ [''users'', u])"
  proof -
    have "\<not> below (rt @ [''users'', u]) q" if q: "q \<in> fst ` set (fs_files f)" for q
    proof
      assume b: "below (rt @ [''users'', u]) q"
      then have "take (length (rt @ [''users'', u])) q \<in> set (parents q)"
        unfolding below_def parents_def set_map set_upt by (intro imageI) simp
      with b have "rt @ [''users'', u] \<in> set (parents q)" by (simp add: below_def)
      then have "rt @ [''users'', u] \<in> set (fs_dirs f)" using ok q by (auto simp: proper_tree_def fs_ok_def)
      with absent show False by (simp add: path_exists_def)
    qed
    with tree show ?thesis by (auto simp: filter_empty_conv)
  qed
  have same: "filter (\<lambda>x. in_tree rt u (fst x)) (fs_files f) = filter (\<lambda>x. below (rt @ [''users'', u]) (fst x)) (fs_files f)"
    by (rule filter_cong) (use tree in auto)
  show "tree_files rt u f' = [] \<and> n = length (tree_files rt u f)"
  proof (cases "path_exists f (rt @ [''users'', u])")
    case True
    with p user_root [OF u] have f': "f' = f\<lparr>fs_files := filter (\<lambda>x. \<not> below (rt @ [''users'', u]) (fst x)) (fs_files f)\<rparr>"
        "n = length (filter (\<lambda>x. below (rt @ [''users'', u]) (fst x)) (fs_files f))"
      by (auto simp: purge_files_def service_delete_prefix_def local_delete_prefix_def)
    then show ?thesis using tree by (auto simp: tree_files_def filter_empty_conv same)
  next
    case False
    with p user_root [OF u] none show ?thesis
      by (auto simp: purge_files_def service_delete_prefix_def local_delete_prefix_def tree_files_def)
  qed
next
  fix f u v assume "proper_tree rt f" "simple_id u" "simple_id v" "u \<noteq> v"
  moreover have "clean_key (user_prefix u @ ''/'')" if "simple_id u" for u
    using that split_on_append [of "CHR ''/''" "''users''" "u @ ''/''"] split_on_append [of "CHR ''/''" u "[]"]
    by (auto simp: clean_key_def simple_id_def user_prefix_def)
  ultimately show "tree_files rt v (fst (purge_files rt u f)) = tree_files rt v f"
    unfolding purge_files_def using tenant_isolated_prefix by blast
next
  fix f u assume "proper_tree rt f"
  then show "proper_tree rt (fst (purge_files rt u f))"
    by (auto simp: purge_files_def service_delete_prefix_def local_delete_prefix_def proper_tree_def
        intro: fs_ok_filter split: sum.split)
qed

lemma service_put_reads:
  assumes "simple_id u" and "clean_key key" and "service_put rt u key data ct f = (f', Inr obj)"
  shows "service_get rt u key f' = Inr data"
    and "resolve_path rt k \<noteq> resolve_path rt key \<Longrightarrow> service_get rt u k f' = service_get rt u k f"
    and "\<exists>p. tenant_check u key = Inr key \<and> local_path rt key = Inr p \<and> so_size obj = length data
      \<and> (\<forall>q. map_of (fs_files f') q = (if q = p then Some data else map_of (fs_files f) q))"
proof -
  obtain k where Inr: "tenant_check u key = Inr k"
    using assms(3) by (cases "tenant_check u key") (simp_all add: service_put_def)
  from tenant_path [OF assms(1,2) Inr, of rt] obtain xs where k: "k = key"
      and p: "local_path rt key = Inr (rt @ ''users'' # u # xs)" by blast
  let ?p = "rt @ ''users'' # u # xs"
  have res: "resolve_path rt key = ?p" using p by (simp add: local_path_def Let_def split: if_splits)
  have f': "fs_files f' = (?p, data) # filter (\<lambda>x. fst x \<noteq> ?p) (fs_files f)" "so_size obj = length data"
    using assms(3) Inr p by (auto simp: service_put_def local_put_def Let_def k split: if_splits)
  have m: "map_of (fs_files f') q = (if q = ?p then Some data else map_of (fs_files f) q)" for q
    by (simp add: f'(1) map_of_filter_key [of "\<lambda>q. q \<noteq> ?p"])
  show "service_get rt u key f' = Inr data" using Inr p m by (simp add: service_get_def local_get_def k)
  show "service_get rt u k2 f' = service_get rt u k2 f" if "resolve_path rt k2 \<noteq> resolve_path rt key" for k2
  proof -
    have "local_get rt k2 f' = local_get rt k2 f"
      using that m unfolding res by (simp add: local_get_def local_path_def Let_def)
    then show ?thesis by (auto simp: service_get_def tenant_check_def)
  qed
  show "\<exists>p. tenant_check u key = Inr key \<and> local_path rt key = Inr p \<and> so_size obj = length data
      \<and> (\<forall>q. map_of (fs_files f') q = (if q = p then Some data else map_of (fs_files f) q))"
    using Inr p m f'(2) k by blast
qed

text \<open>
  a file that was stored is read back unchanged under its key until it is deleted, and storing it
  changes no file under a key that leads elsewhere.
\<close>

theorem storage_round_trip:
  assumes "simple_id u" and "clean_key key" and "service_put rt u key data ct f = (f', Inr obj)"
  shows "service_get rt u key f' = Inr data \<and> so_size obj = length data
    \<and> (\<forall>k. resolve_path rt k \<noteq> resolve_path rt key \<longrightarrow> service_get rt u k f' = service_get rt u k f)
    \<and> (\<exists>f'' e. service_delete rt u key f' = (f'', Inr ()) \<and> service_get rt u key f'' = Inl e)"
proof -
  note reads = service_put_reads [OF assms]
  obtain p where p: "tenant_check u key = Inr key" "local_path rt key = Inr p" "so_size obj = length data"
      "\<And>q. map_of (fs_files f') q = (if q = p then Some data else map_of (fs_files f) q)"
    using reads(3) by blast
  have "service_delete rt u key f' = (f'\<lparr>fs_files := filter (\<lambda>x. fst x \<noteq> p) (fs_files f')\<rparr>, Inr ())"
    using p by (simp add: service_delete_def local_delete_def is_file_def)
  moreover have "\<exists>e. service_get rt u key (f'\<lparr>fs_files := filter (\<lambda>x. fst x \<noteq> p) (fs_files f')\<rparr>) = Inl e"
    using p by (simp add: service_get_def local_get_def map_of_filter_key [of "\<lambda>q. q \<noteq> p"])
  ultimately show ?thesis using p(3) reads(1,2) by blast
qed

theorem storage_round_trip_witness:
  "service_get [''data''] ''u1'' (upload_key ''u1'' ''r1'' ''pdf'')
     (fst (service_put [''data''] ''u1'' (upload_key ''u1'' ''r1'' ''pdf'') ''bytes'' ''application/pdf'' sample_fs)) = Inr ''bytes''"
proof -
  have "\<exists>f' obj. service_put [''data''] ''u1'' (upload_key ''u1'' ''r1'' ''pdf'') ''bytes'' ''application/pdf'' sample_fs = (f', Inr obj)"
    by (simp add: service_put_def local_put_def local_path_def resolve_path_def path_str_def has_prefix_def tenant_check_def
        upload_key_def user_prefix_def parents_def is_file_def sample_fs_def Let_def)
  then obtain f' obj where put: "service_put [''data''] ''u1'' (upload_key ''u1'' ''r1'' ''pdf'') ''bytes'' ''application/pdf'' sample_fs
      = (f', Inr obj)" by blast
  have "service_get [''data''] ''u1'' (upload_key ''u1'' ''r1'' ''pdf'') f' = Inr ''bytes''"
    by (rule storage_round_trip [OF _ _ put, THEN conjunct1])
       (simp_all add: simple_id_def clean_key_def upload_key_def user_prefix_def)
  with put show ?thesis by simp
qed

end
