(* ===== verification/Account.thy ===== *)
theory Account
  imports Storage Models
begin

text \<open>
  The life cycle of an account (\<^verbatim>\<open>services/account.py\<close>) and the daily purge of the worker
  (\<^verbatim>\<open>purge_deleted_accounts\<close> in \<^verbatim>\<open>workers/tasks.py\<close>), over any file store with the interface
  \<open>user_files\<close>; and the fixed-window rate limiter (\<^verbatim>\<open>core/ratelimit.py\<close>).
\<close>

section \<open>Hard deletion\<close>

record purge_result =
  pu_rows_deleted :: nat
  pu_files_removed :: nat
  pu_purged :: nat

definition PURGE_GRACE_DAYS :: int where "PURGE_GRACE_DAYS = 30"

text \<open>A \<^verbatim>\<open>DELETE ... WHERE user_id = :u\<close> and its row count.\<close>

definition delete_rows :: "('r \<Rightarrow> str) \<Rightarrow> str \<Rightarrow> 'r list \<Rightarrow> 'r list \<times> nat" where
  "delete_rows owner u rows =
     (filter (\<lambda>r. owner r \<noteq> u) rows, length (filter (\<lambda>r. owner r = u) rows))"

text \<open>
  The deletes in the order of \<^verbatim>\<open>_OWNED_MODELS_IN_DELETE_ORDER\<close>, each adding its row count, then the
  user's row, which is not counted.
\<close>

definition delete_owned :: "str \<Rightarrow> db \<Rightarrow> db \<times> nat" where
  "delete_owned u d =
     (let (vs, n1) = delete_rows rv_user u (verdicts d);
          (ds, n2) = delete_rows rd_user u (diagnoses d);
          (ts, n3) = delete_rows tj_user u (trajectories d);
          (as, n4) = delete_rows a_user u (applications d);
          (rs, n5) = delete_rows r_user u (resumes d);
          (js, n6) = delete_rows j_user u (jobs d);
          (ls, n7) = delete_rows lu_user u (llm_usages d);
          (cs, n8) = delete_rows uc_user u (credentials d);
          (gs, n9) = delete_rows lc_user u (llm_configs d);
          (ss, n10) = delete_rows us_user u (settings_rows d);
          (ps, n11) = delete_rows ps_user u (platform_sessions d);
          (ks, n12) = delete_rows rt_user u (refresh_tokens d)
      in (d\<lparr>verdicts := vs, diagnoses := ds, trajectories := ts, applications := as, resumes := rs, jobs := js,
            llm_usages := ls, credentials := cs, llm_configs := gs, settings_rows := ss,
            platform_sessions := ps, refresh_tokens := ks,
            users := filter (\<lambda>x. u_id x \<noteq> u) (users d)\<rparr>,
          n1 + n2 + n3 + n4 + n5 + n6 + n7 + n8 + n9 + n10 + n11 + n12))"

text \<open>\<open>purge\<close> removes the files under the user's prefix; its failure aborts before the database.\<close>

definition delete_user_data ::
  "(str \<Rightarrow> 'f \<Rightarrow> 'f \<times> (exn + nat)) \<Rightarrow> str \<Rightarrow> (db \<times> 'f, exn, purge_result) op" where
  "delete_user_data purge u w =
     (case purge u (snd w) of
        (f', Inl e) \<Rightarrow> ((fst w, f'), Inr \<lparr>pu_rows_deleted = 0, pu_files_removed = 0, pu_purged = 0\<rparr>)
      | (f', Inr files) \<Rightarrow>
         (case commit (fst (delete_owned u (fst w))) (fst w) of
            (d', Inl e) \<Rightarrow> ((d', f'), Inl e)
          | (d', Inr _) \<Rightarrow>
              ((d', f'), Inr \<lparr>pu_rows_deleted = snd (delete_owned u (fst w)), pu_files_removed = files, pu_purged = 1\<rparr>)))"

section \<open>The daily purge\<close>

fun purge_each ::
  "(str \<Rightarrow> 'f \<Rightarrow> 'f \<times> (exn + nat)) \<Rightarrow> str list \<Rightarrow> nat \<Rightarrow> (db \<times> 'f, exn, nat) op" where
  "purge_each purge [] n w = (w, Inr n)"
| "purge_each purge (u # us) n w =
     (case delete_user_data purge u w of
        (w', Inl e) \<Rightarrow> (w', Inl e)
      | (w', Inr r) \<Rightarrow> purge_each purge us (n + pu_purged r) w')"

definition expired_accounts :: "int \<Rightarrow> db \<Rightarrow> str list" where
  "expired_accounts now d =
     (let cutoff = now - PURGE_GRACE_DAYS * 86400
      in map u_id (filter (\<lambda>u. case u_deleted_at u of None \<Rightarrow> False | Some t \<Rightarrow> t < cutoff) (users d)))"

definition purge_deleted_accounts ::
  "(str \<Rightarrow> 'f \<Rightarrow> 'f \<times> (exn + nat)) \<Rightarrow> int \<Rightarrow> (db \<times> 'f, exn, nat) op" where
  "purge_deleted_accounts purge now w = purge_each purge (expired_accounts now (fst w)) 0 w"

section \<open>The rate limiter\<close>

text \<open>
  Redis counters with their expiry; \<open>None\<close> for an unavailable Redis. A counter past its expiry is gone.
\<close>

type_synonym redis = "(str \<times> nat \<times> nat option) list"

definition redis_get :: "redis \<Rightarrow> nat \<Rightarrow> str \<Rightarrow> nat" where
  "redis_get r now k =
     (case map_of r k of
        None \<Rightarrow> 0
      | Some (n, None) \<Rightarrow> n
      | Some (n, Some t) \<Rightarrow> if now < t then n else 0)"

definition redis_incr :: "redis \<Rightarrow> nat \<Rightarrow> str \<Rightarrow> redis \<times> nat" where
  "redis_incr r now k =
     (let n = redis_get r now k + 1;
          ttl = (if n = 1 then None else (case map_of r k of Some (_, t) \<Rightarrow> t | None \<Rightarrow> None))
      in ((k, n, ttl) # filter (\<lambda>x. fst x \<noteq> k) r, n))"

definition redis_expire :: "redis \<Rightarrow> nat \<Rightarrow> str \<Rightarrow> nat \<Rightarrow> redis" where
  "redis_expire r now k secs =
     map (\<lambda>(k', n, t). if k' = k then (k', n, Some (now + secs)) else (k', n, t)) r"

definition bucket :: "str \<Rightarrow> nat \<Rightarrow> nat \<Rightarrow> str" where
  "bucket key window now = ''ratelimit:'' @ key @ '':'' @ show_nat (now div window)"

definition rate_check :: "bool \<Rightarrow> str \<Rightarrow> nat \<Rightarrow> nat \<Rightarrow> nat \<Rightarrow> (redis option, exn, unit) op" where
  "rate_check production key limit window now ro =
     (case ro of
        None \<Rightarrow> (None, if production then Inl (RateLimitError ''Rate limiter unavailable'') else Inr ())
      | Some r \<Rightarrow>
         (let b = bucket key window now;
              (r1, count) = redis_incr r now b;
              r2 = (if count = 1 then redis_expire r1 now b window else r1)
          in (Some r2, if limit < count then Inl (RateLimitError ''Too many requests'') else Inr ())))"

definition rate_limit :: "bool \<Rightarrow> nat \<Rightarrow> nat \<Rightarrow> str option \<Rightarrow> str \<Rightarrow> nat \<Rightarrow> (redis option, exn, unit) op" where
  "rate_limit production limit window client_host url_path now ro =
     rate_check production
       ((case client_host of Some h \<Rightarrow> h | None \<Rightarrow> ''unknown'') @ '':'' @ url_path) limit window now ro"

section \<open>What a user owns\<close>

text \<open>The database restricted to the rows of one user, and their number, the user's own row included.\<close>

definition owned :: "str \<Rightarrow> db \<Rightarrow> db" where
  "owned v d =
     d\<lparr>verdicts := filter (\<lambda>r. rv_user r = v) (verdicts d), diagnoses := filter (\<lambda>r. rd_user r = v) (diagnoses d),
       trajectories := filter (\<lambda>r. tj_user r = v) (trajectories d),
       applications := filter (\<lambda>r. a_user r = v) (applications d), resumes := filter (\<lambda>r. r_user r = v) (resumes d),
       jobs := filter (\<lambda>r. j_user r = v) (jobs d), llm_usages := filter (\<lambda>r. lu_user r = v) (llm_usages d),
       credentials := filter (\<lambda>r. uc_user r = v) (credentials d),
       llm_configs := filter (\<lambda>r. lc_user r = v) (llm_configs d),
       settings_rows := filter (\<lambda>r. us_user r = v) (settings_rows d),
       platform_sessions := filter (\<lambda>r. ps_user r = v) (platform_sessions d),
       refresh_tokens := filter (\<lambda>r. rt_user r = v) (refresh_tokens d),
       users := filter (\<lambda>r. u_id r = v) (users d)\<rparr>"

definition owned_rows :: "str \<Rightarrow> db \<Rightarrow> nat" where
  "owned_rows v d =
     (let w = owned v d
      in length (verdicts w) + length (diagnoses w) + length (trajectories w) + length (applications w)
         + length (resumes w) + length (jobs w) + length (llm_usages w) + length (credentials w)
         + length (llm_configs w) + length (settings_rows w) + length (platform_sessions w)
         + length (refresh_tokens w))"

lemma filter_other: "v \<noteq> u \<Longrightarrow> filter (\<lambda>r. f r = v) (filter (\<lambda>r. f r \<noteq> u) xs) = filter (\<lambda>r. f r = v) xs"
  by (induction xs) auto

lemma delete_owned_other: "v \<noteq> u \<Longrightarrow> owned v (fst (delete_owned u d)) = owned v d"
  by (simp add: delete_owned_def delete_rows_def owned_def filter_other del: filter_filter)

lemma delete_owned_count: "snd (delete_owned u d) = owned_rows u d"
  by (simp add: delete_owned_def delete_rows_def owned_rows_def owned_def Let_def)

lemma delete_owned_own: "owned_rows u (fst (delete_owned u d)) = 0 \<and> users (owned u (fst (delete_owned u d))) = []"
  by (simp add: delete_owned_def delete_rows_def owned_rows_def owned_def Let_def)

lemma delete_owned_shared:
  "domain_skills (fst (delete_owned u d)) = domain_skills d \<and> skill_feedbacks (fst (delete_owned u d)) = skill_feedbacks d
   \<and> system_issues (fst (delete_owned u d)) = system_issues d \<and> reset_tokens (fst (delete_owned u d)) = reset_tokens d"
  by (simp add: delete_owned_def delete_rows_def)

lemma delete_owned_ok: "db_ok d \<Longrightarrow> db_ok (fst (delete_owned u d))"
  by (simp add: delete_owned_def delete_rows_def db_ok_def pk_ok_def uq_shared_def uq_app_active_job_def
      uq_job_platform_id_def uq_user_email_def distinct_map_filter filter_filter conj_commute)
     (elim conjE, rule distinct_map_filter_sub [where p = is_active_app], simp_all)

lemma delete_user_data_ok:
  assumes "db_ok d"
  shows "delete_user_data purge u (d, f) =
    (case purge u f of
       (f', Inl e) \<Rightarrow> ((d, f'), Inr \<lparr>pu_rows_deleted = 0, pu_files_removed = 0, pu_purged = 0\<rparr>)
     | (f', Inr n) \<Rightarrow> ((fst (delete_owned u d), f'), Inr \<lparr>pu_rows_deleted = owned_rows u d, pu_files_removed = n, pu_purged = 1\<rparr>))"
  using delete_owned_ok [OF assms, of u]
  by (simp add: delete_user_data_def commit_def delete_owned_count split: prod.split sum.split)

section \<open>Purging\<close>

text \<open>
  erasure is complete and confined. When the user's files are deleted, no file and no row of the
  twelve owned tables remains, nor the user's row, and the counts are those of what was there; every
  other user's rows and files and the shared skills are untouched. When the deletion of the files fails,
  the database is left as it was.
\<close>

theorem delete_user_data_erases:
  assumes "user_files ok valid files_of purge" and "ok f" and "valid u" and "db_ok d"
  shows "(\<forall>e. snd (purge u f) = Inl e \<longrightarrow>
        fst (fst (delete_user_data purge u (d, f))) = d
        \<and> snd (delete_user_data purge u (d, f)) = Inr \<lparr>pu_rows_deleted = 0, pu_files_removed = 0, pu_purged = 0\<rparr>)
    \<and> (\<forall>n. snd (purge u f) = Inr n \<longrightarrow>
        (\<exists>d' f'. delete_user_data purge u (d, f) = ((d', f'), Inr \<lparr>pu_rows_deleted = owned_rows u d,
              pu_files_removed = length (files_of u f), pu_purged = 1\<rparr>)
          \<and> db_ok d' \<and> owned_rows u d' = 0 \<and> users (owned u d') = [] \<and> files_of u f' = []
          \<and> domain_skills d' = domain_skills d
          \<and> (\<forall>v. v \<noteq> u \<and> valid v \<longrightarrow> owned v d' = owned v d \<and> files_of v f' = files_of v f)))"
proof (intro conjI allI impI)
  fix e assume "snd (purge u f) = Inl e"
  then show "fst (fst (delete_user_data purge u (d, f))) = d"
    and "snd (delete_user_data purge u (d, f)) = Inr \<lparr>pu_rows_deleted = 0, pu_files_removed = 0, pu_purged = 0\<rparr>"
    by (cases "purge u f"; simp add: delete_user_data_def)+
next
  fix n assume n: "snd (purge u f) = Inr n"
  obtain f' where f': "purge u f = (f', Inr n)" using n by (cases "purge u f") auto
  have own: "files_of u f' = [] \<and> n = length (files_of u f)"
    by (rule user_files.purge_own [OF assms(1,2,3) f'])
  have other: "files_of v f' = files_of v f" if "v \<noteq> u" "valid v" for v
    using user_files.purge_other [OF assms(1,2,3) that(2)] that(1) f' by auto
  let ?d = "fst (delete_owned u d)"
  have "delete_user_data purge u (d, f) = ((?d, f'), Inr \<lparr>pu_rows_deleted = owned_rows u d,
      pu_files_removed = length (files_of u f), pu_purged = 1\<rparr>)"
    using own by (simp add: delete_user_data_ok [OF assms(4)] f')
  moreover have "domain_skills ?d = domain_skills d" using delete_owned_shared by blast
  ultimately show "\<exists>d' f'. delete_user_data purge u (d, f) = ((d', f'), Inr \<lparr>pu_rows_deleted = owned_rows u d,
              pu_files_removed = length (files_of u f), pu_purged = 1\<rparr>)
          \<and> db_ok d' \<and> owned_rows u d' = 0 \<and> users (owned u d') = [] \<and> files_of u f' = []
          \<and> domain_skills d' = domain_skills d
          \<and> (\<forall>v. v \<noteq> u \<and> valid v \<longrightarrow> owned v d' = owned v d \<and> files_of v f' = files_of v f)"
    using own other delete_owned_own [of u d] delete_owned_other [of _ u d] delete_owned_ok [OF assms(4)] by blast
qed

definition sample_account :: "str \<Rightarrow> int option \<Rightarrow> user" where
  "sample_account i deleted =
     \<lparr>u_id = i, u_email = i @ ''@x.io'', u_hashed_password = None, u_full_name = None, u_is_active = True,
      u_is_superuser = False, u_deleted_at = deleted\<rparr>"

definition two_accounts_db :: db where
  "two_accounts_db = empty_db\<lparr>users := [sample_account ''u1'' (Some 0), sample_account ''u2'' None]\<rparr>"

lemma two_accounts_ok: "db_ok two_accounts_db"
  by (simp add: two_accounts_db_def sample_account_def db_ok_def pk_ok_def uq_app_active_job_def uq_job_platform_id_def
      uq_user_email_def uq_shared_def empty_db_def)

lemma sample_fs_proper: "proper_tree [''data''] sample_fs"
proof -
  have "distinct (map fst (fs_files sample_fs))" by code_simp
  moreover have "list_all (\<lambda>x. list_all (\<lambda>q. q \<in> set (fs_dirs sample_fs)) (parents (fst x))) (fs_files sample_fs)"
    by code_simp
  ultimately have "fs_ok sample_fs" by (auto simp: fs_ok_def list_all_iff)
  moreover have "\<forall>p \<in> fst ` set (fs_files sample_fs). \<forall>u. p \<noteq> [''data''] @ [''users'', u]" by (simp add: sample_fs_def)
  ultimately show ?thesis by (simp add: proper_tree_def)
qed

theorem delete_user_data_erases_witness:
  "\<exists>d' f'. delete_user_data (purge_files [''data'']) ''u1'' (two_accounts_db, sample_fs) =
       ((d', f'), Inr \<lparr>pu_rows_deleted = 0, pu_files_removed = 1, pu_purged = 1\<rparr>)
     \<and> tree_files [''data''] ''u1'' f' = [] \<and> map u_id (users (owned ''u2'' d')) = [''u2'']"
proof -
  have v: "simple_id ''u1''" "simple_id ''u2''" by (simp_all add: simple_id_def)
  have ne: "''u2'' \<noteq> ''u1''" by simp
  have found: "path_exists sample_fs [''data'', ''users'', ''u1'']"
    "length (filter (\<lambda>x. below [''data'', ''users'', ''u1''] (fst x)) (fs_files sample_fs)) = 1"
    by (simp_all add: path_exists_def sample_fs_def below_def)
  have "snd (purge_files [''data''] ''u1'' sample_fs) = Inr 1"
    using user_root [OF v(1), of "[''data'']"] found
    by (simp add: purge_files_def service_delete_prefix_def local_delete_prefix_def)
  from delete_user_data_erases [of "proper_tree [''data'']" simple_id "tree_files [''data'']" "purge_files [''data'']"
      sample_fs "''u1''" two_accounts_db, OF local_files.user_files_axioms sample_fs_proper v(1) two_accounts_ok,
      THEN conjunct2, rule_format, OF this]
  obtain d' f' where r: "delete_user_data (purge_files [''data'']) ''u1'' (two_accounts_db, sample_fs) =
        ((d', f'), Inr \<lparr>pu_rows_deleted = owned_rows ''u1'' two_accounts_db,
            pu_files_removed = length (tree_files [''data''] ''u1'' sample_fs), pu_purged = 1\<rparr>)"
      "tree_files [''data''] ''u1'' f' = []"
      "\<forall>v. v \<noteq> ''u1'' \<and> simple_id v \<longrightarrow>
         owned v d' = owned v two_accounts_db \<and> tree_files [''data''] v f' = tree_files [''data''] v sample_fs"
    by (elim exE conjE) (rule that)
  have other: "owned ''u2'' d' = owned ''u2'' two_accounts_db"
    using r(3) [rule_format, OF conjI, OF ne v(2)] by (rule conjunct1)
  have "owned_rows ''u1'' two_accounts_db = 0"
    by (simp add: owned_rows_def owned_def two_accounts_db_def empty_db_def)
  moreover have "length (tree_files [''data''] ''u1'' sample_fs) = 1"
    by (simp add: tree_files_def sample_fs_def in_tree_def)
  moreover have "map u_id (users (owned ''u2'' two_accounts_db)) = [''u2'']"
    by (simp add: owned_def two_accounts_db_def sample_account_def)
  ultimately have "delete_user_data (purge_files [''data'']) ''u1'' (two_accounts_db, sample_fs) =
       ((d', f'), Inr \<lparr>pu_rows_deleted = 0, pu_files_removed = 1, pu_purged = 1\<rparr>)
     \<and> tree_files [''data''] ''u1'' f' = [] \<and> map u_id (users (owned ''u2'' d')) = [''u2'']"
    unfolding other using r(1,2) by simp
  then show ?thesis by (intro exI)
qed

context user_files begin

lemma purge_each_all:
  assumes "distinct us" and "\<forall>u \<in> set us. valid u" and "ok f" and "db_ok d"
    and "\<forall>u f. ok f \<and> valid u \<longrightarrow> (\<exists>n. snd (purge u f) = Inr n)"
  shows "\<exists>d' f'. purge_each purge us n (d, f) = ((d', f'), Inr (n + length us))
    \<and> (\<forall>u \<in> set us. owned_rows u d' = 0 \<and> files_of u f' = [])
    \<and> (\<forall>v. valid v \<and> v \<notin> set us \<longrightarrow> owned v d' = owned v d \<and> files_of v f' = files_of v f)
    \<and> users d' = filter (\<lambda>x. u_id x \<notin> set us) (users d)"
  using assms(1-4)
proof (induction us arbitrary: n d f)
  case (Cons u us)
  obtain f1 m where f1: "purge u f = (f1, Inr m)" using assms(5) [rule_format, of f u] Cons.prems(2,3) by (cases "purge u f") auto
  let ?d1 = "fst (delete_owned u d)"
  have one: "delete_user_data purge u (d, f) = ((?d1, f1), Inr \<lparr>pu_rows_deleted = owned_rows u d, pu_files_removed = m, pu_purged = 1\<rparr>)"
    by (simp add: delete_user_data_ok [OF Cons.prems(4)] f1)
  have "ok f1" using purge_ok [OF Cons.prems(3), of u] f1 by simp
  with Cons.IH [of f1 ?d1 "n + 1"] Cons.prems delete_owned_ok [OF Cons.prems(4), of u]
  obtain d' f' where IH: "purge_each purge us (n + 1) (?d1, f1) = ((d', f'), Inr (n + 1 + length us))"
      "\<forall>u \<in> set us. owned_rows u d' = 0 \<and> files_of u f' = []"
      "\<forall>v. valid v \<and> v \<notin> set us \<longrightarrow> owned v d' = owned v ?d1 \<and> files_of v f' = files_of v f1"
      "users d' = filter (\<lambda>x. u_id x \<notin> set us) (users ?d1)" by auto
  have u: "valid u" "u \<notin> set us" using Cons.prems by auto
  have gone: "owned_rows u d' = 0 \<and> files_of u f' = []"
  proof -
    have "owned u d' = owned u ?d1" "files_of u f' = files_of u f1" using IH(3) u by auto
    then show ?thesis
      using delete_owned_own [of u d] purge_own [OF Cons.prems(3) u(1) f1] by (simp add: owned_rows_def)
  qed
  have kept: "owned v d' = owned v d \<and> files_of v f' = files_of v f" if "valid v" "v \<noteq> u" "v \<notin> set us" for v
    using IH(3) that delete_owned_other [OF that(2), of d] purge_other [OF Cons.prems(3) u(1) that(1)] f1 by auto
  have us: "users d' = filter (\<lambda>x. u_id x \<notin> set (u # us)) (users d)"
    using IH(4) by (simp add: delete_owned_def delete_rows_def conj_commute)
  have "purge_each purge (u # us) n (d, f) = ((d', f'), Inr (n + length (u # us)))"
    by (simp add: one IH(1) [simplified])
  then show ?case using IH(2) gone kept us by (intro exI [of _ d'] exI [of _ f']) simp
qed simp

end



section \<open>Throttling\<close>

text \<open>The admissions of a series of checks with one key.\<close>

fun admissions :: "bool \<Rightarrow> str \<Rightarrow> nat \<Rightarrow> nat \<Rightarrow> nat list \<Rightarrow> redis option \<Rightarrow> bool list" where
  "admissions production key limit window [] r = []"
| "admissions production key limit window (t # ts) r =
     (case rate_check production key limit window t r of
        (r', out) \<Rightarrow> (out = Inr ()) # admissions production key limit window ts r')"

lemma map_of_expire: "map_of (redis_expire r now k secs) k' =
    (case map_of r k' of None \<Rightarrow> None | Some (n, t) \<Rightarrow> Some (n, if k' = k then Some (now + secs) else t))"
  by (induction r) (auto simp: redis_expire_def)

lemma map_of_incr:
  "map_of (fst (redis_incr r now k)) k =
     Some (redis_get r now k + 1, if redis_get r now k = 0 then None else (case map_of r k of Some (_, t) \<Rightarrow> t | None \<Rightarrow> None))"
  by (simp add: redis_incr_def Let_def)

lemma rate_check_counts:
  assumes "map_of r (bucket key window now) = Some (n, Some e)" and "now < e" and "0 < n"
  shows "\<exists>r'. rate_check production key limit window now (Some r) =
      (Some r', if limit < Suc n then Inl (RateLimitError ''Too many requests'') else Inr ())
    \<and> map_of r' (bucket key window now) = Some (Suc n, Some e)"
  using assms map_of_incr [of r now "bucket key window now"]
  by (simp add: rate_check_def redis_incr_def redis_get_def Let_def)

lemma rate_check_first:
  assumes "redis_get r now (bucket key window now) = 0"
  shows "\<exists>r'. rate_check production key limit window now (Some r) =
      (Some r', if limit < 1 then Inl (RateLimitError ''Too many requests'') else Inr ())
    \<and> map_of r' (bucket key window now) = Some (1, Some (now + window))"
  using assms by (simp add: rate_check_def redis_incr_def Let_def map_of_expire)

lemma admissions_counting:
  assumes "map_of r (bucket key window t0) = Some (n, Some e)" and "0 < n"
    and "\<forall>t \<in> set ts. t div window = t0 div window \<and> t < e"
  shows "admissions production key limit window ts (Some r) = map (\<lambda>i. n + i < limit) [0..<length ts]"
  using assms
proof (induction ts arbitrary: r n)
  case (Cons t ts)
  have b: "bucket key window t = bucket key window t0" using Cons.prems(3) by (simp add: bucket_def)
  from rate_check_counts [of r key window t n e production limit] Cons.prems b
  obtain r' where r': "rate_check production key limit window t (Some r) =
        (Some r', if limit < Suc n then Inl (RateLimitError ''Too many requests'') else Inr ())"
      "map_of r' (bucket key window t0) = Some (Suc n, Some e)" by auto
  have "admissions production key limit window ts (Some r') = map (\<lambda>i. Suc n + i < limit) [0..<length ts]"
    using Cons.prems r'(2) by (intro Cons.IH) auto
  then show ?case by (simp add: r'(1) map_upt_Suc Suc_le_eq del: upt_Suc)
qed simp

text \<open>
  within one window the limiter admits exactly the first \<open>limit\<close> of the requests of a client to a
  route, however many arrive; and without Redis it admits all of them in development and none in
  production.
\<close>

theorem rate_limit_window:
  assumes "redis_get r t (bucket key window t) = 0" and "\<forall>x \<in> set ts. x div window = t div window \<and> t \<le> x" and "0 < window"
  shows "admissions production key limit window (t # ts) (Some r) = map (\<lambda>i. i < limit) [0..<Suc (length ts)]
    \<and> admissions production key limit window ts None = replicate (length ts) (\<not> production)"
proof
  obtain r' where r': "rate_check production key limit window t (Some r) =
      (Some r', if limit < 1 then Inl (RateLimitError ''Too many requests'') else Inr ())"
      "map_of r' (bucket key window t) = Some (1, Some (t + window))"
    using rate_check_first [OF assms(1)] by blast
  have "x < t + window" if "x div window = t div window" for x
    using that assms(3) by (metis div_less_iff_less_mult dividend_less_times_div less_add_same_cancel2 mod_less_divisor
        mult.commute mult_div_mod_eq nat_add_left_cancel_less order_less_le_trans le_add1 add.commute)
  then have "admissions production key limit window ts (Some r') = map (\<lambda>i. 1 + i < limit) [0..<length ts]"
    using assms(2) r'(2) by (intro admissions_counting [where e = "t + window"]) auto
  then show "admissions production key limit window (t # ts) (Some r) = map (\<lambda>i. i < limit) [0..<Suc (length ts)]"
    by (simp add: r'(1) map_upt_Suc del: upt_Suc)
  show "admissions production key limit window ts None = replicate (length ts) (\<not> production)"
    by (induction ts) (simp_all add: rate_check_def)
qed

theorem rate_limit_window_witness:
  "admissions True ''1.2.3.4:/login'' 2 60 [120, 125, 130] (Some []) = [True, True, False]"
  using rate_limit_window [of "[]" 120 "''1.2.3.4:/login''" 60 "[125, 130]" True 2]
  by (simp add: redis_get_def upt_rec)

end
