(* ===== verification/Difflib.thy ===== *)
theory Difflib
  imports Prelude Complex_Main
begin

text \<open>
  \<^verbatim>\<open>difflib.SequenceMatcher(None, a, b).ratio()\<close> of Python's standard library, which the skill
  matcher's fuzzy comparison calls: the longest matching block by dynamic programming over the
  characters that are not popular, its extension, and the recursion on both sides.
\<close>

section \<open>The longest matching block\<close>

text \<open>The automatic junk heuristic: in a second string of 200 characters or more, a character that
  makes up more than one per cent of it is not used as a starting point.\<close>

definition popular :: "str \<Rightarrow> char \<Rightarrow> bool" where
  "popular b c \<longleftrightarrow> 200 \<le> length b \<and> length b div 100 + 1 < count_list b c"

text \<open>
  A row of the table for one character of the first string: at each position of the second the
  length of the common run that ends there. \<open>diag\<close> is the previous row's entry one to the left.
\<close>

fun next_row :: "(char \<Rightarrow> bool) \<Rightarrow> char \<Rightarrow> str \<Rightarrow> nat list \<Rightarrow> nat \<Rightarrow> nat list" where
  "next_row pop c [] prev diag = []"
| "next_row pop c (x # xs) prev diag =
     (if x = c \<and> \<not> pop x then Suc diag else 0)
       # next_row pop c xs (tl prev) (case prev of [] \<Rightarrow> 0 | k # _ \<Rightarrow> k)"

text \<open>The best block so far, replaced only by a longer one, in the order of the positions.\<close>

fun scan_row :: "nat \<Rightarrow> nat \<Rightarrow> nat list \<Rightarrow> nat \<times> nat \<times> nat \<Rightarrow> nat \<times> nat \<times> nat" where
  "scan_row i j [] best = best"
| "scan_row i j (k # ks) best =
     scan_row i (Suc j) ks (if snd (snd best) < k then (Suc i - k, Suc j - k, k) else best)"

fun scan_rows :: "(char \<Rightarrow> bool) \<Rightarrow> nat \<Rightarrow> str \<Rightarrow> str \<Rightarrow> nat list \<Rightarrow> nat \<times> nat \<times> nat \<Rightarrow> nat \<times> nat \<times> nat" where
  "scan_rows pop i [] bs prev best = best"
| "scan_rows pop i (c # cs) bs prev best =
     (let row = next_row pop c bs prev 0
      in scan_rows pop (Suc i) cs bs row (scan_row i 0 row best))"

fun extend_left :: "str \<Rightarrow> str \<Rightarrow> nat \<times> nat \<times> nat \<Rightarrow> nat \<times> nat \<times> nat" where
  "extend_left as bs (Suc i, Suc j, k) =
     (if as ! i = bs ! j then extend_left as bs (i, j, Suc k) else (Suc i, Suc j, k))"
| "extend_left as bs (i, j, k) = (i, j, k)"

fun extend_right :: "str \<Rightarrow> str \<Rightarrow> nat" where
  "extend_right (x # xs) (y # ys) = (if x = y then Suc (extend_right xs ys) else 0)"
| "extend_right _ _ = 0"

definition longest_match :: "(char \<Rightarrow> bool) \<Rightarrow> str \<Rightarrow> str \<Rightarrow> nat \<times> nat \<times> nat" where
  "longest_match pop as bs =
     (let (i, j, k) = extend_left as bs (scan_rows pop 0 as bs [] (0, 0, 0))
      in (i, j, k + extend_right (drop (i + k) as) (drop (j + k) bs)))"

section \<open>Bounds of a block\<close>

definition in_bounds :: "nat \<Rightarrow> nat \<Rightarrow> nat \<times> nat \<times> nat \<Rightarrow> bool" where
  "in_bounds n m b = (case b of (i, j, k) \<Rightarrow> i + k \<le> n \<and> j + k \<le> m)"

lemma length_next_row [simp]: "length (next_row pop c bs prev diag) = length bs"
  by (induction bs arbitrary: prev diag) simp_all

text \<open>An entry is at most its position's and its row's number.\<close>

definition row_ok :: "nat \<Rightarrow> nat \<Rightarrow> nat list \<Rightarrow> bool" where
  "row_ok i j0 row \<longleftrightarrow> (\<forall>j < length row. row ! j \<le> i \<and> row ! j \<le> Suc (j0 + j))"

lemma row_ok_Cons: "row_ok i j0 (k # ks) \<longleftrightarrow> k \<le> i \<and> k \<le> Suc j0 \<and> row_ok i (Suc j0) ks"
  by (auto simp: row_ok_def nth_Cons split: nat.splits)

lemma row_ok_Nil [simp]: "row_ok i j0 []"
  by (simp add: row_ok_def)

lemma row_ok_next:
  assumes "row_ok i j0 prev" and "diag \<le> i" and "diag \<le> j0"
  shows "row_ok (Suc i) j0 (next_row pop c bs prev diag)"
  using assms
proof (induction bs arbitrary: prev diag j0)
  case (Cons x xs)
  have "row_ok (Suc i) (Suc j0) (next_row pop c xs (tl prev) (case prev of [] \<Rightarrow> 0 | k # _ \<Rightarrow> k))"
    using Cons.prems by (intro Cons.IH) (cases prev; simp add: row_ok_Cons)+
  then show ?case using Cons.prems by (simp add: row_ok_Cons)
qed simp

lemma scan_row_bounds:
  assumes "row_ok (Suc i) j row" and "in_bounds n m best" and "Suc i \<le> n" and "j + length row \<le> m"
  shows "in_bounds n m (scan_row i j row best)"
  using assms
proof (induction row arbitrary: j best)
  case (Cons k ks)
  then show ?case by (auto simp: row_ok_Cons in_bounds_def split: prod.splits intro!: Cons.IH)
qed simp

lemma scan_rows_bounds:
  assumes "row_ok i 0 prev" and "in_bounds (i + length cs) (length bs) best"
  shows "in_bounds (i + length cs) (length bs) (scan_rows pop i cs bs prev best)"
  using assms
proof (induction cs arbitrary: i prev best)
  case (Cons c cs)
  let ?row = "next_row pop c bs prev 0"
  have row: "row_ok (Suc i) 0 ?row" using Cons.prems(1) by (rule row_ok_next) simp_all
  have "in_bounds (i + length (c # cs)) (length bs) (scan_row i 0 ?row best)"
    by (rule scan_row_bounds [OF row Cons.prems(2)]) simp_all
  then have "in_bounds (Suc i + length cs) (length bs) (scan_rows pop (Suc i) cs bs ?row (scan_row i 0 ?row best))"
    by (intro Cons.IH row) simp
  then show ?case by (simp add: Let_def)
qed simp

lemma extend_left_bounds: "in_bounds n m b \<Longrightarrow> in_bounds n m (extend_left as bs b)"
  by (induction as bs b rule: extend_left.induct) (auto simp: in_bounds_def)

lemma extend_right_bounds: "extend_right xs ys \<le> length xs \<and> extend_right xs ys \<le> length ys"
  by (induction xs ys rule: extend_right.induct) auto

lemma longest_match_bounds: "in_bounds (length as) (length bs) (longest_match pop as bs)"
proof -
  obtain i j k where b: "extend_left as bs (scan_rows pop 0 as bs [] (0, 0, 0)) = (i, j, k)"
    by (metis prod_cases3)
  have "in_bounds (0 + length as) (length bs) (scan_rows pop 0 as bs [] (0, 0, 0))"
    by (rule scan_rows_bounds) (simp_all add: in_bounds_def)
  then have "in_bounds (length as) (length bs) (i, j, k)"
    using extend_left_bounds [of "length as" "length bs" _ as bs] b by (metis add_0)
  then show ?thesis
    using extend_right_bounds [of "drop (i + k) as" "drop (j + k) bs"]
    by (auto simp: longest_match_def b in_bounds_def)
qed

lemma longest_match_shrinks:
  assumes "(i, j, k) = longest_match pop as bs" and "0 < k"
  shows "i < length as \<and> length as - (i + k) < length as"
  using longest_match_bounds [of as bs pop] assms by (auto simp: in_bounds_def split: prod.splits)

section \<open>The ratio\<close>

text \<open>The total size of the matching blocks.\<close>

function match_total :: "(char \<Rightarrow> bool) \<Rightarrow> str \<Rightarrow> str \<Rightarrow> nat" where
  "match_total pop as bs =
     (case longest_match pop as bs of
        (i, j, k) \<Rightarrow>
          if k = 0 then 0
          else match_total pop (take i as) (take j bs) + k + match_total pop (drop (i + k) as) (drop (j + k) bs))"
  by pat_completeness auto
termination
  by (relation "measure (\<lambda>(_, as, _). length as)") (auto dest!: longest_match_shrinks)

declare match_total.simps [simp del]

definition ratio :: "str \<Rightarrow> str \<Rightarrow> real" where
  "ratio a b =
     (if length a + length b = 0 then 1
      else 2 * real (match_total (popular b) a b) / real (length a + length b))"

lemma match_total_le: "match_total pop as bs \<le> length as \<and> match_total pop as bs \<le> length bs"
proof (induction pop as bs rule: match_total.induct)
  case (1 pop as bs)
  obtain i j k where l: "longest_match pop as bs = (i, j, k)" by (metis prod_cases3)
  have b: "i + k \<le> length as" "j + k \<le> length bs"
    using longest_match_bounds [of as bs pop] by (simp_all add: l in_bounds_def)
  show ?case
  proof (cases "k = 0")
    case False
    from "1.IH"(1) [OF l [symmetric] refl False] "1.IH"(2) [OF l [symmetric] refl False] b
    show ?thesis by (subst (1 2) match_total.simps) (auto simp: l)
  qed (simp add: match_total.simps [of pop as bs] l)
qed

lemma ratio_bounds: "0 \<le> ratio a b \<and> ratio a b \<le> 1"
proof -
  have "2 * real (match_total (popular b) a b) \<le> real (length a + length b)"
    using match_total_le [of "popular b" a b] by linarith
  then show ?thesis by (auto simp: ratio_def divide_le_eq)
qed

end
