(* ===== verification/Skills.thy ===== *)
theory Skills
  imports Regex Difflib
begin

text \<open>
  The skill matcher (\<^verbatim>\<open>core/ats/skill_matcher.py\<close>): the alias tables, normalisation, exact and fuzzy
  comparison, the extraction of skills from text and their categories. Text is Latin-1.
\<close>

section \<open>Tables\<close>

definition SKILL_VARIATIONS :: "(str \<times> str list) list" where
  "SKILL_VARIATIONS =
    [(''python'', [''python3'', ''python 3'', ''cpython'', ''python programming'']),
     (''javascript'', [''js'', ''ecmascript'', ''es6'', ''es2015'', ''vanilla js'']),
     (''typescript'', [''ts'', ''typescript programming'']),
     (''react'', [''reactjs'', ''react.js'', ''react js'']),
     (''angular'', [''angularjs'', ''angular.js'', ''angular 2+'']),
     (''vue'', [''vuejs'', ''vue.js'', ''vue 3'']),
     (''node'', [''nodejs'', ''node.js'', ''node js'']),
     (''express'', [''expressjs'', ''express.js'']),
     (''django'', [''django framework'', ''django python'']),
     (''flask'', [''flask framework'', ''flask python'']),
     (''fastapi'', [''fast api'', ''fastapi framework'']),
     (''sql'', [''structured query language'']),
     (''postgresql'', [''postgres'', ''psql'', ''pg'']),
     (''mongodb'', [''mongo'', ''mongo db'']),
     (''mysql'', [''my sql'', ''mariadb'']),
     (''redis'', [''redis db'', ''redis cache'']),
     (''docker'', [''docker container'', ''containerization'']),
     (''kubernetes'', [''k8s'', ''kube'']),
     (''aws'', [''amazon web services'', ''amazon aws'']),
     (''gcp'', [''google cloud'', ''google cloud platform'']),
     (''azure'', [''microsoft azure'', ''azure cloud'']),
     (''git'', [''github'', ''gitlab'', ''git version control'']),
     (''ci/cd'', [''cicd'', ''ci cd'', ''continuous integration'', ''continuous deployment'']),
     (''machine learning'', [''ml'', ''machine-learning'']),
     (''deep learning'', [''dl'', ''deep-learning'']),
     (''natural language processing'', [''nlp'', ''text mining'', ''text analytics'']),
     (''computer vision'', [''cv'', ''image recognition'', ''image processing'']),
     (''data science'', [''data analytics'', ''data analysis'']),
     (''tensorflow'', [''tf'', ''tensor flow'']),
     (''pytorch'', [''torch'', ''py torch'']),
     (''scikit-learn'', [''sklearn'', ''scikit learn'']),
     (''pandas'', [''pandas library'', ''python pandas'']),
     (''numpy'', [''np'', ''numerical python'']),
     (''html'', [''html5'', ''hypertext markup language'']),
     (''css'', [''css3'', ''cascading style sheets'', ''stylesheets'']),
     (''rest'', [''restful'', ''rest api'', ''restful api'']),
     (''graphql'', [''graph ql'', ''gql'']),
     (''agile'', [''scrum'', ''kanban'', ''agile methodology'']),
     (''devops'', [''dev ops'', ''development operations'']),
     (''linux'', [''unix'', ''ubuntu'', ''centos'', ''debian'']),
     (''java'', [''java programming'', ''java se'', ''java ee'']),
     (''c++'', [''cpp'', ''cplusplus'', ''c plus plus'']),
     (''c#'', [''csharp'', ''c sharp'', ''dotnet'', ''.net'']),
     (''go'', [''golang'', ''go programming'']),
     (''rust'', [''rust programming'', ''rust lang'']),
     (''swift'', [''swift programming'', ''swift language'']),
     (''kotlin'', [''kotlin programming'', ''kotlin language'']),
     (''r'', [''r programming'', ''r language'', ''r stats''])]"

definition SKILL_CATEGORIES :: "(str \<times> str list) list" where
  "SKILL_CATEGORIES =
    [(''programming_languages'',
       [''python'', ''javascript'', ''typescript'', ''java'', ''c++'', ''c#'', ''go'', ''rust'', ''swift'',
       ''kotlin'', ''r'', ''ruby'', ''php'', ''scala'']),
     (''web_frameworks'',
       [''react'', ''angular'', ''vue'', ''django'', ''flask'', ''fastapi'', ''express'', ''node'',
       ''next.js'', ''nuxt.js'', ''spring'']),
     (''databases'',
       [''sql'', ''postgresql'', ''mongodb'', ''mysql'', ''redis'', ''elasticsearch'', ''cassandra'',
       ''dynamodb'', ''sqlite'']),
     (''cloud_devops'',
       [''aws'', ''gcp'', ''azure'', ''docker'', ''kubernetes'', ''ci/cd'', ''terraform'', ''ansible'',
       ''jenkins'', ''linux'', ''devops'']),
     (''data_ml'',
       [''machine learning'', ''deep learning'', ''natural language processing'', ''computer vision'',
       ''data science'', ''tensorflow'', ''pytorch'', ''scikit-learn'', ''pandas'', ''numpy'', ''spark'',
       ''hadoop'']),
     (''soft_skills'',
       [''agile'', ''leadership'', ''communication'', ''teamwork'', ''problem solving'',
       ''project management'', ''mentoring''])]"

section \<open>Normalisation and comparison\<close>

text \<open>
  The reverse index, as pairs in the order of insertion; a later pair overrides an earlier one.
\<close>

definition variation_pairs :: "(str \<times> str) list" where
  "variation_pairs = concat (map (\<lambda>(c, vs). (c, c) # map (\<lambda>v. (v, c)) vs) SKILL_VARIATIONS)"

definition variation_index :: "str \<Rightarrow> str option" where
  "variation_index = map_of (rev variation_pairs)"

text \<open>The characters that \<^verbatim>\<open>[^\w\s/#+.]\<close> keeps.\<close>

definition skill_char :: "char \<Rightarrow> bool" where
  "skill_char c \<longleftrightarrow> is_word c \<or> is_space c \<or> c \<in> set ''/#+.''"

definition clean_skill :: "str \<Rightarrow> str" where
  "clean_skill s = strip (filter skill_char (lower s))"

definition normalize_skill :: "str \<Rightarrow> str" where
  "normalize_skill s =
     (case variation_index (clean_skill s) of None \<Rightarrow> clean_skill s | Some c \<Rightarrow> c)"

definition is_fuzzy_match :: "str \<Rightarrow> str \<Rightarrow> real \<Rightarrow> bool" where
  "is_fuzzy_match a b threshold \<longleftrightarrow> threshold \<le> ratio a b"

definition has_skill :: "str list \<Rightarrow> str \<Rightarrow> bool" where
  "has_skill candidate required \<longleftrightarrow>
     list_ex (\<lambda>s. normalize_skill s = normalize_skill required
       \<or> is_fuzzy_match (normalize_skill s) (normalize_skill required) (85 / 100)) candidate"

definition find_similar_skills :: "str \<Rightarrow> real \<Rightarrow> str list" where
  "find_similar_skills skill threshold =
     filter (\<lambda>c. c \<noteq> normalize_skill skill \<and> threshold \<le> ratio (normalize_skill skill) c)
       (map fst SKILL_VARIATIONS)"

section \<open>Extraction\<close>

text \<open>\<^verbatim>\<open>re.search(rf"\b{re.escape(term)}\b", text)\<close>.\<close>

definition word_rx :: "str \<Rightarrow> rx" where
  "word_rx t = RSeq RWordB (RSeq (RStr t) RWordB)"

definition word_present :: "str \<Rightarrow> str \<Rightarrow> bool" where
  "word_present t s \<longleftrightarrow> rx_search (word_rx t) s"

text \<open>The set of the canonical names found, here in the order of the table.\<close>

definition extract_skills :: "str \<Rightarrow> str list" where
  "extract_skills text =
     map fst (filter (\<lambda>(c, vs). word_present c (lower text) \<or> list_ex (\<lambda>v. word_present v (lower text)) vs)
       SKILL_VARIATIONS)"

text \<open>A category's list, in the order of the input; the first category that has the skill takes it.\<close>

definition category_of :: "str \<Rightarrow> str" where
  "category_of skill =
     (case List.find (\<lambda>(cat, members). normalize_skill skill \<in> set members) SKILL_CATEGORIES of
        Some (cat, _) \<Rightarrow> cat | None \<Rightarrow> ''other'')"

definition categorize_skills :: "str list \<Rightarrow> (str \<times> str list) list" where
  "categorize_skills skills =
     map (\<lambda>cat. (cat, filter (\<lambda>s. category_of s = cat) skills)) (map fst SKILL_CATEGORIES @ [''other''])"

section \<open>Comparison\<close>

lemma variation_index_unknown:
  assumes "list_all (\<lambda>e. s \<notin> set (fst e # snd e)) SKILL_VARIATIONS"
  shows "variation_index s = None"
  using assms by (auto simp: variation_index_def variation_pairs_def map_of_eq_None_iff list_all_iff)

lemma category_unknown:
  assumes "list_all (\<lambda>e. normalize_skill s \<notin> set (snd e)) SKILL_CATEGORIES"
  shows "category_of s = ''other''"
proof -
  have "List.find (\<lambda>(cat, members). normalize_skill s \<in> set members) SKILL_CATEGORIES = None"
    using assms by (auto simp: find_None_iff list_all_iff)
  then show ?thesis by (simp add: category_of_def)
qed

lemma has_skill_mono: "has_skill cs s \<Longrightarrow> set cs \<subseteq> set ds \<Longrightarrow> has_skill ds s"
  by (auto simp: has_skill_def list_ex_iff)

lemma has_skill_self: "s \<in> set cs \<Longrightarrow> has_skill cs s"
  by (auto simp: has_skill_def list_ex_iff)

lemma has_skill_alias: "normalize_skill s = normalize_skill t \<Longrightarrow> s \<in> set cs \<Longrightarrow> has_skill cs t"
  by (auto simp: has_skill_def list_ex_iff)

section \<open>Whole words\<close>

lemma matches_lit:
  "matches (RStr t) s i j \<longleftrightarrow> i \<le> length s \<and> j = i + length t \<and> take (length t) (drop i s) = t" if "i \<le> length s"
  using that
proof (induction t arbitrary: i)
  case Nil
  then show ?case by (auto elim: matches_elims intro: matches.eps)
next
  case (Cons c t)
  have step: "matches (RStr (c # t)) s i j \<longleftrightarrow> i < length s \<and> s ! i = c \<and> matches (RStr t) s (Suc i) j"
    by (auto simp: RLit_def elim!: matches_elims intro!: matches.seq [OF matches.chr])
  show ?case
  proof (cases "i < length s")
    case True
    with Cons.IH [of "Suc i"] show ?thesis unfolding step by (auto simp: take_Suc_conv_app_nth Cons_nth_drop_Suc [symmetric])
  next
    case False
    then show ?thesis unfolding step by simp
  qed
qed

lemma matches_word_rx:
  assumes "i \<le> length s"
  shows "matches (word_rx t) s i j \<longleftrightarrow>
    j = i + length t \<and> take (length t) (drop i s) = t \<and> at_boundary s i \<and> at_boundary s j"
proof
  assume "matches (word_rx t) s i j"
  then show "j = i + length t \<and> take (length t) (drop i s) = t \<and> at_boundary s i \<and> at_boundary s j"
    unfolding word_rx_def using matches_lit [OF assms] by (auto elim!: matches_elims)
next
  assume r: "j = i + length t \<and> take (length t) (drop i s) = t \<and> at_boundary s i \<and> at_boundary s j"
  then have m: "matches (RStr t) s i j" using matches_lit [OF assms, of t j] assms by simp
  from r have b: "at_boundary s i" "at_boundary s j" by blast+
  show "matches (word_rx t) s i j" unfolding word_rx_def
    by (rule matches.seq [OF matches.wordb [OF b(1)] matches.seq [OF m matches.wordb [OF b(2)]]])
qed

text \<open>The characters on both sides of a position in a split text.\<close>

lemma boundary_split:
  "at_boundary (pre @ rest) (length pre) \<longleftrightarrow>
     (rest \<noteq> [] \<and> is_word (hd rest)) \<noteq> (pre \<noteq> [] \<and> is_word (last pre))"
proof -
  have "word_at (pre @ rest) (length pre) \<longleftrightarrow> rest \<noteq> [] \<and> is_word (hd rest)"
    by (cases rest) (simp_all add: word_at_def nth_append)
  moreover have "0 < length pre \<and> word_at (pre @ rest) (length pre - 1) \<longleftrightarrow> pre \<noteq> [] \<and> is_word (last pre)"
    by (cases pre rule: rev_cases) (simp_all add: word_at_def nth_append)
  ultimately show ?thesis by (simp add: at_boundary_def)
qed

lemma word_present_iff:
  assumes "t \<noteq> []"
  shows "word_present t s \<longleftrightarrow>
    (\<exists>pre post. s = pre @ t @ post \<and> is_word (hd t) \<noteq> (pre \<noteq> [] \<and> is_word (last pre))
       \<and> is_word (last t) \<noteq> (post \<noteq> [] \<and> is_word (hd post)))"
proof
  assume "word_present t s"
  then obtain i j where i: "i \<le> length s" and m: "matches (word_rx t) s i j"
    by (auto simp: word_present_def rx_search_iff)
  let ?pre = "take i s" and ?post = "drop (i + length t) s"
  from m have r: "j = i + length t" "take (length t) (drop i s) = t" "at_boundary s i" "at_boundary s j"
    unfolding matches_word_rx [OF i] by auto
  then have s: "s = ?pre @ t @ ?post" by (metis append_take_drop_id drop_drop add.commute)
  have l: "length ?pre = i" using i by simp
  have "at_boundary (?pre @ (t @ ?post)) (length ?pre)" using r(3) s l by simp
  moreover have "at_boundary ((?pre @ t) @ ?post) (length (?pre @ t))" using r(1,4) s l by simp
  ultimately show "\<exists>pre post. s = pre @ t @ post \<and> is_word (hd t) \<noteq> (pre \<noteq> [] \<and> is_word (last pre))
       \<and> is_word (last t) \<noteq> (post \<noteq> [] \<and> is_word (hd post))"
    unfolding boundary_split using s assms by (intro exI [of _ ?pre] exI [of _ ?post]) auto
next
  assume "\<exists>pre post. s = pre @ t @ post \<and> is_word (hd t) \<noteq> (pre \<noteq> [] \<and> is_word (last pre))
       \<and> is_word (last t) \<noteq> (post \<noteq> [] \<and> is_word (hd post))"
  then obtain pre post where s: "s = pre @ t @ post" and b: "is_word (hd t) \<noteq> (pre \<noteq> [] \<and> is_word (last pre))"
      "is_word (last t) \<noteq> (post \<noteq> [] \<and> is_word (hd post))" by blast
  have "at_boundary (pre @ (t @ post)) (length pre)" unfolding boundary_split using b(1) assms by auto
  moreover have "at_boundary ((pre @ t) @ post) (length (pre @ t))" unfolding boundary_split using b(2) assms by auto
  ultimately have "matches (word_rx t) s (length pre) (length pre + length t)"
    unfolding s by (subst matches_word_rx) simp_all
  moreover have "length pre \<le> length s" by (simp add: s)
  ultimately show "word_present t s" by (auto simp: word_present_def rx_search_iff)
qed

section \<open>Properties\<close>

text \<open>A term stands in a text as a whole word: what both \<^verbatim>\<open>\b\<close> ask for, without the regex engine.\<close>

definition whole_word :: "str \<Rightarrow> str \<Rightarrow> bool" where
  "whole_word t s \<longleftrightarrow>
     (\<exists>pre post. s = pre @ t @ post \<and> is_word (hd t) \<noteq> (pre \<noteq> [] \<and> is_word (last pre))
       \<and> is_word (last t) \<noteq> (post \<noteq> [] \<and> is_word (hd post)))"

lemma word_present_whole: "t \<noteq> [] \<Longrightarrow> word_present t s = whole_word t s"
  unfolding whole_word_def by (rule word_present_iff)

lemma variations_nonempty: "list_all (\<lambda>(c, vs). c \<noteq> [] \<and> list_all (\<lambda>v. v \<noteq> []) vs) SKILL_VARIATIONS"
  by (simp add: SKILL_VARIATIONS_def)

lemma extract_skills_whole:
  "extract_skills x = map fst (filter (\<lambda>(c, vs). list_ex (\<lambda>t. whole_word t (lower x)) (c # vs)) SKILL_VARIATIONS)"
proof -
  have one: "word_present c y \<or> list_ex (\<lambda>v. word_present v y) vs \<longleftrightarrow> list_ex (\<lambda>t. whole_word t y) (c # vs)"
    if "(c, vs) \<in> set SKILL_VARIATIONS" for c vs y
  proof -
    have "c \<noteq> []" "\<forall>v \<in> set vs. v \<noteq> []" using that variations_nonempty by (auto simp: list_all_iff)
    then show ?thesis by (simp add: list_ex_iff word_present_whole)
  qed
  show ?thesis unfolding extract_skills_def using one [of _ _ "lower x"]
    by (intro arg_cong [where f = "map fst"] filter_cong) auto
qed

text \<open>
  extraction finds a canonical skill exactly when the skill or one of its aliases stands in the
  text as a whole word, whatever the case, and in the order of the table; so a longer text contains at least
  the skills of a text that it continues after a line break.
\<close>

theorem extract_skills_whole_words:
  "extract_skills text =
     map fst (filter (\<lambda>(c, vs). list_ex (\<lambda>t. whole_word t (lower text)) (c # vs)) SKILL_VARIATIONS)
   \<and> set (extract_skills text) \<subseteq> set (extract_skills (text @ CHR 10 # more))"
proof
  note eq = extract_skills_whole
  show "extract_skills text =
      map fst (filter (\<lambda>(c, vs). list_ex (\<lambda>t. whole_word t (lower text)) (c # vs)) SKILL_VARIATIONS)" by (rule eq)
  have more: "whole_word t (lower (text @ CHR 10 # more))" if "whole_word t (lower text)" for t
  proof -
    from that obtain pre post where s: "lower text = pre @ t @ post" and b: "is_word (hd t) \<noteq> (pre \<noteq> [] \<and> is_word (last pre))"
        "is_word (last t) \<noteq> (post \<noteq> [] \<and> is_word (hd post))" unfolding whole_word_def by blast
    have nl: "lower (text @ CHR 10 # more) = pre @ t @ (post @ CHR 10 # lower more)"
      using s by (simp add: lower_def lower_char_def)
    have "\<not> is_word (CHR 10)" by code_simp
    then have "is_word (last t) \<noteq> (post @ CHR 10 # lower more \<noteq> [] \<and> is_word (hd (post @ CHR 10 # lower more)))"
      using b(2) by (cases post) auto
    with b(1) nl show ?thesis unfolding whole_word_def by blast
  qed
  show "set (extract_skills text) \<subseteq> set (extract_skills (text @ CHR 10 # more))"
    unfolding eq using more by (auto simp: list_ex_iff)
qed

text \<open>
  skills that end in a symbol are missed. \<open>c++\<close> and \<open>c#\<close> are found only when a letter, digit or
  underscore follows the symbol immediately, so the text \<open>C++\<close> has no skill; and
  \<open>scikit-learn\<close>, whose hyphen the normalisation drops, is not in its own category.
\<close>

theorem symbol_skills_missed:
  "(whole_word ''c++'' s \<longrightarrow> (\<exists>pre x post. s = pre @ ''c++'' @ x # post \<and> is_word x))
   \<and> (whole_word ''c#'' s \<longrightarrow> (\<exists>pre x post. s = pre @ ''c#'' @ x # post \<and> is_word x))
   \<and> extract_skills ''C++'' = [] \<and> category_of ''scikit-learn'' = ''other''"
proof (intro conjI impI)
  have sym: "\<not> is_word CHR ''+''" "\<not> is_word CHR ''#''" by code_simp+
  have ends: "\<exists>pre x post. s = pre @ t @ x # post \<and> is_word x" if "whole_word t s" "\<not> is_word (last t)" for t s
  proof -
    from that obtain pre post where s: "s = pre @ t @ post" and "post \<noteq> [] \<and> is_word (hd post)"
      unfolding whole_word_def by blast
    then show ?thesis by (intro exI [of _ pre] exI [of _ "hd post"] exI [of _ "tl post"]) simp
  qed
  show "\<exists>pre x post. s = pre @ ''c++'' @ x # post \<and> is_word x" if "whole_word ''c++'' s"
    using ends [OF that] sym by simp
  show "\<exists>pre x post. s = pre @ ''c#'' @ x # post \<and> is_word x" if "whole_word ''c#'' s"
    using ends [OF that] sym by simp
  have low: "lower ''C++'' = ''c++''" by code_simp
  have table: "list_all (\<lambda>e. list_all (\<lambda>t. py_in t ''c++'' \<longrightarrow> t = ''c++'') (fst e # snd e)) SKILL_VARIATIONS"
    by (simp add: SKILL_VARIATIONS_def)
  have self: "\<not> whole_word ''c++'' ''c++''"
  proof
    assume "whole_word ''c++'' ''c++''"
    from ends [OF this] sym obtain pre x post where "''c++'' = pre @ ''c++'' @ x # post" by auto
    then have "length ''c++'' = length (pre @ ''c++'' @ x # post)" by (rule arg_cong)
    then show False by simp
  qed
  have none: "\<not> whole_word t ''c++''" if "e \<in> set SKILL_VARIATIONS" "t \<in> set (fst e # snd e)" for e t
  proof
    assume w: "whole_word t ''c++''"
    then have "py_in t ''c++''" unfolding whole_word_def py_in_iff_sublist sublist_def by metis
    with table that have "t = ''c++''" unfolding list_all_iff by metis
    with w self show False by metis
  qed
  show "extract_skills ''C++'' = []" unfolding extract_skills_whole low
    by (simp only: map_is_Nil_conv filter_empty_conv list_ex_iff split_def) (use none in blast)
  have "clean_skill ''scikit-learn'' = ''scikitlearn''" by code_simp
  moreover have "variation_index ''scikitlearn'' = None"
    by (rule variation_index_unknown) (simp add: SKILL_VARIATIONS_def)
  ultimately have "normalize_skill ''scikit-learn'' = ''scikitlearn''" by (simp add: normalize_skill_def)
  then show "category_of ''scikit-learn'' = ''other''"
    by (intro category_unknown) (simp add: SKILL_CATEGORIES_def)
qed

end
