(* ===== verification/Scoring.thy ===== *)
theory Scoring
  imports Skills
begin

text \<open>
  The ATS score: keywords (\<^verbatim>\<open>core/ats/keyword_analyzer.py\<close>), experience
  (\<^verbatim>\<open>core/ats/experience_analyzer.py\<close>) and the weighted total with its suggestions
  (\<^verbatim>\<open>core/ats/scorer.py\<close>). spaCy's pipeline is the parameter \<open>nlp\<close>. Scores are reals: the
  rounding errors of floats are not modelled, \<^verbatim>\<open>round(x, 4)\<close> is.
\<close>

section \<open>spaCy\<close>

record token =
  tk_text :: str
  tk_lemma :: str
  tk_is_stop :: bool
  tk_is_punct :: bool
  tk_is_space :: bool

record doc =
  doc_tokens :: "token list"
  doc_chunks :: "str list"
  doc_has_vector :: bool

text \<open>The pipeline, and the similarity of the documents of two texts.\<close>

record nlp =
  nlp_doc :: "str \<Rightarrow> doc"
  nlp_similarity :: "str \<Rightarrow> str \<Rightarrow> real"

section \<open>Tables\<close>

definition INDUSTRY_TERMS :: "(str \<times> str list) list" where
  "INDUSTRY_TERMS =
    [(''software_engineering'',
       [''algorithms'', ''data structures'', ''system design'', ''microservices'', ''api'', ''rest'',
       ''graphql'', ''testing'', ''code review'', ''version control'', ''debugging'',
       ''performance optimization'', ''scalability'', ''architecture'']),
     (''data_science'',
       [''statistical analysis'', ''feature engineering'', ''model training'', ''data pipeline'', ''etl'',
       ''visualization'', ''hypothesis testing'', ''a/b testing'', ''regression'', ''classification'',
       ''clustering'']),
     (''devops'',
       [''infrastructure as code'', ''monitoring'', ''alerting'', ''deployment'', ''containerization'',
       ''orchestration'', ''load balancing'', ''high availability'', ''disaster recovery'',
       ''configuration management'', ''observability'']),
     (''product_management'',
       [''roadmap'', ''stakeholder'', ''user stories'', ''sprint planning'', ''backlog'', ''metrics'',
       ''kpi'', ''okr'', ''prioritization'', ''market research'', ''competitive analysis'', ''go-to-market'']),
     (''cybersecurity'',
       [''vulnerability assessment'', ''penetration testing'', ''encryption'', ''firewall'',
       ''intrusion detection'', ''compliance'', ''soc'', ''incident response'', ''threat modeling'',
       ''zero trust''])]"

definition STOP_WORDS :: "str list" where
  "STOP_WORDS =
    [''the'', ''a'', ''an'', ''is'', ''are'', ''was'', ''were'', ''be'', ''been'', ''being'', ''have'',
     ''has'', ''had'', ''do'', ''does'', ''did'', ''will'', ''would'', ''could'', ''should'', ''may'',
     ''might'', ''shall'', ''can'', ''need'', ''must'', ''and'', ''or'', ''but'', ''if'', ''than'', ''that'',
     ''this'', ''these'', ''those'', ''with'', ''for'', ''from'', ''into'', ''to'', ''in'', ''on'', ''at'',
     ''by'', ''of'', ''about'', ''as'', ''not'', ''no'', ''we'', ''you'', ''they'', ''our'', ''your'',
     ''their'', ''its'', ''it'', ''he'', ''she'', ''who'', ''which'', ''what'', ''when'', ''where'', ''how'']"

definition SENIORITY_TERMS :: "(str \<times> str list) list" where
  "SENIORITY_TERMS =
    [(''entry'',
       [''entry level'', ''junior'', ''associate'', ''intern'', ''internship'', ''graduate'', ''new grad'',
       ''early career'', ''0-2 years'']),
     (''mid'',
       [''mid level'', ''mid-level'', ''intermediate'', ''3-5 years'', ''2-5 years'', ''3+ years'',
       ''several years'']),
     (''senior'',
       [''senior'', ''sr.'', ''lead'', ''principal'', ''5+ years'', ''7+ years'', ''extensive experience'',
       ''seasoned'']),
     (''staff'',
       [''staff'', ''staff engineer'', ''distinguished'', ''10+ years'', ''expert level'', ''deep expertise'']),
     (''management'',
       [''manager'', ''director'', ''vp'', ''vice president'', ''head of'', ''chief'', ''c-level'',
       ''executive'', ''leadership role''])]"

definition RESPONSIBILITY_CATEGORIES :: "(str \<times> str list) list" where
  "RESPONSIBILITY_CATEGORIES =
    [(''technical_leadership'',
       [''architect'', ''design system'', ''technical direction'', ''code review'', ''mentoring'',
       ''technical strategy'']),
     (''project_delivery'',
       [''deliver'', ''ship'', ''launch'', ''deploy'', ''release'', ''project management'', ''sprint'',
       ''milestone'']),
     (''collaboration'',
       [''cross-functional'', ''stakeholder'', ''collaborate'', ''team'', ''coordinate'', ''partner with'']),
     (''problem_solving'',
       [''troubleshoot'', ''debug'', ''optimize'', ''improve'', ''resolve'', ''investigate'', ''root cause'']),
     (''communication'',
       [''present'', ''document'', ''report'', ''communicate'', ''write'', ''proposal'', ''specification''])]"

section \<open>Keywords\<close>

text \<open>\<^verbatim>\<open>Counter(xs)\<close>: each element with its number of occurrences, in the order of the first ones.\<close>

definition counter :: "str list \<Rightarrow> (str \<times> nat) list" where
  "counter xs = map (\<lambda>k. (k, count_list xs k)) (rev (remdups (rev xs)))"

definition keyword_token :: "token \<Rightarrow> bool" where
  "keyword_token t \<longleftrightarrow> \<not> tk_is_stop t \<and> \<not> tk_is_punct t \<and> \<not> tk_is_space t
     \<and> tk_text t \<notin> set STOP_WORDS \<and> 2 < length (tk_text t)"

text \<open>The noun chunks of at least two words.\<close>

definition phrases :: "doc \<Rightarrow> str list" where
  "phrases d = filter (\<lambda>p. 2 \<le> length (split_ws p)) (map strip (doc_chunks d))"

definition extract_keywords :: "nlp \<Rightarrow> str \<Rightarrow> str list" where
  "extract_keywords N s =
     (let d = nlp_doc N (lower s)
      in map tk_lemma (filter keyword_token (doc_tokens d))
         @ filter (\<lambda>p. p \<notin> set STOP_WORDS) (phrases d))"

definition tf_weight :: "nat \<Rightarrow> real" where
  "tf_weight n = 1 + ln (1 + real n)"

definition tfidf_overlap :: "str list \<Rightarrow> str list \<Rightarrow> str \<Rightarrow> real \<times> (str \<times> real) list" where
  "tfidf_overlap resume_keywords job_keywords resume_text =
     (let freq = counter job_keywords; low = lower resume_text;
          total = sum_list (map (\<lambda>(k, n). tf_weight n) freq);
          matched = sum_list (map (\<lambda>(k, n). tf_weight n) (filter (\<lambda>(k, n). py_in k low) freq));
          per = map (\<lambda>(k, n). (k, if py_in k low then min (tf_weight n / tf_weight (length freq)) 1 else 0)) freq
      in if freq = [] then (0, [])
         else (min (if 0 < total then matched / total else 0) 1, per))"

definition semantic_similarity :: "nlp \<Rightarrow> str \<Rightarrow> str \<Rightarrow> real" where
  "semantic_similarity N resume_text job_description =
     (let r = take 10000 resume_text; j = take 10000 job_description
      in if \<not> doc_has_vector (nlp_doc N r) \<or> \<not> doc_has_vector (nlp_doc N j) then 0
         else max (nlp_similarity N r j) 0)"

definition job_phrases :: "nlp \<Rightarrow> str \<Rightarrow> str list" where
  "job_phrases N job_description =
     phrases (nlp_doc N (lower job_description))
     @ filter (\<lambda>t. py_in t (lower job_description)) (concat (map snd INDUSTRY_TERMS))"

definition phrase_match_score :: "nlp \<Rightarrow> str \<Rightarrow> str \<Rightarrow> real" where
  "phrase_match_score N resume_text job_description =
     (let ps = remdups (job_phrases N job_description)
      in if ps = [] then 0
         else real (length (filter (\<lambda>p. py_in p (lower resume_text)) ps)) / real (length ps))"

definition clamp :: "real \<Rightarrow> real" where
  "clamp x = min (max x 0) 1"

definition analyze_keywords :: "nlp \<Rightarrow> str \<Rightarrow> str \<Rightarrow> real \<times> (str \<times> real) list" where
  "analyze_keywords N resume_text job_description =
     (if strip resume_text = [] \<or> strip job_description = [] then (0, [])
      else (let jk = extract_keywords N job_description; rk = extract_keywords N resume_text
            in if jk = [] then (0, [])
               else (case tfidf_overlap rk jk resume_text of (tfidf, per) \<Rightarrow>
                 (clamp (4 / 10 * tfidf + 3 / 10 * semantic_similarity N resume_text job_description
                    + 3 / 10 * phrase_match_score N resume_text job_description), per))))"

text \<open>The first key whose count is above every count before it, and above the start's.\<close>

fun best_by :: "'k \<Rightarrow> 'n::linorder \<Rightarrow> ('k \<times> 'n) list \<Rightarrow> 'k \<times> 'n" where
  "best_by b n [] = (b, n)"
| "best_by b n ((k, c) # xs) = (if n < c then best_by k c xs else best_by b n xs)"

definition term_count :: "str list \<Rightarrow> str \<Rightarrow> nat" where
  "term_count terms low = length (filter (\<lambda>t. py_in t low) terms)"

definition detect_domain :: "str \<Rightarrow> str option" where
  "detect_domain s =
     (case best_by None 0 (map (\<lambda>(d, ts). (Some d, term_count ts (lower s))) INDUSTRY_TERMS) of
        (b, n) \<Rightarrow> if 2 \<le> n then b else None)"

section \<open>Experience\<close>

record exp_entry =
  ex_title :: "str option"
  ex_company :: "str option"
  ex_years :: "real option"
  ex_description :: "str option"
  ex_responsibilities :: "str list option"

record exp_match =
  em_title :: str
  em_company :: str
  em_matched :: "str list"
  em_count :: nat

record edu_entry =
  ed_degree :: "str option"
  ed_institution :: "str option"

record edu_match =
  dm_degree :: str
  dm_institution :: str
  dm_rank :: nat
  dm_meets :: bool

record job_metadata =
  jm_required :: "str list"
  jm_preferred :: "str list"
  jm_years :: "real option"
  jm_education :: str

text \<open>\<^verbatim>\<open>entry.get(key, default)\<close>.\<close>

definition get_or :: "'a \<Rightarrow> 'a option \<Rightarrow> 'a" where
  "get_or x m = (case m of None \<Rightarrow> x | Some y \<Rightarrow> y)"

definition rx_ws :: rx where "rx_ws = RStar (RChr is_space)"
definition rx_digits :: rx where "rx_digits = RPlus (RChr is_digit)"

definition rx_years :: rx where
  "rx_years = RAlt (RSeq (RStr ''year'') (ROpt (RLit CHR ''s''))) (RSeq (RStr ''yr'') (ROpt (RLit CHR ''s'')))"

text \<open>The three patterns, which match on the lower-case text as they are compiled with \<^verbatim>\<open>re.IGNORECASE\<close>.\<close>

definition year_patterns :: "rx list" where
  "year_patterns =
     [RSeqs [rx_digits, ROpt (RLit CHR ''+''), rx_ws, rx_years, rx_ws, ROpt (RStr ''of''), rx_ws,
        RAlt (RStr ''experience'') (RStr ''exp'')],
      RSeqs [RAlts [RStr ''minimum'', RStr ''at least'', RStr ''min''], rx_ws, rx_digits, rx_ws, rx_years],
      RSeqs [rx_digits, rx_ws, RLit CHR ''-'', rx_ws, rx_digits, rx_ws, rx_years]]"

text \<open>\<^verbatim>\<open>match.group(1)\<close>: in each pattern the first run of digits of the match.\<close>

definition first_number :: "str \<Rightarrow> nat" where
  "first_number s =
     foldl (\<lambda>n c. 10 * n + (of_char c - 48)) 0 (takeWhile is_digit (dropWhile (\<lambda>c. \<not> is_digit c) s))"

fun first_pattern :: "rx list \<Rightarrow> str \<Rightarrow> str option" where
  "first_pattern [] s = None"
| "first_pattern (r # rs) s =
     (case search_from r s 0 of Some (i, j) \<Rightarrow> Some (slice s i j) | None \<Rightarrow> first_pattern rs s)"

definition extract_required_years :: "str \<Rightarrow> job_metadata \<Rightarrow> real" where
  "extract_required_years job_description meta =
     (case jm_years meta of
        Some y \<Rightarrow> y
      | None \<Rightarrow>
          (case first_pattern year_patterns (lower job_description) of
             Some m \<Rightarrow> real (first_number m) | None \<Rightarrow> 0))"

definition extract_key_responsibilities :: "str \<Rightarrow> str list" where
  "extract_key_responsibilities job_description =
     filter (\<lambda>t. py_in t (lower job_description)) (concat (map snd RESPONSIBILITY_CATEGORIES))"

definition detect_seniority :: "str \<Rightarrow> str" where
  "detect_seniority job_description =
     fst (best_by ''mid'' 0 (map (\<lambda>(l, ts). (l, term_count ts (lower job_description))) SENIORITY_TERMS))"

definition infer_candidate_seniority :: "exp_entry list \<Rightarrow> real \<Rightarrow> str" where
  "infer_candidate_seniority entries total_years =
     (let titles = join_with '' '' (map (\<lambda>e. lower (get_or [] (ex_title e))) entries)
      in case List.find (\<lambda>(l, ts). list_ex (\<lambda>t. py_in t titles) ts) SENIORITY_TERMS of
           Some (l, _) \<Rightarrow> l
         | None \<Rightarrow> if 10 \<le> total_years then ''staff'' else if 5 \<le> total_years then ''senior''
                   else if 2 \<le> total_years then ''mid'' else ''entry'')"

definition LEVELS :: "str list" where
  "LEVELS = [''entry'', ''mid'', ''senior'', ''staff'', ''management'']"

fun index_of :: "'a \<Rightarrow> 'a list \<Rightarrow> nat option" where
  "index_of x [] = None"
| "index_of x (y # ys) = (if x = y then Some 0 else map_option Suc (index_of x ys))"

definition seniority_alignment :: "str \<Rightarrow> str \<Rightarrow> real" where
  "seniority_alignment candidate required =
     (case (index_of candidate LEVELS, index_of required LEVELS) of
        (Some c, Some r) \<Rightarrow>
          (let d = (if c \<le> r then r - c else c - r)
           in if d = 0 then 1 else if d = 1 then 75 / 100 else if d = 2 then 4 / 10 else 15 / 100)
      | _ \<Rightarrow> 1 / 2)"

definition entry_text :: "exp_entry \<Rightarrow> str" where
  "entry_text e =
     lower (join_with '' '' [get_or [] (ex_description e),
       join_with '' '' (get_or [] (ex_responsibilities e)), get_or [] (ex_title e)])"

definition match_responsibilities :: "exp_entry list \<Rightarrow> str list \<Rightarrow> real \<times> exp_match list" where
  "match_responsibilities entries keys =
     (if keys = [] then (1 / 2, [])
      else
        (let matched = map (\<lambda>e. filter (\<lambda>r. py_in r (entry_text e)) keys) entries
         in (min (real (length (remdups (concat matched))) / real (length keys)) 1,
             map (\<lambda>e. (let m = filter (\<lambda>r. py_in r (entry_text e)) keys
               in \<lparr>em_title = get_or ''Unknown'' (ex_title e), em_company = get_or ''Unknown'' (ex_company e),
                   em_matched = m, em_count = length m\<rparr>)) entries)))"

definition analyze_experience :: "exp_entry list \<Rightarrow> str \<Rightarrow> job_metadata \<Rightarrow> real \<times> exp_match list" where
  "analyze_experience entries job_description meta =
     (if entries = [] then (0, [])
      else
        (let required = extract_required_years job_description meta;
             total = sum_list (map (\<lambda>e. get_or 0 (ex_years e)) entries);
             years_score = (if 0 < required then min (total / required) 1 else min (total / 3) 1);
             seniority_score = seniority_alignment (infer_candidate_seniority entries total)
               (detect_seniority job_description)
         in case match_responsibilities entries (extract_key_responsibilities job_description) of
              (resp_score, details) \<Rightarrow>
                (clamp (35 / 100 * years_score + 30 / 100 * resp_score + 35 / 100 * seniority_score), details)))"

section \<open>The composite score\<close>

definition EDUCATION_LEVELS :: "(str \<times> nat) list" where
  "EDUCATION_LEVELS = [(''high school'', 1), (''associate'', 2), (''bachelor'', 3), (''master'', 4),
     (''phd'', 5), (''doctorate'', 5)]"

definition rx_degree :: rx where
  "rx_degree = RSeq rx_ws (ROpt (RAlt (RStr ''degree'') (RStr [CHR 39, CHR ''s''])))"

definition EDUCATION_PATTERNS :: "rx list" where
  "EDUCATION_PATTERNS =
     [RSeq (RAlts [RStr ''bachelor'', RStr ''bs'', RStr ''ba'', RStr ''b.s.'', RStr ''b.a.'']) rx_degree,
      RSeq (RAlts [RStr ''master'', RStr ''ms'', RStr ''ma'', RStr ''m.s.'', RStr ''m.a.'']) rx_degree,
      RSeq (RAlts [RStr ''phd'', RStr ''ph.d.'', RStr ''doctorate'']) (RSeq rx_ws (ROpt (RStr ''degree''))),
      RSeq (RAlts [RStr ''associate'', RStr ''as'', RStr ''a.s.'']) rx_degree,
      RAlts [RStr ''high school'', RStr ''ged'', RStr ''diploma'']]"

record scoring_weights =
  sw_skills :: real
  sw_experience :: real
  sw_education :: real
  sw_keywords :: real

definition default_weights :: scoring_weights where
  "default_weights = \<lparr>sw_skills = 4 / 10, sw_experience = 3 / 10, sw_education = 2 / 10, sw_keywords = 1 / 10\<rparr>"

record candidate_profile =
  cp_skills :: "str list"
  cp_experience :: "exp_entry list"
  cp_education :: "edu_entry list"

record score_details =
  sd_overall :: real
  sd_skill :: real
  sd_experience :: real
  sd_education :: real
  sd_keyword :: real
  sd_missing_required :: "str list"
  sd_missing_preferred :: "str list"
  sd_keyword_matches :: "(str \<times> real) list"
  sd_experience_matches :: "exp_match list"
  sd_education_matches :: "edu_match list"
  sd_suggestions :: "str list"

text \<open>\<^verbatim>\<open>len(xs) or 1\<close>.\<close>

definition size_or_one :: "'a list \<Rightarrow> real" where
  "size_or_one xs = (if xs = [] then 1 else real (length xs))"

definition missing_skills :: "str list \<Rightarrow> str list \<Rightarrow> str list" where
  "missing_skills candidate xs = filter (\<lambda>s. \<not> has_skill candidate s) xs"

definition match_ratio :: "str list \<Rightarrow> str list \<Rightarrow> real" where
  "match_ratio candidate xs =
     (real (length xs) - real (length (missing_skills candidate xs))) / size_or_one xs"

definition score_skills :: "str list \<Rightarrow> str list \<Rightarrow> str list \<Rightarrow> real \<times> str list \<times> str list" where
  "score_skills candidate required preferred =
     (if required = [] \<and> preferred = [] then (1 / 2, [], [])
      else
        (let rr = match_ratio candidate required;
             pr = match_ratio candidate preferred;
             score = (if required \<noteq> [] \<and> preferred \<noteq> [] then 7 / 10 * rr + 3 / 10 * pr
                      else if required \<noteq> [] then rr else pr)
         in (min score 1, missing_skills candidate required, missing_skills candidate preferred)))"

definition education_rank :: "str \<Rightarrow> nat" where
  "education_rank s =
     (case List.find (\<lambda>(l, n). py_in l (lower s)) EDUCATION_LEVELS of Some (l, n) \<Rightarrow> n | None \<Rightarrow> 0)"

definition extract_education_requirement :: "str \<Rightarrow> str" where
  "extract_education_requirement job_description =
     (case first_pattern EDUCATION_PATTERNS (lower job_description) of Some m \<Rightarrow> strip m | None \<Rightarrow> [])"

definition score_education :: "edu_entry list \<Rightarrow> str \<Rightarrow> job_metadata \<Rightarrow> real \<times> edu_match list" where
  "score_education entries job_description meta =
     (let required = (if jm_education meta = [] then extract_education_requirement job_description
                      else jm_education meta)
      in if required = [] then (1 / 2, [])
         else
           (let need = education_rank required;
                ranks = map (\<lambda>e. education_rank (get_or [] (ed_degree e))) entries;
                best = foldl max 0 ranks;
                matches = map (\<lambda>e. (let rk = education_rank (get_or [] (ed_degree e))
                  in \<lparr>dm_degree = get_or [] (ed_degree e), dm_institution = get_or ''Unknown'' (ed_institution e),
                      dm_rank = rk, dm_meets = (need \<le> rk)\<rparr>)) entries
            in (if need \<le> best then 1 else if 0 < best then real best / real need else 2 / 10, matches)))"

definition generate_suggestions :: "real \<Rightarrow> real \<Rightarrow> real \<Rightarrow> real \<Rightarrow> str list \<Rightarrow> str list \<Rightarrow> str list" where
  "generate_suggestions skill xp edu kw missing_req missing_pref =
     (let ss =
        (if missing_req \<noteq> []
         then [''Add required skills to your resume: '' @ join_with '', '' (take 5 missing_req)] else [])
        @ (if 2 < length missing_pref
           then [''Consider highlighting preferred skills: '' @ join_with '', '' (take 3 missing_pref)] else [])
        @ (if kw < 4 / 10
           then [''Increase keyword alignment by mirroring terminology from the job description.''] else [])
        @ (if xp < 1 / 2
           then [''Strengthen experience descriptions by quantifying achievements and aligning responsibilities with job requirements.'']
           else [])
        @ (if edu < 1 / 2
           then [''Highlight relevant certifications, courses, or continuing education.''] else [])
      in ss @ (if 8 / 10 \<le> skill \<and> 6 / 10 \<le> kw \<and> ss = []
               then [''Your resume is well-aligned. Consider tailoring your summary statement.''] else []))"

definition scorer_score_resume ::
  "scoring_weights \<Rightarrow> nlp \<Rightarrow> str \<Rightarrow> str \<Rightarrow> candidate_profile \<Rightarrow> job_metadata \<Rightarrow> score_details" where
  "scorer_score_resume w N resume_text job_description profile meta =
     (case score_skills (cp_skills profile) (jm_required meta) (jm_preferred meta) of (skill, mr, mp) \<Rightarrow>
      case analyze_keywords N resume_text job_description of (kw, kms) \<Rightarrow>
      case analyze_experience (cp_experience profile) job_description meta of (xp, ems) \<Rightarrow>
      case score_education (cp_education profile) job_description meta of (edu, dms) \<Rightarrow>
        \<lparr>sd_overall = round_to 4 (clamp (sw_skills w * skill + sw_experience w * xp
           + sw_education w * edu + sw_keywords w * kw)),
         sd_skill = round_to 4 skill, sd_experience = round_to 4 xp, sd_education = round_to 4 edu,
         sd_keyword = round_to 4 kw, sd_missing_required = mr, sd_missing_preferred = mp,
         sd_keyword_matches = kms, sd_experience_matches = ems, sd_education_matches = dms,
         sd_suggestions = generate_suggestions skill xp edu kw mr mp\<rparr>)"

section \<open>Bounds of the parts\<close>

abbreviation unit_score :: "real \<Rightarrow> bool" where
  "unit_score x \<equiv> 0 \<le> x \<and> x \<le> 1"

lemma clamp_unit [simp]: "0 \<le> clamp x" "clamp x \<le> 1"
  by (simp_all add: clamp_def)

lemma clamp_mono: "x \<le> y \<Longrightarrow> clamp x \<le> clamp y"
  by (simp add: clamp_def)

lemma clamp_id: "unit_score x \<Longrightarrow> clamp x = x"
  by (simp add: clamp_def)

lemma round_half_even_mono: "x \<le> y \<Longrightarrow> round_half_even x \<le> round_half_even y"
proof -
  assume le: "x \<le> y"
  have f: "\<lfloor>x\<rfloor> \<le> \<lfloor>y\<rfloor>" using le by (rule floor_mono)
  have b: "\<lfloor>z\<rfloor> \<le> round_half_even z \<and> round_half_even z \<le> \<lfloor>z\<rfloor> + 1" for z
    by (simp add: round_half_even_def Let_def)
  show ?thesis
  proof (cases "\<lfloor>x\<rfloor> = \<lfloor>y\<rfloor>")
    case True
    with le show ?thesis by (simp add: round_half_even_def Let_def)
  next
    case False
    with f have "\<lfloor>x\<rfloor> + 1 \<le> \<lfloor>y\<rfloor>" by simp
    with b [of x] b [of y] show ?thesis by linarith
  qed
qed

lemma round_to_mono: "x \<le> y \<Longrightarrow> round_to k x \<le> round_to k y"
  by (simp add: round_to_def divide_right_mono round_half_even_mono)

lemma ratio_unit: "length xs \<le> length ys \<Longrightarrow> unit_score (real (length xs) / real (length ys))"
  by (auto simp: divide_le_eq)

lemma match_ratio_unit: "unit_score (match_ratio c xs)"
  using length_filter_le [of "\<lambda>s. \<not> has_skill c s" xs]
  by (auto simp: match_ratio_def missing_skills_def size_or_one_def divide_le_eq)

lemma missing_skills_mono: "set c \<subseteq> set c' \<Longrightarrow> set (missing_skills c' xs) \<subseteq> set (missing_skills c xs)"
  by (auto simp: missing_skills_def dest: has_skill_mono)

lemma match_ratio_mono:
  assumes "set c \<subseteq> set c'"
  shows "match_ratio c xs \<le> match_ratio c' xs"
proof -
  have "length (missing_skills c' xs) \<le> length (missing_skills c xs)"
    unfolding missing_skills_def using assms has_skill_mono by (induction xs) (auto simp: le_Suc_eq)
  then show ?thesis unfolding match_ratio_def by (intro divide_right_mono) (auto simp: size_or_one_def)
qed

lemma score_skills_unit: "unit_score (fst (score_skills c r p))"
  using match_ratio_unit [of c r] match_ratio_unit [of c p] by (auto simp: score_skills_def Let_def)

lemma score_skills_mono:
  assumes "set c \<subseteq> set c'"
  shows "fst (score_skills c r p) \<le> fst (score_skills c' r p)"
  using match_ratio_mono [OF assms, of r] match_ratio_mono [OF assms, of p]
  by (simp add: score_skills_def Let_def min_def)

lemma analyze_keywords_unit: "unit_score (fst (analyze_keywords N r j))"
  by (auto simp: analyze_keywords_def Let_def split: prod.splits)

lemma analyze_experience_unit: "unit_score (fst (analyze_experience es j m))"
  by (auto simp: analyze_experience_def Let_def split: prod.splits)

lemma score_education_unit: "unit_score (fst (score_education es j m))"
  by (auto simp: score_education_def Let_def divide_le_eq)

lemmas score_units = score_skills_unit analyze_keywords_unit analyze_experience_unit score_education_unit

lemma scorer_fields:
  "sd_overall (scorer_score_resume w N r j p m) =
     round_to 4 (clamp (sw_skills w * fst (score_skills (cp_skills p) (jm_required m) (jm_preferred m))
       + sw_experience w * fst (analyze_experience (cp_experience p) j m)
       + sw_education w * fst (score_education (cp_education p) j m)
       + sw_keywords w * fst (analyze_keywords N r j)))"
  "sd_skill (scorer_score_resume w N r j p m) = round_to 4 (fst (score_skills (cp_skills p) (jm_required m) (jm_preferred m)))"
  "sd_experience (scorer_score_resume w N r j p m) = round_to 4 (fst (analyze_experience (cp_experience p) j m))"
  "sd_education (scorer_score_resume w N r j p m) = round_to 4 (fst (score_education (cp_education p) j m))"
  "sd_keyword (scorer_score_resume w N r j p m) = round_to 4 (fst (analyze_keywords N r j))"
  "sd_missing_required (scorer_score_resume w N r j p m) =
     fst (snd (score_skills (cp_skills p) (jm_required m) (jm_preferred m)))"
  by (simp_all add: scorer_score_resume_def split: prod.split)

section \<open>Where a literal matches, and which characters a match has\<close>

lemma ends_lit:
  assumes "i \<le> length s"
  shows "j \<in> set (ends (RStr t) s i) \<longleftrightarrow> j = i + length t \<and> take (length t) (drop i s) = t"
  using ends_iff [OF assms, of j "RStr t"] matches_lit [OF assms, of t j] assms by simp

fun rx_over :: "(char \<Rightarrow> bool) \<Rightarrow> rx \<Rightarrow> bool" where
  "rx_over P (RChr p) \<longleftrightarrow> (\<forall>c. p c \<longrightarrow> P c)"
| "rx_over P (RSeq a b) \<longleftrightarrow> rx_over P a \<and> rx_over P b"
| "rx_over P (RAlt a b) \<longleftrightarrow> rx_over P a \<and> rx_over P b"
| "rx_over P (RStar a) \<longleftrightarrow> rx_over P a"
| "rx_over P _ \<longleftrightarrow> True"

lemma matches_over: "matches r s i j \<Longrightarrow> rx_over P r \<Longrightarrow> i \<le> k \<Longrightarrow> k < j \<Longrightarrow> P (s ! k)"
proof (induction rule: matches.induct)
  case (seq a s i j b m)
  then show ?case by (cases "k < j") auto
next
  case (star1 a s i j m)
  then show ?case by (cases "k < j") auto
qed (auto simp: le_less_Suc_eq)

lemma slice_over:
  assumes "matches r s i j" and "rx_over P r"
  shows "list_all P (slice s i j)"
proof -
  have "P c" if "c \<in> set (slice s i j)" for c
  proof -
    from that obtain n where n: "n < length (slice s i j)" and c: "c = slice s i j ! n" by (metis in_set_conv_nth)
    from n have "n < j - i" "i + n < length s" by (auto simp: slice_def)
    then have "c = s ! (i + n)" and "i + n < j" using c by (auto simp: slice_def)
    with matches_over [OF assms, of "i + n"] show ?thesis by simp
  qed
  then show ?thesis by (simp add: list_all_iff)
qed

section \<open>The letters of a degree's abbreviation\<close>

definition abbrev_char :: "char \<Rightarrow> bool" where
  "abbrev_char c \<longleftrightarrow> is_space c \<or> c \<in> set (CHR 39 # ''bsadegr'')"

lemma lower_space: "is_space c \<Longrightarrow> lower_char c = c"
  by (auto simp: is_space_def lower_char_def Let_def)

lemma abbrev_lower: "abbrev_char c \<Longrightarrow> abbrev_char (lower_char c)"
proof -
  assume c: "abbrev_char c"
  have l: "list_all (\<lambda>c. lower_char c = c) (CHR 39 # ''bsadegr'')" by code_simp
  from c have "lower_char c = c" unfolding abbrev_char_def using l lower_space by (auto simp: list_all_iff)
  with c show ?thesis by simp
qed

lemma rank_abbrev:
  assumes "list_all abbrev_char s"
  shows "education_rank s = 0"
proof -
  have t: "list_all (\<lambda>(l, n). list_ex (\<lambda>c. \<not> abbrev_char c) l) EDUCATION_LEVELS" by code_simp
  have low: "\<forall>c \<in> set (lower s). abbrev_char c"
    using assms abbrev_lower by (auto simp: lower_def list_all_iff)
  have "\<not> py_in l (lower s)" if "(l, n) \<in> set EDUCATION_LEVELS" for l n
  proof
    assume "py_in l (lower s)"
    then have "set l \<subseteq> set (lower s)" using set_mono_sublist by (auto simp: py_in_iff_sublist)
    moreover have "\<exists>c \<in> set l. \<not> abbrev_char c" using t that by (force simp: list_all_iff list_ex_iff)
    ultimately show False using low by blast
  qed
  then have "List.find (\<lambda>(l, n). py_in l (lower s)) EDUCATION_LEVELS = None" by (auto simp: find_None_iff)
  then show ?thesis by (simp add: education_rank_def)
qed

definition rx_bachelor :: rx where
  "rx_bachelor = RAlts [RStr ''bachelor'', RStr ''bs'', RStr ''ba'', RStr ''b.s.'', RStr ''b.a.'']"

lemma over_degree: "rx_over abbrev_char rx_degree"
  by (auto simp: rx_degree_def rx_ws_def ROpt_def RLit_def abbrev_char_def)

lemma bachelor_nowhere:
  assumes "i < length s" and "s ! i \<noteq> CHR ''b''"
  shows "ends (RSeq rx_bachelor r) s i = []"
  using assms by (simp add: rx_bachelor_def RLit_def)

lemma bachelor_abbreviation:
  assumes "i \<le> length s" and "drop i s = CHR ''b'' # c # post"
    and "c = CHR ''s'' \<or> c = CHR ''a'' \<and> \<not> prefix ''chelor'' post"
    and "j \<in> set (ends (RSeq rx_bachelor r) s i)"
  shows "matches r s (i + 2) j"
proof -
  from assms(4) obtain k where k: "k \<in> set (ends rx_bachelor s i)" "j \<in> set (ends r s k)" by auto
  from k(1) obtain t where t: "t \<in> {''bachelor'', ''bs'', ''ba'', ''b.s.'', ''b.a.''}" "k \<in> set (ends (RStr t) s i)"
    by (auto simp: rx_bachelor_def simp del: RStr.simps)
  then have kt: "k = i + length t" "take (length t) (CHR ''b'' # c # post) = t"
    using ends_lit [OF assms(1), of k t] assms(2) by simp_all
  have "prefix (take 6 post) post" by (rule take_is_prefix)
  then have "t \<noteq> ''bachelor''" using kt(2) assms(3) by (auto simp: numeral_eq_Suc)
  then have "k = i + 2" using t(1) kt assms(3) by auto
  with k(2) ends_sound show ?thesis by blast
qed

section \<open>Properties\<close>

definition weights_ok :: "scoring_weights \<Rightarrow> bool" where
  "weights_ok w \<longleftrightarrow> unit_score (sw_skills w) \<and> unit_score (sw_experience w)
     \<and> unit_score (sw_education w) \<and> unit_score (sw_keywords w)"

text \<open>
  C32: every score lies between 0 and 1, whatever spaCy answers and whatever the weights; and with valid
  weights a candidate who has more skills never scores lower and never misses more of the required ones.
\<close>

theorem scores_bounded_monotone:
  assumes "weights_ok w"
  shows "list_all unit_score (map (\<lambda>f. f (scorer_score_resume w N r j p m))
       [sd_overall, sd_skill, sd_experience, sd_education, sd_keyword])
    \<and> sd_overall (scorer_score_resume w N r j p m)
        \<le> sd_overall (scorer_score_resume w N r j (p\<lparr>cp_skills := cp_skills p @ extra\<rparr>) m)
    \<and> set (sd_missing_required (scorer_score_resume w N r j (p\<lparr>cp_skills := cp_skills p @ extra\<rparr>) m))
        \<subseteq> set (sd_missing_required (scorer_score_resume w N r j p m))"
proof (intro conjI)
  show "list_all unit_score (map (\<lambda>f. f (scorer_score_resume w N r j p m))
       [sd_overall, sd_skill, sd_experience, sd_education, sd_keyword])"
    by (simp add: scorer_fields round_to_bounds score_units)
  let ?s = "\<lambda>c. fst (score_skills c (jm_required m) (jm_preferred m))"
  have "?s (cp_skills p) \<le> ?s (cp_skills p @ extra)" by (rule score_skills_mono) simp
  then have "sw_skills w * ?s (cp_skills p) \<le> sw_skills w * ?s (cp_skills p @ extra)"
    using assms by (intro mult_left_mono) (simp_all add: weights_ok_def)
  then show "sd_overall (scorer_score_resume w N r j p m)
      \<le> sd_overall (scorer_score_resume w N r j (p\<lparr>cp_skills := cp_skills p @ extra\<rparr>) m)"
    unfolding scorer_fields by (intro round_to_mono clamp_mono) simp
  show "set (sd_missing_required (scorer_score_resume w N r j (p\<lparr>cp_skills := cp_skills p @ extra\<rparr>) m))
      \<subseteq> set (sd_missing_required (scorer_score_resume w N r j p m))"
    using missing_skills_mono [of "cp_skills p" "cp_skills p @ extra" "jm_required m"]
    by (simp add: scorer_fields score_skills_def Let_def)
qed

definition silent_nlp :: nlp where
  "silent_nlp = \<lparr>nlp_doc = (\<lambda>s. \<lparr>doc_tokens = [], doc_chunks = [], doc_has_vector = False\<rparr>), nlp_similarity = (\<lambda>a b. 0)\<rparr>"

definition no_metadata :: job_metadata where
  "no_metadata = \<lparr>jm_required = [], jm_preferred = [], jm_years = None, jm_education = []\<rparr>"

theorem scores_bounded_monotone_witness:
  "weights_ok default_weights
   \<and> list_all unit_score (map (\<lambda>f. f (scorer_score_resume default_weights silent_nlp ''x'' ''y''
       \<lparr>cp_skills = [], cp_experience = [], cp_education = []\<rparr> no_metadata))
       [sd_overall, sd_skill, sd_experience, sd_education, sd_keyword])"
proof -
  have w: "weights_ok default_weights" by (simp add: weights_ok_def default_weights_def)
  from scores_bounded_monotone [OF w, of silent_nlp "''x''" "''y''"
      "\<lparr>cp_skills = [], cp_experience = [], cp_education = []\<rparr>" no_metadata "[]"]
  show ?thesis using w by (intro conjI) (rule w, erule conjunct1)
qed

text \<open>
  a job text whose first letter b starts \<open>ba\<close> (but not \<open>bachelor\<close>) or \<open>bs\<close>, be it in the middle
  of a word such as \<open>database\<close>, waives the education requirement: the extracted abbreviation has no
  rank, so that every candidate scores 1, one without education too, even when the text goes on to
  ask for a doctorate.
\<close>

theorem abbreviation_waives_education:
  assumes "lower jd = pre @ CHR ''b'' # c # post" and "CHR ''b'' \<notin> set pre"
    and "c = CHR ''s'' \<or> c = CHR ''a'' \<and> \<not> prefix ''chelor'' post" and "jm_education m = []"
  shows "fst (score_education es jd m) = 1"
proof -
  let ?s = "lower jd" and ?i = "length pre" and ?r = "RSeq rx_bachelor rx_degree"
  have i: "?i \<le> length ?s" and d: "drop ?i ?s = CHR ''b'' # c # post" using assms(1) by simp_all
  have before: "ends ?r ?s k = []" if "k < ?i" for k
  proof -
    have "pre ! k \<noteq> CHR ''b''" using that assms(2) by (metis nth_mem)
    then show ?thesis using that assms(1) by (intro bachelor_nowhere) (simp_all add: nth_append)
  qed
  have here: "?i + 2 \<in> set (ends rx_bachelor ?s ?i)"
    using assms(3) d ends_lit [OF i, of "?i + 2" "''bs''"] ends_lit [OF i, of "?i + 2" "''ba''"]
    by (auto simp: rx_bachelor_def simp del: RStr.simps)
  have "?i + 2 \<in> set (ends rx_degree ?s (?i + 2))"
    using ends_star_set [of "?i + 2" "RChr is_space" ?s "?i + 2"]
    by (force simp: rx_degree_def rx_ws_def ROpt_def)
  with here have "?i + 2 \<in> set (ends ?r ?s ?i)" by auto
  then have ne: "ends ?r ?s ?i \<noteq> []" by (metis empty_iff empty_set)
  have split: "[0..<Suc (length ?s)] = [0..<?i] @ ?i # [Suc ?i..<Suc (length ?s)]"
    using i by (metis le_add_same_cancel1 le_imp_less_Suc upt_add_eq_append upt_conv_Cons zero_le le_Suc_ex le_SucI)
  have "filter (\<lambda>k. ends ?r ?s k \<noteq> []) [0..<?i] = []" using before by (auto simp: filter_empty_conv)
  then have found: "search_from ?r ?s 0 = Some (?i, hd (ends ?r ?s ?i))"
    using ne unfolding search_from_def split by simp
  let ?j = "hd (ends ?r ?s ?i)"
  have "?j \<in> set (ends ?r ?s ?i)" using ne by (rule hd_in_set)
  from bachelor_abbreviation [OF i d assms(3) this]
  have m: "matches rx_degree ?s (?i + 2) ?j" .
  have "?i + 2 \<le> ?j" using matches_mono [OF m] .
  then have sl: "slice ?s ?i ?j = CHR ''b'' # c # slice ?s (?i + 2) ?j"
    using d by (simp add: slice_def take_Cons' assms(1) Suc_diff_le)
  have "abbrev_char CHR ''b''" "abbrev_char CHR ''s''" "abbrev_char CHR ''a''" by code_simp+
  then have over: "list_all abbrev_char (slice ?s ?i ?j)"
    unfolding sl using slice_over [OF m over_degree] assms(3) by auto
  have req: "extract_education_requirement jd = strip (slice ?s ?i ?j)"
    by (simp add: extract_education_requirement_def EDUCATION_PATTERNS_def found rx_bachelor_def [symmetric]
      del: RStr.simps RAlts.simps)
  have "\<not> is_space CHR ''b''" by code_simp
  then have "strip (slice ?s ?i ?j) \<noteq> []" using strip_keeps [of "CHR ''b''" "slice ?s ?i ?j"] sl by auto
  moreover have "education_rank (strip (slice ?s ?i ?j)) = 0"
    using over set_strip [of "slice ?s ?i ?j"] by (intro rank_abbrev) (auto simp: list_all_iff)
  ultimately show ?thesis using assms(4) by (simp add: score_education_def req Let_def)
qed

theorem abbreviation_waives_education_witness:
  "fst (score_education [] ''PhD required, database research'' no_metadata) = 1"
proof -
  have l: "lower ''PhD required, database research'' = ''phd required, data'' @ CHR ''b'' # CHR ''a'' # ''se research''"
    by code_simp
  show ?thesis by (rule abbreviation_waives_education [OF l]) (simp_all add: no_metadata_def)
qed

end
