(* ===== verification/Optimizer.thy ===== *)
theory Optimizer
  imports Scoring
begin

text \<open>
  The improvement suggestions of \<^verbatim>\<open>core/ats/optimizer.py\<close>, from a score and the two texts. Characters
  outside Latin-1 in the messages are written as ASCII (the dash as two hyphens).
\<close>

section \<open>Table\<close>

definition INDUSTRY_KEYWORDS :: "(str \<times> (str \<times> real) list) list" where
  "INDUSTRY_KEYWORDS =
    [(''software_engineering'',
       [(''agile'', 80 / 100), (''scrum'', 70 / 100), (''ci/cd'', 90 / 100), (''devops'', 80 / 100),
       (''microservices'', 85 / 100), (''api'', 90 / 100), (''rest'', 80 / 100), (''graphql'', 70 / 100),
       (''cloud'', 85 / 100), (''aws'', 80 / 100), (''docker'', 85 / 100), (''kubernetes'', 80 / 100),
       (''testing'', 90 / 100), (''unit testing'', 80 / 100), (''integration testing'', 75 / 100),
       (''code review'', 70 / 100), (''git'', 90 / 100), (''system design'', 85 / 100),
       (''scalability'', 80 / 100), (''performance'', 75 / 100), (''security'', 70 / 100),
       (''monitoring'', 70 / 100), (''logging'', 65 / 100), (''debugging'', 70 / 100)]),
     (''data_science'',
       [(''machine learning'', 95 / 100), (''deep learning'', 85 / 100), (''nlp'', 80 / 100),
       (''computer vision'', 75 / 100), (''statistics'', 90 / 100), (''python'', 95 / 100),
       (''r'', 70 / 100), (''sql'', 85 / 100), (''tensorflow'', 80 / 100), (''pytorch'', 80 / 100),
       (''pandas'', 85 / 100), (''numpy'', 80 / 100), (''scikit-learn'', 85 / 100),
       (''data visualization'', 75 / 100), (''feature engineering'', 80 / 100),
       (''model evaluation'', 80 / 100), (''a/b testing'', 70 / 100), (''etl'', 75 / 100),
       (''big data'', 70 / 100), (''spark'', 70 / 100), (''hadoop'', 60 / 100)]),
     (''product_management'',
       [(''roadmap'', 90 / 100), (''strategy'', 85 / 100), (''stakeholder management'', 85 / 100),
       (''user research'', 80 / 100), (''data-driven'', 80 / 100), (''analytics'', 80 / 100),
       (''kpi'', 75 / 100), (''okr'', 70 / 100), (''agile'', 85 / 100), (''scrum'', 75 / 100),
       (''prioritization'', 85 / 100), (''go-to-market'', 70 / 100), (''mvp'', 75 / 100),
       (''user stories'', 80 / 100), (''competitive analysis'', 70 / 100), (''market research'', 70 / 100),
       (''customer feedback'', 75 / 100)]),
     (''devops'',
       [(''ci/cd'', 95 / 100), (''docker'', 90 / 100), (''kubernetes'', 90 / 100), (''terraform'', 85 / 100),
       (''ansible'', 75 / 100), (''jenkins'', 70 / 100), (''github actions'', 75 / 100),
       (''monitoring'', 85 / 100), (''prometheus'', 75 / 100), (''grafana'', 70 / 100), (''aws'', 85 / 100),
       (''gcp'', 80 / 100), (''azure'', 80 / 100), (''linux'', 90 / 100), (''networking'', 75 / 100),
       (''security'', 80 / 100), (''iac'', 80 / 100), (''observability'', 80 / 100), (''sre'', 75 / 100),
       (''incident management'', 70 / 100)]),
     (''cybersecurity'',
       [(''penetration testing'', 90 / 100), (''vulnerability assessment'', 90 / 100), (''siem'', 80 / 100),
       (''soc'', 80 / 100), (''incident response'', 85 / 100), (''encryption'', 80 / 100),
       (''firewall'', 75 / 100), (''ids/ips'', 75 / 100), (''compliance'', 80 / 100),
       (''risk assessment'', 85 / 100), (''threat modeling'', 85 / 100), (''zero trust'', 70 / 100),
       (''devsecops'', 75 / 100), (''owasp'', 80 / 100), (''forensics'', 70 / 100),
       (''malware analysis'', 70 / 100)]),
     (''cloud_engineering'',
       [(''aws'', 90 / 100), (''gcp'', 85 / 100), (''azure'', 85 / 100), (''terraform'', 90 / 100),
       (''cloudformation'', 75 / 100), (''serverless'', 80 / 100), (''lambda'', 75 / 100),
       (''ec2'', 70 / 100), (''s3'', 70 / 100), (''vpc'', 70 / 100), (''load balancing'', 75 / 100),
       (''auto scaling'', 75 / 100), (''cost optimization'', 70 / 100), (''multi-cloud'', 65 / 100),
       (''hybrid cloud'', 65 / 100)])]"

section \<open>Industry\<close>

definition industry_score :: "(str \<times> real) list \<Rightarrow> str \<Rightarrow> real" where
  "industry_score kws low = sum_list (map snd (filter (\<lambda>(k, w). py_in k low) kws))"

definition detect_industry :: "str \<Rightarrow> str" where
  "detect_industry job_description =
     (case best_by [] 0 (map (\<lambda>(i, kws). (i, industry_score kws (lower job_description))) INDUSTRY_KEYWORDS) of
        (best, score) \<Rightarrow> if score < 15 / 10 then [] else best)"

text \<open>The sort by weight is stable and descending, as \<^verbatim>\<open>sort(reverse=True)\<close> keeps the order of equal keys.\<close>

definition get_missing_keywords :: "str \<Rightarrow> str \<Rightarrow> str list" where
  "get_missing_keywords resume_text industry =
     (case map_of INDUSTRY_KEYWORDS industry of
        None \<Rightarrow> []
      | Some kws \<Rightarrow>
          map fst (sort_key (\<lambda>(k, w). - w) (filter (\<lambda>(k, w). \<not> py_in k (lower resume_text)) kws)))"

section \<open>Suggestions\<close>

definition skill_gap_suggestions :: "score_details \<Rightarrow> str list" where
  "skill_gap_suggestions d =
     (let req = sd_missing_required d; pref = sd_missing_preferred d in
      (if req = [] then []
       else if length req \<le> 3 then [''Critical: add required skills to your resume: '' @ join_with '', '' req]
       else [''Critical: add these required skills (and '' @ show_nat (length req - 3) @ '' more): ''
              @ join_with '', '' (take 3 req)])
      @ (if pref = [] then []
         else [''Recommended: highlight preferred skills if applicable: '' @ join_with '', '' (take 3 pref)])
      @ concat (map (\<lambda>s. (let similar = find_similar_skills s (8 / 10)
           in if similar = [] then []
              else [''You may already have equivalent experience for '' @ CHR 39 # s @ CHR 39 #
                    '' -- consider listing: '' @ join_with '', '' (take 2 similar)])) (take 3 req)))"

text \<open>\<^verbatim>\<open>str.title\<close> of lower-case ASCII text: a letter after a non-letter becomes a capital.\<close>

fun title_case :: "bool \<Rightarrow> str \<Rightarrow> str" where
  "title_case after [] = []"
| "title_case after (c # cs) =
     (if is_lower_az c then (if after then c else char_of (of_char c - 32 :: nat)) # title_case True cs
      else c # title_case False cs)"

definition EXPECTED_SECTIONS :: "str list" where
  "EXPECTED_SECTIONS = [''experience'', ''education'', ''skills'']"

definition format_suggestions :: "str \<Rightarrow> str list" where
  "format_suggestions resume_text =
     (let missing = filter (\<lambda>s. \<not> py_in s (lower resume_text)) EXPECTED_SECTIONS in
      (if length (split_ws resume_text) < 150
       then [''Your resume appears very short. ATS systems favour detailed resumes with 400-800 words.'']
       else [])
      @ (if missing = [] then []
         else [''Add standard sections that may be missing: '' @ title_case False (join_with '', '' missing)]))"

definition keyword_suggestions :: "str \<Rightarrow> str \<Rightarrow> str list" where
  "keyword_suggestions resume_text job_description =
     (let industry = detect_industry job_description; missing = get_missing_keywords resume_text industry
      in if industry = [] \<or> missing = [] then []
         else [''Add industry-relevant keywords: '' @ join_with '', '' (take 5 missing)])"

definition suggest_improvements :: "score_details \<Rightarrow> str \<Rightarrow> str \<Rightarrow> str list" where
  "suggest_improvements d resume_text job_description =
     (let ss = skill_gap_suggestions d @ keyword_suggestions resume_text job_description
        @ (if sd_keyword d < 3 / 10
           then [''Your resume has low keyword overlap with the job description. Mirror the exact terminology used in the posting.'']
           else [])
        @ (if sd_experience d < 1 / 2
           then [''Strengthen your experience section by emphasizing responsibilities and achievements that align with the job requirements.'']
           else [])
        @ (if sd_education d < 1 / 2
           then [''Consider adding relevant certifications, bootcamps, or online courses to strengthen your education profile.'']
           else [])
        @ format_suggestions resume_text
      in ss @ filter (\<lambda>s. s \<notin> set ss) (sd_suggestions d))"

section \<open>The best of a list\<close>

text \<open>The scan keeps its start unless a count exceeds it; otherwise it finds the first greatest count.\<close>

lemma best_by_spec:
  "best_by b n xs = (b, n) \<and> (\<forall>e \<in> set xs. snd e \<le> n)
   \<or> (\<exists>k c pre post. best_by b n xs = (k, c) \<and> n < c \<and> xs = pre @ (k, c) # post
        \<and> (\<forall>e \<in> set pre. snd e < c) \<and> (\<forall>e \<in> set post. snd e \<le> c))"
proof (induction xs arbitrary: b n)
  case (Cons x xs)
  obtain k c where x: "x = (k, c)" by (cases x)
  show ?case
  proof (cases "n < c")
    case True
    then have step: "best_by b n (x # xs) = best_by k c xs" by (simp add: x)
    from Cons.IH [of k c] show ?thesis
    proof (elim disjE exE conjE)
      assume h: "best_by k c xs = (k, c)" "\<forall>e \<in> set xs. snd e \<le> c"
      then show ?thesis using True step x
        by (intro disjI2 exI [of _ k] exI [of _ c] exI [of _ "[]"] exI [of _ xs]) auto
    next
      fix k' c' pre post
      assume h: "best_by k c xs = (k', c')" "c < c'" "xs = pre @ (k', c') # post"
        "\<forall>e \<in> set pre. snd e < c'" "\<forall>e \<in> set post. snd e \<le> c'"
      then show ?thesis using True step x
        by (intro disjI2 exI [of _ k'] exI [of _ c'] exI [of _ "x # pre"] exI [of _ post]) auto
    qed
  next
    case False
    then have step: "best_by b n (x # xs) = best_by b n xs" by (simp add: x)
    from Cons.IH [of b n] show ?thesis
    proof (elim disjE exE conjE)
      assume h: "best_by b n xs = (b, n)" "\<forall>e \<in> set xs. snd e \<le> n"
      then show ?thesis using False step x by auto
    next
      fix k' c' pre post
      assume h: "best_by b n xs = (k', c')" "n < c'" "xs = pre @ (k', c') # post"
        "\<forall>e \<in> set pre. snd e < c'" "\<forall>e \<in> set post. snd e \<le> c'"
      then show ?thesis using False step x
        by (intro disjI2 exI [of _ k'] exI [of _ c'] exI [of _ "x # pre"] exI [of _ post]) auto
    qed
  qed
qed simp

section \<open>Properties\<close>

definition industry_fits :: "str \<Rightarrow> str \<times> (str \<times> real) list \<Rightarrow> real" where
  "industry_fits job_description e = industry_score (snd e) (lower job_description)"

text \<open>
  the industry detected is the first one with the greatest score, when that is at least 1.5, and
  none otherwise.
\<close>

theorem detect_industry_spec:
  "if list_ex (\<lambda>e. 15 / 10 \<le> industry_fits jd e) INDUSTRY_KEYWORDS
   then \<exists>pre kws post. INDUSTRY_KEYWORDS = pre @ (detect_industry jd, kws) # post
     \<and> list_all (\<lambda>e. industry_fits jd e < industry_fits jd (detect_industry jd, kws)) pre
     \<and> list_all (\<lambda>e. industry_fits jd e \<le> industry_fits jd (detect_industry jd, kws)) post
   else detect_industry jd = []"
proof -
  let ?f = "industry_fits jd" and ?xs = "map (\<lambda>e. (fst e, industry_fits jd e)) INDUSTRY_KEYWORDS"
  obtain k c where best: "best_by [] 0 ?xs = (k, c)" by (metis surj_pair)
  have d: "detect_industry jd = (if c < 15 / 10 then [] else k)"
    using best by (simp add: detect_industry_def industry_fits_def split_def)
  have all: "?f e \<le> c" if "e \<in> set INDUSTRY_KEYWORDS" for e
  proof -
    have bound: "snd x \<le> c" if "x \<in> set ?xs" for x
      using best_by_spec [of "[]" "0::real" ?xs] that unfolding best by (elim disjE exE conjE) auto
    have "snd (fst e, ?f e) \<le> c" by (rule bound) (use that in simp)
    then show ?thesis by simp
  qed
  show ?thesis
  proof (cases "c < 15 / 10")
    case True
    then have "\<not> list_ex (\<lambda>e. 15 / 10 \<le> ?f e) INDUSTRY_KEYWORDS" using all by (fastforce simp: list_ex_iff)
    then show ?thesis using d True by simp
  next
    case False
    with best_by_spec [of "[]" "0::real" ?xs] obtain pre post where
      split: "?xs = pre @ (k, c) # post" "\<forall>e \<in> set pre. snd e < c" "\<forall>e \<in> set post. snd e \<le> c"
      unfolding best by auto
    from split(1) obtain p e q where e: "INDUSTRY_KEYWORDS = p @ e # q" "pre = map (\<lambda>e. (fst e, ?f e)) p"
        "(k, c) = (fst e, ?f e)" "post = map (\<lambda>e. (fst e, ?f e)) q"
      by (auto simp: map_eq_append_conv map_eq_Cons_conv)
    then have "INDUSTRY_KEYWORDS = p @ (detect_industry jd, snd e) # q"
      and "?f (detect_industry jd, snd e) = c" using d False by (auto simp: industry_fits_def)
    moreover have "list_ex (\<lambda>e. 15 / 10 \<le> ?f e) INDUSTRY_KEYWORDS"
    proof -
      have "e \<in> set INDUSTRY_KEYWORDS" unfolding e(1) by simp
      then show ?thesis using e(3) False by (auto simp: list_ex_iff intro!: bexI [of _ e])
    qed
    ultimately show ?thesis using split(2,3) e(2,4) by (auto simp: list_all_iff)
  qed
qed

text \<open>
  the keywords suggested for an industry are exactly its keywords that the resume does not contain,
  the weightier ones first; and the suggestions repeat none of the scorer's and lose none.
\<close>

theorem missing_keywords_spec:
  assumes "(industry, kws) \<in> set INDUSTRY_KEYWORDS"
  shows "set (get_missing_keywords resume industry) = {k \<in> fst ` set kws. \<not> py_in k (lower resume)}
    \<and> sorted_wrt (\<lambda>a b. \<exists>v w. (a, v) \<in> set kws \<and> (b, w) \<in> set kws \<and> w \<le> v) (get_missing_keywords resume industry)
    \<and> set (sd_suggestions d) \<subseteq> set (suggest_improvements d resume jd)"
proof (intro conjI)
  let ?ys = "sort_key (\<lambda>(k, w). - w) (filter (\<lambda>(k, w). \<not> py_in k (lower resume)) kws)"
  have "distinct (map fst INDUSTRY_KEYWORDS)" by (simp add: INDUSTRY_KEYWORDS_def)
  then have "map_of INDUSTRY_KEYWORDS industry = Some kws" using assms by simp
  then have g: "get_missing_keywords resume industry = map fst ?ys" by (simp add: get_missing_keywords_def)
  show "set (get_missing_keywords resume industry) = {k \<in> fst ` set kws. \<not> py_in k (lower resume)}"
    unfolding g by force
  have "sorted_wrt (\<lambda>x y. snd y \<le> snd x) ?ys"
    using sorted_sort_key [of "\<lambda>(k, w). - w :: real" "filter (\<lambda>(k, w). \<not> py_in k (lower resume)) kws"]
    by (simp add: sorted_map case_prod_beta)
  then have "sorted_wrt (\<lambda>x y. \<exists>v w. (fst x, v) \<in> set kws \<and> (fst y, w) \<in> set kws \<and> w \<le> v) ?ys"
    by (rule sorted_wrt_mono_rel [rotated]) force
  then show "sorted_wrt (\<lambda>a b. \<exists>v w. (a, v) \<in> set kws \<and> (b, w) \<in> set kws \<and> w \<le> v) (get_missing_keywords resume industry)"
    unfolding g sorted_wrt_map .
  show "set (sd_suggestions d) \<subseteq> set (suggest_improvements d resume jd)"
    unfolding suggest_improvements_def Let_def by auto
qed

definition cloud_keywords :: "(str \<times> real) list" where
  "cloud_keywords = (case map_of INDUSTRY_KEYWORDS ''cloud_engineering'' of Some kws \<Rightarrow> kws | None \<Rightarrow> [])"

theorem missing_keywords_spec_witness:
  "set (get_missing_keywords ''Terraform'' ''cloud_engineering'')
     = {k \<in> fst ` set cloud_keywords. \<not> py_in k (lower ''Terraform'')}"
proof -
  have "(''cloud_engineering'', cloud_keywords) \<in> set INDUSTRY_KEYWORDS"
    by (simp add: cloud_keywords_def INDUSTRY_KEYWORDS_def)
  from missing_keywords_spec [OF this, of "''Terraform''", THEN conjunct1] show ?thesis .
qed

end
