(* ===== verification/Parser.thy ===== *)
theory Parser
  imports Regex Storage
begin

text \<open>
  Reading resume text: the sections, contact details and skills of \<^verbatim>\<open>core/documents/parser.py\<close>, the
  structured data of \<^verbatim>\<open>services/resume.py\<close> (\<^verbatim>\<open>_build_resume_data_from_text\<close>) and the profile of the
  route \<^verbatim>\<open>extract_profile_from_resume\<close> (\<^verbatim>\<open>api/v1/resumes.py\<close>). Text is Latin-1, so the bullets outside
  it do not occur; the extraction of text from PDF and DOCX files is a parameter.
\<close>

section \<open>Text helpers\<close>

abbreviation NL :: char where "NL \<equiv> CHR 10"
abbreviation MIDDOT :: char where "MIDDOT \<equiv> CHR 0xB7"

definition lstrip_chars :: "str \<Rightarrow> str \<Rightarrow> str" where
  "lstrip_chars cs s = dropWhile (\<lambda>c. c \<in> set cs) s"

definition rstrip_chars :: "str \<Rightarrow> str \<Rightarrow> str" where
  "rstrip_chars cs s = rev (dropWhile (\<lambda>c. c \<in> set cs) (rev s))"

text \<open>\<^verbatim>\<open>re.split\<close> on one character of a class.\<close>

fun split_class :: "(char \<Rightarrow> bool) \<Rightarrow> str \<Rightarrow> str list" where
  "split_class p [] = [[]]"
| "split_class p (c # cs) =
     (if p c then [] # split_class p cs
      else (case split_class p cs of [] \<Rightarrow> [[c]] | w # ws \<Rightarrow> (c # w) # ws))"

text \<open>Assigning to a key of a dict: in place when the key is there, at the end otherwise.\<close>

fun dict_put :: "'k \<Rightarrow> 'v \<Rightarrow> ('k \<times> 'v) list \<Rightarrow> ('k \<times> 'v) list" where
  "dict_put k v [] = [(k, v)]"
| "dict_put k v ((j, w) # d) = (if j = k then (k, v) # d else (j, w) # dict_put k v d)"

definition dict_or_empty :: "(str \<times> str) list \<Rightarrow> str \<Rightarrow> str" where
  "dict_or_empty d k = (case map_of d k of None \<Rightarrow> [] | Some v \<Rightarrow> v)"

text \<open>The first value that is not empty (\<^verbatim>\<open>a or b or c\<close>).\<close>

fun first_nonempty :: "str list \<Rightarrow> str" where
  "first_nonempty [] = []"
| "first_nonempty [x] = x"
| "first_nonempty (x # xs) = (if x \<noteq> [] then x else first_nonempty xs)"

section \<open>Tables\<close>

definition SECTION_HEADERS :: "str list" where
  "SECTION_HEADERS =
     [''summary'', ''objective'', ''professional summary'', ''profile'',
      ''experience'', ''work experience'', ''professional experience'', ''employment'',
      ''education'', ''academic background'',
      ''skills'', ''technical skills'', ''core competencies'', ''competencies'',
      ''certifications'', ''certificates'', ''licenses'',
      ''projects'', ''personal projects'', ''key projects'',
      ''publications'', ''awards'', ''honors'',
      ''volunteer'', ''volunteering'', ''community involvement'',
      ''languages'', ''interests'', ''references'']"

definition is_letter :: "char \<Rightarrow> bool" where
  "is_letter c \<longleftrightarrow> is_upper_az c \<or> is_lower_az c"

definition slug_rx :: rx where
  "slug_rx = RPlus (RChr (\<lambda>c. is_letter c \<or> is_digit c \<or> c = CHR ''_'' \<or> c = CHR ''-''))"

definition EMAIL_RE :: rx where
  "EMAIL_RE = RSeqs
     [RPlus (RChr (\<lambda>c. is_letter c \<or> is_digit c \<or> c \<in> set ''._%+-'')), RLit CHR ''@'',
      RPlus (RChr (\<lambda>c. is_letter c \<or> is_digit c \<or> c \<in> set ''.-'')), RLit CHR ''.'',
      RAtLeast 2 (RChr is_letter)]"

definition phone_sep :: rx where
  "phone_sep = ROpt (RChr (\<lambda>c. c = CHR ''-'' \<or> c = CHR ''.'' \<or> is_space c))"

definition PHONE_RE :: rx where
  "PHONE_RE = RSeqs
     [ROpt (RSeqs [ROpt (RLit CHR ''+''), RLit CHR ''1'', phone_sep]), ROpt (RLit CHR ''(''),
      RRep 3 0 (RChr is_digit), ROpt (RLit CHR '')''), phone_sep,
      RRep 3 0 (RChr is_digit), phone_sep, RRep 4 0 (RChr is_digit)]"

definition site_rx :: "str \<Rightarrow> rx" where
  "site_rx host = RSeqs
     [ROpt (RSeqs [RStr ''http'', ROpt (RLit CHR ''s''), RStr ''://'']), ROpt (RStr ''www.''), RStr host, slug_rx]"

definition LINKEDIN_RE :: rx where "LINKEDIN_RE = site_rx ''linkedin.com/in/''"
definition GITHUB_RE :: rx where "GITHUB_RE = site_rx ''github.com/''"

text \<open>\<^verbatim>\<open>re.search(...)\<close> and \<^verbatim>\<open>match.group()\<close>.\<close>

definition search_text :: "rx \<Rightarrow> str \<Rightarrow> str option" where
  "search_text r s = (case search_from r s 0 of None \<Rightarrow> None | Some (i, j) \<Rightarrow> Some (slice s i j))"

section \<open>The document parser\<close>

definition header_of :: "str \<Rightarrow> str" where
  "header_of line = rstrip_chars '':'' (lower (strip line))"

text \<open>The loop of \<^verbatim>\<open>_extract_sections\<close>: the sections so far, the open one and its lines.\<close>

definition close_section ::
  "(str \<times> str) list \<Rightarrow> str option \<Rightarrow> str list \<Rightarrow> (str \<times> str) list" where
  "close_section secs cur ls =
     (case cur of None \<Rightarrow> secs | Some h \<Rightarrow> dict_put h (strip (join_with [NL] ls)) secs)"

fun section_loop ::
  "str list \<Rightarrow> (str \<times> str) list \<Rightarrow> str option \<Rightarrow> str list \<Rightarrow> (str \<times> str) list" where
  "section_loop [] secs cur ls = close_section secs cur ls"
| "section_loop (line # lines) secs cur ls =
     (if header_of line \<in> set SECTION_HEADERS
      then section_loop lines (close_section secs cur ls) (Some (header_of line)) []
      else section_loop lines secs cur (if cur = None then ls else ls @ [strip line]))"

definition extract_sections :: "str \<Rightarrow> (str \<times> str) list" where
  "extract_sections s = section_loop (split_on NL s) [] None []"

definition extract_contact_info :: "str \<Rightarrow> (str \<times> str) list" where
  "extract_contact_info s =
     concat (map (\<lambda>(k, r). case search_text r s of None \<Rightarrow> [] | Some v \<Rightarrow> [(k, v)])
       [(''email'', EMAIL_RE), (''phone'', PHONE_RE), (''linkedin'', LINKEDIN_RE), (''github'', GITHUB_RE)])"

definition SKILL_KEYS :: "str list" where
  "SKILL_KEYS = [''skills'', ''technical skills'', ''core competencies'', ''competencies'']"

definition skills_source :: "str \<Rightarrow> (str \<times> str) list \<Rightarrow> str" where
  "skills_source s secs =
     (let t = (case List.find (\<lambda>k. map_of secs k \<noteq> None) SKILL_KEYS of None \<Rightarrow> [] | Some k \<Rightarrow> dict_or_empty secs k)
      in if t = [] then s else t)"

definition line_skills :: "str \<Rightarrow> str list" where
  "line_skills raw =
     (let line = strip raw in
      if line = [] then []
      else (case List.find (\<lambda>d. d \<in> set line) '',|;'' of
              Some d \<Rightarrow> filter (\<lambda>x. x \<noteq> []) (map strip (split_on d line))
            | None \<Rightarrow>
                (let cleaned = strip (lstrip_chars ''-* '' line)
                 in if cleaned \<noteq> [] \<and> length cleaned < 60 then [cleaned] else [])))"

fun dedup_skills :: "str list \<Rightarrow> str list \<Rightarrow> str list" where
  "dedup_skills seen [] = []"
| "dedup_skills seen (x # xs) =
     (if lower x \<notin> set seen \<and> 1 < length x then x # dedup_skills (lower x # seen) xs
      else dedup_skills seen xs)"

definition extract_skills_from_text :: "str \<Rightarrow> (str \<times> str) list \<Rightarrow> str list" where
  "extract_skills_from_text s secs =
     dedup_skills [] (concat (map line_skills (split_on NL (skills_source s secs))))"

record parsed_resume =
  pr_raw_text :: str
  pr_file_path :: str
  pr_file_format :: str
  pr_sections :: "(str \<times> str) list"
  pr_contact_info :: "(str \<times> str) list"
  pr_skills :: "str list"
  pr_word_count :: nat

text \<open>
  \<^verbatim>\<open>Path(p).suffix\<close> of the last component: from its last dot on, unless the dot begins or ends it.
\<close>

definition path_suffix :: "str \<Rightarrow> str" where
  "path_suffix p =
     (let name = last (split_on CHR ''/'' p); ext = takeWhile (\<lambda>c. c \<noteq> CHR ''.'') (rev name)
      in if CHR ''.'' \<in> set name \<and> ext \<noteq> [] \<and> length ext + 1 < length name then CHR ''.'' # rev ext else [])"

text \<open>
  \<^verbatim>\<open>parse\<close>: \<open>content\<close> is the file's content when it exists, \<open>extract\<close> what the libraries read from it,
  page by page or paragraph by paragraph, or the text of their exception.
\<close>

definition join_pages :: "str \<Rightarrow> str \<Rightarrow> str list \<Rightarrow> exn + str" where
  "join_pages path kind pages =
     (if pages = [] then Inl (ParseError path (''No text content found in '' @ kind))
      else Inr (join_with [NL] pages))"

definition parse_document ::
  "(str \<Rightarrow> str \<Rightarrow> str + str list) \<Rightarrow> str \<Rightarrow> str option \<Rightarrow> exn + parsed_resume" where
  "parse_document extract path content =
     (let sfx = lower (path_suffix path) in
      case content of
        None \<Rightarrow> Inl (ParseError path ''File does not exist'')
      | Some bytes \<Rightarrow>
          if sfx \<notin> {''.pdf'', ''.docx''} then
            Inl (ParseError path (''Unsupported format '' @ CHR 39 # sfx @ CHR 39 # ''. Supported: .pdf, .docx''))
          else
            (case (case extract sfx bytes of
                     Inl m \<Rightarrow> Inl (ParseError path m)
                   | Inr ps \<Rightarrow>
                       if sfx = ''.pdf'' then join_pages path ''PDF'' (filter (\<lambda>p. p \<noteq> []) ps)
                       else join_pages path ''DOCX'' (filter (\<lambda>p. p \<noteq> []) (map strip ps))) of
               Inl e \<Rightarrow> Inl e
             | Inr raw \<Rightarrow>
                 (let secs = extract_sections raw in
                  Inr \<lparr>pr_raw_text = raw, pr_file_path = path, pr_file_format = lstrip_chars ''.'' sfx,
                    pr_sections = secs, pr_contact_info = extract_contact_info raw,
                    pr_skills = extract_skills_from_text raw secs, pr_word_count = length (split_ws raw)\<rparr>)))"

section \<open>Structured resume data\<close>

record experience_item =
  xi_title :: str
  xi_company :: str
  xi_duration :: str
  xi_description :: str

record education_item =
  ei_degree :: str
  ei_institution :: str
  ei_year :: str

record resume_data =
  rx_name :: str
  rx_email :: str
  rx_phone :: str
  rx_location :: str
  rx_linkedin :: str
  rx_github :: str
  rx_title :: str
  rx_summary :: str
  rx_skills :: "str list"
  rx_experience :: "experience_item list"
  rx_education :: "education_item list"
  rx_certifications :: "str list"
  rx_projects :: "(str \<times> str) list"

text \<open>The loop of \<^verbatim>\<open>_build_resume_data_from_text\<close>, where the empty string stands for no open section.\<close>

definition build_close :: "(str \<times> str) list \<Rightarrow> str \<Rightarrow> str list \<Rightarrow> (str \<times> str) list" where
  "build_close secs cur ls = (if cur = [] then secs else dict_put cur (strip (join_with [NL] ls)) secs)"

fun build_loop :: "str list \<Rightarrow> (str \<times> str) list \<Rightarrow> str \<Rightarrow> str list \<Rightarrow> (str \<times> str) list" where
  "build_loop [] secs cur ls = build_close secs cur ls"
| "build_loop (line # lines) secs cur ls =
     (if header_of line \<in> lower ` set SECTION_HEADERS
      then build_loop lines (build_close secs cur ls) (header_of line) []
      else if cur \<noteq> [] then build_loop lines secs cur (ls @ [strip line])
      else build_loop lines secs cur ls)"

definition build_sections :: "str \<Rightarrow> (str \<times> str) list" where
  "build_sections s = build_loop (tl (split_on NL s)) [] [] []"

definition title_line :: "str \<Rightarrow> bool" where
  "title_line x \<longleftrightarrow> hd x \<notin> set [CHR ''-'', CHR ''*'', MIDDOT] \<and> length x < 80"

fun experience_loop :: "str list \<Rightarrow> experience_item option \<Rightarrow> experience_item list" where
  "experience_loop [] cur = (case cur of None \<Rightarrow> [] | Some e \<Rightarrow> [e])"
| "experience_loop (raw # lines) cur =
     (let line = strip raw in
      if line = [] then experience_loop lines cur
      else if title_line line then
        (case cur of None \<Rightarrow> [] | Some e \<Rightarrow> [e])
        @ experience_loop lines (Some \<lparr>xi_title = line, xi_company = [], xi_duration = [], xi_description = []\<rparr>)
      else
        experience_loop lines
          (map_option (\<lambda>e. e\<lparr>xi_description := xi_description e @ lstrip_chars [CHR ''-'', CHR ''*'', MIDDOT, CHR '' ''] line @ [NL]\<rparr>) cur))"

definition parse_experience_section :: "str \<Rightarrow> experience_item list" where
  "parse_experience_section s = experience_loop (split_on NL s) None"

definition parse_education_section :: "str \<Rightarrow> education_item list" where
  "parse_education_section s =
     map (\<lambda>l. \<lparr>ei_degree = l, ei_institution = [], ei_year = []\<rparr>)
       (filter (\<lambda>l. l \<noteq> [] \<and> hd l \<notin> set ''-*'') (map strip (split_on NL s)))"

definition build_resume_data :: "str \<Rightarrow> resume_data" where
  "build_resume_data s =
     (let secs = build_sections s; sec = dict_or_empty secs;
          skills_text = first_nonempty [sec ''skills'', sec ''technical skills''];
          exp_text = first_nonempty [sec ''experience'', sec ''work experience'', sec ''professional experience''];
          edu_text = first_nonempty [sec ''education'', sec ''academic background''];
          cert_text = first_nonempty [sec ''certifications'', sec ''certificates''];
          found = (\<lambda>r. or_empty (search_text r s))
      in \<lparr>rx_name = strip (hd (split_on NL s)), rx_email = found EMAIL_RE, rx_phone = found PHONE_RE,
          rx_location = [], rx_linkedin = found LINKEDIN_RE, rx_github = found GITHUB_RE, rx_title = [],
          rx_summary = first_nonempty [sec ''summary'', sec ''professional summary'', sec ''objective'', sec ''profile''],
          rx_skills = filter (\<lambda>x. x \<noteq> [])
            (map strip (split_class (\<lambda>c. c \<in> set [CHR '','', NL, MIDDOT, CHR ''|'']) skills_text)),
          rx_experience = (if exp_text = [] then [] else parse_experience_section exp_text),
          rx_education = (if edu_text = [] then [] else parse_education_section edu_text),
          rx_certifications = filter (\<lambda>x. x \<noteq> []) (map strip (split_on NL cert_text)),
          rx_projects = []\<rparr>)"

section \<open>The profile of the route\<close>

record profile_data =
  pd_full_name :: str
  pd_email :: str
  pd_phone :: str
  pd_linkedin :: str
  pd_github :: str
  pd_summary :: str
  pd_skills :: "str list"
  pd_certifications :: "str list"

definition name_line :: "(str \<times> str) list \<Rightarrow> str \<Rightarrow> bool" where
  "name_line secs l \<longleftrightarrow> l \<noteq> [] \<and> rstrip_chars '':'' (lower l) \<notin> fst ` set secs
     \<and> CHR ''@'' \<notin> set l \<and> \<not> py_in ''http'' (lower l)"

definition first_section :: "(str \<times> str) list \<Rightarrow> str list \<Rightarrow> str option" where
  "first_section secs ks = Option.bind (List.find (\<lambda>k. map_of secs k \<noteq> None) ks) (map_of secs)"

definition profile_from_text :: "str \<Rightarrow> profile_data" where
  "profile_from_text content =
     (if strip content = [] then \<lparr>pd_full_name = [], pd_email = [], pd_phone = [], pd_linkedin = [],
        pd_github = [], pd_summary = [], pd_skills = [], pd_certifications = []\<rparr>
      else
        (let contact = dict_or_empty (extract_contact_info content); secs = extract_sections content in
         \<lparr>pd_full_name = (case List.find (name_line secs) (map strip (split_on NL content)) of
            None \<Rightarrow> [] | Some l \<Rightarrow> l),
          pd_email = contact ''email'', pd_phone = contact ''phone'', pd_linkedin = contact ''linkedin'',
          pd_github = contact ''github'',
          pd_summary = or_empty (first_section secs [''summary'', ''objective'', ''professional summary'', ''profile'']),
          pd_skills = extract_skills_from_text content secs,
          pd_certifications =
            (case first_section secs [''certifications'', ''certificates'', ''licenses''] of None \<Rightarrow> []
             | Some t \<Rightarrow> map (\<lambda>l. strip (lstrip_chars ''-* '' l)) (filter (\<lambda>l. strip l \<noteq> []) (split_on NL t)))\<rparr>))"

section \<open>Pieces of a text\<close>

lemma split_on_prefix_piece: "prefix (hd (split_on d s)) s"
  by (induction s) (auto split: list.split)

lemma split_on_piece: "x \<in> set (split_on d s) \<Longrightarrow> sublist x s"
proof (induction s)
  case (Cons c cs)
  show ?case
  proof (cases "c = d")
    case True
    with Cons show ?thesis by (auto intro: sublist_Cons_right [THEN iffD2])
  next
    case False
    obtain w ws where sp: "split_on d cs = w # ws" by (cases "split_on d cs") simp_all
    then have "prefix (c # w) (c # cs)" using split_on_prefix_piece [of d cs] by simp
    then show ?thesis using Cons False sp by (auto simp: sublist_Cons_right)
  qed
qed simp

lemma dropWhile_sublist: "sublist (dropWhile p s) s"
  by (simp add: suffix_dropWhile suffix_imp_sublist)

lemma sublist_rev_iff: "sublist (rev a) (rev b) \<longleftrightarrow> sublist a b"
  by (metis rev_append rev_rev_ident sublist_def append.assoc)

lemma strip_piece: "sublist (strip s) s"
proof -
  have "sublist (rev (dropWhile is_space (rev (lstrip s)))) (lstrip s)"
    using dropWhile_sublist [of is_space "rev (lstrip s)"] sublist_rev_iff by fastforce
  then show ?thesis unfolding strip_def rstrip_def lstrip_def
    using dropWhile_sublist sublist_order.order_trans by blast
qed

lemma lstrip_chars_piece: "sublist (lstrip_chars cs s) s"
  unfolding lstrip_chars_def by (rule dropWhile_sublist)

lemmas pieces = strip_piece lstrip_chars_piece split_on_piece

lemma sublist_trans: "sublist a b \<Longrightarrow> sublist b c \<Longrightarrow> sublist a c"
  by (rule sublist_order.order_trans)

lemma line_skills_piece: "x \<in> set (line_skills l) \<Longrightarrow> sublist x l"
  using strip_piece [of l] strip_piece [of "lstrip_chars ''-* '' (strip l)"] lstrip_chars_piece [of "''-* ''" "strip l"]
  by (auto simp: line_skills_def Let_def split: option.splits if_splits
      intro: sublist_trans [OF strip_piece sublist_trans [OF split_on_piece]] sublist_trans)

lemma dedup_skills_spec:
  "distinct (map lower (dedup_skills seen xs))
   \<and> lower ` set (dedup_skills seen xs) \<inter> set seen = {}
   \<and> set (dedup_skills seen xs) \<subseteq> {x \<in> set xs. 1 < length x}"
proof (induction xs arbitrary: seen)
  case (Cons x xs)
  from Cons [of "lower x # seen"] Cons [of seen] show ?case by auto
qed simp

lemma dedup_skills_complete:
  "x \<in> set xs \<Longrightarrow> 1 < length x \<Longrightarrow> lower x \<in> lower ` set (dedup_skills seen xs) \<union> set seen"
proof (induction xs arbitrary: seen)
  case (Cons y xs)
  show ?case
  proof (cases "x = y")
    case True
    with Cons.prems show ?thesis by simp
  next
    case False
    with Cons.prems have "x \<in> set xs" by simp
    from Cons.IH [OF this Cons.prems(2), of "lower y # seen"] Cons.IH [OF this Cons.prems(2), of seen]
    show ?thesis by auto
  qed
qed simp

lemma slice_piece: "sublist (slice s i j) s"
  unfolding slice_def by (meson sublist_drop sublist_order.order_trans sublist_take)

lemma build_loop_sections:
  "build_loop ls secs cur acc = section_loop ls secs (if cur = [] then None else Some cur) acc"
proof (induction ls arbitrary: secs cur acc)
  case (Cons l ls)
  have low: "lower ` set SECTION_HEADERS = set SECTION_HEADERS"
    unfolding set_map [symmetric] by code_simp
  have "[] \<notin> set SECTION_HEADERS" by (simp add: SECTION_HEADERS_def)
  then have "header_of l \<in> set SECTION_HEADERS \<Longrightarrow> header_of l \<noteq> []" by metis
  then show ?case using Cons by (simp add: low build_close_def close_section_def)
qed (simp add: build_close_def close_section_def)

definition text_lines :: "str \<Rightarrow> str list" where
  "text_lines s = filter (\<lambda>l. l \<noteq> []) (map strip (split_on NL s))"

definition bullet_text :: "str \<Rightarrow> str" where
  "bullet_text l = lstrip_chars [CHR ''-'', CHR ''*'', MIDDOT, CHR '' ''] l @ [NL]"

lemma experience_loop_titles:
  "map xi_title (experience_loop ls cur) =
     (case cur of None \<Rightarrow> [] | Some e \<Rightarrow> [xi_title e])
     @ filter title_line (filter (\<lambda>l. l \<noteq> []) (map strip ls))"
  by (induction ls cur rule: experience_loop.induct) (auto simp: Let_def split: option.splits)

lemma experience_loop_bodies:
  "concat (map xi_description (experience_loop ls cur)) =
     (case cur of None \<Rightarrow> [] | Some e \<Rightarrow> xi_description e)
     @ concat (map bullet_text (filter (\<lambda>l. \<not> title_line l)
         ((if cur = None then dropWhile (\<lambda>l. \<not> title_line l) else id) (filter (\<lambda>l. l \<noteq> []) (map strip ls)))))"
  by (induction ls cur rule: experience_loop.induct)
    (auto simp: Let_def bullet_text_def simp del: filter_filter split: option.splits)

section \<open>Properties\<close>

text \<open>
  the profile read from a resume is grounded in its text. Each skill and each contact detail is a part
  of the text it was read from, the skills are longer than one character and pairwise different whatever
  the case, and no other skill of the lines is lost.
\<close>

theorem profile_grounded:
  "list_all (\<lambda>x. 1 < length x \<and> sublist x (skills_source s secs)) (extract_skills_from_text s secs)
   \<and> distinct (map lower (extract_skills_from_text s secs))
   \<and> lower ` set (extract_skills_from_text s secs)
       = lower ` {x \<in> set (concat (map line_skills (split_on NL (skills_source s secs)))). 1 < length x}
   \<and> list_all (\<lambda>(k, v). sublist v s) (extract_contact_info s)"
proof (intro conjI)
  let ?xs = "concat (map line_skills (split_on NL (skills_source s secs)))"
  have d: "extract_skills_from_text s secs = dedup_skills [] ?xs" by (simp add: extract_skills_from_text_def)
  note spec = dedup_skills_spec [of "[]" ?xs]
  have "sublist x (skills_source s secs)" if "x \<in> set ?xs" for x
    using that by (auto intro: sublist_trans [OF line_skills_piece split_on_piece])
  then show "list_all (\<lambda>x. 1 < length x \<and> sublist x (skills_source s secs)) (extract_skills_from_text s secs)"
    unfolding d list_all_iff using spec by blast
  show "distinct (map lower (extract_skills_from_text s secs))" unfolding d using spec by blast
  show "lower ` set (extract_skills_from_text s secs) = lower ` {x \<in> set ?xs. 1 < length x}"
    unfolding d
  proof (intro equalityI subsetI)
    fix y assume "y \<in> lower ` {x \<in> set ?xs. 1 < length x}"
    then obtain x where "y = lower x" "x \<in> set ?xs" "1 < length x" by blast
    then show "y \<in> lower ` set (dedup_skills [] ?xs)" using dedup_skills_complete [of x ?xs "[]"] by simp
  next
    fix y assume "y \<in> lower ` set (dedup_skills [] ?xs)"
    then show "y \<in> lower ` {x \<in> set ?xs. 1 < length x}" using spec by blast
  qed
  show "list_all (\<lambda>(k, v). sublist v s) (extract_contact_info s)"
    using slice_piece by (auto simp: list_all_iff extract_contact_info_def search_text_def split: option.splits)
qed

text \<open>
  the experience section loses no line after its first title. The entries' titles are its short
  unbulleted lines, in order, and their descriptions together are its other lines without the bullets;
  only the bullets before the first title are dropped.
\<close>

theorem experience_section_kept:
  "map xi_title (parse_experience_section s) = filter title_line (text_lines s)
   \<and> concat (map xi_description (parse_experience_section s))
     = concat (map bullet_text (filter (\<lambda>l. \<not> title_line l) (dropWhile (\<lambda>l. \<not> title_line l) (text_lines s))))"
  using experience_loop_titles [of "split_on NL s" None] experience_loop_bodies [of "split_on NL s" None]
  by (simp add: parse_experience_section_def text_lines_def)

text \<open>
  the two section readers of the program agree: the sections of the structured resume data are those
  that the document parser finds after the first line.
\<close>

theorem section_readers_agree:
  assumes "NL \<notin> set first"
  shows "build_sections (first @ NL # rest) = extract_sections rest"
  using split_on_append [OF assms, of rest] by (simp add: build_sections_def build_loop_sections extract_sections_def)

theorem section_readers_agree_witness:
  "build_sections (''Ann'' @ NL # ''Skills:'' @ NL # ''SQL, C++'') = [(''skills'', ''SQL, C++'')]"
proof -
  have "build_sections (''Ann'' @ NL # ''Skills:'' @ NL # ''SQL, C++'') = extract_sections (''Skills:'' @ NL # ''SQL, C++'')"
    by (rule section_readers_agree) simp
  also have "\<dots> = [(''skills'', ''SQL, C++'')]" by code_simp
  finally show ?thesis .
qed

end
