(* ===== verification/Llm.thy ===== *)
theory Llm
  imports Models
begin

text \<open>
  The unified LLM client (\<^verbatim>\<open>core/llm/client.py\<close>) with its usage accounting
  (\<^verbatim>\<open>core/llm/usage_tracker.py\<close>). LiteLLM is a parameter: \<^verbatim>\<open>acompletion\<close> as a function of the number of
  the attempt and of the request, so that an attempt may answer differently from an earlier one, and
  \<^verbatim>\<open>completion_cost\<close>. The state is the database, the Prometheus samples and the requests sent.
\<close>

section \<open>Requests, completions and failures\<close>

record llm_settings =
  portkey_api_key :: str
  llm_preferred_provider :: str
  fallback_providers :: "str list"
  llm_default_model :: str
  llm_temperature :: real
  llm_max_tokens :: int
  bedrock_region :: str

record llm_credentials =
  cr_provider :: str
  cr_api_key :: str
  cr_default_model :: str

text \<open>The keyword arguments of \<^verbatim>\<open>litellm.acompletion\<close>; an absent one is None.\<close>

record llm_request =
  rq_model :: str
  rq_messages :: "(str \<times> str) list"
  rq_temperature :: real
  rq_max_tokens :: int
  rq_response_format :: "str option"
  rq_metadata :: "str option"
  rq_region :: "str option"
  rq_api_key :: "str option"

record usage =
  us_prompt :: "int option"
  us_completion :: "int option"
  us_total :: "int option"

record completion =
  cp_usage :: "usage option"
  cp_choices :: "str option list"

text \<open>What an attempt may raise: LiteLLM's three classes that the client names, or anything else.\<close>

datatype llm_failure =
    RateLimited str
  | TimedOut str
  | ApiFailure str
  | OtherFailure str

record litellm =
  acompletion :: "nat \<Rightarrow> llm_request \<Rightarrow> llm_failure + completion"
  completion_cost :: "completion \<Rightarrow> str + real"
  new_usage :: usage
  latency :: "nat \<Rightarrow> real"
  usage_session :: bool
  usage_now :: int

text \<open>
  \<open>latency n\<close> is the time the n-th attempt takes, in seconds, and \<open>usage_session\<close> tells whether the
  dedicated session of the usage row can be opened, \<open>usage_now\<close> is the row's \<^verbatim>\<open>created_at\<close>.
\<close>

record llm_response =
  lr_content :: str
  lr_model :: str
  lr_provider :: str
  lr_prompt_tokens :: int
  lr_completion_tokens :: int
  lr_total_tokens :: int
  lr_cost_usd :: real
  lr_latency_ms :: real

datatype llm_sample =
    RequestsTotal str str str
  | LatencySeconds str str str real
  | TokensTotal str str str int
  | CostUsd str str real

record llm_world =
  lw_db :: db
  lw_samples :: "llm_sample list"
  lw_sent :: "llm_request list"

section \<open>Building a request\<close>

definition build_messages :: "str \<Rightarrow> str \<Rightarrow> (str \<times> str) list" where
  "build_messages prompt system_prompt =
     (if system_prompt \<noteq> [] then [(''system'', system_prompt)] else []) @ [(''user'', prompt)]"

definition starts_with :: "str \<Rightarrow> str \<Rightarrow> bool" where
  "starts_with s p \<longleftrightarrow> take (length p) s = p"

definition is_bedrock_model :: "str \<Rightarrow> bool" where
  "is_bedrock_model m \<longleftrightarrow> starts_with m ''bedrock/''"

definition get_model_chain :: "llm_settings \<Rightarrow> llm_credentials option \<Rightarrow> str option \<Rightarrow> str list" where
  "get_model_chain st creds model =
     (case creds of
        Some c \<Rightarrow> [if truthy model then or_empty model else cr_default_model c]
      | None \<Rightarrow>
         (let primary = (if truthy model then or_empty model else llm_default_model st)
          in if is_bedrock_model primary then [primary]
             else primary # map (\<lambda>p. p @ ''/'' @ last (split_on CHR ''/'' primary)) (fallback_providers st)))"

definition portkey_metadata :: "llm_settings \<Rightarrow> str option" where
  "portkey_metadata st = (if portkey_api_key st = [] then None else Some (portkey_api_key st))"

definition provider_of :: "str \<Rightarrow> str" where
  "provider_of m = (if CHR ''/'' \<in> set m then hd (split_on CHR ''/'' m) else ''openai'')"

record call_args =
  ca_prompt :: str
  ca_system :: str
  ca_model :: "str option"
  ca_temperature :: "real option"
  ca_max_tokens :: "int option"
  ca_format :: "str option"
  ca_purpose :: str

definition request_for :: "llm_settings \<Rightarrow> llm_credentials option \<Rightarrow> call_args \<Rightarrow> str \<Rightarrow> llm_request" where
  "request_for st creds a m =
     \<lparr>rq_model = m, rq_messages = build_messages (ca_prompt a) (ca_system a),
      rq_temperature = (case ca_temperature a of Some t \<Rightarrow> t | None \<Rightarrow> llm_temperature st),
      rq_max_tokens = (case ca_max_tokens a of Some t \<Rightarrow> t | None \<Rightarrow> llm_max_tokens st),
      rq_response_format = ca_format a, rq_metadata = portkey_metadata st,
      rq_region = (if is_bedrock_model m then Some (bedrock_region st) else None),
      rq_api_key = (if is_bedrock_model m then None else map_option cr_api_key creds)\<rparr>"

section \<open>Metrics and usage rows\<close>

definition record_metrics ::
  "str \<Rightarrow> str \<Rightarrow> str \<Rightarrow> str \<Rightarrow> real \<Rightarrow> int \<Rightarrow> int \<Rightarrow> real \<Rightarrow> llm_world \<Rightarrow> llm_world" where
  "record_metrics provider model purpose status secs prompt_n completion_n cost w =
     w\<lparr>lw_samples := lw_samples w
         @ [RequestsTotal provider model status, LatencySeconds provider model purpose secs]
         @ (if prompt_n \<noteq> 0 then [TokensTotal provider model ''prompt'' prompt_n] else [])
         @ (if completion_n \<noteq> 0 then [TokensTotal provider model ''completion'' completion_n] else [])
         @ (if cost > 0 then [CostUsd provider model cost] else [])\<rparr>"

definition all_purposes :: "llm_purpose list" where
  "all_purposes = [RESUME_TAILOR, COVER_LETTER, ATS_OPTIMIZE, JOB_ANALYSIS, HARNESS_JUDGE, SKILL_DISTILL, GENERAL]"

definition coerce_purpose :: "str \<Rightarrow> llm_purpose" where
  "coerce_purpose p =
     (case List.find (\<lambda>x. purpose_value x = p) all_purposes of Some x \<Rightarrow> x | None \<Rightarrow> GENERAL)"

text \<open>\<^verbatim>\<open>int(x)\<close> of a float truncates towards zero.\<close>

definition py_int :: "real \<Rightarrow> int" where
  "py_int x = (if 0 \<le> x then \<lfloor>x\<rfloor> else \<lceil>x\<rceil>)"

definition usage_row ::
  "str \<Rightarrow> llm_response \<Rightarrow> str \<Rightarrow> str option \<Rightarrow> str \<Rightarrow> str option \<Rightarrow> int \<Rightarrow> llm_usage" where
  "usage_row user r purpose trace status err now =
     \<lparr>lu_user = user, lu_provider = lr_provider r, lu_model = lr_model r,
      lu_prompt_tokens = lr_prompt_tokens r, lu_completion_tokens = lr_completion_tokens r,
      lu_total_tokens = lr_total_tokens r, lu_cost_usd = lr_cost_usd r,
      lu_latency_ms = py_int (lr_latency_ms r), lu_purpose = coerce_purpose purpose,
      lu_trace = trace, lu_status = Some status,
      lu_error = (if truthy err then Some (take 500 (or_empty err)) else None), lu_created_at = now\<rparr>"

definition record_usage ::
  "str \<Rightarrow> llm_response \<Rightarrow> str \<Rightarrow> str option \<Rightarrow> str \<Rightarrow> str option \<Rightarrow> int \<Rightarrow> (db, exn, llm_usage) op" where
  "record_usage user r purpose trace status err now d =
     (let row = usage_row user r purpose trace status err now
      in case commit (d\<lparr>llm_usages := llm_usages d @ [row]\<rparr>) d of
           (d', Inl e) \<Rightarrow> (d', Inl e)
         | (d', Inr _) \<Rightarrow> (d', Inr row))"

text \<open>A failure to open the session or to commit is logged and swallowed.\<close>

definition persist_usage_for_user ::
  "litellm \<Rightarrow> str \<Rightarrow> llm_response \<Rightarrow> str \<Rightarrow> str option \<Rightarrow> db \<Rightarrow> db" where
  "persist_usage_for_user L user r purpose trace d =
     (if usage_session L then fst (record_usage user r purpose trace ''success'' None (usage_now L) d) else d)"

definition persist_usage :: "litellm \<Rightarrow> str option \<Rightarrow> llm_response \<Rightarrow> str \<Rightarrow> llm_world \<Rightarrow> llm_world" where
  "persist_usage L user r purpose w =
     (if \<not> truthy user then w
      else w\<lparr>lw_db := persist_usage_for_user L (or_empty user) r purpose None (lw_db w)\<rparr>)"

section \<open>Completion with fallback\<close>

definition int_or_zero :: "int option \<Rightarrow> int" where
  "int_or_zero x = (case x of None \<Rightarrow> 0 | Some n \<Rightarrow> n)"

fun failure_status :: "llm_failure \<Rightarrow> str" where
  "failure_status (RateLimited _) = ''rate_limited''"
| "failure_status (TimedOut _) = ''timeout''"
| "failure_status (ApiFailure _) = ''error''"
| "failure_status (OtherFailure _) = ''error''"

text \<open>
  One turn of the loop: the request, then the \<^verbatim>\<open>try\<close> block. A completion without choices raises an
  \<^verbatim>\<open>IndexError\<close> after the success has been counted, which the last handler catches.
\<close>

definition try_model ::
  "litellm \<Rightarrow> llm_settings \<Rightarrow> llm_credentials option \<Rightarrow> str option \<Rightarrow> call_args \<Rightarrow> nat \<Rightarrow> str \<Rightarrow> llm_world
     \<Rightarrow> llm_world \<times> (llm_failure + llm_response)" where
  "try_model L st creds user a n m w =
     (let rq = request_for st creds a m;
          w1 = w\<lparr>lw_sent := lw_sent w @ [rq]\<rparr>;
          p = provider_of m;
          failed = (\<lambda>e v. (record_metrics p m (ca_purpose a) (failure_status e) (latency L n) 0 0 0 v, Inl e))
      in case acompletion L n rq of
           Inl e \<Rightarrow> failed e w1
         | Inr c \<Rightarrow>
            (let u = (case cp_usage c of Some u \<Rightarrow> u | None \<Rightarrow> new_usage L);
                 cost = (case completion_cost L c of Inr x \<Rightarrow> x | Inl _ \<Rightarrow> 0);
                 w2 = record_metrics p m (ca_purpose a) ''success'' (latency L n)
                        (int_or_zero (us_prompt u)) (int_or_zero (us_completion u)) cost w1
             in case cp_choices c of
                  [] \<Rightarrow> failed (OtherFailure ''list index out of range'') w2
                | x # _ \<Rightarrow>
                   (let r = \<lparr>lr_content = or_empty x, lr_model = m, lr_provider = p,
                             lr_prompt_tokens = int_or_zero (us_prompt u),
                             lr_completion_tokens = int_or_zero (us_completion u),
                             lr_total_tokens = int_or_zero (us_total u),
                             lr_cost_usd = cost, lr_latency_ms = latency L n * 1000\<rparr>
                    in (persist_usage L user r (ca_purpose a) w2, Inr r))))"

fun try_models ::
  "litellm \<Rightarrow> llm_settings \<Rightarrow> llm_credentials option \<Rightarrow> str option \<Rightarrow> call_args \<Rightarrow> nat \<Rightarrow> str list
     \<Rightarrow> llm_failure option \<Rightarrow> llm_world \<Rightarrow> llm_world \<times> (llm_failure option + llm_response)" where
  "try_models L st creds user a n [] last_error w = (w, Inl last_error)"
| "try_models L st creds user a n (m # ms) last_error w =
     (case try_model L st creds user a n m w of
        (w', Inr r) \<Rightarrow> (w', Inr r)
      | (w', Inl e) \<Rightarrow> try_models L st creds user a (Suc n) ms (Some e) w')"

fun failure_text :: "llm_failure \<Rightarrow> str" where
  "failure_text (RateLimited s) = s"
| "failure_text (TimedOut s) = s"
| "failure_text (ApiFailure s) = s"
| "failure_text (OtherFailure s) = s"

definition list_repr :: "str list \<Rightarrow> str" where
  "list_repr xs = ''['' @ join_with '', '' (map (\<lambda>x. [CHR 39] @ x @ [CHR 39]) xs) @ '']''"

definition exhausted :: "str list \<Rightarrow> llm_failure option \<Rightarrow> exn" where
  "exhausted chain last_error =
     (case last_error of
        Some (RateLimited _) \<Rightarrow> LLMRateLimitError (last chain)
      | Some (TimedOut _) \<Rightarrow> LLMTimeoutError (''All models timed out: '' @ list_repr chain)
      | Some e \<Rightarrow> LLMProviderError (last chain) (failure_text e)
      | None \<Rightarrow> LLMProviderError (last chain) ''Unknown error'')"

definition complete_call ::
  "litellm \<Rightarrow> llm_settings \<Rightarrow> llm_credentials option \<Rightarrow> str option \<Rightarrow> call_args
     \<Rightarrow> (llm_world, exn, llm_response) op" where
  "complete_call L st creds user a w =
     (let chain = get_model_chain st creds (ca_model a)
      in case try_models L st creds user a 0 chain None w of
           (w', Inr r) \<Rightarrow> (w', Inr r)
         | (w', Inl e) \<Rightarrow> (w', Inl (exhausted chain e)))"

text \<open>
  Structured output: \<open>schema\<close> is the rendered JSON schema, and \<open>parse\<close> stands for \<^verbatim>\<open>json.loads\<close> with the
  schema's validation, whose failure is an error text.
\<close>

definition structured_system :: "str \<Rightarrow> str \<Rightarrow> str" where
  "structured_system system_prompt schema =
     strip (system_prompt @ [CHR 10, CHR 10] @ ''You MUST respond with valid JSON matching this schema:'' @ [CHR 10]
       @ [CHR 96, CHR 96, CHR 96] @ ''json'' @ [CHR 10] @ schema @ [CHR 10] @ [CHR 96, CHR 96, CHR 96] @ [CHR 10]
       @ ''Respond ONLY with the JSON object, no extra text.'')"

definition complete_with_structured_output ::
  "litellm \<Rightarrow> llm_settings \<Rightarrow> llm_credentials option \<Rightarrow> str option \<Rightarrow> str \<Rightarrow> (str \<Rightarrow> str + 'a)
     \<Rightarrow> str \<Rightarrow> str \<Rightarrow> str option \<Rightarrow> str \<Rightarrow> (llm_world, exn, 'a) op" where
  "complete_with_structured_output L st creds user schema parse prompt system_prompt model purpose w =
     (case complete_call L st creds user
             \<lparr>ca_prompt = prompt, ca_system = structured_system system_prompt schema, ca_model = model,
              ca_temperature = None, ca_max_tokens = None, ca_format = Some ''json_object'',
              ca_purpose = purpose\<rparr> w of
        (w', Inl e) \<Rightarrow> (w', Inl e)
      | (w', Inr r) \<Rightarrow>
         (case parse (lr_content r) of
            Inr x \<Rightarrow> (w', Inr x)
          | Inl m \<Rightarrow> (w', Inl (LLMProviderError (lr_provider r) (''Failed to parse structured output: '' @ m)))))"

section \<open>One attempt\<close>

text \<open>
  What an attempt comes to, without its effects: the reference that the loop is compared with.
\<close>

definition outcome ::
  "litellm \<Rightarrow> llm_settings \<Rightarrow> llm_credentials option \<Rightarrow> call_args \<Rightarrow> nat \<Rightarrow> str \<Rightarrow> llm_failure + llm_response" where
  "outcome L st creds a n m =
     (case acompletion L n (request_for st creds a m) of
        Inl e \<Rightarrow> Inl e
      | Inr c \<Rightarrow>
         (let u = (case cp_usage c of Some u \<Rightarrow> u | None \<Rightarrow> new_usage L)
          in if cp_choices c = [] then Inl (OtherFailure ''list index out of range'')
             else Inr \<lparr>lr_content = or_empty (hd (cp_choices c)), lr_model = m, lr_provider = provider_of m,
                       lr_prompt_tokens = int_or_zero (us_prompt u),
                       lr_completion_tokens = int_or_zero (us_completion u),
                       lr_total_tokens = int_or_zero (us_total u),
                       lr_cost_usd = (case completion_cost L c of Inr x \<Rightarrow> x | Inl _ \<Rightarrow> 0),
                       lr_latency_ms = latency L n * 1000\<rparr>))"

lemma try_model_outcome: "snd (try_model L st creds user a n m w) = outcome L st creds a n m"
  by (simp add: try_model_def outcome_def Let_def split: sum.split list.split)

lemma outcome_model: "outcome L st creds a n m = Inr r \<Longrightarrow> lr_model r = m \<and> lr_provider r = provider_of m"
  by (auto simp: outcome_def Let_def split: sum.splits if_splits)

lemma record_metrics_keeps [simp]:
  "lw_db (record_metrics p m u s t i j c w) = lw_db w"
  "lw_sent (record_metrics p m u s t i j c w) = lw_sent w"
  by (simp_all add: record_metrics_def)

lemma persist_usage_sent [simp]: "lw_sent (persist_usage L user r p w) = lw_sent w"
  by (simp add: persist_usage_def)

lemma try_model_sent: "lw_sent (fst (try_model L st creds user a n m w)) = lw_sent w @ [request_for st creds a m]"
  by (simp add: try_model_def Let_def split: sum.split list.split)

text \<open>The usage row is the only change to the database, and only a response makes one.\<close>

definition answer :: "'e + 'a \<Rightarrow> 'a option" where
  "answer x = (case x of Inl _ \<Rightarrow> None | Inr y \<Rightarrow> Some y)"

lemma answer_simps [simp]: "answer (Inl e) = None" "answer (Inr y) = Some y"
  by (simp_all add: answer_def)

definition billed :: "litellm \<Rightarrow> str option \<Rightarrow> str \<Rightarrow> llm_response option \<Rightarrow> llm_usage list" where
  "billed L user purpose out =
     (case out of
        Some r \<Rightarrow> if usage_session L \<and> truthy user
                 then [usage_row (or_empty user) r purpose None ''success'' None (usage_now L)] else []
      | None \<Rightarrow> [])"

lemma db_ok_usages [simp]: "db_ok (d\<lparr>llm_usages := us\<rparr>) = db_ok d"
  by (simp add: db_ok_def pk_ok_def uq_shared_def)

lemma persist_usage_db:
  assumes "db_ok (lw_db w)"
  shows "lw_db (persist_usage L user r purpose w) =
    lw_db w\<lparr>llm_usages := llm_usages (lw_db w) @ billed L user purpose (Some r)\<rparr>"
  using assms
  by (simp add: persist_usage_def persist_usage_for_user_def record_usage_def commit_def billed_def Let_def)

lemma try_model_db:
  assumes "db_ok (lw_db w)"
  shows "lw_db (fst (try_model L st creds user a n m w)) =
    lw_db w\<lparr>llm_usages := llm_usages (lw_db w)
      @ billed L user (ca_purpose a) (answer (outcome L st creds a n m))\<rparr>"
proof (cases "acompletion L n (request_for st creds a m)")
  case (Inl e)
  then show ?thesis by (simp add: try_model_def outcome_def billed_def Let_def)
next
  case (Inr c)
  then show ?thesis using assms
    by (cases "cp_choices c") (simp_all add: try_model_def outcome_def billed_def Let_def persist_usage_db)
qed

section \<open>The loop\<close>

text \<open>The first model from the n-th on that answers, and the failures before it.\<close>

fun first_answer :: "(nat \<Rightarrow> str \<Rightarrow> llm_failure + llm_response) \<Rightarrow> nat \<Rightarrow> str list \<Rightarrow> nat \<times> (llm_failure option + llm_response)
    \<Rightarrow> nat \<times> (llm_failure option + llm_response)" where
  "first_answer out n [] r = r"
| "first_answer out n (m # ms) (k, _) =
     (case out n m of Inr r \<Rightarrow> (Suc k, Inr r) | Inl e \<Rightarrow> first_answer out (Suc n) ms (Suc k, Inl (Some e)))"

lemma try_models_answer:
  "snd (try_models L st creds user a n ms e w) =
     snd (first_answer (outcome L st creds a) n ms (k, Inl e))"
proof (induction ms arbitrary: n e w k)
  case (Cons m ms)
  have o: "snd (try_model L st creds user a n m w) = outcome L st creds a n m" by (rule try_model_outcome)
  show ?case
    by (cases "try_model L st creds user a n m w"; cases "outcome L st creds a n m")
       (use o in \<open>auto simp: Cons.IH [where k = "Suc k"]\<close>)
qed simp

lemma first_answer_found:
  assumes "i < length ms" and "\<And>j. j < i \<Longrightarrow> \<exists>e. out (n + j) (ms ! j) = Inl e" and "out (n + i) (ms ! i) = Inr r"
  shows "first_answer out n ms (k, e) = (k + Suc i, Inr r)"
  using assms
proof (induction ms arbitrary: n i k e)
  case (Cons m ms)
  show ?case
  proof (cases i)
    case 0
    with Cons.prems show ?thesis by simp
  next
    case (Suc j)
    from Cons.prems(2) [of 0] obtain x where "out n m = Inl x" using Suc by auto
    moreover have "first_answer out (Suc n) ms (Suc k, Inl (Some x)) = (Suc k + Suc j, Inr r)"
    proof (rule Cons.IH)
      show "\<exists>e. out (Suc n + l) (ms ! l) = Inl e" if "l < j" for l
        using Cons.prems(2) [of "Suc l"] that Suc by simp
    qed (use Cons.prems Suc in simp_all)
    ultimately show ?thesis using Suc by simp
  qed
qed simp

lemma first_answer_none:
  assumes "\<And>j. j < length ms \<Longrightarrow> \<exists>e. out (n + j) (ms ! j) = Inl e" and "ms \<noteq> []"
  shows "\<exists>e. out (n + (length ms - 1)) (last ms) = Inl e \<and> first_answer out n ms (k, x) = (k + length ms, Inl (Some e))"
  using assms
proof (induction ms arbitrary: n k x)
  case (Cons m ms)
  from Cons.prems(1) [of 0] obtain e where e: "out n m = Inl e" by auto
  show ?case
  proof (cases "ms = []")
    case True
    with e show ?thesis by simp
  next
    case False
    have "\<exists>e'. out (Suc n + (length ms - 1)) (last ms) = Inl e'
        \<and> first_answer out (Suc n) ms (Suc k, Inl (Some e)) = (Suc k + length ms, Inl (Some e'))"
      by (rule Cons.IH) (use Cons.prems(1) [of "Suc j" for j] False in auto)
    with e False show ?thesis by (cases ms) simp_all
  qed
qed simp

text \<open>The requests of a call are those of the models it reached, in order.\<close>

lemma try_models_sent:
  "lw_sent (fst (try_models L st creds user a n ms e w)) =
     lw_sent w @ map (request_for st creds a) (take (fst (first_answer (outcome L st creds a) n ms (0, Inl e))) ms)"
proof -
  have shift: "fst (first_answer out n ms (Suc k, x)) = Suc (fst (first_answer out n ms (k, x)))"
    for out n ms k x
    by (induction ms arbitrary: n k x) (auto split: sum.split)
  show ?thesis
  proof (induction ms arbitrary: n e w)
    case (Cons m ms)
    have o: "snd (try_model L st creds user a n m w) = outcome L st creds a n m" by (rule try_model_outcome)
    have s: "lw_sent (fst (try_model L st creds user a n m w)) = lw_sent w @ [request_for st creds a m]"
      by (rule try_model_sent)
    show ?case
      by (cases "try_model L st creds user a n m w"; cases "outcome L st creds a n m")
         (use o s Cons.IH in \<open>auto simp: shift\<close>)
  qed simp
qed

lemma try_models_db:
  assumes "db_ok (lw_db w)"
  shows "lw_db (fst (try_models L st creds user a n ms e w)) =
    lw_db w\<lparr>llm_usages := llm_usages (lw_db w)
      @ billed L user (ca_purpose a) (answer (snd (try_models L st creds user a n ms e w)))\<rparr>"
  using assms
proof (induction ms arbitrary: n e w)
  case (Cons m ms)
  have o: "snd (try_model L st creds user a n m w) = outcome L st creds a n m" by (rule try_model_outcome)
  note d = try_model_db [OF Cons.prems, of L st creds user a n m]
  show ?case
  proof (cases "try_model L st creds user a n m w")
    case (Pair w' out)
    show ?thesis
    proof (cases out)
      case (Inl x)
      have out: "outcome L st creds a n m = Inl x" using o Pair Inl by simp
      have w': "lw_db w' = lw_db w" using d Pair unfolding out by (simp add: billed_def)
      then have "db_ok (lw_db w')" using Cons.prems by simp
      from Cons.IH [OF this] show ?thesis using Pair Inl w' by simp
    next
      case (Inr r)
      have out: "outcome L st creds a n m = Inr r" using o Pair Inr by simp
      show ?thesis using d Pair Inr unfolding out by simp
    qed
  qed
qed (simp add: billed_def)

lemma get_model_chain_nonempty [simp]: "get_model_chain st creds m \<noteq> []"
  by (simp add: get_model_chain_def Let_def split: option.split)

lemma complete_call_cases:
  "complete_call L st creds user a w =
     (fst (try_models L st creds user a 0 (get_model_chain st creds (ca_model a)) None w),
      case snd (try_models L st creds user a 0 (get_model_chain st creds (ca_model a)) None w) of
        Inr r \<Rightarrow> Inr r | Inl e \<Rightarrow> Inl (exhausted (get_model_chain st creds (ca_model a)) e))"
  by (simp add: complete_call_def Let_def split: prod.split sum.split)

section \<open>Properties\<close>

text \<open>
  the fallback is in the order of the chain and stops at the first answer. If the i-th model is the
  first to answer, the call returns its response after exactly the requests to the models up to it; if
  every model fails, all of them were asked, and the error is determined by the last failure alone.
\<close>

theorem complete_first_answer:
  assumes "chain = get_model_chain st creds (ca_model a)"
  shows "(\<forall>i r. i < length chain \<and> (\<forall>j < i. \<exists>e. outcome L st creds a j (chain ! j) = Inl e)
        \<and> outcome L st creds a i (chain ! i) = Inr r \<longrightarrow>
      snd (complete_call L st creds user a w) = Inr r \<and> lr_model r = chain ! i
      \<and> lw_sent (fst (complete_call L st creds user a w)) =
          lw_sent w @ map (request_for st creds a) (take (Suc i) chain))
    \<and> ((\<forall>j < length chain. \<exists>e. outcome L st creds a j (chain ! j) = Inl e) \<longrightarrow>
      (\<exists>e. outcome L st creds a (length chain - 1) (last chain) = Inl e
        \<and> snd (complete_call L st creds user a w) = Inl (exhausted chain (Some e))
        \<and> lw_sent (fst (complete_call L st creds user a w)) = lw_sent w @ map (request_for st creds a) chain))"
proof (intro conjI allI impI)
  note cc = complete_call_cases [of L st creds user a w, folded assms]
    and ans = try_models_answer [where k = 0]
  fix i r
  assume i: "i < length chain \<and> (\<forall>j < i. \<exists>e. outcome L st creds a j (chain ! j) = Inl e)
    \<and> outcome L st creds a i (chain ! i) = Inr r"
  then have f: "first_answer (outcome L st creds a) 0 chain (0, Inl None) = (Suc i, Inr r)"
    using first_answer_found [of i chain "outcome L st creds a" 0 r 0 "Inl None"] by simp
  show "snd (complete_call L st creds user a w) = Inr r" by (simp add: cc ans f)
  show "lr_model r = chain ! i" using i outcome_model by blast
  show "lw_sent (fst (complete_call L st creds user a w)) =
      lw_sent w @ map (request_for st creds a) (take (Suc i) chain)"
    by (simp add: cc try_models_sent f)
next
  note cc = complete_call_cases [of L st creds user a w, folded assms]
    and ans = try_models_answer [where k = 0]
  assume "\<forall>j < length chain. \<exists>e. outcome L st creds a j (chain ! j) = Inl e"
  moreover have "chain \<noteq> []" using assms by simp
  ultimately obtain e where e: "outcome L st creds a (length chain - 1) (last chain) = Inl e"
      and f: "first_answer (outcome L st creds a) 0 chain (0, Inl None) = (length chain, Inl (Some e))"
    using first_answer_none [of chain "outcome L st creds a" 0 0 "Inl None"] by auto
  have "snd (complete_call L st creds user a w) = Inl (exhausted chain (Some e))"
    by (simp add: cc ans f)
  moreover have "lw_sent (fst (complete_call L st creds user a w)) = lw_sent w @ map (request_for st creds a) chain"
    by (simp add: cc try_models_sent f)
  ultimately show "\<exists>e. outcome L st creds a (length chain - 1) (last chain) = Inl e
      \<and> snd (complete_call L st creds user a w) = Inl (exhausted chain (Some e))
      \<and> lw_sent (fst (complete_call L st creds user a w)) = lw_sent w @ map (request_for st creds a) chain"
    using e by blast
qed

definition sample_llm_settings :: llm_settings where
  "sample_llm_settings =
     \<lparr>portkey_api_key = [], llm_preferred_provider = ''openai'', fallback_providers = [''groq'', ''openrouter''],
      llm_default_model = ''gpt-4o'', llm_temperature = 7 / 10, llm_max_tokens = 4096,
      bedrock_region = ''us-east-1''\<rparr>"

definition sample_args :: call_args where
  "sample_args =
     \<lparr>ca_prompt = ''Hi'', ca_system = [], ca_model = None, ca_temperature = None, ca_max_tokens = None,
      ca_format = None, ca_purpose = ''cover_letter''\<rparr>"

text \<open>A provider that limits the first attempt and answers the second.\<close>

definition sample_litellm :: litellm where
  "sample_litellm =
     \<lparr>acompletion = (\<lambda>n _. if n = 1
        then Inr \<lparr>cp_usage = Some \<lparr>us_prompt = Some 3, us_completion = Some 4, us_total = Some 7\<rparr>,
                  cp_choices = [Some ''Hello'']\<rparr>
        else Inl (RateLimited ''429'')),
      completion_cost = (\<lambda>_. Inl ''unknown model''), new_usage = \<lparr>us_prompt = None, us_completion = None, us_total = None\<rparr>,
      latency = (\<lambda>_. 1), usage_session = True, usage_now = 50\<rparr>"

definition sample_llm_world :: llm_world where
  "sample_llm_world = \<lparr>lw_db = empty_db, lw_samples = [], lw_sent = []\<rparr>"

lemma sample_chain:
  "get_model_chain sample_llm_settings None (ca_model sample_args) = [''gpt-4o'', ''groq/gpt-4o'', ''openrouter/gpt-4o'']"
  by (simp add: get_model_chain_def sample_llm_settings_def sample_args_def is_bedrock_model_def starts_with_def Let_def)

definition sample_response :: llm_response where
  "sample_response =
     \<lparr>lr_content = ''Hello'', lr_model = ''groq/gpt-4o'', lr_provider = ''groq'', lr_prompt_tokens = 3,
      lr_completion_tokens = 4, lr_total_tokens = 7, lr_cost_usd = 0, lr_latency_ms = 1000\<rparr>"

lemma sample_outcomes:
  "outcome sample_litellm sample_llm_settings None sample_args 0 ''gpt-4o'' = Inl (RateLimited ''429'')"
  "outcome sample_litellm sample_llm_settings None sample_args (Suc 0) ''groq/gpt-4o'' = Inr sample_response"
  by (simp_all add: outcome_def sample_litellm_def sample_response_def provider_of_def int_or_zero_def)

theorem complete_first_answer_witness:
  "snd (complete_call sample_litellm sample_llm_settings None (Some ''u1'') sample_args sample_llm_world) = Inr sample_response
   \<and> map rq_model (lw_sent (fst (complete_call sample_litellm sample_llm_settings None (Some ''u1'')
        sample_args sample_llm_world))) = [''gpt-4o'', ''groq/gpt-4o'']"
proof -
  let ?c = "[''gpt-4o'', ''groq/gpt-4o'', ''openrouter/gpt-4o'']"
  have "(1::nat) < length ?c \<and> (\<forall>j < 1. \<exists>e. outcome sample_litellm sample_llm_settings None sample_args j (?c ! j) = Inl e)
      \<and> outcome sample_litellm sample_llm_settings None sample_args 1 (?c ! 1) = Inr sample_response"
    by (simp add: sample_outcomes)
  then have "snd (complete_call sample_litellm sample_llm_settings None (Some ''u1'') sample_args sample_llm_world)
        = Inr sample_response
      \<and> lw_sent (fst (complete_call sample_litellm sample_llm_settings None (Some ''u1'') sample_args sample_llm_world)) =
        lw_sent sample_llm_world @ map (request_for sample_llm_settings None sample_args) (take (Suc 1) ?c)"
    using complete_first_answer [OF sample_chain [symmetric], of sample_litellm "Some ''u1''" sample_llm_world]
    by blast
  then show ?thesis by (simp add: sample_llm_world_def request_for_def)
qed

text \<open>
  keys never cross users or providers. A client with a user's own key asks only that user's
  model, once, with that key (with none for a Bedrock model); a client without one never sends a key.
\<close>

theorem complete_sends_own_key:
  "\<exists>rqs. lw_sent (fst (complete_call L st creds user a w)) = lw_sent w @ rqs
     \<and> map rq_model rqs = take (length rqs) (get_model_chain st creds (ca_model a)) \<and> rqs \<noteq> []
     \<and> (case creds of
          None \<Rightarrow> list_all (\<lambda>rq. rq_api_key rq = None) rqs
        | Some c \<Rightarrow> (\<exists>rq. rqs = [rq]
            \<and> rq_model rq = (if truthy (ca_model a) then or_empty (ca_model a) else cr_default_model c)
            \<and> rq_api_key rq = (if is_bedrock_model (rq_model rq) then None else Some (cr_api_key c))))"
proof -
  let ?c = "get_model_chain st creds (ca_model a)"
  let ?k = "fst (first_answer (outcome L st creds a) 0 ?c (0, Inl None))"
  let ?rqs = "map (request_for st creds a) (take ?k ?c)"
  have s: "lw_sent (fst (complete_call L st creds user a w)) = lw_sent w @ ?rqs"
    by (simp add: complete_call_cases try_models_sent)
  have pos: "0 < ?k"
  proof -
    have mono: "k \<le> fst (first_answer out n ms (k, x))" for out n ms k x
      by (induction ms arbitrary: n k x) (auto split: sum.split intro: Suc_leD)
    obtain m ms where c: "?c = m # ms" by (meson get_model_chain_nonempty neq_Nil_conv)
    show ?thesis unfolding c using mono [of "Suc 0"] by (auto split: sum.split simp: Suc_le_eq)
  qed
  have models: "map rq_model (map (request_for st creds a) ms) = ms" for ms
    by (induction ms) (simp_all add: request_for_def)
  have take_model: "map rq_model ?rqs = take (length ?rqs) ?c" by (simp only: models) (simp add: min_def)
  have one: "take ?k [x] = [x]" for x :: str using pos by (simp add: take_Cons')
  have "case creds of
          None \<Rightarrow> list_all (\<lambda>rq. rq_api_key rq = None) ?rqs
        | Some c \<Rightarrow> (\<exists>rq. ?rqs = [rq]
            \<and> rq_model rq = (if truthy (ca_model a) then or_empty (ca_model a) else cr_default_model c)
            \<and> rq_api_key rq = (if is_bedrock_model (rq_model rq) then None else Some (cr_api_key c)))"
  proof (cases creds)
    case None
    then show ?thesis by (simp add: list_all_iff request_for_def)
  next
    case (Some c)
    have chain: "?c = [if truthy (ca_model a) then or_empty (ca_model a) else cr_default_model c]"
      by (simp add: get_model_chain_def Some)
    have "?rqs = [request_for st creds a (if truthy (ca_model a) then or_empty (ca_model a) else cr_default_model c)]"
      using pos unfolding chain by (simp add: take_Cons')
    then show ?thesis using Some by (simp add: request_for_def)
  qed
  moreover have "?rqs \<noteq> []" using pos by simp
  ultimately show ?thesis using s take_model by blast
qed



end
