(* ===== verification/Secrets.thy ===== *)
theory Secrets
  imports Models
begin

text \<open>
  The secrets of a user: the envelope encryption (\<^verbatim>\<open>core/secrets/local.py\<close>, \<^verbatim>\<open>factory.py\<close>, \<^verbatim>\<open>kms.py\<close>), the
  credential store (\<^verbatim>\<open>core/secrets/credential_store.py\<close>) and the platform sessions
  (\<^verbatim>\<open>services/platform_session.py\<close>). Bytes and their UTF-8 text are both strings here. The
  \<^verbatim>\<open>cryptography\<close> package is the parameter \<open>fernet\<close>, whose laws are the locale \<open>fernet_laws\<close>; the provider's
  contract is the locale \<open>secrets_laws\<close>, which the local provider meets and the store relies on.
\<close>

section \<open>The provider interface\<close>

text \<open>The context: user, kind and provider, the key of the credential. A seed is what an encryption draws.\<close>

type_synonym cred_key = "str \<times> str \<times> str"
type_synonym seed = "str \<times> str \<times> str"

record secrets_api =
  sp_encrypt :: "cred_key \<Rightarrow> seed \<Rightarrow> str \<Rightarrow> exn + encrypted_blob"
  sp_decrypt :: "cred_key \<Rightarrow> encrypted_blob \<Rightarrow> exn + str"
  sp_rotate :: "cred_key \<Rightarrow> seed \<Rightarrow> encrypted_blob \<Rightarrow> exn + encrypted_blob"
  sp_current :: "exn + str"

section \<open>The local provider\<close>

record fernet =
  fn_key :: "str \<Rightarrow> str"
  fn_encrypt :: "str \<Rightarrow> str \<Rightarrow> str \<Rightarrow> str"
  fn_decrypt :: "str \<Rightarrow> str \<Rightarrow> str option"
  mf_encrypt :: "str list \<Rightarrow> str \<Rightarrow> str \<Rightarrow> str"
  mf_decrypt :: "str list \<Rightarrow> str \<Rightarrow> str option"
  sha256_hex :: "str \<Rightarrow> str"

definition kek_id :: "fernet \<Rightarrow> str \<Rightarrow> str" where
  "kek_id F key = take 16 (sha256_hex F key)"

definition local_encrypt :: "fernet \<Rightarrow> str list \<Rightarrow> seed \<Rightarrow> str \<Rightarrow> encrypted_blob" where
  "local_encrypt F keys s plaintext =
     (let dek = fn_key F (fst s)
      in \<lparr>eb_kek = kek_id F (hd keys),
          eb_wrapped_dek = mf_encrypt F keys (snd (snd s)) dek,
          eb_ciphertext = fn_encrypt F dek (fst (snd s)) plaintext,
          eb_scheme = ''envelope-fernet-v1''\<rparr>)"

definition invalid_token :: exn where
  "invalid_token = OtherError ''InvalidToken''"

definition local_decrypt :: "fernet \<Rightarrow> str list \<Rightarrow> encrypted_blob \<Rightarrow> exn + str" where
  "local_decrypt F keys b =
     (case mf_decrypt F keys (eb_wrapped_dek b) of
        None \<Rightarrow> Inl invalid_token
      | Some dek \<Rightarrow>
         (case fn_decrypt F dek (eb_ciphertext b) of None \<Rightarrow> Inl invalid_token | Some x \<Rightarrow> Inr x))"

definition local_rotate :: "fernet \<Rightarrow> str list \<Rightarrow> seed \<Rightarrow> encrypted_blob \<Rightarrow> exn + encrypted_blob" where
  "local_rotate F keys s b =
     (case local_decrypt F keys b of Inl e \<Rightarrow> Inl e | Inr x \<Rightarrow> Inr (local_encrypt F keys s x))"

definition local_api :: "fernet \<Rightarrow> str list \<Rightarrow> secrets_api" where
  "local_api F keys =
     \<lparr>sp_encrypt = (\<lambda>_ s x. Inr (local_encrypt F keys s x)), sp_decrypt = (\<lambda>_. local_decrypt F keys),
      sp_rotate = (\<lambda>_. local_rotate F keys), sp_current = Inr (kek_id F (hd keys))\<rparr>"

definition local_provider :: "fernet \<Rightarrow> str list \<Rightarrow> exn + secrets_api" where
  "local_provider F keys =
     (if keys = [] then Inl (ValueError ''LocalSecretsProvider requires at least one key (SECRETS__APP_KEYS)'')
      else Inr (local_api F keys))"

text \<open>The KMS provider is a stub whose operations all raise.\<close>

definition kms_deferred :: exn where
  "kms_deferred = OtherError ''KMS secrets provider is deferred to Phase 4''"

definition kms_api :: secrets_api where
  "kms_api = \<lparr>sp_encrypt = (\<lambda>_ _ _. Inl kms_deferred), sp_decrypt = (\<lambda>_ _. Inl kms_deferred),
     sp_rotate = (\<lambda>_ _ _. Inl kms_deferred), sp_current = Inl kms_deferred\<rparr>"

record secrets_settings =
  ss_provider :: str
  ss_app_keys :: str
  ss_production :: bool

definition parse_app_keys :: "str \<Rightarrow> str list" where
  "parse_app_keys s = filter (\<lambda>k. k \<noteq> []) (map strip (split_on CHR '','' s))"

definition get_secrets_provider :: "fernet \<Rightarrow> secrets_settings \<Rightarrow> str \<Rightarrow> exn + secrets_api" where
  "get_secrets_provider F st dev_seed =
     (if ss_provider st = ''local'' then
        (let keys = parse_app_keys (ss_app_keys st)
         in if keys = [] \<and> ss_production st then Inl (ValueError ''SECRETS__APP_KEYS must be set in production'')
            else local_provider F (if keys = [] then [fn_key F dev_seed] else keys))
      else if ss_provider st = ''kms'' then Inr kms_api
      else Inl (ValueError (''Unknown secrets provider: '' @ ss_provider st)))"

section \<open>The credential store\<close>

definition row_key :: "user_credential \<Rightarrow> cred_key" where
  "row_key r = (uc_user r, uc_kind r, uc_provider r)"

definition credential_row :: "cred_key \<Rightarrow> db \<Rightarrow> exn + user_credential option" where
  "credential_row k d = scalar_one_or_none (filter (\<lambda>r. row_key r = k) (credentials d))"

definition put_credential :: "secrets_api \<Rightarrow> seed \<Rightarrow> str \<Rightarrow> cred_key \<Rightarrow> str \<Rightarrow> (db, exn, unit) op" where
  "put_credential P s new_id k plaintext d =
     (case sp_encrypt P k s plaintext of
        Inl e \<Rightarrow> (d, Inl e)
      | Inr b \<Rightarrow>
         (case credential_row k d of
            Inl e \<Rightarrow> (d, Inl e)
          | Inr None \<Rightarrow>
              commit (d\<lparr>credentials := credentials d @
                [\<lparr>uc_id = new_id, uc_user = fst k, uc_kind = fst (snd k), uc_provider = snd (snd k),
                  uc_blob = b, uc_kek = eb_kek b\<rparr>]\<rparr>) d
          | Inr (Some row) \<Rightarrow>
              commit (d\<lparr>credentials := update_where (\<lambda>r. row_key r = row_key row)
                (\<lambda>r. r\<lparr>uc_blob := b, uc_kek := eb_kek b\<rparr>) (credentials d)\<rparr>) d))"

definition get_credential :: "secrets_api \<Rightarrow> cred_key \<Rightarrow> db \<Rightarrow> exn + str option" where
  "get_credential P k d =
     (case credential_row k d of
        Inl e \<Rightarrow> Inl e
      | Inr None \<Rightarrow> Inr None
      | Inr (Some row) \<Rightarrow>
         (case sp_decrypt P k (uc_blob row) of Inl e \<Rightarrow> Inl e | Inr x \<Rightarrow> Inr (Some x)))"

definition KIND_LLM_KEY :: str where "KIND_LLM_KEY = ''llm_key''"
definition KIND_COOKIES :: str where "KIND_COOKIES = ''platform_cookies''"

definition put_llm_key :: "secrets_api \<Rightarrow> seed \<Rightarrow> str \<Rightarrow> str \<Rightarrow> str \<Rightarrow> str \<Rightarrow> (db, exn, unit) op" where
  "put_llm_key P s new_id user provider api_key = put_credential P s new_id (user, KIND_LLM_KEY, provider) api_key"

definition get_llm_key :: "secrets_api \<Rightarrow> str \<Rightarrow> str \<Rightarrow> db \<Rightarrow> exn + str option" where
  "get_llm_key P user provider d = get_credential P (user, KIND_LLM_KEY, provider) d"

text \<open>The standard \<^verbatim>\<open>json\<close> module on a storage state, as a pair of functions.\<close>

record 'j json =
  js_dumps :: "'j \<Rightarrow> str"
  js_dumps_sorted :: "'j \<Rightarrow> str"
  js_loads :: "str \<Rightarrow> exn + 'j"

definition save_session_cookies ::
  "'j json \<Rightarrow> secrets_api \<Rightarrow> seed \<Rightarrow> str \<Rightarrow> str \<Rightarrow> str \<Rightarrow> 'j \<Rightarrow> (db, exn, unit) op" where
  "save_session_cookies J P s new_id user platform state =
     put_credential P s new_id (user, KIND_COOKIES, platform) (js_dumps J state)"

definition load_session_cookies :: "'j json \<Rightarrow> secrets_api \<Rightarrow> str \<Rightarrow> str \<Rightarrow> db \<Rightarrow> exn + 'j option" where
  "load_session_cookies J P user platform d =
     (case get_credential P (user, KIND_COOKIES, platform) d of
        Inl e \<Rightarrow> Inl e
      | Inr None \<Rightarrow> Inr None
      | Inr (Some x) \<Rightarrow> map_sum id Some (js_loads J x))"

definition delete_session_cookies :: "str \<Rightarrow> str \<Rightarrow> (db, exn, bool) op" where
  "delete_session_cookies user platform d =
     (let gone = filter (\<lambda>r. row_key r = (user, KIND_COOKIES, platform)) (credentials d)
      in case commit (d\<lparr>credentials := filter (\<lambda>r. row_key r \<noteq> (user, KIND_COOKIES, platform)) (credentials d)\<rparr>) d of
           (d', Inl e) \<Rightarrow> (d', Inl e)
         | (d', Inr _) \<Rightarrow> (d', Inr (length gone > 0)))"

text \<open>
  Rotation: the loop over every row. A failing row raises before the commit, so nothing is kept.
\<close>

fun rotate_rows ::
  "secrets_api \<Rightarrow> str \<Rightarrow> (nat \<Rightarrow> seed) \<Rightarrow> nat \<Rightarrow> user_credential list \<Rightarrow> exn + user_credential list \<times> nat" where
  "rotate_rows P current seeds n [] = Inr ([], n)"
| "rotate_rows P current seeds n (r # rs) =
     (if uc_kek r = current then
        (case rotate_rows P current seeds n rs of Inl e \<Rightarrow> Inl e | Inr (rs', m) \<Rightarrow> Inr (r # rs', m))
      else
        (case sp_rotate P (row_key r) (seeds n) (uc_blob r) of
           Inl e \<Rightarrow> Inl e
         | Inr b \<Rightarrow>
            (case rotate_rows P current seeds (Suc n) rs of
               Inl e \<Rightarrow> Inl e
             | Inr (rs', m) \<Rightarrow> Inr (r\<lparr>uc_blob := b, uc_kek := eb_kek b\<rparr> # rs', m))))"

definition rotate_all :: "secrets_api \<Rightarrow> (nat \<Rightarrow> seed) \<Rightarrow> (db, exn, nat) op" where
  "rotate_all P seeds d =
     (case sp_current P of
        Inl e \<Rightarrow> (d, Inl e)
      | Inr current \<Rightarrow>
         (case rotate_rows P current seeds 0 (credentials d) of
            Inl e \<Rightarrow> (d, Inl e)
          | Inr (rows, rotated) \<Rightarrow>
              if rotated = 0 then (d, Inr 0)
              else
                (case commit (d\<lparr>credentials := rows\<rparr>) d of
                   (d', Inl e) \<Rightarrow> (d', Inl e)
                 | (d', Inr _) \<Rightarrow> (d', Inr rotated))))"

section \<open>Platform sessions\<close>

definition fingerprint :: "fernet \<Rightarrow> 'j json \<Rightarrow> 'j \<Rightarrow> str" where
  "fingerprint F J state = sha256_hex F (js_dumps_sorted J state)"

record platform_session_response =
  pr_platform :: str
  pr_connected :: bool
  pr_last_verified :: "int option"
  pr_session_expires :: "int option"

definition session_to_response :: "platform_session \<Rightarrow> platform_session_response" where
  "session_to_response s =
     \<lparr>pr_platform = ps_platform s, pr_connected = True, pr_last_verified = ps_last_verified s,
      pr_session_expires = ps_expires s\<rparr>"

definition session_rows :: "str \<Rightarrow> str \<Rightarrow> db \<Rightarrow> platform_session list" where
  "session_rows user platform d =
     filter (\<lambda>s. ps_user s = user \<and> ps_platform s = platform) (platform_sessions d)"

definition import_session ::
  "fernet \<Rightarrow> 'j json \<Rightarrow> secrets_api \<Rightarrow> seed \<Rightarrow> str \<Rightarrow> str \<Rightarrow> str \<Rightarrow> str \<Rightarrow> 'j \<Rightarrow> int option \<Rightarrow> int
     \<Rightarrow> (db, exn, platform_session) op" where
  "import_session F J P s cred_id row_id user platform state expires now d =
     (case save_session_cookies J P s cred_id user platform state d of
        (d1, Inl e) \<Rightarrow> (d1, Inl e)
      | (d1, Inr _) \<Rightarrow>
         (let upd = (\<lambda>r. r\<lparr>ps_last_verified := Some now, ps_expires := expires,
                          ps_fingerprint := Some (fingerprint F J state)\<rparr>)
          in case scalar_one_or_none (session_rows user platform d1) of
               Inl e \<Rightarrow> (d1, Inl e)
             | Inr None \<Rightarrow>
                (let row = \<lparr>ps_id = row_id, ps_user = user, ps_platform = platform, ps_last_verified = Some now,
                            ps_expires = expires, ps_fingerprint = Some (fingerprint F J state)\<rparr>
                 in case commit (d1\<lparr>platform_sessions := platform_sessions d1 @ [row]\<rparr>) d1 of
                      (d2, Inl e) \<Rightarrow> (d2, Inl e)
                    | (d2, Inr _) \<Rightarrow> (d2, Inr row))
             | Inr (Some row) \<Rightarrow>
                (case commit (d1\<lparr>platform_sessions := update_where (\<lambda>r. ps_user r = user \<and> ps_platform r = platform)
                        upd (platform_sessions d1)\<rparr>) d1 of
                   (d2, Inl e) \<Rightarrow> (d2, Inl e)
                 | (d2, Inr _) \<Rightarrow> (d2, Inr (upd row)))))"

definition list_sessions :: "str \<Rightarrow> db \<Rightarrow> platform_session list" where
  "list_sessions user d = sort_key ps_platform (filter (\<lambda>s. ps_user s = user) (platform_sessions d))"

definition delete_session :: "str \<Rightarrow> str \<Rightarrow> (db, exn, bool) op" where
  "delete_session user platform d =
     (case delete_session_cookies user platform d of
        (d1, Inl e) \<Rightarrow> (d1, Inl e)
      | (d1, Inr had_cookies) \<Rightarrow>
         (case commit (d1\<lparr>platform_sessions :=
                filter (\<lambda>s. \<not> (ps_user s = user \<and> ps_platform s = platform)) (platform_sessions d1)\<rparr>) d1 of
            (d2, Inl e) \<Rightarrow> (d2, Inl e)
          | (d2, Inr _) \<Rightarrow> (d2, Inr (had_cookies \<or> length (session_rows user platform d1) > 0))))"

text \<open>The route normalises the platform, and answers 404 when nothing was stored.\<close>

definition delete_session_route :: "str \<Rightarrow> str \<Rightarrow> (db, exn, unit) op" where
  "delete_session_route user platform d =
     (case delete_session user (lower (strip platform)) d of
        (d', Inl e) \<Rightarrow> (d', Inl e)
      | (d', Inr removed) \<Rightarrow>
          if removed then (d', Inr ())
          else (d', Inl (RecordNotFoundError ''No stored session for that platform'' [])))"

section \<open>The store as a map\<close>

text \<open>
  The abstraction: a partial map from (user, kind, provider) to the plaintext that the provider opens.
\<close>

definition secret_in :: "secrets_api \<Rightarrow> user_credential list \<Rightarrow> cred_key \<Rightarrow> str option" where
  "secret_in P rows k =
     (case List.find (\<lambda>r. row_key r = k) rows of
        None \<Rightarrow> None
      | Some r \<Rightarrow> (case sp_decrypt P k (uc_blob r) of Inl _ \<Rightarrow> None | Inr x \<Rightarrow> Some x))"

definition secrets_of :: "secrets_api \<Rightarrow> db \<Rightarrow> cred_key \<Rightarrow> str option" where
  "secrets_of P d = secret_in P (credentials d)"

lemma secret_in_Cons:
  "secret_in P (r # rs) k =
     (if row_key r = k then (case sp_decrypt P k (uc_blob r) of Inl _ \<Rightarrow> None | Inr x \<Rightarrow> Some x)
      else secret_in P rs k)"
  by (simp add: secret_in_def)

lemma secret_in_Nil [simp]: "secret_in P [] k = None"
  by (simp add: secret_in_def)

lemma secret_in_absent: "k \<notin> row_key ` set rows \<Longrightarrow> secret_in P rows k = None"
  by (induction rows) (auto simp: secret_in_Cons)

lemma secret_in_append:
  "k \<notin> row_key ` set rows \<Longrightarrow> secret_in P (rows @ [r]) k' =
     (if k' = k \<and> row_key r = k then secret_in P [r] k' else if k' \<in> row_key ` set rows then secret_in P rows k' else secret_in P [r] k')"
  by (induction rows) (auto simp: secret_in_Cons)

lemma secret_in_update:
  assumes "distinct (map row_key rows)" and "k \<in> row_key ` set rows"
  shows "secret_in P (update_where (\<lambda>r. row_key r = k) (\<lambda>r. r\<lparr>uc_blob := b, uc_kek := i\<rparr>) rows) =
    (secret_in P rows)(k := (case sp_decrypt P k b of Inl _ \<Rightarrow> None | Inr x \<Rightarrow> Some x))"
proof
  fix k'
  have key: "row_key (r\<lparr>uc_blob := b, uc_kek := i\<rparr>) = row_key r" for r by (simp add: row_key_def)
  show "secret_in P (update_where (\<lambda>r. row_key r = k) (\<lambda>r. r\<lparr>uc_blob := b, uc_kek := i\<rparr>) rows) k' =
      ((secret_in P rows)(k := (case sp_decrypt P k b of Inl _ \<Rightarrow> None | Inr x \<Rightarrow> Some x))) k'"
    using assms
  proof (induction rows)
    case (Cons r rs)
    show ?case
    proof (cases "row_key r = k")
      case True
      then have "row_key x \<noteq> k" if "x \<in> set rs" for x
        using Cons.prems(1) that by (metis distinct.simps(2) image_eqI list.simps(9) set_map)
      then have none: "update_where (\<lambda>r. row_key r = k) (\<lambda>r. r\<lparr>uc_blob := b, uc_kek := i\<rparr>) rs = rs"
        by (rule update_where_none)
      show ?thesis using True none by (auto simp: update_where_def secret_in_Cons key)
    next
      case False
      then show ?thesis using Cons by (auto simp: update_where_def secret_in_Cons key)
    qed
  qed simp
qed

lemma secret_in_filter: "secret_in P (filter (\<lambda>r. row_key r \<noteq> k) rows) = (secret_in P rows)(k := None)"
  by (rule ext, induction rows) (auto simp: secret_in_Cons)

lemma db_ok_credentials:
  "db_ok (d\<lparr>credentials := cs\<rparr>) \<longleftrightarrow> db_ok d \<and> distinct (map row_key cs)" if "db_ok d"
  using that by (auto simp: db_ok_def pk_ok_def uq_shared_def row_key_def [abs_def])

lemma db_ok_distinct: "db_ok d \<Longrightarrow> distinct (map row_key (credentials d))"
  by (simp add: db_ok_def uq_shared_def row_key_def [abs_def])

lemma db_ok_sessions:
  "db_ok (d\<lparr>platform_sessions := ss\<rparr>) \<longleftrightarrow> distinct (map (\<lambda>s. (ps_user s, ps_platform s)) ss)" if "db_ok d"
  using that by (auto simp: db_ok_def pk_ok_def uq_shared_def)

text \<open>A key has at most one row, which the query returns and the map reads.\<close>

lemma credential_row_cases [consumes 1, case_names absent present]:
  assumes "db_ok d"
  obtains (absent) "credential_row k d = Inr None" and "k \<notin> row_key ` set (credentials d)"
  | (present) r where "credential_row k d = Inr (Some r)" and "r \<in> set (credentials d)" and "row_key r = k"
      and "List.find (\<lambda>r. row_key r = k) (credentials d) = Some r"
proof -
  obtain x where x: "credential_row k d = Inr x"
    using scalar_one_distinct [OF db_ok_distinct [OF assms], of k] by (auto simp: credential_row_def)
  show ?thesis
  proof (cases x)
    case None
    then have "filter (\<lambda>r. row_key r = k) (credentials d) = []"
      using x by (simp add: credential_row_def scalar_one_None)
    then show ?thesis using absent x None by (auto simp: filter_empty_conv)
  next
    case (Some r)
    then have f: "filter (\<lambda>r. row_key r = k) (credentials d) = [r]"
      using x by (simp add: credential_row_def scalar_one_Some)
    then have r: "r \<in> set (credentials d)" "row_key r = k"
      by (metis (mono_tags, lifting) list.set_intros(1) mem_Collect_eq set_filter)+
    have "List.find (\<lambda>r. row_key r = k) (credentials d) = Some r"
      using r by (simp add: find_key [OF db_ok_distinct [OF assms]])
    with r x Some show ?thesis by (intro present) auto
  qed
qed

section \<open>The contract of a provider, and what the store makes of it\<close>

text \<open>
  What the store relies on: an encryption opens to its plaintext under the current key's id, and a
  rotation of a blob that opens gives one that opens to the same plaintext under the current id.
\<close>

locale secrets_laws =
  fixes P :: secrets_api
  assumes encrypts: "\<exists>b. sp_encrypt P k s x = Inr b \<and> sp_decrypt P k b = Inr x \<and> sp_current P = Inr (eb_kek b)"
    and rotates: "sp_decrypt P k b = Inr x \<Longrightarrow>
      \<exists>b'. sp_rotate P k s b = Inr b' \<and> sp_decrypt P k b' = Inr x \<and> sp_current P = Inr (eb_kek b')"
begin

lemma put_refines:
  assumes "db_ok d"
  shows "\<exists>d'. put_credential P s i k x d = (d', Inr ()) \<and> secrets_of P d' = (secrets_of P d)(k \<mapsto> x)
    \<and> db_ok d' \<and> d' = d\<lparr>credentials := credentials d'\<rparr>"
proof -
  obtain b where b: "sp_encrypt P k s x = Inr b" "sp_decrypt P k b = Inr x" using encrypts by blast
  from assms show ?thesis
  proof (cases rule: credential_row_cases [where k = k])
    case absent
    let ?r = "\<lparr>uc_id = i, uc_user = fst k, uc_kind = fst (snd k), uc_provider = snd (snd k), uc_blob = b, uc_kek = eb_kek b\<rparr>"
    have k: "row_key ?r = k" by (simp add: row_key_def)
    have "distinct (map row_key (credentials d @ [?r]))"
      using db_ok_distinct [OF assms] absent(2) by (simp add: k)
    then have ok: "db_ok (d\<lparr>credentials := credentials d @ [?r]\<rparr>)" using assms by (simp add: db_ok_credentials)
    have "secret_in P (credentials d @ [?r]) = (secret_in P (credentials d))(k \<mapsto> x)"
    proof
      fix k'
      show "secret_in P (credentials d @ [?r]) k' = ((secret_in P (credentials d))(k \<mapsto> x)) k'"
        unfolding secret_in_append [OF absent(2)]
        by (cases "k' = k"; cases "k' \<in> row_key ` set (credentials d)")
           (use absent(2) k b(2) in \<open>simp_all add: secret_in_Cons secret_in_absent del: image_iff\<close>)
    qed
    then show ?thesis using b absent(1) ok
      by (simp add: put_credential_def commit_def secrets_of_def)
  next
    case (present r)
    have mem: "k \<in> row_key ` set (credentials d)" using present by force
    let ?rows = "update_where (\<lambda>r. row_key r = k) (\<lambda>r. r\<lparr>uc_blob := b, uc_kek := eb_kek b\<rparr>) (credentials d)"
    have "map row_key ?rows = map row_key (credentials d)"
      by (rule map_update_where) (simp add: row_key_def)
    then have ok: "db_ok (d\<lparr>credentials := ?rows\<rparr>)"
      using assms db_ok_distinct [OF assms] by (simp add: db_ok_credentials)
    show ?thesis using b present(1,3) ok secret_in_update [OF db_ok_distinct [OF assms] mem, where b = b and i = "eb_kek b" and P = P]
      by (simp add: put_credential_def commit_def secrets_of_def)
  qed
qed

lemma get_refines:
  assumes "db_ok d"
  shows "(secrets_of P d k = Some x \<longrightarrow> get_credential P k d = Inr (Some x))
    \<and> (get_credential P k d = Inr r \<longrightarrow> r = secrets_of P d k)"
  using assms
proof (cases rule: credential_row_cases [where k = k])
  case absent
  then show ?thesis by (simp add: get_credential_def secrets_of_def secret_in_absent)
next
  case (present r)
  then show ?thesis by (auto simp: get_credential_def secrets_of_def secret_in_def split: sum.splits)
qed

lemma rotate_rows_refines:
  assumes "\<forall>r \<in> set rows. \<exists>x. sp_decrypt P (row_key r) (uc_blob r) = Inr x" and "sp_current P = Inr c"
  shows "\<exists>rows' m. rotate_rows P c seeds n rows = Inr (rows', m) \<and> map row_key rows' = map row_key rows
    \<and> secret_in P rows' = secret_in P rows \<and> (\<forall>r \<in> set rows'. uc_kek r = c)
    \<and> m = n + length (filter (\<lambda>r. uc_kek r \<noteq> c) rows) \<and> (m = n \<longrightarrow> rows' = rows)"
  using assms(1)
proof (induction rows arbitrary: n)
  case (Cons r rows)
  from Cons.prems obtain x where x: "sp_decrypt P (row_key r) (uc_blob r) = Inr x" by auto
  have prem: "\<forall>r \<in> set rows. \<exists>x. sp_decrypt P (row_key r) (uc_blob r) = Inr x" using Cons.prems by simp
  obtain b where b: "sp_rotate P (row_key r) (seeds n) (uc_blob r) = Inr b" "sp_decrypt P (row_key r) b = Inr x"
      "eb_kek b = c" using rotates [OF x, of "seeds n"] assms(2) by auto
  have key: "row_key (r\<lparr>uc_blob := b, uc_kek := c\<rparr>) = row_key r" by (simp add: row_key_def)
  show ?case
  proof (cases "uc_kek r = c")
    case True
    from Cons.IH [OF prem, of n] obtain rows' m where IH: "rotate_rows P c seeds n rows = Inr (rows', m)"
        "map row_key rows' = map row_key rows" "secret_in P rows' = secret_in P rows" "\<forall>r \<in> set rows'. uc_kek r = c"
        "m = n + length (filter (\<lambda>r. uc_kek r \<noteq> c) rows)" "m = n \<longrightarrow> rows' = rows" by blast
    have "secret_in P (r # rows') = secret_in P (r # rows)" by (rule ext) (simp add: secret_in_Cons IH(3))
    moreover have "rotate_rows P c seeds n (r # rows) = Inr (r # rows', m)" by (simp add: True IH(1))
    moreover have "m = n + length (filter (\<lambda>r. uc_kek r \<noteq> c) (r # rows))" using True IH(5) by simp
    moreover have "\<forall>r \<in> set (r # rows'). uc_kek r = c" using True IH(4) by simp
    moreover have "map row_key (r # rows') = map row_key (r # rows)" by (simp add: IH(2))
    ultimately show ?thesis using IH(6) by blast
  next
    case False
    from Cons.IH [OF prem, of "Suc n"] obtain rows' m where IH: "rotate_rows P c seeds (Suc n) rows = Inr (rows', m)"
        "map row_key rows' = map row_key rows" "secret_in P rows' = secret_in P rows" "\<forall>r \<in> set rows'. uc_kek r = c"
        "m = Suc n + length (filter (\<lambda>r. uc_kek r \<noteq> c) rows)" by blast
    let ?r = "r\<lparr>uc_blob := b, uc_kek := eb_kek b\<rparr>"
    have "secret_in P (?r # rows') = secret_in P (r # rows)"
    proof
      fix k'
      show "secret_in P (?r # rows') k' = secret_in P (r # rows) k'"
        unfolding secret_in_Cons key [folded b(3)] IH(3) using b(2) x by (cases "row_key r = k'") auto
    qed
    moreover have "rotate_rows P c seeds n (r # rows) = Inr (?r # rows', m)" by (simp add: False b(1) IH(1))
    moreover have "m = n + length (filter (\<lambda>r. uc_kek r \<noteq> c) (r # rows))" using False IH(5) by simp
    moreover have "\<forall>r \<in> set (?r # rows'). uc_kek r = c" using b(3) IH(4) by simp
    moreover have "map row_key (?r # rows') = map row_key (r # rows)" using IH(2) key [folded b(3)] by simp
    moreover have "m \<noteq> n" using IH(5) by linarith
    ultimately show ?thesis by blast
  qed
qed simp

lemma rotate_all_refines:
  assumes "db_ok d" and "\<forall>r \<in> set (credentials d). \<exists>x. sp_decrypt P (row_key r) (uc_blob r) = Inr x"
    and "sp_current P = Inr c"
  shows "\<exists>d'. rotate_all P seeds d = (d', Inr (length (filter (\<lambda>r. uc_kek r \<noteq> c) (credentials d))))
    \<and> secrets_of P d' = secrets_of P d \<and> (\<forall>r \<in> set (credentials d'). uc_kek r = c)
    \<and> d' = d\<lparr>credentials := credentials d'\<rparr> \<and> db_ok d'"
proof -
  from rotate_rows_refines [OF assms(2,3), of seeds 0]
  obtain rows m where r: "rotate_rows P c seeds 0 (credentials d) = Inr (rows, m)"
      "map row_key rows = map row_key (credentials d)" "secret_in P rows = secret_in P (credentials d)"
      "\<forall>r \<in> set rows. uc_kek r = c" "m = 0 + length (filter (\<lambda>r. uc_kek r \<noteq> c) (credentials d))"
      "m = 0 \<longrightarrow> rows = credentials d" by blast
  have ok: "db_ok (d\<lparr>credentials := rows\<rparr>)"
    using assms(1) db_ok_distinct [OF assms(1)] r(2) by (simp add: db_ok_credentials)
  show ?thesis
  proof (cases "m = 0")
    case True
    then have rows: "rows = credentials d" using r(6) by simp
    have "rotate_all P seeds d = (d, Inr 0)" using assms(3) r(1) True by (simp add: rotate_all_def)
    moreover have "length (filter (\<lambda>r. uc_kek r \<noteq> c) (credentials d)) = 0" using r(5) True by simp
    ultimately show ?thesis using r(4) assms(1) unfolding rows by (intro exI [of _ d]) simp
  next
    case False
    then have "rotate_all P seeds d = (d\<lparr>credentials := rows\<rparr>, Inr m)"
      using assms(3) r(1) ok by (simp add: rotate_all_def commit_def)
    moreover have "m = length (filter (\<lambda>r. uc_kek r \<noteq> c) (credentials d))" using r(5) by simp
    ultimately show ?thesis using r(3,4) ok
      by (intro exI [of _ "d\<lparr>credentials := rows\<rparr>"]) (simp add: secrets_of_def)
  qed
qed

lemma session_rows_one:
  assumes "db_ok d"
  shows "session_rows u p d = [] \<or> (\<exists>r. session_rows u p d = [r] \<and> ps_user r = u \<and> ps_platform r = p)"
proof -
  have "distinct (map (\<lambda>s. (ps_user s, ps_platform s)) (platform_sessions d))"
    using assms by (simp add: db_ok_def uq_shared_def)
  from scalar_one_distinct [OF this, of "(u, p)"] obtain x where "scalar_one_or_none (session_rows u p d) = Inr x"
    by (auto simp: session_rows_def)
  then have one: "session_rows u p d = [] \<or> (\<exists>r. session_rows u p d = [r])"
    by (cases x) (auto simp: scalar_one_None scalar_one_Some)
  have "ps_user r = u \<and> ps_platform r = p" if "r \<in> set (session_rows u p d)" for r
    using that by (simp add: session_rows_def)
  with one show ?thesis by fastforce
qed

lemma import_session_refines:
  assumes "db_ok d"
  shows "\<exists>d1 row. import_session F J P s ci ri u p state expires now d = (d1, Inr row) \<and> db_ok d1
    \<and> secrets_of P d1 = (secrets_of P d)((u, KIND_COOKIES, p) \<mapsto> js_dumps J state)
    \<and> session_rows u p d1 = [row] \<and> ps_platform row = p \<and> ps_fingerprint row = Some (fingerprint F J state)
    \<and> ps_last_verified row = Some now"
proof -
  obtain d1 where put: "save_session_cookies J P s ci u p state d = (d1, Inr ())"
      and sec: "secrets_of P d1 = (secrets_of P d)((u, KIND_COOKIES, p) \<mapsto> js_dumps J state)"
      and ok: "db_ok d1"
    using put_refines [OF assms, of s ci "(u, KIND_COOKIES, p)" "js_dumps J state"]
    unfolding save_session_cookies_def by blast
  have uq: "distinct (map (\<lambda>s. (ps_user s, ps_platform s)) (platform_sessions d1))"
    using ok by (simp add: db_ok_def uq_shared_def)
  have sec': "secrets_of P (d1\<lparr>platform_sessions := ss\<rparr>) = secrets_of P d1" for ss
    by (simp add: secrets_of_def)
  from session_rows_one [OF ok, of u p] show ?thesis
  proof
    assume none: "session_rows u p d1 = []"
    let ?r = "\<lparr>ps_id = ri, ps_user = u, ps_platform = p, ps_last_verified = Some now,
      ps_expires = expires, ps_fingerprint = Some (fingerprint F J state)\<rparr>"
    have "(u, p) \<notin> (\<lambda>s. (ps_user s, ps_platform s)) ` set (platform_sessions d1)"
      using none by (auto simp: session_rows_def filter_empty_conv)
    then have "db_ok (d1\<lparr>platform_sessions := platform_sessions d1 @ [?r]\<rparr>)"
      using uq by (simp add: db_ok_sessions [OF ok])
    then have imp: "import_session F J P s ci ri u p state expires now d =
        (d1\<lparr>platform_sessions := platform_sessions d1 @ [?r]\<rparr>, Inr ?r)"
      and "db_ok (d1\<lparr>platform_sessions := platform_sessions d1 @ [?r]\<rparr>)"
      using put none by (simp_all add: import_session_def Let_def commit_def)
    moreover have "session_rows u p (d1\<lparr>platform_sessions := platform_sessions d1 @ [?r]\<rparr>) = [?r]"
      using none by (simp add: session_rows_def)
    ultimately show ?thesis using sec sec'
      by (intro exI [of _ "d1\<lparr>platform_sessions := platform_sessions d1 @ [?r]\<rparr>"] exI [of _ ?r]) simp
  next
    assume "\<exists>r. session_rows u p d1 = [r] \<and> ps_user r = u \<and> ps_platform r = p"
    then obtain r where r: "session_rows u p d1 = [r]" "ps_user r = u" "ps_platform r = p" by blast
    let ?upd = "\<lambda>r. r\<lparr>ps_last_verified := Some now, ps_expires := expires,
      ps_fingerprint := Some (fingerprint F J state)\<rparr>"
    let ?ss = "update_where (\<lambda>r. ps_user r = u \<and> ps_platform r = p) ?upd (platform_sessions d1)"
    have "map (\<lambda>s. (ps_user s, ps_platform s)) ?ss = map (\<lambda>s. (ps_user s, ps_platform s)) (platform_sessions d1)"
      by (rule map_update_where) simp
    then have ok2: "db_ok (d1\<lparr>platform_sessions := ?ss\<rparr>)" using uq by (simp add: db_ok_sessions [OF ok])
    then have imp: "import_session F J P s ci ri u p state expires now d = (d1\<lparr>platform_sessions := ?ss\<rparr>, Inr (?upd r))"
      using put r by (simp add: import_session_def Let_def commit_def)
    have "session_rows u p (d1\<lparr>platform_sessions := ?ss\<rparr>) =
        update_where (\<lambda>r. ps_user r = u \<and> ps_platform r = p) ?upd (session_rows u p d1)"
      unfolding session_rows_def by (simp add: filter_update_where)
    also have "\<dots> = [?upd r]" using r by (simp add: update_where_def)
    finally show ?thesis using imp ok2 sec sec' r(3)
      by (intro exI [of _ "d1\<lparr>platform_sessions := ?ss\<rparr>"] exI [of _ "?upd r"]) simp
  qed
qed

lemma delete_cookies_refines:
  assumes "db_ok d"
  shows "\<exists>d'. delete_session_cookies u p d =
      (d', Inr ((u, KIND_COOKIES, p) \<in> row_key ` set (credentials d)))
    \<and> secrets_of P d' = (secrets_of P d)((u, KIND_COOKIES, p) := None) \<and> db_ok d'
    \<and> d' = d\<lparr>credentials := filter (\<lambda>r. row_key r \<noteq> (u, KIND_COOKIES, p)) (credentials d)\<rparr>"
proof -
  let ?d = "d\<lparr>credentials := filter (\<lambda>r. row_key r \<noteq> (u, KIND_COOKIES, p)) (credentials d)\<rparr>"
  have "db_ok ?d"
    using assms db_ok_distinct [OF assms] by (simp add: db_ok_credentials distinct_map_filter)
  moreover have "0 < length (filter (\<lambda>r. row_key r = k) rs) \<longleftrightarrow> k \<in> row_key ` set rs" for k rs
    by (induction rs) auto
  ultimately show ?thesis
    by (intro exI [of _ ?d]) (simp add: delete_session_cookies_def Let_def commit_def secrets_of_def secret_in_filter)
qed

end

text \<open>
  What the package documents: Fernet opens what it sealed under the same key, and MultiFernet seals
  under its first key and opens with any of its keys.
\<close>

locale fernet_laws =
  fixes F :: fernet
  assumes opens: "fn_decrypt F key (fn_encrypt F key n x) = Some x"
    and opens_any: "ks \<noteq> [] \<Longrightarrow> hd ks \<in> set ks' \<Longrightarrow> mf_decrypt F ks' (mf_encrypt F ks n x) = Some x"
begin

lemma local_round_trip:
  "ks \<noteq> [] \<Longrightarrow> hd ks \<in> set ks' \<Longrightarrow> local_decrypt F ks' (local_encrypt F ks s x) = Inr x"
  by (simp add: local_decrypt_def local_encrypt_def Let_def opens opens_any)

end

text \<open>With at least one key, the local provider keeps the provider's contract.\<close>

locale local_keys = fernet_laws +
  fixes ks :: "str list"
  assumes some_key: "ks \<noteq> []"

sublocale local_keys \<subseteq> store: secrets_laws "local_api F ks"
proof
  show "\<exists>b. sp_encrypt (local_api F ks) k s x = Inr b \<and> sp_decrypt (local_api F ks) k b = Inr x
      \<and> sp_current (local_api F ks) = Inr (eb_kek b)" for k s x
    by (simp add: local_api_def local_round_trip some_key) (simp add: local_encrypt_def Let_def)
  show "\<exists>b'. sp_rotate (local_api F ks) k s b = Inr b' \<and> sp_decrypt (local_api F ks) k b' = Inr x
      \<and> sp_current (local_api F ks) = Inr (eb_kek b')" if "sp_decrypt (local_api F ks) k b = Inr x" for k s b x
    using that by (simp add: local_api_def local_rotate_def local_round_trip some_key) (simp add: local_encrypt_def Let_def)
qed

context local_keys begin

lemma laws: "secrets_laws (local_api F ks)"
  by unfold_locales

end

lemma local_laws: "fernet_laws F \<Longrightarrow> ks \<noteq> [] \<Longrightarrow> secrets_laws (local_api F ks)"
  by (rule local_keys.laws) (intro local_keys.intro local_keys_axioms.intro)

text \<open>A concrete package: a sealed text carries its key, whose length it spells out.\<close>

definition seal_with :: "str \<Rightarrow> str \<Rightarrow> str" where
  "seal_with k x = replicate (length k) CHR ''x'' @ CHR ''.'' # k @ x"

definition unseal :: "str \<Rightarrow> str \<times> str" where
  "unseal c =
     (let n = length (takeWhile (\<lambda>x. x = CHR ''x'') c); r = drop (Suc n) c in (take n r, drop n r))"

lemma unseal_seal [simp]: "unseal (seal_with k x) = (k, x)"
proof -
  have "takeWhile (\<lambda>x. x = CHR ''x'') (seal_with k x) = replicate (length k) CHR ''x''"
    by (simp add: seal_with_def takeWhile_append)
  then show ?thesis by (simp add: unseal_def Let_def) (simp add: seal_with_def)
qed

definition sample_fernet :: fernet where
  "sample_fernet =
     \<lparr>fn_key = (\<lambda>s. CHR ''d'' # s), fn_encrypt = (\<lambda>k _ x. seal_with k x),
      fn_decrypt = (\<lambda>k c. if fst (unseal c) = k then Some (snd (unseal c)) else None),
      mf_encrypt = (\<lambda>ks _ x. seal_with (hd ks) x),
      mf_decrypt = (\<lambda>ks c. if fst (unseal c) \<in> set ks then Some (snd (unseal c)) else None),
      sha256_hex = (\<lambda>s. s)\<rparr>"

interpretation sample: local_keys sample_fernet "[''k1'', ''k0'']"
  by unfold_locales (simp_all add: sample_fernet_def)

section \<open>Properties\<close>

lemma secret_in_agree:
  assumes "\<And>r k. r \<in> set rows \<Longrightarrow> sp_decrypt Q k (uc_blob r) = sp_decrypt P k (uc_blob r)"
  shows "secret_in Q rows = secret_in P rows"
proof
  show "secret_in Q rows k = secret_in P rows k" for k
    using assms by (induction rows) (simp_all add: secret_in_Cons)
qed

text \<open>Every row after a rotation is an old one under the current key, or has a rotated blob.\<close>

lemma rotate_rows_origin:
  assumes "rotate_rows P c seeds n rs = Inr (rs', m)" and "r' \<in> set rs'"
  shows "\<exists>r \<in> set rs. r' = r \<and> uc_kek r = c \<or> (\<exists>sd. sp_rotate P (row_key r) sd (uc_blob r) = Inr (uc_blob r'))"
  using assms
proof (induction rs arbitrary: n rs' m)
  case (Cons r rs)
  show ?case
  proof (cases "uc_kek r = c")
    case True
    then obtain rs'' where "rs' = r # rs''" "rotate_rows P c seeds n rs = Inr (rs'', m)"
      using Cons.prems(1) by (auto split: sum.splits)
    with Cons.IH [of n rs'' m] Cons.prems(2) True show ?thesis by auto
  next
    case False
    then obtain b rs'' where b: "sp_rotate P (row_key r) (seeds n) (uc_blob r) = Inr b"
        "rs' = r\<lparr>uc_blob := b, uc_kek := eb_kek b\<rparr> # rs''" "rotate_rows P c seeds (Suc n) rs = Inr (rs'', m)"
      using Cons.prems(1) by (auto split: sum.splits)
    show ?thesis
    proof (cases "r' \<in> set rs''")
      case True
      with Cons.IH [OF b(3)] show ?thesis by auto
    next
      case False
      then have "uc_blob r' = b" using b(2) Cons.prems(2) by auto
      with b(1) have "sp_rotate P (row_key r) (seeds n) (uc_blob r) = Inr (uc_blob r')" by simp
      then show ?thesis by (meson list.set_intros(1))
    qed
  qed
qed simp

lemma empty_db_ok_secrets: "db_ok empty_db"
  by (simp add: db_ok_def pk_ok_def uq_app_active_job_def uq_job_platform_id_def uq_user_email_def uq_shared_def empty_db_def)

text \<open>
  C23: the credential store refines a map from (user, kind, provider) to plaintext. Storing a key
  overwrites exactly its entry, reading gives the entry, and deleting the cookies of a platform removes
  exactly theirs; so no credential of another user, kind or provider is ever read or changed.
\<close>

theorem credential_store_refines:
  assumes "fernet_laws F" and "ks \<noteq> []" and "db_ok d"
  shows "(\<exists>d'. put_llm_key (local_api F ks) s i u prov key d = (d', Inr ()) \<and> db_ok d'
        \<and> secrets_of (local_api F ks) d' = (secrets_of (local_api F ks) d)((u, KIND_LLM_KEY, prov) \<mapsto> key)
        \<and> get_llm_key (local_api F ks) u prov d' = Inr (Some key))
    \<and> (\<forall>x. secrets_of (local_api F ks) d (u, KIND_LLM_KEY, prov) = Some x \<longrightarrow>
         get_llm_key (local_api F ks) u prov d = Inr (Some x))
    \<and> (\<forall>r. get_llm_key (local_api F ks) u prov d = Inr r \<longrightarrow>
         r = secrets_of (local_api F ks) d (u, KIND_LLM_KEY, prov))
    \<and> (\<exists>d' b. delete_session_cookies u p d = (d', Inr b) \<and> db_ok d'
        \<and> secrets_of (local_api F ks) d' = (secrets_of (local_api F ks) d)((u, KIND_COOKIES, p) := None))"
proof -
  note laws = local_laws [OF assms(1,2)]
  obtain d' where put: "put_llm_key (local_api F ks) s i u prov key d = (d', Inr ())" "db_ok d'"
      "secrets_of (local_api F ks) d' = (secrets_of (local_api F ks) d)((u, KIND_LLM_KEY, prov) \<mapsto> key)"
    using secrets_laws.put_refines [OF laws assms(3), of s i "(u, KIND_LLM_KEY, prov)" key]
    unfolding put_llm_key_def by blast
  have "get_llm_key (local_api F ks) u prov d' = Inr (Some key)"
    unfolding get_llm_key_def by (rule secrets_laws.get_refines [OF laws put(2), THEN conjunct1, THEN mp]) (simp add: put(3))
  with put have "\<exists>d'. put_llm_key (local_api F ks) s i u prov key d = (d', Inr ()) \<and> db_ok d'
        \<and> secrets_of (local_api F ks) d' = (secrets_of (local_api F ks) d)((u, KIND_LLM_KEY, prov) \<mapsto> key)
        \<and> get_llm_key (local_api F ks) u prov d' = Inr (Some key)" by blast
  moreover have "\<exists>d' b. delete_session_cookies u p d = (d', Inr b) \<and> db_ok d'
        \<and> secrets_of (local_api F ks) d' = (secrets_of (local_api F ks) d)((u, KIND_COOKIES, p) := None)"
    using secrets_laws.delete_cookies_refines [OF laws assms(3), of u p] by blast
  moreover have "secrets_of (local_api F ks) d (u, KIND_LLM_KEY, prov) = Some x \<longrightarrow>
        get_llm_key (local_api F ks) u prov d = Inr (Some x)" for x
    unfolding get_llm_key_def by (rule secrets_laws.get_refines [OF laws assms(3), THEN conjunct1])
  moreover have "get_llm_key (local_api F ks) u prov d = Inr r \<longrightarrow>
        r = secrets_of (local_api F ks) d (u, KIND_LLM_KEY, prov)" for r
    unfolding get_llm_key_def by (rule secrets_laws.get_refines [OF laws assms(3), THEN conjunct2])
  ultimately show ?thesis by simp
qed

theorem credential_store_refines_witness:
  "get_llm_key (local_api sample_fernet [''k1'', ''k0'']) ''u1'' ''openai''
     (fst (put_llm_key (local_api sample_fernet [''k1'', ''k0'']) (''a'', ''b'', ''c'') ''i'' ''u1'' ''openai'' ''sk-1'' empty_db))
   = Inr (Some ''sk-1'')"
proof -
  from credential_store_refines [OF sample.fernet_laws_axioms sample.some_key empty_db_ok_secrets, THEN conjunct1]
  obtain d' where "put_llm_key (local_api sample_fernet [''k1'', ''k0'']) (''a'', ''b'', ''c'') ''i'' ''u1'' ''openai'' ''sk-1'' empty_db
      = (d', Inr ())" "get_llm_key (local_api sample_fernet [''k1'', ''k0'']) ''u1'' ''openai'' d' = Inr (Some ''sk-1'')"
    by blast
  then show ?thesis by simp
qed

text \<open>
  C24: rotation. With a new key put before the old ones, \<^verbatim>\<open>rotate_all\<close> rewraps exactly the rows under
  another key, keeps every secret, and leaves all rows under the new key, so that afterwards the old keys
  can be dropped: a provider with the new key alone reads the same secrets.
\<close>

theorem rotation_retires_old_keys:
  assumes "fernet_laws F" and "db_ok d"
    and "\<forall>r \<in> set (credentials d). \<exists>x. local_decrypt F (k # old) (uc_blob r) = Inr x
      \<and> (uc_kek r = kek_id F k \<longrightarrow> local_decrypt F [k] (uc_blob r) = Inr x)"
  shows "\<exists>d'. rotate_all (local_api F (k # old)) seeds d =
        (d', Inr (length (filter (\<lambda>r. uc_kek r \<noteq> kek_id F k) (credentials d))))
      \<and> (\<forall>r \<in> set (credentials d'). uc_kek r = kek_id F k)
      \<and> secrets_of (local_api F (k # old)) d' = secrets_of (local_api F (k # old)) d
      \<and> secrets_of (local_api F [k]) d' = secrets_of (local_api F (k # old)) d"
proof -
  let ?P = "local_api F (k # old)" and ?Q = "local_api F [k]"
  note laws = local_laws [OF assms(1), of "k # old", simplified]
  have cur: "sp_current ?P = Inr (kek_id F k)" by (simp add: local_api_def)
  have dec: "\<forall>r \<in> set (credentials d). \<exists>x. sp_decrypt ?P (row_key r) (uc_blob r) = Inr x"
    using assms(3) by (auto simp: local_api_def)
  have same: "sp_decrypt ?Q k' (uc_blob r') = sp_decrypt ?P k' (uc_blob r')"
    if "r \<in> set (credentials d)" "r' = r \<and> uc_kek r = kek_id F k \<or> (\<exists>sd. sp_rotate ?P (row_key r) sd (uc_blob r) = Inr (uc_blob r'))"
    for r r' k'
    using that(2)
  proof
    assume "r' = r \<and> uc_kek r = kek_id F k"
    with that(1) assms(3) show ?thesis by (fastforce simp: local_api_def)
  next
    assume "\<exists>sd. sp_rotate ?P (row_key r) sd (uc_blob r) = Inr (uc_blob r')"
    then obtain sd where "local_rotate F (k # old) sd (uc_blob r) = Inr (uc_blob r')" by (auto simp: local_api_def)
    then have "\<exists>x. local_encrypt F (k # old) sd x = uc_blob r'"
      by (cases "local_decrypt F (k # old) (uc_blob r)") (auto simp: local_rotate_def)
    then obtain x where "uc_blob r' = local_encrypt F (k # old) sd x" by metis
    then show ?thesis
      using fernet_laws.local_round_trip [OF assms(1), of "k # old"] by (simp add: local_api_def)
  qed
  obtain d' where d': "rotate_all ?P seeds d = (d', Inr (length (filter (\<lambda>r. uc_kek r \<noteq> kek_id F k) (credentials d))))"
      "secrets_of ?P d' = secrets_of ?P d" "\<forall>r \<in> set (credentials d'). uc_kek r = kek_id F k"
    using secrets_laws.rotate_all_refines [OF laws assms(2) dec cur, of seeds] by blast
  obtain rs m where rr: "rotate_rows ?P (kek_id F k) seeds 0 (credentials d) = Inr (rs, m)"
      "m = 0 + length (filter (\<lambda>r. uc_kek r \<noteq> kek_id F k) (credentials d))" "m = 0 \<longrightarrow> rs = credentials d"
    using secrets_laws.rotate_rows_refines [OF laws dec cur, of seeds 0] by blast
  have "credentials d' = rs"
    using d'(1) rr by (auto simp: rotate_all_def cur commit_def split: if_splits)
  moreover have "secret_in ?Q rs = secret_in ?P rs"
  proof (rule secret_in_agree)
    fix r' k' assume "r' \<in> set rs"
    then obtain r where "r \<in> set (credentials d)"
        "r' = r \<and> uc_kek r = kek_id F k \<or> (\<exists>sd. sp_rotate ?P (row_key r) sd (uc_blob r) = Inr (uc_blob r'))"
      using rotate_rows_origin [OF rr(1)] by blast
    then show "sp_decrypt ?Q k' (uc_blob r') = sp_decrypt ?P k' (uc_blob r')" by (rule same)
  qed
  ultimately have "secrets_of ?Q d' = secrets_of ?P d'" by (simp add: secrets_of_def)
  with d' show ?thesis by auto
qed

definition old_key_db :: db where
  "old_key_db = empty_db\<lparr>credentials :=
     [\<lparr>uc_id = ''c1'', uc_user = ''u1'', uc_kind = KIND_LLM_KEY, uc_provider = ''openai'',
       uc_blob = local_encrypt sample_fernet [''k0''] (''a'', ''b'', ''c'') ''sk-1'', uc_kek = ''k0''\<rparr>]\<rparr>"

theorem rotation_retires_old_keys_witness:
  "\<exists>d'. rotate_all (local_api sample_fernet [''k1'', ''k0'']) (\<lambda>_. (''a'', ''b'', ''c'')) old_key_db = (d', Inr 1)
     \<and> secrets_of (local_api sample_fernet [''k1'']) d' (''u1'', KIND_LLM_KEY, ''openai'') = Some ''sk-1''"
proof -
  have c: "credentials old_key_db =
     [\<lparr>uc_id = ''c1'', uc_user = ''u1'', uc_kind = KIND_LLM_KEY, uc_provider = ''openai'',
       uc_blob = local_encrypt sample_fernet [''k0''] (''a'', ''b'', ''c'') ''sk-1'', uc_kek = ''k0''\<rparr>]"
    by (simp add: old_key_db_def)
  have dec: "local_decrypt sample_fernet [''k1'', ''k0''] (local_encrypt sample_fernet [''k0''] (''a'', ''b'', ''c'') ''sk-1'') = Inr ''sk-1''"
    by (rule fernet_laws.local_round_trip [OF sample.fernet_laws_axioms]) simp_all
  have kek: "kek_id sample_fernet ''k1'' = ''k1''" by (simp add: kek_id_def sample_fernet_def)
  have ok: "db_ok old_key_db"
    using db_ok_credentials [OF empty_db_ok_secrets] empty_db_ok_secrets by (simp add: old_key_db_def)
  have "\<forall>r \<in> set (credentials old_key_db). \<exists>x. local_decrypt sample_fernet [''k1'', ''k0''] (uc_blob r) = Inr x
      \<and> (uc_kek r = kek_id sample_fernet ''k1'' \<longrightarrow> local_decrypt sample_fernet [''k1''] (uc_blob r) = Inr x)"
    unfolding c kek using dec by simp
  from rotation_retires_old_keys [OF sample.fernet_laws_axioms ok this, of "\<lambda>_. (''a'', ''b'', ''c'')"]
  obtain d' where r: "rotate_all (local_api sample_fernet [''k1'', ''k0'']) (\<lambda>_. (''a'', ''b'', ''c'')) old_key_db =
        (d', Inr (length (filter (\<lambda>r. uc_kek r \<noteq> kek_id sample_fernet ''k1'') (credentials old_key_db))))"
      "secrets_of (local_api sample_fernet [''k1'']) d' = secrets_of (local_api sample_fernet [''k1'', ''k0'']) old_key_db"
    by blast
  have "secrets_of (local_api sample_fernet [''k1'', ''k0'']) old_key_db (''u1'', KIND_LLM_KEY, ''openai'') = Some ''sk-1''"
    using dec by (simp add: secrets_of_def c secret_in_Cons row_key_def) (simp add: local_api_def)
  with r show ?thesis unfolding c kek by simp
qed

text \<open>
  a platform session round trip. Importing a browser session and loading it gives the same storage
  state back, with one metadata row for the platform that carries its fingerprint; disconnecting removes
  both, and neither touches any other credential.
\<close>

theorem session_round_trip:
  assumes "fernet_laws F" and "ks \<noteq> []" and "db_ok d" and "js_loads J (js_dumps J state) = Inr state"
  shows "\<exists>d1 row d2. import_session F J (local_api F ks) s ci ri u p state expires now d = (d1, Inr row)
    \<and> load_session_cookies J (local_api F ks) u p d1 = Inr (Some state)
    \<and> filter (\<lambda>r. ps_platform r = p) (list_sessions u d1) = [row] \<and> ps_fingerprint row = Some (fingerprint F J state)
    \<and> secrets_of (local_api F ks) d1 = (secrets_of (local_api F ks) d)((u, KIND_COOKIES, p) \<mapsto> js_dumps J state)
    \<and> delete_session u p d1 = (d2, Inr True) \<and> load_session_cookies J (local_api F ks) u p d2 = Inr None
    \<and> filter (\<lambda>r. ps_platform r = p) (list_sessions u d2) = []
    \<and> secrets_of (local_api F ks) d2 = (secrets_of (local_api F ks) d)((u, KIND_COOKIES, p) := None)"
proof -
  note laws = local_laws [OF assms(1,2)]
  have listed: "filter (\<lambda>r. ps_platform r = p) (list_sessions u x) = sort_key ps_platform (session_rows u p x)" for x
    by (simp add: list_sessions_def filter_sort session_rows_def conj_commute)
  obtain d1 row where d1: "import_session F J (local_api F ks) s ci ri u p state expires now d = (d1, Inr row)" "db_ok d1"
      "secrets_of (local_api F ks) d1 = (secrets_of (local_api F ks) d)((u, KIND_COOKIES, p) \<mapsto> js_dumps J state)"
      "session_rows u p d1 = [row]" "ps_fingerprint row = Some (fingerprint F J state)"
    using secrets_laws.import_session_refines [OF laws assms(3), of F J s ci ri u p state expires now] by blast
  have get: "get_credential (local_api F ks) (u, KIND_COOKIES, p) d1 = Inr (Some (js_dumps J state))"
    by (rule secrets_laws.get_refines [OF laws d1(2), THEN conjunct1, THEN mp]) (simp add: d1(3))
  obtain d' where del: "delete_session_cookies u p d1 = (d', Inr ((u, KIND_COOKIES, p) \<in> row_key ` set (credentials d1)))"
      "secrets_of (local_api F ks) d' = (secrets_of (local_api F ks) d1)((u, KIND_COOKIES, p) := None)" "db_ok d'"
      "d' = d1\<lparr>credentials := filter (\<lambda>r. row_key r \<noteq> (u, KIND_COOKIES, p)) (credentials d1)\<rparr>"
    using secrets_laws.delete_cookies_refines [OF laws d1(2), of u p] by blast
  have same: "platform_sessions d' = platform_sessions d1" unfolding del(4) by simp
  let ?ss = "filter (\<lambda>s. \<not> (ps_user s = u \<and> ps_platform s = p)) (platform_sessions d')"
  let ?d2 = "d'\<lparr>platform_sessions := ?ss\<rparr>"
  have "distinct (map (\<lambda>s. (ps_user s, ps_platform s)) (platform_sessions d'))"
    using del(3) by (simp add: db_ok_def uq_shared_def)
  then have ok2: "db_ok ?d2" by (simp add: db_ok_sessions [OF del(3)] distinct_map_filter)
  have "session_rows u p d' = [row]" using d1(4) by (simp add: session_rows_def same)
  then have d2: "delete_session u p d1 = (?d2, Inr True)"
    using del(1) ok2 by (simp add: delete_session_def commit_def)
  have "get_credential (local_api F ks) (u, KIND_COOKIES, p) ?d2 = Inr None"
    unfolding get_credential_def credential_row_def by (simp add: del(4) filter_empty_conv)
  moreover have "session_rows u p ?d2 = []" by (simp add: session_rows_def filter_empty_conv)
  moreover have "secrets_of (local_api F ks) ?d2 = (secrets_of (local_api F ks) d)((u, KIND_COOKIES, p) := None)"
    using del(2) d1(3) by (simp add: secrets_of_def)
  ultimately show ?thesis using d1(1,3,4,5) d2 get assms(4)
    by (intro exI [of _ d1] exI [of _ row] exI [of _ ?d2]) (simp add: load_session_cookies_def listed)
qed

definition sample_json :: "str json" where
  "sample_json = \<lparr>js_dumps = (\<lambda>s. s), js_dumps_sorted = (\<lambda>s. s), js_loads = Inr\<rparr>"

theorem session_round_trip_witness:
  "load_session_cookies sample_json (local_api sample_fernet [''k1'', ''k0'']) ''u1'' ''linkedin''
     (fst (import_session sample_fernet sample_json (local_api sample_fernet [''k1'', ''k0'']) (''a'', ''b'', ''c'')
       ''i'' ''r'' ''u1'' ''linkedin'' ''cookies'' None 7 empty_db)) = Inr (Some ''cookies'')"
proof -
  have "js_loads sample_json (js_dumps sample_json ''cookies'') = Inr ''cookies''" by (simp add: sample_json_def)
  from session_round_trip [OF sample.fernet_laws_axioms sample.some_key empty_db_ok_secrets this,
      of "(''a'', ''b'', ''c'')" "''i''" "''r''" "''u1''" "''linkedin''" None 7]
  obtain d1 row where "import_session sample_fernet sample_json (local_api sample_fernet [''k1'', ''k0'']) (''a'', ''b'', ''c'')
       ''i'' ''r'' ''u1'' ''linkedin'' ''cookies'' None 7 empty_db = (d1, Inr row)"
      "load_session_cookies sample_json (local_api sample_fernet [''k1'', ''k0'']) ''u1'' ''linkedin'' d1 = Inr (Some ''cookies'')"
    by blast
  then show ?thesis by simp
qed

end
