(* ===== verification/Documents.thy ===== *)
theory Documents
  imports Parser Llm Secrets
begin

text \<open>
  Generated documents: the client that a user's calls go through (\<^verbatim>\<open>core/llm/factory.py\<close>), the choice of a
  cover letter's style (\<^verbatim>\<open>core/llm/prompts/cover_letter.py\<close>), the Word renderer
  (\<^verbatim>\<open>core/documents/docx_renderer.py\<close>), the pipeline of \<^verbatim>\<open>core/documents/generator.py\<close> and the move into
  the tenant's storage (\<^verbatim>\<open>core/storage/documents.py\<close>). WeasyPrint, Jinja2, python-docx's file format and
  the prompt texts are fields of \<open>doc_env\<close>. A rendered temporary file is represented by its content.
\<close>

section \<open>The client of a user\<close>

record llm_client =
  cl_lib :: litellm
  cl_settings :: llm_settings
  cl_creds :: "llm_credentials option"
  cl_user :: "str option"

definition build_llm_client_for_user ::
  "litellm \<Rightarrow> llm_settings \<Rightarrow> secrets_api \<Rightarrow> str \<Rightarrow> db \<Rightarrow> exn + llm_client" where
  "build_llm_client_for_user L st P user d =
     (case scalar_one_or_none (filter (\<lambda>c. lc_user c = user) (llm_configs d)) of
        Inl e \<Rightarrow> Inl e
      | Inr config \<Rightarrow>
         (let provider = (case config of Some c \<Rightarrow> lc_provider c | None \<Rightarrow> ''openai'');
              model = (case config of Some c \<Rightarrow> lc_model c | None \<Rightarrow> ''gpt-4o'')
          in case get_llm_key P user provider d of
               Inl e \<Rightarrow> Inl e
             | Inr key \<Rightarrow>
                 Inr \<lparr>cl_lib = L, cl_settings = st,
                   cl_creds = (if truthy key then Some \<lparr>cr_provider = provider, cr_api_key = or_empty key,
                       cr_default_model = model\<rparr> else None),
                   cl_user = Some user\<rparr>))"

definition client_complete :: "llm_client \<Rightarrow> str \<Rightarrow> str \<Rightarrow> (llm_world, exn, llm_response) op" where
  "client_complete c prompt purpose =
     complete_call (cl_lib c) (cl_settings c) (cl_creds c) (cl_user c)
       \<lparr>ca_prompt = prompt, ca_system = [], ca_model = None, ca_temperature = None, ca_max_tokens = None,
        ca_format = None, ca_purpose = purpose\<rparr>"

definition client_structured ::
  "llm_client \<Rightarrow> str \<Rightarrow> (str \<Rightarrow> str + 'a) \<Rightarrow> str \<Rightarrow> str \<Rightarrow> str \<Rightarrow> (llm_world, exn, 'a) op" where
  "client_structured c schema parse prompt system_prompt purpose =
     complete_with_structured_output (cl_lib c) (cl_settings c) (cl_creds c) (cl_user c) schema parse prompt
       system_prompt None purpose"

section \<open>The style of a cover letter\<close>

datatype cover_template = STANDARD | TECHNICAL | CREATIVE | EXECUTIVE | CAREER_CHANGE | REFERRAL

fun template_value :: "cover_template \<Rightarrow> str" where
  "template_value STANDARD = ''standard''"
| "template_value TECHNICAL = ''technical''"
| "template_value CREATIVE = ''creative''"
| "template_value EXECUTIVE = ''executive''"
| "template_value CAREER_CHANGE = ''career_change''"
| "template_value REFERRAL = ''referral''"

definition executive_keywords :: "str list" where
  "executive_keywords = [''vp'', ''vice president'', ''director'', ''chief'', ''head of'', ''cto'', ''ceo'',
     ''cfo'', ''coo'', ''svp'', ''evp'', ''partner'', ''president'', ''managing director'']"

definition technical_keywords :: "str list" where
  "technical_keywords = [''engineer'', ''developer'', ''architect'', ''devops'', ''sre'', ''data scientist'',
     ''machine learning'', ''software'', ''backend'', ''frontend'', ''fullstack'', ''full-stack'', ''platform'',
     ''infrastructure'', ''security engineer'', ''cloud engineer'', ''mlops'']"

definition creative_keywords :: "str list" where
  "creative_keywords = [''designer'', ''creative'', ''content'', ''copywriter'', ''brand'', ''ux'', ''ui'',
     ''art director'', ''marketing'', ''social media'', ''storytelling'', ''editorial'']"

definition select_best_template :: "str \<Rightarrow> str \<Rightarrow> bool \<Rightarrow> bool \<Rightarrow> cover_template" where
  "select_best_template job_title job_description is_career_change has_referral =
     (if has_referral then REFERRAL
      else if is_career_change then CAREER_CHANGE
      else if list_ex (\<lambda>k. py_in k (lower job_title)) executive_keywords then EXECUTIVE
      else if list_ex (\<lambda>k. py_in k (lower job_title)) technical_keywords then TECHNICAL
      else if list_ex (\<lambda>k. py_in k (lower job_title) \<or> py_in k (lower job_description)) creative_keywords
      then CREATIVE else STANDARD)"

section \<open>The Word renderer\<close>

text \<open>
  A Word document as its paragraphs: headings with their level, plain paragraphs (their runs joined) and
  list bullets. The dash between title and company is outside Latin-1 and written as two hyphens.
\<close>

datatype docx_block = Heading nat str | Paragraph str | Bullet str

fun block_text :: "docx_block \<Rightarrow> str" where
  "block_text (Heading n t) = t"
| "block_text (Paragraph t) = t"
| "block_text (Bullet t) = t"

definition docx_header :: "resume_data \<Rightarrow> docx_block list" where
  "docx_header r =
     (let parts = filter (\<lambda>v. v \<noteq> []) [rx_email r, rx_phone r, rx_location r, rx_linkedin r] in
      (if rx_name r = [] then [] else [Heading 0 (rx_name r)])
      @ (if parts = [] then [] else [Paragraph (join_with '' | '' parts)]))"

definition docx_experience :: "experience_item list \<Rightarrow> docx_block list" where
  "docx_experience xs =
     (if xs = [] then []
      else Heading 1 ''Experience'' # concat (map (\<lambda>e.
        Paragraph ((if xi_company e = [] then xi_title e else xi_title e @ '' -- '' @ xi_company e)
          @ (if xi_duration e = [] then [] else ''  ('' @ xi_duration e @ '')''))
        # map Bullet (filter (\<lambda>b. b \<noteq> []) (map strip (split_on NL (xi_description e))))) xs))"

definition docx_education :: "education_item list \<Rightarrow> docx_block list" where
  "docx_education xs =
     (if xs = [] then []
      else Heading 1 ''Education'' # map (\<lambda>e.
        Paragraph ((if ei_institution e = [] then ei_degree e else ei_degree e @ '' -- '' @ ei_institution e)
          @ (if ei_year e = [] then [] else ''  ('' @ ei_year e @ '')''))) xs)"

definition docx_resume :: "resume_data \<Rightarrow> docx_block list" where
  "docx_resume r =
     docx_header r
     @ (if rx_summary r = [] then [] else [Heading 1 ''Professional Summary'', Paragraph (rx_summary r)])
     @ docx_experience (rx_experience r)
     @ docx_education (rx_education r)
     @ (if rx_skills r = [] then [] else [Heading 1 ''Skills'', Paragraph (join_with '', '' (rx_skills r))])
     @ (if rx_certifications r = [] then [] else Heading 1 ''Certifications'' # map Bullet (rx_certifications r))"

text \<open>\<^verbatim>\<open>s.split("\n\n")\<close>.\<close>

fun split_blank :: "str \<Rightarrow> str list" where
  "split_blank [] = [[]]"
| "split_blank [c] = [[c]]"
| "split_blank (c # d # cs) =
     (if c = NL \<and> d = NL then [] # split_blank cs
      else (case split_blank (d # cs) of [] \<Rightarrow> [[c]] | w # ws \<Rightarrow> (c # w) # ws))"

definition paragraphs_of :: "str \<Rightarrow> str list" where
  "paragraphs_of s = filter (\<lambda>p. p \<noteq> []) (map strip (split_blank s))"

definition docx_letter :: "str \<Rightarrow> docx_block list" where
  "docx_letter content = map Paragraph (paragraphs_of content)"

section \<open>The pipeline\<close>

record doc_env =
  de_pdf :: "str \<Rightarrow> resume_data \<Rightarrow> exn + str"
  de_html_pdf :: "str \<Rightarrow> str option \<Rightarrow> exn + str"
  de_docx :: "docx_block list \<Rightarrow> exn + str"
  de_letter_html :: "cover_template \<Rightarrow> ((str \<Rightarrow> str) \<times> str option) option"
  de_prompt :: "cover_template \<Rightarrow> str \<Rightarrow> str \<Rightarrow> str \<Rightarrow> str"
  de_tailor_prompt :: "resume_data \<Rightarrow> str \<Rightarrow> str"
  de_tailor_system :: str
  de_schema :: str
  de_parse :: "str \<Rightarrow> str + resume_data"

record gen_doc =
  gd_id :: str
  gd_type :: str
  gd_template :: str
  gd_pdf :: "str option"
  gd_docx :: "str option"

text \<open>A failed rendering is logged; the document is made of what succeeded, if anything did.\<close>

definition rendered :: "str list \<Rightarrow> str \<Rightarrow> exn + str \<Rightarrow> str option" where
  "rendered formats fmt result =
     (if fmt \<notin> set formats then None else (case result of Inl _ \<Rightarrow> None | Inr b \<Rightarrow> Some b))"

definition collect_doc :: "str \<Rightarrow> str \<Rightarrow> str \<Rightarrow> str \<Rightarrow> str option \<Rightarrow> str option \<Rightarrow> exn + gen_doc" where
  "collect_doc kind what template doc_id pdf docx =
     (if pdf = None \<and> docx = None
      then Inl (GenerationError (''All formats failed for '' @ what @ '' (doc_id='' @ doc_id @ '')''))
      else Inr \<lparr>gd_id = doc_id, gd_type = kind, gd_template = template, gd_pdf = pdf, gd_docx = docx\<rparr>)"

text \<open>\<^verbatim>\<open>_tailor_resume\<close>: any failure keeps the data as they were.\<close>

definition tailor_resume ::
  "doc_env \<Rightarrow> llm_client \<Rightarrow> resume_data \<Rightarrow> str \<Rightarrow> llm_world \<Rightarrow> llm_world \<times> resume_data" where
  "tailor_resume E c r job_description w =
     (case client_structured c (de_schema E) (de_parse E) (de_tailor_prompt E r job_description)
             (de_tailor_system E) ''resume_tailor'' w of
        (w', Inr t) \<Rightarrow> (w', t)
      | (w', Inl _) \<Rightarrow> (w', r))"

definition default_formats :: "str list \<Rightarrow> str list" where
  "default_formats fs = (if fs = [] then [''pdf'', ''docx''] else fs)"

definition generate_resume_doc ::
  "doc_env \<Rightarrow> llm_client option \<Rightarrow> resume_data \<Rightarrow> str \<Rightarrow> str \<Rightarrow> str list \<Rightarrow> str \<Rightarrow> (llm_world, exn, gen_doc) op" where
  "generate_resume_doc E client r job_description template formats doc_id w =
     (let fs = default_formats formats in
      case (case client of
              Some c \<Rightarrow> if job_description = [] then (w, r) else tailor_resume E c r job_description w
            | None \<Rightarrow> (w, r)) of
        (w', ctx) \<Rightarrow>
          (w', collect_doc ''resume'' ''resume generation'' template doc_id
                 (rendered fs ''pdf'' (de_pdf E template ctx))
                 (rendered fs ''docx'' (de_docx E (docx_resume ctx)))))"

definition FALLBACK_LETTER :: str where
  "FALLBACK_LETTER = ''Dear Hiring Manager,'' @ [NL, NL]
     @ ''I am writing to express my strong interest in this position. My background and skills align well with the requirements outlined in the job description.'' @ [NL, NL]
     @ ''I look forward to discussing how my experience can contribute to your team'' @ [CHR 39] @ ''s success.'' @ [NL, NL]
     @ ''Sincerely,'' @ [NL] @ ''[Your Name]''"

definition render_prompt :: "doc_env \<Rightarrow> cover_template \<Rightarrow> str \<Rightarrow> str \<Rightarrow> str \<Rightarrow> str" where
  "render_prompt E t job_description resume company_info =
     de_prompt E t job_description resume
       (if company_info = [] then [] else ''COMPANY INFORMATION:'' @ [NL] @ company_info)"

definition generate_letter_content ::
  "doc_env \<Rightarrow> llm_client option \<Rightarrow> cover_template \<Rightarrow> str \<Rightarrow> str \<Rightarrow> str \<Rightarrow> (llm_world, exn, str) op" where
  "generate_letter_content E client t job_description resume_text company_info w =
     (case client of
        None \<Rightarrow> (w, Inr FALLBACK_LETTER)
      | Some c \<Rightarrow>
         (case client_complete c (render_prompt E t job_description resume_text company_info) ''cover_letter'' w of
            (w', Inl e) \<Rightarrow> (w', Inl e)
          | (w', Inr r) \<Rightarrow> (w', Inr (lr_content r))))"

text \<open>\<^verbatim>\<open>Markup.escape\<close>.\<close>

definition escape_char :: "char \<Rightarrow> str" where
  "escape_char c =
     (if c = CHR ''&'' then ''&amp;'' else if c = CHR ''<'' then ''&lt;'' else if c = CHR ''>'' then ''&gt;''
      else if c = CHR 34 then ''&#34;'' else if c = CHR 39 then ''&#39;'' else [c])"

definition escape_html :: "str \<Rightarrow> str" where
  "escape_html s = concat (map escape_char s)"

definition p_tag :: "str \<Rightarrow> str" where
  "p_tag s = ''<p>'' @ s @ ''</p>''"

definition text_to_html :: "str \<Rightarrow> str" where
  "text_to_html s = concat (map p_tag (paragraphs_of s))"

definition render_letter_pdf :: "doc_env \<Rightarrow> str \<Rightarrow> cover_template \<Rightarrow> exn + str" where
  "render_letter_pdf E content t =
     (case de_letter_html E t of
        Some (page, css) \<Rightarrow>
          de_html_pdf E (page (concat (map (\<lambda>p. p_tag (escape_html p)) (paragraphs_of content)))) css
      | None \<Rightarrow>
          de_html_pdf E (''<html><body style='' @ [CHR 39]
            @ ''font-family:Georgia,serif;font-size:12pt;margin:1in;line-height:1.6;'' @ [CHR 39, CHR ''>'']
            @ text_to_html content @ ''</body></html>'') None)"

definition generate_cover_letter_doc ::
  "doc_env \<Rightarrow> llm_client option \<Rightarrow> str \<Rightarrow> str \<Rightarrow> str \<Rightarrow> cover_template option \<Rightarrow> str list \<Rightarrow> str
     \<Rightarrow> (llm_world, exn, gen_doc) op" where
  "generate_cover_letter_doc E client resume_text job_description company_info template formats doc_id w =
     (let fs = default_formats formats;
          t = (case template of Some t \<Rightarrow> t | None \<Rightarrow> select_best_template [] job_description False False)
      in case generate_letter_content E client t job_description resume_text company_info w of
           (w', Inl e) \<Rightarrow> (w', Inl e)
         | (w', Inr content) \<Rightarrow>
             (w', collect_doc ''cover_letter'' ''cover letter'' (template_value t) doc_id
                    (rendered fs ''pdf'' (render_letter_pdf E content t))
                    (rendered fs ''docx'' (de_docx E (docx_letter content)))))"

section \<open>Into the tenant's storage\<close>

definition PDF_CONTENT_TYPE :: str where "PDF_CONTENT_TYPE = ''application/pdf''"

definition DOCX_CONTENT_TYPE :: str where
  "DOCX_CONTENT_TYPE = ''application/vnd.openxmlformats-officedocument.wordprocessingml.document''"

definition doc_key :: "str \<Rightarrow> gen_doc \<Rightarrow> str \<Rightarrow> str" where
  "doc_key u doc ext = (if gd_type doc = ''cover_letter'' then cover_letter_key else resume_key) u (gd_id doc) ext"

definition put_rendered ::
  "path \<Rightarrow> str \<Rightarrow> gen_doc \<Rightarrow> str \<Rightarrow> str \<Rightarrow> str option \<Rightarrow> (fs, exn, str option) op" where
  "put_rendered rt u doc ext content_type content f =
     (case content of
        None \<Rightarrow> (f, Inr None)
      | Some bytes \<Rightarrow>
         (case service_put rt u (doc_key u doc ext) bytes content_type f of
            (f', Inl e) \<Rightarrow> (f', Inl e)
          | (f', Inr _) \<Rightarrow> (f', Inr (Some (doc_key u doc ext)))))"

definition persist_generated_document ::
  "path \<Rightarrow> str \<Rightarrow> gen_doc \<Rightarrow> (fs, exn, str option \<times> str option) op" where
  "persist_generated_document rt u doc f =
     (case put_rendered rt u doc ''pdf'' PDF_CONTENT_TYPE (gd_pdf doc) f of
        (f1, Inl e) \<Rightarrow> (f1, Inl e)
      | (f1, Inr pdf_key) \<Rightarrow>
         (case put_rendered rt u doc ''docx'' DOCX_CONTENT_TYPE (gd_docx doc) f1 of
            (f2, Inl e) \<Rightarrow> (f2, Inl e)
          | (f2, Inr docx_key) \<Rightarrow> (f2, Inr (pdf_key, docx_key))))"

section \<open>Joining and splitting\<close>

lemma strip_space: "strip (CHR '' '' # s) = strip s"
  by (simp add: strip_def lstrip_def is_space_def)

definition tidy_skill :: "str \<Rightarrow> bool" where
  "tidy_skill x \<longleftrightarrow> 1 < length x \<and> \<not> is_space (hd x) \<and> \<not> is_space (last x) \<and> CHR '','' \<notin> set x \<and> NL \<notin> set x"

lemma tidy_strip: "tidy_skill x \<Longrightarrow> strip x = x"
  by (rule strip_id) (auto simp: tidy_skill_def)

lemma split_joined_skills:
  assumes "list_all tidy_skill (x # xs)"
  shows "split_on CHR '','' (join_with '', '' (x # xs)) = x # map (\<lambda>y. CHR '' '' # y) xs"
  using assms
proof (induction xs arbitrary: x)
  case Nil
  then show ?case by (simp add: split_on_none tidy_skill_def)
next
  case (Cons y ys)
  have "CHR '','' \<notin> set x" using Cons.prems by (simp add: tidy_skill_def)
  then have "split_on CHR '','' (join_with '', '' (x # y # ys))
      = x # split_on CHR '','' (CHR '' '' # join_with '', '' (y # ys))"
    using split_on_append [of "CHR '',''" x] by simp
  also have "split_on CHR '','' (join_with '', '' (y # ys)) = y # map (\<lambda>y. CHR '' '' # y) ys"
    using Cons by simp
  then have "split_on CHR '','' (CHR '' '' # join_with '', '' (y # ys)) = (CHR '' '' # y) # map (\<lambda>y. CHR '' '' # y) ys"
    by simp
  finally show ?case by simp
qed

lemma joined_skills_chars:
  assumes "list_all tidy_skill xs" and "xs \<noteq> []"
  shows "NL \<notin> set (join_with '', '' xs)" and "\<not> is_space (hd (join_with '', '' xs))"
    and "\<not> is_space (last (join_with '', '' xs))" and "join_with '', '' xs \<noteq> []"
proof -
  have "NL \<notin> set (join_with '', '' xs) \<and> \<not> is_space (hd (join_with '', '' xs))
      \<and> \<not> is_space (last (join_with '', '' xs)) \<and> join_with '', '' xs \<noteq> []"
    using assms
  proof (induction xs rule: induct_list012)
    case (3 x y zs)
    then have "x \<noteq> []" by (auto simp: tidy_skill_def)
    with 3 show ?case by (auto simp: tidy_skill_def)
  qed (auto simp: tidy_skill_def)
  then show "NL \<notin> set (join_with '', '' xs)" "\<not> is_space (hd (join_with '', '' xs))"
    "\<not> is_space (last (join_with '', '' xs))" "join_with '', '' xs \<noteq> []" by auto
qed

lemma dedup_distinct:
  "distinct (map lower xs) \<Longrightarrow> list_all (\<lambda>x. 1 < length x) xs \<Longrightarrow> lower ` set xs \<inter> set seen = {}
     \<Longrightarrow> dedup_skills seen xs = xs"
proof (induction xs arbitrary: seen)
  case (Cons x xs)
  then show ?case using Cons.IH [of "lower x # seen"] by auto
qed simp

text \<open>Reading a line of joined skills gives the skills.\<close>

lemma line_skills_joined:
  assumes "list_all tidy_skill xs" and "2 \<le> length xs"
  shows "line_skills (join_with '', '' xs) = xs"
proof -
  obtain x y ys where xs: "xs = x # y # ys" using assms(2) by (cases xs rule: remdups_adj.cases) auto
  let ?j = "join_with '', '' xs"
  have ne: "xs \<noteq> []" using xs by simp
  note ch = joined_skills_chars [OF assms(1) ne]
  have s: "strip ?j = ?j" by (rule strip_id [OF ch(4,2,3)])
  have c: "CHR '','' \<in> set ?j" by (simp add: xs)
  have t: "map strip (x # map (\<lambda>y. CHR '' '' # y) (y # ys)) = x # y # ys"
    using assms(1) unfolding xs by (simp add: tidy_strip strip_space comp_def list_all_iff map_idI)
  have n: "filter (\<lambda>x. x \<noteq> []) xs = xs" using assms(1) by (auto simp: list_all_iff tidy_skill_def intro!: filter_True)
  have "line_skills ?j = filter (\<lambda>x. x \<noteq> []) (map strip (split_on CHR '','' ?j))"
    using c ch(4) by (simp add: line_skills_def Let_def s)
  also have "split_on CHR '','' ?j = x # map (\<lambda>y. CHR '' '' # y) (y # ys)"
    using split_joined_skills [of x "y # ys"] assms(1) unfolding xs by blast
  finally show ?thesis unfolding t using n unfolding xs by (rule trans)
qed

section \<open>Sections of a rendered document\<close>

lemma map_of_dict_put: "map_of (dict_put k v d) j = (if j = k then Some v else map_of d j)"
  by (induction d) auto

lemma section_loop_state:
  "\<exists>secs' cur' ls'. \<forall>rest. section_loop (ls @ rest) secs cur acc = section_loop rest secs' cur' ls'"
proof (induction ls arbitrary: secs cur acc)
  case (Cons l ls)
  then show ?case by (cases "header_of l \<in> set SECTION_HEADERS") simp_all
qed auto

lemma section_loop_plain:
  "list_all (\<lambda>l. header_of l \<notin> set SECTION_HEADERS) ls
     \<Longrightarrow> section_loop ls secs (Some h) acc = dict_put h (strip (join_with [NL] (acc @ map strip ls))) secs"
  by (induction ls arbitrary: acc) (simp_all add: close_section_def)

section \<open>Properties\<close>

lemma raw_lines:
  assumes "ts \<noteq> []"
  shows "split_on NL (join_with [NL] ts) = concat (map (split_on NL) ts)"
  by (rule split_on_join [OF assms])

lemma header_of_strip: "header_of (strip l) = header_of l" if "strip (strip l) = strip l"
  using that by (simp add: header_of_def)


definition sample_resume :: resume_data where
  "sample_resume = \<lparr>rx_name = ''Ann'', rx_email = [], rx_phone = [], rx_location = [], rx_linkedin = [],
     rx_github = [], rx_title = [], rx_summary = ''Engineer'', rx_skills = [''SQL'', ''Go''], rx_experience = [],
     rx_education = [], rx_certifications = [''CKA''], rx_projects = []\<rparr>"


text \<open>
  a cover letter is written in the creative style exactly when its job description contains one of
  the creative keywords, as a part of a word too (\<open>ui\<close> in \<open>requirements\<close>), and in the standard style
  otherwise: the generator passes an empty title, so that the executive and technical styles are never chosen.
\<close>

theorem cover_letter_style:
  assumes "snd (generate_cover_letter_doc E client resume jd company None formats i w) = Inr doc"
  shows "gd_template doc = (if list_ex (\<lambda>k. py_in k (lower jd)) creative_keywords then ''creative'' else ''standard'')
    \<and> gd_type doc = ''cover_letter'' \<and> gd_id doc = i \<and> (gd_pdf doc \<noteq> None \<or> gd_docx doc \<noteq> None)
    \<and> list_ex (\<lambda>k. py_in k (lower ''Requirements'')) creative_keywords"
proof (intro conjI)
  have none: "\<not> list_ex (\<lambda>k. py_in k (lower [])) executive_keywords" "\<not> list_ex (\<lambda>k. py_in k (lower [])) technical_keywords"
    by code_simp+
  have empty: "list_all (\<lambda>k. \<not> py_in k (lower [])) creative_keywords" by code_simp
  then have sel: "select_best_template [] jd False False
      = (if list_ex (\<lambda>k. py_in k (lower jd)) creative_keywords then CREATIVE else STANDARD)"
    using none by (auto simp: select_best_template_def list_ex_iff list_all_iff)
  from assms show "gd_template doc = (if list_ex (\<lambda>k. py_in k (lower jd)) creative_keywords then ''creative'' else ''standard'')"
    "gd_type doc = ''cover_letter''" "gd_id doc = i" "gd_pdf doc \<noteq> None \<or> gd_docx doc \<noteq> None"
    by (auto simp: generate_cover_letter_doc_def collect_doc_def sel Let_def split: prod.splits sum.splits if_splits)
  show "list_ex (\<lambda>k. py_in k (lower ''Requirements'')) creative_keywords" by code_simp
qed

definition sample_env :: doc_env where
  "sample_env = \<lparr>de_pdf = (\<lambda>t r. Inl (TemplateError t ''missing'')), de_html_pdf = (\<lambda>h css. Inr h),
     de_docx = (\<lambda>bs. Inr (join_with [NL] (map block_text bs))), de_letter_html = (\<lambda>t. None),
     de_prompt = (\<lambda>t a b c. a), de_tailor_prompt = (\<lambda>r j. j), de_tailor_system = ''tailor'', de_schema = ''schema'',
     de_parse = (\<lambda>s. Inl s)\<rparr>"

theorem cover_letter_style_witness:
  "\<exists>doc. snd (generate_cover_letter_doc sample_env None ''cv'' ''Requirements: C'' ''Acme'' None [] ''d1'' w) = Inr doc
     \<and> gd_template doc = ''creative''"
proof -
  have "\<exists>doc. snd (generate_cover_letter_doc sample_env None ''cv'' ''Requirements: C'' ''Acme'' None [] ''d1'' w) = Inr doc"
    by (simp add: generate_cover_letter_doc_def generate_letter_content_def collect_doc_def rendered_def default_formats_def
        render_letter_pdf_def sample_env_def Let_def)
  then obtain doc where doc: "snd (generate_cover_letter_doc sample_env None ''cv'' ''Requirements: C'' ''Acme'' None [] ''d1'' w) = Inr doc"
    by blast
  have "list_ex (\<lambda>k. py_in k (lower ''Requirements: C'')) creative_keywords" by code_simp
  with cover_letter_style [OF doc, THEN conjunct1] doc show ?thesis by simp
qed

section \<open>Stored documents\<close>

lemma document_key_path:
  assumes "simple_id u" and "CHR ''/'' \<notin> set i" and "CHR ''/'' \<notin> set ext" and "2 \<le> length ext"
    and "kind \<in> {''resumes'', ''cover_letters'', ''uploads''}"
    and "key = user_prefix u @ CHR ''/'' # kind @ CHR ''/'' # i @ CHR ''.'' # ext"
  shows "clean_key key" and "resolve_path rt key = rt @ [''users'', u, kind, i @ CHR ''.'' # ext]"
proof -
  have u: "CHR ''/'' \<notin> set u" "u \<noteq> []" "u \<noteq> ''.''" "u \<noteq> ''..''" using assms(1) by (auto simp: simple_id_def)
  have k: "CHR ''/'' \<notin> set kind" "kind \<noteq> []" "kind \<noteq> ''.''" "kind \<noteq> ''..''" using assms(5) by auto
  have l: "i @ CHR ''.'' # ext \<noteq> []" "i @ CHR ''.'' # ext \<noteq> ''.''" "i @ CHR ''.'' # ext \<noteq> ''..''"
    using assms(4) by (auto simp: append_eq_Cons_conv)
  have key: "key = ''users'' @ CHR ''/'' # u @ CHR ''/'' # kind @ CHR ''/'' # i @ CHR ''.'' # ext"
    using assms(6) by (simp add: user_prefix_def)
  have "split_on CHR ''/'' key = ''users'' # split_on CHR ''/'' (u @ CHR ''/'' # kind @ CHR ''/'' # i @ CHR ''.'' # ext)"
    unfolding key by (rule split_on_append) simp
  also have "split_on CHR ''/'' (u @ CHR ''/'' # kind @ CHR ''/'' # i @ CHR ''.'' # ext) = [u, kind, i @ CHR ''.'' # ext]"
    using assms(2,3) by (simp add: split_on_append [OF u(1)] split_on_append [OF k(1)] split_on_none)
  finally have sp: "split_on CHR ''/'' key = [''users'', u, kind, i @ CHR ''.'' # ext]" .
  show "clean_key key" using u k l by (simp add: clean_key_def sp)
  have "hd key \<noteq> CHR ''/''" by (simp add: key)
  then show "resolve_path rt key = rt @ [''users'', u, kind, i @ CHR ''.'' # ext]"
    using u k l by (simp add: resolve_path_def sp)
qed

lemma doc_key_path:
  assumes "simple_id u" and "CHR ''/'' \<notin> set (gd_id doc)" and "ext \<in> {''pdf'', ''docx''}"
  shows "clean_key (doc_key u doc ext)"
    and "last (resolve_path rt (doc_key u doc ext)) = gd_id doc @ CHR ''.'' # ext"
proof -
  define kind where "kind = (if gd_type doc = ''cover_letter'' then ''cover_letters'' else ''resumes'')"
  have e: "CHR ''/'' \<notin> set ext" "2 \<le> length ext" using assms(3) by auto
  have k: "kind \<in> {''resumes'', ''cover_letters'', ''uploads''}" by (simp add: kind_def)
  have key: "doc_key u doc ext = user_prefix u @ CHR ''/'' # kind @ CHR ''/'' # gd_id doc @ CHR ''.'' # ext"
    by (simp add: doc_key_def kind_def resume_key_def cover_letter_key_def)
  note path = document_key_path [OF assms(1,2) e k key]
  show "clean_key (doc_key u doc ext)" by (rule path(1))
  show "last (resolve_path rt (doc_key u doc ext)) = gd_id doc @ CHR ''.'' # ext" by (simp add: path(2))
qed

text \<open>
  a generated document is kept as it was rendered. After the move into storage each rendered format
  reads back unchanged under its key, and a format that was not rendered has no key.
\<close>

theorem persisted_document_reads_back:
  assumes "simple_id u" and "CHR ''/'' \<notin> set (gd_id doc)"
    and "persist_generated_document rt u doc f = (f', Inr (pk, dk))"
  shows "map_option (\<lambda>k. service_get rt u k f') pk = map_option Inr (gd_pdf doc)
    \<and> map_option (\<lambda>k. service_get rt u k f') dk = map_option Inr (gd_docx doc)"
proof -
  have e_pdf: "''pdf'' \<in> {''pdf'', ''docx''}" by simp
  note pdf = doc_key_path(1) [OF assms(1,2) e_pdf] doc_key_path(2) [OF assms(1,2) e_pdf, of rt]
  have e_docx: "''docx'' \<in> {''pdf'', ''docx''}" by simp
  note docx = doc_key_path(1) [OF assms(1,2) e_docx] doc_key_path(2) [OF assms(1,2) e_docx, of rt]
  from assms(3) obtain f1 where f1: "put_rendered rt u doc ''pdf'' PDF_CONTENT_TYPE (gd_pdf doc) f = (f1, Inr pk)"
      "put_rendered rt u doc ''docx'' DOCX_CONTENT_TYPE (gd_docx doc) f1 = (f', Inr dk)"
    by (auto simp: persist_generated_document_def split: prod.splits sum.splits)
  have d: "map_option (\<lambda>k. service_get rt u k f') dk = map_option Inr (gd_docx doc)"
    using f1(2) service_put_reads(1) [OF assms(1) docx(1)]
    by (auto simp: put_rendered_def split: option.splits prod.splits sum.splits)
  have "service_get rt u (doc_key u doc ''pdf'') f' = service_get rt u (doc_key u doc ''pdf'') f1"
  proof (cases "gd_docx doc")
    case None
    with f1(2) show ?thesis by (simp add: put_rendered_def)
  next
    case (Some b)
    then obtain obj where put: "service_put rt u (doc_key u doc ''docx'') b DOCX_CONTENT_TYPE f1 = (f', Inr obj)"
      using f1(2) by (auto simp: put_rendered_def split: prod.splits sum.splits)
    have "last (resolve_path rt (doc_key u doc ''pdf'')) \<noteq> last (resolve_path rt (doc_key u doc ''docx''))"
      by (simp add: pdf docx)
    then have "resolve_path rt (doc_key u doc ''pdf'') \<noteq> resolve_path rt (doc_key u doc ''docx'')" by metis
    from service_put_reads(2) [OF assms(1) docx(1) put this] show ?thesis .
  qed
  then have "map_option (\<lambda>k. service_get rt u k f') pk = map_option Inr (gd_pdf doc)"
    using f1(1) service_put_reads(1) [OF assms(1) pdf(1)]
    by (auto simp: put_rendered_def split: option.splits prod.splits sum.splits)
  with d show ?thesis by simp
qed

definition sample_doc :: gen_doc where
  "sample_doc = \<lparr>gd_id = ''d1'', gd_type = ''resume'', gd_template = ''modern'', gd_pdf = Some ''%PDF'', gd_docx = None\<rparr>"

theorem persisted_document_reads_back_witness:
  "\<exists>f'. persist_generated_document [''data''] ''u1'' sample_doc sample_fs = (f', Inr (Some ''users/u1/resumes/d1.pdf'', None))
     \<and> service_get [''data''] ''u1'' ''users/u1/resumes/d1.pdf'' f' = Inr ''%PDF''"
proof -
  have "\<exists>f'. persist_generated_document [''data''] ''u1'' sample_doc sample_fs = (f', Inr (Some ''users/u1/resumes/d1.pdf'', None))"
    by (simp add: persist_generated_document_def put_rendered_def sample_doc_def doc_key_def resume_key_def
        service_put_def local_put_def local_path_def resolve_path_def path_str_def has_prefix_def tenant_check_def
        user_prefix_def parents_def is_file_def sample_fs_def Let_def)
  then obtain f' where f': "persist_generated_document [''data''] ''u1'' sample_doc sample_fs
      = (f', Inr (Some ''users/u1/resumes/d1.pdf'', None))" by blast
  have "simple_id ''u1''" "CHR ''/'' \<notin> set (gd_id sample_doc)" by (simp_all add: simple_id_def sample_doc_def)
  from persisted_document_reads_back [OF this f', THEN conjunct1] f' show ?thesis by (auto simp: sample_doc_def)
qed

section \<open>A user's own key\<close>

definition preferred_provider :: "str \<Rightarrow> db \<Rightarrow> str" where
  "preferred_provider u d =
     (case List.find (\<lambda>c. lc_user c = u) (llm_configs d) of Some c \<Rightarrow> lc_provider c | None \<Rightarrow> ''openai'')"

lemma config_row:
  assumes "db_ok d"
  shows "scalar_one_or_none (filter (\<lambda>c. lc_user c = u) (llm_configs d)) = Inr (List.find (\<lambda>c. lc_user c = u) (llm_configs d))"
proof -
  have "distinct (map lc_user (llm_configs d))" using assms by (simp add: db_ok_def uq_shared_def)
  from filter_key_le_one [OF this, of u]
  show ?thesis
  proof
    assume none: "filter (\<lambda>c. lc_user c = u) (llm_configs d) = []"
    then have "List.find (\<lambda>c. lc_user c = u) (llm_configs d) = None" by (auto simp: find_None_iff filter_empty_conv)
    with none show ?thesis by simp
  next
    assume "\<exists>c. filter (\<lambda>c. lc_user c = u) (llm_configs d) = [c]"
    then obtain c where c: "filter (\<lambda>c. lc_user c = u) (llm_configs d) = [c]" by blast
    then have "c \<in> set (llm_configs d)" "lc_user c = u" by (metis (mono_tags, lifting) list.set_intros(1) mem_Collect_eq set_filter)+
    then have "List.find (\<lambda>c. lc_user c = u) (llm_configs d) = Some c"
      using find_key [OF \<open>distinct (map lc_user (llm_configs d))\<close>] by blast
    with c show ?thesis by simp
  qed
qed

lemma put_other_row:
  assumes "put_credential P s i k x d = (d', r)" and "k' \<noteq> k"
  shows "get_credential P k' d' = get_credential P k' d \<and> llm_configs d' = llm_configs d"
proof -
  have upd: "filter (\<lambda>r. row_key r = k') (update_where (\<lambda>r. row_key r = row_key row) (\<lambda>r. r\<lparr>uc_blob := b, uc_kek := n\<rparr>) rows)
      = filter (\<lambda>r. row_key r = k') rows" if "row_key row = k" for row b n rows
    by (rule filter_update_where_other) (use that assms(2) in \<open>simp add: row_key_def\<close>)
  have found: "row_key row = k" if "credential_row k d = Inr (Some row)" for row
    using that unfolding credential_row_def scalar_one_Some
    by (metis (mono_tags, lifting) list.set_intros(1) mem_Collect_eq set_filter)
  have "credential_row k' d' = credential_row k' d \<and> llm_configs d' = llm_configs d"
  proof (cases "sp_encrypt P k s x")
    case (Inl e)
    with assms(1) show ?thesis by (simp add: put_credential_def)
  next
    case (Inr b)
    let ?new = "\<lparr>uc_id = i, uc_user = fst k, uc_kind = fst (snd k), uc_provider = snd (snd k), uc_blob = b, uc_kek = eb_kek b\<rparr>"
    have new: "row_key ?new \<noteq> k'" using assms(2) by (auto simp: row_key_def)
    show ?thesis
    proof (cases "credential_row k d")
      case (Inl e)
      with assms(1) Inr show ?thesis by (simp add: put_credential_def)
    next
      case row: (Inr row)
      show ?thesis
      proof (cases row)
        case None
        with assms(1) Inr row new show ?thesis
          by (simp add: put_credential_def commit_def credential_row_def split: if_splits) auto
      next
        case (Some rw)
        with row found have "row_key rw = k" by simp
        with assms(1) Inr row Some upd [where row = rw and b = b and n = "eb_kek b" and rows = "credentials d"] show ?thesis
          by (simp add: put_credential_def commit_def credential_row_def split: if_splits) auto
      qed
    qed
  qed
  then show ?thesis by (simp add: get_credential_def)
qed

text \<open>
  a stored key is its user's alone. After a user stores a key for the preferred provider, the user's
  next client sends exactly this key, and the client of every other user is what it was.
\<close>

theorem stored_key_serves_its_user:
  assumes "fernet_laws F" and "ks \<noteq> []" and "db_ok d" and "key \<noteq> []"
    and "put_llm_key (local_api F ks) s i u (preferred_provider u d) key d = (d', r)"
  shows "r = Inr () \<and> (\<exists>c. build_llm_client_for_user L st (local_api F ks) u d' = Inr c
        \<and> map_option cr_api_key (cl_creds c) = Some key \<and> cl_user c = Some u)
    \<and> (v \<noteq> u \<longrightarrow> build_llm_client_for_user L st (local_api F ks) v d' = build_llm_client_for_user L st (local_api F ks) v d)"
proof (intro conjI impI)
  let ?P = "local_api F ks" and ?k = "(u, KIND_LLM_KEY, preferred_provider u d)"
  note laws = local_laws [OF assms(1,2)]
  from assms(5) have put: "put_credential ?P s i ?k key d = (d', r)" by (simp add: put_llm_key_def)
  from secrets_laws.put_refines [OF laws assms(3), of s i ?k key] put
  have ok: "r = Inr ()" "secrets_of ?P d' = (secrets_of ?P d)(?k \<mapsto> key)" "db_ok d'" "llm_configs d' = llm_configs d"
    by (auto elim: exE) (metis db.select_convs(9) db.surjective db.update_convs(8))
  show "r = Inr ()" by (rule ok)
  have "get_llm_key ?P u (preferred_provider u d) d' = Inr (Some key)"
    unfolding get_llm_key_def
    by (rule secrets_laws.get_refines [OF laws ok(3), THEN conjunct1, THEN mp]) (simp add: ok(2))
  then show "\<exists>c. build_llm_client_for_user L st ?P u d' = Inr c \<and> map_option cr_api_key (cl_creds c) = Some key \<and> cl_user c = Some u"
    using assms(4) config_row [OF ok(3), of u] unfolding ok(4)
    by (auto simp: build_llm_client_for_user_def preferred_provider_def ok(4) Let_def split: option.split)
  show "build_llm_client_for_user L st ?P v d' = build_llm_client_for_user L st ?P v d" if "v \<noteq> u"
  proof -
    have g: "get_llm_key ?P v q d' = get_llm_key ?P v q d" for q
      unfolding get_llm_key_def using put_other_row [OF put, of "(v, KIND_LLM_KEY, q)"] that by simp
    show ?thesis unfolding build_llm_client_for_user_def ok(4) g ..
  qed
qed

theorem stored_key_serves_its_user_witness:
  "\<exists>c. build_llm_client_for_user sample_litellm sample_llm_settings (local_api sample_fernet [''k1'', ''k0'']) ''u1''
       (fst (put_llm_key (local_api sample_fernet [''k1'', ''k0'']) (''a'', ''b'', ''c'') ''i'' ''u1''
         (preferred_provider ''u1'' empty_db) ''sk-1'' empty_db)) = Inr c
     \<and> map_option cr_api_key (cl_creds c) = Some ''sk-1''"
proof -
  obtain d' r where put: "put_llm_key (local_api sample_fernet [''k1'', ''k0'']) (''a'', ''b'', ''c'') ''i'' ''u1''
      (preferred_provider ''u1'' empty_db) ''sk-1'' empty_db = (d', r)" by (metis surj_pair)
  have "''sk-1'' \<noteq> []" by simp
  from stored_key_serves_its_user [OF sample.fernet_laws_axioms sample.some_key empty_db_ok_secrets this put,
      THEN conjunct2, THEN conjunct1, of sample_litellm sample_llm_settings]
  show ?thesis unfolding put fst_conv by blast
qed

end
