(* ===== verification/Worker.thy ===== *)
theory Worker
  imports Dispatch
begin

text \<open>
  The apply worker (\<^verbatim>\<open>workers/tasks.py\<close>): one attempt of the Arq task on an application, from the
  unscoped load to the final status, with the ATS gate, the submission, the classification of its
  failures, and the attempts that Arq makes when the task asks for a retry.

  The state is the database with the log of the effects outside it: the submissions that returned a
  confirmation, the progress events and the metric increments, in order. The browser run is an
  argument: it takes the database and the application, and returns the database it leaves (other
  sessions write while it runs) and its outcome.
\<close>

section \<open>State and environment\<close>

record application_result =
  res_submitted :: bool
  res_confirmation_id :: "str option"
  res_status :: str
  res_notes :: str

text \<open>
  How a call of \<^verbatim>\<open>run_apply\<close> ends: a missing prerequisite, another exception with its text, a
  cancellation by the job timeout, or a result.
\<close>

datatype run_outcome = Prerequisite str | Raised str | Cancelled | Ran application_result

type_synonym apply_run = "db \<Rightarrow> application \<Rightarrow> db \<times> run_outcome"

datatype effect =
    Confirmation str str
  | Progress str str str str
  | ApplicationsTotal str str

type_synonym world = "db \<times> effect list"

record worker_settings =
  live_apply :: bool
  min_ats_score :: real
  min_ats_text :: str

text \<open>The Arq context: whether it carries a redis pool, and \<^verbatim>\<open>ctx.get("job_try", 1)\<close>.\<close>

record job_ctx =
  has_redis :: bool
  job_try :: "nat option"

text \<open>How one attempt ends for Arq: normally, with a retry after some seconds, or with an exception.\<close>

datatype job_result = Returned | RetryAfter nat | JobCancelled | JobRaised exn

definition MAX_TRIES :: nat where "MAX_TRIES = 3"

section \<open>Failure classification\<close>

definition TRANSIENT_HINTS :: "str list" where
  "TRANSIENT_HINTS = [''rate limit'', ''timeout'', ''timed out'', ''429'', ''503'', ''502'',
     ''connection'', ''temporarily'', ''unavailable'', ''network'']"

definition is_transient :: "str \<Rightarrow> bool" where
  "is_transient exc = (\<exists>h \<in> set TRANSIENT_HINTS. py_in h (lower exc))"

datatype submit_outcome = Confirmed str | Transient str | SubmitCancelled | SubmitFailed str

text \<open>\<^verbatim>\<open>_submit_application\<close>: the placeholder unless live, else the run with its failures reclassified.\<close>

definition submit_application ::
  "worker_settings \<Rightarrow> apply_run \<Rightarrow> application \<Rightarrow> db \<Rightarrow> db \<times> submit_outcome" where
  "submit_application st run a d =
     (if \<not> live_apply st then (d, Confirmed ''placeholder-confirmation'')
      else (case run d a of
          (d', Prerequisite m) \<Rightarrow> (d', SubmitFailed m)
        | (d', Raised m) \<Rightarrow> (d', if is_transient m then Transient m else SubmitFailed m)
        | (d', Cancelled) \<Rightarrow> (d', SubmitCancelled)
        | (d', Ran r) \<Rightarrow>
            (d', if \<not> res_submitted r
                 then SubmitFailed (if res_notes r = [] then ''Submission not confirmed by the agent''
                                    else res_notes r)
                 else Confirmed (if truthy (res_confirmation_id r) then or_empty (res_confirmation_id r)
                                 else ''submitted''))))"

section \<open>The ATS gate\<close>

text \<open>\<open>score\<close> is \<^verbatim>\<open>resume_service.score_resume\<close> of the resume and the job, reading the database.\<close>

definition ats_gate_ok ::
  "worker_settings \<Rightarrow> (db \<Rightarrow> str \<Rightarrow> str \<Rightarrow> exn + real) \<Rightarrow> db \<Rightarrow> application \<Rightarrow> bool \<times> real" where
  "ats_gate_ok st score d a =
     (if \<not> truthy (a_resume a) then (True, 0)
      else (case score d (or_empty (a_resume a)) (a_job a) of
          Inl e \<Rightarrow> (True, 0)
        | Inr s \<Rightarrow> (\<not> (0 < s \<and> s < min_ats_score st), s)))"

section \<open>The apply task\<close>

text \<open>Assigning columns of a loaded row and committing: an UPDATE of that row.\<close>

definition update_row :: "str \<Rightarrow> (application \<Rightarrow> application) \<Rightarrow> (db, exn, unit) op" where
  "update_row i f d = commit (d\<lparr>applications := update_where (\<lambda>x. a_id x = i) f (applications d)\<rparr>) d"

definition publish :: "job_ctx \<Rightarrow> str \<Rightarrow> str \<Rightarrow> application_status \<Rightarrow> str \<Rightarrow> effect list" where
  "publish ctx user_id app_id st detail =
     (if has_redis ctx then [Progress user_id app_id (status_value st) detail] else [])"

definition mark_failed ::
  "job_ctx \<Rightarrow> application \<Rightarrow> str \<Rightarrow> str \<Rightarrow> world \<Rightarrow> world \<times> (exn + unit)" where
  "mark_failed ctx a platform note w =
     (case update_row (a_id a) (\<lambda>x. x\<lparr>a_status := FAILED, a_notes := Some note\<rparr>) (fst w) of
        (d', Inl e) \<Rightarrow> ((d', snd w), Inl e)
      | (d', Inr _) \<Rightarrow>
          ((d', snd w @ [ApplicationsTotal ''failed'' platform]
                 @ publish ctx (a_user a) (a_id a) FAILED note), Inr ()))"

text \<open>The end of a task whose last step is \<^verbatim>\<open>_mark_failed\<close>.\<close>

definition then_return :: "world \<times> (exn + unit) \<Rightarrow> world \<times> job_result" where
  "then_return r = (case r of (w, Inl e) \<Rightarrow> (w, JobRaised e) | (w, Inr _) \<Rightarrow> (w, Returned))"

text \<open>What follows the submission (the handlers of its exceptions, and the success path).\<close>

definition apply_finish ::
  "job_ctx \<Rightarrow> application \<Rightarrow> str \<Rightarrow> int \<Rightarrow> submit_outcome \<Rightarrow> world \<Rightarrow> world \<times> job_result" where
  "apply_finish ctx a platform now out w =
     (let try = (case job_try ctx of None \<Rightarrow> 1 | Some n \<Rightarrow> n) in
      case out of
        Transient m \<Rightarrow>
          if MAX_TRIES \<le> try then
            then_return (mark_failed ctx a platform
              (''Apply failed after '' @ show_nat try @ '' attempts: '' @ m) w)
          else (w, RetryAfter (try * 30))
      | SubmitCancelled \<Rightarrow> (fst (mark_failed ctx a platform ''Apply cancelled (timeout)'' w), JobCancelled)
      | SubmitFailed m \<Rightarrow> then_return (mark_failed ctx a platform (''Apply failed: '' @ m) w)
      | Confirmed c \<Rightarrow>
         (let w1 = (fst w, snd w @ [Confirmation (a_id a) c]) in
          case update_row (a_id a) (\<lambda>x. x\<lparr>a_status := APPLIED, a_applied_at := Some now\<rparr>) (fst w1) of
             (d', Inl e) \<Rightarrow> ((d', snd w1), JobRaised e)
           | (d', Inr _) \<Rightarrow>
               ((d', snd w1 @ [ApplicationsTotal ''applied'' platform]
                      @ publish ctx (a_user a) (a_id a) APPLIED []), Returned)))"

definition apply_task ::
  "worker_settings \<Rightarrow> (db \<Rightarrow> str \<Rightarrow> str \<Rightarrow> exn + real) \<Rightarrow> apply_run \<Rightarrow> job_ctx \<Rightarrow> int \<Rightarrow> str \<Rightarrow> world
     \<Rightarrow> world \<times> job_result" where
  "apply_task st score run ctx now i w =
     (case db_get None a_user a_id i (applications (fst w)) of
        None \<Rightarrow> (w, Returned)
      | Some a \<Rightarrow>
          if a_status a = APPLIED then (w, Returned)
          else
            (let platform = (case db_get (Some (a_user a)) j_user j_id (a_job a) (jobs (fst w)) of
                    Some j \<Rightarrow> j_platform j | None \<Rightarrow> ''unknown'');
                 gate = ats_gate_ok st score (fst w) a
             in if \<not> fst gate then
                  then_return (mark_failed ctx a platform
                    (''ATS score '' @ show_fixed 2 (snd gate) @ '' below threshold '' @ min_ats_text st) w)
                else
                  (case update_row i (\<lambda>x. x\<lparr>a_status := APPLYING\<rparr>) (fst w) of
                     (d', Inl e) \<Rightarrow> ((d', snd w), JobRaised e)
                   | (d', Inr _) \<Rightarrow>
                      (case submit_application st run (a\<lparr>a_status := APPLYING\<rparr>) d' of
                         (d'', out) \<Rightarrow>
                           apply_finish ctx a platform now out
                             (d'', snd w @ publish ctx (a_user a) i APPLYING [])))))"

text \<open>
  Arq runs a task that asks for a retry again with the next \<^verbatim>\<open>job_try\<close>, up to \<^verbatim>\<open>max_tries\<close>. The n-th
  attempt has its own browser run and clock.
\<close>

function arq_attempts ::
  "worker_settings \<Rightarrow> (db \<Rightarrow> str \<Rightarrow> str \<Rightarrow> exn + real) \<Rightarrow> (nat \<Rightarrow> apply_run) \<Rightarrow> bool \<Rightarrow> (nat \<Rightarrow> int) \<Rightarrow> str
     \<Rightarrow> nat \<Rightarrow> world \<Rightarrow> world \<times> job_result" where
  "arq_attempts st score runs redis clock i n w =
     (case apply_task st score (runs n) \<lparr>has_redis = redis, job_try = Some n\<rparr> (clock n) i w of
        (w', RetryAfter k) \<Rightarrow>
          if n < MAX_TRIES then arq_attempts st score runs redis clock i (Suc n) w' else (w', RetryAfter k)
      | (w', r) \<Rightarrow> (w', r))"
  by pat_completeness auto
termination
  by (relation "measure (\<lambda>(_, _, _, _, _, _, n, _). MAX_TRIES - n)") (auto simp: MAX_TRIES_def)

declare arq_attempts.simps [simp del]

section \<open>Updating one row\<close>

definition row_status :: "str \<Rightarrow> db \<Rightarrow> application_status option" where
  "row_status i d = map_option a_status (db_get None a_user a_id i (applications d))"

lemma get_row:
  assumes "db_ok d"
  shows "db_get None a_user a_id i (applications d) = Some a \<longleftrightarrow> a \<in> set (applications d) \<and> a_id a = i"
  using assms find_key [of a_id "applications d" i a] by (simp add: db_get_def db_ok_def pk_ok_def)

text \<open>The columns that the worker writes leave id, owner and job alone.\<close>

definition keeps_key :: "(application \<Rightarrow> application) \<Rightarrow> bool" where
  "keeps_key f \<longleftrightarrow> (\<forall>x. a_id (f x) = a_id x \<and> app_key (f x) = app_key x)"

lemma worker_updates_keep_key [simp]:
  "keeps_key (\<lambda>x. x\<lparr>a_status := s\<rparr>)"
  "keeps_key (\<lambda>x. x\<lparr>a_status := s, a_notes := n\<rparr>)"
  "keeps_key (\<lambda>x. x\<lparr>a_status := s, a_applied_at := t\<rparr>)"
  by (simp_all add: keeps_key_def app_key_def)

lemma update_row_ok:
  assumes "db_ok d" and "a \<in> set (applications d)" and "keeps_key f"
    and "is_active_app (f a) \<Longrightarrow> is_active_app a"
  shows "update_row (a_id a) f d =
    (d\<lparr>applications := update_where (\<lambda>x. a_id x = a_id a) f (applications d)\<rparr>, Inr ())"
proof -
  have pk: "distinct (map a_id (applications d))" and uq: "uq_app_active_job (applications d)"
    using assms(1) by (auto simp: db_ok_def pk_ok_def)
  have "uq_app_active_job (update_where (\<lambda>x. a_id x = a_id a) f (applications d))"
  proof (rule uq_update [OF uq])
    fix x assume "x \<in> set (applications d)" and "a_id x = a_id a"
    then have "x = a" by (rule key_unique [OF pk _ assms(2)])
    then show "app_key (f x) = app_key x \<and> (is_active_app (f x) \<longrightarrow> is_active_app x)"
      using assms(3,4) by (simp add: keeps_key_def)
  qed
  moreover have "map a_id (update_where (\<lambda>x. a_id x = a_id a) f (applications d)) = map a_id (applications d)"
    using assms(3) by (intro map_update_where) (simp add: keeps_key_def)
  ultimately show ?thesis using pk by (simp add: update_row_def commit_def db_ok_applications [OF assms(1)])
qed

lemma update_row_db_ok: "db_ok d \<Longrightarrow> db_ok (fst (update_row i f d))"
  by (simp add: update_row_def commit_def)

lemma update_row_member:
  assumes "update_row (a_id a) f d = (d', Inr ())" and "a \<in> set (applications d)"
  shows "f a \<in> set (applications d')"
  using assms by (auto simp: update_row_def commit_def in_set_update_where split: if_split_asm)

text \<open>Other rows keep their status.\<close>

lemma find_update_other:
  assumes "keeps_key f" and "j \<noteq> i"
  shows "List.find (\<lambda>y. a_id y = j) (update_where (\<lambda>x. a_id x = i) f xs) = List.find (\<lambda>y. a_id y = j) xs"
  using assms by (induction xs) (auto simp: update_where_def keeps_key_def)

lemma update_row_other:
  assumes "keeps_key f" and "j \<noteq> i"
  shows "row_status j (fst (update_row i f d)) = row_status j d"
  using find_update_other [OF assms] by (simp add: update_row_def commit_def row_status_def db_get_def)

definition row_owner :: "str \<Rightarrow> db \<Rightarrow> str option" where
  "row_owner i d = map_option a_user (db_get None a_user a_id i (applications d))"

lemma update_row_owner:
  assumes "keeps_key f"
  shows "row_owner j (fst (update_row i f d)) = row_owner j d"
proof -
  have "map_option a_user (List.find (\<lambda>y. a_id y = j) (update_where (\<lambda>x. a_id x = i) f xs))
      = map_option a_user (List.find (\<lambda>y. a_id y = j) xs)" for xs
    using assms by (induction xs) (auto simp: update_where_def keeps_key_def app_key_def)
  then show ?thesis by (simp add: update_row_def commit_def row_owner_def db_get_def)
qed

section \<open>One attempt\<close>

lemma update_row_status:
  assumes "db_ok d" and "update_row i f d = (d', Inr ())" and "keeps_key f"
    and "row_status i d \<noteq> None" and "\<And>x. a_status (f x) = s"
  shows "row_status i d' = Some s"
proof -
  obtain a where a: "a \<in> set (applications d)" "a_id a = i"
    using assms(4) get_row [OF assms(1)] by (auto simp: row_status_def)
  have "f a \<in> set (applications d')" using update_row_member [of a f d d'] assms(2) a by simp
  moreover have "db_ok d'" using update_row_db_ok [OF assms(1), of i f] assms(2) by simp
  moreover have "a_id (f a) = i" using assms(3) a(2) by (simp add: keeps_key_def)
  ultimately have "db_get None a_user a_id i (applications d') = Some (f a)" by (simp add: get_row)
  with assms(5) show ?thesis by (simp add: row_status_def)
qed

text \<open>An active row can be given any status.\<close>

lemma update_row_active:
  assumes "db_ok d" and "row_status i d = Some s" and "s \<notin> set terminal_states" and "keeps_key f"
  obtains d' where "update_row i f d = (d', Inr ())" and "db_ok d'"
proof -
  obtain a where a: "a \<in> set (applications d)" "a_id a = i" "a_status a = s"
    using assms(2) get_row [OF assms(1)] by (auto simp: row_status_def)
  have "is_active_app a" using a assms(3) by (simp add: is_active_app_def)
  with update_row_ok [OF assms(1) a(1) assms(4)] a(2)
  obtain d' where d': "update_row i f d = (d', Inr ())" by simp
  then have "db_ok d'" using update_row_db_ok [OF assms(1), of i f] by simp
  with d' show ?thesis by (rule that)
qed

text \<open>
  A browser run keeps the applications table (it writes trajectories, skills and credentials) and the
  constraints of the database.
\<close>

definition keeps_applications :: "apply_run \<Rightarrow> bool" where
  "keeps_applications run \<longleftrightarrow> (\<forall>d a. applications (fst (run d a)) = applications d \<and> (db_ok d \<longrightarrow> db_ok (fst (run d a))))"

lemma submit_keeps:
  assumes "keeps_applications run" and "db_ok d" and "submit_application st run a d = (d', out)"
  shows "applications d' = applications d \<and> db_ok d'"
proof -
  have "d' = d \<or> d' = fst (run d a)"
    using assms(3) by (auto simp: submit_application_def split: if_splits prod.splits run_outcome.splits)
  with assms(1,2) show ?thesis by (auto simp: keeps_applications_def)
qed

lemma mark_failed_active:
  assumes "db_ok (fst w)" and "row_status (a_id a) (fst w) = Some s" and "s \<notin> set terminal_states"
  obtains d' where "mark_failed ctx a p note w =
      ((d', snd w @ [ApplicationsTotal ''failed'' p] @ publish ctx (a_user a) (a_id a) FAILED note), Inr ())"
    and "row_status (a_id a) d' = Some FAILED" and "db_ok d'"
proof -
  let ?f = "\<lambda>x. x\<lparr>a_status := FAILED, a_notes := Some note\<rparr>"
  obtain d' where d': "update_row (a_id a) ?f (fst w) = (d', Inr ())" "db_ok d'"
    by (rule update_row_active [OF assms, of ?f]) simp
  have "row_status (a_id a) d' = Some FAILED"
    by (rule update_row_status [OF assms(1) d'(1)]) (simp_all add: assms(2))
  with d' show ?thesis by (intro that [of d']) (simp_all add: mark_failed_def)
qed

text \<open>After the submission, whatever its outcome: the row is applied, failed, or still in flight for a retry.\<close>

lemma apply_finish_result:
  assumes "db_ok (fst w)" and "row_status (a_id a) (fst w) = Some APPLYING"
    and "apply_finish ctx a p now out w = (w', r)"
  shows "db_ok (fst w') \<and>
    (case out of
       Confirmed c \<Rightarrow> r = Returned \<and> row_status (a_id a) (fst w') = Some APPLIED
         \<and> (\<exists>es. snd w' = snd w @ Confirmation (a_id a) c # es \<and> (\<forall>i c. Confirmation i c \<notin> set es))
     | Transient m \<Rightarrow>
         (if MAX_TRIES \<le> (case job_try ctx of None \<Rightarrow> 1 | Some n \<Rightarrow> n)
          then r = Returned \<and> row_status (a_id a) (fst w') = Some FAILED
          else w' = w \<and> (\<exists>k. r = RetryAfter k))
         \<and> (\<exists>es. snd w' = snd w @ es \<and> (\<forall>i c. Confirmation i c \<notin> set es))
     | SubmitCancelled \<Rightarrow> r = JobCancelled \<and> row_status (a_id a) (fst w') = Some FAILED
         \<and> (\<exists>es. snd w' = snd w @ es \<and> (\<forall>i c. Confirmation i c \<notin> set es))
     | SubmitFailed m \<Rightarrow> r = Returned \<and> row_status (a_id a) (fst w') = Some FAILED
         \<and> (\<exists>es. snd w' = snd w @ es \<and> (\<forall>i c. Confirmation i c \<notin> set es)))"
proof -
  have act: "APPLYING \<notin> set terminal_states" by (simp add: terminal_iff)
  show ?thesis
  proof (cases out)
    case (Confirmed c)
    let ?f = "\<lambda>x. x\<lparr>a_status := APPLIED, a_applied_at := Some now\<rparr>"
    obtain d' where d': "update_row (a_id a) ?f (fst w) = (d', Inr ())" "db_ok d'"
      by (rule update_row_active [OF assms(1,2) act, of ?f]) simp
    have "row_status (a_id a) d' = Some APPLIED"
      by (rule update_row_status [OF assms(1) d'(1)]) (simp_all add: assms(2))
    with assms(3) d' Confirmed show ?thesis by (auto simp: apply_finish_def Let_def publish_def)
  next
    case (Transient m)
    show ?thesis
    proof (cases "MAX_TRIES \<le> (case job_try ctx of None \<Rightarrow> 1 | Some n \<Rightarrow> n)")
      case True
      obtain d' where "mark_failed ctx a p (''Apply failed after '' @
            show_nat (case job_try ctx of None \<Rightarrow> 1 | Some n \<Rightarrow> n) @ '' attempts: '' @ m) w = ((d', snd w
              @ [ApplicationsTotal ''failed'' p] @ publish ctx (a_user a) (a_id a) FAILED (''Apply failed after '' @
            show_nat (case job_try ctx of None \<Rightarrow> 1 | Some n \<Rightarrow> n) @ '' attempts: '' @ m)), Inr ())"
          "row_status (a_id a) d' = Some FAILED" "db_ok d'"
        by (rule mark_failed_active [OF assms(1,2) act])
      with True assms(3) Transient show ?thesis by (simp add: apply_finish_def Let_def then_return_def) (auto simp: publish_def)
    qed (use assms Transient in \<open>auto simp: apply_finish_def Let_def\<close>)
  next
    case SubmitCancelled
    obtain d' where "mark_failed ctx a p ''Apply cancelled (timeout)'' w = ((d', snd w
          @ [ApplicationsTotal ''failed'' p] @ publish ctx (a_user a) (a_id a) FAILED ''Apply cancelled (timeout)''), Inr ())"
        "row_status (a_id a) d' = Some FAILED" "db_ok d'"
      by (rule mark_failed_active [OF assms(1,2) act])
    with assms(3) SubmitCancelled show ?thesis by (simp add: apply_finish_def Let_def) (auto simp: publish_def)
  next
    case (SubmitFailed m)
    obtain d' where "mark_failed ctx a p (''Apply failed: '' @ m) w = ((d', snd w
          @ [ApplicationsTotal ''failed'' p] @ publish ctx (a_user a) (a_id a) FAILED (''Apply failed: '' @ m)), Inr ())"
        "row_status (a_id a) d' = Some FAILED" "db_ok d'"
      by (rule mark_failed_active [OF assms(1,2) act])
    with assms(3) SubmitFailed show ?thesis by (simp add: apply_finish_def Let_def then_return_def) (auto simp: publish_def)
  qed
qed

fun confirmed_ids :: "effect list \<Rightarrow> str list" where
  "confirmed_ids [] = []"
| "confirmed_ids (Confirmation i c # es) = i # confirmed_ids es"
| "confirmed_ids (Progress u i s m # es) = confirmed_ids es"
| "confirmed_ids (ApplicationsTotal s p # es) = confirmed_ids es"

lemma confirmed_ids_append [simp]: "confirmed_ids (es @ fs) = confirmed_ids es @ confirmed_ids fs"
  by (induction es rule: confirmed_ids.induct) auto

lemma confirmed_ids_none: "\<forall>i c. Confirmation i c \<notin> set es \<Longrightarrow> confirmed_ids es = []"
  by (induction es rule: confirmed_ids.induct) auto

lemma confirmed_publish [simp]: "confirmed_ids (publish ctx u i s m) = []"
  by (simp add: publish_def)

lemma mark_failed_facts:
  "db_ok (fst w) \<Longrightarrow> db_ok (fst (fst (mark_failed ctx a p note w)))"
  "j \<noteq> a_id a \<Longrightarrow> row_status j (fst (fst (mark_failed ctx a p note w))) = row_status j (fst w)"
  "confirmed_ids (snd (fst (mark_failed ctx a p note w))) = confirmed_ids (snd w)"
proof -
  let ?f = "\<lambda>x. x\<lparr>a_status := FAILED, a_notes := Some note\<rparr>"
  have e: "fst (fst (mark_failed ctx a p note w)) = fst (update_row (a_id a) ?f (fst w))"
    by (simp add: mark_failed_def split: prod.split sum.split)
  show "db_ok (fst w) \<Longrightarrow> db_ok (fst (fst (mark_failed ctx a p note w)))"
    unfolding e by (rule update_row_db_ok)
  show "j \<noteq> a_id a \<Longrightarrow> row_status j (fst (fst (mark_failed ctx a p note w))) = row_status j (fst w)"
    unfolding e by (rule update_row_other) simp_all
  show "confirmed_ids (snd (fst (mark_failed ctx a p note w))) = confirmed_ids (snd w)"
    by (simp add: mark_failed_def split: prod.split sum.split)
qed

lemma fst_then_return [simp]: "fst (then_return r) = fst r"
  by (simp add: then_return_def split: prod.split sum.split)

lemma apply_finish_other:
  assumes "j \<noteq> a_id a"
  shows "row_status j (fst (fst (apply_finish ctx a p now out w))) = row_status j (fst w)"
proof (cases out)
  case (Confirmed c)
  have "fst (fst (apply_finish ctx a p now out w))
      = fst (update_row (a_id a) (\<lambda>x. x\<lparr>a_status := APPLIED, a_applied_at := Some now\<rparr>) (fst w))"
    by (simp add: apply_finish_def Let_def Confirmed split: prod.split sum.split)
  with assms show ?thesis by (simp add: update_row_other)
qed (use assms mark_failed_facts(2) [of j a] in \<open>auto simp: apply_finish_def Let_def\<close>)

text \<open>What one attempt does to the constraints, to other rows, and to the confirmations.\<close>

lemma apply_task_step:
  assumes "db_ok (fst w)" and "keeps_applications run"
    and "apply_task st score run ctx now i w = (w', r)"
  shows "db_ok (fst w') \<and> (\<forall>j. j \<noteq> i \<longrightarrow> row_status j (fst w') = row_status j (fst w))
    \<and> (row_status i (fst w) = Some APPLIED \<longrightarrow> w' = w)
    \<and> (confirmed_ids (snd w') = confirmed_ids (snd w)
       \<or> confirmed_ids (snd w') = confirmed_ids (snd w) @ [i] \<and> row_status i (fst w) \<noteq> Some APPLIED
         \<and> row_status i (fst w') = Some APPLIED)"
proof (cases "db_get None a_user a_id i (applications (fst w))")
  case None
  with assms show ?thesis by (simp add: apply_task_def)
next
  case (Some a)
  have a: "a \<in> set (applications (fst w))" "a_id a = i" using Some get_row [OF assms(1)] by auto
  have st: "row_status i (fst w) = Some (a_status a)" by (simp add: row_status_def Some)
  define p where "p = (case db_get (Some (a_user a)) j_user j_id (a_job a) (jobs (fst w)) of
      Some j \<Rightarrow> j_platform j | None \<Rightarrow> ''unknown'')"
  define msg where "msg = ''ATS score '' @ show_fixed 2 (snd (ats_gate_ok st score (fst w) a)) @
      '' below threshold '' @ min_ats_text st"
  consider (applied) "a_status a = APPLIED"
    | (blocked) "a_status a \<noteq> APPLIED" "\<not> fst (ats_gate_ok st score (fst w) a)"
    | (run) "a_status a \<noteq> APPLIED" "fst (ats_gate_ok st score (fst w) a)" by blast
  then show ?thesis
  proof cases
    case applied
    with assms Some show ?thesis by (simp add: apply_task_def)
  next
    case blocked
    have "w' = fst (mark_failed ctx a p msg w)"
      using assms(3) blocked by (simp add: apply_task_def Some Let_def p_def msg_def then_return_def
          split: prod.splits sum.splits)
    with blocked st a(2) mark_failed_facts(1) [OF assms(1), of ctx a p msg] mark_failed_facts(2) [where a = a and w = w]
      mark_failed_facts(3) [of ctx a p msg w]
    show ?thesis by simp
  next
    case run
    let ?f = "\<lambda>x. x\<lparr>a_status := APPLYING\<rparr>"
    obtain d1 u1 where u: "update_row i ?f (fst w) = (d1, u1)" by (cases "update_row i ?f (fst w)")
    have ok1: "db_ok d1" using update_row_db_ok [OF assms(1), of i ?f] u by simp
    have o1: "row_status j d1 = row_status j (fst w)" if "j \<noteq> i" for j
      using update_row_other [OF _ that, of ?f "fst w"] u by simp
    show ?thesis
    proof (cases u1)
      case (Inl e)
      then have "w' = (d1, snd w)" using assms(3) run u by (simp add: apply_task_def Some Let_def)
      with ok1 o1 st run show ?thesis by simp
    next
      case (Inr x)
      with u have u2: "update_row i ?f (fst w) = (d1, Inr ())" by simp
      obtain d2 out where s: "submit_application st run (a\<lparr>a_status := APPLYING\<rparr>) d1 = (d2, out)"
        by (cases "submit_application st run (a\<lparr>a_status := APPLYING\<rparr>) d1")
      let ?w = "(d2, snd w @ publish ctx (a_user a) i APPLYING [])"
      have fin: "apply_finish ctx a p now out ?w = (w', r)"
        using assms(3) run u2 s by (simp add: apply_task_def Some Let_def p_def)
      have keep: "applications d2 = applications d1" "db_ok d2" using submit_keeps [OF assms(2) ok1 s] by simp_all
      have "row_status i d1 = Some APPLYING"
        by (rule update_row_status [OF assms(1) u2]) (simp_all add: st)
      then have s2: "row_status (a_id a) (fst ?w) = Some APPLYING" by (simp add: row_status_def keep(1) a(2))
      have other: "row_status j (fst w') = row_status j (fst w)" if "j \<noteq> i" for j
        using apply_finish_other [of j a ctx p now out ?w] fin that a(2) o1 [OF that]
        by (simp add: row_status_def keep(1))
      have "db_ok (fst ?w)" using keep(2) by simp
      from apply_finish_result [OF this s2 fin] other run st a(2) show ?thesis
        by (auto split: submit_outcome.splits dest!: confirmed_ids_none)
    qed
  qed
qed

text \<open>
  A settled application is applied, with one more confirmation, or failed, with none; and its owner was
  told so, where there is a channel.
\<close>

definition settled :: "bool \<Rightarrow> str \<Rightarrow> str \<Rightarrow> world \<Rightarrow> world \<Rightarrow> bool" where
  "settled redis u i w w' \<longleftrightarrow> (\<exists>s es. s \<in> {APPLIED, FAILED} \<and> row_status i (fst w') = Some s \<and> snd w' = snd w @ es
     \<and> confirmed_ids es = (if s = APPLIED then [i] else [])
     \<and> (redis \<longrightarrow> (\<exists>m. Progress u i (status_value s) m \<in> set es)))"

lemma settled_later:
  assumes "settled redis u i w1 w'" and "snd w1 = snd w @ es" and "confirmed_ids es = []"
  shows "settled redis u i w w'"
proof -
  from assms(1) obtain s fs where "s \<in> {APPLIED, FAILED}" "row_status i (fst w') = Some s" "snd w' = snd w1 @ fs"
      "confirmed_ids fs = (if s = APPLIED then [i] else [])" "redis \<longrightarrow> (\<exists>m. Progress u i (status_value s) m \<in> set fs)"
    unfolding settled_def by blast
  then show ?thesis unfolding settled_def using assms(2,3)
    by (intro exI [of _ s], intro exI [of _ "es @ fs"]) (simp, blast)
qed

lemma mark_failed_settles:
  assumes "db_ok (fst w)" and "row_status (a_id a) (fst w) = Some s" and "s \<notin> set terminal_states"
  obtains w' where "mark_failed ctx a p note w = (w', Inr ())" and "settled (has_redis ctx) (a_user a) (a_id a) w w'"
proof -
  obtain d' where "mark_failed ctx a p note w =
        ((d', snd w @ [ApplicationsTotal ''failed'' p] @ publish ctx (a_user a) (a_id a) FAILED note), Inr ())"
      "row_status (a_id a) d' = Some FAILED"
    by (rule mark_failed_active [OF assms])
  then show ?thesis
    by (intro that [of "(d', snd w @ [ApplicationsTotal ''failed'' p] @ publish ctx (a_user a) (a_id a) FAILED note)"])
      (auto simp: settled_def publish_def)
qed

lemma apply_finish_settles:
  assumes "db_ok (fst w)" and "row_status (a_id a) (fst w) = Some APPLYING"
    and "apply_finish ctx a p now out w = (w', r)"
  shows "r \<in> {Returned, JobCancelled} \<and> settled (has_redis ctx) (a_user a) (a_id a) w w'
    \<or> w' = w \<and> (\<exists>k. r = RetryAfter k) \<and> (case job_try ctx of None \<Rightarrow> 1 | Some n \<Rightarrow> n) < MAX_TRIES"
proof -
  have act: "APPLYING \<notin> set terminal_states" by (simp add: terminal_iff)
  show ?thesis
  proof (cases out)
    case (Confirmed c)
    let ?f = "\<lambda>x. x\<lparr>a_status := APPLIED, a_applied_at := Some now\<rparr>"
    obtain d' where d': "update_row (a_id a) ?f (fst w) = (d', Inr ())"
      by (rule update_row_active [OF assms(1,2) act, of ?f]) simp
    have "row_status (a_id a) d' = Some APPLIED"
      by (rule update_row_status [OF assms(1) d'(1)]) (simp_all add: assms(2))
    moreover have "w' = (d', snd w @ [Confirmation (a_id a) c, ApplicationsTotal ''applied'' p]
          @ publish ctx (a_user a) (a_id a) APPLIED [])" "r = Returned"
      using assms(3) d' Confirmed by (simp_all add: apply_finish_def Let_def)
    ultimately show ?thesis unfolding settled_def
      by (intro disjI1 conjI exI [of _ APPLIED]) (auto simp: publish_def)
  next
    case (Transient m)
    show ?thesis
    proof (cases "MAX_TRIES \<le> (case job_try ctx of None \<Rightarrow> 1 | Some n \<Rightarrow> n)")
      case True
      obtain v where "mark_failed ctx a p (''Apply failed after '' @
            show_nat (case job_try ctx of None \<Rightarrow> 1 | Some n \<Rightarrow> n) @ '' attempts: '' @ m) w = (v, Inr ())"
          "settled (has_redis ctx) (a_user a) (a_id a) w v"
        by (rule mark_failed_settles [OF assms(1,2) act])
      with True assms(3) Transient show ?thesis by (simp add: apply_finish_def Let_def then_return_def)
    qed (use assms Transient in \<open>auto simp: apply_finish_def Let_def\<close>)
  next
    case SubmitCancelled
    obtain v where "mark_failed ctx a p ''Apply cancelled (timeout)'' w = (v, Inr ())"
        "settled (has_redis ctx) (a_user a) (a_id a) w v"
      by (rule mark_failed_settles [OF assms(1,2) act])
    with assms(3) SubmitCancelled show ?thesis by (simp add: apply_finish_def Let_def)
  next
    case (SubmitFailed m)
    obtain v where "mark_failed ctx a p (''Apply failed: '' @ m) w = (v, Inr ())"
        "settled (has_redis ctx) (a_user a) (a_id a) w v"
      by (rule mark_failed_settles [OF assms(1,2) act])
    with assms(3) SubmitFailed show ?thesis by (simp add: apply_finish_def Let_def then_return_def)
  qed
qed

section \<open>Sequences of attempts\<close>

text \<open>Any sequence of attempts of any jobs, each with its own settings, score, browser run and context.\<close>

record attempt =
  at_settings :: worker_settings
  at_score :: "db \<Rightarrow> str \<Rightarrow> str \<Rightarrow> exn + real"
  at_run :: apply_run
  at_ctx :: job_ctx
  at_now :: int
  at_id :: str

fun run_attempts :: "attempt list \<Rightarrow> world \<Rightarrow> world" where
  "run_attempts [] w = w"
| "run_attempts (t # ts) w =
     run_attempts ts (fst (apply_task (at_settings t) (at_score t) (at_run t) (at_ctx t) (at_now t) (at_id t) w))"

definition confirmed_inv :: "world \<Rightarrow> bool" where
  "confirmed_inv w \<longleftrightarrow> db_ok (fst w) \<and> distinct (confirmed_ids (snd w))
     \<and> (\<forall>i \<in> set (confirmed_ids (snd w)). row_status i (fst w) = Some APPLIED)"

lemma confirmed_inv_step:
  assumes "confirmed_inv w" and "keeps_applications run"
  shows "confirmed_inv (fst (apply_task st score run ctx now i w))"
proof -
  obtain w' r where t: "apply_task st score run ctx now i w = (w', r)"
    by (cases "apply_task st score run ctx now i w")
  have "db_ok (fst w)" using assms(1) by (simp add: confirmed_inv_def)
  note s = apply_task_step [OF this assms(2) t]
  show ?thesis
  proof (cases "row_status i (fst w) = Some APPLIED")
    case True
    with s t assms(1) show ?thesis by simp
  next
    case False
    then have "i \<notin> set (confirmed_ids (snd w))" using assms(1) by (auto simp: confirmed_inv_def)
    with s t assms(1) show ?thesis unfolding confirmed_inv_def
      by (cases "confirmed_ids (snd w') = confirmed_ids (snd w)") (simp_all, metis+)
  qed
qed

lemma confirmed_inv_run:
  assumes "confirmed_inv w" and "\<forall>t \<in> set ts. keeps_applications (at_run t)"
  shows "confirmed_inv (run_attempts ts w)"
  using assms
proof (induction ts arbitrary: w)
  case (Cons t ts)
  then show ?case by (simp only: run_attempts.simps list.set ball_simps insert_iff) (blast intro: confirmed_inv_step)
qed simp

text \<open>
  C1: at-least-once delivery, at most one submission. However often and in whatever order Arq runs
  apply jobs (retries and duplicates included), no application is confirmed twice, and one that was
  confirmed stays \<^verbatim>\<open>applied\<close>.
\<close>

theorem at_most_one_submission:
  assumes "db_ok d" and "\<forall>t \<in> set ts. keeps_applications (at_run t)"
  shows "distinct (confirmed_ids (snd (run_attempts ts (d, []))))
    \<and> (\<forall>i \<in> set (confirmed_ids (snd (run_attempts ts (d, [])))).
          row_status i (fst (run_attempts ts (d, []))) = Some APPLIED)"
proof -
  have "confirmed_inv (d, [])" using assms(1) by (simp add: confirmed_inv_def)
  from confirmed_inv_run [OF this assms(2)] show ?thesis by (simp add: confirmed_inv_def)
qed

definition placeholder_settings :: worker_settings where
  "placeholder_settings = \<lparr>live_apply = False, min_ats_score = 1/4, min_ats_text = ''0.25''\<rparr>"

definition quiet_run :: apply_run where
  "quiet_run d a = (d, Prerequisite ''Job not found'')"

definition sample_attempt :: attempt where
  "sample_attempt = \<lparr>at_settings = placeholder_settings, at_score = (\<lambda>_ _ _. Inr 0), at_run = quiet_run,
     at_ctx = \<lparr>has_redis = True, job_try = None\<rparr>, at_now = 7, at_id = ''a1''\<rparr>"

lemma quiet_keeps: "keeps_applications quiet_run"
  by (simp add: keeps_applications_def quiet_run_def)

theorem at_most_one_submission_witness:
  "distinct (confirmed_ids (snd (run_attempts [sample_attempt, sample_attempt] (staged_db, []))))"
  using at_most_one_submission [OF staged_db_ok, of "[sample_attempt, sample_attempt]"] quiet_keeps
  by (simp add: sample_attempt_def)

section \<open>Retries\<close>

text \<open>One attempt on an active row that is not applied yet: it settles it, or leaves it in flight with a retry due.\<close>

lemma apply_task_active:
  assumes "db_ok (fst w)" and "keeps_applications run" and "row_status i (fst w) = Some s" and "row_owner i (fst w) = Some u"
    and "s \<notin> set terminal_states" and "s \<noteq> APPLIED"
    and "apply_task st score run \<lparr>has_redis = redis, job_try = Some n\<rparr> now i w = (w', r)"
  shows "r \<in> {Returned, JobCancelled} \<and> settled redis u i w w'
    \<or> n < MAX_TRIES \<and> (\<exists>k. r = RetryAfter k) \<and> row_status i (fst w') = Some APPLYING \<and> row_owner i (fst w') = Some u
      \<and> (\<exists>es. snd w' = snd w @ es \<and> confirmed_ids es = [])"
proof -
  let ?ctx = "\<lparr>has_redis = redis, job_try = Some n\<rparr>"
  obtain a where get: "db_get None a_user a_id i (applications (fst w)) = Some a" and as: "a_status a = s"
    using assms(3) by (auto simp: row_status_def)
  have u: "a_user a = u" using assms(4) get by (simp add: row_owner_def)
  have a: "a_id a = i" using get get_row [OF assms(1)] by auto
  define p where "p = (case db_get (Some (a_user a)) j_user j_id (a_job a) (jobs (fst w)) of
      Some j \<Rightarrow> j_platform j | None \<Rightarrow> ''unknown'')"
  show ?thesis
  proof (cases "fst (ats_gate_ok st score (fst w) a)")
    case False
    define msg where "msg = ''ATS score '' @ show_fixed 2 (snd (ats_gate_ok st score (fst w) a)) @
        '' below threshold '' @ min_ats_text st"
    obtain v where v: "mark_failed ?ctx a p msg w = (v, Inr ())" "settled (has_redis ?ctx) (a_user a) (a_id a) w v"
      by (rule mark_failed_settles [of w a s ?ctx p msg]) (use assms a in simp_all)
    have "apply_task st score run ?ctx now i w = then_return (mark_failed ?ctx a p msg w)"
      using assms(6) False as by (simp add: apply_task_def get Let_def p_def msg_def)
    with v assms(7) a u show ?thesis by (simp add: then_return_def)
  next
    case True
    let ?f = "\<lambda>x. x\<lparr>a_status := APPLYING\<rparr>"
    obtain d1 where d1: "update_row i ?f (fst w) = (d1, Inr ())" "db_ok d1"
      by (rule update_row_active [OF assms(1,3,5), of ?f]) simp
    obtain d2 out where s: "submit_application st run (a\<lparr>a_status := APPLYING\<rparr>) d1 = (d2, out)"
      by (cases "submit_application st run (a\<lparr>a_status := APPLYING\<rparr>) d1")
    let ?w = "(d2, snd w @ publish ?ctx (a_user a) i APPLYING [])"
    have fin: "apply_finish ?ctx a p now out ?w = (w', r)"
      using assms(6,7) True as d1 s by (simp add: apply_task_def get Let_def p_def)
    have keep: "applications d2 = applications d1" "db_ok d2" using submit_keeps [OF assms(2) d1(2) s] by simp_all
    have "row_status i d1 = Some APPLYING"
      by (rule update_row_status [OF assms(1) d1(1)]) (simp_all add: assms(3))
    then have s2: "row_status (a_id a) (fst ?w) = Some APPLYING" by (simp add: row_status_def keep(1) a)
    have owner: "row_owner i d2 = Some u"
      using update_row_owner [of ?f i i "fst w"] d1(1) assms(4) by (simp add: row_owner_def keep(1))
    have "db_ok (fst ?w)" using keep(2) by simp
    note fs = apply_finish_settles [OF this s2 fin]
    then show ?thesis
    proof (elim disjE conjE exE)
      assume "r \<in> {Returned, JobCancelled}" and "settled (has_redis ?ctx) (a_user a) (a_id a) ?w w'"
      moreover from this(2) have "settled redis u i w w'"
        using settled_later [of redis u i ?w w' w "publish ?ctx (a_user a) i APPLYING []"] by (simp add: a u)
      ultimately show ?thesis by simp
    next
      fix k assume w': "w' = ?w" and r: "r = RetryAfter k" and n: "(case job_try ?ctx of None \<Rightarrow> 1 | Some n \<Rightarrow> n) < MAX_TRIES"
      have "n < MAX_TRIES" using n by simp
      moreover have "row_status i (fst w') = Some APPLYING" using s2 a by (simp add: w')
      moreover have "row_owner i (fst w') = Some u" using owner by (simp add: w')
      moreover have "\<exists>es. snd w' = snd w @ es \<and> confirmed_ids es = []"
        by (rule exI [of _ "publish ?ctx (a_user a) i APPLYING []"]) (simp add: w')
      ultimately show ?thesis using r by blast
    qed
  qed
qed

lemma arq_attempts_settle:
  assumes "db_ok (fst w)" and "\<forall>k. keeps_applications (runs k)" and "row_status i (fst w) = Some s"
    and "row_owner i (fst w) = Some u" and "s \<notin> set terminal_states" and "s \<noteq> APPLIED" and "n \<le> MAX_TRIES"
  shows "\<exists>w' r. arq_attempts st score runs redis clock i n w = (w', r) \<and> r \<in> {Returned, JobCancelled} \<and> settled redis u i w w'"
  using assms
proof (induction "MAX_TRIES - n" arbitrary: n w s rule: less_induct)
  case less
  obtain w' r where t: "apply_task st score (runs n) \<lparr>has_redis = redis, job_try = Some n\<rparr> (clock n) i w = (w', r)"
    by (cases "apply_task st score (runs n) \<lparr>has_redis = redis, job_try = Some n\<rparr> (clock n) i w")
  have keeps: "keeps_applications (runs n)" using less.prems(2) by simp
  have ok': "db_ok (fst w')" using apply_task_step [OF less.prems(1) keeps t] by simp
  consider (ended) "r \<in> {Returned, JobCancelled}" "settled redis u i w w'"
    | (retry) k es where "n < MAX_TRIES" "r = RetryAfter k" "row_status i (fst w') = Some APPLYING"
        "row_owner i (fst w') = Some u" "snd w' = snd w @ es" "confirmed_ids es = []"
    using apply_task_active [OF less.prems(1) keeps less.prems(3-6) t] by blast
  then show ?case
  proof cases
    case ended
    with t show ?thesis by (cases w') (subst arq_attempts.simps, auto)
  next
    case retry
    have "APPLYING \<notin> set terminal_states" by (simp add: terminal_iff)
    moreover have "MAX_TRIES - Suc n < MAX_TRIES - n" "Suc n \<le> MAX_TRIES" using retry(1) by simp_all
    ultimately obtain v q where "arq_attempts st score runs redis clock i (Suc n) w' = (v, q)"
        "q \<in> {Returned, JobCancelled}" "settled redis u i w' v"
      using less.hyps [OF _ ok' less.prems(2) retry(3,4)] by blast
    moreover from this(3) have "settled redis u i w v" by (rule settled_later [OF _ retry(5,6)])
    moreover have "arq_attempts st score runs redis clock i n w = arq_attempts st score runs redis clock i (Suc n) w'"
      using retry(1,2) t by (subst arq_attempts.simps) simp
    ultimately show ?thesis by simp
  qed
qed

text \<open>
  C2: no application stays in flight. When Arq runs the task of an active application that is not
  applied yet, with its retries, every browser run and failure included, the attempts end without a
  pending retry and leave the application \<^verbatim>\<open>applied\<close> or \<^verbatim>\<open>failed\<close>, never \<^verbatim>\<open>applying\<close>.
\<close>

theorem apply_job_terminates:
  assumes "db_ok (fst w)" and "\<forall>k. keeps_applications (runs k)" and "row_status i (fst w) = Some s"
    and "s \<notin> set terminal_states" and "s \<noteq> APPLIED"
  shows "\<exists>w' r. arq_attempts st score runs redis clock i 1 w = (w', r) \<and> r \<in> {Returned, JobCancelled}
    \<and> row_status i (fst w') \<in> {Some APPLIED, Some FAILED}"
proof -
  obtain u where "row_owner i (fst w) = Some u" using assms(3) by (auto simp: row_status_def row_owner_def)
  from arq_attempts_settle [OF assms(1-3) this assms(4,5), of 1 st score redis clock] obtain w' r
    where "arq_attempts st score runs redis clock i 1 w = (w', r)" "r \<in> {Returned, JobCancelled}" "settled redis u i w w'"
    by (auto simp: MAX_TRIES_def)
  then show ?thesis unfolding settled_def by blast
qed

text \<open>A run that always times out.\<close>

definition timeout_run :: apply_run where
  "timeout_run d a = (d, Raised ''Page.goto: Timeout 30000ms exceeded'')"

theorem apply_job_terminates_witness:
  "\<exists>w' r. arq_attempts (placeholder_settings\<lparr>live_apply := True\<rparr>) (\<lambda>_ _ _. Inr 0) (\<lambda>_. timeout_run) True
      int ''a1'' 1 (staged_db, []) = (w', r) \<and> row_status ''a1'' (fst w') \<in> {Some APPLIED, Some FAILED}"
proof -
  have "\<exists>s. row_status ''a1'' staged_db = Some s \<and> s \<notin> set terminal_states \<and> s \<noteq> APPLIED"
    by (simp add: staged_db_def row_status_def db_get_def new_application_def terminal_iff)
  then obtain s where "row_status ''a1'' (fst (staged_db, [] :: effect list)) = Some s" "s \<notin> set terminal_states" "s \<noteq> APPLIED"
    by auto
  from apply_job_terminates [OF _ _ this, of "\<lambda>_. timeout_run"] staged_db_ok show ?thesis
    by (fastforce simp: keeps_applications_def timeout_run_def)
qed

section \<open>The gate and the idempotency guard\<close>

text \<open>A row may become active when it is already, or when no active row has its user and job.\<close>

definition may_activate :: "application \<Rightarrow> db \<Rightarrow> bool" where
  "may_activate a d \<longleftrightarrow> is_active_app a \<or> (\<forall>x \<in> set (applications d). is_active_app x \<longrightarrow> app_key x \<noteq> app_key a)"

lemma uq_activate:
  assumes "uq_app_active_job xs" and "distinct (map a_id xs)" and "a \<in> set xs" and "keeps_key f"
    and "\<forall>x \<in> set xs. is_active_app x \<longrightarrow> app_key x \<noteq> app_key a"
  shows "uq_app_active_job (update_where (\<lambda>x. a_id x = a_id a) f xs)"
proof -
  obtain ys zs where xs: "xs = ys @ a # zs" using assms(3) by (meson split_list)
  have "update_where (\<lambda>x. a_id x = a_id a) f ys = ys" "update_where (\<lambda>x. a_id x = a_id a) f zs = zs"
    using assms(2) by (auto simp: xs intro!: update_where_none) (metis image_eqI)+
  then have "update_where (\<lambda>x. a_id x = a_id a) f xs = ys @ f a # zs"
    by (simp add: xs update_where_def)
  moreover have "app_key (f a) = app_key a" using assms(4) by (simp add: keeps_key_def)
  moreover have "\<not> is_active_app a" using assms(5) by (auto simp: xs)
  ultimately show ?thesis using assms(1,5) by (auto simp: uq_app_active_job_def xs)
qed

lemma update_row_may:
  assumes "db_ok d" and "a \<in> set (applications d)" and "keeps_key f" and "may_activate a d"
  obtains d' where "update_row (a_id a) f d = (d', Inr ())" and "db_ok d'"
proof (cases "is_active_app a")
  case True
  from update_row_ok [OF assms(1-3)] True obtain d' where "update_row (a_id a) f d = (d', Inr ())" by simp
  with update_row_db_ok [OF assms(1), of "a_id a" f] show ?thesis by (intro that) simp_all
next
  case False
  have pk: "distinct (map a_id (applications d))" and uq: "uq_app_active_job (applications d)"
    using assms(1) by (auto simp: db_ok_def pk_ok_def)
  have "map a_id (update_where (\<lambda>x. a_id x = a_id a) f (applications d)) = map a_id (applications d)"
    using assms(3) by (intro map_update_where) (simp add: keeps_key_def)
  then have ok: "db_ok (d\<lparr>applications := update_where (\<lambda>x. a_id x = a_id a) f (applications d)\<rparr>)"
    using uq_activate [OF uq pk assms(2,3)] False assms(4) pk
    by (simp add: may_activate_def db_ok_applications [OF assms(1)])
  then show ?thesis
    by (intro that [of "d\<lparr>applications := update_where (\<lambda>x. a_id x = a_id a) f (applications d)\<rparr>"])
      (simp_all add: update_row_def commit_def)
qed

definition gate_blocks ::
  "worker_settings \<Rightarrow> (db \<Rightarrow> str \<Rightarrow> str \<Rightarrow> exn + real) \<Rightarrow> db \<Rightarrow> application \<Rightarrow> bool" where
  "gate_blocks st score d a \<longleftrightarrow> truthy (a_resume a)
     \<and> (case score d (or_empty (a_resume a)) (a_job a) of Inl _ \<Rightarrow> False | Inr s \<Rightarrow> 0 < s \<and> s < min_ats_score st)"

lemma gate_blocks_iff: "fst (ats_gate_ok st score d a) \<longleftrightarrow> \<not> gate_blocks st score d a"
  by (auto simp: ats_gate_ok_def gate_blocks_def split: sum.splits)

definition run_confirms :: "worker_settings \<Rightarrow> apply_run \<Rightarrow> bool" where
  "run_confirms st run \<longleftrightarrow> (\<forall>a d. \<exists>c. snd (submit_application st run a d) = Confirmed c)"

lemma apply_task_blocked:
  assumes "db_ok (fst w)" and "a \<in> set (applications (fst w))" and "a_status a \<noteq> APPLIED"
    and "may_activate a (fst w)" and "gate_blocks st score (fst w) a"
  shows "\<exists>w'. apply_task st score run ctx now (a_id a) w = (w', Returned)
    \<and> row_status (a_id a) (fst w') = Some FAILED \<and> confirmed_ids (snd w') = confirmed_ids (snd w)"
proof -
  have get: "db_get None a_user a_id (a_id a) (applications (fst w)) = Some a"
    using get_row [OF assms(1)] assms(2) by simp
  have st: "row_status (a_id a) (fst w) \<noteq> None" by (simp add: row_status_def get)
  define p where "p = (case db_get (Some (a_user a)) j_user j_id (a_job a) (jobs (fst w)) of
      Some j \<Rightarrow> j_platform j | None \<Rightarrow> ''unknown'')"
  define msg where "msg = ''ATS score '' @ show_fixed 2 (snd (ats_gate_ok st score (fst w) a)) @
      '' below threshold '' @ min_ats_text st"
  let ?f = "\<lambda>x. x\<lparr>a_status := FAILED, a_notes := Some msg\<rparr>"
  obtain d' where d': "update_row (a_id a) ?f (fst w) = (d', Inr ())" "db_ok d'"
    by (rule update_row_may [OF assms(1,2) _ assms(4), of ?f]) simp
  have "row_status (a_id a) d' = Some FAILED"
    by (rule update_row_status [OF assms(1) d'(1) _ st]) simp_all
  moreover have "apply_task st score run ctx now (a_id a) w = then_return (mark_failed ctx a p msg w)"
    using assms(3,5) by (simp add: apply_task_def get Let_def p_def msg_def gate_blocks_iff)
  ultimately show ?thesis using d' by (simp add: mark_failed_def then_return_def)
qed

text \<open>A task whose gate is open and whose submission is confirmed applies the application.\<close>

lemma apply_task_confirms:
  assumes "db_ok (fst w)" and "keeps_applications run"
    and "a \<in> set (applications (fst w))" and "a_status a \<noteq> APPLIED" and "may_activate a (fst w)"
    and "\<not> gate_blocks st score (fst w) a"
    and "\<And>xs. \<exists>c. snd (submit_application st run (a\<lparr>a_status := APPLYING\<rparr>) ((fst w)\<lparr>applications := xs\<rparr>)) = Confirmed c"
  shows "\<exists>w'. apply_task st score run ctx now (a_id a) w = (w', Returned)
    \<and> row_status (a_id a) (fst w') = Some APPLIED \<and> confirmed_ids (snd w') = confirmed_ids (snd w) @ [a_id a]"
proof -
  have get: "db_get None a_user a_id (a_id a) (applications (fst w)) = Some a"
    using get_row [OF assms(1)] assms(3) by simp
  have st: "row_status (a_id a) (fst w) \<noteq> None" by (simp add: row_status_def get)
  define p where "p = (case db_get (Some (a_user a)) j_user j_id (a_job a) (jobs (fst w)) of
      Some j \<Rightarrow> j_platform j | None \<Rightarrow> ''unknown'')"
  let ?f = "\<lambda>x. x\<lparr>a_status := APPLYING\<rparr>"
  obtain d1 where u: "update_row (a_id a) ?f (fst w) = (d1, Inr ())" "db_ok d1"
    by (rule update_row_may [OF assms(1,3) _ assms(5), of ?f]) simp
  then have "d1 = (fst w)\<lparr>applications := update_where (\<lambda>x. a_id x = a_id a) ?f (applications (fst w))\<rparr>"
    by (simp add: update_row_def commit_def split: if_splits)
  then obtain d2 c where s: "submit_application st run (a\<lparr>a_status := APPLYING\<rparr>) d1 = (d2, Confirmed c)"
    using assms(7) by (metis prod.collapse)
  let ?w = "(d2, snd w @ publish ctx (a_user a) (a_id a) APPLYING [])"
  obtain w' r where fin: "apply_finish ctx a p now (Confirmed c) ?w = (w', r)" by fastforce
  have task: "apply_task st score run ctx now (a_id a) w = (w', r)"
    using fin assms(4,6) u s by (simp add: apply_task_def get Let_def p_def gate_blocks_iff)
  have keep: "applications d2 = applications d1" "db_ok d2" using submit_keeps [OF assms(2) u(2) s] by simp_all
  have "row_status (a_id a) d1 = Some APPLYING"
    by (rule update_row_status [OF assms(1) u(1) _ st]) simp_all
  then have s2: "row_status (a_id a) (fst ?w) = Some APPLYING" by (simp add: row_status_def keep(1))
  have "db_ok (fst ?w)" using keep(2) by simp
  from apply_finish_result [OF this s2 fin] task show ?thesis by (auto dest!: confirmed_ids_none)
qed

lemma apply_task_outcome:
  assumes "db_ok (fst w)" and "keeps_applications run" and "run_confirms st run"
    and "a \<in> set (applications (fst w))" and "a_status a \<noteq> APPLIED" and "may_activate a (fst w)"
    and "apply_task st score run ctx now (a_id a) w = (w', r)"
  shows "r = Returned
    \<and> row_status (a_id a) (fst w') = Some (if gate_blocks st score (fst w) a then FAILED else APPLIED)
    \<and> confirmed_ids (snd w') = confirmed_ids (snd w) @ (if gate_blocks st score (fst w) a then [] else [a_id a])"
proof (cases "gate_blocks st score (fst w) a")
  case True
  from apply_task_blocked [OF assms(1,4,5,6) True, of run ctx now] assms(7) True show ?thesis by auto
next
  case False
  have "\<And>xs. \<exists>c. snd (submit_application st run (a\<lparr>a_status := APPLYING\<rparr>) ((fst w)\<lparr>applications := xs\<rparr>)) = Confirmed c"
    using assms(3) unfolding run_confirms_def by blast
  from apply_task_confirms [OF assms(1,2,4,5,6) False this, of ctx now] assms(7) False show ?thesis by auto
qed

text \<open>
  the ATS gate. For an active application that is not applied yet, with a submission that
  would be confirmed, the task fails the application without submitting it exactly when it has a
  resume whose score is positive and below the threshold; with no resume, no score, a zero score or
  a sufficient one it is submitted once and applied.
\<close>

theorem ats_gate_decides:
  assumes "db_ok (fst w)" and "keeps_applications run" and "run_confirms st run"
    and "a \<in> set (applications (fst w))" and "is_active_app a" and "a_status a \<noteq> APPLIED"
    and "blocked \<longleftrightarrow> truthy (a_resume a) \<and> (\<exists>s. score (fst w) (or_empty (a_resume a)) (a_job a) = Inr s
           \<and> 0 < s \<and> s < min_ats_score st)"
  shows "\<exists>w'. apply_task st score run ctx now (a_id a) w = (w', Returned)
    \<and> row_status (a_id a) (fst w') = Some (if blocked then FAILED else APPLIED)
    \<and> confirmed_ids (snd w') = confirmed_ids (snd w) @ (if blocked then [] else [a_id a])"
proof -
  obtain w' r where t: "apply_task st score run ctx now (a_id a) w = (w', r)"
    by (cases "apply_task st score run ctx now (a_id a) w")
  have "may_activate a (fst w)" using assms(5) by (simp add: may_activate_def)
  note o = apply_task_outcome [OF assms(1-4,6) this t]
  have "gate_blocks st score (fst w) a \<longleftrightarrow> blocked"
    unfolding assms(7) gate_blocks_def by (auto split: sum.splits)
  with o t show ?thesis by simp
qed

definition scored_app :: application where
  "scored_app = (new_application ''a1'' ''u1'' ''j1'' (Some ''r1'') AUTONOMOUS 1)"

definition scored_db :: db where
  "scored_db = sample_db\<lparr>applications := [scored_app]\<rparr>"

lemma scored_db_ok: "db_ok scored_db"
  by (simp add: scored_db_def scored_app_def sample_defs db_ok_def pk_ok_def uq_app_active_job_def app_key_def
      uq_job_platform_id_def uq_user_email_def new_application_def)

lemma scored_facts:
  "a_id scored_app = ''a1''" "a_status scored_app = QUEUED" "a_resume scored_app = Some ''r1''"
  "is_active_app scored_app" "applications scored_db = [scored_app]" "min_ats_score placeholder_settings = 1/4"
  by (simp_all add: scored_app_def scored_db_def placeholder_settings_def) (simp_all add: new_application_def)

lemma placeholder_confirms: "run_confirms placeholder_settings run"
  by (simp add: run_confirms_def placeholder_settings_def submit_application_def)

theorem ats_gate_decides_witness:
  "\<exists>w'. apply_task placeholder_settings (\<lambda>_ _ _. Inr (1/5)) quiet_run \<lparr>has_redis = True, job_try = None\<rparr> 7
      ''a1'' (scored_db, []) = (w', Returned)
    \<and> row_status ''a1'' (fst w') = Some FAILED \<and> confirmed_ids (snd w') = []"
proof -
  have b: "True \<longleftrightarrow> truthy (a_resume scored_app) \<and> (\<exists>s. (Inr (1/5) :: exn + real) = Inr s
      \<and> 0 < s \<and> s < min_ats_score placeholder_settings)"
    by (auto simp: scored_facts intro!: exI [of _ "1/5 :: real"])
  show ?thesis
    using ats_gate_decides [of "(scored_db, [])" quiet_run placeholder_settings scored_app True
        "\<lambda>_ _ _. Inr (1/5)" "\<lparr>has_redis = True, job_try = None\<rparr>" 7, OF _ quiet_keeps placeholder_confirms _ _ _ b]
    by (simp add: scored_db_ok scored_facts)
qed

text \<open>
  only \<^verbatim>\<open>applied\<close> is skipped. An application that its user withdrew after it was enqueued (and that
  has no active sibling) is still submitted by the queued task, and becomes \<^verbatim>\<open>applied\<close>.
\<close>

theorem worker_submits_withdrawn:
  assumes "db_ok (fst w)" and "keeps_applications run" and "run_confirms st run"
    and "a \<in> set (applications (fst w))" and "a_status a = WITHDRAWN"
    and "\<forall>x \<in> set (applications (fst w)). is_active_app x \<longrightarrow> app_key x \<noteq> app_key a"
    and "\<not> gate_blocks st score (fst w) a"
  shows "\<exists>w'. apply_task st score run ctx now (a_id a) w = (w', Returned)
    \<and> row_status (a_id a) (fst w') = Some APPLIED
    \<and> confirmed_ids (snd w') = confirmed_ids (snd w) @ [a_id a]"
proof -
  obtain w' r where t: "apply_task st score run ctx now (a_id a) w = (w', r)"
    by (cases "apply_task st score run ctx now (a_id a) w")
  have "may_activate a (fst w)" using assms(6) by (simp add: may_activate_def)
  from apply_task_outcome [OF assms(1-4) _ this t] assms(5,7) t show ?thesis by simp
qed

definition withdrawn_db :: db where
  "withdrawn_db = scored_db\<lparr>applications := [scored_app\<lparr>a_status := WITHDRAWN\<rparr>]\<rparr>"

lemma withdrawn_db_ok: "db_ok withdrawn_db"
  by (simp add: withdrawn_db_def scored_db_def scored_app_def sample_defs db_ok_def pk_ok_def uq_app_active_job_def
      app_key_def uq_job_platform_id_def uq_user_email_def new_application_def is_active_app_def terminal_iff)

theorem worker_submits_withdrawn_witness:
  "\<exists>w'. apply_task placeholder_settings (\<lambda>_ _ _. Inr (1/2)) quiet_run \<lparr>has_redis = True, job_try = None\<rparr> 7
      ''a1'' (withdrawn_db, []) = (w', Returned)
    \<and> row_status ''a1'' (fst w') = Some APPLIED \<and> confirmed_ids (snd w') = [''a1'']"
proof -
  let ?a = "scored_app\<lparr>a_status := WITHDRAWN\<rparr>"
  have m: "?a \<in> set (applications (fst (withdrawn_db, [])))" by (simp add: withdrawn_db_def)
  have n: "\<forall>x \<in> set (applications (fst (withdrawn_db, []))). is_active_app x \<longrightarrow> app_key x \<noteq> app_key ?a"
    by (simp add: withdrawn_db_def is_active_app_def terminal_iff)
  have g: "\<not> gate_blocks placeholder_settings (\<lambda>_ _ _. Inr (1/2)) (fst (withdrawn_db, [])) ?a"
    by (simp add: gate_blocks_def scored_facts)
  show ?thesis
    using worker_submits_withdrawn [OF _ quiet_keeps placeholder_confirms m _ n g,
        of "\<lparr>has_redis = True, job_try = None\<rparr>" 7]
    by (simp add: withdrawn_db_ok scored_facts)
qed

end
