(* ===== verification/Resumes.thy ===== *)
theory Resumes
  imports Optimizer Documents Worker
begin

text \<open>
  The resume service (\<^verbatim>\<open>services/resume.py\<close>) and its routes (\<^verbatim>\<open>api/v1/resumes.py\<close>): upload, listing,
  scoring, tailoring, optimisation, download. The state is the world of the LLM client, which holds the
  database, with the file system. \<open>N\<close> is spaCy's pipeline, None when \<^verbatim>\<open>get_nlp\<close> raises; the ids of new
  rows and files and the times are arguments. The temporary copy of an upload, removed after parsing, is
  not part of the file system.
\<close>

section \<open>Skills of a text\<close>

text \<open>\<^verbatim>\<open>_extract_skills_text_based\<close>: the loop with the canonical names found so far.\<close>

fun text_skill_loop :: "str \<Rightarrow> (str \<times> str list) list \<Rightarrow> str list \<Rightarrow> str list" where
  "text_skill_loop low [] found = found"
| "text_skill_loop low ((c, vs) # es) found =
     text_skill_loop low es
       (if c \<in> set found then found
        else if word_present c low then found @ [c]
        else if list_ex (\<lambda>v. word_present v low) vs then found @ [c]
        else found)"

definition extract_skills_text_based :: "str \<Rightarrow> str list" where
  "extract_skills_text_based s = text_skill_loop (lower s) SKILL_VARIATIONS []"

definition extract_skills_of :: "nlp option \<Rightarrow> str \<Rightarrow> str list" where
  "extract_skills_of N s = (case N of Some _ \<Rightarrow> sort (extract_skills s) | None \<Rightarrow> extract_skills_text_based s)"

section \<open>Reading\<close>

definition get_resume :: "ctx \<Rightarrow> str \<Rightarrow> db \<Rightarrow> exn + resume" where
  "get_resume c i d =
     (case find_row c r_user r_id i (resumes d) of
        Inl e \<Rightarrow> Inl e
      | Inr None \<Rightarrow> Inl (RecordNotFoundError ''Resume'' i)
      | Inr (Some r) \<Rightarrow> Inr r)"

definition get_job_row :: "ctx \<Rightarrow> str \<Rightarrow> db \<Rightarrow> exn + job" where
  "get_job_row c i d =
     (case find_row c j_user j_id i (jobs d) of
        Inl e \<Rightarrow> Inl e
      | Inr None \<Rightarrow> Inl (RecordNotFoundError ''Job'' i)
      | Inr (Some j) \<Rightarrow> Inr j)"

record resume_response =
  rr_id :: str
  rr_name :: str
  rr_type :: resume_type
  rr_template :: str
  rr_base :: "str option"
  rr_job :: "str option"
  rr_has_pdf :: bool
  rr_has_docx :: bool
  rr_ats_score :: "real option"
  rr_created_at :: int

definition resume_response_of :: "resume \<Rightarrow> resume_response" where
  "resume_response_of r =
     \<lparr>rr_id = r_id r, rr_name = r_name r, rr_type = r_type r, rr_template = r_template_id r,
      rr_base = r_base_resume_id r, rr_job = r_job_id r, rr_has_pdf = truthy (r_file_path_pdf r),
      rr_has_docx = truthy (r_file_path_docx r), rr_ats_score = r_ats_score r, rr_created_at = r_created_at r\<rparr>"

definition list_resumes :: "ctx \<Rightarrow> db \<Rightarrow> resume_response list \<times> nat" where
  "list_resumes c d =
     (let items = map resume_response_of (order_desc r_created_at (select_rows c r_user (resumes d)))
      in (items, length items))"

section \<open>Scoring\<close>

record score_response =
  sr_resume :: str
  sr_job :: str
  sr_overall :: real
  sr_skill :: real
  sr_experience :: real
  sr_education :: real
  sr_keyword :: real
  sr_missing :: "str list"
  sr_suggestions :: "str list"

definition score_with_full_engine :: "nlp \<Rightarrow> str \<Rightarrow> str \<Rightarrow> str \<Rightarrow> str \<Rightarrow> job \<Rightarrow> score_response" where
  "score_with_full_engine N rid jid resume_text job_description j =
     (let profile = \<lparr>cp_skills = sort (extract_skills resume_text), cp_experience = [], cp_education = []\<rparr>;
          meta = (case j_skills_required j of
                    Some (req, pref) \<Rightarrow> \<lparr>jm_required = req, jm_preferred = pref, jm_years = None, jm_education = []\<rparr>
                  | None \<Rightarrow> \<lparr>jm_required = [], jm_preferred = [], jm_years = None, jm_education = []\<rparr>);
          d = scorer_score_resume default_weights N resume_text job_description profile meta
      in \<lparr>sr_resume = rid, sr_job = jid, sr_overall = sd_overall d, sr_skill = sd_skill d,
          sr_experience = sd_experience d, sr_education = sd_education d, sr_keyword = sd_keyword d,
          sr_missing = sd_missing_required d, sr_suggestions = sd_suggestions d\<rparr>)"

definition FALLBACK_STOP :: "str list" where
  "FALLBACK_STOP = [''the'', ''a'', ''an'', ''is'', ''are'', ''and'', ''or'', ''to'', ''in'', ''of'', ''for'',
     ''with'', ''on'', ''at'', ''by'', ''from'', ''as'', ''we'', ''you'', ''your'', ''our'']"

definition score_with_text_fallback :: "nlp option \<Rightarrow> str \<Rightarrow> str \<Rightarrow> str \<Rightarrow> str \<Rightarrow> score_response" where
  "score_with_text_fallback N rid jid resume_text job_description =
     (let rs = extract_skills_of N resume_text; js = remdups (extract_skills_of N job_description);
          skill = (if js = [] then 1 / 2 else real (length (filter (\<lambda>s. s \<in> set rs) js)) / real (length js));
          missing = sort (filter (\<lambda>s. s \<notin> set rs) js);
          rw = split_ws (lower resume_text);
          jw = remdups (filter (\<lambda>x. x \<notin> set FALLBACK_STOP) (split_ws (lower job_description)));
          keyword = (if jw = [] then 0 else real (length (filter (\<lambda>x. x \<in> set rw) jw)) / real (length jw))
      in \<lparr>sr_resume = rid, sr_job = jid,
          sr_overall = round_to 4 (1 / 2 * skill + 1 / 2 * min keyword 1),
          sr_skill = round_to 4 skill, sr_experience = 0, sr_education = 0,
          sr_keyword = round_to 4 (min keyword 1), sr_missing = missing,
          sr_suggestions =
            (if missing = [] then [] else [''Add these skills to your resume: '' @ join_with '', '' (take 5 missing)])
            @ (if keyword < 4 / 10 then [''Mirror more terminology from the job description in your resume.''] else [])\<rparr>)"

text \<open>The engine raises only when spaCy cannot be loaded; then the text fallback scores.\<close>

definition score_resume :: "nlp option \<Rightarrow> ctx \<Rightarrow> str \<Rightarrow> str \<Rightarrow> db \<Rightarrow> exn + score_response" where
  "score_resume N c rid jid d =
     (case get_resume c rid d of
        Inl e \<Rightarrow> Inl e
      | Inr r \<Rightarrow>
         (case get_job_row c jid d of
            Inl e \<Rightarrow> Inl e
          | Inr j \<Rightarrow>
             (let text = or_empty (r_content_text r) in
              if strip text = [] then
                Inr \<lparr>sr_resume = rid, sr_job = jid, sr_overall = 0, sr_skill = 0, sr_experience = 0,
                  sr_education = 0, sr_keyword = 0, sr_missing = [''Resume has no parsed text content''],
                  sr_suggestions = [''Re-upload your resume to enable parsing'']\<rparr>
              else
                (case N of
                   Some n \<Rightarrow> Inr (score_with_full_engine n rid jid text (j_description j) j)
                 | None \<Rightarrow> Inr (score_with_text_fallback N rid jid text (j_description j))))))"

section \<open>Upload\<close>

type_synonym rworld = "llm_world \<times> fs"

definition on_db :: "(db, exn, 'a) op \<Rightarrow> (rworld, exn, 'a) op" where
  "on_db f w = (case f (lw_db (fst w)) of (d, r) \<Rightarrow> (((fst w)\<lparr>lw_db := d\<rparr>, snd w), r))"

definition insert_resume :: "resume \<Rightarrow> (db, exn, unit) op" where
  "insert_resume r d = commit (d\<lparr>resumes := resumes d @ [r]\<rparr>) d"

definition set_ats_score :: "str \<Rightarrow> real \<Rightarrow> (db, exn, unit) op" where
  "set_ats_score i s d =
     commit (d\<lparr>resumes := update_where (\<lambda>r. r_id r = i) (\<lambda>r. r\<lparr>r_ats_score := Some s\<rparr>) (resumes d)\<rparr>) d"

record upload_response =
  ur_id :: str
  ur_name :: str
  ur_format :: str
  ur_words :: nat
  ur_skills :: "str list"

record upload_env =
  ue_extract :: "str \<Rightarrow> str \<Rightarrow> str + str list"
  ue_decode :: "str \<Rightarrow> str"
  ue_root :: path

definition upload_resume ::
  "upload_env \<Rightarrow> nlp option \<Rightarrow> str option \<Rightarrow> str \<Rightarrow> str \<Rightarrow> str \<Rightarrow> str \<Rightarrow> int \<Rightarrow> (rworld, exn, upload_response) op" where
  "upload_resume E N filename content user file_id new_id now w =
     (let ext = lower (path_suffix (if truthy filename then or_empty filename else ''resume.pdf''));
          parsed = parse_document (ue_extract E) (''data/uploads/'' @ file_id @ ext) (Some content);
          text = (case parsed of Inr p \<Rightarrow> pr_raw_text p | Inl _ \<Rightarrow> ue_decode E content);
          words = (case parsed of Inr p \<Rightarrow> pr_word_count p | Inl _ \<Rightarrow> length (split_ws (ue_decode E content)));
          skills = extract_skills_of N text;
          key = upload_key user file_id (lstrip_chars ''.'' ext);
          name = (if truthy filename then or_empty filename else ''Untitled Resume'')
      in case service_put (ue_root E) user key content
                (if ext = ''.pdf'' then PDF_CONTENT_TYPE else DOCX_CONTENT_TYPE) (snd w) of
           (f, Inl e) \<Rightarrow> ((fst w, f), Inl e)
         | (f, Inr _) \<Rightarrow>
            (case on_db (insert_resume \<lparr>r_id = new_id, r_user = user, r_name = name, r_type = BASE,
                    r_template_id = ''modern'', r_base_resume_id = None, r_job_id = None,
                    r_file_path_pdf = (if ext = ''.pdf'' then Some key else None),
                    r_file_path_docx = (if ext = ''.docx'' then Some key else None), r_ats_score = None,
                    r_content_text = Some (take 5000 text), r_created_at = now\<rparr>) (fst w, f) of
               (w', Inl e) \<Rightarrow> (w', Inl e)
             | (w', Inr _) \<Rightarrow>
                 (w', Inr \<lparr>ur_id = new_id, ur_name = name, ur_format = lstrip_chars ''.'' ext,
                    ur_words = words, ur_skills = skills\<rparr>)))"

datatype http_error = HttpError nat str | AppError exn

definition MAX_UPLOAD_SIZE :: nat where "MAX_UPLOAD_SIZE = 10 * 1024 * 1024"

text \<open>The chunked reading stops with the first chunk that passes the limit, so it refuses exactly the larger files.\<close>

definition upload_route ::
  "upload_env \<Rightarrow> nlp option \<Rightarrow> str option \<Rightarrow> str option \<Rightarrow> str \<Rightarrow> str \<Rightarrow> str \<Rightarrow> str \<Rightarrow> int
     \<Rightarrow> (rworld, http_error, upload_response) op" where
  "upload_route E N filename content_type content user file_id new_id now w =
     (let ext = lower (path_suffix (or_empty filename)) in
      if ext \<notin> {''.pdf'', ''.docx''} then
        (w, Inl (HttpError 422 (''Only PDF and DOCX files accepted, got '' @ CHR 39 # ext @ [CHR 39])))
      else if truthy content_type \<and> or_empty content_type \<notin> {PDF_CONTENT_TYPE, DOCX_CONTENT_TYPE} then
        (w, Inl (HttpError 422 (''Invalid file type: '' @ or_empty content_type)))
      else if MAX_UPLOAD_SIZE < length content then (w, Inl (HttpError 413 ''File too large. Max 10MB.''))
      else
        (case upload_resume E N filename content user file_id new_id now w of
           (w', Inl e) \<Rightarrow> (w', Inl (AppError e)) | (w', Inr r) \<Rightarrow> (w', Inr r)))"

section \<open>Tailoring and optimising\<close>

record gen_env =
  ge_doc :: doc_env
  ge_lib :: litellm
  ge_settings :: llm_settings
  ge_secrets :: secrets_api
  ge_root :: path
  ge_optimize_prompt :: "str \<Rightarrow> str \<Rightarrow> score_response \<Rightarrow> str list \<Rightarrow> str"
  ge_optimize_system :: str

definition on_llm :: "(llm_world, exn, 'a) op \<Rightarrow> (rworld, exn, 'a) op" where
  "on_llm f w = (case f (fst w) of (l, r) \<Rightarrow> ((l, snd w), r))"

definition on_fs :: "(fs, exn, 'a) op \<Rightarrow> (rworld, exn, 'a) op" where
  "on_fs f w = (case f (snd w) of (g, r) \<Rightarrow> ((fst w, g), r))"

text \<open>Rendering, storing and recording a document, which ends both operations.\<close>

definition store_generated ::
  "gen_env \<Rightarrow> llm_client option \<Rightarrow> resume_data \<Rightarrow> str \<Rightarrow> str \<Rightarrow> str list \<Rightarrow> str \<Rightarrow> str
     \<Rightarrow> (str option \<Rightarrow> str option \<Rightarrow> resume) \<Rightarrow> (rworld, exn, resume) op" where
  "store_generated G client r job_description template formats doc_id user row w =
     (case on_llm (generate_resume_doc (ge_doc G) client r job_description template formats doc_id) w of
        (w1, Inl e) \<Rightarrow> (w1, Inl e)
      | (w1, Inr doc) \<Rightarrow>
         (case on_fs (persist_generated_document (ge_root G) user doc) w1 of
            (w2, Inl e) \<Rightarrow> (w2, Inl e)
          | (w2, Inr (pk, dk)) \<Rightarrow>
             (case on_db (insert_resume (row pk dk)) w2 of
                (w3, Inl e) \<Rightarrow> (w3, Inl e)
              | (w3, Inr _) \<Rightarrow> (w3, Inr (row pk dk)))))"

record generate_request =
  gr_base :: str
  gr_job :: str
  gr_template :: str
  gr_formats :: "str list"

definition generate_tailored_resume ::
  "gen_env \<Rightarrow> ctx \<Rightarrow> generate_request \<Rightarrow> str \<Rightarrow> str \<Rightarrow> str \<Rightarrow> int \<Rightarrow> (rworld, exn, resume_response) op" where
  "generate_tailored_resume G c rq user doc_id new_id now w =
     (case get_resume c (gr_base rq) (lw_db (fst w)) of
        Inl e \<Rightarrow> (w, Inl e)
      | Inr base \<Rightarrow>
         (case get_job_row c (gr_job rq) (lw_db (fst w)) of
            Inl e \<Rightarrow> (w, Inl e)
          | Inr j \<Rightarrow>
             (case build_llm_client_for_user (ge_lib G) (ge_settings G) (ge_secrets G) user (lw_db (fst w)) of
                Inl e \<Rightarrow> (w, Inl e)
              | Inr client \<Rightarrow>
                 (case store_generated G (Some client) (build_resume_data (or_empty (r_content_text base)))
                         (j_description j) (gr_template rq) (gr_formats rq) doc_id user
                         (\<lambda>pk dk. \<lparr>r_id = new_id, r_user = user, r_name = ''Tailored - '' @ r_name base,
                            r_type = TAILORED, r_template_id = gr_template rq, r_base_resume_id = Some (gr_base rq),
                            r_job_id = Some (gr_job rq), r_file_path_pdf = pk, r_file_path_docx = dk,
                            r_ats_score = None, r_content_text = r_content_text base, r_created_at = now\<rparr>) w of
                    (w', Inl e) \<Rightarrow> (w', Inl e)
                  | (w', Inr r) \<Rightarrow> (w', Inr (resume_response_of r))))))"

definition optimizer_suggestions :: "nlp option \<Rightarrow> score_response \<Rightarrow> str \<Rightarrow> str \<Rightarrow> str list" where
  "optimizer_suggestions N s resume_text job_description =
     (case N of
        None \<Rightarrow> sr_suggestions s
      | Some _ \<Rightarrow>
          suggest_improvements
            \<lparr>sd_overall = sr_overall s, sd_skill = sr_skill s, sd_experience = sr_experience s,
             sd_education = sr_education s, sd_keyword = sr_keyword s, sd_missing_required = sr_missing s,
             sd_missing_preferred = [], sd_keyword_matches = [], sd_experience_matches = [],
             sd_education_matches = [], sd_suggestions = sr_suggestions s\<rparr> resume_text job_description)"

text \<open>The re-score of the stored row; a failure of it is logged and swallowed.\<close>

definition rescore :: "nlp option \<Rightarrow> ctx \<Rightarrow> resume \<Rightarrow> str \<Rightarrow> rworld \<Rightarrow> rworld \<times> resume" where
  "rescore N c r jid w =
     (case score_resume N c (r_id r) jid (lw_db (fst w)) of
        Inl _ \<Rightarrow> (w, r)
      | Inr s \<Rightarrow>
         (case on_db (set_ats_score (r_id r) (sr_overall s)) w of
            (w', Inl _) \<Rightarrow> (w', r)
          | (w', Inr _) \<Rightarrow> (w', r\<lparr>r_ats_score := Some (sr_overall s)\<rparr>)))"

definition optimized_row ::
  "str \<Rightarrow> resume \<Rightarrow> str \<Rightarrow> str \<Rightarrow> int \<Rightarrow> str option \<Rightarrow> str option \<Rightarrow> resume" where
  "optimized_row user r jid new_id now pk dk =
     \<lparr>r_id = new_id, r_user = user, r_name = ''Optimized - '' @ r_name r, r_type = OPTIMIZED,
      r_template_id = r_template_id r, r_base_resume_id = Some (r_id r), r_job_id = Some jid,
      r_file_path_pdf = pk, r_file_path_docx = dk, r_ats_score = None,
      r_content_text = Some (or_empty (r_content_text r)), r_created_at = now\<rparr>"

text \<open>The rewriting of a resume that has been scored, and the new row with its own score.\<close>

definition optimize_for ::
  "gen_env \<Rightarrow> nlp option \<Rightarrow> ctx \<Rightarrow> str \<Rightarrow> resume \<Rightarrow> job \<Rightarrow> score_response \<Rightarrow> str \<Rightarrow> str \<Rightarrow> int
     \<Rightarrow> (rworld, exn, resume_response) op" where
  "optimize_for G N c user r j s doc_id new_id now w =
     (case build_llm_client_for_user (ge_lib G) (ge_settings G) (ge_secrets G) user (lw_db (fst w)) of
        Inl e \<Rightarrow> (w, Inl e)
      | Inr client \<Rightarrow>
         (let body = or_empty (r_content_text r);
              hints = optimizer_suggestions N s body (j_description j)
          in case on_llm (client_structured client (de_schema (ge_doc G)) (de_parse (ge_doc G))
                   (ge_optimize_prompt G body (j_description j) s hints) (ge_optimize_system G) ''ats_optimize'') w of
               (w1, Inl e) \<Rightarrow> (w1, Inl e)
             | (w1, Inr data) \<Rightarrow>
                (case store_generated G None data [] (r_template_id r) [''pdf'', ''docx''] doc_id user
                        (optimized_row user r (j_id j) new_id now) w1 of
                   (w2, Inl e) \<Rightarrow> (w2, Inl e)
                 | (w2, Inr row) \<Rightarrow>
                    (case rescore N c row (j_id j) w2 of
                       (w3, row') \<Rightarrow> (w3, Inr (resume_response_of row'))))))"

definition optimize_target :: "str option \<Rightarrow> resume \<Rightarrow> str option" where
  "optimize_target job_id r = (if truthy job_id then job_id else r_job_id r)"

definition optimize_resume ::
  "gen_env \<Rightarrow> nlp option \<Rightarrow> ctx \<Rightarrow> str \<Rightarrow> str \<Rightarrow> str option \<Rightarrow> str \<Rightarrow> str \<Rightarrow> int \<Rightarrow> (rworld, exn, resume_response) op" where
  "optimize_resume G N c rid user job_id doc_id new_id now w =
     (let d = lw_db (fst w) in
      case get_resume c rid d of
        Inl e \<Rightarrow> (w, Inl e)
      | Inr r \<Rightarrow>
          if \<not> truthy (optimize_target job_id r)
          then (w, Inl (RecordNotFoundError ''Job'' ''none (no job_id provided)''))
          else
            (let jid = or_empty (optimize_target job_id r) in
             case get_job_row c jid d of
               Inl e \<Rightarrow> (w, Inl e)
             | Inr j \<Rightarrow>
                (case score_resume N c rid jid d of
                   Inl e \<Rightarrow> (w, Inl e)
                 | Inr s \<Rightarrow> optimize_for G N c user r j s doc_id new_id now w)))"

section \<open>Download and profile\<close>

text \<open>
  The file's content and the name offered to the client. \<^verbatim>\<open>FileNotFoundError\<close> and \<^verbatim>\<open>PermissionError\<close> become
  a missing record, a rejected path does not.
\<close>

definition download_resume :: "path \<Rightarrow> str \<Rightarrow> str \<Rightarrow> str \<Rightarrow> rworld \<Rightarrow> exn + (str \<times> str)" where
  "download_resume rt user rid fmt w =
     (case get_resume (Some user) rid (lw_db (fst w)) of
        Inl e \<Rightarrow> Inl e
      | Inr r \<Rightarrow>
         (let key = (if fmt = ''pdf'' then r_file_path_pdf r else r_file_path_docx r) in
          if \<not> truthy key then Inl (RecordNotFoundError ''Resume file'' rid)
          else (case service_materialize rt user (or_empty key) (snd w) of
                  Inl (ValueError m) \<Rightarrow> Inl (ValueError m)
                | Inl e \<Rightarrow> Inl (RecordNotFoundError ''Resume file'' rid)
                | Inr bytes \<Rightarrow> Inr (bytes, r_name r @ CHR ''.'' # fmt))))"

definition extract_profile_route :: "ctx \<Rightarrow> str \<Rightarrow> db \<Rightarrow> exn + profile_data" where
  "extract_profile_route c rid d =
     map_sum id (\<lambda>r. profile_from_text (or_empty (r_content_text r))) (get_resume c rid d)"

section \<open>Text skills\<close>

lemma text_skill_loop_filter:
  "distinct (map fst es) \<Longrightarrow> set found \<inter> fst ` set es = {} \<Longrightarrow>
   text_skill_loop low es found =
     found @ map fst (filter (\<lambda>(c, vs). word_present c low \<or> list_ex (\<lambda>v. word_present v low) vs) es)"
proof (induction es arbitrary: found)
  case (Cons e es)
  obtain c vs where e: "e = (c, vs)" by (cases e)
  have d: "distinct (map fst es)" "c \<notin> set found" using Cons.prems by (auto simp: e)
  have cn: "c \<notin> fst ` set es" and f0: "set found \<inter> fst ` set es = {}" using Cons.prems by (auto simp: e)
  have "text_skill_loop low es f = f @ map fst (filter (\<lambda>(c, vs). word_present c low \<or> list_ex (\<lambda>v. word_present v low) vs) es)"
    if "f = found \<or> f = found @ [c]" for f
    by (rule Cons.IH [OF d(1)]) (use that cn f0 in \<open>elim disjE; simp\<close>)
  then show ?case using d(2) by (simp add: e)
qed simp

section \<open>The full engine\<close>

lemma education_floor: "2 / 10 \<le> fst (score_education [] j m)"
  by (simp add: score_education_def Let_def)

lemma round4_le: "x \<le> 7 / 10 \<Longrightarrow> round_to 4 x \<le> 7 / 10"
proof -
  assume "x \<le> 7 / 10"
  then have "round_half_even (x * 10 ^ 4) \<le> round_half_even (of_int 7000)" by (intro round_half_even_mono) simp
  also have "round_half_even (of_int 7000) = 7000" by (simp add: round_half_even_def)
  finally show ?thesis by (simp add: round_to_def divide_le_eq)
qed

lemma round4_ge: "4 / 100 \<le> x \<Longrightarrow> 4 / 100 \<le> round_to 4 x"
proof -
  assume "4 / 100 \<le> x"
  then have "round_half_even (of_int 400) \<le> round_half_even (x * 10 ^ 4)" by (intro round_half_even_mono) simp
  moreover have "round_half_even (of_int 400) = 400" by (simp add: round_half_even_def)
  ultimately have "real_of_int 400 \<le> of_int (round_half_even (x * 10 ^ 4))" by linarith
  then show ?thesis by (simp add: round_to_def le_divide_eq)
qed

text \<open>Without experience and education the total is at most 0.7, and at least 0.04.\<close>

lemma full_engine_overall:
  "4 / 100 \<le> sr_overall (score_with_full_engine N rid jid x jd j)
   \<and> sr_overall (score_with_full_engine N rid jid x jd j) \<le> 7 / 10
   \<and> sr_experience (score_with_full_engine N rid jid x jd j) = 0"
proof -
  define meta where "meta = (case j_skills_required j of
      Some (req, pref) \<Rightarrow> \<lparr>jm_required = req, jm_preferred = pref, jm_years = None, jm_education = []\<rparr>
    | None \<Rightarrow> \<lparr>jm_required = [], jm_preferred = [], jm_years = None, jm_education = []\<rparr>)"
  let ?a = "fst (score_skills (sort (extract_skills x)) (jm_required meta) (jm_preferred meta))"
  let ?b = "fst (score_education [] jd meta)" and ?c = "fst (analyze_keywords N x jd)"
  have e: "fst (analyze_experience [] jd meta) = 0" by (simp add: analyze_experience_def)
  have r0: "round_to 4 0 = 0" by (simp add: round_to_def round_half_even_def)
  have u: "unit_score ?a" "unit_score ?b" "unit_score ?c" "2 / 10 \<le> ?b"
    by (simp_all only: score_units education_floor simp_thms)
  let ?t = "4 / 10 * ?a + 2 / 10 * ?b + 1 / 10 * ?c"
  have "4 / 100 \<le> ?t" "?t \<le> 7 / 10" using u by linarith+
  then have "clamp ?t = ?t" by (intro clamp_id) linarith
  moreover have "sr_overall (score_with_full_engine N rid jid x jd j) = round_to 4 (clamp ?t)"
    and "sr_experience (score_with_full_engine N rid jid x jd j) = 0"
    unfolding score_with_full_engine_def meta_def [symmetric] by (simp_all add: scorer_fields default_weights_def e r0 Let_def)
  ultimately show ?thesis using round4_le round4_ge \<open>4 / 100 \<le> ?t\<close> \<open>?t \<le> 7 / 10\<close> by simp
qed

section \<open>Scores of rows\<close>

definition text_score :: "nlp option \<Rightarrow> str \<Rightarrow> job \<Rightarrow> real" where
  "text_score N x j =
     (if strip x = [] then 0
      else (case N of Some n \<Rightarrow> sr_overall (score_with_full_engine n [] [] x (j_description j) j)
            | None \<Rightarrow> sr_overall (score_with_text_fallback N [] [] x (j_description j))))"

lemma score_resume_text:
  assumes "get_resume c rid d = Inr r" and "get_job_row c jid d = Inr j"
  shows "\<exists>s. score_resume N c rid jid d = Inr s \<and> sr_overall s = text_score N (or_empty (r_content_text r)) j"
  using assms
  by (auto simp: score_resume_def text_score_def score_with_full_engine_def score_with_text_fallback_def Let_def
      split: option.split)

lemma get_job_present:
  assumes "pk_ok d" and "j \<in> set (jobs d)" and "j_user j = u"
  shows "get_job_row (Some u) (j_id j) d = Inr j"
  using job_tbl.find_present [OF assms refl] by (simp add: get_job_row_def)

lemma get_resume_present:
  assumes "pk_ok d" and "r \<in> set (resumes d)" and "r_user r = u"
  shows "get_resume (Some u) (r_id r) d = Inr r"
  using resume_tbl.find_present [OF assms refl] by (simp add: get_resume_def)

lemma get_resume_owned:
  assumes "get_resume (Some u) i d = Inr r"
  shows "r \<in> set (resumes d) \<and> r_user r = u \<and> r_id r = i"
proof -
  have "find_row (Some u) r_user r_id i (resumes d) = Inr (Some r)"
    using assms by (auto simp: get_resume_def split: sum.splits option.splits)
  from resume_tbl.find_owned [OF this] show ?thesis .
qed

section \<open>What the writes do to the database\<close>

lemma db_ok_resumes: "db_ok d \<Longrightarrow> db_ok (d\<lparr>resumes := rs, llm_usages := us\<rparr>) = distinct (map r_id rs)"
  by (auto simp: db_ok_def pk_ok_def uq_shared_def)

lemma client_structured_db:
  assumes "db_ok (lw_db w)" and "client_structured c schema parse p s q w = (w', r)"
  shows "\<exists>us. lw_db w' = lw_db w\<lparr>llm_usages := us\<rparr>"
proof -
  let ?a = "\<lparr>ca_prompt = p, ca_system = structured_system s schema, ca_model = None, ca_temperature = None,
      ca_max_tokens = None, ca_format = Some ''json_object'', ca_purpose = q\<rparr>"
  have "w' = fst (complete_call (cl_lib c) (cl_settings c) (cl_creds c) (cl_user c) ?a w)"
    using assms(2) by (auto simp: client_structured_def complete_with_structured_output_def split: prod.splits sum.splits)
  then show ?thesis using try_models_db [OF assms(1)] by (auto simp: complete_call_cases)
qed

lemma generate_resume_doc_db:
  assumes "db_ok (lw_db w)" and "generate_resume_doc E client r jd t fs i w = (w', x)"
  shows "\<exists>us. lw_db w' = lw_db w\<lparr>llm_usages := us\<rparr>"
proof -
  have keep: "\<exists>us. lw_db w = lw_db w\<lparr>llm_usages := us\<rparr>" by (rule exI [of _ "llm_usages (lw_db w)"]) simp
  show ?thesis
  proof (cases "client = None \<or> jd = []")
    case True
    then have "w' = w" using assms(2) by (cases client) (auto simp: generate_resume_doc_def Let_def)
    with keep show ?thesis by simp
  next
    case False
    then obtain c where c: "client = Some c" by auto
    obtain w1 y where s: "client_structured c (de_schema E) (de_parse E) (de_tailor_prompt E r jd) (de_tailor_system E)
        ''resume_tailor'' w = (w1, y)" by (metis surj_pair)
    have "w' = w1" using assms(2) False s
      by (auto simp: generate_resume_doc_def tailor_resume_def c Let_def split: sum.splits prod.splits)
    with client_structured_db [OF assms(1) s] show ?thesis by simp
  qed
qed

lemma store_generated_db:
  assumes "db_ok (lw_db (fst w))"
    and "store_generated G client r jd t fs i u row w = (w', Inr x)"
  shows "\<exists>pk dk us. x = row pk dk \<and> db_ok (lw_db (fst w'))
    \<and> lw_db (fst w') = lw_db (fst w)\<lparr>resumes := resumes (lw_db (fst w)) @ [row pk dk], llm_usages := us\<rparr>"
proof -
  obtain l doc where g: "generate_resume_doc (ge_doc G) client r jd t fs i (fst w) = (l, Inr doc)"
    using assms(2) by (auto simp: store_generated_def on_llm_def split: prod.splits sum.splits)
  obtain us where us: "lw_db l = lw_db (fst w)\<lparr>llm_usages := us\<rparr>"
    using generate_resume_doc_db [OF assms(1) g] by blast
  obtain f pk dk where p: "persist_generated_document (ge_root G) u doc (snd w) = (f, Inr (pk, dk))"
    using assms(2) g by (auto simp: store_generated_def on_llm_def on_fs_def split: prod.splits sum.splits)
  let ?d = "lw_db (fst w)\<lparr>resumes := resumes (lw_db (fst w)) @ [row pk dk], llm_usages := us\<rparr>"
  have d: "lw_db l\<lparr>resumes := resumes (lw_db l) @ [row pk dk]\<rparr> = ?d" by (simp add: us)
  from assms(2) g p have r: "x = row pk dk" "db_ok ?d" "lw_db (fst w') = ?d"
    by (auto simp: store_generated_def on_llm_def on_fs_def on_db_def insert_resume_def commit_def d split: if_splits)
  then show ?thesis by (intro exI [of _ pk] exI [of _ dk] exI [of _ us]) simp
qed

section \<open>Properties\<close>

text \<open>
  skills are read alike with and without spaCy: the text fallback finds the skills of the matcher, in the
  order of the table, and the full extraction the same ones sorted.
\<close>

theorem skill_fallback_agrees:
  "extract_skills_of None s = extract_skills s
   \<and> mset (extract_skills_of (Some n) s) = mset (extract_skills_of None s)
   \<and> sorted (extract_skills_of (Some n) s) \<and> distinct (extract_skills_of (Some n) s)"
proof -
  have d: "distinct (map fst SKILL_VARIATIONS)" by (simp add: SKILL_VARIATIONS_def)
  have eq: "extract_skills_text_based s = extract_skills s"
    using text_skill_loop_filter [OF d, of "[]" "lower s"]
    by (simp add: extract_skills_text_based_def extract_skills_def)
  have "distinct (extract_skills s)" unfolding extract_skills_def using d by (rule distinct_map_filter)
  then show ?thesis by (simp add: extract_skills_of_def eq)
qed

text \<open>
  with spaCy at work the ATS gate of the default threshold is closed. The engine is given neither
  experience nor education, so it scores every readable resume between 0.04 and 0.7: above the zero that the
  gate takes for no score, and below every threshold over 0.7, such as the default 0.75. The worker then
  fails each application that has such a resume, without submitting it.
\<close>

theorem full_engine_closes_gate:
  assumes "db_ok (fst w)" and "a \<in> set (applications (fst w))" and "is_active_app a" and "a_status a \<noteq> APPLIED"
    and "a_resume a = Some (r_id r)" and "r_id r \<noteq> []" and "r \<in> set (resumes (fst w))" and "r_user r = a_user a"
    and "strip (or_empty (r_content_text r)) \<noteq> []"
    and "j \<in> set (jobs (fst w))" and "j_id j = a_job a" and "j_user j = a_user a"
    and "7 / 10 < min_ats_score st"
  shows "\<exists>w'. apply_task st (\<lambda>d rid jid. map_sum id sr_overall (score_resume (Some N) (Some (a_user a)) rid jid d))
       run ctx now (a_id a) w = (w', Returned)
    \<and> row_status (a_id a) (fst w') = Some FAILED \<and> confirmed_ids (snd w') = confirmed_ids (snd w)"
proof (rule apply_task_blocked [OF assms(1,2,4)])
  show "may_activate a (fst w)" using assms(3) by (simp add: may_activate_def)
  have pk: "pk_ok (fst w)" using assms(1) by (simp add: db_ok_def)
  from score_resume_text [OF get_resume_present [OF pk assms(7,8)] get_job_present [OF pk assms(10,12)], of "Some N"]
  obtain s where s: "score_resume (Some N) (Some (a_user a)) (r_id r) (j_id j) (fst w) = Inr s"
      "sr_overall s = text_score (Some N) (or_empty (r_content_text r)) j" by blast
  have "0 < sr_overall s" "sr_overall s \<le> 7 / 10"
    using full_engine_overall [of N "[]" "[]" "or_empty (r_content_text r)" "j_description j" j] assms(9)
    by (simp_all add: s(2) text_score_def)
  then show "gate_blocks st (\<lambda>d rid jid. map_sum id sr_overall (score_resume (Some N) (Some (a_user a)) rid jid d)) (fst w) a"
    using s(1) assms(5,6,11,13) by (simp add: gate_blocks_def)
qed

definition default_worker_settings :: worker_settings where
  "default_worker_settings = \<lparr>live_apply = True, min_ats_score = 75 / 100, min_ats_text = ''0.75''\<rparr>"

definition readable_resume :: resume where
  "readable_resume = \<lparr>r_id = ''r1'', r_user = ''u1'', r_name = ''cv'', r_type = BASE, r_template_id = ''modern'',
     r_base_resume_id = None, r_job_id = None, r_file_path_pdf = None, r_file_path_docx = None, r_ats_score = None,
     r_content_text = Some ''SQL'', r_created_at = 1\<rparr>"

definition resume_db :: db where
  "resume_db = scored_db\<lparr>resumes := [readable_resume]\<rparr>"

lemma resume_db_ok: "db_ok resume_db"
  using scored_db_ok by (auto simp: resume_db_def db_ok_def pk_ok_def uq_shared_def)

lemma readable_text: "strip ''SQL'' \<noteq> []"
  by code_simp

theorem full_engine_closes_gate_witness:
  "\<exists>w'. apply_task default_worker_settings
       (\<lambda>d rid jid. map_sum id sr_overall (score_resume (Some silent_nlp) (Some ''u1'') rid jid d))
       quiet_run \<lparr>has_redis = True, job_try = None\<rparr> 7 ''a1'' (resume_db, []) = (w', Returned)
    \<and> row_status ''a1'' (fst w') = Some FAILED \<and> confirmed_ids (snd w') = []"
proof -
  have u: "a_user scored_app = ''u1''" "a_job scored_app = ''j1''" by (simp_all add: scored_app_def new_application_def)
  have app: "scored_app \<in> set (applications (fst (resume_db, [])))" by (simp add: resume_db_def scored_facts)
  have st: "a_status scored_app \<noteq> APPLIED" "a_resume scored_app = Some (r_id readable_resume)"
    by (simp_all add: scored_facts readable_resume_def)
  have res: "r_id readable_resume \<noteq> []" "readable_resume \<in> set (resumes (fst (resume_db, [])))"
    "r_user readable_resume = a_user scored_app" "strip (or_empty (r_content_text readable_resume)) \<noteq> []"
    using readable_text by (simp_all add: readable_resume_def resume_db_def u)
  have job: "sample_job \<in> set (jobs (fst (resume_db, [])))" "j_id sample_job = a_job scored_app" "j_user sample_job = a_user scored_app"
    by (simp_all add: resume_db_def scored_db_def sample_db_def u) (simp_all add: sample_job_def)
  have thr: "7 / 10 < min_ats_score default_worker_settings" by (simp add: default_worker_settings_def)
  have ok: "db_ok (fst (resume_db, []))" by (simp add: resume_db_ok)
  from full_engine_closes_gate [OF ok app scored_facts(4) st res job thr, of silent_nlp quiet_run "\<lparr>has_redis = True, job_try = None\<rparr>" 7]
  show ?thesis by (simp add: u scored_facts)
qed

lemma get_job_owned:
  assumes "get_job_row (Some u) i d = Inr j"
  shows "j \<in> set (jobs d) \<and> j_user j = u \<and> j_id j = i"
proof -
  have "find_row (Some u) j_user j_id i (jobs d) = Inr (Some j)"
    using assms by (auto simp: get_job_row_def split: sum.splits option.splits)
  from job_tbl.find_owned [OF this] show ?thesis .
qed

text \<open>A row that has been added is scored by its text, and the score is stored.\<close>

lemma rescore_new_row:
  assumes "db_ok (lw_db (fst w))" and "x \<in> set (resumes (lw_db (fst w)))" and "r_user x = u"
    and "j \<in> set (jobs (lw_db (fst w)))" and "j_user j = u"
  shows "snd (rescore N (Some u) x (j_id j) w) = x\<lparr>r_ats_score := Some (text_score N (or_empty (r_content_text x)) j)\<rparr>"
proof -
  let ?d = "lw_db (fst w)"
  have pk: "pk_ok ?d" using assms(1) by (simp add: db_ok_def)
  from score_resume_text [OF get_resume_present [OF pk assms(2,3)] get_job_present [OF pk assms(4,5)], of N]
  obtain s where s: "score_resume N (Some u) (r_id x) (j_id j) ?d = Inr s"
      "sr_overall s = text_score N (or_empty (r_content_text x)) j" by blast
  let ?rows = "update_where (\<lambda>r. r_id r = r_id x) (\<lambda>r. r\<lparr>r_ats_score := Some (sr_overall s)\<rparr>) (resumes ?d)"
  have "map r_id ?rows = map r_id (resumes ?d)" by (rule map_update_where) simp
  then have "distinct (map r_id ?rows)" using pk by (simp add: pk_ok_def)
  then have "db_ok (?d\<lparr>resumes := ?rows\<rparr>)"
    using db_ok_resumes [OF assms(1), where rs = ?rows and us = "llm_usages ?d"] by simp
  then show ?thesis using s by (simp add: rescore_def on_db_def set_ats_score_def commit_def)
qed

lemma optimize_for_row:
  assumes "db_ok (lw_db (fst w))" and "j \<in> set (jobs (lw_db (fst w)))" and "j_user j = u"
    and "optimize_for G N (Some u) u r j s doc_id new_id now w = (w', Inr resp)"
  shows "\<exists>pk dk. resp = resume_response_of ((optimized_row u r (j_id j) new_id now pk dk)
      \<lparr>r_ats_score := Some (text_score N (or_empty (r_content_text r)) j)\<rparr>)"
proof -
  let ?row = "optimized_row u r (j_id j) new_id now"
  obtain client where client: "build_llm_client_for_user (ge_lib G) (ge_settings G) (ge_secrets G) u (lw_db (fst w)) = Inr client"
    using assms(4) by (cases "build_llm_client_for_user (ge_lib G) (ge_settings G) (ge_secrets G) u (lw_db (fst w))")
      (simp_all add: optimize_for_def)
  let ?body = "or_empty (r_content_text r)"
  let ?hints = "optimizer_suggestions N s ?body (j_description j)"
  let ?llm = "client_structured client (de_schema (ge_doc G)) (de_parse (ge_doc G))
      (ge_optimize_prompt G ?body (j_description j) s ?hints) (ge_optimize_system G) ''ats_optimize''"
  obtain l out where l: "?llm (fst w) = (l, out)" by (metis surj_pair)
  obtain us where us: "lw_db l = lw_db (fst w)\<lparr>llm_usages := us\<rparr>" using client_structured_db [OF assms(1) l] by blast
  have lok: "db_ok (lw_db (fst (l, snd w)))" using assms(1) by (simp add: us db_ok_def pk_ok_def uq_shared_def)
  show ?thesis
  proof (cases out)
    case (Inl e)
    with assms(4) client l show ?thesis by (simp add: optimize_for_def on_llm_def Let_def)
  next
    case (Inr data)
    obtain w2 y where g: "store_generated G None data [] (r_template_id r) [''pdf'', ''docx''] doc_id u ?row (l, snd w) = (w2, y)"
      by (metis surj_pair)
    show ?thesis
    proof (cases y)
      case (Inl e)
      with assms(4) client l Inr g show ?thesis by (simp add: optimize_for_def on_llm_def Let_def)
    next
      case y: (Inr x)
      from store_generated_db [OF lok g [unfolded y]] obtain pk dk us' where x: "x = ?row pk dk" "db_ok (lw_db (fst w2))"
          "lw_db (fst w2) = lw_db l\<lparr>resumes := resumes (lw_db l) @ [?row pk dk], llm_usages := us'\<rparr>" by auto
      have "snd (rescore N (Some u) x (j_id j) w2) = x\<lparr>r_ats_score := Some (text_score N (or_empty (r_content_text x)) j)\<rparr>"
        by (rule rescore_new_row [OF x(2) _ _ _ assms(3)]) (use assms(2) in \<open>simp_all add: x us optimized_row_def\<close>)
      moreover have "or_empty (r_content_text x) = ?body" by (simp add: x(1) optimized_row_def)
      moreover have "resp = resume_response_of (snd (rescore N (Some u) x (j_id j) w2))"
        using assms(4) client l Inr g y by (auto simp: optimize_for_def on_llm_def Let_def split: prod.splits)
      ultimately show ?thesis using x(1) by auto
    qed
  qed
qed

text \<open>
  optimisation never changes the score. The optimised row keeps the original's text, so the score that is
  computed for it again is the original's score for the job, whatever the language model has written.
\<close>

theorem optimize_keeps_score:
  assumes "db_ok (lw_db (fst w))"
    and "optimize_resume G N (Some user) rid user job_id doc_id new_id now w = (w', Inr resp)"
  shows "\<exists>jid s. score_resume N (Some user) rid jid (lw_db (fst w)) = Inr s \<and> rr_job resp = Some jid
    \<and> rr_ats_score resp = Some (sr_overall s) \<and> rr_base resp = Some rid \<and> rr_type resp = OPTIMIZED"
proof -
  let ?d = "lw_db (fst w)"
  obtain r where r: "get_resume (Some user) rid ?d = Inr r"
    using assms(2) by (cases "get_resume (Some user) rid ?d") (simp_all add: optimize_resume_def)
  let ?jid = "or_empty (optimize_target job_id r)"
  have t: "truthy (optimize_target job_id r)"
    using assms(2) r by (auto simp: optimize_resume_def Let_def split: if_splits)
  obtain j where j: "get_job_row (Some user) ?jid ?d = Inr j"
    using assms(2) r t by (cases "get_job_row (Some user) ?jid ?d") (simp_all add: optimize_resume_def Let_def)
  from score_resume_text [OF r j, of N] obtain s where s: "score_resume N (Some user) rid ?jid ?d = Inr s"
      "sr_overall s = text_score N (or_empty (r_content_text r)) j" by blast
  have "optimize_for G N (Some user) user r j s doc_id new_id now w = (w', Inr resp)"
    using assms(2) r t j s(1) by (simp add: optimize_resume_def Let_def)
  from optimize_for_row [OF assms(1) _ _ this] get_job_owned [OF j]
  obtain pk dk where "resp = resume_response_of ((optimized_row user r (j_id j) new_id now pk dk)
      \<lparr>r_ats_score := Some (text_score N (or_empty (r_content_text r)) j)\<rparr>)" by blast
  then have "rr_job resp = Some ?jid \<and> rr_ats_score resp = Some (sr_overall s) \<and> rr_base resp = Some rid \<and> rr_type resp = OPTIMIZED"
    using get_job_owned [OF j] get_resume_owned [OF r] s(2) by (simp add: resume_response_of_def optimized_row_def)
  with s(1) show ?thesis by blast
qed

text \<open>A concrete run: a model that always answers, and a parser that takes any answer.\<close>

lemma structured_answer:
  assumes "\<And>n rq. acompletion (cl_lib c) n rq = Inr cmp" and "cp_choices cmp = [Some x]" and "parse x = Inr y"
  shows "\<exists>l. client_structured c schema parse p s q w = (l, Inr y)"
proof -
  let ?a = "\<lparr>ca_prompt = p, ca_system = structured_system s schema, ca_model = None, ca_temperature = None,
      ca_max_tokens = None, ca_format = Some ''json_object'', ca_purpose = q\<rparr>"
  obtain m ms where chain: "get_model_chain (cl_settings c) (cl_creds c) (ca_model ?a) = m # ms"
    by (metis get_model_chain_nonempty neq_Nil_conv)
  have out: "\<exists>r. outcome (cl_lib c) (cl_settings c) (cl_creds c) ?a 0 m = Inr r \<and> lr_content r = x"
    using assms(1,2) by (simp add: outcome_def Let_def)
  then obtain r where r: "outcome (cl_lib c) (cl_settings c) (cl_creds c) ?a 0 m = Inr r" "lr_content r = x" by blast
  obtain l where "try_model (cl_lib c) (cl_settings c) (cl_creds c) (cl_user c) ?a 0 m w = (l, Inr r)"
    using try_model_outcome [of "cl_lib c" "cl_settings c" "cl_creds c" "cl_user c" ?a 0 m w] r(1) by (metis prod.collapse)
  then have "complete_call (cl_lib c) (cl_settings c) (cl_creds c) (cl_user c) ?a w = (l, Inr r)"
    by (simp add: complete_call_cases chain [simplified])
  then show ?thesis using r(2) assms(3)
    by (simp add: client_structured_def complete_with_structured_output_def)
qed

definition answering_litellm :: litellm where
  "answering_litellm = sample_litellm\<lparr>acompletion := (\<lambda>_ _. Inr \<lparr>cp_usage = None, cp_choices = [Some ''ok'']\<rparr>)\<rparr>"

definition answering_env :: gen_env where
  "answering_env = \<lparr>ge_doc = sample_env\<lparr>de_parse := (\<lambda>_. Inr sample_resume)\<rparr>, ge_lib = answering_litellm,
     ge_settings = sample_llm_settings, ge_secrets = local_api sample_fernet [''k1''], ge_root = [''data''],
     ge_optimize_prompt = (\<lambda>a b c d. a), ge_optimize_system = ''optimize''\<rparr>"

definition resume_world :: rworld where
  "resume_world = (\<lparr>lw_db = resume_db, lw_samples = [], lw_sent = []\<rparr>, sample_fs)"

lemma sample_client:
  "build_llm_client_for_user (ge_lib answering_env) (ge_settings answering_env) (ge_secrets answering_env) ''u1'' resume_db
     = Inr \<lparr>cl_lib = answering_litellm, cl_settings = sample_llm_settings, cl_creds = None, cl_user = Some ''u1''\<rparr>"
  by (simp add: build_llm_client_for_user_def get_llm_key_def get_credential_def credential_row_def answering_env_def
      resume_db_def scored_db_def sample_db_def empty_db_def)

lemma sample_store:
  assumes "generate_resume_doc (ge_doc answering_env) client r jd t fs ''d1'' l = (l', Inr \<lparr>gd_id = ''d1'',
      gd_type = ''resume'', gd_template = t, gd_pdf = None, gd_docx = Some b\<rparr>)"
    and "db_ok (lw_db l')" and "\<And>pk dk. r_id (row pk dk) \<notin> r_id ` set (resumes (lw_db l'))"
  shows "\<exists>w' x. store_generated answering_env client r jd t fs ''d1'' ''u1'' row (l, sample_fs) = (w', Inr x)"
proof -
  have p: "\<exists>f. persist_generated_document [''data''] ''u1'' \<lparr>gd_id = ''d1'', gd_type = ''resume'', gd_template = t,
      gd_pdf = None, gd_docx = Some b\<rparr> sample_fs = (f, Inr (None, Some ''users/u1/resumes/d1.docx''))"
    by (simp add: persist_generated_document_def put_rendered_def doc_key_def resume_key_def
        service_put_def local_put_def local_path_def resolve_path_def path_str_def has_prefix_def tenant_check_def
        user_prefix_def parents_def is_file_def sample_fs_def Let_def)
  then obtain f where f: "persist_generated_document (ge_root answering_env) ''u1'' \<lparr>gd_id = ''d1'', gd_type = ''resume'',
      gd_template = t, gd_pdf = None, gd_docx = Some b\<rparr> sample_fs = (f, Inr (None, Some ''users/u1/resumes/d1.docx''))"
    by (auto simp: answering_env_def)
  have "distinct (map r_id (resumes (lw_db l')))" using assms(2) by (simp add: db_ok_def pk_ok_def)
  then have "db_ok (lw_db l'\<lparr>resumes := resumes (lw_db l') @ [row None (Some ''users/u1/resumes/d1.docx'')]\<rparr>)"
    using db_ok_resumes [OF assms(2), where us = "llm_usages (lw_db l')"
        and rs = "resumes (lw_db l') @ [row None (Some ''users/u1/resumes/d1.docx'')]"] assms(3) by simp
  then show ?thesis using assms(1) f
    by (simp add: store_generated_def on_llm_def on_fs_def on_db_def insert_resume_def commit_def)
qed

theorem optimize_keeps_score_witness:
  "\<exists>resp jid s. snd (optimize_resume answering_env None (Some ''u1'') ''r1'' ''u1'' (Some ''j1'') ''d1'' ''r2'' 9 resume_world) = Inr resp
     \<and> score_resume None (Some ''u1'') ''r1'' jid resume_db = Inr s \<and> rr_ats_score resp = Some (sr_overall s)"
proof -
  have d: "lw_db (fst resume_world) = resume_db" "snd resume_world = sample_fs" by (simp_all add: resume_world_def)
  have r: "get_resume (Some ''u1'') ''r1'' resume_db = Inr readable_resume"
    by (simp add: get_resume_def find_row_def resume_db_def readable_resume_def)
  have j: "get_job_row (Some ''u1'') ''j1'' resume_db = Inr sample_job"
    by (simp add: get_job_row_def find_row_def resume_db_def scored_db_def sample_db_def sample_job_def)
  obtain s where s: "score_resume None (Some ''u1'') ''r1'' ''j1'' resume_db = Inr s" using score_resume_text [OF r j] by blast
  let ?c = "\<lparr>cl_lib = answering_litellm, cl_settings = sample_llm_settings, cl_creds = None, cl_user = Some ''u1''\<rparr>"
  have ans: "\<exists>l. client_structured ?c (de_schema (ge_doc answering_env)) (de_parse (ge_doc answering_env)) p q v w = (l, Inr sample_resume)"
    for p q v w by (rule structured_answer [where x = "''ok''" and cmp = "\<lparr>cp_usage = None, cp_choices = [Some ''ok'']\<rparr>"]) (simp_all add: answering_litellm_def answering_env_def)
  let ?body = "or_empty (r_content_text readable_resume)"
  obtain l where l: "client_structured ?c (de_schema (ge_doc answering_env)) (de_parse (ge_doc answering_env))
      (ge_optimize_prompt answering_env ?body (j_description sample_job) s (optimizer_suggestions None s ?body (j_description sample_job)))
      (ge_optimize_system answering_env) ''ats_optimize'' (fst resume_world) = (l, Inr sample_resume)" using ans by blast
  have ok: "db_ok (lw_db (fst resume_world))" by (simp add: d resume_db_ok)
  from client_structured_db [OF ok l] obtain us where us: "lw_db l = resume_db\<lparr>llm_usages := us\<rparr>" by (auto simp: d)
  have gen: "\<exists>b. generate_resume_doc (ge_doc answering_env) None sample_resume [] t [''pdf'', ''docx''] ''d1'' l = (l, Inr \<lparr>gd_id = ''d1'',
      gd_type = ''resume'', gd_template = t, gd_pdf = None, gd_docx = Some b\<rparr>)" for t
    by (simp add: generate_resume_doc_def default_formats_def rendered_def collect_doc_def answering_env_def sample_env_def)
  have lok: "db_ok (lw_db l)" using resume_db_ok by (simp add: us db_ok_def pk_ok_def uq_shared_def)
  obtain b where b: "generate_resume_doc (ge_doc answering_env) None sample_resume [] (r_template_id readable_resume) [''pdf'', ''docx''] ''d1'' l
      = (l, Inr \<lparr>gd_id = ''d1'', gd_type = ''resume'', gd_template = r_template_id readable_resume, gd_pdf = None, gd_docx = Some b\<rparr>)"
    using gen by blast
  obtain w' x where g: "store_generated answering_env None sample_resume [] (r_template_id readable_resume) [''pdf'', ''docx''] ''d1'' ''u1''
      (optimized_row ''u1'' readable_resume (j_id sample_job) ''r2'' 9) (l, sample_fs) = (w', Inr x)"
    using sample_store [OF b lok] by (force simp: us resume_db_def readable_resume_def optimized_row_def)
  have "\<exists>w2 resp. optimize_resume answering_env None (Some ''u1'') ''r1'' ''u1'' (Some ''j1'') ''d1'' ''r2'' 9 resume_world = (w2, Inr resp)"
    by (simp add: optimize_resume_def optimize_for_def optimize_target_def d r j s sample_client Let_def on_llm_def l g split: prod.split)
  then obtain w2 resp where opt: "optimize_resume answering_env None (Some ''u1'') ''r1'' ''u1'' (Some ''j1'') ''d1'' ''r2'' 9 resume_world = (w2, Inr resp)"
    by blast
  from optimize_keeps_score [OF ok opt] obtain jid s' where "score_resume None (Some ''u1'') ''r1'' jid resume_db = Inr s'"
      "rr_ats_score resp = Some (sr_overall s')" by (auto simp: d)
  with opt show ?thesis by (intro exI [of _ resp] exI [of _ jid] exI [of _ s']) simp
qed

text \<open>
  a tailored resume scores as its base. It stores the base's text, so for every job its score is the
  base's, whatever the language model has written.
\<close>

theorem tailored_scores_as_base:
  assumes "db_ok (lw_db (fst w))"
    and "generate_tailored_resume G (Some u) rq u doc_id new_id now w = (w', Inr resp)"
  shows "map_sum id sr_overall (score_resume N (Some u) (rr_id resp) jid (lw_db (fst w')))
      = map_sum id sr_overall (score_resume N (Some u) (gr_base rq) jid (lw_db (fst w')))
    \<and> rr_base resp = Some (gr_base rq) \<and> rr_job resp = Some (gr_job rq) \<and> rr_type resp = TAILORED"
proof -
  let ?d = "lw_db (fst w)" and ?d' = "lw_db (fst w')"
  obtain base where base: "get_resume (Some u) (gr_base rq) ?d = Inr base"
    using assms(2) by (cases "get_resume (Some u) (gr_base rq) ?d") (simp_all add: generate_tailored_resume_def)
  define row where "row = (\<lambda>pk dk. \<lparr>r_id = new_id, r_user = u, r_name = ''Tailored - '' @ r_name base,
      r_type = TAILORED, r_template_id = gr_template rq, r_base_resume_id = Some (gr_base rq),
      r_job_id = Some (gr_job rq), r_file_path_pdf = pk, r_file_path_docx = dk,
      r_ats_score = None, r_content_text = r_content_text base, r_created_at = now\<rparr>)"
  obtain client r jd x where g: "store_generated G client r jd (gr_template rq) (gr_formats rq) doc_id u row w = (w', Inr x)"
      "resp = resume_response_of x"
    using assms(2) base by (auto simp: generate_tailored_resume_def row_def split: sum.splits prod.splits)
  from store_generated_db [OF assms(1) g(1)] obtain pk dk us where x: "x = row pk dk" "db_ok ?d'"
      "?d' = ?d\<lparr>resumes := resumes ?d @ [row pk dk], llm_usages := us\<rparr>" by auto
  have pk: "pk_ok ?d'" using x(2) by (simp add: db_ok_def)
  have b: "base \<in> set (resumes ?d)" "r_user base = u" "r_id base = gr_base rq" using get_resume_owned [OF base] by auto
  have own: "get_resume (Some u) (gr_base rq) ?d' = Inr base"
    using get_resume_present [OF pk, of base u] b by (simp add: x(3))
  have new: "get_resume (Some u) (rr_id resp) ?d' = Inr (row pk dk)"
    using get_resume_present [OF pk, of "row pk dk" u] by (simp add: x(1,3) g(2) resume_response_of_def row_def)
  have same: "r_content_text (row pk dk) = r_content_text base" by (simp add: row_def)
  have "map_sum id sr_overall (score_resume N (Some u) (rr_id resp) jid ?d')
      = map_sum id sr_overall (score_resume N (Some u) (gr_base rq) jid ?d')"
  proof (cases "get_job_row (Some u) jid ?d'")
    case (Inl e)
    then show ?thesis by (simp add: score_resume_def own new)
  next
    case (Inr j)
    from score_resume_text [OF own Inr, of N] score_resume_text [OF new Inr, of N] show ?thesis by (auto simp: same)
  qed
  then show ?thesis by (simp add: g(2) x(1) row_def resume_response_of_def)
qed

definition sample_generate :: generate_request where
  "sample_generate = \<lparr>gr_base = ''r1'', gr_job = ''j1'', gr_template = ''modern'', gr_formats = []\<rparr>"

lemma sample_generates:
  "\<exists>b. generate_resume_doc (ge_doc answering_env) c data [] t [] ''d1'' l = (l, Inr \<lparr>gd_id = ''d1'',
      gd_type = ''resume'', gd_template = t, gd_pdf = None, gd_docx = Some b\<rparr>)"
proof -
  have fs: "default_formats [] = [''pdf'', ''docx'']" by (simp add: default_formats_def)
  have pdf: "rendered [''pdf'', ''docx''] ''pdf'' (de_pdf (ge_doc answering_env) t data) = None"
    by (simp add: rendered_def answering_env_def sample_env_def)
  obtain b where docx: "rendered [''pdf'', ''docx''] ''docx'' (de_docx (ge_doc answering_env) (docx_resume data)) = Some b"
    by (simp add: rendered_def answering_env_def sample_env_def)
  have ctx: "(case c of None \<Rightarrow> (l, data) | Some c \<Rightarrow> if [] = [] then (l, data) else tailor_resume E c data [] l) = (l, data)" for E
    by (simp split: option.split)
  show ?thesis unfolding generate_resume_doc_def Let_def fs ctx prod.case pdf docx
    by (simp add: collect_doc_def)
qed

theorem tailored_scores_as_base_witness:
  "\<exists>w' resp. generate_tailored_resume answering_env (Some ''u1'') sample_generate ''u1'' ''d1'' ''r2'' 9 resume_world = (w', Inr resp)
     \<and> map_sum id sr_overall (score_resume None (Some ''u1'') (rr_id resp) ''j1'' (lw_db (fst w')))
       = map_sum id sr_overall (score_resume None (Some ''u1'') ''r1'' ''j1'' (lw_db (fst w')))"
proof -
  let ?l = "fst resume_world"
  have d: "lw_db ?l = resume_db" "resume_world = (?l, sample_fs)" by (simp_all add: resume_world_def)
  have r: "get_resume (Some ''u1'') ''r1'' resume_db = Inr readable_resume"
    by (simp add: get_resume_def find_row_def resume_db_def readable_resume_def)
  have j: "get_job_row (Some ''u1'') ''j1'' resume_db = Inr sample_job" "j_description sample_job = []"
    by (simp_all add: get_job_row_def find_row_def resume_db_def scored_db_def sample_db_def sample_job_def)
  have ok: "db_ok (lw_db ?l)" by (simp add: d(1) resume_db_ok)
  have "\<exists>w' x. store_generated answering_env c data [] t [] ''d1'' ''u1'' row (?l, sample_fs) = (w', Inr x)"
    if "\<And>pk dk. r_id (row pk dk) = ''r2''" for c data t row
  proof -
    obtain b where b: "generate_resume_doc (ge_doc answering_env) c data [] t [] ''d1'' ?l = (?l, Inr \<lparr>gd_id = ''d1'',
        gd_type = ''resume'', gd_template = t, gd_pdf = None, gd_docx = Some b\<rparr>)" using sample_generates by blast
    show ?thesis by (rule sample_store [OF b ok]) (simp add: that d(1) resume_db_def readable_resume_def)
  qed
  note store = this
  let ?client = "\<lparr>cl_lib = answering_litellm, cl_settings = sample_llm_settings, cl_creds = None, cl_user = Some ''u1''\<rparr>"
  let ?row = "\<lambda>pk dk. \<lparr>r_id = ''r2'', r_user = ''u1'', r_name = ''Tailored - '' @ r_name readable_resume,
      r_type = TAILORED, r_template_id = ''modern'', r_base_resume_id = Some ''r1'',
      r_job_id = Some ''j1'', r_file_path_pdf = pk, r_file_path_docx = dk,
      r_ats_score = None, r_content_text = r_content_text readable_resume, r_created_at = 9\<rparr>"
  obtain w' x where g: "store_generated answering_env (Some ?client) (build_resume_data (or_empty (r_content_text readable_resume)))
      [] ''modern'' [] ''d1'' ''u1'' ?row (?l, sample_fs) = (w', Inr x)"
    using store [of ?row "Some ?client" "build_resume_data (or_empty (r_content_text readable_resume))" "''modern''"] by auto
  have "generate_tailored_resume answering_env (Some ''u1'') sample_generate ''u1'' ''d1'' ''r2'' 9 (?l, sample_fs)
      = (w', Inr (resume_response_of x))"
    by (simp add: generate_tailored_resume_def sample_generate_def d(1) r j sample_client g [simplified])
  then obtain resp where run: "generate_tailored_resume answering_env (Some ''u1'') sample_generate ''u1'' ''d1'' ''r2'' 9 resume_world = (w', Inr resp)"
    using d(2) by metis
  from tailored_scores_as_base [OF ok run, of None "''j1''"] run show ?thesis by (simp add: sample_generate_def)
qed

text \<open>
  an accepted upload comes back. The route takes only PDF and Word files of at most 10 MB, stores the bytes
  under the user's prefix and records them, so that downloading the new resume returns exactly the uploaded
  bytes; the name offered repeats the extension, as the stored name already ends in it.
\<close>

theorem upload_download_round_trip:
  assumes "db_ok (lw_db (fst w))" and "simple_id user" and "CHR ''/'' \<notin> set file_id"
    and "upload_route E N filename content_type content user file_id new_id now w = (w', Inr resp)"
  shows "download_resume (ue_root E) user (ur_id resp) (ur_format resp) w'
      = Inr (content, or_empty filename @ CHR ''.'' # ur_format resp)
    \<and> ur_format resp \<in> {''pdf'', ''docx''} \<and> length content \<le> MAX_UPLOAD_SIZE"
proof -
  let ?ext = "lower (path_suffix (or_empty filename))" and ?rt = "ue_root E"
  have ext: "?ext \<in> {''.pdf'', ''.docx''}" and size: "length content \<le> MAX_UPLOAD_SIZE"
    using assms(4) by (auto simp: upload_route_def Let_def split: if_splits)
  have "path_suffix [] = []" by (simp add: path_suffix_def)
  then have name: "truthy filename" using ext by (cases filename) (auto simp: lower_def)
  obtain fmt where fmt: "lstrip_chars ''.'' ?ext = fmt" "fmt \<in> {''pdf'', ''docx''}" "?ext = CHR ''.'' # fmt"
    using ext that [of "''pdf''"] that [of "''docx''"] by (auto simp: lstrip_chars_def)
  let ?key = "upload_key user file_id fmt"
  have e: "CHR ''/'' \<notin> set fmt" "2 \<le> length fmt" using fmt(2) by auto
  have key: "?key = user_prefix user @ CHR ''/'' # ''uploads'' @ CHR ''/'' # file_id @ CHR ''.'' # fmt" by (simp add: upload_key_def)
  have clean: "clean_key ?key" by (rule document_key_path(1) [OF assms(2,3) e _ key]) simp
  define row where "row = (\<lambda>body. \<lparr>r_id = new_id, r_user = user, r_name = or_empty filename, r_type = BASE,
      r_template_id = ''modern'', r_base_resume_id = None, r_job_id = None,
      r_file_path_pdf = (if ?ext = ''.pdf'' then Some ?key else None),
      r_file_path_docx = (if ?ext = ''.docx'' then Some ?key else None), r_ats_score = None,
      r_content_text = Some (take 5000 body), r_created_at = now\<rparr>)"
  obtain w1 where up: "upload_resume E N filename content user file_id new_id now w = (w1, Inr resp)" "w' = w1"
    using assms(4) by (auto simp: upload_route_def Let_def split: if_splits prod.splits sum.splits)
  from up(1) obtain f obj ct body where put: "service_put ?rt user ?key content ct (snd w) = (f, Inr obj)"
      and db: "on_db (insert_resume (row body)) (fst w, f) = (w1, Inr ())"
      and resp: "ur_id resp = new_id" "ur_format resp = fmt"
    using name fmt unfolding row_def by (auto simp: upload_resume_def Let_def split: prod.splits sum.splits)
  have d: "lw_db (fst w1) = lw_db (fst w)\<lparr>resumes := resumes (lw_db (fst w)) @ [row body]\<rparr>" "db_ok (lw_db (fst w1))" "snd w1 = f"
    using db by (auto simp: on_db_def insert_resume_def commit_def split: if_splits)
  have "pk_ok (lw_db (fst w1))" using d(2) by (simp add: db_ok_def)
  then have got: "get_resume (Some user) new_id (lw_db (fst w1)) = Inr (row body)"
    using get_resume_present [of "lw_db (fst w1)" "row body" user] by (simp add: d(1) row_def)
  have stored: "service_materialize ?rt user ?key f = Inr content"
    using service_put_reads(1) [OF assms(2) clean put] by (simp add: service_materialize_def service_get_def)
  have "?key \<noteq> []" by (simp add: upload_key_def user_prefix_def)
  then have "download_resume ?rt user new_id fmt w1 = Inr (content, or_empty filename @ CHR ''.'' # fmt)"
    using fmt(2,3) stored by (auto simp: download_resume_def got d(3) Let_def) (auto simp: row_def)
  then show ?thesis using up(2) resp fmt(2) size by simp
qed

definition sample_upload :: upload_env where
  "sample_upload = \<lparr>ue_extract = (\<lambda>_ _. Inl ''no library''), ue_decode = id, ue_root = [''data'']\<rparr>"

theorem upload_download_round_trip_witness:
  "\<exists>w' resp. upload_route sample_upload None (Some ''cv.pdf'') None ''bytes'' ''u1'' ''f1'' ''r9'' 5 resume_world = (w', Inr resp)
     \<and> download_resume [''data''] ''u1'' (ur_id resp) (ur_format resp) w' = Inr (''bytes'', ''cv.pdf.'' @ ur_format resp)"
proof -
  have sfx: "lower (path_suffix ''cv.pdf'') = ''.pdf''" by code_simp
  have key: "upload_key ''u1'' ''f1'' (lstrip_chars ''.'' ''.pdf'') = ''users/u1/uploads/f1.pdf''" by code_simp
  have "\<exists>f obj. service_put [''data''] ''u1'' ''users/u1/uploads/f1.pdf'' ''bytes'' PDF_CONTENT_TYPE sample_fs = (f, Inr obj)"
    by (simp add: service_put_def local_put_def local_path_def resolve_path_def path_str_def has_prefix_def tenant_check_def
        user_prefix_def parents_def is_file_def sample_fs_def Let_def)
  then obtain f obj where put: "service_put [''data''] ''u1'' ''users/u1/uploads/f1.pdf'' ''bytes'' PDF_CONTENT_TYPE sample_fs = (f, Inr obj)"
    by blast
  have fresh: "\<exists>w1. on_db (insert_resume x) (fst resume_world, f) = (w1, Inr ())" if "r_id x = ''r9''" for x
    using db_ok_resumes [OF resume_db_ok, where us = "llm_usages resume_db" and rs = "resumes resume_db @ [x]"] that
    by (simp add: on_db_def insert_resume_def commit_def resume_world_def resume_db_def readable_resume_def)
  have ok: "db_ok (lw_db (fst resume_world))" by (simp add: resume_world_def resume_db_ok)
  have fs: "snd resume_world = sample_fs" by (simp add: resume_world_def)
  have "\<exists>w' resp. upload_resume sample_upload None (Some ''cv.pdf'') ''bytes'' ''u1'' ''f1'' ''r9'' 5 resume_world = (w', Inr resp)"
    unfolding upload_resume_def Let_def
    by (simp add: sfx key fs sample_upload_def put [simplified] split: prod.split sum.split)
      (metis fresh old.sum.distinct(1) prod.inject resume.select_convs(1))
  then obtain w' resp where "upload_route sample_upload None (Some ''cv.pdf'') None ''bytes'' ''u1'' ''f1'' ''r9'' 5 resume_world = (w', Inr resp)"
    by (auto simp: upload_route_def sfx MAX_UPLOAD_SIZE_def)
  moreover from upload_download_round_trip [OF ok _ _ this]
  have "download_resume [''data''] ''u1'' (ur_id resp) (ur_format resp) w' = Inr (''bytes'', ''cv.pdf.'' @ ur_format resp)"
    by (simp add: simple_id_def sample_upload_def)
  ultimately show ?thesis by blast
qed

end
