(* ===== verification/Platforms.thy ===== *)
theory Platforms
  imports Errors
begin

text \<open>
  The job platforms (\<^verbatim>\<open>core/automation/platforms/\<close>): the listing model, the registry, and the LinkedIn,
  Indeed and Glassdoor integrations, with the browser agent they run
  (\<^verbatim>\<open>core/automation/agent.py\<close>) and the session files (\<^verbatim>\<open>core/automation/session_manager.py\<close>).
  The packages browser-use and langchain-openai, \<^verbatim>\<open>json.loads\<close> and the field validation of pydantic are
  parameters. The state is the tasks run, the browsers that are open, and the session files; failures of
  the file system are not modelled.
\<close>

section \<open>JSON values\<close>

datatype jvalue =
    JNull
  | JBool bool
  | JInt int
  | JFloat real
  | JStr str
  | JList "jvalue list"
  | JDict "(str \<times> jvalue) list"

definition json_get :: "(str \<times> jvalue) list \<Rightarrow> str \<Rightarrow> jvalue \<Rightarrow> jvalue" where
  "json_get d k x = (case map_of d k of None \<Rightarrow> x | Some v \<Rightarrow> v)"

fun json_truthy :: "jvalue \<Rightarrow> bool" where
  "json_truthy JNull = False"
| "json_truthy (JBool b) = b"
| "json_truthy (JInt n) = (n \<noteq> 0)"
| "json_truthy (JFloat x) = (x \<noteq> 0)"
| "json_truthy (JStr s) = (s \<noteq> [])"
| "json_truthy (JList xs) = (xs \<noteq> [])"
| "json_truthy (JDict d) = (d \<noteq> [])"

text \<open>Python's \<^verbatim>\<open>str(v)\<close>; \<open>rp\<close> renders floats and containers.\<close>

definition show_int :: "int \<Rightarrow> str" where
  "show_int n = (if n < 0 then CHR ''-'' # show_nat (nat (- n)) else show_nat (nat n))"

fun py_str :: "(jvalue \<Rightarrow> str) \<Rightarrow> jvalue \<Rightarrow> str" where
  "py_str rp JNull = ''None''"
| "py_str rp (JBool b) = (if b then ''True'' else ''False'')"
| "py_str rp (JInt n) = show_int n"
| "py_str rp (JStr s) = s"
| "py_str rp v = rp v"

section \<open>Listings (\<^verbatim>\<open>platforms/base.py\<close>)\<close>

record job_listing =
  jl_platform :: str
  jl_job_id :: str
  jl_title :: str
  jl_company :: str
  jl_location :: str
  jl_url :: str
  jl_description :: str
  jl_salary_min :: "real option"
  jl_salary_max :: "real option"
  jl_currency :: str
  jl_job_type :: str
  jl_remote :: bool
  jl_required :: "str list"
  jl_preferred :: "str list"

text \<open>
  What pydantic makes of a value for a field of type \<^verbatim>\<open>str\<close>, \<^verbatim>\<open>bool\<close>, \<^verbatim>\<open>float | None\<close> and \<^verbatim>\<open>list[str]\<close>: the
  field's value, or None for a validation error; with \<^verbatim>\<open>str\<close> of floats and containers, \<^verbatim>\<open>json.loads\<close>
  (None when it raises) and the message of a validation error.
\<close>

record pydantic =
  pv_str :: "jvalue \<Rightarrow> str option"
  pv_bool :: "jvalue \<Rightarrow> bool option"
  pv_float :: "jvalue \<Rightarrow> real option option"
  pv_strs :: "jvalue \<Rightarrow> str list option"
  pv_error :: str
  pv_repr :: "jvalue \<Rightarrow> str"
  pv_loads :: "str \<Rightarrow> jvalue option"

text \<open>Documented: strings, booleans and lists of strings pass unchanged, null is no string and no boolean.\<close>

definition pydantic_docs :: "pydantic \<Rightarrow> bool" where
  "pydantic_docs V \<longleftrightarrow> (\<forall>s. pv_str V (JStr s) = Some s) \<and> pv_str V JNull = None
     \<and> (\<forall>b. pv_bool V (JBool b) = Some b) \<and> pv_bool V JNull = None
     \<and> pv_float V JNull = Some None \<and> (\<forall>xs. pv_strs V (JList (map JStr xs)) = Some xs)"

text \<open>
  What \<^verbatim>\<open>Agent.run()\<close> returns: a plain value, or an \<^verbatim>\<open>AgentHistoryList\<close> with the outcome of its
  \<^verbatim>\<open>final_result()\<close> and its \<^verbatim>\<open>str()\<close>.
\<close>

datatype agent_result =
    PlainValue jvalue
  | HistoryList "exn + jvalue" str

definition result_str :: "pydantic \<Rightarrow> agent_result \<Rightarrow> str" where
  "result_str V r = (case r of PlainValue v \<Rightarrow> py_str (pv_repr V) v | HistoryList _ s \<Rightarrow> s)"

fun first_list :: "(str \<times> jvalue) list \<Rightarrow> jvalue list" where
  "first_list [] = []"
| "first_list ((k, v) # d) = (case v of JList xs \<Rightarrow> xs | _ \<Rightarrow> first_list d)"

definition agent_payload :: "agent_result \<Rightarrow> jvalue" where
  "agent_payload r =
     (case r of PlainValue v \<Rightarrow> v | HistoryList (Inr v) _ \<Rightarrow> v | HistoryList (Inl _) _ \<Rightarrow> JNull)"

definition coerce_agent_list :: "pydantic \<Rightarrow> agent_result \<Rightarrow> jvalue list" where
  "coerce_agent_list V r =
     (let p = agent_payload r;
          q = (case p of JStr s \<Rightarrow> (case pv_loads V s of Some v \<Rightarrow> v | None \<Rightarrow> p) | _ \<Rightarrow> p)
      in case q of JList xs \<Rightarrow> xs | JDict d \<Rightarrow> first_list d | _ \<Rightarrow> [])"

section \<open>Reading an agent's answer\<close>

definition validation_error :: "pydantic \<Rightarrow> exn" where
  "validation_error V = ValueError (pv_error V)"

definition listing_of_item :: "pydantic \<Rightarrow> str \<Rightarrow> (str \<times> jvalue) list \<Rightarrow> exn + job_listing" where
  "listing_of_item V platform d =
     (case (pv_str V (json_get d ''title'' (JStr [])), pv_str V (json_get d ''company'' (JStr [])),
            pv_str V (json_get d ''location'' (JStr [])), pv_str V (json_get d ''url'' (JStr [])),
            pv_bool V (json_get d ''remote'' (JBool False))) of
        (Some t, Some c, Some l, Some u, Some r) \<Rightarrow>
          Inr \<lparr>jl_platform = platform, jl_job_id = py_str (pv_repr V) (json_get d ''id'' (JStr [])),
               jl_title = t, jl_company = c, jl_location = l, jl_url = u, jl_description = [],
               jl_salary_min = None, jl_salary_max = None, jl_currency = ''USD'', jl_job_type = [],
               jl_remote = r, jl_required = [], jl_preferred = []\<rparr>
      | _ \<Rightarrow> Inl (validation_error V))"

text \<open>Items that are no objects are skipped; an object that does not validate ends the loop.\<close>

fun parse_items :: "pydantic \<Rightarrow> str \<Rightarrow> jvalue list \<Rightarrow> exn + job_listing list" where
  "parse_items V platform [] = Inr []"
| "parse_items V platform (JDict d # xs) =
     (case listing_of_item V platform d of
        Inl e \<Rightarrow> Inl e
      | Inr l \<Rightarrow> (case parse_items V platform xs of Inl e \<Rightarrow> Inl e | Inr ls \<Rightarrow> Inr (l # ls)))"
| "parse_items V platform (_ # xs) = parse_items V platform xs"

definition parse_search_results :: "pydantic \<Rightarrow> str \<Rightarrow> agent_result \<Rightarrow> exn + job_listing list" where
  "parse_search_results V platform r = parse_items V platform (coerce_agent_list V r)"

definition parse_job_details :: "pydantic \<Rightarrow> str \<Rightarrow> agent_result \<Rightarrow> str \<Rightarrow> exn + job_listing option" where
  "parse_job_details V platform r url =
     (case r of
        PlainValue (JDict d) \<Rightarrow>
          (case (pv_str V (json_get d ''title'' (JStr [])), pv_str V (json_get d ''company'' (JStr [])),
                 pv_str V (json_get d ''location'' (JStr [])), pv_str V (json_get d ''description'' (JStr [])),
                 pv_strs V (json_get d ''skills'' (JList [])), pv_float V (json_get d ''salary_min'' JNull),
                 pv_float V (json_get d ''salary_max'' JNull), pv_str V (json_get d ''job_type'' (JStr [])),
                 pv_bool V (json_get d ''remote'' (JBool False))) of
             (Some t, Some c, Some l, Some x, Some sk, Some lo, Some hi, Some jt, Some rm) \<Rightarrow>
               Inr (Some \<lparr>jl_platform = platform, jl_job_id = py_str (pv_repr V) (json_get d ''id'' (JStr [])),
                 jl_title = t, jl_company = c, jl_location = l, jl_url = url, jl_description = x,
                 jl_salary_min = lo, jl_salary_max = hi, jl_currency = ''USD'', jl_job_type = jt,
                 jl_remote = rm, jl_required = sk, jl_preferred = []\<rparr>)
           | _ \<Rightarrow> Inl (validation_error V))
      | _ \<Rightarrow> Inr None)"

section \<open>The browser agent\<close>

record agent_task =
  at_task :: str
  at_sensitive :: "(str \<times> str) list"

text \<open>
  browser-use and langchain-openai: whether they can be imported, whether the agent's constructor raises,
  the outcome of the n-th run, and whether the n-th closing of a browser raises.
\<close>

record browser_lib =
  bl_browser_use :: bool
  bl_langchain :: bool
  bl_make :: "agent_task \<Rightarrow> exn option"
  bl_run :: "nat \<Rightarrow> agent_task \<Rightarrow> exn + agent_result"
  bl_close :: "nat \<Rightarrow> exn option"

record pworld =
  pw_runs :: "agent_task list"
  pw_open :: "nat list"
  pw_made :: nat
  pw_closes :: nat
  pw_cookies :: "(str \<times> jvalue option) list"

definition close_browser :: "browser_lib \<Rightarrow> nat \<Rightarrow> (pworld, exn, unit) op" where
  "close_browser L b w =
     (let w' = w\<lparr>pw_closes := Suc (pw_closes w)\<rparr>
      in case bl_close L (pw_closes w) of
           Some e \<Rightarrow> (w', Inl e)
         | None \<Rightarrow> (w'\<lparr>pw_open := removeAll b (pw_open w)\<rparr>, Inr ()))"

text \<open>
  \<^verbatim>\<open>BrowserAgent.run\<close> for a new agent, with the agent's \<^verbatim>\<open>_browser\<close> afterwards. An exception of the closing
  in the \<^verbatim>\<open>finally\<close> clause replaces the outcome.
\<close>

definition agent_run ::
  "browser_lib \<Rightarrow> bool \<Rightarrow> agent_task \<Rightarrow> pworld \<Rightarrow> pworld \<times> nat option \<times> (exn + agent_result)" where
  "agent_run L keep_alive t w =
     (if \<not> bl_browser_use L then
        (w, None, Inl (BrowserError ''browser-use package not installed. Install with: pip install browser-use''))
      else
        (let b = pw_made w; w1 = w\<lparr>pw_made := Suc b, pw_open := pw_open w @ [b]\<rparr>
         in if \<not> bl_langchain L then
              (w1, Some b, Inl (BrowserError
                 ''langchain-openai package not installed. Install with: pip install langchain-openai''))
            else
              (case bl_make L t of
                 Some e \<Rightarrow> (w1, Some b, Inl e)
               | None \<Rightarrow>
                  (let w2 = w1\<lparr>pw_runs := pw_runs w1 @ [t]\<rparr>;
                       r = (case bl_run L (length (pw_runs w1)) t of
                              Inl e \<Rightarrow> Inl (BrowserError (exn_message e)) | Inr x \<Rightarrow> Inr x)
                   in if keep_alive then (w2, Some b, r)
                      else (case close_browser L b w2 of
                              (w3, Inl e) \<Rightarrow> (w3, Some b, Inl e) | (w3, Inr _) \<Rightarrow> (w3, Some b, r))))))"

definition agent_close :: "browser_lib \<Rightarrow> nat option \<Rightarrow> pworld \<Rightarrow> pworld" where
  "agent_close L b w = (case b of None \<Rightarrow> w | Some i \<Rightarrow> fst (close_browser L i w))"

text \<open>The pattern of the integrations: run, and close in a \<^verbatim>\<open>finally\<close> clause.\<close>

definition with_agent :: "browser_lib \<Rightarrow> bool \<Rightarrow> agent_task \<Rightarrow> (pworld, exn, agent_result) op" where
  "with_agent L keep_alive t w =
     (case agent_run L keep_alive t w of (w', b, r) \<Rightarrow> (agent_close L b w', r))"

section \<open>Session files\<close>

text \<open>A file is the JSON value it holds, or None when its text is no JSON.\<close>

definition has_session :: "str \<Rightarrow> pworld \<Rightarrow> bool" where
  "has_session p w \<longleftrightarrow> map_of (pw_cookies w) p \<noteq> None"

definition save_cookies :: "str \<Rightarrow> jvalue \<Rightarrow> pworld \<Rightarrow> pworld" where
  "save_cookies p v w = w\<lparr>pw_cookies := (p, Some v) # filter (\<lambda>x. fst x \<noteq> p) (pw_cookies w)\<rparr>"

definition clear_session :: "str \<Rightarrow> pworld \<Rightarrow> pworld" where
  "clear_session p w = w\<lparr>pw_cookies := filter (\<lambda>x. fst x \<noteq> p) (pw_cookies w)\<rparr>"

text \<open>The count that is logged needs a value with a length.\<close>

definition load_cookies :: "str \<Rightarrow> pworld \<Rightarrow> exn + jvalue option" where
  "load_cookies p w =
     (case map_of (pw_cookies w) p of
        Some (Some v) \<Rightarrow>
          (case v of JStr _ \<Rightarrow> Inr (Some v) | JList _ \<Rightarrow> Inr (Some v) | JDict _ \<Rightarrow> Inr (Some v)
           | _ \<Rightarrow> Inl (OtherError ''TypeError''))
      | _ \<Rightarrow> Inr None)"

section \<open>The integrations\<close>

record platform_texts =
  pt_name :: str
  pt_check :: str
  pt_login :: str
  pt_missing :: str
  pt_search_url :: "str \<Rightarrow> str \<Rightarrow> str"
  pt_search :: "str \<Rightarrow> str \<Rightarrow> str"
  pt_filters :: "pydantic \<Rightarrow> (str \<times> jvalue) list \<Rightarrow> str"
  pt_details :: "str \<Rightarrow> str"
  pt_apply :: "str \<Rightarrow> str \<Rightarrow> str option \<Rightarrow> str"

record browser_env =
  be_lib :: browser_lib
  be_keep_alive :: bool
  be_val :: pydantic

text \<open>The login: a saved session that the agent confirms is reused, anything else asks for a fresh login.\<close>

definition session_confirmed :: "browser_env \<Rightarrow> platform_texts \<Rightarrow> pworld \<Rightarrow> pworld \<times> bool" where
  "session_confirmed E P w =
     (if has_session (pt_name P) w then
        (case with_agent (be_lib E) (be_keep_alive E) \<lparr>at_task = pt_check P, at_sensitive = []\<rparr> w of
           (w', Inl _) \<Rightarrow> (w', False)
         | (w', Inr r) \<Rightarrow> (w', \<not> py_in ''NOT_LOGGED_IN'' (result_str (be_val E) r)))
      else (w, False))"

definition platform_login ::
  "browser_env \<Rightarrow> platform_texts \<Rightarrow> (str \<times> str) list \<Rightarrow> (pworld, exn, bool) op" where
  "platform_login E P credentials w =
     (case session_confirmed E P w of
        (w', True) \<Rightarrow> (w', Inr True)
      | (w', False) \<Rightarrow>
          if \<not> truthy (map_of credentials ''email'') \<or> \<not> truthy (map_of credentials ''password'')
          then (w', Inl (AuthenticationError (pt_name P) (pt_missing P)))
          else
            (case with_agent (be_lib E) (be_keep_alive E)
                    \<lparr>at_task = pt_login P,
                     at_sensitive = [(''x_username'', or_empty (map_of credentials ''email'')),
                                     (''x_password'', or_empty (map_of credentials ''password''))]\<rparr> w' of
               (w'', Inl e) \<Rightarrow> (w'', Inl (AuthenticationError (pt_name P) (exn_message e)))
             | (w'', Inr _) \<Rightarrow>
                 (save_cookies (pt_name P) (JList [JDict [(''logged_in'', JBool True)]]) w'', Inr True)))"

definition platform_search ::
  "browser_env \<Rightarrow> platform_texts \<Rightarrow> str \<Rightarrow> str \<Rightarrow> (str \<times> jvalue) list option \<Rightarrow> (pworld, exn, job_listing list) op" where
  "platform_search E P query location filters w =
     (case with_agent (be_lib E) (be_keep_alive E)
             \<lparr>at_task = pt_search P (pt_search_url P query location)
                (case filters of None \<Rightarrow> [] | Some f \<Rightarrow> pt_filters P (be_val E) f), at_sensitive = []\<rparr> w of
        (w', Inl e) \<Rightarrow> (w', Inl (SearchError (pt_name P) (exn_message e)))
      | (w', Inr r) \<Rightarrow>
          (case parse_search_results (be_val E) (pt_name P) r of
             Inl e \<Rightarrow> (w', Inl (SearchError (pt_name P) (exn_message e)))
           | Inr ls \<Rightarrow> (w', Inr ls)))"

definition platform_scrape_details ::
  "browser_env \<Rightarrow> platform_texts \<Rightarrow> str \<Rightarrow> (pworld, exn, job_listing option) op" where
  "platform_scrape_details E P job_url w =
     (case with_agent (be_lib E) (be_keep_alive E) \<lparr>at_task = pt_details P job_url, at_sensitive = []\<rparr> w of
        (w', Inl _) \<Rightarrow> (w', Inr None)
      | (w', Inr r) \<Rightarrow>
          (case parse_job_details (be_val E) (pt_name P) r job_url of
             Inl _ \<Rightarrow> (w', Inr None) | Inr l \<Rightarrow> (w', Inr l)))"

definition platform_apply ::
  "browser_env \<Rightarrow> platform_texts \<Rightarrow> job_listing \<Rightarrow> str \<Rightarrow> str option \<Rightarrow> (pworld, exn, bool) op" where
  "platform_apply E P job resume_path cover_letter_path w =
     (case with_agent (be_lib E) (be_keep_alive E)
             \<lparr>at_task = pt_apply P (jl_url job) resume_path cover_letter_path, at_sensitive = []\<rparr> w of
        (w', Inl e) \<Rightarrow> (w', Inl (ApplicationSubmissionError (pt_name P) (exn_message e)))
      | (w', Inr _) \<Rightarrow> (w', Inr True))"

section \<open>Texts of the platforms\<close>

text \<open>One instruction per filter that is present; \<^verbatim>\<open>remote\<close> must also be true. No filters give no text.\<close>

definition filter_text :: "pydantic \<Rightarrow> (str \<times> jvalue) list \<Rightarrow> str \<Rightarrow> str \<Rightarrow> str" where
  "filter_text V f k before =
     (case map_of f k of None \<Rightarrow> [] | Some v \<Rightarrow> before @ py_str (pv_repr V) v @ ''. '')"

definition remote_text :: "(str \<times> jvalue) list \<Rightarrow> str" where
  "remote_text f = (if json_truthy (json_get f ''remote'' JNull) then ''Filter for remote positions only. '' else [])"

definition linkedin_filters :: "pydantic \<Rightarrow> (str \<times> jvalue) list \<Rightarrow> str" where
  "linkedin_filters V f =
     filter_text V f ''date_posted'' ''Filter by date posted: ''
     @ filter_text V f ''experience_level'' ''Filter by experience level: ''
     @ remote_text f @ filter_text V f ''job_type'' ''Filter by job type: ''"

definition indeed_filters :: "pydantic \<Rightarrow> (str \<times> jvalue) list \<Rightarrow> str" where
  "indeed_filters V f =
     filter_text V f ''date_posted'' ''Filter by date posted: ''
     @ filter_text V f ''salary'' ''Filter by salary: '' @ filter_text V f ''job_type'' ''Filter by job type: ''
     @ filter_text V f ''experience_level'' ''Filter by experience level: '' @ remote_text f"

definition glassdoor_filters :: "pydantic \<Rightarrow> (str \<times> jvalue) list \<Rightarrow> str" where
  "glassdoor_filters V f =
     filter_text V f ''date_posted'' ''Filter by date posted: ''
     @ filter_text V f ''salary'' ''Filter by salary range: ''
     @ filter_text V f ''company_rating'' ''Filter by minimum company rating: ''
     @ filter_text V f ''job_type'' ''Filter by job type: '' @ remote_text f"

definition linkedin :: platform_texts where
  "linkedin =
     \<lparr>pt_name = ''linkedin'',
      pt_check = ''Navigate to https://www.linkedin.com/feed/. Check if the page shows a logged-in LinkedIn '' @
       ''feed. If the page redirects to a login form, report '' @ [CHR 39] @ ''NOT_LOGGED_IN'' @ [CHR 39] @
       ''. If the feed loads normally, report '' @ [CHR 39] @ ''LOGGED_IN'' @ [CHR 39] @ ''.'',
      pt_login = ''Go to https://www.linkedin.com/login and log in with the provided credentials. Enter '' @
       ''the username in the email field and the password in the password field, then click Sign '' @
       ''In. After login, verify you'' @ [CHR 39] @ ''re on the LinkedIn feed page.'',
      pt_missing = ''No active session found and no credentials provided. Either log in via your browser first '' @
       ''(Chrome profile reuse) or provide email/password.'',
      pt_search_url = (\<lambda>query location.
        ''https://www.linkedin.com/jobs/search/?keywords='' @ query @ (if location \<noteq> [] then ''&location='' @ location else [])),
      pt_search = (\<lambda>url filters.
        ''Navigate to '' @ url @ ''. '' @ filters @ ''Extract the first 20 job listings visible on the page. For each job, extract: the job '' @
       ''title, company name, location, the direct job URL, and whether it mentions remote work. '' @
       ''Return the results as a JSON array of objects with keys: id, title, company, location, '' @
       ''url, remote.''),
      pt_filters = linkedin_filters,
      pt_details = (\<lambda>job_url.
        ''Navigate to '' @ job_url @ ''. Extract the full job posting details: job title, company name, location, full job description '' @
       ''text, required skills or qualifications, salary range if displayed, job type (full-time/part-time/contract), '' @
       ''and whether it'' @ [CHR 39] @
       ''s remote. Return the data as a JSON object with keys: id, title, company, location, description, '' @
       ''skills, salary_min, salary_max, job_type, remote.''),
      pt_apply = (\<lambda>job_url resume_path cover_letter.
        ''Navigate to '' @ job_url @ ''. Click the '' @ [CHR 39] @ ''Easy Apply'' @ [CHR 39] @
       '' button if available. Fill out the application form step by step. Upload the resume from '' @
       [CHR 39] @ resume_path @ [CHR 39] @ ''. ''
        @ (if truthy cover_letter then ''Upload the cover letter from '' @ [CHR 39] @ or_empty cover_letter @ [CHR 39] @ ''. '' else [])
        @ ''Complete all required fields in the application. Review and submit the application. Confirm '' @
       ''the submission was successful.'')\<rparr>"

definition indeed :: platform_texts where
  "indeed =
     \<lparr>pt_name = ''indeed'',
      pt_check = ''Navigate to https://www.indeed.com/. Check if the page shows a logged-in Indeed account. '' @
       ''If the page shows a sign-in prompt, report '' @ [CHR 39] @ ''NOT_LOGGED_IN'' @ [CHR 39] @
       ''. If the account is active, report '' @ [CHR 39] @ ''LOGGED_IN'' @ [CHR 39] @ ''.'',
      pt_login = ''Go to https://secure.indeed.com/account/login and log in with the provided credentials. '' @
       ''Enter the email address, click Continue, then enter the password and sign in. After login, '' @
       ''verify you'' @ [CHR 39] @ ''re on the Indeed home or jobs page.'',
      pt_missing = ''No active session and no credentials provided.'',
      pt_search_url = (\<lambda>query location.
        ''https://www.indeed.com/jobs?q='' @ query @ (if location \<noteq> [] then ''&l='' @ location else [])),
      pt_search = (\<lambda>url filters.
        ''Navigate to '' @ url @ ''. '' @ filters @ ''Extract the first 20 job listings visible on the page. For each job, extract: the job '' @
       ''title, company name, location, the direct job URL, salary if shown, and whether it mentions '' @
       ''remote work. Return the results as a JSON array of objects with keys: id, title, company, '' @
       ''location, url, salary, remote.''),
      pt_filters = indeed_filters,
      pt_details = (\<lambda>job_url.
        ''Navigate to '' @ job_url @ ''. Extract the full job posting details: job title, company name, location, full job description '' @
       ''text, required qualifications, salary information if displayed, job type (full-time/part-time/contract/temporary), '' @
       ''and whether it'' @ [CHR 39] @
       ''s remote. Return the data as a JSON object with keys: id, title, company, location, description, '' @
       ''skills, salary_min, salary_max, job_type, remote.''),
      pt_apply = (\<lambda>job_url resume_path cover_letter.
        ''Navigate to '' @ job_url @ ''. Click the '' @ [CHR 39] @ ''Apply now'' @ [CHR 39] @ '' or '' @ [CHR 39] @
       ''Apply on company site'' @ [CHR 39] @
       '' button. Fill out the application form step by step. Upload the resume from '' @ [CHR 39] @ resume_path @ [CHR 39] @ ''. ''
        @ (if truthy cover_letter then ''Upload the cover letter from '' @ [CHR 39] @ or_empty cover_letter @ [CHR 39] @ ''. '' else [])
        @ ''Complete all required fields in the application form. Review and submit the application. '' @
       ''Confirm the submission was successful.'')\<rparr>"

definition glassdoor :: platform_texts where
  "glassdoor =
     \<lparr>pt_name = ''glassdoor'',
      pt_check = ''Navigate to https://www.glassdoor.com/. Check if the page shows a logged-in Glassdoor '' @
       ''account. If the page shows a sign-in prompt, report '' @ [CHR 39] @ ''NOT_LOGGED_IN'' @ [CHR 39] @
       ''. If the account is active, report '' @ [CHR 39] @ ''LOGGED_IN'' @ [CHR 39] @ ''.'',
      pt_login = ''Go to https://www.glassdoor.com/profile/login_input.htm and log in with the provided '' @
       ''credentials. Enter the email address and password, then click the Sign In button. After '' @
       ''login, verify you'' @ [CHR 39] @ ''re on the Glassdoor home page.'',
      pt_missing = ''No active session and no credentials provided.'',
      pt_search_url = (\<lambda>query location.
        ''https://www.glassdoor.com/Job/jobs.htm?sc.keyword='' @ query @ (if location \<noteq> [] then ''&locT=C&locKeyword='' @ location else [])),
      pt_search = (\<lambda>url filters.
        ''Navigate to '' @ url @ ''. '' @ filters @ ''Extract the first 20 job listings visible on the page. For each job, extract: the job '' @
       ''title, company name, location, the direct job URL, company rating if shown, salary estimate '' @
       ''if shown, and whether it mentions remote work. Return the results as a JSON array of '' @
       ''objects with keys: id, title, company, location, url, rating, salary, remote.''),
      pt_filters = glassdoor_filters,
      pt_details = (\<lambda>job_url.
        ''Navigate to '' @ job_url @ ''. Extract the full job posting details: job title, company name, location, full job description '' @
       ''text, required qualifications and skills, salary estimate if shown, job type (full-time/part-time/contract), '' @
       ''company rating, and whether it'' @ [CHR 39] @
       ''s remote. Return the data as a JSON object with keys: id, title, company, location, description, '' @
       ''skills, salary_min, salary_max, job_type, remote.''),
      pt_apply = (\<lambda>job_url resume_path cover_letter.
        ''Navigate to '' @ job_url @ ''. Click the '' @ [CHR 39] @ ''Apply'' @ [CHR 39] @ '' or '' @ [CHR 39] @ ''Easy Apply'' @
       [CHR 39] @
       '' button if available. If it redirects to the company website, follow the link and complete '' @
       ''the application there. Fill out the application form step by step. Upload the resume '' @
       ''from '' @ [CHR 39] @ resume_path @ [CHR 39] @ ''. ''
        @ (if truthy cover_letter then ''Upload the cover letter from '' @ [CHR 39] @ or_empty cover_letter @ [CHR 39] @ ''. '' else [])
        @ ''Complete all required fields in the application form. Review and submit the application. '' @
       ''Confirm the submission was successful.'')\<rparr>"

section \<open>The operations of each platform\<close>

definition linkedin_login :: "browser_env \<Rightarrow> (str \<times> str) list \<Rightarrow> (pworld, exn, bool) op" where
  "linkedin_login E = platform_login E linkedin"

definition linkedin_search ::
  "browser_env \<Rightarrow> str \<Rightarrow> str \<Rightarrow> (str \<times> jvalue) list option \<Rightarrow> (pworld, exn, job_listing list) op" where
  "linkedin_search E = platform_search E linkedin"

definition linkedin_scrape_details :: "browser_env \<Rightarrow> str \<Rightarrow> (pworld, exn, job_listing option) op" where
  "linkedin_scrape_details E = platform_scrape_details E linkedin"

definition linkedin_apply ::
  "browser_env \<Rightarrow> job_listing \<Rightarrow> str \<Rightarrow> str option \<Rightarrow> (pworld, exn, bool) op" where
  "linkedin_apply E = platform_apply E linkedin"

definition indeed_login :: "browser_env \<Rightarrow> (str \<times> str) list \<Rightarrow> (pworld, exn, bool) op" where
  "indeed_login E = platform_login E indeed"

definition indeed_search ::
  "browser_env \<Rightarrow> str \<Rightarrow> str \<Rightarrow> (str \<times> jvalue) list option \<Rightarrow> (pworld, exn, job_listing list) op" where
  "indeed_search E = platform_search E indeed"

definition indeed_scrape_details :: "browser_env \<Rightarrow> str \<Rightarrow> (pworld, exn, job_listing option) op" where
  "indeed_scrape_details E = platform_scrape_details E indeed"

definition indeed_apply ::
  "browser_env \<Rightarrow> job_listing \<Rightarrow> str \<Rightarrow> str option \<Rightarrow> (pworld, exn, bool) op" where
  "indeed_apply E = platform_apply E indeed"

definition glassdoor_login :: "browser_env \<Rightarrow> (str \<times> str) list \<Rightarrow> (pworld, exn, bool) op" where
  "glassdoor_login E = platform_login E glassdoor"

definition glassdoor_search ::
  "browser_env \<Rightarrow> str \<Rightarrow> str \<Rightarrow> (str \<times> jvalue) list option \<Rightarrow> (pworld, exn, job_listing list) op" where
  "glassdoor_search E = platform_search E glassdoor"

definition glassdoor_scrape_details :: "browser_env \<Rightarrow> str \<Rightarrow> (pworld, exn, job_listing option) op" where
  "glassdoor_scrape_details E = platform_scrape_details E glassdoor"

definition glassdoor_apply ::
  "browser_env \<Rightarrow> job_listing \<Rightarrow> str \<Rightarrow> str option \<Rightarrow> (pworld, exn, bool) op" where
  "glassdoor_apply E = platform_apply E glassdoor"

section \<open>Registry (\<^verbatim>\<open>platforms/registry.py\<close>)\<close>

text \<open>The registered classes; an instance keeps no state of its own.\<close>

datatype platform_class = LinkedInPlatform | IndeedPlatform | GlassdoorPlatform

type_synonym registry = "(str \<times> platform_class) list"

text \<open>A dictionary: overwriting a name keeps its place.\<close>

definition registry_register :: "str \<Rightarrow> platform_class \<Rightarrow> registry \<Rightarrow> registry" where
  "registry_register n c r =
     (if n \<in> set (map fst r) then map (\<lambda>(m, d). (m, if m = n then c else d)) r else r @ [(n, c)])"

definition registry_has :: "registry \<Rightarrow> str \<Rightarrow> bool" where
  "registry_has r n \<longleftrightarrow> n \<in> set (map fst r)"

definition list_platforms :: "registry \<Rightarrow> str list" where
  "list_platforms r = map fst r"

definition registry_create :: "registry \<Rightarrow> str \<Rightarrow> exn + platform_class" where
  "registry_create r n =
     (case map_of r n of
        Some c \<Rightarrow> Inr c
      | None \<Rightarrow> Inl (KeyError (''Platform '' @ [CHR 39] @ n @ [CHR 39] @ '' not registered. Available: ''
          @ (let names = join_with '', '' (map fst r) in if names = [] then ''(none)'' else names))))"

definition builtin_platforms :: registry where
  "builtin_platforms =
     registry_register ''glassdoor'' GlassdoorPlatform
       (registry_register ''indeed'' IndeedPlatform (registry_register ''linkedin'' LinkedInPlatform []))"

definition class_search ::
  "platform_class \<Rightarrow> browser_env \<Rightarrow> str \<Rightarrow> str \<Rightarrow> (str \<times> jvalue) list option \<Rightarrow> (pworld, exn, job_listing list) op" where
  "class_search c =
     (case c of LinkedInPlatform \<Rightarrow> linkedin_search | IndeedPlatform \<Rightarrow> indeed_search
      | GlassdoorPlatform \<Rightarrow> glassdoor_search)"

definition texts_of :: "platform_class \<Rightarrow> platform_texts" where
  "texts_of c = (case c of LinkedInPlatform \<Rightarrow> linkedin | IndeedPlatform \<Rightarrow> indeed | GlassdoorPlatform \<Rightarrow> glassdoor)"

lemma class_search_texts: "class_search c E = platform_search E (texts_of c)"
  by (cases c) (simp_all add: class_search_def texts_of_def linkedin_search_def indeed_search_def glassdoor_search_def)

lemma list_platforms_builtin: "list_platforms builtin_platforms = [''linkedin'', ''indeed'', ''glassdoor'']"
  by (simp add: list_platforms_def builtin_platforms_def registry_register_def)

lemma map_of_relabel:
  "map_of (map (\<lambda>(m, d). (m, if m = n then c else d)) r) m =
     (if m = n \<and> n \<in> fst ` set r then Some c else map_of r m)"
proof (induction r)
  case (Cons x r)
  then show ?case by (cases x; cases "m = n") simp_all
qed simp

lemma registry_register_lookup:
  "map_of (registry_register n c r) m = (if m = n then Some c else map_of r m)"
proof (cases "n \<in> fst ` set r")
  case True
  then show ?thesis using map_of_relabel [of n c r m] by (simp add: registry_register_def)
next
  case False
  have "n \<notin> fst ` set r \<Longrightarrow> map_of (r @ [(n, c)]) m = (if m = n then Some c else map_of r m)"
    by (induction r) auto
  with False show ?thesis by (simp add: registry_register_def)
qed

section \<open>Browsers\<close>

text \<open>The numbers of the open browsers are those of browsers that were made.\<close>

definition browsers_ok :: "pworld \<Rightarrow> bool" where
  "browsers_ok w \<longleftrightarrow> (\<forall>b \<in> set (pw_open w). b < pw_made w)"

definition closes_work :: "browser_lib \<Rightarrow> bool" where
  "closes_work L \<longleftrightarrow> (\<forall>n. bl_close L n = None)"

text \<open>Every browser that an operation opens is closed again.\<close>

definition browsers_kept :: "pworld \<Rightarrow> pworld \<Rightarrow> bool" where
  "browsers_kept w w' \<longleftrightarrow> pw_open w' = pw_open w \<and> browsers_ok w'"

lemma browsers_kept_refl: "browsers_ok w \<Longrightarrow> browsers_kept w w"
  by (simp add: browsers_kept_def)

lemma browsers_kept_trans: "browsers_kept a b \<Longrightarrow> browsers_kept b c \<Longrightarrow> browsers_kept a c"
  by (simp add: browsers_kept_def)

lemma browsers_kept_ok: "browsers_kept w w' \<Longrightarrow> browsers_ok w'"
  by (simp add: browsers_kept_def)

lemma with_agent_browsers:
  assumes "browsers_ok w" and "closes_work L" and "with_agent L k t w = (w', r)"
  shows "browsers_kept w w'"
proof -
  have fresh: "pw_made w \<notin> set (pw_open w)" using assms(1) by (auto simp: browsers_ok_def)
  then have rem: "removeAll (pw_made w) (pw_open w) = pw_open w" by simp
  have up: "\<And>b. b \<in> set (pw_open w) \<Longrightarrow> b < Suc (pw_made w)"
    using assms(1) by (auto simp: browsers_ok_def less_Suc_eq)
  show ?thesis
    using assms rem up
    by (auto simp: with_agent_def agent_run_def agent_close_def close_browser_def Let_def browsers_ok_def
        browsers_kept_def closes_work_def split: option.splits sum.splits if_splits)
qed

lemma with_agent_cookies: "with_agent L k t w = (w', r) \<Longrightarrow> pw_cookies w' = pw_cookies w"
  by (auto simp: with_agent_def agent_run_def agent_close_def close_browser_def Let_def
      split: option.splits sum.splits if_splits)

lemma session_confirmed_browsers:
  assumes "browsers_ok w" and "closes_work (be_lib E)" and "session_confirmed E P w = (w', b)"
  shows "browsers_kept w w'"
  using assms with_agent_browsers [OF assms(1,2)]
  by (auto simp: session_confirmed_def browsers_kept_refl split: prod.splits sum.splits if_splits)

lemma save_cookies_browsers: "browsers_kept w (save_cookies p v w') = browsers_kept w w'"
  by (simp add: browsers_kept_def browsers_ok_def save_cookies_def)

lemma platform_login_browsers:
  assumes "browsers_ok w" and "closes_work (be_lib E)" and "platform_login E P creds w = (w', r)"
  shows "browsers_kept w w'"
proof -
  obtain w1 b where s: "session_confirmed E P w = (w1, b)" by fastforce
  with assms(1,2) have k: "browsers_kept w w1" by (rule session_confirmed_browsers)
  then have ok: "browsers_ok w1" by (rule browsers_kept_ok)
  show ?thesis
  proof (cases "b \<or> \<not> truthy (map_of creds ''email'') \<or> \<not> truthy (map_of creds ''password'')")
    case True
    then show ?thesis using k assms(3) by (cases b) (auto simp: platform_login_def s)
  next
    case False
    obtain w2 q where a: "with_agent (be_lib E) (be_keep_alive E) \<lparr>at_task = pt_login P,
        at_sensitive = [(''x_username'', or_empty (map_of creds ''email'')),
          (''x_password'', or_empty (map_of creds ''password''))]\<rparr> w1 = (w2, q)" by fastforce
    have "browsers_kept w w2"
      using browsers_kept_trans [OF k with_agent_browsers [OF ok assms(2) a]] .
    then show ?thesis
      using False assms(3) by (cases q) (auto simp: platform_login_def s a save_cookies_browsers)
  qed
qed

lemma platform_run_browsers:
  assumes "browsers_ok w" and "closes_work (be_lib E)"
  shows "platform_search E P q l f w = (w', r) \<Longrightarrow> browsers_kept w w'"
    and "platform_scrape_details E P u w = (w', r') \<Longrightarrow> browsers_kept w w'"
    and "platform_apply E P j rp cl w = (w', r'') \<Longrightarrow> browsers_kept w w'"
  using with_agent_browsers [OF assms]
  by (auto simp: platform_search_def platform_scrape_details_def platform_apply_def
      split: prod.splits sum.splits)

section \<open>Properties\<close>

text \<open>
  the integrations leak no browser. If closing a browser works, then after a login, a search, a scraping
  or an application, whatever its outcome and whatever the agent raised, the browsers open are those that
  were open before; and no operation but the login touches a session file.
\<close>

theorem browsers_closed:
  assumes "browsers_ok w" and "closes_work (be_lib E)"
  shows "browsers_kept w (fst (platform_login E P creds w)) \<and> browsers_kept w (fst (platform_search E P q l f w))
    \<and> browsers_kept w (fst (platform_scrape_details E P u w)) \<and> browsers_kept w (fst (platform_apply E P j rp cl w))
    \<and> pw_cookies (fst (platform_search E P q l f w)) = pw_cookies w
    \<and> pw_cookies (fst (platform_apply E P j rp cl w)) = pw_cookies w"
proof -
  have "pw_cookies (fst (platform_search E P q l f w)) = pw_cookies w"
    and "pw_cookies (fst (platform_apply E P j rp cl w)) = pw_cookies w"
    using with_agent_cookies
    by (fastforce simp: platform_search_def platform_apply_def split: prod.splits sum.splits)+
  then show ?thesis
    using platform_login_browsers [OF assms prod.collapse [symmetric]]
      platform_run_browsers [OF assms]
    by (metis prod.collapse)
qed

definition strict_pydantic :: pydantic where
  "strict_pydantic =
     \<lparr>pv_str = (\<lambda>v. case v of JStr s \<Rightarrow> Some s | _ \<Rightarrow> None),
      pv_bool = (\<lambda>v. case v of JBool b \<Rightarrow> Some b | _ \<Rightarrow> None),
      pv_float = (\<lambda>v. case v of JNull \<Rightarrow> Some None | JFloat x \<Rightarrow> Some (Some x) | JInt n \<Rightarrow> Some (Some (of_int n)) | _ \<Rightarrow> None),
      pv_strs = (\<lambda>v. case v of
         JList xs \<Rightarrow> (if list_all (\<lambda>x. case x of JStr _ \<Rightarrow> True | _ \<Rightarrow> False) xs
                     then Some (map (\<lambda>x. case x of JStr s \<Rightarrow> s | _ \<Rightarrow> []) xs) else None)
       | _ \<Rightarrow> None),
      pv_error = ''1 validation error for JobListing'', pv_repr = (\<lambda>_. ''...''), pv_loads = (\<lambda>_. None)\<rparr>"

lemma strict_pydantic_docs: "pydantic_docs strict_pydantic"
  by (simp add: pydantic_docs_def strict_pydantic_def list_all_iff comp_def)

text \<open>A library whose first run fails and whose later runs answer \<open>r\<close>.\<close>

definition sample_lib :: "agent_result \<Rightarrow> browser_lib" where
  "sample_lib r =
     \<lparr>bl_browser_use = True, bl_langchain = True, bl_make = (\<lambda>_. None),
      bl_run = (\<lambda>n _. if n = 0 then Inl (OtherError ''crash'') else Inr r), bl_close = (\<lambda>_. None)\<rparr>"

definition sample_pworld :: pworld where
  "sample_pworld = \<lparr>pw_runs = [], pw_open = [0], pw_made = 1, pw_closes = 0, pw_cookies = [(''indeed'', None)]\<rparr>"

definition sample_browser :: "agent_result \<Rightarrow> browser_env" where
  "sample_browser r = \<lparr>be_lib = sample_lib r, be_keep_alive = False, be_val = strict_pydantic\<rparr>"

theorem browsers_closed_witness:
  "pw_open (fst (platform_search (sample_browser (PlainValue JNull)) indeed ''python'' [] None sample_pworld)) = [0]"
proof -
  have "browsers_ok sample_pworld" by (simp add: browsers_ok_def sample_pworld_def)
  moreover have "closes_work (be_lib (sample_browser (PlainValue JNull)))"
    by (simp add: closes_work_def sample_browser_def sample_lib_def)
  ultimately show ?thesis
    using browsers_closed [of sample_pworld "sample_browser (PlainValue JNull)" indeed "[]" "''python''" "[]" None]
    by (simp add: browsers_kept_def sample_pworld_def)
qed

text \<open>The objects of a list of values, and the id that a listing gets from one.\<close>

fun objects :: "jvalue list \<Rightarrow> (str \<times> jvalue) list list" where
  "objects [] = []"
| "objects (JDict d # xs) = d # objects xs"
| "objects (_ # xs) = objects xs"

lemma parse_items_spec:
  "parse_items V p xs =
     (if list_all (\<lambda>d. \<exists>l. listing_of_item V p d = Inr l) (objects xs)
      then Inr (map (\<lambda>d. projr (listing_of_item V p d)) (objects xs))
      else Inl (validation_error V))"
proof (induction V p xs rule: parse_items.induct)
  case (2 V p d xs)
  show ?case
  proof (cases "listing_of_item V p d")
    case (Inl e)
    then have "e = validation_error V" by (auto simp: listing_of_item_def split: option.splits)
    with Inl show ?thesis by simp
  next
    case (Inr l)
    with 2 show ?thesis by (auto split: sum.split)
  qed
qed auto

lemma listing_of_item_fields:
  assumes "listing_of_item V p d = Inr l"
  shows "jl_platform l = p \<and> jl_job_id l = py_str (pv_repr V) (json_get d ''id'' (JStr []))
    \<and> pv_str V (json_get d ''title'' (JStr [])) = Some (jl_title l)
    \<and> pv_str V (json_get d ''url'' (JStr [])) = Some (jl_url l)"
  using assms by (auto simp: listing_of_item_def split: option.splits)

text \<open>
  a search answers with one listing per object of the agent's list, in order, or with nothing. A single
  object that does not validate (a title that is null, say) makes the whole search of the platform fail;
  otherwise every object gives its listing, and an id that is null gives the id \<^verbatim>\<open>None\<close>.
\<close>

theorem search_results_spec:
  assumes "with_agent (be_lib E) (be_keep_alive E) \<lparr>at_task = pt_search P (pt_search_url P q loc)
      (case filters of None \<Rightarrow> [] | Some f \<Rightarrow> pt_filters P (be_val E) f), at_sensitive = []\<rparr> w = (w', Inr r)"
    and "os = objects (coerce_agent_list (be_val E) r)"
  shows "snd (platform_search E P q loc filters w) =
      (if list_all (\<lambda>d. \<exists>l. listing_of_item (be_val E) (pt_name P) d = Inr l) os
       then Inr (map (\<lambda>d. projr (listing_of_item (be_val E) (pt_name P) d)) os)
       else Inl (SearchError (pt_name P) (pv_error (be_val E))))
    \<and> (pydantic_docs (be_val E) \<and> map_of d ''title'' = Some JNull \<and> d \<in> set os
         \<longrightarrow> snd (platform_search E P q loc filters w) = Inl (SearchError (pt_name P) (pv_error (be_val E))))
    \<and> (listing_of_item (be_val E) (pt_name P) d = Inr l \<and> map_of d ''id'' = Some JNull \<longrightarrow> jl_job_id l = ''None'')"
proof (intro conjI impI)
  show g: "snd (platform_search E P q loc filters w) =
      (if list_all (\<lambda>d. \<exists>l. listing_of_item (be_val E) (pt_name P) d = Inr l) os
       then Inr (map (\<lambda>d. projr (listing_of_item (be_val E) (pt_name P) d)) os)
       else Inl (SearchError (pt_name P) (pv_error (be_val E))))"
    using assms
    by (simp add: platform_search_def parse_search_results_def parse_items_spec validation_error_def)
  assume "pydantic_docs (be_val E) \<and> map_of d ''title'' = Some JNull \<and> d \<in> set os"
  moreover from this have "listing_of_item (be_val E) (pt_name P) d = Inl (validation_error (be_val E))"
    by (simp add: listing_of_item_def pydantic_docs_def json_get_def)
  ultimately have "\<not> list_all (\<lambda>d. \<exists>l. listing_of_item (be_val E) (pt_name P) d = Inr l) os"
    unfolding list_all_iff by (intro notI) (auto dest!: bspec [of _ _ d])
  with g show "snd (platform_search E P q loc filters w) = Inl (SearchError (pt_name P) (pv_error (be_val E)))"
    by simp
next
  assume "listing_of_item (be_val E) (pt_name P) d = Inr l \<and> map_of d ''id'' = Some JNull"
  then show "jl_job_id l = ''None''" using listing_of_item_fields by (fastforce simp: json_get_def)
qed

definition sample_item :: "jvalue \<Rightarrow> str \<Rightarrow> jvalue" where
  "sample_item i u = JDict [(''id'', i), (''title'', JStr ''Engineer''), (''company'', JStr ''Acme''),
     (''location'', JStr []), (''url'', JStr u), (''remote'', JBool False)]"

theorem search_results_spec_witness:
  "\<exists>w'. snd (platform_search (sample_browser (PlainValue (JList [JNull, sample_item JNull ''u1'', sample_item (JInt 7) ''u2''])))
     glassdoor ''python'' ''Berlin'' (Some [(''remote'', JBool True)]) (sample_pworld\<lparr>pw_runs := w'\<rparr>))
   = Inr [\<lparr>jl_platform = ''glassdoor'', jl_job_id = ''None'', jl_title = ''Engineer'', jl_company = ''Acme'',
            jl_location = [], jl_url = ''u1'', jl_description = [], jl_salary_min = None, jl_salary_max = None,
            jl_currency = ''USD'', jl_job_type = [], jl_remote = False, jl_required = [], jl_preferred = []\<rparr>,
          \<lparr>jl_platform = ''glassdoor'', jl_job_id = ''7'', jl_title = ''Engineer'', jl_company = ''Acme'',
            jl_location = [], jl_url = ''u2'', jl_description = [], jl_salary_min = None, jl_salary_max = None,
            jl_currency = ''USD'', jl_job_type = [], jl_remote = False, jl_required = [], jl_preferred = []\<rparr>]"
proof -
  let ?items = "[JNull, sample_item JNull ''u1'', sample_item (JInt 7) ''u2'']"
  let ?E = "sample_browser (PlainValue (JList ?items))"
  let ?w = "sample_pworld\<lparr>pw_runs := [\<lparr>at_task = [], at_sensitive = []\<rparr>]\<rparr>"
  let ?f = "[(''remote'', JBool True)]"
  have s7: "show_int 7 = ''7''" by (simp add: show_int_def show_nat.simps [of 7]) code_simp
  have run: "\<And>t. \<exists>w'. with_agent (be_lib ?E) (be_keep_alive ?E) t ?w = (w', Inr (PlainValue (JList ?items)))"
    by (simp add: with_agent_def agent_run_def sample_browser_def sample_lib_def sample_pworld_def Let_def close_browser_def)
  then obtain w' where "with_agent (be_lib ?E) (be_keep_alive ?E) \<lparr>at_task = pt_search glassdoor (pt_search_url glassdoor ''python'' ''Berlin'')
      (case Some ?f of None \<Rightarrow> [] | Some f \<Rightarrow> pt_filters glassdoor (be_val ?E) f), at_sensitive = []\<rparr> ?w
      = (w', Inr (PlainValue (JList ?items)))" by blast
  from search_results_spec [OF this refl]
  have "snd (platform_search ?E glassdoor ''python'' ''Berlin'' (Some ?f) ?w) =
      (if list_all (\<lambda>d. \<exists>l. listing_of_item (be_val ?E) (pt_name glassdoor) d = Inr l)
            (objects (coerce_agent_list (be_val ?E) (PlainValue (JList ?items))))
       then Inr (map (\<lambda>d. projr (listing_of_item (be_val ?E) (pt_name glassdoor) d))
            (objects (coerce_agent_list (be_val ?E) (PlainValue (JList ?items)))))
       else Inl (SearchError (pt_name glassdoor) (pv_error (be_val ?E))))" by blast
  then show ?thesis
    by (intro exI [of _ "[\<lparr>at_task = [], at_sensitive = []\<rparr>]"])
      (simp add: coerce_agent_list_def agent_payload_def sample_item_def
        listing_of_item_def sample_browser_def strict_pydantic_def json_get_def glassdoor_def s7)
qed

text \<open>
  a platform believes its agent. A fresh login succeeds and saves a session, and an application counts as
  submitted, exactly when the agent's run ends without an exception, whatever it reports, a refused
  password or a closed position included; and the details of a job are never read from an agent's history.
\<close>

theorem platforms_trust_runs:
  assumes "map_of (pw_cookies w) (pt_name P) = None" and "truthy (map_of creds ''email'')"
    and "truthy (map_of creds ''password'')"
    and "t = \<lparr>at_task = pt_login P, at_sensitive = [(''x_username'', or_empty (map_of creds ''email'')),
      (''x_password'', or_empty (map_of creds ''password''))]\<rparr>"
  shows "(snd (platform_login E P creds w) = Inr True \<longleftrightarrow> (\<exists>r. snd (with_agent (be_lib E) (be_keep_alive E) t w) = Inr r))
    \<and> (snd (platform_login E P creds w) = Inr True \<longleftrightarrow> has_session (pt_name P) (fst (platform_login E P creds w)))
    \<and> (snd (platform_apply E P j rp cl w) = Inr True \<longleftrightarrow>
         (\<exists>r. snd (with_agent (be_lib E) (be_keep_alive E) \<lparr>at_task = pt_apply P (jl_url j) rp cl, at_sensitive = []\<rparr> w) = Inr r))
    \<and> (snd (with_agent (be_lib E) (be_keep_alive E) \<lparr>at_task = pt_details P u, at_sensitive = []\<rparr> w) = Inr (HistoryList h s)
         \<longrightarrow> snd (platform_scrape_details E P u w) = Inr None)"
proof (intro conjI impI)
  obtain w1 q where a: "with_agent (be_lib E) (be_keep_alive E) t w = (w1, q)" by fastforce
  have n: "\<not> has_session (pt_name P) w" using assms(1) by (simp add: has_session_def)
  have n1: "\<not> has_session (pt_name P) w1"
    using with_agent_cookies [OF a] assms(1) by (simp add: has_session_def)
  have sv: "has_session (pt_name P) (save_cookies (pt_name P) v w1)" for v
    by (simp add: has_session_def save_cookies_def)
  have l: "platform_login E P creds w = (case q of
      Inl e \<Rightarrow> (w1, Inl (AuthenticationError (pt_name P) (exn_message e)))
    | Inr _ \<Rightarrow> (save_cookies (pt_name P) (JList [JDict [(''logged_in'', JBool True)]]) w1, Inr True))"
    using a assms(2-4) n by (simp add: platform_login_def session_confirmed_def)
  show "snd (platform_login E P creds w) = Inr True \<longleftrightarrow> (\<exists>r. snd (with_agent (be_lib E) (be_keep_alive E) t w) = Inr r)"
    by (cases q) (simp_all add: l a)
  show "snd (platform_login E P creds w) = Inr True \<longleftrightarrow> has_session (pt_name P) (fst (platform_login E P creds w))"
    by (cases q) (simp_all add: l n1 sv)
  show "snd (platform_apply E P j rp cl w) = Inr True \<longleftrightarrow>
      (\<exists>r. snd (with_agent (be_lib E) (be_keep_alive E) \<lparr>at_task = pt_apply P (jl_url j) rp cl, at_sensitive = []\<rparr> w) = Inr r)"
    by (auto simp: platform_apply_def split: prod.split sum.split)
next
  assume "snd (with_agent (be_lib E) (be_keep_alive E) \<lparr>at_task = pt_details P u, at_sensitive = []\<rparr> w) = Inr (HistoryList h s)"
  then show "snd (platform_scrape_details E P u w) = Inr None"
    by (auto simp: platform_scrape_details_def parse_job_details_def split: prod.splits sum.splits)
qed

theorem platforms_trust_runs_witness:
  "snd (platform_login (sample_browser (PlainValue (JStr ''Wrong password.''))) linkedin
     [(''email'', ''a@b.c''), (''password'', ''x'')] (sample_pworld\<lparr>pw_runs := [\<lparr>at_task = [], at_sensitive = []\<rparr>]\<rparr>)) = Inr True"
proof -
  let ?E = "sample_browser (PlainValue (JStr ''Wrong password.''))"
  let ?w = "sample_pworld\<lparr>pw_runs := [\<lparr>at_task = [], at_sensitive = []\<rparr>]\<rparr>"
  let ?t = "\<lparr>at_task = pt_login linkedin, at_sensitive = [(''x_username'', ''a@b.c''), (''x_password'', ''x'')]\<rparr>"
  have run: "\<exists>r. snd (with_agent (be_lib ?E) (be_keep_alive ?E) ?t ?w) = Inr r"
    by (simp add: with_agent_def agent_run_def sample_browser_def sample_lib_def sample_pworld_def Let_def close_browser_def)
  have cookie: "map_of (pw_cookies ?w) (pt_name linkedin) = None" by (simp add: sample_pworld_def linkedin_def)
  show ?thesis
    using platforms_trust_runs [OF cookie, of "[(''email'', ''a@b.c''), (''password'', ''x'')]" ?t ?E] run by simp
qed

end
