(* ===== verification/Exa.thy ===== *)
theory Exa
  imports Platforms Regex
begin

text \<open>
  The semantic job search (\<^verbatim>\<open>core/job_discovery/exa_search.py\<close>). The package exa-py is a parameter, as are
  the date of the filter and the host that \<^verbatim>\<open>urllib.parse\<close> finds in an address.
\<close>

section \<open>Results and environment\<close>

record exa_result =
  xr_id :: "str option"
  xr_title :: "str option"
  xr_url :: "str option"
  xr_text :: "str option"

record exa_request =
  xq_query :: str
  xq_num_results :: nat
  xq_since :: str

record exa_env =
  xe_key :: str
  xe_importable :: bool
  xe_client :: "exa_request \<Rightarrow> exn + exa_result list"
  xe_since :: "nat \<Rightarrow> str"
  xe_netloc :: "str \<Rightarrow> exn + str"

definition DEFAULT_NUM_RESULTS :: nat where "DEFAULT_NUM_RESULTS = 20"
definition DEFAULT_DAYS_BACK :: nat where "DEFAULT_DAYS_BACK = 30"

definition exa_available :: "exa_env \<Rightarrow> bool" where
  "exa_available X \<longleftrightarrow> xe_key X \<noteq> [] \<and> xe_importable X"

definition exa_build_query :: "str \<Rightarrow> str \<Rightarrow> str \<Rightarrow> str" where
  "exa_build_query query location job_type =
     join_with '' '' ([''hiring '' @ query]
       @ (if location \<noteq> [] then [''in '' @ location] else [])
       @ (if job_type \<noteq> [] then [job_type @ '' position''] else [])
       @ [''job posting application''])"

section \<open>Reading a result\<close>

text \<open>\<^verbatim>\<open>s.split(sep)\<close> for a non-empty separator: leftmost, non-overlapping.\<close>

function (sequential) split_str :: "str \<Rightarrow> str \<Rightarrow> str \<Rightarrow> str list" where
  "split_str sep w [] = [rev w]"
| "split_str sep w (c # cs) =
     (if sep \<noteq> [] \<and> prefix sep (c # cs) then rev w # split_str sep [] (drop (length sep) (c # cs))
      else split_str sep (c # w) cs)"
  by pat_completeness auto
termination by (relation "measure (\<lambda>(sep, w, s). length s)") (auto simp: Suc_le_eq)

text \<open>\<^verbatim>\<open>s.title()\<close> on ASCII text.\<close>

fun py_title :: "bool \<Rightarrow> str \<Rightarrow> str" where
  "py_title after [] = []"
| "py_title after (c # cs) =
     (if is_lower_az c then (if after then c else char_of (of_char c - 32 :: nat)) # py_title True cs
      else if is_upper_az c then (if after then char_of (of_char c + 32 :: nat) else c) # py_title True cs
      else c # py_title False cs)"

text \<open>\<^verbatim>\<open>replace("www.", "")\<close> is a split and a join without separator.\<close>

definition exa_extract_company :: "exa_env \<Rightarrow> str \<Rightarrow> str \<Rightarrow> exn + str" where
  "exa_extract_company X title url =
     (if py_in '' at '' title then Inr (strip (last (split_str '' at '' [] title)))
      else if py_in '' - '' title then Inr (strip (last (split_str '' - '' [] title)))
      else (case xe_netloc X url of
              Inl e \<Rightarrow> Inl e
            | Inr netloc \<Rightarrow>
               (let domain = concat (split_str ''www.'' [] netloc) in
                Inr (if domain \<noteq> [] then py_title False (hd (split_on CHR ''.'' domain)) else ''Unknown''))))"

definition rx_location_cue :: rx where
  "rx_location_cue =
     RSeq (RAlts [RStr ''location'', RStr ''based in'', RStr ''office in''])
       (RPlus (RChr (\<lambda>c. c = CHR '':'' \<or> is_space c)))"

definition rx_place :: rx where
  "rx_place = RSeq (RChr is_upper_az)
     (RPlus (RChr (\<lambda>c. is_upper_az c \<or> is_lower_az c \<or> is_space c \<or> c = CHR '','')))"

definition rx_city :: rx where
  "rx_city =
     RSeqs [RAlts [RStr ''San'', RStr ''New'', RStr ''Los'', RStr ''San''], RChr is_space, RChr is_upper_az,
       RPlus (RChr is_lower_az),
       ROpt (RSeqs [RLit CHR '','', RStar (RChr is_space), RRep 2 0 (RChr is_upper_az)])]"

text \<open>
  The group of the first pattern is what follows the cue: the cue ends with a run of colons and blanks, which
  no upper-case letter continues, so the group starts where the longest such run ends.
\<close>

definition after_cue :: "str \<Rightarrow> str" where
  "after_cue m =
     dropWhile (\<lambda>c. c = CHR '':'' \<or> is_space c) (drop (if prefix ''office in'' m then 9 else 8) m)"

definition exa_extract_location :: "str \<Rightarrow> str" where
  "exa_extract_location s =
     (case search_from (RSeq rx_location_cue rx_place) s 0 of
        Some (i, j) \<Rightarrow> take 50 (strip (after_cue (slice s i j)))
      | None \<Rightarrow>
         (case search_from rx_city s 0 of
            Some (i, j) \<Rightarrow> take 50 (strip (slice s i j))
          | None \<Rightarrow> []))"

definition exa_listing :: "exa_env \<Rightarrow> exa_result \<Rightarrow> exn + job_listing" where
  "exa_listing X r =
     (let title = or_empty (xr_title r); url = or_empty (xr_url r); body = or_empty (xr_text r)
      in case exa_extract_company X title url of
           Inl e \<Rightarrow> Inl e
         | Inr company \<Rightarrow>
             Inr \<lparr>jl_platform = ''exa'', jl_job_id = (if truthy (xr_id r) then or_empty (xr_id r) else url),
                  jl_title = title, jl_company = company, jl_location = exa_extract_location body,
                  jl_url = url, jl_description = take 3000 body, jl_salary_min = None, jl_salary_max = None,
                  jl_currency = ''USD'', jl_job_type = [],
                  jl_remote = list_ex (\<lambda>k. py_in k (lower body)) [''remote'', ''work from home'', ''distributed''],
                  jl_required = [], jl_preferred = []\<rparr>)"

fun exa_parse_results :: "exa_env \<Rightarrow> exa_result list \<Rightarrow> exn + job_listing list" where
  "exa_parse_results X [] = Inr []"
| "exa_parse_results X (r # rs) =
     (case exa_listing X r of
        Inl e \<Rightarrow> Inl e
      | Inr l \<Rightarrow> (case exa_parse_results X rs of Inl e \<Rightarrow> Inl e | Inr ls \<Rightarrow> Inr (l # ls)))"

text \<open>Every failure of the client or of the reading gives an empty list.\<close>

definition exa_search_jobs :: "exa_env \<Rightarrow> str \<Rightarrow> str \<Rightarrow> nat \<Rightarrow> nat \<Rightarrow> str \<Rightarrow> job_listing list" where
  "exa_search_jobs X query location num_results days_back job_type =
     (if \<not> exa_available X then []
      else
        (case xe_client X \<lparr>xq_query = exa_build_query query location job_type, xq_num_results = num_results,
                xq_since = xe_since X days_back\<rparr> of
           Inl _ \<Rightarrow> []
         | Inr rs \<Rightarrow> (case exa_parse_results X rs of Inl _ \<Rightarrow> [] | Inr ls \<Rightarrow> ls)))"

section \<open>The split\<close>

text \<open>Joining the pieces with the separator gives the text back.\<close>

lemma split_str_nonempty [simp]: "split_str sep w s \<noteq> []"
  by (induction sep w s rule: split_str.induct) auto

lemma split_str_join: "join_with sep (split_str sep w s) = rev w @ s"
proof (induction sep w s rule: split_str.induct)
  case (2 sep w c cs)
  show ?case
  proof (cases "sep \<noteq> [] \<and> prefix sep (c # cs)")
    case True
    then have "join_with sep (split_str sep [] (drop (length sep) (c # cs))) = drop (length sep) (c # cs)"
      using 2(1) by simp
    moreover from True have "c # cs = sep @ drop (length sep) (c # cs)"
      by (metis append_eq_conv_conj prefixE)
    ultimately show ?thesis
      using True join_with_append [of "[rev w]" "split_str sep [] (drop (length sep) (c # cs))" sep] by simp
  next
    case False
    then show ?thesis using 2(2) by auto
  qed
qed simp

lemma set_last_join: "xs \<noteq> [] \<Longrightarrow> set (last xs) \<subseteq> set (join_with sep xs)"
  by (induction sep xs rule: join_with.induct) auto

text \<open>A company that is read from the title has no characters that are not in the title.\<close>

lemma exa_extract_company_grounded:
  assumes "py_in '' at '' title \<or> py_in '' - '' title" and "exa_extract_company X title url = Inr c"
  shows "set c \<subseteq> set title"
proof -
  have "set (strip (last (split_str sep [] title))) \<subseteq> set title" for sep
    using set_strip [of "last (split_str sep [] title)"] set_last_join [of "split_str sep [] title" sep]
    by (simp add: split_str_join)
  moreover have "\<exists>sep. c = strip (last (split_str sep [] title))"
    using assms by (auto simp: exa_extract_company_def split: if_splits)
  ultimately show ?thesis by blast
qed

end
