(* ===== verification/JobSearch.thy ===== *)
theory JobSearch
  imports Exa Resumes
begin

text \<open>
  The job service (\<^verbatim>\<open>services/job_search.py\<close>) with its routes (\<^verbatim>\<open>api/v1/jobs.py\<close>): the search over the
  platforms and Exa with the folding of repeated listings, the stored jobs, and the analysis against a
  resume. The platforms' state is threaded beside the database; SHA-1, the ids of new rows, the clock and
  spaCy's pipeline are arguments. The metrics are not modelled.
\<close>

section \<open>Requests and responses (\<^verbatim>\<open>schemas/job.py\<close>)\<close>

record job_search_request =
  js_query :: str
  js_location :: str
  js_platforms :: "str list"
  js_filters :: "(str \<times> jvalue) list"
  js_limit :: nat

record job_list_response =
  jr_items :: "job list"
  jr_total :: nat
  jr_page :: nat
  jr_page_size :: nat
  jr_has_next :: bool

record job_analysis =
  ja_job :: str
  ja_match :: real
  ja_skill :: real
  ja_keyword :: real
  ja_missing :: "str list"
  ja_suggestions :: "str list"

section \<open>From a listing to a row\<close>

text \<open>\<^verbatim>\<open>f"{x:,.0f}"\<close>: rounded half to even, the digits in groups of three.\<close>

fun group3 :: "str \<Rightarrow> str" where
  "group3 (a # b # c # d # ds) = a # b # c # CHR '','' # group3 (d # ds)"
| "group3 ds = ds"

definition show_grouped :: "real \<Rightarrow> str" where
  "show_grouped x =
     (if x < 0 then ''-'' else []) @ rev (group3 (rev (show_nat (nat (round_half_even \<bar>x\<bar>)))))"

definition salary_text :: "job_listing \<Rightarrow> str option" where
  "salary_text l =
     (case (jl_salary_min l, jl_salary_max l) of
        (Some lo, Some hi) \<Rightarrow> Some (jl_currency l @ '' '' @ show_grouped lo @ '' - '' @ show_grouped hi)
      | (Some lo, None) \<Rightarrow> Some (jl_currency l @ '' '' @ show_grouped lo @ ''+'')
      | (None, Some hi) \<Rightarrow> Some (''Up to '' @ jl_currency l @ '' '' @ show_grouped hi)
      | (None, None) \<Rightarrow> None)"

text \<open>The id is given when the row is flushed, the creation time by the database.\<close>

definition listing_to_job :: "job_listing \<Rightarrow> str \<Rightarrow> int \<Rightarrow> job" where
  "listing_to_job l user now =
     \<lparr>j_id = [], j_user = user, j_platform = jl_platform l, j_platform_job_id = jl_job_id l,
      j_title = jl_title l, j_company = jl_company l, j_location = jl_location l, j_url = jl_url l,
      j_description = jl_description l, j_salary_range = salary_text l,
      j_job_type = (if jl_job_type l = [] then None else Some (jl_job_type l)), j_remote = jl_remote l,
      j_posted_date = None, j_experience_level = None, j_match_score = None,
      j_skills_required = (if jl_required l \<noteq> [] \<or> jl_preferred l \<noteq> []
                           then Some (jl_required l, jl_preferred l) else None),
      j_status = JOB_NEW, j_created_at = now\<rparr>"

definition job_identity :: "(str \<Rightarrow> str) \<Rightarrow> job \<Rightarrow> str" where
  "job_identity sha1 j =
     (let pid = strip (j_platform_job_id j); url = strip (j_url j)
      in if pid \<noteq> [] then pid else if url \<noteq> [] then ''url:'' @ take 16 (sha1 url) else [])"

section \<open>Folding the listings\<close>

text \<open>
  What the closure \<^verbatim>\<open>_register\<close> updates: the rows added to the session, the rows of the answer, the keys
  seen in this search, and the user's known rows by key. The n-th added row takes the n-th generated id.
\<close>

record reg_state =
  rg_added :: "job list"
  rg_all :: "job list"
  rg_seen :: "(str \<times> str) list"
  rg_known :: "((str \<times> str) \<times> job) list"

definition job_key :: "job \<Rightarrow> str \<times> str" where
  "job_key j = (j_platform j, j_platform_job_id j)"

definition add_row :: "(nat \<Rightarrow> str) \<Rightarrow> job \<Rightarrow> reg_state \<Rightarrow> reg_state" where
  "add_row gen j s =
     (let row = j\<lparr>j_id := gen (length (rg_added s))\<rparr>
      in s\<lparr>rg_added := rg_added s @ [row], rg_all := rg_all s @ [row]\<rparr>)"

definition register_job :: "(str \<Rightarrow> str) \<Rightarrow> (nat \<Rightarrow> str) \<Rightarrow> job \<Rightarrow> reg_state \<Rightarrow> reg_state" where
  "register_job sha1 gen j s =
     (let ident = job_identity sha1 j in
      if ident = [] then add_row gen j s
      else
        (let j' = j\<lparr>j_platform_job_id := ident\<rparr>; key = (j_platform j, ident)
         in if key \<in> set (rg_seen s) then s
            else
              (let s' = s\<lparr>rg_seen := key # rg_seen s\<rparr>
               in case map_of (rg_known s) key of
                    Some known \<Rightarrow> s'\<lparr>rg_all := rg_all s @ [known]\<rparr>
                  | None \<Rightarrow>
                      (let s'' = add_row gen j' s'
                       in s''\<lparr>rg_known := (key, last (rg_added s'')) # rg_known s\<rparr>))))"

definition register_listings ::
  "(str \<Rightarrow> str) \<Rightarrow> (nat \<Rightarrow> str) \<Rightarrow> str \<Rightarrow> int \<Rightarrow> job_listing list \<Rightarrow> reg_state \<Rightarrow> reg_state" where
  "register_listings sha1 gen user now ls s =
     foldl (\<lambda>s l. register_job sha1 gen (listing_to_job l user now) s) s ls"

section \<open>The search\<close>

record search_env =
  se_browser :: browser_env
  se_registry :: registry
  se_exa :: exa_env
  se_sha1 :: "str \<Rightarrow> str"

text \<open>A platform that is not registered, or whose search fails, is skipped.\<close>

fun platform_loop ::
  "search_env \<Rightarrow> (nat \<Rightarrow> str) \<Rightarrow> job_search_request \<Rightarrow> str \<Rightarrow> int \<Rightarrow> str list
     \<Rightarrow> pworld \<times> reg_state \<Rightarrow> pworld \<times> reg_state" where
  "platform_loop S gen rq user now [] ws = ws"
| "platform_loop S gen rq user now (p # ps) (w, s) =
     (if \<not> registry_has (se_registry S) p then platform_loop S gen rq user now ps (w, s)
      else
        (case registry_create (se_registry S) p of
           Inl _ \<Rightarrow> platform_loop S gen rq user now ps (w, s)
         | Inr c \<Rightarrow>
             (case class_search c (se_browser S) (js_query rq) (js_location rq)
                     (if js_filters rq = [] then None else Some (js_filters rq)) w of
                (w', Inl _) \<Rightarrow> platform_loop S gen rq user now ps (w', s)
              | (w', Inr ls) \<Rightarrow>
                  platform_loop S gen rq user now ps
                    (w', register_listings (se_sha1 S) gen user now ls s))))"

definition exa_found :: "search_env \<Rightarrow> job_search_request \<Rightarrow> job_listing list" where
  "exa_found S rq =
     (if exa_available (se_exa S)
      then exa_search_jobs (se_exa S) (js_query rq) (js_location rq) (min (js_limit rq) 10) DEFAULT_DAYS_BACK []
      else [])"

definition search_start :: "str \<Rightarrow> db \<Rightarrow> reg_state" where
  "search_start user d =
     \<lparr>rg_added = [], rg_all = [], rg_seen = [],
      rg_known = rev (map (\<lambda>j. (job_key j, j)) (filter (\<lambda>j. j_user j = user) (select_rows (Some user) j_user (jobs d))))\<rparr>"

definition search_response :: "nat \<Rightarrow> job list \<Rightarrow> job_list_response" where
  "search_response limit all_jobs =
     \<lparr>jr_items = take limit all_jobs, jr_total = length all_jobs, jr_page = 1, jr_page_size = limit,
      jr_has_next = limit < length all_jobs\<rparr>"

text \<open>The one commit of the search; when it fails everything found is dropped.\<close>

definition search_commit :: "nat \<Rightarrow> reg_state \<Rightarrow> db \<Rightarrow> db \<times> job_list_response" where
  "search_commit limit s d =
     (if rg_all s = [] then (d, search_response limit [])
      else (case commit (d\<lparr>jobs := jobs d @ rg_added s\<rparr>) d of
              (d', Inr _) \<Rightarrow> (d', search_response limit (rg_all s))
            | (_, Inl _) \<Rightarrow> (d, search_response limit [])))"

definition search_jobs ::
  "search_env \<Rightarrow> (nat \<Rightarrow> str) \<Rightarrow> job_search_request \<Rightarrow> str \<Rightarrow> int \<Rightarrow> pworld \<times> db
     \<Rightarrow> (pworld \<times> db) \<times> job_list_response" where
  "search_jobs S gen rq user now wd =
     (let ps = (if js_platforms rq = [] then list_platforms (se_registry S) else js_platforms rq)
      in if ps = [] then (wd, search_response (js_limit rq) [])
         else
           (case platform_loop S gen rq user now ps (fst wd, search_start user (snd wd)) of
              (w, s) \<Rightarrow>
                (case search_commit (js_limit rq) (register_listings (se_sha1 S) gen user now (exa_found S rq) s) (snd wd) of
                   (d, r) \<Rightarrow> ((w, d), r))))"

section \<open>Stored jobs\<close>

definition list_jobs :: "ctx \<Rightarrow> nat \<Rightarrow> nat \<Rightarrow> job_status option \<Rightarrow> db \<Rightarrow> job_list_response" where
  "list_jobs c page page_size st d =
     (let k = min page_size MAX_PAGE_SIZE;
          rows = filter (\<lambda>j. case st of None \<Rightarrow> True | Some s \<Rightarrow> j_status j = s) (select_rows c j_user (jobs d));
          total = length rows
      in \<lparr>jr_items = page_slice page k (order_desc j_created_at rows), jr_total = total, jr_page = page,
          jr_page_size = k, jr_has_next = page * k < total\<rparr>)"

definition get_job :: "ctx \<Rightarrow> str \<Rightarrow> db \<Rightarrow> exn + job" where
  "get_job c i d =
     (case find_row c j_user j_id i (jobs d) of
        Inl e \<Rightarrow> Inl e
      | Inr None \<Rightarrow> Inl (RecordNotFoundError ''Job'' i)
      | Inr (Some j) \<Rightarrow> Inr j)"

text \<open>
  Deleting a job: the relationship cascades to its applications, and the foreign key of the resumes that were
  made for it is set to null.
\<close>

definition delete_job :: "ctx \<Rightarrow> str \<Rightarrow> (db, exn, unit) op" where
  "delete_job c i d =
     (case get_job c i d of
        Inl e \<Rightarrow> (d, Inl e)
      | Inr j \<Rightarrow>
          commit (d\<lparr>jobs := filter (\<lambda>x. j_id x \<noteq> j_id j) (jobs d),
                    applications := filter (\<lambda>a. a_job a \<noteq> j_id j) (applications d),
                    resumes := update_where (\<lambda>r. r_job_id r = Some (j_id j)) (\<lambda>r. r\<lparr>r_job_id := None\<rparr>) (resumes d)\<rparr>) d)"

section \<open>Analysis\<close>

definition no_score :: "str \<Rightarrow> str \<Rightarrow> job_analysis" where
  "no_score jid msg = \<lparr>ja_job = jid, ja_match = 0, ja_skill = 0, ja_keyword = 0, ja_missing = [], ja_suggestions = [msg]\<rparr>"

definition engine_analysis :: "nlp \<Rightarrow> str \<Rightarrow> job \<Rightarrow> job_analysis" where
  "engine_analysis N resume_text j =
     (let meta = (case j_skills_required j of
                    Some (req, pref) \<Rightarrow> \<lparr>jm_required = req, jm_preferred = pref, jm_years = None, jm_education = []\<rparr>
                  | None \<Rightarrow> \<lparr>jm_required = [], jm_preferred = [], jm_years = None, jm_education = []\<rparr>);
          profile = \<lparr>cp_skills = extract_skills resume_text, cp_experience = [], cp_education = []\<rparr>;
          d = scorer_score_resume default_weights N resume_text (j_description j) profile meta
      in \<lparr>ja_job = j_id j, ja_match = sd_overall d, ja_skill = sd_skill d, ja_keyword = sd_keyword d,
          ja_missing = sd_missing_required d, ja_suggestions = sd_suggestions d\<rparr>)"

definition analyze_job :: "nlp option \<Rightarrow> ctx \<Rightarrow> str \<Rightarrow> str option \<Rightarrow> db \<Rightarrow> exn + job_analysis" where
  "analyze_job N c jid resume_id d =
     (case get_job c jid d of
        Inl e \<Rightarrow> Inl e
      | Inr j \<Rightarrow>
          if \<not> truthy resume_id then Inr (no_score (j_id j) ''Provide a resume_id to get accurate ATS scoring.'')
          else
            (case find_row c r_user r_id (or_empty resume_id) (resumes d) of
               Inl e \<Rightarrow> Inl e
             | Inr None \<Rightarrow> Inl (RecordNotFoundError ''Resume'' (or_empty resume_id))
             | Inr (Some r) \<Rightarrow>
                 if or_empty (r_content_text r) = []
                 then Inr (no_score (j_id j) ''Resume has no extracted text. Re-upload for analysis.'')
                 else
                   (case N of
                      None \<Rightarrow> Inr (no_score (j_id j)
                        ''spaCy NLP model not available. Install with: python -m spacy download en_core_web_sm'')
                    | Some n \<Rightarrow> Inr (engine_analysis n (or_empty (r_content_text r)) j))))"

section \<open>What the search finds\<close>

text \<open>The listings of the platforms that answered, in order, with the state of the platforms afterwards.\<close>

fun platform_found ::
  "search_env \<Rightarrow> job_search_request \<Rightarrow> str list \<Rightarrow> pworld \<Rightarrow> pworld \<times> job_listing list" where
  "platform_found S rq [] w = (w, [])"
| "platform_found S rq (p # ps) w =
     (case map_of (se_registry S) p of
        None \<Rightarrow> platform_found S rq ps w
      | Some c \<Rightarrow>
          (case platform_search (se_browser S) (texts_of c) (js_query rq) (js_location rq)
                  (if js_filters rq = [] then None else Some (js_filters rq)) w of
             (w1, r) \<Rightarrow>
               (case platform_found S rq ps w1 of
                  (w2, ls) \<Rightarrow> (w2, (case r of Inl _ \<Rightarrow> [] | Inr xs \<Rightarrow> xs) @ ls))))"

lemma register_listings_append:
  "register_listings sha1 gen u now (xs @ ys) s =
     register_listings sha1 gen u now ys (register_listings sha1 gen u now xs s)"
  by (simp add: register_listings_def)

lemma platform_loop_found:
  "platform_loop S gen rq u now ps (w, s) =
     (fst (platform_found S rq ps w),
      register_listings (se_sha1 S) gen u now (snd (platform_found S rq ps w)) s)"
proof (induction ps arbitrary: w s)
  case Nil
  then show ?case by (simp add: register_listings_def)
next
  case (Cons p ps)
  have has: "registry_has (se_registry S) p \<longleftrightarrow> map_of (se_registry S) p \<noteq> None"
    by (simp add: registry_has_def map_of_eq_None_iff)
  show ?case
  proof (cases "map_of (se_registry S) p")
    case None
    then show ?thesis using Cons has by simp
  next
    case (Some c)
    obtain w1 r where w1: "platform_search (se_browser S) (texts_of c) (js_query rq) (js_location rq)
        (if js_filters rq = [] then None else Some (js_filters rq)) w = (w1, r)" by fastforce
    obtain w2 ls where w2: "platform_found S rq ps w1 = (w2, ls)" by fastforce
    have nil: "register_listings (se_sha1 S) gen u now [] s = s" by (simp add: register_listings_def)
    show ?thesis
      using Some has Cons [of w1] w2
      by (cases r) (simp_all add: registry_create_def class_search_texts w1 nil register_listings_append
          del: if_split)
  qed
qed

section \<open>Identities\<close>

definition listing_ident :: "(str \<Rightarrow> str) \<Rightarrow> job_listing \<Rightarrow> str" where
  "listing_ident sha1 l = job_identity sha1 (listing_to_job l [] 0)"

definition listing_key :: "(str \<Rightarrow> str) \<Rightarrow> job_listing \<Rightarrow> str \<times> str" where
  "listing_key sha1 l = (jl_platform l, listing_ident sha1 l)"

definition raw_key :: "job_listing \<Rightarrow> str \<times> str" where
  "raw_key l = (jl_platform l, jl_job_id l)"

text \<open>A key is proper when its id is not blank.\<close>

definition proper_key :: "str \<times> str \<Rightarrow> bool" where
  "proper_key k \<longleftrightarrow> strip (snd k) \<noteq> []"

definition keyed :: "(str \<Rightarrow> str) \<Rightarrow> job_listing \<Rightarrow> bool" where
  "keyed sha1 l \<longleftrightarrow> listing_ident sha1 l \<noteq> []"

definition firsts :: "'a list \<Rightarrow> 'a list" where
  "firsts xs = rev (remdups (rev xs))"

lemma firsts_snoc: "firsts (xs @ [x]) = (if x \<in> set xs then firsts xs else firsts xs @ [x])"
  by (simp add: firsts_def)

lemma firsts_props [simp]: "set (firsts xs) = set xs" "distinct (firsts xs)" "firsts [] = []"
  by (simp_all add: firsts_def)

lemma job_identity_listing: "job_identity sha1 (listing_to_job l u now) = listing_ident sha1 l"
  by (simp add: listing_ident_def job_identity_def listing_to_job_def)

lemma strip_not_blank: "strip s \<noteq> [] \<longleftrightarrow> (\<exists>c \<in> set s. \<not> is_space c)"
proof
  assume "strip s \<noteq> []"
  then have "lstrip s \<noteq> []" by (auto simp: strip_def rstrip_def)
  then show "\<exists>c \<in> set s. \<not> is_space c" by (simp add: lstrip_def dropWhile_eq_Nil_conv)
qed (use strip_keeps in \<open>metis empty_iff empty_set\<close>)

lemma strip_strip_blank: "strip (strip s) = [] \<longleftrightarrow> strip s = []"
  using strip_keeps set_strip unfolding strip_not_blank [of s, symmetric] by (metis strip_not_blank subsetD)

lemma keyed_proper: "keyed sha1 l \<Longrightarrow> proper_key (listing_key sha1 l)"
proof -
  have "strip (''url:'' @ x) \<noteq> []" for x
    unfolding strip_not_blank by (rule bexI [of _ "CHR ''u''"]) (simp_all add: is_space_def)
  then show "keyed sha1 l \<Longrightarrow> proper_key (listing_key sha1 l)"
    by (auto simp: keyed_def proper_key_def listing_key_def listing_ident_def job_identity_def Let_def strip_strip_blank
        split: if_splits)
qed

lemma unkeyed_improper: "\<not> keyed sha1 l \<Longrightarrow> \<not> proper_key (raw_key l)"
  by (auto simp: keyed_def proper_key_def raw_key_def listing_ident_def job_identity_def Let_def listing_to_job_def
      split: if_splits)

section \<open>The invariant of the folding\<close>

text \<open>
  After the listings \<open>ls\<close>, with \<open>rows\<close> the user's rows before the search. The answer has one row per key,
  in the order of the first listing of each, and one per listing without identity.
\<close>

record fold_inv_args =
  fi_sha1 :: "str \<Rightarrow> str"
  fi_gen :: "nat \<Rightarrow> str"
  fi_user :: str
  fi_rows :: "job list"

definition answer_inv :: "fold_inv_args \<Rightarrow> job_listing list \<Rightarrow> reg_state \<Rightarrow> bool" where
  "answer_inv A ls s \<longleftrightarrow>
     set (rg_seen s) = listing_key (fi_sha1 A) ` set (filter (keyed (fi_sha1 A)) ls)
   \<and> map job_key (filter (\<lambda>j. proper_key (job_key j)) (rg_all s))
       = firsts (map (listing_key (fi_sha1 A)) (filter (keyed (fi_sha1 A)) ls))
   \<and> length (filter (\<lambda>j. \<not> proper_key (job_key j)) (rg_all s)) = length (filter (\<lambda>l. \<not> keyed (fi_sha1 A) l) ls)
   \<and> set (rg_all s) \<subseteq> set (fi_rows A) \<union> set (rg_added s) \<and> set (rg_added s) \<subseteq> set (rg_all s)"

definition known_inv :: "fold_inv_args \<Rightarrow> reg_state \<Rightarrow> bool" where
  "known_inv A s \<longleftrightarrow>
     (\<forall>k j. map_of (rg_known s) k = Some j \<longrightarrow> job_key j = k \<and> j \<in> set (fi_rows A) \<union> set (rg_added s))
   \<and> (\<forall>k. map_of (rg_known s) k = None \<longrightarrow> k \<notin> job_key ` set (fi_rows A)
         \<and> (proper_key k \<longrightarrow> k \<notin> job_key ` set (rg_added s)))"

definition added_inv :: "fold_inv_args \<Rightarrow> job_listing list \<Rightarrow> reg_state \<Rightarrow> bool" where
  "added_inv A ls s \<longleftrightarrow>
     map j_id (rg_added s) = map (fi_gen A) [0..<length (rg_added s)]
   \<and> (\<forall>j \<in> set (rg_added s). j_user j = fi_user A)
   \<and> distinct (map job_key (filter (\<lambda>j. proper_key (job_key j)) (rg_added s)))
   \<and> (\<forall>j \<in> set (rg_added s). proper_key (job_key j) \<longrightarrow> job_key j \<notin> job_key ` set (fi_rows A))
   \<and> map job_key (filter (\<lambda>j. \<not> proper_key (job_key j)) (rg_added s)) = map raw_key (filter (\<lambda>l. \<not> keyed (fi_sha1 A) l) ls)"

definition fold_inv :: "fold_inv_args \<Rightarrow> job_listing list \<Rightarrow> reg_state \<Rightarrow> bool" where
  "fold_inv A ls s \<longleftrightarrow> answer_inv A ls s \<and> known_inv A s \<and> added_inv A ls s"

lemmas fold_parts = answer_inv_def known_inv_def added_inv_def

lemma map_of_rev_keys:
  assumes "distinct (map job_key rows)"
  shows "map_of (rev (map (\<lambda>j. (job_key j, j)) rows)) k = Some j \<longleftrightarrow> j \<in> set rows \<and> job_key j = k"
    and "map_of (rev (map (\<lambda>j. (job_key j, j)) rows)) k = None \<longleftrightarrow> k \<notin> job_key ` set rows"
proof -
  have "distinct (map fst (rev (map (\<lambda>j. (job_key j, j)) rows)))"
    using assms by (simp add: rev_map [symmetric] comp_def)
  then show "map_of (rev (map (\<lambda>j. (job_key j, j)) rows)) k = Some j \<longleftrightarrow> j \<in> set rows \<and> job_key j = k"
    by (auto simp: map_of_eq_Some_iff)
  show "map_of (rev (map (\<lambda>j. (job_key j, j)) rows)) k = None \<longleftrightarrow> k \<notin> job_key ` set rows"
    by (force simp: map_of_eq_None_iff)
qed

lemma fold_inv_start:
  assumes "fi_rows A = filter (\<lambda>j. j_user j = user) (jobs d)" and "distinct (map job_key (fi_rows A))"
  shows "fold_inv A [] (search_start user d)"
  using map_of_rev_keys [OF assms(2)] assms(1)
  by (simp add: fold_inv_def fold_parts search_start_def)

lemma job_key_update [simp]:
  "job_key (j\<lparr>j_id := i\<rparr>) = job_key j" "job_key (j\<lparr>j_platform_job_id := p\<rparr>) = (j_platform j, p)"
  by (simp_all add: job_key_def)

lemma listing_to_job_fields [simp]:
  "job_key (listing_to_job l u now) = raw_key l" "j_user (listing_to_job l u now) = u"
  "j_platform (listing_to_job l u now) = jl_platform l"
  by (simp_all add: job_key_def listing_to_job_def raw_key_def)

lemma fold_inv_register:
  assumes "fold_inv A ls s"
  shows "fold_inv A (ls @ [l]) (register_job (fi_sha1 A) (fi_gen A) (listing_to_job l (fi_user A) now) s)"
proof -
  let ?id = "listing_ident (fi_sha1 A) l" and ?j = "listing_to_job l (fi_user A) now"
  let ?k = "listing_key (fi_sha1 A) l"
  let ?new = "(?j\<lparr>j_platform_job_id := ?id\<rparr>)\<lparr>j_id := fi_gen A (length (rg_added s))\<rparr>"
  have k: "?k = (jl_platform l, ?id)" by (simp add: listing_key_def)
  have nk: "job_key ?new = ?k" by (simp add: k)
  from assms have inv: "answer_inv A ls s" "known_inv A s" "added_inv A ls s" by (simp_all add: fold_inv_def)
  show ?thesis
  proof (cases "?id = []")
    case True
    then have u: "\<not> keyed (fi_sha1 A) l" by (simp add: keyed_def)
    have r: "register_job (fi_sha1 A) (fi_gen A) ?j s = add_row (fi_gen A) ?j s"
      using True by (simp add: register_job_def job_identity_listing)
    show ?thesis
      unfolding fold_inv_def r add_row_def Let_def
    proof (intro conjI)
      let ?s = "s\<lparr>rg_added := rg_added s @ [?j\<lparr>j_id := fi_gen A (length (rg_added s))\<rparr>],
          rg_all := rg_all s @ [?j\<lparr>j_id := fi_gen A (length (rg_added s))\<rparr>]\<rparr>"
      show "answer_inv A (ls @ [l]) ?s" and "added_inv A (ls @ [l]) ?s"
        using inv u unkeyed_improper [OF u] by (auto simp: answer_inv_def added_inv_def)
      show "known_inv A ?s"
        using inv(2) unkeyed_improper [OF u] unfolding known_inv_def by auto
    qed
  next
    case False
    then have kd: "keyed (fi_sha1 A) l" by (simp add: keyed_def)
    note pk = keyed_proper [OF kd]
    show ?thesis
    proof (cases "?k \<in> set (rg_seen s)")
      case True
      then have "register_job (fi_sha1 A) (fi_gen A) ?j s = s"
        using False k by (simp add: register_job_def job_identity_listing)
      then show ?thesis using inv True kd unfolding fold_inv_def fold_parts by (auto simp: firsts_snoc)
    next
      case nseen: False
      show ?thesis
      proof (cases "map_of (rg_known s) ?k")
        case (Some j)
        then have r: "register_job (fi_sha1 A) (fi_gen A) ?j s = s\<lparr>rg_seen := ?k # rg_seen s, rg_all := rg_all s @ [j]\<rparr>"
          using False nseen k by (simp add: register_job_def job_identity_listing Let_def)
        have jk: "job_key j = ?k" "j \<in> set (fi_rows A) \<union> set (rg_added s)"
          using inv(2) Some unfolding known_inv_def by blast+
        have "known_inv A (s\<lparr>rg_seen := ?k # rg_seen s, rg_all := rg_all s @ [j]\<rparr>)"
          and "added_inv A (ls @ [l]) (s\<lparr>rg_seen := ?k # rg_seen s, rg_all := rg_all s @ [j]\<rparr>)"
          using inv kd by (simp_all add: known_inv_def added_inv_def)
        moreover have "answer_inv A (ls @ [l]) (s\<lparr>rg_seen := ?k # rg_seen s, rg_all := rg_all s @ [j]\<rparr>)"
          using inv(1) nseen kd jk pk unfolding answer_inv_def by (auto simp: firsts_snoc)
        ultimately show ?thesis by (simp add: fold_inv_def r)
      next
        case None
        let ?s = "s\<lparr>rg_added := rg_added s @ [?new], rg_all := rg_all s @ [?new], rg_seen := ?k # rg_seen s,
            rg_known := (?k, ?new) # rg_known s\<rparr>"
        have r: "register_job (fi_sha1 A) (fi_gen A) ?j s = ?s"
          using None False nseen k by (simp add: register_job_def job_identity_listing Let_def add_row_def)
        have fresh: "?k \<notin> job_key ` set (fi_rows A)" "?k \<notin> job_key ` set (rg_added s)"
          using inv(2) None pk unfolding known_inv_def by blast+
        have "answer_inv A (ls @ [l]) ?s"
          using inv(1) nseen kd pk nk unfolding answer_inv_def by (auto simp: firsts_snoc)
        moreover have "added_inv A (ls @ [l]) ?s"
          using inv(3) kd pk nk fresh unfolding added_inv_def by auto
        moreover have "known_inv A ?s"
          unfolding known_inv_def
        proof (intro conjI allI impI)
          fix k' j assume a: "map_of (rg_known ?s) k' = Some j"
          have old: "map_of (rg_known s) k' = Some j \<Longrightarrow> job_key j = k' \<and> j \<in> set (fi_rows A) \<union> set (rg_added s)"
            using inv(2) unfolding known_inv_def by blast
          from a have "k' = ?k \<and> j = ?new \<or> map_of (rg_known s) k' = Some j" by (auto split: if_splits)
          then show "job_key j = k'" "j \<in> set (fi_rows A) \<union> set (rg_added ?s)" using old nk by auto
        next
          fix k' assume n: "map_of (rg_known ?s) k' = None"
          then have "k' \<noteq> ?k" "map_of (rg_known s) k' = None" by (auto split: if_splits)
          with inv(2) have o: "k' \<notin> job_key ` set (fi_rows A)" "proper_key k' \<longrightarrow> k' \<notin> job_key ` set (rg_added s)"
            unfolding known_inv_def by blast+
          show "k' \<notin> job_key ` set (fi_rows A)" by (rule o(1))
          assume "proper_key k'"
          with o(2) \<open>k' \<noteq> ?k\<close> nk show "k' \<notin> job_key ` set (rg_added ?s)" by auto
        qed
        ultimately show ?thesis by (simp add: fold_inv_def r)
      qed
    qed
  qed
qed

lemma fold_inv_listings:
  "fold_inv A xs s \<Longrightarrow>
   fold_inv A (xs @ ls) (register_listings (fi_sha1 A) (fi_gen A) (fi_user A) now ls s)"
proof (induction ls rule: rev_induct)
  case Nil
  then show ?case by (simp add: register_listings_def)
next
  case (snoc l ls)
  then have "fold_inv A ((xs @ ls) @ [l])
      (register_job (fi_sha1 A) (fi_gen A) (listing_to_job l (fi_user A) now)
        (register_listings (fi_sha1 A) (fi_gen A) (fi_user A) now ls s))"
    by (intro fold_inv_register) simp
  then show ?case by (simp add: register_listings_def)
qed

section \<open>Properties of the search\<close>

text \<open>
  Whether the rows added can be committed: the listings without identity must not repeat the platform and
  raw id of one another or of a row that the user has.
\<close>

definition no_clash :: "(str \<Rightarrow> str) \<Rightarrow> str \<Rightarrow> db \<Rightarrow> job_listing list \<Rightarrow> bool" where
  "no_clash sha1 user d ls \<longleftrightarrow>
     distinct (map raw_key (filter (\<lambda>l. \<not> keyed sha1 l) ls))
     \<and> list_all (\<lambda>l. raw_key l \<notin> job_key ` set (filter (\<lambda>j. j_user j = user) (jobs d))) (filter (\<lambda>l. \<not> keyed sha1 l) ls)"

lemma distinct_by_proper:
  "distinct (map job_key xs) \<longleftrightarrow> distinct (map job_key (filter (\<lambda>j. proper_key (job_key j)) xs))
     \<and> distinct (map job_key (filter (\<lambda>j. \<not> proper_key (job_key j)) xs))"
  by (induction xs) auto

lemma images_disjoint: "f ` X \<inter> g ` Y = {} \<longleftrightarrow> (\<forall>x \<in> X. \<forall>y \<in> Y. f x \<noteq> g y)"
  by auto

lemma added_keys:
  assumes "added_inv A ls s"
  shows "distinct (map job_key (rg_added s)) \<and> set (map job_key (rg_added s)) \<inter> job_key ` set (fi_rows A) = {}
    \<longleftrightarrow> distinct (map raw_key (filter (\<lambda>l. \<not> keyed (fi_sha1 A) l) ls))
      \<and> list_all (\<lambda>l. raw_key l \<notin> job_key ` set (fi_rows A)) (filter (\<lambda>l. \<not> keyed (fi_sha1 A) l) ls)"
proof -
  have imp: "map job_key (filter (\<lambda>j. \<not> proper_key (job_key j)) (rg_added s)) = map raw_key (filter (\<lambda>l. \<not> keyed (fi_sha1 A) l) ls)"
    and pr: "distinct (map job_key (filter (\<lambda>j. proper_key (job_key j)) (rg_added s)))"
    and out: "\<And>j. j \<in> set (rg_added s) \<Longrightarrow> proper_key (job_key j) \<Longrightarrow> job_key j \<notin> job_key ` set (fi_rows A)"
    using assms unfolding added_inv_def by blast+
  have sets: "job_key ` {j \<in> set (rg_added s). \<not> proper_key (job_key j)} = raw_key ` {l \<in> set ls. \<not> keyed (fi_sha1 A) l}"
    using arg_cong [OF imp, of set] by simp
  have "set (map job_key (rg_added s)) \<inter> job_key ` set (fi_rows A) = {}
      \<longleftrightarrow> raw_key ` {l \<in> set ls. \<not> keyed (fi_sha1 A) l} \<inter> job_key ` set (fi_rows A) = {}"
    unfolding sets [symmetric] set_map using out by (simp only: images_disjoint) blast
  moreover have "raw_key ` {l \<in> set ls. \<not> keyed (fi_sha1 A) l} \<inter> job_key ` set (fi_rows A) = {}
      \<longleftrightarrow> list_all (\<lambda>l. raw_key l \<notin> job_key ` set (fi_rows A)) (filter (\<lambda>l. \<not> keyed (fi_sha1 A) l) ls)"
    unfolding list_all_iff set_filter by blast
  ultimately show ?thesis
    unfolding distinct_by_proper [of "rg_added s"] imp using pr by blast
qed

lemma uq_job_added:
  assumes "uq_job_platform_id js" and "\<forall>j \<in> set new. j_user j = user"
  shows "uq_job_platform_id (js @ new) \<longleftrightarrow> distinct (map job_key new)
    \<and> set (map job_key new) \<inter> job_key ` set (filter (\<lambda>j. j_user j = user) js) = {}"
proof -
  let ?k = "\<lambda>j. (j_user j, j_platform j, j_platform_job_id j)"
  have new: "map ?k new = map (Pair user) (map job_key new)" using assms(2) by (simp add: job_key_def)
  have "distinct (map ?k new) \<longleftrightarrow> distinct (map job_key new)"
    unfolding new by (simp add: distinct_map inj_on_def)
  moreover have "?k ` set js \<inter> ?k ` set new = {} \<longleftrightarrow> set (map job_key new) \<inter> job_key ` set (filter (\<lambda>j. j_user j = user) js) = {}"
  proof -
    have "?k x = ?k y \<longleftrightarrow> j_user x = user \<and> job_key y = job_key x" if "y \<in> set new" for x y
      using that assms(2) by (auto simp: job_key_def)
    then show ?thesis unfolding set_map set_filter images_disjoint by blast
  qed
  ultimately show ?thesis using assms(1) by (simp add: uq_job_platform_id_def)
qed

lemma db_ok_jobs:
  assumes "db_ok d"
  shows "db_ok (d\<lparr>jobs := js\<rparr>) \<longleftrightarrow> distinct (map j_id js) \<and> uq_job_platform_id js"
  using assms by (auto simp: db_ok_def pk_ok_def)

lemma user_keys_distinct:
  "uq_job_platform_id js \<Longrightarrow> distinct (map job_key (filter (\<lambda>j. j_user j = user) js))"
proof -
  assume "uq_job_platform_id js"
  then have "distinct (map (\<lambda>j. (j_user j, j_platform j, j_platform_job_id j)) (filter (\<lambda>j. j_user j = user) js))"
    unfolding uq_job_platform_id_def by (rule distinct_map_filter)
  then show ?thesis unfolding distinct_map by (auto simp: inj_on_def job_key_def)
qed

text \<open>
  C33: what a search does. It threads the platforms and answers with one row for each identity found, in the
  order of its first listing, and one for each listing without identity. The user's own rows are reused,
  every other row of the answer is added to the database, and no constraint is broken; but when two
  listings without identity coincide, or one coincides with a stored row, the commit fails, and then
  everything found is dropped: the database is unchanged and the answer is empty.
\<close>

theorem search_jobs_spec:
  assumes "db_ok d" and "inj gen" and "\<And>k. gen k \<notin> j_id ` set (jobs d)"
    and "js_platforms rq \<noteq> []" and "platform_found S rq (js_platforms rq) w = (w', found)"
    and "ls = found @ exa_found S rq" and "sha = se_sha1 S"
  shows "if no_clash sha user d ls
    then \<exists>new all. search_jobs S gen rq user now (w, d) = ((w', d\<lparr>jobs := jobs d @ new\<rparr>), search_response (js_limit rq) all)
      \<and> db_ok (d\<lparr>jobs := jobs d @ new\<rparr>)
      \<and> map job_key (filter (\<lambda>j. proper_key (job_key j)) all) = firsts (map (listing_key sha) (filter (keyed sha) ls))
      \<and> length all = length (firsts (map (listing_key sha) (filter (keyed sha) ls))) + length (filter (\<lambda>l. \<not> keyed sha l) ls)
      \<and> set all \<subseteq> {j \<in> set (jobs d). j_user j = user} \<union> set new
      \<and> list_all (\<lambda>j. j_user j = user \<and> job_key j \<notin> job_key ` {j \<in> set (jobs d). j_user j = user}) new
    else search_jobs S gen rq user now (w, d) = ((w', d), search_response (js_limit rq) [])"
proof -
  let ?rows = "filter (\<lambda>j. j_user j = user) (jobs d)"
  define A where "A = \<lparr>fi_sha1 = sha, fi_gen = gen, fi_user = user, fi_rows = ?rows\<rparr>"
  define s where "s = register_listings sha gen user now ls (search_start user d)"
  have uq: "uq_job_platform_id (jobs d)" and pk: "distinct (map j_id (jobs d))"
    using assms(1) by (simp_all add: db_ok_def pk_ok_def)
  have "fold_inv A [] (search_start user d)"
    using fold_inv_start [of A user d] user_keys_distinct [OF uq] by (simp add: A_def)
  from fold_inv_listings [OF this, of ls now] have inv: "fold_inv A ls s" by (simp add: A_def s_def)
  then have ans: "answer_inv A ls s" and add: "added_inv A ls s" by (simp_all add: fold_inv_def)
  have own: "\<forall>j \<in> set (rg_added s). j_user j = user"
    and ids: "map j_id (rg_added s) = map gen [0..<length (rg_added s)]"
    using add unfolding added_inv_def by (simp_all add: A_def)
  have run: "search_jobs S gen rq user now (w, d) =
      (case search_commit (js_limit rq) s d of (d', r) \<Rightarrow> ((w', d'), r))"
    using assms(4,5) unfolding s_def assms(6,7)
    by (simp add: search_jobs_def platform_loop_found register_listings_append Let_def split: prod.split)
  have "j_id ` set (jobs d) \<inter> gen ` {0..<n} = {}" for n
    using assms(3) unfolding disjoint_iff by (metis imageE)
  moreover have "distinct (map gen [0..<n])" for n
    using inj_on_subset [OF assms(2) subset_UNIV] by (simp add: distinct_map)
  moreover have "map j_id (jobs d @ rg_added s) = map j_id (jobs d) @ map gen [0..<length (rg_added s)]"
    by (simp add: ids)
  ultimately have "distinct (map j_id (jobs d @ rg_added s))" using pk by (simp only: distinct_append set_map set_upt simp_thms)
  then have ok: "db_ok (d\<lparr>jobs := jobs d @ rg_added s\<rparr>) \<longleftrightarrow> no_clash sha user d ls"
    using added_keys [OF add] uq_job_added [OF uq own] unfolding db_ok_jobs [OF assms(1)] no_clash_def
    by (simp add: A_def)
  have all: "map job_key (filter (\<lambda>j. proper_key (job_key j)) (rg_all s)) = firsts (map (listing_key sha) (filter (keyed sha) ls))"
    "set (rg_all s) \<subseteq> {j \<in> set (jobs d). j_user j = user} \<union> set (rg_added s)"
    "length (filter (\<lambda>j. \<not> proper_key (job_key j)) (rg_all s)) = length (filter (\<lambda>l. \<not> keyed sha l) ls)"
    using ans unfolding answer_inv_def by (simp_all add: A_def)
  have len: "length (rg_all s) = length (firsts (map (listing_key sha) (filter (keyed sha) ls))) + length (filter (\<lambda>l. \<not> keyed sha l) ls)"
    using arg_cong [OF all(1), of length] all(3) sum_length_filter_compl [of "\<lambda>j. proper_key (job_key j)" "rg_all s"]
    by simp
  show ?thesis
  proof (cases "no_clash sha user d ls")
    case True
    with ok have okd: "db_ok (d\<lparr>jobs := jobs d @ rg_added s\<rparr>)" by simp
    have "distinct (map job_key (rg_added s)) \<and> set (map job_key (rg_added s)) \<inter> job_key ` set ?rows = {}"
      using okd uq_job_added [OF uq own] by (simp add: db_ok_jobs [OF assms(1)])
    then have new: "list_all (\<lambda>j. j_user j = user \<and> job_key j \<notin> job_key ` {j \<in> set (jobs d). j_user j = user}) (rg_added s)"
      using own by (auto simp: list_all_iff)
    have "search_commit (js_limit rq) s d = (d\<lparr>jobs := jobs d @ rg_added s\<rparr>, search_response (js_limit rq) (rg_all s))"
    proof (cases "rg_all s = []")
      case True
      have "rg_added s = []" using ans True unfolding answer_inv_def by auto
      then show ?thesis using True by (simp add: search_commit_def)
    next
      case False
      then show ?thesis using okd by (simp add: search_commit_def commit_def)
    qed
    then show ?thesis using True run okd all(1,2) len new by auto
  next
    case False
    with ok have "search_commit (js_limit rq) s d = (d, search_response (js_limit rq) [])"
      by (simp add: search_commit_def commit_def)
    then show ?thesis using False run by simp
  qed
qed

definition ready_pworld :: pworld where
  "ready_pworld = sample_pworld\<lparr>pw_runs := [\<lparr>at_task = [], at_sensitive = []\<rparr>]\<rparr>"

definition sample_search :: "agent_result \<Rightarrow> search_env" where
  "sample_search r =
     \<lparr>se_browser = sample_browser r, se_registry = builtin_platforms,
      se_exa = \<lparr>xe_key = [], xe_importable = True, xe_client = (\<lambda>_. Inr []), xe_since = (\<lambda>_. []),
                xe_netloc = Inr\<rparr>, se_sha1 = (\<lambda>s. s)\<rparr>"

definition sample_rq :: job_search_request where
  "sample_rq = \<lparr>js_query = ''python'', js_location = [], js_platforms = [''linkedin''], js_filters = [], js_limit = 20\<rparr>"

lemma sample_answer: "\<exists>w'. with_agent (be_lib (sample_browser r)) (be_keep_alive (sample_browser r)) t ready_pworld = (w', Inr r)"
  by (simp add: with_agent_def agent_run_def sample_browser_def sample_lib_def ready_pworld_def sample_pworld_def
      Let_def close_browser_def)

lemma sample_found:
  assumes "parse_items strict_pydantic ''linkedin'' xs = Inr ls"
  shows "\<exists>w'. platform_found (sample_search (PlainValue (JList xs))) sample_rq [''linkedin''] ready_pworld = (w', ls)"
proof -
  let ?r = "PlainValue (JList xs)"
  have reg: "map_of builtin_platforms ''linkedin'' = Some LinkedInPlatform"
    by (simp add: builtin_platforms_def registry_register_lookup)
  obtain w' where "with_agent (be_lib (sample_browser ?r)) (be_keep_alive (sample_browser ?r))
      \<lparr>at_task = pt_search linkedin (pt_search_url linkedin ''python'' []) [], at_sensitive = []\<rparr> ready_pworld = (w', Inr ?r)"
    using sample_answer by blast
  then show ?thesis
    using assms reg
    by (simp add: sample_search_def sample_rq_def platform_search_def texts_of_def parse_search_results_def
        coerce_agent_list_def agent_payload_def linkedin_def sample_browser_def [of ?r])
qed

definition blank_items :: "jvalue list" where
  "blank_items = [sample_item (JStr []) [], sample_item (JStr []) [], sample_item (JStr ''7'') ''u2'']"

theorem search_jobs_spec_witness:
  "\<exists>w'. search_jobs (sample_search (PlainValue (JList blank_items))) (\<lambda>k. ''x'' @ replicate k CHR ''y'') sample_rq ''u1'' 9
     (ready_pworld, sample_db) = ((w', sample_db), search_response 20 [])"
proof -
  let ?S = "sample_search (PlainValue (JList blank_items))"
  have inj: "inj (\<lambda>k. ''x'' @ replicate k (CHR ''y''))" by (auto simp: inj_def dest: arg_cong [of _ _ length])
  obtain ls where ls: "parse_items strict_pydantic ''linkedin'' blank_items = Inr ls"
    and two: "map raw_key (filter (\<lambda>l. \<not> keyed (\<lambda>s. s) l) ls) = [(''linkedin'', []), (''linkedin'', [])]"
    by (simp add: blank_items_def sample_item_def listing_of_item_def strict_pydantic_def json_get_def raw_key_def
        keyed_def listing_ident_def job_identity_def listing_to_job_def strip_def rstrip_def lstrip_def is_space_def)
  obtain w' where w': "platform_found ?S sample_rq (js_platforms sample_rq) ready_pworld = (w', ls)"
    using sample_found [OF ls] by (auto simp: sample_rq_def)
  have exa: "exa_found ?S sample_rq = []" by (simp add: exa_found_def exa_available_def sample_search_def)
  have clash: "\<not> no_clash (se_sha1 ?S) ''u1'' sample_db (ls @ exa_found ?S sample_rq)"
    using two by (simp add: no_clash_def exa sample_search_def)
  have fresh: "\<And>k. (\<lambda>k. ''x'' @ replicate k (CHR ''y'')) k \<notin> j_id ` set (jobs sample_db)"
    by (simp add: sample_defs)
  have ps: "js_platforms sample_rq \<noteq> []" and lim: "js_limit sample_rq = 20" by (simp_all add: sample_rq_def)
  show ?thesis
    using search_jobs_spec [OF sample_db_ok inj fresh ps w' refl refl, of "''u1''" 9] clash
    by (simp add: lim)
qed

text \<open>
  listings whose id is null collapse. When every object that the agent of a platform returns has a null
  id, which the integration turns into the text \<^verbatim>\<open>None\<close>, the whole search is answered by one job, however
  many jobs and addresses were found.
\<close>

theorem null_ids_collapse:
  assumes "db_ok d" and "inj gen" and "\<And>k. gen k \<notin> j_id ` set (jobs d)"
    and "js_platforms rq = [p]" and "map_of (se_registry S) p = Some c" and "\<not> exa_available (se_exa S)"
    and "with_agent (be_lib (se_browser S)) (be_keep_alive (se_browser S))
      \<lparr>at_task = pt_search (texts_of c) (pt_search_url (texts_of c) (js_query rq) (js_location rq))
         (case if js_filters rq = [] then None else Some (js_filters rq) of
            None \<Rightarrow> [] | Some f \<Rightarrow> pt_filters (texts_of c) (be_val (se_browser S)) f), at_sensitive = []\<rparr> w = (w', Inr r)"
    and "os = objects (coerce_agent_list (be_val (se_browser S)) r)" and "os \<noteq> []"
    and "list_all (\<lambda>o'. map_of o' ''id'' = Some JNull
           \<and> (\<exists>l. listing_of_item (be_val (se_browser S)) (pt_name (texts_of c)) o' = Inr l)) os"
  shows "jr_total (snd (search_jobs S gen rq user now (w, d))) = 1"
proof -
  let ?E = "se_browser S" and ?P = "texts_of c"
  define found where "found = map (\<lambda>o'. projr (listing_of_item (be_val ?E) (pt_name ?P) o')) os"
  have ids: "listing_ident sha l = ''None'' \<and> jl_platform l = pt_name ?P" if "l \<in> set found" for l sha
  proof -
    from that obtain o' where o': "o' \<in> set os" "l = projr (listing_of_item (be_val ?E) (pt_name ?P) o')"
      unfolding found_def by auto
    with assms(10) have "map_of o' ''id'' = Some JNull" "listing_of_item (be_val ?E) (pt_name ?P) o' = Inr l"
      unfolding list_all_iff by force+
    with listing_of_item_fields have "jl_job_id l = ''None''" "jl_platform l = pt_name ?P"
      by (fastforce simp: json_get_def)+
    then show ?thesis
      by (simp add: listing_ident_def job_identity_def listing_to_job_def strip_def rstrip_def lstrip_def is_space_def)
  qed
  have "platform_search ?E ?P (js_query rq) (js_location rq) 
      (if js_filters rq = [] then None else Some (js_filters rq)) w = (w', Inr found)"
    using assms(7,8,10)
    by (simp add: platform_search_def parse_search_results_def parse_items_spec found_def list_all_iff del: if_split)
  then have pf: "platform_found S rq (js_platforms rq) w = (w', found)"
    using assms(4,5) by (simp del: if_split)
  have exa: "exa_found S rq = []" using assms(6) by (simp add: exa_found_def)
  have kd: "filter (keyed (se_sha1 S)) found = found" "filter (\<lambda>l. \<not> keyed (se_sha1 S) l) found = []"
    using ids by (auto simp: keyed_def filter_id_conv filter_empty_conv)
  then have ok: "no_clash (se_sha1 S) user d (found @ exa_found S rq)"
    by (simp add: no_clash_def exa)
  have "map (listing_key (se_sha1 S)) found = map (\<lambda>_. (pt_name ?P, ''None'')) found"
    using ids by (intro map_cong) (simp_all add: listing_key_def)
  moreover have "found \<noteq> []" using assms(9) by (simp add: found_def)
  then have "set (map (\<lambda>_. (pt_name ?P, ''None'')) found) = {(pt_name ?P, ''None'')}" by (cases found) auto
  ultimately have "set (map (listing_key (se_sha1 S)) found) = {(pt_name ?P, ''None'')}" by simp
  then have "set (firsts (map (listing_key (se_sha1 S)) found)) = {(pt_name ?P, ''None'')}" by (simp only: firsts_props)
  then have one: "length (firsts (map (listing_key (se_sha1 S)) found)) = 1"
    using distinct_card [OF firsts_props(2), of "map (listing_key (se_sha1 S)) found"] by simp
  have ne: "js_platforms rq \<noteq> []" using assms(4) by simp
  from search_jobs_spec [OF assms(1-3) ne pf refl refl, of user now] ok
  obtain new all where "search_jobs S gen rq user now (w, d) = ((w', d\<lparr>jobs := jobs d @ new\<rparr>), search_response (js_limit rq) all)"
    and "length all = 1"
    using one kd by (auto simp: exa)
  then show ?thesis by (simp add: search_response_def)
qed

theorem null_ids_collapse_witness:
  "jr_total (snd (search_jobs (sample_search (PlainValue (JList [sample_item JNull ''u1'', sample_item JNull ''u2''])))
     (\<lambda>k. ''x'' @ replicate k CHR ''y'') sample_rq ''u1'' 9 (ready_pworld, sample_db))) = 1"
proof -
  let ?r = "PlainValue (JList [sample_item JNull ''u1'', sample_item JNull ''u2''])"
  let ?S = "sample_search ?r"
  have inj: "inj (\<lambda>k. ''x'' @ replicate k (CHR ''y''))" by (auto simp: inj_def dest: arg_cong [of _ _ length])
  have fresh: "\<And>k. (\<lambda>k. ''x'' @ replicate k (CHR ''y'')) k \<notin> j_id ` set (jobs sample_db)"
    by (simp add: sample_defs)
  have reg: "map_of (se_registry ?S) ''linkedin'' = Some LinkedInPlatform"
    by (simp add: sample_search_def builtin_platforms_def registry_register_lookup)
  have ps: "js_platforms sample_rq = [''linkedin'']" by (simp add: sample_rq_def)
  have exa: "\<not> exa_available (se_exa ?S)" by (simp add: exa_available_def sample_search_def)
  have br: "se_browser ?S = sample_browser ?r" by (simp add: sample_search_def)
  obtain w' where w': "with_agent (be_lib (se_browser ?S)) (be_keep_alive (se_browser ?S))
      \<lparr>at_task = pt_search (texts_of LinkedInPlatform) (pt_search_url (texts_of LinkedInPlatform) (js_query sample_rq) (js_location sample_rq))
         (case if js_filters sample_rq = [] then None else Some (js_filters sample_rq) of
            None \<Rightarrow> [] | Some f \<Rightarrow> pt_filters (texts_of LinkedInPlatform) (be_val (se_browser ?S)) f), at_sensitive = []\<rparr>
      ready_pworld = (w', Inr ?r)"
    unfolding br using sample_answer by blast
  have val: "be_val (se_browser ?S) = strict_pydantic" by (simp add: br sample_browser_def [of ?r])
  show ?thesis
  proof (rule null_ids_collapse [OF sample_db_ok inj fresh ps reg exa w' refl])
    show "objects (coerce_agent_list (be_val (se_browser ?S)) ?r) \<noteq> []"
      and "list_all (\<lambda>o'. map_of o' ''id'' = Some JNull
           \<and> (\<exists>l. listing_of_item (be_val (se_browser ?S)) (pt_name (texts_of LinkedInPlatform)) o' = Inr l))
         (objects (coerce_agent_list (be_val (se_browser ?S)) ?r))"
      unfolding val by (simp_all add: coerce_agent_list_def agent_payload_def sample_item_def
          listing_of_item_def strict_pydantic_def json_get_def)
  qed
qed

section \<open>Properties of the stored jobs\<close>

lemma has_skill_perm: "set xs = set ys \<Longrightarrow> missing_skills xs zs = missing_skills ys zs"
  by (auto simp: missing_skills_def has_skill_def list_ex_iff intro!: filter_cong)

lemma score_skills_perm: "set xs = set ys \<Longrightarrow> score_skills xs r p = score_skills ys r p"
  by (simp add: score_skills_def match_ratio_def has_skill_perm [of xs ys])

text \<open>
  the two analyses agree. Whoever asks, the analysis of a job against a resume gives the same match, skill
  and keyword scores, missing skills and suggestions as the resume's score for the job.
\<close>

theorem analyses_agree:
  assumes "score_resume (Some N) c rid jid d = Inr s" and "rid \<noteq> []"
    and "get_resume c rid d = Inr r" and "strip (or_empty (r_content_text r)) \<noteq> []"
  shows "\<exists>a. analyze_job (Some N) c jid (Some rid) d = Inr a
    \<and> (ja_match a, ja_skill a, ja_keyword a, ja_missing a, ja_suggestions a)
      = (sr_overall s, sr_skill s, sr_keyword s, sr_missing s, sr_suggestions s)"
proof -
  let ?x = "or_empty (r_content_text r)"
  obtain j where j: "get_job_row c jid d = Inr j"
    and s: "s = score_with_full_engine N rid jid ?x (j_description j) j"
    using assms(1,3,4) by (auto simp: score_resume_def Let_def split: sum.splits)
  have gj: "get_job c jid d = Inr j" using j by (simp add: get_job_def get_job_row_def)
  have gr: "find_row c r_user r_id rid (resumes d) = Inr (Some r)"
    using assms(3) by (auto simp: get_resume_def split: sum.splits option.splits)
  have ne: "?x \<noteq> []" using assms(4) by (auto simp: strip_def rstrip_def lstrip_def)
  have perm: "score_skills (extract_skills ?x) req pref = score_skills (sort (extract_skills ?x)) req pref" for req pref
    by (rule score_skills_perm) simp
  have "analyze_job (Some N) c jid (Some rid) d = Inr (engine_analysis N ?x j)"
    using gj gr ne assms(2) by (simp add: analyze_job_def)
  then show ?thesis
    unfolding s
    by (simp add: engine_analysis_def score_with_full_engine_def Let_def scorer_score_resume_def perm split: prod.split)
qed

theorem analyses_agree_witness:
  "\<exists>s a. score_resume (Some silent_nlp) (Some ''u1'') ''r1'' ''j1'' resume_db = Inr s
     \<and> analyze_job (Some silent_nlp) (Some ''u1'') ''j1'' (Some ''r1'') resume_db = Inr a
     \<and> (ja_match a, ja_skill a, ja_keyword a, ja_missing a, ja_suggestions a)
       = (sr_overall s, sr_skill s, sr_keyword s, sr_missing s, sr_suggestions s)"
proof -
  have pk: "pk_ok resume_db" using resume_db_ok by (simp add: db_ok_def)
  have gr: "get_resume (Some ''u1'') ''r1'' resume_db = Inr readable_resume"
    using get_resume_present [OF pk, of readable_resume "''u1''"] by (simp add: resume_db_def readable_resume_def)
  have gj: "get_job_row (Some ''u1'') ''j1'' resume_db = Inr sample_job"
    using get_job_present [OF pk, of sample_job "''u1''"]
    by (simp add: resume_db_def scored_db_def sample_db_def) (simp add: sample_job_def)
  have x: "strip (or_empty (r_content_text readable_resume)) \<noteq> []" using readable_text by (simp add: readable_resume_def)
  from score_resume_text [OF gr gj, of "Some silent_nlp"] obtain s
    where s: "score_resume (Some silent_nlp) (Some ''u1'') ''r1'' ''j1'' resume_db = Inr s" by blast
  have ne: "''r1'' \<noteq> []" by simp
  show ?thesis using analyses_agree [OF s ne gr x] s by blast
qed

lemma uq_app_filter: "uq_app_active_job xs \<Longrightarrow> uq_app_active_job (filter p xs)"
  using distinct_map_filter_sub [of app_key is_active_app xs "\<lambda>x. p x \<and> is_active_app x"]
  by (simp add: uq_app_active_job_def)

text \<open>
  deleting a job. Its owner removes the job and all its applications, whatever their state, and the resumes
  made for it stay without a job; the constraints hold, the job is gone, and the jobs of every other user
  stay. For every other user the job does not exist, and nothing changes.
\<close>

theorem delete_job_spec:
  assumes "db_ok d" and "j \<in> set (jobs d)" and "v \<noteq> j_user j"
  shows "\<exists>d'. delete_job (Some (j_user j)) (j_id j) d = (d', Inr ()) \<and> db_ok d'
      \<and> jobs d' = filter (\<lambda>x. x \<noteq> j) (jobs d)
      \<and> applications d' = filter (\<lambda>a. a_job a \<noteq> j_id j) (applications d)
      \<and> map r_id (resumes d') = map r_id (resumes d) \<and> Some (j_id j) \<notin> r_job_id ` set (resumes d')
      \<and> job_tbl.view v d' = job_tbl.view v d
      \<and> get_job (Some (j_user j)) (j_id j) d' = Inl (RecordNotFoundError ''Job'' (j_id j))
      \<and> delete_job (Some v) (j_id j) d = (d, Inl (RecordNotFoundError ''Job'' (j_id j)))"
proof -
  have pk: "pk_ok d" and pkj: "distinct (map j_id (jobs d))" using assms(1) by (simp_all add: db_ok_def pk_ok_def)
  define d' where "d' = d\<lparr>jobs := filter (\<lambda>x. j_id x \<noteq> j_id j) (jobs d),
      applications := filter (\<lambda>a. a_job a \<noteq> j_id j) (applications d),
      resumes := update_where (\<lambda>r. r_job_id r = Some (j_id j)) (\<lambda>r. r\<lparr>r_job_id := None\<rparr>) (resumes d)\<rparr>"
  have rid: "map r_id (resumes d') = map r_id (resumes d)" by (simp add: d'_def map_update_where)
  have ok: "db_ok d'"
  proof -
    have "uq_job_platform_id (filter (\<lambda>x. j_id x \<noteq> j_id j) (jobs d))"
      using assms(1) distinct_map_filter by (simp add: db_ok_def uq_job_platform_id_def) blast
    moreover have "uq_app_active_job (filter (\<lambda>a. a_job a \<noteq> j_id j) (applications d))"
      using assms(1) by (intro uq_app_filter) (simp add: db_ok_def)
    moreover have "pk_ok d'" using pk rid by (simp add: pk_ok_def d'_def distinct_map_filter)
    ultimately show ?thesis using assms(1) by (simp add: db_ok_def d'_def)
  qed
  have get: "get_job (Some (j_user j)) (j_id j) d = Inr j"
    using job_tbl.find_present [OF pk assms(2) refl refl] by (simp add: get_job_def)
  have del: "delete_job (Some (j_user j)) (j_id j) d = (d', Inr ())"
    using get ok by (simp add: delete_job_def commit_def d'_def)
  have js: "jobs d' = filter (\<lambda>x. x \<noteq> j) (jobs d)"
    using key_unique [OF pkj _ assms(2)] by (auto simp: d'_def intro!: filter_cong)
  have vw: "job_tbl.view v d' = job_tbl.view v d"
    using assms(3) by (auto simp: job_tbl.view_def js intro!: filter_cong)
  have gone: "get_job (Some (j_user j)) (j_id j) d' = Inl (RecordNotFoundError ''Job'' (j_id j))"
    by (simp add: get_job_def find_row_def d'_def filter_empty_conv scalar_one_None [THEN iffD2])
  have foreign: "delete_job (Some v) (j_id j) d = (d, Inl (RecordNotFoundError ''Job'' (j_id j)))"
    using job_tbl.find_foreign [OF pk assms(2) assms(3) [symmetric] refl] by (simp add: delete_job_def get_job_def)
  have "set (resumes d') = (\<lambda>r. r\<lparr>r_job_id := None\<rparr>) ` {r \<in> set (resumes d). r_job_id r = Some (j_id j)}
      \<union> {r \<in> set (resumes d). r_job_id r \<noteq> Some (j_id j)}"
    by (simp add: d'_def set_update_where)
  then have "Some (j_id j) \<notin> r_job_id ` set (resumes d')" by (simp add: image_Un image_image) auto
  then show ?thesis using del ok js rid vw gone foreign by (intro exI [of _ d']) (simp add: d'_def)
qed

theorem delete_job_spec_witness:
  "\<exists>d'. delete_job (Some ''u1'') ''j1'' staged_db = (d', Inr ()) \<and> db_ok d'
     \<and> map a_id (applications d') = [''a2''] \<and> map j_id (jobs d') = [''j2'']
     \<and> delete_job (Some ''u2'') ''j1'' staged_db = (staged_db, Inl (RecordNotFoundError ''Job'' ''j1''))"
proof -
  have j: "sample_job \<in> set (jobs staged_db)" by (simp add: staged_db_def sample_db_def)
  have u: "j_user sample_job = ''u1''" "j_id sample_job = ''j1''" by (simp_all add: sample_job_def)
  have v: "''u2'' \<noteq> j_user sample_job" by (simp add: u)
  have "map a_id (filter (\<lambda>a. a_job a \<noteq> ''j1'') (applications staged_db)) = [''a2'']"
    by (simp add: staged_db_def new_application_def)
  moreover have "map j_id (filter (\<lambda>x. x \<noteq> sample_job) (jobs staged_db)) = [''j2'']"
    by (simp add: staged_db_def sample_db_def) (simp add: sample_job_def)
  ultimately show ?thesis
    using delete_job_spec [OF staged_db_ok j v] unfolding u by (metis (no_types))
qed

end
