(* ===== verification/Runtime.thy ===== *)
theory Runtime
  imports Harness Documents Worker
begin

text \<open>
  The live apply step (\<^verbatim>\<open>core/automation/runtime/apply.py\<close>, \<^verbatim>\<open>factory.py\<close>, \<^verbatim>\<open>result.py\<close>): the prerequisites,
  the agent's configuration, its run, and the record that it leaves for the harness. browser-use is a
  parameter: whether the construction of profile, model and agent raises, and how the run ends, which may
  change the database as other sessions write meanwhile. The state is the database, the temporary files, the
  configurations run and the review jobs enqueued; the metrics are not modelled. A stored session is
  a JSON value of any type \<open>'j\<close>.
\<close>

section \<open>Configuration of the agent\<close>

datatype llm_choice =
    ChatBedrock str str
  | ChatOpenAI str "str option"

text \<open>\<^verbatim>\<open>build_apply_llm\<close>: the model after the first slash, or the user's key.\<close>

definition build_apply_llm :: "str \<Rightarrow> str option \<Rightarrow> str \<Rightarrow> llm_choice" where
  "build_apply_llm region api_key model =
     (if is_bedrock_model model then ChatBedrock (drop (length ''bedrock/'') model) region
      else ChatOpenAI model api_key)"

record 'j agent_config =
  ag_task :: str
  ag_system :: str
  ag_storage :: 'j
  ag_domains :: "str list"
  ag_llm :: llm_choice

text \<open>How a run ends: with a history and its structured output and final result, an exception of some class, or a cancellation.\<close>

datatype agent_end =
    AgentReturned history "application_result option" "str option"
  | AgentRaised str str
  | AgentCancelled

record 'j apply_env =
  ae_secrets :: secrets_api
  ae_json :: "'j json"
  ae_llm :: llm_settings
  ae_root :: path
  ae_files :: fs
  ae_redis :: bool
  ae_enqueue_ok :: bool
  ae_temp :: "str \<Rightarrow> str"
  ae_traj_id :: str
  ae_make :: "'j agent_config \<Rightarrow> exn option"
  ae_run :: "'j agent_config \<Rightarrow> db \<Rightarrow> db \<times> agent_end"

record 'j run_world =
  rw_db :: db
  rw_temps :: "(str \<times> str) list"
  rw_runs :: "'j agent_config list"
  rw_reviews :: "(str \<times> run_signals) list"

section \<open>Texts\<close>

text \<open>The dashes are written as their three UTF-8 bytes.\<close>

definition GUARDRAILS :: str where
  "GUARDRAILS =
     ''You are applying to a single job on behalf of the user. Only fill fields with the user'' @
     [CHR 39] @
     ''s real resume data; never invent answers. If you hit a CAPTCHA, a 2FA prompt, or a login '' @
     ''wall, stop and report that human intervention is required '' @ [CHR 0xE2, CHR 0x80, CHR 0x94] @
     '' do not guess. When the application is submitted, report the confirmation in the structured '' @
     ''output.''"

definition build_task :: "job \<Rightarrow> str \<Rightarrow> str" where
  "build_task j resume_path =
     ''Apply to this job on '' @ j_platform j @ '':'' @ [NL] @ ''Title: '' @ j_title j @ [NL] @ ''Company: '' @ j_company j
     @ [NL] @ ''URL: '' @ j_url j @ [NL, NL] @ ''Use the resume file at: '' @ resume_path @ [NL]
     @ ''Navigate to the job, complete the application form, upload the resume, and submit.''"

section \<open>Prerequisites\<close>

record 'j ready_run =
  pq_job :: job
  pq_key :: str
  pq_storage :: 'j
  pq_api_key :: "str option"
  pq_model :: str

text \<open>The provider and the model of a run, and whether it uses Bedrock, which needs no key of the user.\<close>

definition run_model :: "'j apply_env \<Rightarrow> user_llm_config option \<Rightarrow> str \<times> str" where
  "run_model E cfg =
     ((case cfg of Some c \<Rightarrow> lc_provider c | None \<Rightarrow> llm_preferred_provider (ae_llm E)),
      (case cfg of Some c \<Rightarrow> lc_model c | None \<Rightarrow> llm_default_model (ae_llm E)))"

definition uses_bedrock :: "str \<times> str \<Rightarrow> bool" where
  "uses_bedrock pm \<longleftrightarrow> fst pm = ''bedrock'' \<or> is_bedrock_model (snd pm)"

text \<open>
  The checks of \<^verbatim>\<open>run_apply\<close>, in order: a missing prerequisite or an exception ends the call. The rows are
  read in the session of the application's owner.
\<close>

definition check_prerequisites :: "'j apply_env \<Rightarrow> application \<Rightarrow> db \<Rightarrow> run_outcome + 'j ready_run" where
  "check_prerequisites E a d =
     (let u = a_user a; raise = (\<lambda>e. Inl (Raised (exn_message e))) in
      case db_get (Some u) j_user j_id (a_job a) (jobs d) of
        None \<Rightarrow> Inl (Prerequisite ''Job not found'')
      | Some j \<Rightarrow>
       (case (if truthy (a_resume a) then db_get (Some u) r_user r_id (or_empty (a_resume a)) (resumes d) else None) of
          None \<Rightarrow> Inl (Prerequisite ''Application has no resume attached'')
        | Some r \<Rightarrow>
         (let key = (if truthy (r_file_path_pdf r) then r_file_path_pdf r else r_file_path_docx r) in
          if \<not> truthy key then Inl (Prerequisite ''Resume file is not available'')
          else
           (case load_session_cookies (ae_json E) (ae_secrets E) u (j_platform j) d of
              Inl e \<Rightarrow> raise e
            | Inr None \<Rightarrow>
                Inl (Prerequisite (''No saved '' @ j_platform j @ '' session '' @ [CHR 0xE2, CHR 0x80, CHR 0x94]
                  @ '' assisted login required''))
            | Inr (Some storage) \<Rightarrow>
               (case scalar_one_or_none (filter (\<lambda>c. lc_user c = u) (llm_configs d)) of
                  Inl e \<Rightarrow> raise e
                | Inr cfg \<Rightarrow>
                   (let pm = run_model E cfg
                    in case (if uses_bedrock pm then Inr None else get_llm_key (ae_secrets E) u (fst pm) d) of
                         Inl e \<Rightarrow> raise e
                       | Inr api_key \<Rightarrow>
                           if \<not> uses_bedrock pm \<and> \<not> truthy api_key
                           then Inl (Prerequisite ''No LLM API key configured for the user'')
                           else Inr \<lparr>pq_job = j, pq_key = or_empty key, pq_storage = storage,
                                  pq_api_key = api_key, pq_model = snd pm\<rparr>))))))"

section \<open>The record of a run\<close>

definition ERROR_LLM_WORDS :: "str list" where
  "ERROR_LLM_WORDS = [''llm'', ''api key'', ''rate limit'', ''401'', ''auth'']"

text \<open>An exception of the run, as its class and text, is folded into the trajectory and the signals.\<close>

definition fold_error :: "(str \<times> str) option \<Rightarrow> trajectory_args \<times> run_signals \<Rightarrow> trajectory_args \<times> run_signals" where
  "fold_error err ts =
     (case err of
        None \<Rightarrow> ts
      | Some (name, msg) \<Rightarrow>
         (let low = lower msg; t = fst ts; s = snd ts in
          (t\<lparr>ta_status := ''failed'',
             ta_self_report := Some (take 1000 (strip (or_empty (ta_self_report t) @ NL # ''RUN RAISED: '' @ name @ '': '' @ msg)))\<rparr>,
           s\<lparr>sg_errors := sg_errors s @ [msg],
             sg_llm_error := sg_llm_error s \<or> list_ex (\<lambda>w. py_in w low) ERROR_LLM_WORDS,
             sg_timed_out := sg_timed_out s \<or> py_in ''timeout'' low \<or> py_in ''timed out'' low\<rparr>)))"

definition trajectory_row :: "str \<Rightarrow> application \<Rightarrow> str \<Rightarrow> str list \<Rightarrow> trajectory_args \<Rightarrow> run_trajectory" where
  "trajectory_row i a platform skills t =
     \<lparr>tj_id = i, tj_user = a_user a, tj_application = a_id a, tj_platform = platform, tj_steps = ta_steps t,
      tj_screenshots = ta_screenshots t, tj_self_report = ta_self_report t, tj_tokens = ta_tokens t,
      tj_cost_usd = ta_cost_usd t, tj_duration_ms = ta_duration_ms t, tj_status = ta_status t,
      tj_skills_used = Some skills\<rparr>"

definition record_trajectory :: "run_trajectory \<Rightarrow> (db, exn, unit) op" where
  "record_trajectory t d = commit (d\<lparr>trajectories := trajectories d @ [t]\<rparr>) d"

text \<open>A dedicated session records the trajectory; every failure is swallowed.\<close>

definition record_and_review ::
  "'j apply_env \<Rightarrow> application \<Rightarrow> str \<Rightarrow> history \<Rightarrow> (str \<times> str) option \<Rightarrow> str list \<Rightarrow> 'j run_world \<Rightarrow> 'j run_world" where
  "record_and_review E a platform h err skills w =
     (case fold_error err (extract_trajectory h, extract_run_signals h) of
        (t, s) \<Rightarrow>
          (case record_trajectory (trajectory_row (ae_traj_id E) a platform skills t) (rw_db w) of
             (_, Inl _) \<Rightarrow> w
           | (d', Inr _) \<Rightarrow>
               w\<lparr>rw_db := d',
                 rw_reviews := rw_reviews w @ (if ae_redis E \<and> ae_enqueue_ok E then [(ae_traj_id E, s)] else [])\<rparr>))"

section \<open>The run\<close>

definition extract_result :: "application_result option \<Rightarrow> str option \<Rightarrow> application_result" where
  "extract_result structured final =
     (case structured of
        Some r \<Rightarrow> r
      | None \<Rightarrow> \<lparr>res_submitted = truthy final, res_confirmation_id = None, res_status = [],
                  res_notes = take 500 (or_empty final)\<rparr>)"

definition agent_config_for ::
  "'j apply_env \<Rightarrow> 'j ready_run \<Rightarrow> domain_skill list \<Rightarrow> str \<Rightarrow> 'j agent_config" where
  "agent_config_for E p skills path =
     (let guidance = build_skill_guidance skills; platform = j_platform (pq_job p) in
      \<lparr>ag_task = build_task (pq_job p) path,
       ag_system = (if guidance \<noteq> [] then GUARDRAILS @ [NL, NL] @ guidance else GUARDRAILS),
       ag_storage = pq_storage p,
       ag_domains = [''https://*.'' @ platform @ ''.com'', ''https://'' @ platform @ ''.com''],
       ag_llm = build_apply_llm (bedrock_region (ae_llm E)) (pq_api_key p) (pq_model p)\<rparr>)"

definition remove_temp :: "str \<Rightarrow> 'j run_world \<Rightarrow> 'j run_world" where
  "remove_temp path w = w\<lparr>rw_temps := filter (\<lambda>x. fst x \<noteq> path) (rw_temps w)\<rparr>"

text \<open>What follows the prerequisites: the file, the construction of the agent, its run, and the record.\<close>

definition drive_agent ::
  "'j apply_env \<Rightarrow> application \<Rightarrow> 'j ready_run \<Rightarrow> 'j run_world \<Rightarrow> 'j run_world \<times> run_outcome" where
  "drive_agent E a p w =
     (let platform = j_platform (pq_job p); skills = load_skills platform 5 (rw_db w) in
      case service_materialize (ae_root E) (a_user a) (pq_key p) (ae_files E) of
        Inl e \<Rightarrow> (w, Raised (exn_message e))
      | Inr bytes \<Rightarrow>
         (let suf = path_suffix (pq_key p);
              path = ae_temp E (if suf = [] then ''.pdf'' else suf);
              w1 = w\<lparr>rw_temps := (path, bytes) # rw_temps w\<rparr>;
              cfg = agent_config_for E p skills path
          in case ae_make E cfg of
               Some e \<Rightarrow> (w1, Raised (exn_message e))
             | None \<Rightarrow>
                (case ae_run E cfg (rw_db w1) of
                   (d', end_of_run) \<Rightarrow>
                     (let w2 = remove_temp path (w1\<lparr>rw_db := d', rw_runs := rw_runs w1 @ [cfg]\<rparr>);
                          ids = map sk_id skills
                      in case end_of_run of
                           AgentCancelled \<Rightarrow> (w2, Cancelled)
                         | AgentRaised name msg \<Rightarrow>
                             (record_and_review E a platform no_history (Some (name, msg)) ids w2, Raised msg)
                         | AgentReturned h structured final \<Rightarrow>
                             (record_and_review E a platform h None ids w2, Ran (extract_result structured final))))))"

definition run_apply :: "'j apply_env \<Rightarrow> application \<Rightarrow> 'j run_world \<Rightarrow> 'j run_world \<times> run_outcome" where
  "run_apply E a w =
     (case check_prerequisites E a (rw_db w) of
        Inl out \<Rightarrow> (w, out)
      | Inr p \<Rightarrow> drive_agent E a p w)"

text \<open>The run as the worker's task sees it, over the database alone.\<close>

definition live_run :: "'j apply_env \<Rightarrow> apply_run" where
  "live_run E d a =
     (case run_apply E a \<lparr>rw_db = d, rw_temps = [], rw_runs = [], rw_reviews = []\<rparr> of
        (w, out) \<Rightarrow> (rw_db w, out))"

section \<open>Prerequisites and other rows\<close>

lemma check_prerequisites_status:
  "check_prerequisites E (a\<lparr>a_status := st\<rparr>) (d\<lparr>applications := xs\<rparr>) = check_prerequisites E a d"
proof -
  have c: "get_credential P k (d\<lparr>applications := xs\<rparr>) = get_credential P k d" for P k
    by (simp add: get_credential_def credential_row_def)
  have s: "a_user (a\<lparr>a_status := st\<rparr>) = a_user a" "a_job (a\<lparr>a_status := st\<rparr>) = a_job a"
    "a_resume (a\<lparr>a_status := st\<rparr>) = a_resume a" "jobs (d\<lparr>applications := xs\<rparr>) = jobs d"
    "resumes (d\<lparr>applications := xs\<rparr>) = resumes d" "llm_configs (d\<lparr>applications := xs\<rparr>) = llm_configs d"
    by simp_all
  show ?thesis
    unfolding check_prerequisites_def load_session_cookies_def get_llm_key_def c s by (rule refl)
qed

lemma check_prerequisites_ready:
  assumes "check_prerequisites E a d = Inr p"
  obtains r cfg where "db_get (Some (a_user a)) j_user j_id (a_job a) (jobs d) = Some (pq_job p)"
    and "db_get (Some (a_user a)) r_user r_id (or_empty (a_resume a)) (resumes d) = Some r"
    and "pq_key p = or_empty (if truthy (r_file_path_pdf r) then r_file_path_pdf r else r_file_path_docx r)"
    and "load_session_cookies (ae_json E) (ae_secrets E) (a_user a) (j_platform (pq_job p)) d = Inr (Some (pq_storage p))"
    and "scalar_one_or_none (filter (\<lambda>c. lc_user c = a_user a) (llm_configs d)) = Inr cfg"
    and "pq_model p = snd (run_model E cfg)"
    and "if uses_bedrock (run_model E cfg) then pq_api_key p = None
         else get_llm_key (ae_secrets E) (a_user a) (fst (run_model E cfg)) d = Inr (pq_api_key p) \<and> truthy (pq_api_key p)"
  using assms
  by (auto simp: check_prerequisites_def Let_def split: option.splits sum.splits if_splits)

section \<open>The run on the database\<close>

text \<open>The agent and the sessions that write while it runs keep the applications and the constraints.\<close>

definition agent_keeps :: "'j apply_env \<Rightarrow> bool" where
  "agent_keeps E \<longleftrightarrow> (\<forall>cfg d. applications (fst (ae_run E cfg d)) = applications d
     \<and> (db_ok d \<longrightarrow> db_ok (fst (ae_run E cfg d))))"

lemma record_trajectory_result:
  "record_trajectory t d = (if db_ok d then (d\<lparr>trajectories := trajectories d @ [t]\<rparr>, Inr ()) else (d, Inl DBIntegrityError))"
  by (simp add: record_trajectory_def commit_def)

lemma record_and_review_frame:
  "applications (rw_db (record_and_review E a p h e k w)) = applications (rw_db w)
   \<and> (db_ok (rw_db w) \<longrightarrow> db_ok (rw_db (record_and_review E a p h e k w)))
   \<and> rw_temps (record_and_review E a p h e k w) = rw_temps w \<and> rw_runs (record_and_review E a p h e k w) = rw_runs w"
  by (simp add: record_and_review_def record_trajectory_result split: prod.split)

lemma run_apply_frame:
  assumes "agent_keeps E"
  shows "applications (rw_db (fst (run_apply E a w))) = applications (rw_db w)
    \<and> (db_ok (rw_db w) \<longrightarrow> db_ok (rw_db (fst (run_apply E a w))))"
  using assms unfolding agent_keeps_def
  by (simp add: run_apply_def drive_agent_def remove_temp_def Let_def case_prod_unfold record_and_review_frame
      split: sum.split option.split agent_end.split)

lemma live_run_keeps:
  assumes "agent_keeps E"
  shows "keeps_applications (live_run E)"
  unfolding keeps_applications_def
  by (simp add: live_run_def case_prod_unfold run_apply_frame [OF assms])

section \<open>Properties\<close>


text \<open>A configuration that is ready: the agent answers without structured output.\<close>

definition plain_api :: secrets_api where
  "plain_api = \<lparr>sp_encrypt = (\<lambda>_ _ x. Inr \<lparr>eb_kek = ''k'', eb_wrapped_dek = [], eb_ciphertext = x, eb_scheme = []\<rparr>),
     sp_decrypt = (\<lambda>_ b. Inr (eb_ciphertext b)), sp_rotate = (\<lambda>_ _ b. Inr b), sp_current = Inr ''k''\<rparr>"

definition plain_row :: "cred_key \<Rightarrow> str \<Rightarrow> user_credential" where
  "plain_row k x = \<lparr>uc_id = x, uc_user = fst k, uc_kind = fst (snd k), uc_provider = snd (snd k),
     uc_blob = \<lparr>eb_kek = ''k'', eb_wrapped_dek = [], eb_ciphertext = x, eb_scheme = []\<rparr>, uc_kek = ''k''\<rparr>"

definition filed_resume :: resume where
  "filed_resume = \<lparr>r_id = ''r1'', r_user = ''u1'', r_name = ''cv'', r_type = BASE, r_template_id = ''modern'',
     r_base_resume_id = None, r_job_id = None, r_file_path_pdf = Some ''users/u1/uploads/f1.pdf'',
     r_file_path_docx = None, r_ats_score = None, r_content_text = None, r_created_at = 1\<rparr>"

definition ready_db :: db where
  "ready_db = scored_db\<lparr>resumes := [filed_resume],
     credentials := [plain_row (''u1'', KIND_COOKIES, j_platform sample_job) ''cookies'', plain_row (''u1'', KIND_LLM_KEY, ''openai'') ''sk-1'']\<rparr>"

definition plain_env :: "agent_end \<Rightarrow> str apply_env" where
  "plain_env how =
     \<lparr>ae_secrets = plain_api, ae_json = \<lparr>js_dumps = id, js_dumps_sorted = id, js_loads = Inr\<rparr>, ae_llm = sample_llm_settings,
      ae_root = [''data''],
      ae_files = \<lparr>fs_files = [([''data'', ''users'', ''u1'', ''uploads'', ''f1.pdf''], ''%PDF'')], fs_dirs = []\<rparr>,
      ae_redis = True, ae_enqueue_ok = True, ae_temp = (\<lambda>suf. ''/tmp/t1'' @ suf), ae_traj_id = ''t1'',
      ae_make = (\<lambda>_. None), ae_run = (\<lambda>cfg d. (d, how))\<rparr>"

definition plain_ready :: "str ready_run" where
  "plain_ready = \<lparr>pq_job = sample_job, pq_key = ''users/u1/uploads/f1.pdf'', pq_storage = ''cookies'',
     pq_api_key = Some ''sk-1'', pq_model = ''gpt-4o''\<rparr>"

lemma plain_checks: "check_prerequisites (plain_env how) scored_app ready_db = Inr plain_ready"
proof -
  have tables: "jobs ready_db = jobs sample_db" "resumes ready_db = [filed_resume]" "llm_configs ready_db = []"
    "credentials ready_db = [plain_row (''u1'', KIND_COOKIES, j_platform sample_job) ''cookies'', plain_row (''u1'', KIND_LLM_KEY, ''openai'') ''sk-1'']"
    by (simp_all add: ready_db_def scored_db_def sample_db_def empty_db_def)
  have kinds: "KIND_COOKIES \<noteq> KIND_LLM_KEY" by (simp add: KIND_COOKIES_def KIND_LLM_KEY_def)
  have j: "db_get (Some ''u1'') j_user j_id ''j1'' (jobs ready_db) = Some sample_job"
    unfolding tables by (simp add: db_get_def sample_db_def) (simp add: sample_job_def)
  have r: "db_get (Some ''u1'') r_user r_id ''r1'' (resumes ready_db) = Some filed_resume"
    unfolding tables by (simp add: db_get_def filed_resume_def)
  have c: "load_session_cookies (ae_json (plain_env how)) (ae_secrets (plain_env how)) ''u1'' (j_platform sample_job) ready_db
      = Inr (Some ''cookies'')"
    using kinds by (simp add: load_session_cookies_def get_credential_def credential_row_def tables row_key_def
        plain_row_def plain_env_def plain_api_def)
  have k: "get_llm_key (ae_secrets (plain_env how)) ''u1'' ''openai'' ready_db = Inr (Some ''sk-1'')"
    using kinds by (simp add: get_llm_key_def get_credential_def credential_row_def tables row_key_def
        plain_row_def plain_env_def plain_api_def)
  have m: "run_model (plain_env how) None = (''openai'', ''gpt-4o'')" "\<not> uses_bedrock (''openai'', ''gpt-4o'')"
    by (simp_all add: run_model_def plain_env_def sample_llm_settings_def uses_bedrock_def is_bedrock_model_def starts_with_def)
  have a: "a_user scored_app = ''u1''" "a_job scored_app = ''j1''" "a_resume scored_app = Some ''r1''"
    by (simp_all add: scored_app_def new_application_def)
  have f: "r_file_path_pdf filed_resume = Some ''users/u1/uploads/f1.pdf''" by (simp add: filed_resume_def)
  show ?thesis
    unfolding check_prerequisites_def Let_def a
    by (simp add: j r c k m f tables(3) plain_ready_def)
qed

lemma plain_file:
  "service_materialize (ae_root (plain_env how)) ''u1'' (pq_key plain_ready) (ae_files (plain_env how)) = Inr ''%PDF''"
  by (simp add: service_materialize_def tenant_check_def user_prefix_def has_prefix_def local_get_def local_path_def
      resolve_path_def path_str_def plain_env_def plain_ready_def)

lemma ready_db_ok: "db_ok ready_db"
  using scored_db_ok
  by (auto simp: ready_db_def db_ok_def pk_ok_def uq_shared_def plain_row_def KIND_COOKIES_def KIND_LLM_KEY_def)


text \<open>
  an unstructured answer is taken for a submission. When the agent ends without structured output, the
  worker applies the application whenever the final text is not empty, also when the text says that the
  agent met a CAPTCHA and gave up.
\<close>

theorem unstructured_answer_submits:
  assumes "db_ok (fst w)" and "agent_keeps E" and "live_apply st"
    and "a \<in> set (applications (fst w))" and "a_status a \<noteq> APPLIED" and "is_active_app a"
    and "\<not> gate_blocks st score (fst w) a"
    and "check_prerequisites E a (fst w) = Inr p"
    and "service_materialize (ae_root E) (a_user a) (pq_key p) (ae_files E) = Inr bytes"
    and "\<And>cfg. ae_make E cfg = None"
    and "\<And>cfg d. snd (ae_run E cfg d) = AgentReturned h None (Some report)" and "report \<noteq> []"
  shows "\<exists>w'. apply_task st score (live_run E) ctx now (a_id a) w = (w', Returned)
    \<and> row_status (a_id a) (fst w') = Some APPLIED \<and> confirmed_ids (snd w') = confirmed_ids (snd w) @ [a_id a]"
proof (rule apply_task_confirms [OF assms(1) live_run_keeps [OF assms(2)] assms(4,5) _ assms(7)])
  show "may_activate a (fst w)" using assms(6) by (simp add: may_activate_def)
  fix xs
  let ?a = "a\<lparr>a_status := APPLYING\<rparr>" and ?d = "(fst w)\<lparr>applications := xs\<rparr>"
  have ch: "check_prerequisites E ?a ?d = Inr p" using assms(8) by (simp add: check_prerequisites_status)
  have "snd (live_run E ?d ?a) = Ran (extract_result None (Some report))"
    using ch assms(9-11)
    by (simp add: live_run_def run_apply_def drive_agent_def Let_def case_prod_unfold)
  then have "snd (submit_application st (live_run E) ?a ?d) = Confirmed ''submitted''"
    using assms(3,12) by (simp add: submit_application_def case_prod_unfold extract_result_def)
  then show "\<exists>c. snd (submit_application st (live_run E) ?a ?d) = Confirmed c" by blast
qed

theorem unstructured_answer_submits_witness:
  "\<exists>w'. apply_task \<lparr>live_apply = True, min_ats_score = 3 / 4, min_ats_text = ''0.75''\<rparr> (\<lambda>_ _ _. Inr 0)
       (live_run (plain_env (AgentReturned no_history None (Some ''CAPTCHA: stopped, not submitted''))))
       \<lparr>has_redis = True, job_try = None\<rparr> 7 ''a1'' (ready_db, []) = (w', Returned)
     \<and> row_status ''a1'' (fst w') = Some APPLIED"
proof -
  let ?E = "plain_env (AgentReturned no_history None (Some ''CAPTCHA: stopped, not submitted''))"
  let ?st = "\<lparr>live_apply = True, min_ats_score = 3 / 4, min_ats_text = ''0.75''\<rparr>"
  have app: "scored_app \<in> set (applications (fst (ready_db, [])))" by (simp add: ready_db_def scored_facts)
  have st: "a_status scored_app \<noteq> APPLIED" by (simp add: scored_facts)
  have g: "\<not> gate_blocks ?st (\<lambda>_ _ _. Inr 0) (fst (ready_db, [])) scored_app" by (simp add: gate_blocks_def scored_facts)
  have ch: "check_prerequisites ?E scored_app (fst (ready_db, [])) = Inr plain_ready" by (simp add: plain_checks)
  have u: "a_user scored_app = ''u1''" by (simp add: scored_app_def new_application_def)
  have f: "service_materialize (ae_root ?E) (a_user scored_app) (pq_key plain_ready) (ae_files ?E) = Inr ''%PDF''"
    unfolding u by (rule plain_file)
  have e: "agent_keeps ?E" "\<And>cfg. ae_make ?E cfg = None"
    "\<And>cfg d. snd (ae_run ?E cfg d) = AgentReturned no_history None (Some ''CAPTCHA: stopped, not submitted'')"
    by (simp_all add: agent_keeps_def plain_env_def)
  have ok: "db_ok (fst (ready_db, []))" by (simp add: ready_db_ok)
  have lv: "live_apply ?st" by simp
  show ?thesis
    using unstructured_answer_submits [OF ok e(1) lv app st scored_facts(4) g ch f e(2) e(3),
        of "\<lparr>has_redis = True, job_try = None\<rparr>" 7]
    by (auto simp: scored_facts)
qed

lemma put_credential_frame:
  assumes "put_credential P s i k x d = (d', r)"
  shows "jobs d' = jobs d \<and> resumes d' = resumes d"
  using assms by (auto simp: put_credential_def commit_def split: sum.splits option.splits if_splits)

lemma check_prerequisites_cong:
  assumes "jobs d' = jobs d" and "resumes d' = resumes d" and "llm_configs d' = llm_configs d"
    and "\<And>k pr. get_credential (ae_secrets E) (a_user a, k, pr) d' = get_credential (ae_secrets E) (a_user a, k, pr) d"
  shows "check_prerequisites E a d' = check_prerequisites E a d"
  unfolding check_prerequisites_def load_session_cookies_def get_llm_key_def Let_def assms by (rule refl)

text \<open>
  a run uses its owner's secrets. The agent gets the platform session of the application's user, and, unless
  Bedrock is used, the non-empty key of that user for the provider configured; and whatever secret another
  user stores, the run is configured as before.
\<close>

theorem run_uses_own_secrets:
  assumes "check_prerequisites E a d = Inr p" and "v \<noteq> a_user a"
    and "put_credential (ae_secrets E) s i (v, k, pr) x d = (d', r)"
  shows "load_session_cookies (ae_json E) (ae_secrets E) (a_user a) (j_platform (pq_job p)) d
        = Inr (Some (ag_storage (agent_config_for E p skills path)))
    \<and> (pq_api_key p = None \<or> (\<exists>provider key. get_llm_key (ae_secrets E) (a_user a) provider d = Inr (Some key)
         \<and> key \<noteq> [] \<and> pq_api_key p = Some key))
    \<and> check_prerequisites E a d' = Inr p"
proof -
  from assms(1) obtain r' cfg where
    st: "load_session_cookies (ae_json E) (ae_secrets E) (a_user a) (j_platform (pq_job p)) d = Inr (Some (pq_storage p))"
    and key: "if uses_bedrock (run_model E cfg) then pq_api_key p = None
         else get_llm_key (ae_secrets E) (a_user a) (fst (run_model E cfg)) d = Inr (pq_api_key p) \<and> truthy (pq_api_key p)"
    by (rule check_prerequisites_ready)
  have other: "get_credential (ae_secrets E) (a_user a, k', pr') d' = get_credential (ae_secrets E) (a_user a, k', pr') d
      \<and> llm_configs d' = llm_configs d" for k' pr'
    using put_other_row [OF assms(3), of "(a_user a, k', pr')"] assms(2) by simp
  have "check_prerequisites E a d' = check_prerequisites E a d"
    using put_credential_frame [OF assms(3)] other by (intro check_prerequisites_cong) simp_all
  moreover have "pq_api_key p = None \<or> (\<exists>provider key. get_llm_key (ae_secrets E) (a_user a) provider d = Inr (Some key)
      \<and> key \<noteq> [] \<and> pq_api_key p = Some key)"
    using key by (cases "pq_api_key p") (auto split: if_splits)
  ultimately show ?thesis using st assms(1) by (simp add: agent_config_for_def Let_def)
qed

theorem run_uses_own_secrets_witness:
  "\<exists>d' r. put_credential plain_api ([], [], []) ''c9'' (''u2'', KIND_LLM_KEY, ''openai'') ''sk-2'' ready_db = (d', r)
     \<and> check_prerequisites (plain_env AgentCancelled) scored_app d' = Inr plain_ready"
proof -
  obtain d' r where p: "put_credential plain_api ([], [], []) ''c9'' (''u2'', KIND_LLM_KEY, ''openai'') ''sk-2'' ready_db = (d', r)"
    by fastforce
  have api: "ae_secrets (plain_env AgentCancelled) = plain_api" by (simp add: plain_env_def)
  have v: "''u2'' \<noteq> a_user scored_app" by (simp add: scored_app_def new_application_def)
  show ?thesis using run_uses_own_secrets [OF plain_checks v p [folded api]] p by blast
qed

text \<open>
  a half-configured Bedrock runs OpenAI without the user's key. The agent is given an OpenAI model and no
  key, which the library fills from the worker's environment, exactly when the configured provider is Bedrock
  but the model has no Bedrock prefix.
\<close>

theorem keyless_openai:
  assumes "check_prerequisites E a d = Inr p"
    and "scalar_one_or_none (filter (\<lambda>c. lc_user c = a_user a) (llm_configs d)) = Inr cfg"
  shows "ag_llm (agent_config_for E p skills path) = ChatOpenAI (snd (run_model E cfg)) None
    \<longleftrightarrow> fst (run_model E cfg) = ''bedrock'' \<and> \<not> is_bedrock_model (snd (run_model E cfg))"
proof -
  from assms(1) obtain r' cfg' where
    cfg': "scalar_one_or_none (filter (\<lambda>c. lc_user c = a_user a) (llm_configs d)) = Inr cfg'"
    and m: "pq_model p = snd (run_model E cfg')"
    and key: "if uses_bedrock (run_model E cfg') then pq_api_key p = None
         else get_llm_key (ae_secrets E) (a_user a) (fst (run_model E cfg')) d = Inr (pq_api_key p) \<and> truthy (pq_api_key p)"
    by (rule check_prerequisites_ready)
  have "cfg' = cfg" using assms(2) cfg' by simp
  then show ?thesis
    using m key by (cases "pq_api_key p")
      (auto simp: agent_config_for_def Let_def build_apply_llm_def uses_bedrock_def split: if_splits)
qed

definition bedrock_env :: "str apply_env" where
  "bedrock_env = (plain_env AgentCancelled)\<lparr>ae_llm := sample_llm_settings\<lparr>llm_preferred_provider := ''bedrock''\<rparr>\<rparr>"

lemma bedrock_checks:
  "check_prerequisites bedrock_env scored_app ready_db = Inr (plain_ready\<lparr>pq_api_key := None\<rparr>)"
proof -
  have tables: "jobs ready_db = jobs sample_db" "resumes ready_db = [filed_resume]" "llm_configs ready_db = []"
    "credentials ready_db = [plain_row (''u1'', KIND_COOKIES, j_platform sample_job) ''cookies'', plain_row (''u1'', KIND_LLM_KEY, ''openai'') ''sk-1'']"
    by (simp_all add: ready_db_def scored_db_def sample_db_def empty_db_def)
  have kinds: "KIND_COOKIES \<noteq> KIND_LLM_KEY" by (simp add: KIND_COOKIES_def KIND_LLM_KEY_def)
  have j: "db_get (Some ''u1'') j_user j_id ''j1'' (jobs ready_db) = Some sample_job"
    unfolding tables by (simp add: db_get_def sample_db_def) (simp add: sample_job_def)
  have r: "db_get (Some ''u1'') r_user r_id ''r1'' (resumes ready_db) = Some filed_resume"
    unfolding tables by (simp add: db_get_def filed_resume_def)
  have c: "load_session_cookies (ae_json bedrock_env) (ae_secrets bedrock_env) ''u1'' (j_platform sample_job) ready_db
      = Inr (Some ''cookies'')"
    using kinds by (simp add: load_session_cookies_def get_credential_def credential_row_def tables row_key_def
        plain_row_def bedrock_env_def plain_env_def plain_api_def)
  have m: "run_model bedrock_env None = (''bedrock'', ''gpt-4o'')" "uses_bedrock (''bedrock'', ''gpt-4o'')"
    by (simp_all add: run_model_def bedrock_env_def plain_env_def sample_llm_settings_def uses_bedrock_def)
  have a: "a_user scored_app = ''u1''" "a_job scored_app = ''j1''" "a_resume scored_app = Some ''r1''"
    by (simp_all add: scored_app_def new_application_def)
  have f: "r_file_path_pdf filed_resume = Some ''users/u1/uploads/f1.pdf''" by (simp add: filed_resume_def)
  show ?thesis
    unfolding check_prerequisites_def Let_def a
    by (simp add: j r c m f tables(3) plain_ready_def)
qed

theorem keyless_openai_witness:
  "ag_llm (agent_config_for bedrock_env (plain_ready\<lparr>pq_api_key := None\<rparr>) [] ''/tmp/t1.pdf'') = ChatOpenAI ''gpt-4o'' None"
proof -
  have n: "scalar_one_or_none (filter (\<lambda>c. lc_user c = a_user scored_app) (llm_configs ready_db)) = Inr None"
    by (simp add: ready_db_def scored_db_def sample_db_def empty_db_def)
  have m: "run_model bedrock_env None = (''bedrock'', ''gpt-4o'')"
    by (simp add: run_model_def bedrock_env_def plain_env_def sample_llm_settings_def)
  show ?thesis
    using keyless_openai [OF bedrock_checks n, of "[]" "''/tmp/t1.pdf''"]
    by (simp add: m is_bedrock_model_def starts_with_def)
qed

end
