(* ===== verification/Analytics.thy ===== *)
theory Analytics
  imports Tenant
begin

text \<open>
  The dashboard (\<^verbatim>\<open>services/analytics.py\<close>, \<^verbatim>\<open>schemas/analytics.py\<close>): the aggregate queries over the
  caller's applications, jobs and language-model usage. Sums and averages are real numbers; among groups of
  equal cost the database chooses the order. The text of a timestamp's day is a parameter: the first ten
  characters of the database's own rendering of a date.
\<close>

section \<open>Responses\<close>

record dashboard_stats =
  ds_total_jobs :: nat
  ds_total_applications :: nat
  ds_pending :: nat
  ds_applied :: nat
  ds_interview :: nat
  ds_rejected :: nat
  ds_offer :: nat
  ds_avg_ats :: real
  ds_llm_cost :: real

record funnel_data =
  fd_stage :: application_status
  fd_count :: nat

record ats_bucket =
  ab_label :: str
  ab_count :: nat

record llm_usage_stats =
  ls_provider :: str
  ls_model :: str
  ls_requests :: nat
  ls_tokens :: int
  ls_cost :: real
  ls_latency :: real

record timeline_entry =
  te_date :: str
  te_created :: nat
  te_applied :: nat
  te_jobs :: nat

section \<open>Counting\<close>

text \<open>\<^verbatim>\<open>SELECT k, count(*) ... GROUP BY k\<close>.\<close>

definition group_count :: "('r \<Rightarrow> 'k) \<Rightarrow> 'r list \<Rightarrow> ('k \<times> nat) list" where
  "group_count k xs = map (\<lambda>x. (x, length (filter (\<lambda>r. k r = x) xs))) (remdups (map k xs))"

definition get_count :: "('k \<times> nat) list \<Rightarrow> 'k \<Rightarrow> nat" where
  "get_count cs x = (case map_of cs x of None \<Rightarrow> 0 | Some n \<Rightarrow> n)"

definition average :: "real list \<Rightarrow> real" where
  "average xs = (if xs = [] then 0 else sum_list xs / real (length xs))"

lemma map_of_graph: "map_of (map (\<lambda>x. (x, f x)) xs) y = (if y \<in> set xs then Some (f y) else None)"
  by (induction xs) auto

lemma get_group_count: "get_count (group_count k xs) x = length (filter (\<lambda>r. k r = x) xs)"
  by (auto simp: get_count_def group_count_def map_of_graph filter_empty_conv)

section \<open>The dashboard\<close>

definition count_status :: "ctx \<Rightarrow> application_status \<Rightarrow> db \<Rightarrow> nat" where
  "count_status c s d = length (filter (\<lambda>a. a_status a = s) (select_rows c a_user (applications d)))"

definition ats_scores :: "application list \<Rightarrow> real list" where
  "ats_scores as = map (\<lambda>a. the (a_ats_score a)) (filter (\<lambda>a. a_ats_score a \<noteq> None) as)"

definition get_dashboard_stats :: "ctx \<Rightarrow> db \<Rightarrow> dashboard_stats" where
  "get_dashboard_stats c d =
     \<lparr>ds_total_jobs = length (select_rows c j_user (jobs d)),
      ds_total_applications = length (select_rows c a_user (applications d)),
      ds_pending = count_status c PENDING_REVIEW d, ds_applied = count_status c APPLIED d,
      ds_interview = count_status c INTERVIEW d, ds_rejected = count_status c REJECTED d,
      ds_offer = count_status c OFFER d,
      ds_avg_ats = round_to 3 (average (ats_scores (select_rows c a_user (applications d)))),
      ds_llm_cost = round_to 4 (sum_list (map lu_cost_usd (select_rows c lu_user (llm_usages d))))\<rparr>"

definition FUNNEL_STAGES :: "application_status list" where
  "FUNNEL_STAGES = [QUEUED, PENDING_REVIEW, APPROVED, APPLYING, APPLIED, INTERVIEW, OFFER, REJECTED, WITHDRAWN]"

definition get_funnel :: "ctx \<Rightarrow> db \<Rightarrow> funnel_data list" where
  "get_funnel c d =
     (let counts = group_count a_status (select_rows c a_user (applications d))
      in map (\<lambda>s. \<lparr>fd_stage = s, fd_count = get_count counts s\<rparr>) FUNNEL_STAGES)"

definition ats_ranges :: "(str \<times> real \<times> real) list" where
  "ats_ranges = [(''0-20'', 0, 2 / 10), (''20-40'', 2 / 10, 4 / 10), (''40-60'', 4 / 10, 6 / 10),
     (''60-80'', 6 / 10, 8 / 10), (''80-100'', 8 / 10, 101 / 100)]"

definition in_range :: "real \<Rightarrow> real \<Rightarrow> application \<Rightarrow> bool" where
  "in_range low high a \<longleftrightarrow> (case a_ats_score a of None \<Rightarrow> False | Some x \<Rightarrow> low \<le> x \<and> x < high)"

definition get_ats_distribution :: "ctx \<Rightarrow> db \<Rightarrow> ats_bucket list" where
  "get_ats_distribution c d =
     map (\<lambda>(label, low, high). \<lparr>ab_label = label,
        ab_count = length (filter (in_range low high) (select_rows c a_user (applications d)))\<rparr>) ats_ranges"

section \<open>Language-model usage\<close>

definition usage_of :: "llm_usage list \<Rightarrow> str \<times> str \<Rightarrow> llm_usage list" where
  "usage_of us g = filter (\<lambda>u. (lu_provider u, lu_model u) = g) us"

definition usage_stats :: "llm_usage list \<Rightarrow> str \<times> str \<Rightarrow> llm_usage_stats" where
  "usage_stats us g =
     (let xs = usage_of us g
      in \<lparr>ls_provider = fst g, ls_model = snd g, ls_requests = length xs,
          ls_tokens = sum_list (map lu_total_tokens xs),
          ls_cost = round_to 6 (sum_list (map lu_cost_usd xs)),
          ls_latency = round_to 1 (average (map (\<lambda>u. real_of_int (lu_latency_ms u)) xs))\<rparr>)"

definition get_llm_usage :: "ctx \<Rightarrow> db \<Rightarrow> llm_usage_stats list" where
  "get_llm_usage c d =
     (let us = select_rows c lu_user (llm_usages d)
      in map (usage_stats us) (order_desc (\<lambda>g. sum_list (map lu_cost_usd (usage_of us g)))
           (remdups (map (\<lambda>u. (lu_provider u, lu_model u)) us))))"

section \<open>The timeline\<close>

definition TIMELINE_DAYS :: nat where "TIMELINE_DAYS = 30"

text \<open>The days of some timestamps with their counts, the latest 30.\<close>

definition per_day :: "(int \<Rightarrow> str) \<Rightarrow> int list \<Rightarrow> (str \<times> nat) list" where
  "per_day day ts = take TIMELINE_DAYS (order_desc fst (group_count day ts))"

definition applied_times :: "application list \<Rightarrow> int list" where
  "applied_times as = map (\<lambda>a. the (a_applied_at a)) (filter (\<lambda>a. a_applied_at a \<noteq> None) as)"

definition get_timeline :: "(int \<Rightarrow> str) \<Rightarrow> ctx \<Rightarrow> db \<Rightarrow> timeline_entry list" where
  "get_timeline day c d =
     (let apps = select_rows c a_user (applications d);
          created = per_day day (map a_created_at apps);
          applied = per_day day (applied_times apps);
          found = per_day day (map j_created_at (select_rows c j_user (jobs d)));
          dates = take TIMELINE_DAYS
            (order_desc (\<lambda>x. x) (remdups (map fst created @ map fst applied @ map fst found)))
      in map (\<lambda>x. \<lparr>te_date = x, te_created = get_count created x, te_applied = get_count applied x,
           te_jobs = get_count found x\<rparr>) dates)"

section \<open>The greatest elements of a set\<close>

text \<open>The \<open>n\<close> greatest elements of a finite set, greatest first.\<close>

definition top :: "nat \<Rightarrow> 'a::linorder set \<Rightarrow> 'a list" where
  "top n S = take n (rev (sorted_list_of_set S))"

lemma order_desc_remdups: "order_desc (\<lambda>x. x) (remdups xs) = rev (sorted_list_of_set (set xs))"
  by (simp add: order_desc_def sorted_list_of_set_sort_remdups)

lemma take_above:
  fixes d :: "'a::linorder list"
  assumes "sorted_wrt (>) d"
  shows "x \<in> set (take n d) \<longleftrightarrow> x \<in> set d \<and> length (filter (\<lambda>y. x < y) d) < n"
  using assms
proof (induction d arbitrary: n)
  case (Cons a d)
  show ?case
  proof (cases n)
    case (Suc m)
    have none: "filter (\<lambda>y. a < y) d = []" using Cons.prems by (auto simp: filter_empty_conv)
    show ?thesis using Cons Suc none by (cases "x = a") auto
  qed simp
qed simp

lemma top_iff:
  assumes "finite S"
  shows "x \<in> set (top n S) \<longleftrightarrow> x \<in> S \<and> card {y \<in> S. x < y} < n"
proof -
  let ?d = "rev (sorted_list_of_set S)"
  have d: "sorted_wrt (>) ?d" "set ?d = S" "distinct ?d"
    using assms strict_sorted_list_of_set [of S] by (simp_all add: sorted_wrt_rev)
  have "length (filter (\<lambda>y. x < y) ?d) = card {y \<in> S. x < y}"
    using distinct_card [of "filter (\<lambda>y. x < y) ?d"] d(2,3) by simp
  then show ?thesis using take_above [OF d(1), of x n] d(2) by (simp add: top_def)
qed

lemma top_props:
  assumes "finite S"
  shows "sorted_wrt (>) (top n S) \<and> distinct (top n S) \<and> set (top n S) \<subseteq> S \<and> length (top n S) = min n (card S)"
proof -
  have "sorted_wrt (>) (rev (sorted_list_of_set S))"
    using strict_sorted_list_of_set [of S] by (simp add: sorted_wrt_rev)
  then show ?thesis
    using assms set_take_subset [of n "rev (sorted_list_of_set S)"] by (auto simp: top_def sorted_wrt_take min.commute)
qed

lemma top_mono:
  assumes "finite U" and "S \<subseteq> U" and "x \<in> S" and "x \<in> set (top n U)"
  shows "x \<in> set (top n S)"
proof -
  have "card {y \<in> S. x < y} \<le> card {y \<in> U. x < y}" using assms(1,2) by (intro card_mono) auto
  then show ?thesis using assms top_iff [of U x n] top_iff [of S x n] finite_subset by fastforce
qed

lemma top_above:
  assumes "finite U" and "x \<in> U" and "x \<notin> set (top n U)" and "y \<in> set (top n U)"
  shows "x < y"
proof (rule ccontr)
  assume "\<not> x < y"
  then have "y < x" using assms(3,4) by (metis linorder_neqE)
  then have "{z \<in> U. x < z} \<subseteq> {z \<in> U. y < z}" by auto
  then have "card {z \<in> U. x < z} \<le> card {z \<in> U. y < z}" using assms(1) by (intro card_mono) auto
  then show False using assms top_iff [of U] by fastforce
qed

text \<open>A set between the \<open>n\<close> greatest elements of a set and the whole set has the same \<open>n\<close> greatest elements.\<close>

lemma top_between:
  assumes "finite U" and "V \<subseteq> U" and "set (top n U) \<subseteq> V"
  shows "top n V = top n U"
proof -
  have fV: "finite V" using assms(1,2) by (rule rev_finite_subset)
  have "set (top n V) = set (top n U)"
  proof (intro subset_antisym subsetI)
    fix x assume "x \<in> set (top n U)"
    then show "x \<in> set (top n V)" using top_mono [OF assms(1,2)] assms(3) by blast
  next
    fix x assume x: "x \<in> set (top n V)"
    show "x \<in> set (top n U)"
    proof (rule ccontr)
      assume n: "x \<notin> set (top n U)"
      have xU: "x \<in> U" using x top_iff [OF fV] assms(2) by blast
      have "set (top n U) \<subseteq> {y \<in> V. x < y}" using top_above [OF assms(1) xU n] assms(3) by blast
      then have "card (set (top n U)) \<le> card {y \<in> V. x < y}" using fV by (intro card_mono) auto
      moreover have "n \<le> card U"
        using n xU top_iff [OF assms(1), of x n] card_mono [OF assms(1), of "{y \<in> U. x < y}"] by auto
      ultimately show False
        using top_props [OF assms(1), of n] top_iff [OF fV, of x n] x distinct_card [of "top n U"] by simp
    qed
  qed
  then show ?thesis
    using top_props [OF fV, of n] top_props [OF assms(1), of n]
    by (metis sorted_wrt_rev rev_rev_ident set_rev strict_sorted_equal)
qed

section \<open>The timeline is exact\<close>

lemma map_fst_order_desc: "map fst (order_desc fst ps) = rev (sort (map fst ps))"
proof -
  have "sort (map fst ps) = map fst (sort_key fst ps)"
    by (rule properties_for_sort) simp_all
  then show ?thesis by (simp add: order_desc_def rev_map)
qed

lemma per_day_days: "map fst (per_day day ts) = top TIMELINE_DAYS (day ` set ts)"
proof -
  have "map fst (group_count day ts) = remdups (map day ts)" by (simp add: group_count_def comp_def)
  then show ?thesis
    unfolding per_day_def top_def take_map [symmetric] map_fst_order_desc
    by (simp add: sorted_list_of_set_sort_remdups [symmetric])
qed

lemma per_day_count:
  "get_count (per_day day ts) x = (if x \<in> set (top TIMELINE_DAYS (day ` set ts)) then length (filter (\<lambda>t. day t = x) ts) else 0)"
proof (cases "map_of (per_day day ts) x")
  case None
  then have "x \<notin> set (map fst (per_day day ts))" by (simp add: map_of_eq_None_iff)
  then show ?thesis using None by (simp add: get_count_def per_day_days)
next
  case (Some m)
  then have m: "(x, m) \<in> set (per_day day ts)" by (rule map_of_SomeD)
  then have "(x, m) \<in> set (group_count day ts)"
    using set_take_subset [of TIMELINE_DAYS "order_desc fst (group_count day ts)"] by (auto simp: per_day_def)
  moreover have "x \<in> set (map fst (per_day day ts))" using m by force
  ultimately show ?thesis using Some by (auto simp: get_count_def per_day_days group_count_def)
qed

definition exact_timeline :: "(int \<Rightarrow> str) \<Rightarrow> ctx \<Rightarrow> db \<Rightarrow> timeline_entry list" where
  "exact_timeline day c d =
     (let apps = select_rows c a_user (applications d); found = select_rows c j_user (jobs d)
      in map (\<lambda>x. \<lparr>te_date = x,
            te_created = length (filter (\<lambda>t. day t = x) (map a_created_at apps)),
            te_applied = length (filter (\<lambda>t. day t = x) (applied_times apps)),
            te_jobs = length (filter (\<lambda>t. day t = x) (map j_created_at found))\<rparr>)
          (top 30 (day ` (set (map a_created_at apps) \<union> set (applied_times apps) \<union> set (map j_created_at found)))))"

text \<open>
  C40: the timeline is exact. Each of its three queries keeps its own latest 30 days only; still the entries
  are the latest 30 days with any activity of the caller, latest first, and each counts all the caller's
  applications created, applications submitted and jobs found on that day.
\<close>

theorem timeline_exact: "get_timeline day c d = exact_timeline day c d"
proof -
  define apps where "apps = select_rows c a_user (applications d)"
  define A where "A = day ` set (map a_created_at apps)"
  define B where "B = day ` set (applied_times apps)"
  define C where "C = day ` set (map j_created_at (select_rows c j_user (jobs d)))"
  define U where "U = A \<union> B \<union> C"
  let ?T = "\<lambda>S. set (top TIMELINE_DAYS S)"
  have fin: "finite A" "finite B" "finite C" "finite U" by (simp_all add: A_def B_def C_def U_def)
  have sub: "A \<subseteq> U" "B \<subseteq> U" "C \<subseteq> U" by (auto simp: U_def)
  have dates: "top TIMELINE_DAYS (?T A \<union> ?T B \<union> ?T C) = top TIMELINE_DAYS U"
  proof (rule top_between [OF fin(4)])
    show "?T A \<union> ?T B \<union> ?T C \<subseteq> U" using top_props fin sub by blast
    show "?T U \<subseteq> ?T A \<union> ?T B \<union> ?T C"
      using top_mono [OF fin(4) sub(1)] top_mono [OF fin(4) sub(2)] top_mono [OF fin(4) sub(3)]
        top_props [OF fin(4)] by (fastforce simp: U_def)
  qed
  have count: "get_count (per_day day ts) x = length (filter (\<lambda>t. day t = x) ts)"
    if "x \<in> ?T U" and "day ` set ts \<subseteq> U" for x ts
  proof (cases "x \<in> day ` set ts")
    case True
    then show ?thesis using per_day_count [of day ts x] top_mono [OF fin(4) that(2) True that(1)] by simp
  next
    case False
    then have "filter (\<lambda>t. day t = x) ts = []" by (auto simp: filter_empty_conv)
    then show ?thesis using per_day_count [of day ts x] by simp
  qed
  have "take TIMELINE_DAYS (order_desc (\<lambda>x. x) (remdups (map fst (per_day day (map a_created_at apps))
      @ map fst (per_day day (applied_times apps)) @ map fst (per_day day (map j_created_at (select_rows c j_user (jobs d)))))))
      = top TIMELINE_DAYS U"
    unfolding order_desc_remdups per_day_days top_def [symmetric] dates [symmetric]
    by (simp add: A_def B_def C_def Un_assoc)
  moreover have "U = day ` (set (map a_created_at apps) \<union> set (applied_times apps)
      \<union> set (map j_created_at (select_rows c j_user (jobs d))))"
    by (simp add: U_def A_def B_def C_def image_Un)
  moreover have "TIMELINE_DAYS = 30" by (simp add: TIMELINE_DAYS_def)
  ultimately show ?thesis
    using count sub
    by (simp add: get_timeline_def exact_timeline_def Let_def apps_def [symmetric] A_def B_def C_def)
qed

section \<open>The numbers agree\<close>

lemma count_partition:
  fixes xs :: "'b list"
  assumes "\<And>x. x \<in> set xs \<Longrightarrow> length (filter (\<lambda>p. p x) ps) = 1"
  shows "sum_list (map (\<lambda>p. length (filter p xs)) ps) = length xs"
proof -
  have "sum_list (map (\<lambda>p. length (filter p xs)) ps) = sum_list (map (\<lambda>x. length (filter (\<lambda>p. p x) ps)) xs)" for xs :: "'b list"
  proof (induction xs)
    case (Cons x xs)
    have "sum_list (map (\<lambda>p. length (filter p (x # xs))) ps)
        = length (filter (\<lambda>p. p x) ps) + sum_list (map (\<lambda>p. length (filter p xs)) ps)"
      by (induction ps) auto
    then show ?case using Cons by simp
  qed simp
  moreover have "map (\<lambda>x. length (filter (\<lambda>p. p x) ps)) xs = map (\<lambda>x. 1) xs" using assms by simp
  ultimately have "sum_list (map (\<lambda>p. length (filter p xs)) ps) = sum_list (map (\<lambda>x. 1) xs)" by presburger
  then show ?thesis by (simp add: sum_list_triv)
qed

lemma sum_by_group:
  assumes "set (map k xs) \<subseteq> set gs" and "distinct gs"
  shows "sum_list (map (\<lambda>g. sum_list (map f (filter (\<lambda>x. k x = g) xs))) gs) = (sum_list (map f xs) :: 'a::comm_monoid_add)"
  using assms(1)
proof (induction xs)
  case (Cons x xs)
  have one: "sum_list (map (\<lambda>g. if k x = g then c else 0) gs) = c" for c :: 'a
  proof -
    have "sum_list (map (\<lambda>g. if k x = g then c else 0) gs) = sum (\<lambda>g. if k x = g then c else 0) (set gs)"
      using assms(2) by (rule sum_list_distinct_conv_sum_set)
    then show ?thesis using Cons.prems by simp
  qed
  have "sum_list (map (\<lambda>g. sum_list (map f (filter (\<lambda>y. k y = g) (x # xs)))) gs)
      = sum_list (map (\<lambda>g. (if k x = g then f x else 0) + sum_list (map f (filter (\<lambda>y. k y = g) xs))) gs)"
    by (intro arg_cong [where f = sum_list] map_cong) auto
  then show ?case using Cons one by (simp add: sum_list_addf)
qed simp

lemma usage_groups:
  fixes f :: "llm_usage \<Rightarrow> 'a::comm_monoid_add"
  assumes "us = select_rows c lu_user (llm_usages d)"
  shows "sum_list (map (\<lambda>g. sum_list (map f (usage_of us g)))
      (order_desc h (remdups (map (\<lambda>u. (lu_provider u, lu_model u)) us)))) = sum_list (map f us)"
proof -
  have "distinct (order_desc h (remdups (map (\<lambda>u. (lu_provider u, lu_model u)) us)))"
    by (simp add: order_desc_def)
  then show ?thesis unfolding usage_of_def by (intro sum_by_group) auto
qed

lemma average_unit: "list_all (\<lambda>x. 0 \<le> x \<and> x \<le> 1) xs \<Longrightarrow> 0 \<le> average xs \<and> average xs \<le> 1"
proof -
  assume a: "list_all (\<lambda>x. 0 \<le> x \<and> x \<le> 1) xs"
  then have "0 \<le> sum_list xs \<and> sum_list xs \<le> real (length xs)" by (induction xs) auto
  then show ?thesis by (cases xs) (simp_all add: average_def divide_le_eq)
qed

lemma ats_scores_length: "length (ats_scores as) = length (filter (\<lambda>a. a_ats_score a \<noteq> None) as)"
  by (simp add: ats_scores_def)

lemma score_in_one_range:
  assumes "a_ats_score a = Some x" and "0 \<le> x" and "x \<le> 1"
  shows "length (filter (\<lambda>p. p a) (map (\<lambda>(l, low, high). in_range low high) ats_ranges)) = 1"
proof -
  consider "x < 2 / 10" | "2 / 10 \<le> x" "x < 4 / 10" | "4 / 10 \<le> x" "x < 6 / 10"
    | "6 / 10 \<le> x" "x < 8 / 10" | "8 / 10 \<le> x" by linarith
  then show ?thesis using assms by cases (simp_all add: ats_ranges_def in_range_def)
qed

lemma buckets_partition:
  assumes "list_all (\<lambda>x. 0 \<le> x \<and> x \<le> 1) (ats_scores as)"
  shows "sum_list (map (\<lambda>(l, low, high). length (filter (in_range low high) as)) ats_ranges) = length (ats_scores as)"
proof -
  let ?ps = "map (\<lambda>(l, low, high). in_range low high) ats_ranges" and ?s = "filter (\<lambda>a. a_ats_score a \<noteq> None) as"
  have "sum_list (map (\<lambda>p. length (filter p ?s)) ?ps) = length ?s"
  proof (rule count_partition)
    fix a assume "a \<in> set ?s"
    then obtain x where x: "a \<in> set as" "a_ats_score a = Some x" by auto
    then have "x \<in> set (ats_scores as)" by (force simp: ats_scores_def)
    then show "length (filter (\<lambda>p. p a) ?ps) = 1" using assms x by (intro score_in_one_range) (auto simp: list_all_iff)
  qed
  moreover have "filter (in_range low high) ?s = filter (in_range low high) as" for low high
    unfolding filter_filter by (rule filter_cong [OF refl]) (auto simp: in_range_def split: option.splits)
  ultimately show ?thesis by (simp add: ats_scores_length case_prod_unfold comp_def)
qed

text \<open>
  the numbers of the dashboard agree. The stages of the funnel and the failed applications, which the
  funnel leaves out, add up to the number of applications; when the scores are between 0 and 1, every scored
  application is in exactly one bucket of the histogram and the average score is between 0 and 1; the groups
  of the usage table are distinct, come most expensive first, and add up to all requests and tokens.
\<close>

theorem dashboard_accounts:
  assumes "list_all (\<lambda>x. 0 \<le> x \<and> x \<le> 1) (ats_scores (select_rows c a_user (applications d)))"
    and "us = select_rows c lu_user (llm_usages d)"
  shows "sum_list (map fd_count (get_funnel c d)) + count_status c FAILED d = ds_total_applications (get_dashboard_stats c d)
    \<and> sum_list (map ab_count (get_ats_distribution c d)) = length (ats_scores (select_rows c a_user (applications d)))
    \<and> 0 \<le> ds_avg_ats (get_dashboard_stats c d) \<and> ds_avg_ats (get_dashboard_stats c d) \<le> 1
    \<and> sum_list (map ls_requests (get_llm_usage c d)) = length us
    \<and> sum_list (map ls_tokens (get_llm_usage c d)) = sum_list (map lu_total_tokens us)
    \<and> distinct (map (\<lambda>s. (ls_provider s, ls_model s)) (get_llm_usage c d))
    \<and> sorted_wrt (\<lambda>s t. sum_list (map lu_cost_usd (usage_of us (ls_provider t, ls_model t)))
        \<le> sum_list (map lu_cost_usd (usage_of us (ls_provider s, ls_model s)))) (get_llm_usage c d)"
proof (intro conjI)
  let ?as = "select_rows c a_user (applications d)"
  let ?h = "\<lambda>g. sum_list (map lu_cost_usd (usage_of us g))"
  let ?gs = "order_desc ?h (remdups (map (\<lambda>u. (lu_provider u, lu_model u)) us))"
  have g: "get_llm_usage c d = map (usage_stats us) ?gs"
    unfolding get_llm_usage_def Let_def assms(2) by (rule refl)
  have "sum_list (map (\<lambda>p. length (filter p ?as)) (map (\<lambda>s a. a_status a = s) (FUNNEL_STAGES @ [FAILED]))) = length ?as"
  proof (rule count_partition)
    fix a
    show "length (filter (\<lambda>p. p a) (map (\<lambda>s a. a_status a = s) (FUNNEL_STAGES @ [FAILED]))) = 1"
      by (cases "a_status a") (simp_all add: FUNNEL_STAGES_def)
  qed
  then show "sum_list (map fd_count (get_funnel c d)) + count_status c FAILED d = ds_total_applications (get_dashboard_stats c d)"
    by (simp add: get_funnel_def get_dashboard_stats_def count_status_def get_group_count Let_def comp_def)
  show "sum_list (map ab_count (get_ats_distribution c d)) = length (ats_scores ?as)"
    using buckets_partition [OF assms(1)] by (simp add: get_ats_distribution_def comp_def case_prod_unfold)
  show "0 \<le> ds_avg_ats (get_dashboard_stats c d)" "ds_avg_ats (get_dashboard_stats c d) \<le> 1"
    using round_to_bounds average_unit [OF assms(1)] by (simp_all add: get_dashboard_stats_def)
  show "sum_list (map ls_requests (get_llm_usage c d)) = length us"
    using usage_groups [OF assms(2), of "\<lambda>_. 1::nat" ?h] unfolding g
    by (simp add: usage_stats_def Let_def comp_def sum_list_triv)
  show "sum_list (map ls_tokens (get_llm_usage c d)) = sum_list (map lu_total_tokens us)"
    using usage_groups [OF assms(2), of lu_total_tokens ?h] unfolding g by (simp add: usage_stats_def Let_def comp_def)
  show "distinct (map (\<lambda>s. (ls_provider s, ls_model s)) (get_llm_usage c d))"
    unfolding g by (simp add: usage_stats_def Let_def comp_def order_desc_def)
  show "sorted_wrt (\<lambda>s t. ?h (ls_provider t, ls_model t) \<le> ?h (ls_provider s, ls_model s)) (get_llm_usage c d)"
    unfolding g using sorted_order_desc [of ?h] by (simp add: sorted_wrt_map usage_stats_def Let_def)
qed

definition sample_usage :: "str \<Rightarrow> real \<Rightarrow> llm_usage" where
  "sample_usage m cost = \<lparr>lu_user = ''u1'', lu_provider = ''openai'', lu_model = m, lu_prompt_tokens = 10,
     lu_completion_tokens = 5, lu_total_tokens = 15, lu_cost_usd = cost, lu_latency_ms = 100, lu_purpose = GENERAL,
     lu_trace = None, lu_status = None, lu_error = None, lu_created_at = 0\<rparr>"

definition dashboard_db :: db where
  "dashboard_db = empty_db\<lparr>applications :=
     [\<lparr>a_id = ''a1'', a_user = ''u1'', a_job = ''j1'', a_resume = None, a_status = FAILED, a_mode = REVIEW,
       a_ats_score = Some 1, a_cover_letter_path = None, a_applied_at = None, a_response_date = None,
       a_notes = None, a_screenshots = None, a_created_at = 0\<rparr>],
     llm_usages := [sample_usage ''gpt-4o-mini'' (1 / 10), sample_usage ''gpt-4o'' 2, sample_usage ''gpt-4o-mini'' (1 / 10)]\<rparr>"

theorem dashboard_accounts_witness:
  "sum_list (map fd_count (get_funnel (Some ''u1'') dashboard_db)) = 0
   \<and> sum_list (map ab_count (get_ats_distribution (Some ''u1'') dashboard_db)) = 1
   \<and> sum_list (map ls_requests (get_llm_usage (Some ''u1'') dashboard_db)) = 3"
proof -
  have s: "list_all (\<lambda>x. 0 \<le> x \<and> x \<le> 1) (ats_scores (select_rows (Some ''u1'') a_user (applications dashboard_db)))"
    by (simp add: dashboard_db_def empty_db_def ats_scores_def)
  show ?thesis
    using dashboard_accounts [OF s refl]
    by (simp add: dashboard_db_def empty_db_def ats_scores_def count_status_def get_dashboard_stats_def sample_usage_def)
qed

end
