(* ===== verification/Monitor.thy ===== *)
theory Monitor
  imports Tenant
begin

text \<open>
  System monitoring (\<^verbatim>\<open>core/harness/anomaly.py\<close>, \<^verbatim>\<open>monitor_system_health\<close> of \<^verbatim>\<open>workers/tasks.py\<close>,
  \<^verbatim>\<open>api/v1/admin.py\<close>): the detector that runs every 15 minutes over all tenants' applications and the
  queue, the open issues it keeps, and their listing. Redis is a parameter: the answer of \<^verbatim>\<open>LLEN\<close>.
\<close>

definition MIN_SAMPLE :: nat where "MIN_SAMPLE = 5"
definition FAILED_RATE_THRESHOLD :: real where "FAILED_RATE_THRESHOLD = 1 / 2"
definition QUEUE_DEPTH_THRESHOLD :: nat where "QUEUE_DEPTH_THRESHOLD = 100"
definition RECENT_WINDOW_HOURS :: nat where "RECENT_WINDOW_HOURS = 6"
definition ARQ_QUEUE :: str where "ARQ_QUEUE = ''arq:queue''"

section \<open>Issues\<close>

definition new_issue :: "str \<Rightarrow> str \<Rightarrow> (str \<times> nat) list \<Rightarrow> str \<Rightarrow> int \<Rightarrow> system_issue" where
  "new_issue category severity signals diagnosis now =
     \<lparr>si_category = category, si_severity = severity, si_signals = signals, si_diagnosis = diagnosis,
      si_status = ''open'', si_detected_at = now\<rparr>"

definition is_open :: "str \<Rightarrow> system_issue \<Rightarrow> bool" where
  "is_open category i \<longleftrightarrow> si_category i = category \<and> si_status i = ''open''"

definition refresh_issue :: "str \<Rightarrow> (str \<times> nat) list \<Rightarrow> str \<Rightarrow> int \<Rightarrow> system_issue \<Rightarrow> system_issue" where
  "refresh_issue severity signals diagnosis now i =
     i\<lparr>si_severity := severity, si_signals := signals, si_diagnosis := diagnosis, si_detected_at := now\<rparr>"

text \<open>The session's rows after the upsert, and the issue; nothing is committed yet.\<close>

definition upsert_issue ::
  "str \<Rightarrow> str \<Rightarrow> (str \<times> nat) list \<Rightarrow> str \<Rightarrow> int \<Rightarrow> db \<Rightarrow> exn + db \<times> system_issue" where
  "upsert_issue category severity signals diagnosis now d =
     (case scalar_one_or_none (filter (is_open category) (system_issues d)) of
        Inl e \<Rightarrow> Inl e
      | Inr (Some i) \<Rightarrow>
          Inr (d\<lparr>system_issues := update_where (is_open category) (refresh_issue severity signals diagnosis now)
                 (system_issues d)\<rparr>, refresh_issue severity signals diagnosis now i)
      | Inr None \<Rightarrow>
          (let i = new_issue category severity signals diagnosis now
           in Inr (d\<lparr>system_issues := system_issues d @ [i]\<rparr>, i)))"

section \<open>Detection\<close>

text \<open>The applications of the recent window, of every tenant.\<close>

definition recent_apps :: "ctx \<Rightarrow> int \<Rightarrow> db \<Rightarrow> application list" where
  "recent_apps c now d =
     filter (\<lambda>a. now - int RECENT_WINDOW_HOURS * 3600 \<le> a_created_at a) (select_unscoped c a_user (applications d))"

definition failure_rate_high :: "nat \<Rightarrow> nat \<Rightarrow> bool" where
  "failure_rate_high n failed \<longleftrightarrow> MIN_SAMPLE \<le> n \<and> FAILED_RATE_THRESHOLD \<le> real failed / real n"

definition check_failures :: "ctx \<Rightarrow> int \<Rightarrow> db \<Rightarrow> exn + db \<times> system_issue list" where
  "check_failures c now d =
     (let n = length (recent_apps c now d);
          failed = length (filter (\<lambda>a. a_status a = FAILED) (recent_apps c now d))
      in if failure_rate_high n failed then
           (case upsert_issue ''apply_failure_rate'' ''critical''
                   [(''total'', n), (''failed'', failed), (''window_hours'', RECENT_WINDOW_HOURS)]
                   (show_nat failed @ ''/'' @ show_nat n @ '' apps FAILED in the last ''
                      @ show_nat RECENT_WINDOW_HOURS @ ''h'') now d of
              Inl e \<Rightarrow> Inl e
            | Inr (d', i) \<Rightarrow> Inr (d', [i]))
         else Inr (d, []))"

text \<open>The length of the queue's list: 0 when the command raises.\<close>

definition queue_depth :: "(str \<Rightarrow> exn + nat) option \<Rightarrow> nat" where
  "queue_depth redis = (case redis of None \<Rightarrow> 0 | Some llen \<Rightarrow> (case llen ARQ_QUEUE of Inl _ \<Rightarrow> 0 | Inr n \<Rightarrow> n))"

definition check_queue :: "(str \<Rightarrow> exn + nat) option \<Rightarrow> int \<Rightarrow> db \<Rightarrow> exn + db \<times> system_issue list" where
  "check_queue redis now d =
     (let depth = queue_depth redis
      in if QUEUE_DEPTH_THRESHOLD < depth then
           (case upsert_issue ''queue_depth'' ''warning'' [(''depth'', depth)] (''Queue backlog: '' @ show_nat depth) now d of
              Inl e \<Rightarrow> Inl e
            | Inr (d', i) \<Rightarrow> Inr (d', [i]))
         else Inr (d, []))"

definition detect_anomalies ::
  "ctx \<Rightarrow> (str \<Rightarrow> exn + nat) option \<Rightarrow> int \<Rightarrow> (db, exn, system_issue list) op" where
  "detect_anomalies c redis now d =
     (case check_failures c now d of
        Inl e \<Rightarrow> (d, Inl e)
      | Inr (d1, is1) \<Rightarrow>
          (case check_queue redis now d1 of
             Inl e \<Rightarrow> (d, Inl e)
           | Inr (d2, is2) \<Rightarrow>
               (if is1 @ is2 = [] then (d, Inr [])
                else (case commit d2 d of
                        (d', Inl e) \<Rightarrow> (d', Inl e)
                      | (d', Inr _) \<Rightarrow> (d', Inr (is1 @ is2))))))"

text \<open>The cron task of the worker, which runs without a tenant.\<close>

definition monitor_system_health :: "(str \<Rightarrow> exn + nat) option \<Rightarrow> int \<Rightarrow> (db, exn, nat) op" where
  "monitor_system_health redis now d =
     (case detect_anomalies None redis now d of
        (d', Inl e) \<Rightarrow> (d', Inl e)
      | (d', Inr found) \<Rightarrow> (d', Inr (length found)))"

text \<open>The administrators' listing, for a limit that is not negative.\<close>

definition list_system_issues :: "str option \<Rightarrow> nat \<Rightarrow> db \<Rightarrow> system_issue list" where
  "list_system_issues status limit d =
     take (min limit 500) (order_desc si_detected_at
       (filter (\<lambda>i. truthy status \<longrightarrow> Some (si_status i) = status) (system_issues d)))"

section \<open>One open issue per category\<close>

definition open_issues :: "db \<Rightarrow> system_issue list" where
  "open_issues d = filter (\<lambda>i. si_status i = ''open'') (system_issues d)"

definition one_open :: "db \<Rightarrow> bool" where
  "one_open d \<longleftrightarrow> distinct (map si_category (open_issues d))"

definition MONITORED :: "str list" where
  "MONITORED = [''apply_failure_rate'', ''queue_depth'']"

text \<open>The monitored categories without an open issue: the rows that the detector may still add.\<close>

definition missing_issues :: "db \<Rightarrow> str list" where
  "missing_issues d = filter (\<lambda>c. \<not> list_ex (is_open c) (system_issues d)) MONITORED"

lemma db_ok_issues [simp]: "db_ok (d\<lparr>system_issues := xs\<rparr>) = db_ok d"
  by (simp add: db_ok_def pk_ok_def uq_shared_def)

lemma filter_is_open: "filter (is_open c) (system_issues d) = filter (\<lambda>i. si_category i = c) (open_issues d)"
  by (simp add: open_issues_def is_open_def [abs_def] conj_commute)

lemma refresh_fields [simp]:
  "si_category (refresh_issue sv sg dg now i) = si_category i" "si_status (refresh_issue sv sg dg now i) = si_status i"
  "si_detected_at (refresh_issue sv sg dg now i) = now"
  by (simp_all add: refresh_issue_def)

lemma is_open_refresh [simp]: "is_open c (refresh_issue sv sg dg now i) = is_open c i"
  by (simp add: is_open_def)

lemma open_update:
  "map si_category (open_issues (d\<lparr>system_issues := update_where (is_open c) (refresh_issue sv sg dg now) (system_issues d)\<rparr>))
     = map si_category (open_issues d)"
proof -
  have "filter (\<lambda>i. si_status i = ''open'') (update_where (is_open c) (refresh_issue sv sg dg now) (system_issues d))
      = update_where (is_open c) (refresh_issue sv sg dg now) (open_issues d)"
    unfolding open_issues_def by (rule filter_update_where) simp
  then show ?thesis by (simp add: open_issues_def map_update_where)
qed

lemma list_ex_update:
  "list_ex (is_open k) (update_where (is_open c) (refresh_issue sv sg dg now) xs) = list_ex (is_open k) xs"
  by (induction xs) (auto simp: update_where_def)

text \<open>An upsert succeeds while the open issues are unique, keeps them so, and uses up what it adds.\<close>

definition upserted :: "str \<Rightarrow> int \<Rightarrow> db \<Rightarrow> db \<Rightarrow> system_issue \<Rightarrow> bool" where
  "upserted c now d d' i \<longleftrightarrow> d\<lparr>system_issues := system_issues d'\<rparr> = d' \<and> one_open d'
     \<and> length (system_issues d') + length (missing_issues d') = length (system_issues d) + length (missing_issues d)
     \<and> filter (is_open c) (system_issues d') = [i] \<and> si_category i = c \<and> si_detected_at i = now
     \<and> (\<forall>k. k \<noteq> c \<longrightarrow> filter (is_open k) (system_issues d') = filter (is_open k) (system_issues d))"

lemma filter_other_refresh:
  "k \<noteq> c \<Longrightarrow> filter (is_open k) (update_where (is_open c) f xs) = filter (is_open k) xs" if "\<And>i. si_category (f i) = si_category i"
  using that by (intro filter_update_where_other) (auto simp: is_open_def)

lemma missing_append:
  assumes "c \<in> set MONITORED" and "filter (is_open c) xs = []" and "is_open c i" and "si_category i = c"
  shows "Suc (length (filter (\<lambda>k. \<not> list_ex (is_open k) (xs @ [i])) MONITORED)) = length (filter (\<lambda>k. \<not> list_ex (is_open k) xs) MONITORED)"
proof -
  have new: "is_open k i \<longleftrightarrow> k = c" for k using assms(3,4) by (auto simp: is_open_def)
  have old: "\<not> list_ex (is_open c) xs" using assms(2) by (auto simp: list_ex_iff filter_empty_conv)
  show ?thesis using assms(1) old by (auto simp: MONITORED_def new)
qed

lemma upsert_issue_ok:
  assumes "one_open d" and "c \<in> set MONITORED"
  shows "\<exists>d' i. upsert_issue c sv sg dg now d = Inr (d', i) \<and> upserted c now d d' i"
proof -
  obtain r where r: "scalar_one_or_none (filter (is_open c) (system_issues d)) = Inr r"
    using scalar_one_distinct [OF assms(1) [unfolded one_open_def], of c] unfolding filter_is_open by blast
  show ?thesis
  proof (cases r)
    case None
    let ?i = "new_issue c sv sg dg now" and ?d = "d\<lparr>system_issues := system_issues d @ [new_issue c sv sg dg now]\<rparr>"
    have e: "filter (is_open c) (system_issues d) = []" using r None by (simp add: scalar_one_None)
    have i: "is_open k ?i \<longleftrightarrow> k = c" "si_category ?i = c" for k by (auto simp: is_open_def new_issue_def)
    have "si_category ` set (open_issues d) \<subseteq> - {c}"
      using e by (auto simp: open_issues_def is_open_def filter_empty_conv)
    then have "one_open ?d"
      using assms(1) by (auto simp: one_open_def open_issues_def new_issue_def)
    moreover have "Suc (length (missing_issues ?d)) = length (missing_issues d)"
      using missing_append [OF assms(2) e, of ?i] i by (simp add: missing_issues_def)
    ultimately have "upserted c now d ?d ?i"
      using e i by (auto simp: upserted_def new_issue_def)
    then show ?thesis using r None by (simp add: upsert_issue_def Let_def)
  next
    case (Some i)
    let ?d = "d\<lparr>system_issues := update_where (is_open c) (refresh_issue sv sg dg now) (system_issues d)\<rparr>"
    have e: "filter (is_open c) (system_issues d) = [i]" using r Some by (simp add: scalar_one_Some)
    have "i \<in> set (filter (is_open c) (system_issues d))" unfolding e by simp
    then have i: "is_open c i" by simp
    have "filter (is_open c) (system_issues ?d) = [refresh_issue sv sg dg now i]"
      using filter_update_where [of "system_issues d" "is_open c" "is_open c" "refresh_issue sv sg dg now"] e i
      by (simp add: update_where_def)
    moreover have "one_open ?d" unfolding one_open_def open_update using assms(1) by (simp add: one_open_def)
    ultimately have "upserted c now d ?d (refresh_issue sv sg dg now i)"
      using i filter_other_refresh [of "refresh_issue sv sg dg now"]
      by (auto simp: upserted_def missing_issues_def list_ex_update is_open_def)
    then show ?thesis using r Some by (simp add: upsert_issue_def)
  qed
qed

section \<open>What a run of the detector does\<close>

lemma upserted_trans:
  assumes "upserted c now d d1 i" and "upserted k now d1 d2 j" and "c \<noteq> k"
  shows "d\<lparr>system_issues := system_issues d2\<rparr> = d2 \<and> one_open d2
    \<and> length (system_issues d2) + length (missing_issues d2) = length (system_issues d) + length (missing_issues d)
    \<and> filter (is_open c) (system_issues d2) = [i] \<and> filter (is_open k) (system_issues d2) = [j]
    \<and> si_category i = c \<and> si_category j = k \<and> si_detected_at i = now \<and> si_detected_at j = now"
proof -
  have "d\<lparr>system_issues := system_issues d2\<rparr> = d2"
    using assms(1,2) unfolding upserted_def by (metis db.update_convs(17) db.surjective)
  then show ?thesis using assms unfolding upserted_def by metis
qed

text \<open>
  The outcome of a run: the database it leaves, with the issues found.
\<close>

definition detected :: "ctx \<Rightarrow> (str \<Rightarrow> exn + nat) option \<Rightarrow> int \<Rightarrow> db \<Rightarrow> db \<Rightarrow> system_issue list \<Rightarrow> bool" where
  "detected c redis now d d' found \<longleftrightarrow> d\<lparr>system_issues := system_issues d'\<rparr> = d' \<and> one_open d'
     \<and> length (system_issues d') + length (missing_issues d') = length (system_issues d) + length (missing_issues d)
     \<and> map si_category found =
        (if failure_rate_high (length (recent_apps c now d)) (length (filter (\<lambda>a. a_status a = FAILED) (recent_apps c now d)))
         then [''apply_failure_rate''] else []) @ (if QUEUE_DEPTH_THRESHOLD < queue_depth redis then [''queue_depth''] else [])
     \<and> list_all (\<lambda>i. filter (is_open (si_category i)) (system_issues d') = [i] \<and> si_detected_at i = now) found"

lemma found_one:
  assumes "\<exists>d' i. u = Inr (d', i) \<and> P d' i"
  shows "\<exists>d' i. (case u of Inl e \<Rightarrow> Inl e | Inr (d', i) \<Rightarrow> Inr (d', [i])) = Inr (d', [i]) \<and> P d' i"
  using assms by auto

lemma check_failures_ok:
  assumes "one_open d"
  shows "if failure_rate_high (length (recent_apps c now d)) (length (filter (\<lambda>a. a_status a = FAILED) (recent_apps c now d)))
    then \<exists>d' i. check_failures c now d = Inr (d', [i]) \<and> upserted ''apply_failure_rate'' now d d' i
    else check_failures c now d = Inr (d, [])"
proof -
  have "''apply_failure_rate'' \<in> set MONITORED" by (simp add: MONITORED_def)
  note u = found_one [OF upsert_issue_ok [OF assms this]]
  show ?thesis unfolding check_failures_def Let_def using u by (simp del: split_paired_Ex)
qed

lemma check_queue_ok:
  assumes "one_open d"
  shows "if QUEUE_DEPTH_THRESHOLD < queue_depth redis
    then \<exists>d' i. check_queue redis now d = Inr (d', [i]) \<and> upserted ''queue_depth'' now d d' i
    else check_queue redis now d = Inr (d, [])"
proof -
  have "''queue_depth'' \<in> set MONITORED" by (simp add: MONITORED_def)
  note u = found_one [OF upsert_issue_ok [OF assms this]]
  show ?thesis unfolding check_queue_def Let_def using u by (simp del: split_paired_Ex)
qed

lemma upserted_one_open: "upserted c now d d' i \<Longrightarrow> one_open d'"
  by (simp add: upserted_def)

lemma detect_anomalies_ok:
  assumes "db_ok d" and "one_open d"
  shows "\<exists>d' found. detect_anomalies c redis now d = (d', Inr found) \<and> detected c redis now d d' found"
proof -
  let ?F = "failure_rate_high (length (recent_apps c now d)) (length (filter (\<lambda>a. a_status a = FAILED) (recent_apps c now d)))"
  let ?Q = "QUEUE_DEPTH_THRESHOLD < queue_depth redis"
  have ok: "db_ok d2" if "d\<lparr>system_issues := xs\<rparr> = d2" for d2 xs using assms(1) that by auto
  consider (none) "\<not> ?F" "\<not> ?Q" | (queue) "\<not> ?F" ?Q | (fail) ?F "\<not> ?Q" | (both) ?F ?Q by blast
  then show ?thesis
  proof cases
    case none
    then show ?thesis
      using check_failures_ok [OF assms(2), of c now] check_queue_ok [OF assms(2), of redis now] assms(2)
      by (simp add: detect_anomalies_def detected_def)
  next
    case queue
    then obtain d' i where "check_queue redis now d = Inr (d', [i])" and u: "upserted ''queue_depth'' now d d' i"
      using check_queue_ok [OF assms(2), of redis now] by auto
    moreover have "db_ok d'" using u ok unfolding upserted_def by blast
    ultimately show ?thesis
      using queue check_failures_ok [OF assms(2), of c now] u
      by (auto simp: detect_anomalies_def detected_def commit_def upserted_def)
  next
    case fail
    then obtain d' i where f: "check_failures c now d = Inr (d', [i])" and u: "upserted ''apply_failure_rate'' now d d' i"
      using check_failures_ok [OF assms(2), of c now] by auto
    moreover have "db_ok d'" using u ok unfolding upserted_def by blast
    ultimately show ?thesis
      using fail check_queue_ok [OF upserted_one_open [OF u], of redis now] u
      by (auto simp: detect_anomalies_def detected_def commit_def upserted_def)
  next
    case both
    then obtain d1 i where f: "check_failures c now d = Inr (d1, [i])" and u: "upserted ''apply_failure_rate'' now d d1 i"
      using check_failures_ok [OF assms(2), of c now] by auto
    obtain d2 j where q: "check_queue redis now d1 = Inr (d2, [j])" and v: "upserted ''queue_depth'' now d1 d2 j"
      using both check_queue_ok [OF upserted_one_open [OF u], of redis now] by auto
    note t = upserted_trans [OF u v]
    have "db_ok d2" using t ok by blast
    then show ?thesis using both f q t by (auto simp: detect_anomalies_def detected_def commit_def)
  qed
qed

section \<open>Over time\<close>

text \<open>A run of the monitor, or any change of the rest of the database.\<close>

inductive monitor_step :: "db \<Rightarrow> db \<Rightarrow> bool" where
  tick: "monitor_system_health redis now d = (d', r) \<Longrightarrow> monitor_step d d'"
| change: "system_issues d' = system_issues d \<Longrightarrow> db_ok d' \<Longrightarrow> monitor_step d d'"

definition monitor_inv :: "nat \<Rightarrow> db \<Rightarrow> bool" where
  "monitor_inv k d \<longleftrightarrow> db_ok d \<and> one_open d \<and> length (system_issues d) + length (missing_issues d) = k"

lemma detected_db_ok: "detected c redis now d d' found \<Longrightarrow> db_ok d' = db_ok d"
  unfolding detected_def by (metis db_ok_issues)

lemma monitor_step_inv: "monitor_step d d' \<Longrightarrow> monitor_inv k d \<Longrightarrow> monitor_inv k d'"
proof (induction rule: monitor_step.induct)
  case (tick redis now d d' r)
  then obtain found where "detected None redis now d d' found"
    using detect_anomalies_ok [of d None redis now] by (auto simp: monitor_system_health_def monitor_inv_def)
  then show ?case using tick.prems detected_db_ok by (auto simp: monitor_inv_def detected_def)
next
  case (change d' d)
  then show ?case by (simp add: monitor_inv_def one_open_def open_issues_def missing_issues_def)
qed

interpretation monitor: step_invariant monitor_step "monitor_inv k" for k
  by unfold_locales (rule monitor_step_inv)

text \<open>
  C39: the issues do not pile up. However often the monitor runs, and whatever else happens meanwhile, at most
  one issue of a category is open, the table grows by at most two rows, and the monitor's query for the open
  issue, which raises when there are two, never fails.
\<close>

theorem issues_bounded:
  assumes "monitor_step\<^sup>*\<^sup>* d d'" and "db_ok d" and "one_open d"
  shows "one_open d' \<and> length (system_issues d') \<le> length (system_issues d) + 2
    \<and> (\<exists>d'' n. monitor_system_health redis now d' = (d'', Inr n) \<and> length (system_issues d'') \<le> length (system_issues d) + 2)"
proof -
  define k where "k = length (system_issues d) + length (missing_issues d)"
  have k: "k \<le> length (system_issues d) + 2"
    using length_filter_le [of "\<lambda>c. \<not> list_ex (is_open c) (system_issues d)" MONITORED]
    by (simp add: k_def missing_issues_def MONITORED_def del: filter.simps)
  have "monitor_inv k d'" using monitor.steps_inv [OF assms(1), of k] assms(2,3) by (simp add: monitor_inv_def k_def)
  then have d': "db_ok d'" "one_open d'" "length (system_issues d') + length (missing_issues d') = k"
    by (simp_all add: monitor_inv_def)
  obtain d'' found where "detect_anomalies None redis now d' = (d'', Inr found)" "detected None redis now d' d'' found"
    using detect_anomalies_ok [OF d'(1,2)] by blast
  then show ?thesis using k d' by (auto simp: monitor_system_health_def detected_def)
qed

definition failed_app :: "nat \<Rightarrow> application" where
  "failed_app n = \<lparr>a_id = show_nat n, a_user = ''u'' @ show_nat n, a_job = ''j1'', a_resume = None, a_status = FAILED,
     a_mode = REVIEW, a_ats_score = None, a_cover_letter_path = None, a_applied_at = None, a_response_date = None,
     a_notes = None, a_screenshots = None, a_created_at = 0\<rparr>"

definition outage_db :: db where
  "outage_db = empty_db\<lparr>applications := map failed_app [1, 2, 3, 4, 5]\<rparr>"

lemma outage_db_ok: "db_ok outage_db \<and> one_open outage_db \<and> system_issues outage_db = []"
  by (simp add: outage_db_def empty_db_def failed_app_def db_ok_def pk_ok_def uq_shared_def uq_app_active_job_def
      uq_job_platform_id_def uq_user_email_def is_active_app_def terminal_states_def one_open_def open_issues_def show_nat.simps)

theorem issues_bounded_witness:
  "\<exists>d'' n. monitor_system_health None 100 outage_db = (d'', Inr n) \<and> length (system_issues d'') \<le> 2"
  using issues_bounded [of outage_db outage_db None 100] outage_db_ok by (simp add: numeral_2_eq_2)

text \<open>
  when the alarm for failures is raised. A run reports a high failure rate exactly when, among the
  applications that all tenants created in the last six hours, there are at least five and at least half of
  them failed; then one open issue records the numbers with the time of the run, and otherwise, unless the
  queue is reported, the database is unchanged.
\<close>

theorem failure_alarm:
  assumes "db_ok d" and "one_open d"
    and "recent = filter (\<lambda>a. now - 21600 \<le> a_created_at a) (applications d)"
    and "failed = length (filter (\<lambda>a. a_status a = FAILED) recent)"
  shows "\<exists>d' found. detect_anomalies c redis now d = (d', Inr found)
    \<and> (''apply_failure_rate'' \<in> si_category ` set found \<longleftrightarrow> 5 \<le> length recent \<and> length recent \<le> 2 * failed)
    \<and> (5 \<le> length recent \<and> length recent \<le> 2 * failed \<longrightarrow>
        (\<exists>i. filter (is_open ''apply_failure_rate'') (system_issues d') = [i] \<and> si_detected_at i = now))
    \<and> (found = [] \<longrightarrow> d' = d) \<and> applications d' = applications d"
proof -
  obtain d' found where a: "detect_anomalies c redis now d = (d', Inr found)" and b: "detected c redis now d d' found"
    using detect_anomalies_ok [OF assms(1,2)] by blast
  have r: "recent_apps c now d = recent" by (simp add: recent_apps_def RECENT_WINDOW_HOURS_def assms(3))
  have h: "failure_rate_high (length recent) failed \<longleftrightarrow> 5 \<le> length recent \<and> length recent \<le> 2 * failed"
  proof (cases "recent = []")
    case False
    then have "0 < real (length recent)" by simp
    then have "1 / 2 \<le> real failed / real (length recent) \<longleftrightarrow> real (length recent) \<le> 2 * real failed"
      by (simp add: field_simps)
    also have "\<dots> \<longleftrightarrow> length recent \<le> 2 * failed" by linarith
    finally show ?thesis by (simp add: failure_rate_high_def MIN_SAMPLE_def FAILED_RATE_THRESHOLD_def)
  qed (simp add: failure_rate_high_def MIN_SAMPLE_def)
  have cats: "map si_category found = (if failure_rate_high (length recent) failed then [''apply_failure_rate''] else [])
      @ (if QUEUE_DEPTH_THRESHOLD < queue_depth redis then [''queue_depth''] else [])"
    using b unfolding detected_def r assms(4) by blast
  then have mem: "''apply_failure_rate'' \<in> si_category ` set found \<longleftrightarrow> 5 \<le> length recent \<and> length recent \<le> 2 * failed"
    unfolding h [symmetric] set_map [symmetric] cats by simp
  have one: "\<exists>i. filter (is_open ''apply_failure_rate'') (system_issues d') = [i] \<and> si_detected_at i = now"
    if "''apply_failure_rate'' \<in> si_category ` set found"
    using that b by (auto simp: detected_def list_all_iff)
  have same: "d' = d" if "found = []"
    using a that by (auto simp: detect_anomalies_def split: sum.splits prod.splits if_splits)
  have "applications d' = applications d" using b unfolding detected_def by (metis db.select_convs(4) db.surjective db.update_convs(17))
  then show ?thesis using a mem one same by blast
qed

theorem failure_alarm_witness:
  "\<exists>d' found i. detect_anomalies None None 100 outage_db = (d', Inr found)
    \<and> filter (is_open ''apply_failure_rate'') (system_issues d') = [i] \<and> si_detected_at i = 100"
proof -
  have "length (filter (\<lambda>a. 100 - 21600 \<le> a_created_at a) (applications outage_db)) = 5"
    "length (filter (\<lambda>a. a_status a = FAILED) (filter (\<lambda>a. 100 - 21600 \<le> a_created_at a) (applications outage_db))) = 5"
    by (simp_all add: outage_db_def failed_app_def)
  then show ?thesis
    using failure_alarm [of outage_db _ 100 _ None None, OF _ _ refl refl] outage_db_ok by fastforce
qed

text \<open>
  a backlog of the queue is never reported. Arq keeps its queue in a sorted set, on which \<^verbatim>\<open>LLEN\<close> raises
  (and gives 0 for a missing key); the detector takes the exception for an empty queue, so whatever the
  queue's length no run finds or refreshes an issue of it.
\<close>

theorem queue_backlog_unseen:
  assumes "db_ok d" and "one_open d"
    and "\<exists>e. llen ARQ_QUEUE = (if queued = (0::nat) then Inr 0 else Inl e)"
  shows "\<exists>d' found. detect_anomalies c (Some llen) now d = (d', Inr found)
    \<and> ''queue_depth'' \<notin> si_category ` set found
    \<and> filter (is_open ''queue_depth'') (system_issues d') = filter (is_open ''queue_depth'') (system_issues d)"
proof -
  have q: "queue_depth (Some llen) = 0" using assms(3) by (auto simp: queue_depth_def)
  have cq: "check_queue (Some llen) now x = Inr (x, [])" for x by (simp add: check_queue_def q QUEUE_DEPTH_THRESHOLD_def)
  show ?thesis
  proof (cases "failure_rate_high (length (recent_apps c now d)) (length (filter (\<lambda>a. a_status a = FAILED) (recent_apps c now d)))")
    case True
    then obtain d' i where f: "check_failures c now d = Inr (d', [i])" and u: "upserted ''apply_failure_rate'' now d d' i"
      using check_failures_ok [OF assms(2), of c now] by auto
    have "db_ok d'" using u assms(1) unfolding upserted_def by (metis db_ok_issues)
    then show ?thesis using f u cq by (auto simp: detect_anomalies_def commit_def upserted_def)
  next
    case False
    then show ?thesis using check_failures_ok [OF assms(2), of c now] cq by (simp add: detect_anomalies_def)
  qed
qed

theorem queue_backlog_unseen_witness:
  "\<exists>d' found. detect_anomalies None (Some (\<lambda>k. Inl (OtherError ''WRONGTYPE''))) 100 empty_db = (d', Inr found)
    \<and> ''queue_depth'' \<notin> si_category ` set found"
proof -
  have "db_ok empty_db" "one_open empty_db"
    by (simp_all add: empty_db_def db_ok_def pk_ok_def uq_shared_def uq_app_active_job_def uq_job_platform_id_def
        uq_user_email_def one_open_def open_issues_def)
  then show ?thesis
    using queue_backlog_unseen [of empty_db "\<lambda>k. Inl (OtherError ''WRONGTYPE'')" 5000 None 100] by simp blast
qed

end
