(* ===== verification/Preferences.thy ===== *)
theory Preferences
  imports Llm Tenant
begin

text \<open>
  The settings routes (\<^verbatim>\<open>api/v1/settings.py\<close>, \<^verbatim>\<open>schemas/settings.py\<close>, \<^verbatim>\<open>models/user_settings.py\<close>): the row of
  preferences that every user has, created on first use also when two requests race for it, its partial
  update, and the status of the language-model providers. The candidate profile is a parameter: its
  validation from the JSON column and its dump to it.
\<close>

section \<open>Rows, requests and answers\<close>

text \<open>\<^verbatim>\<open>CandidateProfileSchema\<close>: the empty profile, \<^verbatim>\<open>CandidateProfileSchema(**v)\<close> and \<^verbatim>\<open>model_dump()\<close>.\<close>

record 'p profile_api =
  pa_default :: 'p
  pa_validate :: "str \<Rightarrow> exn + 'p"
  pa_dump :: "'p \<Rightarrow> str"

text \<open>Documented: a dumped model validates to itself.\<close>

definition profile_docs :: "'p profile_api \<Rightarrow> bool" where
  "profile_docs P \<longleftrightarrow> (\<forall>p. pa_validate P (pa_dump P p) = Inr p)"

definition default_settings :: "str \<Rightarrow> user_settings" where
  "default_settings user =
     \<lparr>us_user = user, us_apply_mode = ''review'', us_max_parallel = 3, us_min_ats_score = 3 / 4,
      us_provider = ''openai'', us_platforms = [''linkedin'', ''indeed'', ''glassdoor''], us_profile = None\<rparr>"

text \<open>A field of an update: absent (None), null (\<open>Some None\<close>) or a value.\<close>

record 'p settings_update =
  su_apply_mode :: "str option option"
  su_min_ats_score :: "real option option"
  su_max_parallel :: "int option option"
  su_provider :: "str option option"
  su_platforms :: "str list option option"
  su_profile :: "'p option option"

record 'p settings_response =
  sn_apply_mode :: str
  sn_min_ats_score :: real
  sn_max_parallel :: int
  sn_provider :: str
  sn_platforms :: "str list"
  sn_profile :: 'p

definition given :: "'a option option \<Rightarrow> ('a \<Rightarrow> bool) \<Rightarrow> bool" where
  "given f p \<longleftrightarrow> (case f of Some (Some v) \<Rightarrow> p v | _ \<Rightarrow> True)"

text \<open>The \<^verbatim>\<open>Field\<close> bounds of \<^verbatim>\<open>SettingsUpdate\<close>.\<close>

definition update_valid :: "'p settings_update \<Rightarrow> bool" where
  "update_valid u \<longleftrightarrow> given (su_min_ats_score u) (\<lambda>x. 0 \<le> x \<and> x \<le> 1)
     \<and> given (su_max_parallel u) (\<lambda>n. 1 \<le> n \<and> n \<le> 5)"

definition settings_to_response :: "'p profile_api \<Rightarrow> user_settings \<Rightarrow> exn + 'p settings_response" where
  "settings_to_response P s =
     (case (case us_profile s of None \<Rightarrow> Inr (pa_default P) | Some v \<Rightarrow> pa_validate P v) of
        Inl e \<Rightarrow> Inl e
      | Inr p \<Rightarrow> Inr \<lparr>sn_apply_mode = us_apply_mode s, sn_min_ats_score = us_min_ats_score s,
          sn_max_parallel = us_max_parallel s, sn_provider = us_provider s, sn_platforms = us_platforms s,
          sn_profile = p\<rparr>)"

section \<open>Reading and creating the row\<close>

text \<open>\<^verbatim>\<open>Result.scalar_one\<close>.\<close>

definition scalar_one :: "'a list \<Rightarrow> exn + 'a" where
  "scalar_one xs =
     (case scalar_one_or_none xs of
        Inl e \<Rightarrow> Inl e | Inr None \<Rightarrow> Inl (OtherError ''NoResultFound'') | Inr (Some x) \<Rightarrow> Inr x)"

text \<open>\<open>race\<close>: the row that another request of the user commits between the SELECT and the commit, if any.\<close>

definition get_or_create_settings ::
  "user_settings option \<Rightarrow> str \<Rightarrow> (db, exn, user_settings) op" where
  "get_or_create_settings race user d =
     (case scalar_one_or_none (filter (\<lambda>s. us_user s = user) (settings_rows d)) of
        Inl e \<Rightarrow> (d, Inl e)
      | Inr (Some s) \<Rightarrow> (d, Inr s)
      | Inr None \<Rightarrow>
          (let d1 = (case race of None \<Rightarrow> d | Some r \<Rightarrow> d\<lparr>settings_rows := settings_rows d @ [r]\<rparr>);
               s = default_settings user
           in case commit (d1\<lparr>settings_rows := settings_rows d1 @ [s]\<rparr>) d1 of
                (d2, Inr _) \<Rightarrow> (d2, Inr s)
              | (d2, Inl _) \<Rightarrow> (d2, scalar_one (filter (\<lambda>s. us_user s = user) (settings_rows d2)))))"

definition get_settings :: "'p profile_api \<Rightarrow> user_settings option \<Rightarrow> str \<Rightarrow> (db, exn, 'p settings_response) op" where
  "get_settings P race user d =
     (case get_or_create_settings race user d of
        (d', Inl e) \<Rightarrow> (d', Inl e)
      | (d', Inr s) \<Rightarrow> (d', settings_to_response P s))"

section \<open>Updating it\<close>

text \<open>The new value of a column that is not nullable: None when the update sets it to null.\<close>

definition set_column :: "'a option option \<Rightarrow> 'a \<Rightarrow> 'a option" where
  "set_column f old = (case f of None \<Rightarrow> Some old | Some v \<Rightarrow> v)"

definition set_profile :: "'p profile_api \<Rightarrow> 'p option option \<Rightarrow> str option \<Rightarrow> str option" where
  "set_profile P f old = (case f of None \<Rightarrow> old | Some v \<Rightarrow> map_option (pa_dump P) v)"

definition apply_update :: "'p profile_api \<Rightarrow> 'p settings_update \<Rightarrow> user_settings \<Rightarrow> user_settings option" where
  "apply_update P u s =
     (case (set_column (su_apply_mode u) (us_apply_mode s), set_column (su_min_ats_score u) (us_min_ats_score s),
            set_column (su_max_parallel u) (us_max_parallel s), set_column (su_provider u) (us_provider s),
            set_column (su_platforms u) (us_platforms s)) of
        (Some m, Some x, Some n, Some p, Some ps) \<Rightarrow>
          Some \<lparr>us_user = us_user s, us_apply_mode = m, us_max_parallel = n, us_min_ats_score = x,
                us_provider = p, us_platforms = ps, us_profile = set_profile P (su_profile u) (us_profile s)\<rparr>
      | _ \<Rightarrow> None)"

text \<open>A request that is not valid never reaches the route; a null in a NOT NULL column fails the commit.\<close>

definition update_settings ::
  "'p profile_api \<Rightarrow> user_settings option \<Rightarrow> str \<Rightarrow> 'p settings_update \<Rightarrow> (db, exn, 'p settings_response) op" where
  "update_settings P race user u d =
     (if \<not> update_valid u then (d, Inl (OtherError ''RequestValidationError''))
      else
        (case get_or_create_settings race user d of
           (d1, Inl e) \<Rightarrow> (d1, Inl e)
         | (d1, Inr s) \<Rightarrow>
             (case apply_update P u s of
                None \<Rightarrow> (d1, Inl DBIntegrityError)
              | Some s' \<Rightarrow>
                  (case commit (d1\<lparr>settings_rows := update_where (\<lambda>x. us_user x = user) (\<lambda>_. s') (settings_rows d1)\<rparr>) d1 of
                     (d2, Inl e) \<Rightarrow> (d2, Inl e)
                   | (d2, Inr _) \<Rightarrow> (d2, settings_to_response P s')))))"

section \<open>Providers\<close>

record provider_keys =
  pk_openai :: str
  pk_groq :: str
  pk_gemini :: str
  pk_openrouter :: str
  pk_github :: str

record provider_status =
  pv_provider :: str
  pv_configured :: bool
  pv_model :: str
  pv_is_primary :: bool

definition list_llm_providers :: "llm_settings \<Rightarrow> provider_keys \<Rightarrow> provider_status list" where
  "list_llm_providers st k =
     map (\<lambda>(name, key, model). \<lparr>pv_provider = name, pv_configured = key \<noteq> [], pv_model = model,
            pv_is_primary = llm_preferred_provider st = name\<rparr>)
       [(''openai'', pk_openai k, ''gpt-4o''), (''groq'', pk_groq k, ''llama-3.1-70b-versatile''),
        (''gemini'', pk_gemini k, ''gemini-pro''), (''openrouter'', pk_openrouter k, llm_default_model st),
        (''github'', pk_github k, ''gpt-4o'')]"

section \<open>One row per user\<close>

definition own_settings :: "str \<Rightarrow> db \<Rightarrow> user_settings list" where
  "own_settings user d = filter (\<lambda>s. us_user s = user) (settings_rows d)"

definition other_settings :: "str \<Rightarrow> db \<Rightarrow> user_settings list" where
  "other_settings user d = filter (\<lambda>s. us_user s \<noteq> user) (settings_rows d)"

text \<open>The row that a request finds: the stored one, the one committed by its rival, or the defaults.\<close>

definition current_settings :: "user_settings option \<Rightarrow> str \<Rightarrow> db \<Rightarrow> user_settings" where
  "current_settings race user d =
     (case own_settings user d of s # _ \<Rightarrow> s
      | [] \<Rightarrow> (case race of None \<Rightarrow> default_settings user | Some r \<Rightarrow> r))"

lemma db_ok_settings:
  "db_ok d \<Longrightarrow> db_ok (d\<lparr>settings_rows := ss\<rparr>) \<longleftrightarrow> distinct (map us_user ss)"
  by (simp add: db_ok_def pk_ok_def uq_shared_def)

lemma db_ok_settings_distinct: "db_ok d \<Longrightarrow> distinct (map us_user (settings_rows d))"
  by (simp add: db_ok_def uq_shared_def)

lemma get_or_create_ok:
  assumes "db_ok d" and "\<And>r. race = Some r \<Longrightarrow> us_user r = user"
  shows "\<exists>ss. get_or_create_settings race user d = (d\<lparr>settings_rows := ss\<rparr>, Inr (current_settings race user d))
    \<and> distinct (map us_user ss) \<and> filter (\<lambda>s. us_user s = user) ss = [current_settings race user d]
    \<and> filter (\<lambda>s. us_user s \<noteq> user) ss = other_settings user d \<and> us_user (current_settings race user d) = user"
proof (cases "own_settings user d")
  case Nil
  then have none: "filter (\<lambda>s. us_user s = user) (settings_rows d) = []" by (simp add: own_settings_def)
  then have fresh: "user \<notin> us_user ` set (settings_rows d)" by (auto simp: filter_empty_conv)
  have all: "filter (\<lambda>s. us_user s \<noteq> user) (settings_rows d) = settings_rows d" using fresh by (auto simp: filter_id_conv)
  have dist: "distinct (map us_user (settings_rows d))" by (rule db_ok_settings_distinct [OF assms(1)])
  have u: "us_user (default_settings user) = user" by (simp add: default_settings_def)
  show ?thesis
  proof (cases race)
    case None
    have "db_ok (d\<lparr>settings_rows := settings_rows d @ [default_settings user]\<rparr>)"
      using db_ok_settings [OF assms(1)] dist fresh u by simp
    then show ?thesis
      using None Nil none dist fresh u all
      by (intro exI [of _ "settings_rows d @ [default_settings user]"])
        (simp add: get_or_create_settings_def current_settings_def commit_def Let_def other_settings_def)
  next
    case (Some r)
    have r: "us_user r = user" using assms(2) Some by simp
    have "\<not> db_ok (d\<lparr>settings_rows := (settings_rows d @ [r]) @ [default_settings user]\<rparr>)"
      using db_ok_settings [OF assms(1)] r u by simp
    then show ?thesis
      using Some Nil none dist fresh r all
      by (intro exI [of _ "settings_rows d @ [r]"])
        (simp add: get_or_create_settings_def current_settings_def commit_def Let_def other_settings_def scalar_one_def)
  qed
next
  case (Cons x xs)
  have dist: "distinct (map us_user (settings_rows d))" by (rule db_ok_settings_distinct [OF assms(1)])
  have "own_settings user d = [x]"
    using filter_key_le_one [OF dist, of user] Cons by (auto simp: own_settings_def)
  moreover have "us_user x = user"
    using Cons by (metis (mono_tags, lifting) filter_eq_Cons_iff own_settings_def)
  ultimately show ?thesis
    using dist by (intro exI [of _ "settings_rows d"])
      (simp add: get_or_create_settings_def current_settings_def own_settings_def other_settings_def)
qed

lemma update_own_row:
  assumes "filter (\<lambda>s. us_user s = user) ss = [old]" and "distinct (map us_user ss)" and "us_user s' = user"
    and "ss' = update_where (\<lambda>x. us_user x = user) (\<lambda>_. s') ss"
  shows "filter (\<lambda>s. us_user s = user) ss' = [s'] \<and> filter (\<lambda>s. us_user s \<noteq> user) ss' = filter (\<lambda>s. us_user s \<noteq> user) ss
    \<and> distinct (map us_user ss')"
proof (intro conjI)
  have "filter (\<lambda>s. us_user s = user) ss' = update_where (\<lambda>x. us_user x = user) (\<lambda>_. s') [old]"
    unfolding assms(4) assms(1) [symmetric] by (rule filter_update_where) (simp add: assms(3))
  moreover have "us_user old = user" using assms(1) by (metis (mono_tags, lifting) filter_eq_Cons_iff)
  ultimately show "filter (\<lambda>s. us_user s = user) ss' = [s']" by (simp add: update_where_def)
  show "filter (\<lambda>s. us_user s \<noteq> user) ss' = filter (\<lambda>s. us_user s \<noteq> user) ss"
    unfolding assms(4) by (rule filter_update_where_other) (simp add: assms(3))
  show "distinct (map us_user ss')" using assms(2,3) by (simp add: assms(4) map_update_where)
qed

lemma apply_update_user: "apply_update P u s = Some s' \<Longrightarrow> us_user s' = us_user s"
  by (auto simp: apply_update_def split: option.splits)

lemma get_settings_stored:
  "filter (\<lambda>s. us_user s = user) (settings_rows d) = [s] \<Longrightarrow> get_settings P race user d = (d, settings_to_response P s)"
  by (simp add: get_settings_def get_or_create_settings_def)

lemma profile_round_trip:
  assumes "profile_docs P" and "apply_update P u s = Some s'" and "su_profile u = Some (Some p)"
  shows "\<exists>r. settings_to_response P s' = Inr r \<and> sn_profile r = p"
  using assms by (auto simp: apply_update_def settings_to_response_def set_profile_def profile_docs_def split: option.splits)

text \<open>The row that an update asks for: a field that is given replaces the old value, every other one stays.\<close>

definition given_or :: "'a option option \<Rightarrow> 'a \<Rightarrow> 'a" where
  "given_or f old = (if \<exists>v. f = Some (Some v) then the (the f) else old)"

definition no_nulls :: "'p settings_update \<Rightarrow> bool" where
  "no_nulls u \<longleftrightarrow> su_apply_mode u \<noteq> Some None \<and> su_min_ats_score u \<noteq> Some None \<and> su_max_parallel u \<noteq> Some None
     \<and> su_provider u \<noteq> Some None \<and> su_platforms u \<noteq> Some None"

definition asked_for :: "'p profile_api \<Rightarrow> 'p settings_update \<Rightarrow> user_settings \<Rightarrow> user_settings \<Rightarrow> bool" where
  "asked_for P u old s \<longleftrightarrow> us_user s = us_user old
     \<and> us_apply_mode s = given_or (su_apply_mode u) (us_apply_mode old)
     \<and> us_min_ats_score s = given_or (su_min_ats_score u) (us_min_ats_score old)
     \<and> us_max_parallel s = given_or (su_max_parallel u) (us_max_parallel old)
     \<and> us_provider s = given_or (su_provider u) (us_provider old)
     \<and> us_platforms s = given_or (su_platforms u) (us_platforms old)
     \<and> (su_profile u = None \<longrightarrow> us_profile s = us_profile old)
     \<and> (su_profile u = Some None \<longrightarrow> us_profile s = None)
     \<and> (\<forall>p. su_profile u = Some (Some p) \<longrightarrow> us_profile s = Some (pa_dump P p))"

lemma set_column_given: "set_column f old = (if f = Some None then None else Some (given_or f old))"
  by (auto simp: set_column_def given_or_def split: option.split)

lemma apply_update_cases:
  "apply_update P u old = None \<and> \<not> no_nulls u \<or> (\<exists>s. apply_update P u old = Some s \<and> no_nulls u \<and> asked_for P u old s)"
  by (auto simp: apply_update_def set_column_given no_nulls_def asked_for_def set_profile_def split: option.split)

lemma update_settings_cases:
  assumes "db_ok d" and "update_valid u" and "\<And>r. race = Some r \<Longrightarrow> us_user r = user"
  shows "case apply_update P u (current_settings race user d) of
      None \<Rightarrow> \<exists>d'. update_settings P race user u d = (d', Inl DBIntegrityError) \<and> db_ok d'
        \<and> own_settings user d' = [current_settings race user d] \<and> other_settings user d' = other_settings user d
    | Some s \<Rightarrow> \<exists>d'. update_settings P race user u d = (d', settings_to_response P s) \<and> db_ok d'
        \<and> own_settings user d' = [s] \<and> other_settings user d' = other_settings user d
        \<and> get_settings P race' user d' = (d', settings_to_response P s)"
proof -
  let ?old = "current_settings race user d"
  obtain ss where ss: "get_or_create_settings race user d = (d\<lparr>settings_rows := ss\<rparr>, Inr ?old)"
    "distinct (map us_user ss)" "filter (\<lambda>s. us_user s = user) ss = [?old]"
    "filter (\<lambda>s. us_user s \<noteq> user) ss = other_settings user d" "us_user ?old = user"
    using get_or_create_ok [OF assms(1,3)] by blast
  show ?thesis
  proof (cases "apply_update P u ?old")
    case None
    then show ?thesis
      using ss assms(2) db_ok_settings [OF assms(1)]
      by (simp add: update_settings_def own_settings_def other_settings_def)
  next
    case (Some s)
    have us: "us_user s = user" using apply_update_user [OF Some] ss(5) by simp
    note up = update_own_row [OF ss(3,2) us refl]
    have "db_ok (d\<lparr>settings_rows := update_where (\<lambda>x. us_user x = user) (\<lambda>_. s) ss\<rparr>)"
      using db_ok_settings [OF assms(1)] up by simp
    then show ?thesis
      using Some ss(1,4) assms(2) up
      by (simp add: update_settings_def commit_def own_settings_def other_settings_def get_settings_stored)
  qed
qed

text \<open>
  an update of the settings, also when another request of the user creates the row meanwhile. It gives
  every field that the request sets its new value and leaves the other fields and the other users' rows as
  they were, leaves one row of the user, answers with that row, and a later read answers the same; but a
  field that is set to null, other than the profile, fails the commit and leaves the row as it was.
\<close>

theorem update_settings_spec:
  assumes "db_ok d" and "update_valid u" and "pred_option (\<lambda>r. us_user r = user) race"
  shows "\<exists>d' s. db_ok d' \<and> own_settings user d' = [s] \<and> other_settings user d' = other_settings user d
    \<and> (if no_nulls u
       then asked_for P u (current_settings race user d) s \<and> update_settings P race user u d = (d', settings_to_response P s)
         \<and> get_settings P race' user d' = (d', settings_to_response P s)
       else s = current_settings race user d \<and> update_settings P race user u d = (d', Inl DBIntegrityError))"
proof -
  have rival: "us_user r = user" if "race = Some r" for r using assms(3) that by simp
  note cases = update_settings_cases [where race = race and P = P and race' = race', OF assms(1,2) rival]
  note how = apply_update_cases [of P u "current_settings race user d"]
  show ?thesis
  proof (cases "apply_update P u (current_settings race user d)")
    case None
    from cases [unfolded None option.case] obtain d' where
      "update_settings P race user u d = (d', Inl DBIntegrityError)" "db_ok d'"
      "own_settings user d' = [current_settings race user d]" "other_settings user d' = other_settings user d" by blast
    then show ?thesis using how None by (intro exI [of _ d'] exI [of _ "current_settings race user d"]) simp
  next
    case (Some s)
    from cases [unfolded Some option.case] obtain d' where
      "update_settings P race user u d = (d', settings_to_response P s)" "db_ok d'"
      "own_settings user d' = [s]" "other_settings user d' = other_settings user d"
      "get_settings P race' user d' = (d', settings_to_response P s)" by blast
    then show ?thesis using how Some by (intro exI [of _ d'] exI [of _ s]) simp
  qed
qed

definition text_profiles :: "str profile_api" where
  "text_profiles = \<lparr>pa_default = [], pa_validate = Inr, pa_dump = (\<lambda>p. p)\<rparr>"

definition no_update :: "'p settings_update" where
  "no_update = \<lparr>su_apply_mode = None, su_min_ats_score = None, su_max_parallel = None, su_provider = None,
     su_platforms = None, su_profile = None\<rparr>"

theorem update_settings_spec_witness:
  "(\<exists>d' s. update_settings text_profiles (Some (default_settings ''u1'')) ''u1'' (no_update\<lparr>su_max_parallel := Some (Some 5)\<rparr>) empty_db
      = (d', settings_to_response text_profiles s) \<and> own_settings ''u1'' d' = [s] \<and> us_max_parallel s = 5 \<and> us_provider s = ''openai'')
   \<and> (\<exists>d'. update_settings text_profiles None ''u1'' (no_update\<lparr>su_apply_mode := Some None\<rparr>) empty_db
      = (d', Inl DBIntegrityError) \<and> own_settings ''u1'' d' = [default_settings ''u1''])"
proof (intro conjI)
  have ok: "db_ok empty_db"
    by (simp add: empty_db_def db_ok_def pk_ok_def uq_shared_def uq_app_active_job_def uq_job_platform_id_def uq_user_email_def)
  have own: "own_settings ''u1'' empty_db = []" by (simp add: own_settings_def empty_db_def)
  have valid: "update_valid (no_update\<lparr>su_max_parallel := Some (Some 5)\<rparr>)" "update_valid (no_update\<lparr>su_apply_mode := Some None\<rparr>)"
    by (simp_all add: update_valid_def given_def no_update_def)
  have cur: "current_settings (Some (default_settings ''u1'')) ''u1'' empty_db = default_settings ''u1''"
    "current_settings None ''u1'' empty_db = default_settings ''u1''" by (simp_all add: current_settings_def own)
  have rival: "pred_option (\<lambda>r. us_user r = ''u1'') (Some (default_settings ''u1''))" "pred_option (\<lambda>r. us_user r = ''u1'') None"
    by (simp_all add: default_settings_def)
  show "\<exists>d' s. update_settings text_profiles (Some (default_settings ''u1'')) ''u1'' (no_update\<lparr>su_max_parallel := Some (Some 5)\<rparr>) empty_db
      = (d', settings_to_response text_profiles s) \<and> own_settings ''u1'' d' = [s] \<and> us_max_parallel s = 5 \<and> us_provider s = ''openai''"
    using update_settings_spec [OF ok valid(1) rival(1), where P = text_profiles and race' = None] unfolding cur
    by (auto simp: no_nulls_def no_update_def asked_for_def given_or_def default_settings_def)
  show "\<exists>d'. update_settings text_profiles None ''u1'' (no_update\<lparr>su_apply_mode := Some None\<rparr>) empty_db
      = (d', Inl DBIntegrityError) \<and> own_settings ''u1'' d' = [default_settings ''u1'']"
    using update_settings_spec [OF ok valid(2) rival(2), where P = text_profiles and race' = None] unfolding cur
    by (auto simp: no_nulls_def no_update_def)
qed

section \<open>Every stored row is well-formed\<close>

definition settings_ok :: "'p profile_api \<Rightarrow> user_settings \<Rightarrow> bool" where
  "settings_ok P s \<longleftrightarrow> 0 \<le> us_min_ats_score s \<and> us_min_ats_score s \<le> 1 \<and> 1 \<le> us_max_parallel s \<and> us_max_parallel s \<le> 5
     \<and> (case us_profile s of None \<Rightarrow> True | Some v \<Rightarrow> (case pa_validate P v of Inl _ \<Rightarrow> False | Inr _ \<Rightarrow> True))"

definition settings_inv :: "'p profile_api \<Rightarrow> db \<Rightarrow> bool" where
  "settings_inv P d \<longleftrightarrow> db_ok d \<and> list_all (settings_ok P) (settings_rows d)"

text \<open>A read or an update, possibly racing with the first request of the same user, or any other change.\<close>

inductive settings_step :: "'p profile_api \<Rightarrow> db \<Rightarrow> db \<Rightarrow> bool" for P where
  reads: "race \<in> {None, Some (default_settings user)} \<Longrightarrow> get_settings P race user d = (d', r) \<Longrightarrow> settings_step P d d'"
| writes: "race \<in> {None, Some (default_settings user)} \<Longrightarrow> update_settings P race user u d = (d', r) \<Longrightarrow> settings_step P d d'"
| change: "settings_rows d' = settings_rows d \<Longrightarrow> db_ok d' \<Longrightarrow> settings_step P d d'"

lemma default_settings_ok: "settings_ok P (default_settings user)"
  by (simp add: settings_ok_def default_settings_def)

lemma apply_update_ok:
  assumes "profile_docs P" and "update_valid u" and "settings_ok P s" and "apply_update P u s = Some s'"
  shows "settings_ok P s'"
proof -
  obtain x n where x: "set_column (su_min_ats_score u) (us_min_ats_score s) = Some x" "us_min_ats_score s' = x"
    and n: "set_column (su_max_parallel u) (us_max_parallel s) = Some n" "us_max_parallel s' = n"
    and p: "us_profile s' = set_profile P (su_profile u) (us_profile s)"
    using assms(4) by (auto simp: apply_update_def split: option.splits)
  have "0 \<le> x \<and> x \<le> 1" "1 \<le> n \<and> n \<le> 5"
    using assms(2,3) x n by (auto simp: set_column_def update_valid_def given_def settings_ok_def split: option.splits)
  moreover have "case set_profile P (su_profile u) (us_profile s) of None \<Rightarrow> True
      | Some v \<Rightarrow> (case pa_validate P v of Inl _ \<Rightarrow> False | Inr _ \<Rightarrow> True)"
    using assms(1,3) by (auto simp: set_profile_def profile_docs_def settings_ok_def split: option.splits)
  ultimately show ?thesis using x n p by (simp add: settings_ok_def)
qed

lemma settings_inv_put:
  assumes "settings_inv P d" and "distinct (map us_user ss)" and "filter (\<lambda>s. us_user s = user) ss = [s]"
    and "filter (\<lambda>s. us_user s \<noteq> user) ss = other_settings user d" and "settings_ok P s"
  shows "settings_inv P (d\<lparr>settings_rows := ss\<rparr>)"
proof -
  have "set ss = set (filter (\<lambda>s. us_user s = user) ss) \<union> set (filter (\<lambda>s. us_user s \<noteq> user) ss)" by auto
  also have "\<dots> = insert s (set (other_settings user d))" unfolding assms(3,4) by simp
  finally show ?thesis using assms(1,2,5) db_ok_settings
    by (auto simp: settings_inv_def list_all_iff other_settings_def)
qed

lemma get_or_create_inv:
  assumes "settings_inv P d" and "race \<in> {None, Some (default_settings user)}"
  shows "\<exists>ss. get_or_create_settings race user d = (d\<lparr>settings_rows := ss\<rparr>, Inr (current_settings race user d))
    \<and> settings_inv P (d\<lparr>settings_rows := ss\<rparr>) \<and> settings_ok P (current_settings race user d)
    \<and> distinct (map us_user ss) \<and> filter (\<lambda>s. us_user s = user) ss = [current_settings race user d]
    \<and> us_user (current_settings race user d) = user"
proof -
  have u: "us_user (default_settings user) = user" by (simp add: default_settings_def)
  have "\<And>r. race = Some r \<Longrightarrow> us_user r = user" using assms(2) u by auto
  from get_or_create_ok [OF _ this, of d] assms(1) obtain ss where
    ss: "get_or_create_settings race user d = (d\<lparr>settings_rows := ss\<rparr>, Inr (current_settings race user d))"
      "distinct (map us_user ss)" "filter (\<lambda>s. us_user s = user) ss = [current_settings race user d]"
      "filter (\<lambda>s. us_user s \<noteq> user) ss = other_settings user d" "us_user (current_settings race user d) = user"
    by (auto simp: settings_inv_def)
  have "settings_ok P (current_settings race user d)"
  proof (cases "own_settings user d")
    case Nil
    then show ?thesis using assms(2) default_settings_ok by (auto simp: current_settings_def)
  next
    case (Cons x xs)
    then have "x \<in> set (own_settings user d)" by simp
    then have "x \<in> set (settings_rows d)" by (simp add: own_settings_def)
    then show ?thesis using assms(1) Cons by (simp add: current_settings_def settings_inv_def list_all_iff)
  qed
  then show ?thesis using ss settings_inv_put [OF assms(1) ss(2-4)] by blast
qed

lemma settings_step_inv:
  assumes "profile_docs P" and "settings_step P d d'" and "settings_inv P d"
  shows "settings_inv P d'"
  using assms(2,3)
proof (induction rule: settings_step.induct)
  case (reads race user d d' r)
  then show ?case using get_or_create_inv [of P d race user] by (auto simp: get_settings_def)
next
  case (writes race user u d d' r)
  obtain ss where ss: "get_or_create_settings race user d = (d\<lparr>settings_rows := ss\<rparr>, Inr (current_settings race user d))"
      "settings_inv P (d\<lparr>settings_rows := ss\<rparr>)" "settings_ok P (current_settings race user d)" "distinct (map us_user ss)"
      "filter (\<lambda>s. us_user s = user) ss = [current_settings race user d]" "us_user (current_settings race user d) = user"
    using get_or_create_inv [OF writes.prems writes.hyps(1)] by blast
  show ?case
  proof (cases "update_valid u \<and> apply_update P u (current_settings race user d) \<noteq> None")
    case True
    then obtain s where s: "update_valid u" "apply_update P u (current_settings race user d) = Some s" by blast
    let ?ss = "update_where (\<lambda>x. us_user x = user) (\<lambda>_. s) ss"
    have us: "us_user s = user" using apply_update_user [OF s(2)] ss(6) by simp
    note up = update_own_row [OF ss(5,4) us refl]
    have ok: "settings_inv P ((d\<lparr>settings_rows := ss\<rparr>)\<lparr>settings_rows := ?ss\<rparr>)"
      by (rule settings_inv_put [OF ss(2)]) (use up apply_update_ok [OF assms(1) s(1) ss(3) s(2)] in \<open>auto simp: other_settings_def\<close>)
    then have "d' = (d\<lparr>settings_rows := ss\<rparr>)\<lparr>settings_rows := ?ss\<rparr>"
      using writes.hyps(2) s ss(1) by (auto simp: update_settings_def commit_def settings_inv_def split: if_splits)
    with ok show ?thesis by simp
  qed (use writes ss in \<open>auto simp: update_settings_def split: if_splits option.splits\<close>)
next
  case (change d' d)
  then show ?case by (simp add: settings_inv_def)
qed

text \<open>The invariant of the requests over profiles whose dump validates.\<close>

definition checked_step :: "'p profile_api \<Rightarrow> db \<Rightarrow> db \<Rightarrow> bool" where
  "checked_step P d d' \<longleftrightarrow> profile_docs P \<and> settings_step P d d'"

interpretation preferences: step_invariant "checked_step P" "settings_inv P" for P
  by unfold_locales (auto simp: checked_step_def intro: settings_step_inv)

lemma checked_steps: "profile_docs P \<Longrightarrow> (settings_step P)\<^sup>*\<^sup>* d d' \<Longrightarrow> (checked_step P)\<^sup>*\<^sup>* d d'"
  by (erule rtranclp_mono [THEN predicate2D, rotated]) (simp add: checked_step_def le_fun_def)



end
