(* ===== verification/CoverLetter.thy ===== *)
theory CoverLetter
  imports Resumes Applications
begin

text \<open>
  The cover letter of an application (\<^verbatim>\<open>services/cover_letter.py\<close>): generated with the caller's own
  language-model client, moved into the caller's storage, and recorded on the application.
\<close>

text \<open>A commit of the one attribute that changed.\<close>

definition set_cover_letter :: "str \<Rightarrow> str option \<Rightarrow> (db, exn, unit) op" where
  "set_cover_letter i path d =
     commit (d\<lparr>applications := update_where (\<lambda>a. a_id a = i) (\<lambda>a. a\<lparr>a_cover_letter_path := path\<rparr>) (applications d)\<rparr>) d"

text \<open>The job and the resume that \<^verbatim>\<open>selectinload\<close> attaches: the rows with these ids, of any tenant.\<close>

definition loaded_job :: "application \<Rightarrow> db \<Rightarrow> job option" where
  "loaded_job a d = db_get None j_user j_id (a_job a) (jobs d)"

definition loaded_resume :: "application \<Rightarrow> db \<Rightarrow> resume option" where
  "loaded_resume a d = (case a_resume a of None \<Rightarrow> None | Some i \<Rightarrow> db_get None r_user r_id i (resumes d))"

definition generate_cover_letter ::
  "gen_env \<Rightarrow> ctx \<Rightarrow> str \<Rightarrow> str \<Rightarrow> str \<Rightarrow> (rworld, exn, application) op" where
  "generate_cover_letter G c app_id user doc_id w =
     (case find_row c a_user a_id app_id (applications (lw_db (fst w))) of
        Inl e \<Rightarrow> (w, Inl e)
      | Inr None \<Rightarrow> (w, Inl (RecordNotFoundError ''Application'' app_id))
      | Inr (Some a) \<Rightarrow>
         (case (loaded_job a (lw_db (fst w)), loaded_resume a (lw_db (fst w))) of
            (Some j, Some r) \<Rightarrow>
              (case build_llm_client_for_user (ge_lib G) (ge_settings G) (ge_secrets G) user (lw_db (fst w)) of
                 Inl e \<Rightarrow> (w, Inl e)
               | Inr client \<Rightarrow>
                  (case on_llm (generate_cover_letter_doc (ge_doc G) (Some client) (or_empty (r_content_text r))
                          (j_description j) (j_company j) None [] doc_id) w of
                     (w1, Inl e) \<Rightarrow> (w1, Inl e)
                   | (w1, Inr doc) \<Rightarrow>
                      (case on_fs (persist_generated_document (ge_root G) user doc) w1 of
                         (w2, Inl e) \<Rightarrow> (w2, Inl e)
                       | (w2, Inr (pk, dk)) \<Rightarrow>
                          (let path = (if truthy pk then pk else dk)
                           in case on_db (set_cover_letter app_id path) w2 of
                                (w3, Inl e) \<Rightarrow> (w3, Inl e)
                              | (w3, Inr _) \<Rightarrow> (w3, Inr (a\<lparr>a_cover_letter_path := path\<rparr>))))))
          | _ \<Rightarrow> (w, Inl (GenerationError ''Application needs both a job and a resume for a cover letter''))))"

section \<open>The letter is stored and recorded\<close>

lemma client_complete_db:
  assumes "db_ok (lw_db w)"
  shows "\<exists>us. lw_db (fst (client_complete c p q w)) = lw_db w\<lparr>llm_usages := us\<rparr>"
  using try_models_db [OF assms] by (auto simp: client_complete_def complete_call_cases)

lemma cover_letter_doc_db:
  assumes "db_ok (lw_db w)" and "generate_cover_letter_doc E client cv jd co t fs i w = (w', x)"
  shows "\<exists>us. lw_db w' = lw_db w\<lparr>llm_usages := us\<rparr>"
proof -
  have keep: "\<exists>us. lw_db w = lw_db w\<lparr>llm_usages := us\<rparr>" by (rule exI [of _ "llm_usages (lw_db w)"]) simp
  define t' where "t' = (case t of Some t \<Rightarrow> t | None \<Rightarrow> select_best_template [] jd False False)"
  have w': "w' = fst (generate_letter_content E client t' jd cv co w)"
    using assms(2) by (auto simp: generate_cover_letter_doc_def Let_def t'_def split: prod.splits sum.splits)
  show ?thesis
  proof (cases client)
    case None
    with keep show ?thesis by (simp add: w' generate_letter_content_def)
  next
    case (Some c)
    have "w' = fst (client_complete c (render_prompt E t' jd cv co) ''cover_letter'' w)"
      unfolding w' by (simp add: generate_letter_content_def Some split: prod.split sum.split)
    then show ?thesis using client_complete_db [OF assms(1)] by simp
  qed
qed

lemma cover_letter_doc_result:
  assumes "generate_cover_letter_doc E client cv jd co t fs i w = (w', Inr doc)"
  shows "gd_id doc = i \<and> gd_type doc = ''cover_letter'' \<and> (gd_pdf doc \<noteq> None \<or> gd_docx doc \<noteq> None)"
  using assms by (auto simp: generate_cover_letter_doc_def collect_doc_def Let_def split: prod.splits sum.splits if_splits)

lemma persisted_key:
  assumes "persist_generated_document rt u doc f = (f', Inr (pk, dk))"
  shows "pk = map_option (\<lambda>_. doc_key u doc ''pdf'') (gd_pdf doc) \<and> dk = map_option (\<lambda>_. doc_key u doc ''docx'') (gd_docx doc)"
  using assms
  by (auto simp: persist_generated_document_def put_rendered_def split: prod.splits sum.splits option.splits)

lemma db_ok_cover_letter:
  assumes "db_ok d"
  shows "db_ok (d\<lparr>applications := update_where (\<lambda>a. a_id a = i) (\<lambda>a. a\<lparr>a_cover_letter_path := p\<rparr>) (applications d)\<rparr>)"
proof -
  have "distinct (map app_key (filter is_active_app (update_where (\<lambda>a. a_id a = i) (\<lambda>a. a\<lparr>a_cover_letter_path := p\<rparr>) (applications d))))"
    using assms by (intro distinct_filter_update) (auto simp: db_ok_def uq_app_active_job_def app_key_def is_active_app_def)
  moreover have "map a_id (update_where (\<lambda>a. a_id a = i) (\<lambda>a. a\<lparr>a_cover_letter_path := p\<rparr>) (applications d)) = map a_id (applications d)"
    by (rule map_update_where) simp
  ultimately show ?thesis using assms by (simp add: db_ok_def pk_ok_def uq_shared_def uq_app_active_job_def)
qed

text \<open>
  a generated cover letter can be read back. When the operation succeeds, the application that the caller
  sees, and nothing else but the usage rows, gets the key of a letter that the caller's storage holds: its
  PDF, or its Word file when the PDF could not be rendered.
\<close>

theorem cover_letter_stored:
  assumes "db_ok (lw_db (fst w))" and "simple_id user" and "CHR ''/'' \<notin> set doc_id"
    and "generate_cover_letter G c app_id user doc_id w = (w', Inr a')"
  shows "\<exists>a key us j r client l doc. find_row c a_user a_id app_id (applications (lw_db (fst w))) = Inr (Some a)
    \<and> a' = a\<lparr>a_cover_letter_path := Some key\<rparr>
    \<and> lw_db (fst w') = lw_db (fst w)\<lparr>applications := update_where (\<lambda>x. a_id x = app_id)
        (\<lambda>x. x\<lparr>a_cover_letter_path := Some key\<rparr>) (applications (lw_db (fst w))), llm_usages := us\<rparr>
    \<and> db_ok (lw_db (fst w'))
    \<and> loaded_job a (lw_db (fst w)) = Some j \<and> loaded_resume a (lw_db (fst w)) = Some r
    \<and> generate_cover_letter_doc (ge_doc G) (Some client) (or_empty (r_content_text r)) (j_description j) (j_company j)
        None [] doc_id (fst w) = (l, Inr doc)
    \<and> service_get (ge_root G) user key (snd w') = Inr (the (if gd_pdf doc \<noteq> None then gd_pdf doc else gd_docx doc))"
proof -
  obtain a j r client where a: "find_row c a_user a_id app_id (applications (lw_db (fst w))) = Inr (Some a)"
    and lj: "loaded_job a (lw_db (fst w)) = Some j" and lr: "loaded_resume a (lw_db (fst w)) = Some r"
    and cl: "build_llm_client_for_user (ge_lib G) (ge_settings G) (ge_secrets G) user (lw_db (fst w)) = Inr client"
    using assms(4) by (auto simp: generate_cover_letter_def split: sum.splits option.splits prod.splits)
  obtain l doc where g: "generate_cover_letter_doc (ge_doc G) (Some client) (or_empty (r_content_text r))
      (j_description j) (j_company j) None [] doc_id (fst w) = (l, Inr doc)"
    using assms(4) a lj lr cl by (auto simp: generate_cover_letter_def on_llm_def split: sum.splits prod.splits)
  obtain f pk dk where p: "persist_generated_document (ge_root G) user doc (snd w) = (f, Inr (pk, dk))"
    using assms(4) a lj lr cl g
    by (auto simp: generate_cover_letter_def on_llm_def on_fs_def split: sum.splits prod.splits)
  define path where "path = (if truthy pk then pk else dk)"
  obtain us where us: "lw_db l = lw_db (fst w)\<lparr>llm_usages := us\<rparr>" using cover_letter_doc_db [OF assms(1) g] by blast
  note doc = cover_letter_doc_result [OF g]
  note keys = persisted_key [OF p]
  have nonempty: "doc_key user doc ''pdf'' \<noteq> []" by (simp add: doc_key_def cover_letter_key_def doc)
  obtain key where key: "path = Some key"
    using keys doc nonempty by (cases "gd_pdf doc"; cases "gd_docx doc") (auto simp: path_def)
  have ok: "db_ok (lw_db l\<lparr>applications := update_where (\<lambda>x. a_id x = app_id) (\<lambda>x. x\<lparr>a_cover_letter_path := path\<rparr>) (applications (lw_db l))\<rparr>)"
    using us assms(1) by (intro db_ok_cover_letter) simp
  have res: "a' = a\<lparr>a_cover_letter_path := path\<rparr>"
    "lw_db (fst w') = lw_db l\<lparr>applications := update_where (\<lambda>x. a_id x = app_id) (\<lambda>x. x\<lparr>a_cover_letter_path := path\<rparr>) (applications (lw_db l))\<rparr>"
    "snd w' = f"
    using assms(4) a lj lr cl g p ok
    by (auto simp: generate_cover_letter_def on_llm_def on_fs_def on_db_def Let_def set_cover_letter_def commit_def path_def)
  have "CHR ''/'' \<notin> set (gd_id doc)" using assms(3) doc by simp
  note stored = persisted_document_reads_back [OF assms(2) this p]
  have "service_get (ge_root G) user key (snd w') = Inr (the (if gd_pdf doc \<noteq> None then gd_pdf doc else gd_docx doc))"
    using keys key doc nonempty stored res(3) by (auto simp: path_def split: if_splits)
  with a res ok us key lj lr g show ?thesis
    by (intro exI [of _ a] exI [of _ key] exI [of _ us] exI [of _ j] exI [of _ r] exI [of _ client] exI [of _ l]
        exI [of _ doc]) auto
qed

lemma completed_answer:
  assumes "\<And>n rq. acompletion (cl_lib c) n rq = Inr cmp" and "cp_choices cmp = [Some x]"
  shows "\<exists>l r. client_complete c p q w = (l, Inr r)"
proof -
  let ?a = "\<lparr>ca_prompt = p, ca_system = [], ca_model = None, ca_temperature = None, ca_max_tokens = None,
        ca_format = None, ca_purpose = q\<rparr>"
  obtain m ms where chain: "get_model_chain (cl_settings c) (cl_creds c) (ca_model ?a) = m # ms"
    by (metis get_model_chain_nonempty neq_Nil_conv)
  obtain r where r: "outcome (cl_lib c) (cl_settings c) (cl_creds c) ?a 0 m = Inr r"
    using assms by (simp add: outcome_def Let_def)
  obtain l where "try_model (cl_lib c) (cl_settings c) (cl_creds c) (cl_user c) ?a 0 m w = (l, Inr r)"
    using try_model_outcome [of "cl_lib c" "cl_settings c" "cl_creds c" "cl_user c" ?a 0 m w] r by (metis prod.collapse)
  then show ?thesis by (simp add: client_complete_def complete_call_cases chain [simplified])
qed

lemma sample_letter:
  assumes "cl_lib c = answering_litellm"
  shows "\<exists>l t b b'. generate_cover_letter_doc (ge_doc answering_env) (Some c) cv jd co None [] ''d1'' w
     = (l, Inr \<lparr>gd_id = ''d1'', gd_type = ''cover_letter'', gd_template = t, gd_pdf = Some b, gd_docx = Some b'\<rparr>)"
proof -
  have "acompletion (cl_lib c) n rq = Inr \<lparr>cp_usage = None, cp_choices = [Some ''ok'']\<rparr>" for n rq
    by (simp add: assms answering_litellm_def)
  then have answers: "\<exists>l r. client_complete c p q w = (l, Inr r)" for p q w
    by (rule completed_answer) simp
  obtain l r where "client_complete c (render_prompt (ge_doc answering_env) (select_best_template [] jd False False) jd cv co)
      ''cover_letter'' w = (l, Inr r)"
    using answers by blast
  then show ?thesis
    by (simp add: generate_cover_letter_doc_def generate_letter_content_def collect_doc_def rendered_def default_formats_def
        render_letter_pdf_def answering_env_def sample_env_def Let_def)
qed

lemma sample_letter_stored:
  "\<exists>f. persist_generated_document (ge_root answering_env) ''u1'' \<lparr>gd_id = ''d1'', gd_type = ''cover_letter'', gd_template = t,
      gd_pdf = Some b, gd_docx = Some b'\<rparr> sample_fs = (f, Inr (Some ''users/u1/cover_letters/d1.pdf'', Some ''users/u1/cover_letters/d1.docx''))"
  by (simp add: persist_generated_document_def put_rendered_def doc_key_def cover_letter_key_def answering_env_def
        service_put_def local_put_def local_path_def resolve_path_def path_str_def has_prefix_def tenant_check_def
        user_prefix_def parents_def is_file_def sample_fs_def Let_def)

theorem cover_letter_stored_witness:
  "\<exists>w' a'. generate_cover_letter answering_env (Some ''u1'') ''a1'' ''u1'' ''d1'' resume_world = (w', Inr a')
     \<and> a_cover_letter_path a' \<noteq> None \<and> db_ok (lw_db (fst w'))"
proof -
  let ?c = "\<lparr>cl_lib = answering_litellm, cl_settings = sample_llm_settings, cl_creds = None, cl_user = Some ''u1''\<rparr>"
  have d: "lw_db (fst resume_world) = resume_db" "snd resume_world = sample_fs" by (simp_all add: resume_world_def)
  have a: "find_row (Some ''u1'') a_user a_id ''a1'' (applications resume_db) = Inr (Some scored_app)"
    by (simp add: find_row_def resume_db_def scored_db_def scored_app_def new_application_def)
  have j: "loaded_job scored_app resume_db = Some sample_job"
    by (simp add: loaded_job_def db_get_def resume_db_def scored_db_def sample_db_def scored_app_def new_application_def sample_job_def)
  have r: "loaded_resume scored_app resume_db = Some readable_resume"
    by (simp add: loaded_resume_def db_get_def resume_db_def scored_app_def new_application_def readable_resume_def)
  obtain l t b b' where g: "generate_cover_letter_doc (ge_doc answering_env) (Some ?c) (or_empty (r_content_text readable_resume))
      (j_description sample_job) (j_company sample_job) None [] ''d1'' (fst resume_world)
     = (l, Inr \<lparr>gd_id = ''d1'', gd_type = ''cover_letter'', gd_template = t, gd_pdf = Some b, gd_docx = Some b'\<rparr>)"
    using sample_letter [of ?c] by (metis llm_client.select_convs(1))
  obtain f where f: "persist_generated_document (ge_root answering_env) ''u1'' \<lparr>gd_id = ''d1'', gd_type = ''cover_letter'', gd_template = t,
      gd_pdf = Some b, gd_docx = Some b'\<rparr> sample_fs = (f, Inr (Some ''users/u1/cover_letters/d1.pdf'', Some ''users/u1/cover_letters/d1.docx''))"
    using sample_letter_stored by blast
  have ok: "db_ok (lw_db (fst resume_world))" by (simp add: d resume_db_ok)
  obtain us where us: "lw_db l = resume_db\<lparr>llm_usages := us\<rparr>" using cover_letter_doc_db [OF ok g] d by auto
  have "db_ok (lw_db l)" using us resume_db_ok by simp
  note ok' = db_ok_cover_letter [OF this, of "''a1''" "Some ''users/u1/cover_letters/d1.pdf''"]
  have "\<exists>w' a'. generate_cover_letter answering_env (Some ''u1'') ''a1'' ''u1'' ''d1'' resume_world = (w', Inr a')"
    unfolding generate_cover_letter_def d a
    using j r sample_client g f ok'
    by (simp add: d on_llm_def on_fs_def on_db_def set_cover_letter_def commit_def Let_def)
  then obtain w' a' where run: "generate_cover_letter answering_env (Some ''u1'') ''a1'' ''u1'' ''d1'' resume_world = (w', Inr a')"
    by blast
  have u: "simple_id ''u1''" "CHR ''/'' \<notin> set ''d1''" by (simp_all add: simple_id_def)
  show ?thesis using cover_letter_stored [OF ok u run] run by force
qed

end
