(* ===== verification/LiveEvents.thy ===== *)
theory LiveEvents
  imports Auth
begin

text \<open>
  Live events (\<^verbatim>\<open>api/websocket\<close>, \<^verbatim>\<open>core/automation/intervention.py\<close>): the WebSocket endpoint with its tickets,
  the connection manager, the Redis channel of a user with the task that forwards it to a socket, and the
  answers to interventions. A socket is a number, a frame its text; which sends raise is a parameter. A
  send is one step, which is what the lock of a socket is for.
\<close>

section \<open>The connection manager\<close>

text \<open>
  \<open>lv_buckets\<close> is \<^verbatim>\<open>_by_user\<close>, \<open>lv_locks\<close> the sockets with a lock, \<open>lv_forward\<close> the running subscriber tasks with
  their channel, \<open>lv_opened\<close> the sockets accepted so far with their user, and \<open>lv_frames\<close> what was sent.
\<close>

record live =
  lv_buckets :: "(str option \<times> nat list) list"
  lv_locks :: "nat list"
  lv_forward :: "(nat \<times> str) list"
  lv_opened :: "(nat \<times> str) list"
  lv_frames :: "(nat \<times> str) list"

record live_env =
  le_origins :: "str list"
  le_crypto :: crypto
  le_redis :: bool
  le_fails :: "nat \<Rightarrow> nat \<Rightarrow> bool"

definition live_start :: live where
  "live_start = \<lparr>lv_buckets = [], lv_locks = [], lv_forward = [], lv_opened = [], lv_frames = []\<rparr>"

definition active_count :: "live \<Rightarrow> nat" where
  "active_count s = sum_list (map (length \<circ> snd) (lv_buckets s))"

definition add_socket :: "str option \<Rightarrow> nat \<Rightarrow> (str option \<times> nat list) list \<Rightarrow> (str option \<times> nat list) list" where
  "add_socket u ws bs =
     (if u \<in> fst ` set bs then map (\<lambda>(k, v). (k, if k = u \<and> ws \<notin> set v then v @ [ws] else v)) bs
      else bs @ [(u, [ws])])"

definition remove_socket :: "nat \<Rightarrow> (str option \<times> nat list) list \<Rightarrow> (str option \<times> nat list) list" where
  "remove_socket ws bs =
     map (\<lambda>(k, v). (k, removeAll ws v)) (filter (\<lambda>(k, v). ws \<notin> set v \<or> removeAll ws v \<noteq> []) bs)"

definition manager_connect :: "nat \<Rightarrow> str option \<Rightarrow> live \<Rightarrow> live" where
  "manager_connect ws u s =
     s\<lparr>lv_buckets := add_socket u ws (lv_buckets s), lv_locks := ws # removeAll ws (lv_locks s)\<rparr>"

definition manager_disconnect :: "nat \<Rightarrow> live \<Rightarrow> live" where
  "manager_disconnect ws s =
     s\<lparr>lv_buckets := remove_socket ws (lv_buckets s), lv_locks := removeAll ws (lv_locks s)\<rparr>"

text \<open>\<^verbatim>\<open>send_raw\<close>: the state and whether the send succeeded.\<close>

definition send_raw :: "live_env \<Rightarrow> nat \<Rightarrow> str \<Rightarrow> live \<Rightarrow> live \<times> bool" where
  "send_raw E ws frame s =
     (if le_fails E ws (length (lv_frames s)) then (s, False)
      else (s\<lparr>lv_frames := lv_frames s @ [(ws, frame)]\<rparr>, True))"

definition send_to :: "live_env \<Rightarrow> nat \<Rightarrow> str \<Rightarrow> live \<Rightarrow> live" where
  "send_to E ws payload s =
     (case send_raw E ws payload s of (s', ok) \<Rightarrow> if ok then s' else manager_disconnect ws s')"

definition sockets_of :: "str option \<Rightarrow> live \<Rightarrow> nat list" where
  "sockets_of u s = (case map_of (lv_buckets s) u of None \<Rightarrow> [] | Some v \<Rightarrow> v)"

definition send_to_user :: "live_env \<Rightarrow> str \<Rightarrow> str \<Rightarrow> live \<Rightarrow> live" where
  "send_to_user E u payload s = foldl (\<lambda>s ws. send_to E ws payload s) s (sockets_of (Some u) s)"

definition broadcast :: "live_env \<Rightarrow> str \<Rightarrow> live \<Rightarrow> live" where
  "broadcast E payload s = foldl (\<lambda>s ws. send_to E ws payload s) s (concat (map snd (lv_buckets s)))"

section \<open>The channel of a user\<close>

definition CHANNEL_PREFIX :: str where "CHANNEL_PREFIX = ''ws:user:''"

definition user_channel :: "str \<Rightarrow> str" where
  "user_channel u = CHANNEL_PREFIX @ u"

text \<open>A subscriber task forwards a message; when the send raises, it unsubscribes and ends.\<close>

definition forward_message :: "live_env \<Rightarrow> str \<Rightarrow> live \<Rightarrow> nat \<times> str \<Rightarrow> live" where
  "forward_message E frame s f =
     (case send_raw E (fst f) frame s of
        (s', ok) \<Rightarrow> if ok then s' else s'\<lparr>lv_forward := removeAll f (lv_forward s')\<rparr>)"

definition publish_progress :: "live_env \<Rightarrow> str \<Rightarrow> str \<Rightarrow> live \<Rightarrow> live" where
  "publish_progress E u event s =
     foldl (forward_message E event) s (filter (\<lambda>f. snd f = user_channel u) (lv_forward s))"

section \<open>The endpoint\<close>

datatype ws_reply = Accepted | Refused nat str

definition ws_open :: "live_env \<Rightarrow> int \<Rightarrow> str \<Rightarrow> str \<Rightarrow> nat \<Rightarrow> live \<Rightarrow> live \<times> ws_reply" where
  "ws_open E now origin ticket ws s =
     (if origin \<noteq> [] \<and> origin \<notin> set (le_origins E) then (s, Refused 4003 ''Origin not allowed'')
      else
        (case decode_token (le_crypto E) now ticket (Some ''ws_ticket'') of
           Inl _ \<Rightarrow> (s, Refused 4401 ''Invalid or missing ticket'')
         | Inr payload \<Rightarrow>
             (let user = or_empty (cl_sub payload);
                  s1 = manager_connect ws (Some user) (s\<lparr>lv_opened := lv_opened s @ [(ws, user)]\<rparr>)
              in (if le_redis E then s1\<lparr>lv_forward := lv_forward s1 @ [(ws, user_channel user)]\<rparr> else s1, Accepted))))"

definition PONG :: str where
  "PONG = [CHR 123, CHR 34] @ ''type'' @ [CHR 34] @ '': '' @ [CHR 34] @ ''pong'' @ [CHR 34] @ '', '' @ [CHR 34]
     @ ''payload'' @ [CHR 34] @ '': '' @ [CHR 123, CHR 125, CHR 125]"

definition ws_receive :: "live_env \<Rightarrow> nat \<Rightarrow> str \<Rightarrow> live \<Rightarrow> live" where
  "ws_receive E ws data s = (if data = ''ping'' then send_to E ws PONG s else s)"

text \<open>The \<^verbatim>\<open>finally\<close> clause: the task is cancelled, the socket is forgotten.\<close>

definition ws_close :: "nat \<Rightarrow> live \<Rightarrow> live" where
  "ws_close ws s = manager_disconnect ws (s\<lparr>lv_forward := filter (\<lambda>f. fst f \<noteq> ws) (lv_forward s)\<rparr>)"

section \<open>Interventions\<close>

text \<open>The Redis lists of the answers.\<close>

type_synonym answers = "(str \<times> str list) list"

definition intervention_key :: "str \<Rightarrow> str" where
  "intervention_key app_id = ''intervene:'' @ app_id"

definition waiting_answers :: "str \<Rightarrow> answers \<Rightarrow> str list" where
  "waiting_answers key r = (case map_of r key of None \<Rightarrow> [] | Some xs \<Rightarrow> xs)"

definition set_answers :: "str \<Rightarrow> str list \<Rightarrow> answers \<Rightarrow> answers" where
  "set_answers key xs r = (key, xs) # filter (\<lambda>x. fst x \<noteq> key) r"

definition resolve_intervention :: "str \<Rightarrow> str \<Rightarrow> answers \<Rightarrow> answers" where
  "resolve_intervention app_id response r =
     (let key = intervention_key app_id in set_answers key (waiting_answers key r @ [response]) r)"

text \<open>\<^verbatim>\<open>EXPIRE key 600\<close> once ten minutes have passed without another answer.\<close>

definition expire_answers :: "str \<Rightarrow> answers \<Rightarrow> answers" where
  "expire_answers app_id r = filter (\<lambda>x. fst x \<noteq> intervention_key app_id) r"

text \<open>\<open>late\<close>: the answer that arrives while \<^verbatim>\<open>BLPOP\<close> waits, None when the timeout elapses first.\<close>

definition request_intervention :: "str \<Rightarrow> str option \<Rightarrow> answers \<Rightarrow> answers \<times> str option" where
  "request_intervention app_id late r =
     (let key = intervention_key app_id in
      case waiting_answers key r of x # xs \<Rightarrow> (set_answers key xs r, Some x) | [] \<Rightarrow> (r, late))"

section \<open>What can happen\<close>

inductive live_step :: "live_env \<Rightarrow> live \<Rightarrow> live \<Rightarrow> bool" for E where
  open_socket: "ws \<notin> fst ` set (lv_opened s) \<Longrightarrow> ws_open E now origin ticket ws s = (s', r) \<Longrightarrow> live_step E s s'"
| receive: "live_step E s (ws_receive E ws data s)"
| close_socket: "live_step E s (ws_close ws s)"
| publish: "live_step E s (publish_progress E u event s)"
| notify: "live_step E s (send_to_user E u event s)"
| announce: "live_step E s (broadcast E event s)"

text \<open>Every socket was accepted with a valid ticket of its user, and is kept and served as that user's only.\<close>

definition ticketed :: "live_env \<Rightarrow> str \<Rightarrow> bool" where
  "ticketed E u \<longleftrightarrow> (\<exists>now ticket p. jwt_decode (le_crypto E) now ticket = Some p \<and> cl_type p = ''ws_ticket''
     \<and> or_empty (cl_sub p) = u)"

definition served_inv :: "live \<Rightarrow> bool" where
  "served_inv s \<longleftrightarrow> (\<forall>f \<in> set (lv_forward s). \<exists>u. (fst f, u) \<in> set (lv_opened s) \<and> snd f = user_channel u)
     \<and> (\<forall>b \<in> set (lv_buckets s). \<forall>ws \<in> set (snd b). \<exists>u. fst b = Some u \<and> (ws, u) \<in> set (lv_opened s))"

definition live_inv :: "live_env \<Rightarrow> live \<Rightarrow> bool" where
  "live_inv E s \<longleftrightarrow> served_inv s \<and> distinct (map fst (lv_opened s)) \<and> (\<forall>x \<in> set (lv_opened s). ticketed E (snd x))"

text \<open>A change that opens no socket and serves no new one.\<close>

definition shrinks :: "live \<Rightarrow> live \<Rightarrow> bool" where
  "shrinks s s' \<longleftrightarrow> lv_opened s' = lv_opened s \<and> set (lv_forward s') \<subseteq> set (lv_forward s)
     \<and> (\<forall>b \<in> set (lv_buckets s'). \<exists>v. (fst b, v) \<in> set (lv_buckets s) \<and> set (snd b) \<subseteq> set v)"

lemma shrinks_refl: "shrinks s s"
  by (force simp: shrinks_def)

lemma shrinks_trans: "shrinks s t \<Longrightarrow> shrinks t w \<Longrightarrow> shrinks s w"
  unfolding shrinks_def by (metis (no_types, opaque_lifting) fst_conv snd_conv subset_trans)

lemma shrinks_inv:
  assumes "shrinks s s'" and "live_inv E s"
  shows "live_inv E s'"
proof -
  have o': "lv_opened s' = lv_opened s" and f: "set (lv_forward s') \<subseteq> set (lv_forward s)" using assms(1) by (simp_all add: shrinks_def)
  have "\<exists>u. fst b = Some u \<and> (ws, u) \<in> set (lv_opened s)" if b: "b \<in> set (lv_buckets s')" "ws \<in> set (snd b)" for b ws
  proof -
    obtain v where "(fst b, v) \<in> set (lv_buckets s)" "set (snd b) \<subseteq> set v" using assms(1) b(1) unfolding shrinks_def by blast
    then show ?thesis using assms(2) b(2) by (fastforce simp: live_inv_def served_inv_def)
  qed
  then show ?thesis using assms(2) f by (auto simp: live_inv_def served_inv_def o')
qed

lemma disconnect_shrinks: "shrinks s (manager_disconnect ws s)"
  by (auto simp: shrinks_def manager_disconnect_def remove_socket_def)

lemma send_raw_shrinks: "shrinks s (fst (send_raw E ws frame s))"
  by (force simp: shrinks_def send_raw_def)

lemma send_to_shrinks: "shrinks s (send_to E ws frame s)"
  using send_raw_shrinks [of s E ws frame] disconnect_shrinks shrinks_trans
  by (auto simp: send_to_def split: prod.split)

lemma foldl_shrinks: "(\<And>s x. shrinks s (f s x)) \<Longrightarrow> shrinks s (foldl f s xs)"
  by (induction xs arbitrary: s) (auto intro: shrinks_refl shrinks_trans)

lemma forward_shrinks: "shrinks s (forward_message E frame s f)"
proof -
  have "shrinks t (t\<lparr>lv_forward := removeAll f (lv_forward t)\<rparr>)" for t by (force simp: shrinks_def)
  then show ?thesis using send_raw_shrinks [of s E "fst f" frame] shrinks_trans
    by (auto simp: forward_message_def split: prod.split)
qed

lemma close_shrinks: "shrinks s (ws_close ws s)"
proof -
  have "shrinks s (s\<lparr>lv_forward := filter (\<lambda>f. fst f \<noteq> ws) (lv_forward s)\<rparr>)" by (force simp: shrinks_def)
  then show ?thesis unfolding ws_close_def using disconnect_shrinks shrinks_trans by blast
qed

lemma add_socket_member:
  "(k, v') \<in> set (add_socket u ws bs) \<Longrightarrow> x \<in> set v' \<Longrightarrow> (\<exists>v. (k, v) \<in> set bs \<and> x \<in> set v) \<or> k = u \<and> x = ws"
  by (auto simp: add_socket_def split: if_splits)

lemma open_inv:
  assumes "ws \<notin> fst ` set (lv_opened s)" and "ws_open E now origin ticket ws s = (s', r)" and "live_inv E s"
  shows "live_inv E s'"
proof (cases "r = Accepted")
  case False
  then have "s' = s" using assms(2) by (auto simp: ws_open_def Let_def split: if_splits sum.splits)
  with assms(3) show ?thesis by simp
next
  case True
  then obtain p where p: "decode_token (le_crypto E) now ticket (Some ''ws_ticket'') = Inr p"
    using assms(2) by (auto simp: ws_open_def Let_def split: if_splits sum.splits)
  have s': "lv_opened s' = lv_opened s @ [(ws, or_empty (cl_sub p))]"
      "set (lv_forward s') \<subseteq> insert (ws, user_channel (or_empty (cl_sub p))) (set (lv_forward s))"
      "lv_buckets s' = add_socket (Some (or_empty (cl_sub p))) ws (lv_buckets s)"
    using assms(2) p True by (auto simp: ws_open_def manager_connect_def Let_def split: if_splits)
  let ?u = "or_empty (cl_sub p)"
  have tick: "ticketed E ?u"
    using p by (auto simp: decode_token_def ticketed_def split: option.splits if_splits)
  have bucket: "\<exists>u. fst b = Some u \<and> (x, u) \<in> set (lv_opened s')" if "b \<in> set (lv_buckets s')" "x \<in> set (snd b)" for b x
  proof -
    from that consider (old) v where "(fst b, v) \<in> set (lv_buckets s)" "x \<in> set v" | (new) "fst b = Some ?u" "x = ws"
      using add_socket_member [of "fst b" "snd b" "Some ?u" ws "lv_buckets s" x] unfolding s'(3) by auto
    then show ?thesis
    proof cases
      case old
      then show ?thesis using assms(3) by (fastforce simp: live_inv_def served_inv_def s'(1))
    qed (simp add: s'(1))
  qed
  have fwd: "\<exists>u. (fst f, u) \<in> set (lv_opened s') \<and> snd f = user_channel u" if "f \<in> set (lv_forward s')" for f
  proof -
    from that s'(2) consider "f = (ws, user_channel ?u)" | "f \<in> set (lv_forward s)" by blast
    then show ?thesis
    proof cases
      case 2
      then show ?thesis using assms(3) by (auto simp: live_inv_def served_inv_def s'(1))
    qed (auto simp: s'(1))
  qed
  have "distinct (map fst (lv_opened s'))" using assms(1,3) by (auto simp: live_inv_def s'(1))
  moreover have "\<forall>x \<in> set (lv_opened s'). ticketed E (snd x)" using assms(3) tick by (auto simp: live_inv_def s'(1))
  ultimately show ?thesis using bucket fwd unfolding live_inv_def served_inv_def by blast
qed

lemma live_step_inv: "live_step E s s' \<Longrightarrow> live_inv E s \<Longrightarrow> live_inv E s'"
proof (induction rule: live_step.induct)
  case (open_socket ws s now origin ticket s' r)
  then show ?case using open_inv by blast
next
  case (receive s ws data)
  then show ?case using shrinks_inv [OF send_to_shrinks] by (simp add: ws_receive_def)
next
  case (close_socket s ws)
  then show ?case using shrinks_inv [OF close_shrinks] by blast
next
  case (publish s u event)
  then show ?case using shrinks_inv [OF foldl_shrinks [OF forward_shrinks]] by (simp add: publish_progress_def)
next
  case (notify s u event)
  then show ?case using shrinks_inv [OF foldl_shrinks [OF send_to_shrinks]] by (simp add: send_to_user_def)
next
  case (announce s event)
  then show ?case using shrinks_inv [OF foldl_shrinks [OF send_to_shrinks]] by (simp add: broadcast_def)
qed

interpretation live_ws: step_invariant "live_step E" "live_inv E" for E
  by unfold_locales (rule live_step_inv)

section \<open>Events reach their user only\<close>

lemma live_start_inv: "live_inv E live_start"
  by (simp add: live_inv_def served_inv_def live_start_def)

lemma forwarded_frames:
  "\<exists>new. lv_frames (foldl (forward_message E event) s fs) = lv_frames s @ new \<and> set new \<subseteq> (\<lambda>f. (fst f, event)) ` set fs
     \<and> ((\<forall>ws n. \<not> le_fails E ws n) \<longrightarrow> new = map (\<lambda>f. (fst f, event)) fs)"
proof (induction fs arbitrary: s)
  case (Cons f fs)
  let ?s = "forward_message E event s f"
  obtain new where new: "lv_frames (foldl (forward_message E event) ?s fs) = lv_frames ?s @ new"
    "set new \<subseteq> (\<lambda>f. (fst f, event)) ` set fs" "(\<forall>ws n. \<not> le_fails E ws n) \<Longrightarrow> new = map (\<lambda>f. (fst f, event)) fs"
    using Cons.IH [of ?s] by blast
  show ?case
  proof (cases "le_fails E (fst f) (length (lv_frames s))")
    case True
    then have "lv_frames ?s = lv_frames s" by (simp add: forward_message_def send_raw_def)
    with new True show ?thesis by (intro exI [of _ new]) auto
  next
    case False
    then have "lv_frames ?s = lv_frames s @ [(fst f, event)]" by (simp add: forward_message_def send_raw_def)
    with new show ?thesis by (intro exI [of _ "(fst f, event) # new"]) auto
  qed
qed simp

lemma user_channel_inj [simp]: "user_channel u = user_channel v \<longleftrightarrow> u = v"
  by (simp add: user_channel_def)

text \<open>
  C17: live events reach their user only. Whatever opened, closed, pinged and failed before, a progress event
  published for a user is sent to sockets of that user alone, each accepted with a valid WebSocket ticket for
  the user; when no send fails, every running subscription of the user gets it exactly once; and a closed
  socket gets nothing any more.
\<close>

theorem events_private:
  assumes "(live_step E)\<^sup>*\<^sup>* live_start s"
  shows "\<exists>new. lv_frames (publish_progress E u event s) = lv_frames s @ new
    \<and> list_all (\<lambda>f. snd f = event \<and> (fst f, u) \<in> set (lv_opened s)) new
    \<and> (new \<noteq> [] \<longrightarrow> ticketed E u)
    \<and> ((\<forall>ws n. \<not> le_fails E ws n) \<longrightarrow> new = map (\<lambda>f. (fst f, event)) (filter (\<lambda>f. snd f = user_channel u) (lv_forward s)))
    \<and> lv_frames (publish_progress E u event (ws_close ws s)) = lv_frames s
        @ filter (\<lambda>f. fst f \<noteq> ws) (drop (length (lv_frames s)) (lv_frames (publish_progress E u event (ws_close ws s))))"
proof -
  have inv: "live_inv E s" by (rule live_ws.steps_inv [OF assms live_start_inv])
  let ?fs = "filter (\<lambda>f. snd f = user_channel u) (lv_forward s)"
  obtain new where new: "lv_frames (publish_progress E u event s) = lv_frames s @ new"
    "set new \<subseteq> (\<lambda>f. (fst f, event)) ` set ?fs" "(\<forall>ws n. \<not> le_fails E ws n) \<longrightarrow> new = map (\<lambda>f. (fst f, event)) ?fs"
    using forwarded_frames [of E event s ?fs] by (auto simp: publish_progress_def)
  have own: "(fst f, u) \<in> set (lv_opened s)" if "f \<in> set ?fs" for f
  proof -
    have "f \<in> set (lv_forward s)" using that by simp
    then obtain v where "(fst f, v) \<in> set (lv_opened s)" "snd f = user_channel v"
      using inv unfolding live_inv_def served_inv_def by blast
    with that show ?thesis by simp
  qed
  have "list_all (\<lambda>f. snd f = event \<and> (fst f, u) \<in> set (lv_opened s)) new"
    using new(2) own by (fastforce simp: list_all_iff)
  moreover have "ticketed E u" if ne: "new \<noteq> []"
  proof -
    obtain f where "f \<in> set ?fs" using new(2) ne by (cases new) auto
    from own [OF this] inv show ?thesis by (force simp: live_inv_def)
  qed
  moreover have "lv_frames (publish_progress E u event (ws_close ws s)) = lv_frames s
      @ filter (\<lambda>f. fst f \<noteq> ws) (drop (length (lv_frames s)) (lv_frames (publish_progress E u event (ws_close ws s))))"
  proof -
    let ?gs = "filter (\<lambda>f. snd f = user_channel u) (lv_forward (ws_close ws s))"
    obtain more where m: "lv_frames (publish_progress E u event (ws_close ws s)) = lv_frames (ws_close ws s) @ more"
      "set more \<subseteq> (\<lambda>f. (fst f, event)) ` set ?gs"
      using forwarded_frames [of E event "ws_close ws s" ?gs] by (auto simp: publish_progress_def)
    have "filter (\<lambda>f. fst f \<noteq> ws) more = more"
      using m(2) by (auto simp: filter_id_conv ws_close_def manager_disconnect_def)
    then show ?thesis using m(1) by (simp add: ws_close_def manager_disconnect_def)
  qed
  ultimately show ?thesis using new(1,3) by blast
qed

definition live_sample :: live_env where
  "live_sample = \<lparr>le_origins = [''http://localhost:5173''], le_crypto = sample_crypto, le_redis = True, le_fails = (\<lambda>_ _. False)\<rparr>"

theorem events_private_witness:
  "\<exists>s. ws_open live_sample 10 [] (create_ws_ticket sample_crypto sample_auth 0 ''u1'') 7 live_start = (s, Accepted)
     \<and> lv_frames (publish_progress live_sample ''u1'' ''applied'' s) = [(7, ''applied'')]"
proof -
  let ?t = "create_ws_ticket sample_crypto sample_auth 0 ''u1''"
  have tick: "decode_token sample_crypto 10 ?t (Some ''ws_ticket'') = Inr \<lparr>cl_sub = Some ''u1'', cl_type = ''ws_ticket'', cl_iat = 0, cl_exp = 60\<rparr>"
    using sample_jwt.decode_valid [of 10 "\<lparr>cl_sub = Some ''u1'', cl_type = ''ws_ticket'', cl_iat = 0, cl_exp = 60\<rparr>"]
    by (simp add: create_ws_ticket_def decode_token_def sample_auth_def)
  obtain s where s: "ws_open live_sample 10 [] ?t 7 live_start = (s, Accepted)" "lv_forward s = [(7, user_channel ''u1'')]" "lv_frames s = []"
    by (simp add: ws_open_def live_sample_def tick live_start_def manager_connect_def Let_def)
  have step: "live_step live_sample live_start s" by (rule live_step.open_socket [OF _ s(1)]) (simp add: live_start_def)
  from events_private [OF r_into_rtranclp [where r = "live_step live_sample", OF step], of "''u1''" "''applied''"]
  obtain new where "lv_frames (publish_progress live_sample ''u1'' ''applied'' s) = lv_frames s @ new"
    "new = map (\<lambda>f. (fst f, ''applied'')) (filter (\<lambda>f. snd f = user_channel ''u1'') (lv_forward s))"
    by (auto simp: live_sample_def)
  then show ?thesis using s by auto
qed

section \<open>Answers to interventions\<close>

text \<open>
  Answers are delivered in the order in which they were given, and an answer that nobody was waiting for
  is delivered to the next challenge of the application.
\<close>

lemma set_answers_get [simp]: "waiting_answers key (set_answers key xs r) = xs"
  by (simp add: waiting_answers_def set_answers_def)

lemma stale_answer_delivered:
  assumes "waiting_answers (intervention_key app_id) r = []"
    and "r' = resolve_intervention app_id second (resolve_intervention app_id first r)"
  shows "snd (request_intervention app_id late r') = Some first
    \<and> snd (request_intervention app_id late (fst (request_intervention app_id late r'))) = Some second
    \<and> snd (request_intervention app_id late (expire_answers app_id r')) = late"
proof -
  have "waiting_answers (intervention_key app_id) r' = [first, second]"
    using assms by (simp add: resolve_intervention_def Let_def)
  moreover have "waiting_answers (intervention_key app_id) (expire_answers app_id r') = []"
    by (simp add: waiting_answers_def expire_answers_def map_of_eq_None_iff split: option.split)
      (metis (mono_tags, lifting) map_of_SomeD mem_Collect_eq prod.sel(1) set_filter)
  ultimately show ?thesis by (simp add: request_intervention_def Let_def)
qed

end
