(* ===== verification/Migrations.thy ===== *)
theory Migrations
  imports Models
begin

text \<open>
  The schema migrations (\<^verbatim>\<open>db/migrations/versions\<close>): the six revisions as lists of the operations that their
  \<^verbatim>\<open>upgrade\<close> and \<^verbatim>\<open>downgrade\<close> send, and what the operations do to a schema. Server defaults and the rows of
  the tables are not modelled.
\<close>

section \<open>Schemas\<close>

datatype sql_type =
    TString nat | TText | TInteger | TFloat | TBoolean | TDateTime | TJSON | TEnum str "str list"

record column =
  co_name :: str
  co_type :: sql_type
  co_nullable :: bool

record foreign_key =
  fk_column :: str
  fk_table :: str
  fk_ref :: str
  fk_ondelete :: str

record sql_index =
  ix_name :: str
  ix_columns :: "str list"
  ix_unique :: bool
  ix_where :: "str option"

text \<open>A table with its indexes; the tables of a schema in the order of their creation.\<close>

record table =
  tb_name :: str
  tb_columns :: "column list"
  tb_pk :: "str list"
  tb_fks :: "foreign_key list"
  tb_uniques :: "(str \<times> str list) list"
  tb_indexes :: "sql_index list"

type_synonym schema = "table list"

datatype dialect = Sqlite | Postgresql

datatype ddl =
    CreateTable table
  | DropTable str
  | CreateIndex str sql_index
  | DropIndex str str
  | AddColumn str column
  | DropColumn str str
  | AddEnumValue str str

definition column_names :: "table \<Rightarrow> str list" where
  "column_names t = map co_name (tb_columns t)"

definition table_names :: "schema \<Rightarrow> str list" where
  "table_names s = map tb_name s"

definition references :: "str \<Rightarrow> table \<Rightarrow> bool" where
  "references n t \<longleftrightarrow> tb_name t \<noteq> n \<and> n \<in> fk_table ` set (tb_fks t)"

definition on_table :: "str \<Rightarrow> (table \<Rightarrow> exn + table) \<Rightarrow> schema \<Rightarrow> exn + schema" where
  "on_table n f s =
     (case List.find (\<lambda>t. tb_name t = n) s of
        None \<Rightarrow> Inl (OtherError ''no such table'')
      | Some t \<Rightarrow> (case f t of Inl e \<Rightarrow> Inl e | Inr t' \<Rightarrow> Inr (map (\<lambda>x. if tb_name x = n then t' else x) s)))"

definition add_index :: "sql_index \<Rightarrow> table \<Rightarrow> exn + table" where
  "add_index i t =
     (if set (ix_columns i) \<subseteq> set (column_names t) \<and> ix_name i \<notin> ix_name ` set (tb_indexes t)
      then Inr (t\<lparr>tb_indexes := tb_indexes t @ [i]\<rparr>) else Inl (OtherError ''cannot create index''))"

definition remove_index :: "str \<Rightarrow> table \<Rightarrow> exn + table" where
  "remove_index n t =
     (if n \<in> ix_name ` set (tb_indexes t)
      then Inr (t\<lparr>tb_indexes := filter (\<lambda>i. ix_name i \<noteq> n) (tb_indexes t)\<rparr>) else Inl (OtherError ''no such index''))"

definition add_column :: "column \<Rightarrow> table \<Rightarrow> exn + table" where
  "add_column c t =
     (if co_name c \<in> set (column_names t) then Inl (OtherError ''duplicate column'')
      else Inr (t\<lparr>tb_columns := tb_columns t @ [c]\<rparr>))"

definition remove_column :: "str \<Rightarrow> table \<Rightarrow> exn + table" where
  "remove_column n t =
     (if n \<in> set (column_names t) then Inr (t\<lparr>tb_columns := filter (\<lambda>c. co_name c \<noteq> n) (tb_columns t)\<rparr>)
      else Inl (OtherError ''no such column''))"

text \<open>\<^verbatim>\<open>ALTER TYPE n ADD VALUE IF NOT EXISTS v\<close>, for every column of the type.\<close>

definition add_value :: "str \<Rightarrow> str \<Rightarrow> column \<Rightarrow> column" where
  "add_value n v c =
     (case co_type c of
        TEnum m vs \<Rightarrow> if m = n \<and> v \<notin> set vs then c\<lparr>co_type := TEnum m (vs @ [v])\<rparr> else c
      | _ \<Rightarrow> c)"

definition add_value_table :: "str \<Rightarrow> str \<Rightarrow> table \<Rightarrow> table" where
  "add_value_table n v t = t\<lparr>tb_columns := map (add_value n v) (tb_columns t)\<rparr>"

text \<open>
  A table needs a new name and the tables that its foreign keys name; it cannot be dropped while another
  table refers to it.
\<close>

fun apply_ddl :: "ddl \<Rightarrow> schema \<Rightarrow> exn + schema" where
  "apply_ddl (CreateTable t) s =
     (if tb_name t \<in> set (table_names s) \<or> \<not> fk_table ` set (tb_fks t) \<subseteq> insert (tb_name t) (set (table_names s))
      then Inl (OtherError ''cannot create table'') else Inr (s @ [t]))"
| "apply_ddl (DropTable n) s =
     (if n \<notin> set (table_names s) \<or> list_ex (references n) s then Inl (OtherError ''cannot drop table'')
      else Inr (filter (\<lambda>t. tb_name t \<noteq> n) s))"
| "apply_ddl (CreateIndex n i) s = on_table n (add_index i) s"
| "apply_ddl (DropIndex n i) s = on_table n (remove_index i) s"
| "apply_ddl (AddColumn n c) s = on_table n (add_column c) s"
| "apply_ddl (DropColumn n c) s = on_table n (remove_column c) s"
| "apply_ddl (AddEnumValue n v) s = Inr (map (add_value_table n v) s)"

fun run_ddl :: "ddl list \<Rightarrow> schema \<Rightarrow> exn + schema" where
  "run_ddl [] s = Inr s"
| "run_ddl (op # ops) s = (case apply_ddl op s of Inl e \<Rightarrow> Inl e | Inr s' \<Rightarrow> run_ddl ops s')"

text \<open>A table is created without its indexes, which follow one by one.\<close>

definition create_ops :: "table \<Rightarrow> ddl list" where
  "create_ops t = CreateTable (t\<lparr>tb_indexes := []\<rparr>) # map (CreateIndex (tb_name t)) (tb_indexes t)"

section \<open>Revision 0001: the initial schema\<close>

definition users_table :: table where
  "users_table = \<lparr>tb_name = ''users'',
     tb_columns = [\<lparr>co_name = ''email'', co_type = TString 320, co_nullable = False\<rparr>,
       \<lparr>co_name = ''hashed_password'', co_type = TString 255, co_nullable = True\<rparr>,
       \<lparr>co_name = ''full_name'', co_type = TString 200, co_nullable = True\<rparr>,
       \<lparr>co_name = ''is_active'', co_type = TBoolean, co_nullable = False\<rparr>,
       \<lparr>co_name = ''is_superuser'', co_type = TBoolean, co_nullable = False\<rparr>,
       \<lparr>co_name = ''deleted_at'', co_type = TDateTime, co_nullable = True\<rparr>,
       \<lparr>co_name = ''id'', co_type = TString 32, co_nullable = False\<rparr>,
       \<lparr>co_name = ''created_at'', co_type = TDateTime, co_nullable = False\<rparr>,
       \<lparr>co_name = ''updated_at'', co_type = TDateTime, co_nullable = False\<rparr>],
     tb_pk = [''id''],
     tb_fks = [],
     tb_uniques = [],
     tb_indexes = [\<lparr>ix_name = ''ix_users_email'', ix_columns = [''email''], ix_unique = True, ix_where = None\<rparr>]\<rparr>"

definition jobs_table :: table where
  "jobs_table = \<lparr>tb_name = ''jobs'',
     tb_columns = [\<lparr>co_name = ''platform'', co_type = TString 50, co_nullable = False\<rparr>,
       \<lparr>co_name = ''platform_job_id'', co_type = TString 200, co_nullable = False\<rparr>,
       \<lparr>co_name = ''title'', co_type = TString 300, co_nullable = False\<rparr>,
       \<lparr>co_name = ''company'', co_type = TString 200, co_nullable = False\<rparr>,
       \<lparr>co_name = ''location'', co_type = TString 200, co_nullable = False\<rparr>,
       \<lparr>co_name = ''url'', co_type = TString 2000, co_nullable = False\<rparr>,
       \<lparr>co_name = ''description'', co_type = TText, co_nullable = False\<rparr>,
       \<lparr>co_name = ''salary_range'', co_type = TString 200, co_nullable = True\<rparr>,
       \<lparr>co_name = ''job_type'', co_type = TString 50, co_nullable = True\<rparr>,
       \<lparr>co_name = ''remote'', co_type = TBoolean, co_nullable = False\<rparr>,
       \<lparr>co_name = ''posted_date'', co_type = TDateTime, co_nullable = True\<rparr>,
       \<lparr>co_name = ''experience_level'', co_type = TString 50, co_nullable = True\<rparr>,
       \<lparr>co_name = ''match_score'', co_type = TFloat, co_nullable = True\<rparr>,
       \<lparr>co_name = ''skills_required'', co_type = TJSON, co_nullable = True\<rparr>,
       \<lparr>co_name = ''status'', co_type = TEnum ''job_status'' [''new'', ''saved'', ''applied'', ''hidden''], co_nullable = False\<rparr>,
       \<lparr>co_name = ''id'', co_type = TString 32, co_nullable = False\<rparr>,
       \<lparr>co_name = ''created_at'', co_type = TDateTime, co_nullable = False\<rparr>,
       \<lparr>co_name = ''updated_at'', co_type = TDateTime, co_nullable = False\<rparr>,
       \<lparr>co_name = ''user_id'', co_type = TString 32, co_nullable = False\<rparr>],
     tb_pk = [''id''],
     tb_fks = [\<lparr>fk_column = ''user_id'', fk_table = ''users'', fk_ref = ''id'', fk_ondelete = ''CASCADE''\<rparr>],
     tb_uniques = [(''uq_job_platform_id'', [''user_id'', ''platform'', ''platform_job_id''])],
     tb_indexes = [\<lparr>ix_name = ''ix_job_match_score'', ix_columns = [''match_score''], ix_unique = False, ix_where = None\<rparr>,
       \<lparr>ix_name = ''ix_job_status'', ix_columns = [''status''], ix_unique = False, ix_where = None\<rparr>,
       \<lparr>ix_name = ''ix_jobs_user_id'', ix_columns = [''user_id''], ix_unique = False, ix_where = None\<rparr>]\<rparr>"

definition llm_usage_table :: table where
  "llm_usage_table = \<lparr>tb_name = ''llm_usage'',
     tb_columns = [\<lparr>co_name = ''provider'', co_type = TString 50, co_nullable = False\<rparr>,
       \<lparr>co_name = ''model'', co_type = TString 100, co_nullable = False\<rparr>,
       \<lparr>co_name = ''prompt_tokens'', co_type = TInteger, co_nullable = False\<rparr>,
       \<lparr>co_name = ''completion_tokens'', co_type = TInteger, co_nullable = False\<rparr>,
       \<lparr>co_name = ''total_tokens'', co_type = TInteger, co_nullable = False\<rparr>,
       \<lparr>co_name = ''cost_usd'', co_type = TFloat, co_nullable = False\<rparr>,
       \<lparr>co_name = ''latency_ms'', co_type = TInteger, co_nullable = False\<rparr>,
       \<lparr>co_name = ''purpose'', co_type = TEnum ''llm_purpose'' [''resume_tailor'', ''cover_letter'', ''ats_optimize'', ''job_analysis'', ''harness_judge'', ''skill_distill''], co_nullable = False\<rparr>,
       \<lparr>co_name = ''trace_id'', co_type = TString 100, co_nullable = True\<rparr>,
       \<lparr>co_name = ''status'', co_type = TString 20, co_nullable = True\<rparr>,
       \<lparr>co_name = ''error'', co_type = TString 500, co_nullable = True\<rparr>,
       \<lparr>co_name = ''id'', co_type = TString 32, co_nullable = False\<rparr>,
       \<lparr>co_name = ''created_at'', co_type = TDateTime, co_nullable = False\<rparr>,
       \<lparr>co_name = ''updated_at'', co_type = TDateTime, co_nullable = False\<rparr>,
       \<lparr>co_name = ''user_id'', co_type = TString 32, co_nullable = False\<rparr>],
     tb_pk = [''id''],
     tb_fks = [\<lparr>fk_column = ''user_id'', fk_table = ''users'', fk_ref = ''id'', fk_ondelete = ''CASCADE''\<rparr>],
     tb_uniques = [],
     tb_indexes = [\<lparr>ix_name = ''ix_llm_usage_user_created'', ix_columns = [''user_id'', ''created_at''], ix_unique = False, ix_where = None\<rparr>,
       \<lparr>ix_name = ''ix_llm_usage_user_id'', ix_columns = [''user_id''], ix_unique = False, ix_where = None\<rparr>]\<rparr>"

definition refresh_tokens_table :: table where
  "refresh_tokens_table = \<lparr>tb_name = ''refresh_tokens'',
     tb_columns = [\<lparr>co_name = ''user_id'', co_type = TString 32, co_nullable = False\<rparr>,
       \<lparr>co_name = ''token_hash'', co_type = TString 64, co_nullable = False\<rparr>,
       \<lparr>co_name = ''family_id'', co_type = TString 32, co_nullable = False\<rparr>,
       \<lparr>co_name = ''used'', co_type = TBoolean, co_nullable = False\<rparr>,
       \<lparr>co_name = ''revoked'', co_type = TBoolean, co_nullable = False\<rparr>,
       \<lparr>co_name = ''expires_at'', co_type = TDateTime, co_nullable = False\<rparr>,
       \<lparr>co_name = ''id'', co_type = TString 32, co_nullable = False\<rparr>,
       \<lparr>co_name = ''created_at'', co_type = TDateTime, co_nullable = False\<rparr>,
       \<lparr>co_name = ''updated_at'', co_type = TDateTime, co_nullable = False\<rparr>],
     tb_pk = [''id''],
     tb_fks = [\<lparr>fk_column = ''user_id'', fk_table = ''users'', fk_ref = ''id'', fk_ondelete = ''CASCADE''\<rparr>],
     tb_uniques = [],
     tb_indexes = [\<lparr>ix_name = ''ix_refresh_tokens_family_id'', ix_columns = [''family_id''], ix_unique = False, ix_where = None\<rparr>,
       \<lparr>ix_name = ''ix_refresh_tokens_token_hash'', ix_columns = [''token_hash''], ix_unique = False, ix_where = None\<rparr>,
       \<lparr>ix_name = ''ix_refresh_tokens_user_id'', ix_columns = [''user_id''], ix_unique = False, ix_where = None\<rparr>]\<rparr>"

definition user_credentials_table :: table where
  "user_credentials_table = \<lparr>tb_name = ''user_credentials'',
     tb_columns = [\<lparr>co_name = ''user_id'', co_type = TString 32, co_nullable = False\<rparr>,
       \<lparr>co_name = ''kind'', co_type = TString 32, co_nullable = False\<rparr>,
       \<lparr>co_name = ''provider'', co_type = TString 50, co_nullable = False\<rparr>,
       \<lparr>co_name = ''blob'', co_type = TJSON, co_nullable = False\<rparr>,
       \<lparr>co_name = ''kek_id'', co_type = TString 64, co_nullable = False\<rparr>,
       \<lparr>co_name = ''id'', co_type = TString 32, co_nullable = False\<rparr>,
       \<lparr>co_name = ''created_at'', co_type = TDateTime, co_nullable = False\<rparr>,
       \<lparr>co_name = ''updated_at'', co_type = TDateTime, co_nullable = False\<rparr>],
     tb_pk = [''id''],
     tb_fks = [\<lparr>fk_column = ''user_id'', fk_table = ''users'', fk_ref = ''id'', fk_ondelete = ''CASCADE''\<rparr>],
     tb_uniques = [(''uq_user_credential'', [''user_id'', ''kind'', ''provider''])],
     tb_indexes = [\<lparr>ix_name = ''ix_user_credentials_user_id'', ix_columns = [''user_id''], ix_unique = False, ix_where = None\<rparr>]\<rparr>"

definition user_llm_configs_table :: table where
  "user_llm_configs_table = \<lparr>tb_name = ''user_llm_configs'',
     tb_columns = [\<lparr>co_name = ''user_id'', co_type = TString 32, co_nullable = False\<rparr>,
       \<lparr>co_name = ''preferred_provider'', co_type = TString 50, co_nullable = False\<rparr>,
       \<lparr>co_name = ''fallback_providers'', co_type = TJSON, co_nullable = False\<rparr>,
       \<lparr>co_name = ''default_model'', co_type = TString 100, co_nullable = False\<rparr>,
       \<lparr>co_name = ''id'', co_type = TString 32, co_nullable = False\<rparr>,
       \<lparr>co_name = ''created_at'', co_type = TDateTime, co_nullable = False\<rparr>,
       \<lparr>co_name = ''updated_at'', co_type = TDateTime, co_nullable = False\<rparr>],
     tb_pk = [''id''],
     tb_fks = [\<lparr>fk_column = ''user_id'', fk_table = ''users'', fk_ref = ''id'', fk_ondelete = ''CASCADE''\<rparr>],
     tb_uniques = [],
     tb_indexes = [\<lparr>ix_name = ''ix_user_llm_configs_user_id'', ix_columns = [''user_id''], ix_unique = True, ix_where = None\<rparr>]\<rparr>"

definition user_settings_table :: table where
  "user_settings_table = \<lparr>tb_name = ''user_settings'',
     tb_columns = [\<lparr>co_name = ''user_id'', co_type = TString 32, co_nullable = False\<rparr>,
       \<lparr>co_name = ''apply_mode'', co_type = TString 20, co_nullable = False\<rparr>,
       \<lparr>co_name = ''max_parallel'', co_type = TInteger, co_nullable = False\<rparr>,
       \<lparr>co_name = ''min_ats_score'', co_type = TFloat, co_nullable = False\<rparr>,
       \<lparr>co_name = ''preferred_provider'', co_type = TString 50, co_nullable = False\<rparr>,
       \<lparr>co_name = ''platforms_enabled'', co_type = TJSON, co_nullable = False\<rparr>,
       \<lparr>co_name = ''candidate_profile'', co_type = TJSON, co_nullable = True\<rparr>,
       \<lparr>co_name = ''created_at'', co_type = TDateTime, co_nullable = False\<rparr>,
       \<lparr>co_name = ''updated_at'', co_type = TDateTime, co_nullable = False\<rparr>],
     tb_pk = [''user_id''],
     tb_fks = [\<lparr>fk_column = ''user_id'', fk_table = ''users'', fk_ref = ''id'', fk_ondelete = ''CASCADE''\<rparr>],
     tb_uniques = [],
     tb_indexes = []\<rparr>"

definition resumes_table :: table where
  "resumes_table = \<lparr>tb_name = ''resumes'',
     tb_columns = [\<lparr>co_name = ''name'', co_type = TString 200, co_nullable = False\<rparr>,
       \<lparr>co_name = ''type'', co_type = TEnum ''resume_type'' [''base'', ''tailored'', ''optimized''], co_nullable = False\<rparr>,
       \<lparr>co_name = ''base_resume_id'', co_type = TString 32, co_nullable = True\<rparr>,
       \<lparr>co_name = ''job_id'', co_type = TString 32, co_nullable = True\<rparr>,
       \<lparr>co_name = ''template_id'', co_type = TString 50, co_nullable = False\<rparr>,
       \<lparr>co_name = ''file_path_pdf'', co_type = TString 500, co_nullable = True\<rparr>,
       \<lparr>co_name = ''file_path_docx'', co_type = TString 500, co_nullable = True\<rparr>,
       \<lparr>co_name = ''ats_score'', co_type = TFloat, co_nullable = True\<rparr>,
       \<lparr>co_name = ''content_text'', co_type = TText, co_nullable = True\<rparr>,
       \<lparr>co_name = ''id'', co_type = TString 32, co_nullable = False\<rparr>,
       \<lparr>co_name = ''created_at'', co_type = TDateTime, co_nullable = False\<rparr>,
       \<lparr>co_name = ''updated_at'', co_type = TDateTime, co_nullable = False\<rparr>,
       \<lparr>co_name = ''user_id'', co_type = TString 32, co_nullable = False\<rparr>],
     tb_pk = [''id''],
     tb_fks = [\<lparr>fk_column = ''base_resume_id'', fk_table = ''resumes'', fk_ref = ''id'', fk_ondelete = ''SET NULL''\<rparr>,
       \<lparr>fk_column = ''job_id'', fk_table = ''jobs'', fk_ref = ''id'', fk_ondelete = ''SET NULL''\<rparr>,
       \<lparr>fk_column = ''user_id'', fk_table = ''users'', fk_ref = ''id'', fk_ondelete = ''CASCADE''\<rparr>],
     tb_uniques = [],
     tb_indexes = [\<lparr>ix_name = ''ix_resume_type'', ix_columns = [''type''], ix_unique = False, ix_where = None\<rparr>,
       \<lparr>ix_name = ''ix_resumes_user_id'', ix_columns = [''user_id''], ix_unique = False, ix_where = None\<rparr>]\<rparr>"

definition applications_table :: table where
  "applications_table = \<lparr>tb_name = ''applications'',
     tb_columns = [\<lparr>co_name = ''job_id'', co_type = TString 32, co_nullable = False\<rparr>,
       \<lparr>co_name = ''resume_id'', co_type = TString 32, co_nullable = True\<rparr>,
       \<lparr>co_name = ''status'', co_type = TEnum ''application_status'' [''queued'', ''pending_review'', ''approved'', ''applying'', ''applied'', ''interview'', ''rejected'', ''offer'', ''withdrawn'', ''failed''], co_nullable = False\<rparr>,
       \<lparr>co_name = ''apply_mode'', co_type = TEnum ''apply_mode'' [''autonomous'', ''review'', ''batch''], co_nullable = False\<rparr>,
       \<lparr>co_name = ''ats_score'', co_type = TFloat, co_nullable = True\<rparr>,
       \<lparr>co_name = ''cover_letter_path'', co_type = TString 500, co_nullable = True\<rparr>,
       \<lparr>co_name = ''applied_at'', co_type = TDateTime, co_nullable = True\<rparr>,
       \<lparr>co_name = ''response_date'', co_type = TDateTime, co_nullable = True\<rparr>,
       \<lparr>co_name = ''notes'', co_type = TText, co_nullable = True\<rparr>,
       \<lparr>co_name = ''browser_screenshots'', co_type = TJSON, co_nullable = True\<rparr>,
       \<lparr>co_name = ''id'', co_type = TString 32, co_nullable = False\<rparr>,
       \<lparr>co_name = ''created_at'', co_type = TDateTime, co_nullable = False\<rparr>,
       \<lparr>co_name = ''updated_at'', co_type = TDateTime, co_nullable = False\<rparr>,
       \<lparr>co_name = ''user_id'', co_type = TString 32, co_nullable = False\<rparr>],
     tb_pk = [''id''],
     tb_fks = [\<lparr>fk_column = ''job_id'', fk_table = ''jobs'', fk_ref = ''id'', fk_ondelete = ''CASCADE''\<rparr>,
       \<lparr>fk_column = ''resume_id'', fk_table = ''resumes'', fk_ref = ''id'', fk_ondelete = ''SET NULL''\<rparr>,
       \<lparr>fk_column = ''user_id'', fk_table = ''users'', fk_ref = ''id'', fk_ondelete = ''CASCADE''\<rparr>],
     tb_uniques = [],
     tb_indexes = [\<lparr>ix_name = ''ix_application_job_id'', ix_columns = [''job_id''], ix_unique = False, ix_where = None\<rparr>,
       \<lparr>ix_name = ''ix_application_status'', ix_columns = [''status''], ix_unique = False, ix_where = None\<rparr>,
       \<lparr>ix_name = ''ix_applications_user_id'', ix_columns = [''user_id''], ix_unique = False, ix_where = None\<rparr>]\<rparr>"

definition tables_0001 :: schema where
  "tables_0001 = [users_table, jobs_table, llm_usage_table, refresh_tokens_table, user_credentials_table, user_llm_configs_table, user_settings_table, resumes_table, applications_table]"

definition upgrade_0001 :: "ddl list" where
  "upgrade_0001 = concat (map create_ops tables_0001)"

definition downgrade_0001 :: "ddl list" where
  "downgrade_0001 = [DropIndex ''applications'' ''ix_applications_user_id'',
     DropIndex ''applications'' ''ix_application_status'',
     DropIndex ''applications'' ''ix_application_job_id'',
     DropTable ''applications'',
     DropIndex ''resumes'' ''ix_resumes_user_id'',
     DropIndex ''resumes'' ''ix_resume_type'',
     DropTable ''resumes'',
     DropTable ''user_settings'',
     DropIndex ''user_llm_configs'' ''ix_user_llm_configs_user_id'',
     DropTable ''user_llm_configs'',
     DropIndex ''user_credentials'' ''ix_user_credentials_user_id'',
     DropTable ''user_credentials'',
     DropIndex ''refresh_tokens'' ''ix_refresh_tokens_user_id'',
     DropIndex ''refresh_tokens'' ''ix_refresh_tokens_token_hash'',
     DropIndex ''refresh_tokens'' ''ix_refresh_tokens_family_id'',
     DropTable ''refresh_tokens'',
     DropIndex ''llm_usage'' ''ix_llm_usage_user_id'',
     DropIndex ''llm_usage'' ''ix_llm_usage_user_created'',
     DropTable ''llm_usage'',
     DropIndex ''jobs'' ''ix_jobs_user_id'',
     DropIndex ''jobs'' ''ix_job_status'',
     DropIndex ''jobs'' ''ix_job_match_score'',
     DropTable ''jobs'',
     DropIndex ''users'' ''ix_users_email'',
     DropTable ''users'']"

section \<open>Revision 0002: platform sessions\<close>

definition platform_sessions_table :: table where
  "platform_sessions_table = \<lparr>tb_name = ''platform_sessions'',
     tb_columns = [\<lparr>co_name = ''user_id'', co_type = TString 32, co_nullable = False\<rparr>,
       \<lparr>co_name = ''platform'', co_type = TString 50, co_nullable = False\<rparr>,
       \<lparr>co_name = ''last_verified_at'', co_type = TDateTime, co_nullable = True\<rparr>,
       \<lparr>co_name = ''expires_at'', co_type = TDateTime, co_nullable = True\<rparr>,
       \<lparr>co_name = ''fingerprint_hash'', co_type = TString 64, co_nullable = True\<rparr>,
       \<lparr>co_name = ''id'', co_type = TString 32, co_nullable = False\<rparr>,
       \<lparr>co_name = ''created_at'', co_type = TDateTime, co_nullable = False\<rparr>,
       \<lparr>co_name = ''updated_at'', co_type = TDateTime, co_nullable = False\<rparr>],
     tb_pk = [''id''],
     tb_fks = [\<lparr>fk_column = ''user_id'', fk_table = ''users'', fk_ref = ''id'', fk_ondelete = ''CASCADE''\<rparr>],
     tb_uniques = [(''uq_platform_session'', [''user_id'', ''platform''])],
     tb_indexes = [\<lparr>ix_name = ''ix_platform_sessions_user_id'', ix_columns = [''user_id''], ix_unique = False, ix_where = None\<rparr>]\<rparr>"

definition tables_0002 :: schema where
  "tables_0002 = [platform_sessions_table]"

definition upgrade_0002 :: "ddl list" where
  "upgrade_0002 = concat (map create_ops tables_0002)"

definition downgrade_0002 :: "ddl list" where
  "downgrade_0002 = [DropIndex ''platform_sessions'' ''ix_platform_sessions_user_id'',
     DropTable ''platform_sessions'']"

section \<open>Revision 0003: the harness\<close>

definition domain_skills_table :: table where
  "domain_skills_table = \<lparr>tb_name = ''domain_skills'',
     tb_columns = [\<lparr>co_name = ''domain'', co_type = TString 100, co_nullable = False\<rparr>,
       \<lparr>co_name = ''version'', co_type = TInteger, co_nullable = False\<rparr>,
       \<lparr>co_name = ''content'', co_type = TText, co_nullable = False\<rparr>,
       \<lparr>co_name = ''meta'', co_type = TJSON, co_nullable = False\<rparr>,
       \<lparr>co_name = ''score'', co_type = TInteger, co_nullable = False\<rparr>,
       \<lparr>co_name = ''status'', co_type = TEnum ''skill_status'' [''active'', ''retired''], co_nullable = False\<rparr>,
       \<lparr>co_name = ''pii_checked'', co_type = TBoolean, co_nullable = False\<rparr>,
       \<lparr>co_name = ''created_by'', co_type = TString 50, co_nullable = True\<rparr>,
       \<lparr>co_name = ''id'', co_type = TString 32, co_nullable = False\<rparr>,
       \<lparr>co_name = ''created_at'', co_type = TDateTime, co_nullable = False\<rparr>,
       \<lparr>co_name = ''updated_at'', co_type = TDateTime, co_nullable = False\<rparr>],
     tb_pk = [''id''],
     tb_fks = [],
     tb_uniques = [(''uq_domain_skill_version'', [''domain'', ''version''])],
     tb_indexes = [\<lparr>ix_name = ''ix_domain_skill_domain_status'', ix_columns = [''domain'', ''status''], ix_unique = False, ix_where = None\<rparr>]\<rparr>"

definition system_issues_table :: table where
  "system_issues_table = \<lparr>tb_name = ''system_issues'',
     tb_columns = [\<lparr>co_name = ''user_id'', co_type = TString 32, co_nullable = True\<rparr>,
       \<lparr>co_name = ''category'', co_type = TString 50, co_nullable = False\<rparr>,
       \<lparr>co_name = ''severity'', co_type = TString 20, co_nullable = False\<rparr>,
       \<lparr>co_name = ''signals'', co_type = TJSON, co_nullable = False\<rparr>,
       \<lparr>co_name = ''diagnosis'', co_type = TText, co_nullable = False\<rparr>,
       \<lparr>co_name = ''status'', co_type = TString 20, co_nullable = False\<rparr>,
       \<lparr>co_name = ''detected_at'', co_type = TDateTime, co_nullable = False\<rparr>,
       \<lparr>co_name = ''id'', co_type = TString 32, co_nullable = False\<rparr>,
       \<lparr>co_name = ''created_at'', co_type = TDateTime, co_nullable = False\<rparr>,
       \<lparr>co_name = ''updated_at'', co_type = TDateTime, co_nullable = False\<rparr>],
     tb_pk = [''id''],
     tb_fks = [],
     tb_uniques = [],
     tb_indexes = [\<lparr>ix_name = ''ix_system_issue_status_detected'', ix_columns = [''status'', ''detected_at''], ix_unique = False, ix_where = None\<rparr>,
       \<lparr>ix_name = ''ix_system_issues_user_id'', ix_columns = [''user_id''], ix_unique = False, ix_where = None\<rparr>]\<rparr>"

definition run_trajectories_table :: table where
  "run_trajectories_table = \<lparr>tb_name = ''run_trajectories'',
     tb_columns = [\<lparr>co_name = ''application_id'', co_type = TString 32, co_nullable = False\<rparr>,
       \<lparr>co_name = ''platform'', co_type = TString 50, co_nullable = False\<rparr>,
       \<lparr>co_name = ''steps'', co_type = TJSON, co_nullable = False\<rparr>,
       \<lparr>co_name = ''screenshots'', co_type = TJSON, co_nullable = False\<rparr>,
       \<lparr>co_name = ''agent_self_report'', co_type = TText, co_nullable = True\<rparr>,
       \<lparr>co_name = ''tokens'', co_type = TInteger, co_nullable = False\<rparr>,
       \<lparr>co_name = ''cost_usd'', co_type = TFloat, co_nullable = False\<rparr>,
       \<lparr>co_name = ''duration_ms'', co_type = TInteger, co_nullable = False\<rparr>,
       \<lparr>co_name = ''status'', co_type = TString 20, co_nullable = False\<rparr>,
       \<lparr>co_name = ''id'', co_type = TString 32, co_nullable = False\<rparr>,
       \<lparr>co_name = ''created_at'', co_type = TDateTime, co_nullable = False\<rparr>,
       \<lparr>co_name = ''updated_at'', co_type = TDateTime, co_nullable = False\<rparr>,
       \<lparr>co_name = ''user_id'', co_type = TString 32, co_nullable = False\<rparr>],
     tb_pk = [''id''],
     tb_fks = [\<lparr>fk_column = ''user_id'', fk_table = ''users'', fk_ref = ''id'', fk_ondelete = ''CASCADE''\<rparr>],
     tb_uniques = [],
     tb_indexes = [\<lparr>ix_name = ''ix_run_traj_user_created'', ix_columns = [''user_id'', ''created_at''], ix_unique = False, ix_where = None\<rparr>,
       \<lparr>ix_name = ''ix_run_trajectories_application_id'', ix_columns = [''application_id''], ix_unique = False, ix_where = None\<rparr>,
       \<lparr>ix_name = ''ix_run_trajectories_user_id'', ix_columns = [''user_id''], ix_unique = False, ix_where = None\<rparr>]\<rparr>"

definition skill_feedback_table :: table where
  "skill_feedback_table = \<lparr>tb_name = ''skill_feedback'',
     tb_columns = [\<lparr>co_name = ''skill_id'', co_type = TString 32, co_nullable = False\<rparr>,
       \<lparr>co_name = ''run_id'', co_type = TString 32, co_nullable = True\<rparr>,
       \<lparr>co_name = ''delta'', co_type = TInteger, co_nullable = False\<rparr>,
       \<lparr>co_name = ''reason'', co_type = TText, co_nullable = True\<rparr>,
       \<lparr>co_name = ''id'', co_type = TString 32, co_nullable = False\<rparr>,
       \<lparr>co_name = ''created_at'', co_type = TDateTime, co_nullable = False\<rparr>,
       \<lparr>co_name = ''updated_at'', co_type = TDateTime, co_nullable = False\<rparr>],
     tb_pk = [''id''],
     tb_fks = [\<lparr>fk_column = ''skill_id'', fk_table = ''domain_skills'', fk_ref = ''id'', fk_ondelete = ''CASCADE''\<rparr>],
     tb_uniques = [],
     tb_indexes = [\<lparr>ix_name = ''ix_skill_feedback_skill_id'', ix_columns = [''skill_id''], ix_unique = False, ix_where = None\<rparr>]\<rparr>"

definition run_diagnoses_table :: table where
  "run_diagnoses_table = \<lparr>tb_name = ''run_diagnoses'',
     tb_columns = [\<lparr>co_name = ''run_id'', co_type = TString 32, co_nullable = False\<rparr>,
       \<lparr>co_name = ''failure_class'', co_type = TEnum ''failure_class'' [''login_failed'', ''session_expired'', ''captcha_wall'', ''twofa_required'', ''antibot_block'', ''dom_drift'', ''field_missing'', ''agent_offtrack'', ''loop'', ''llm_error'', ''timeout'', ''rate_limited'', ''unknown''], co_nullable = False\<rparr>,
       \<lparr>co_name = ''root_cause'', co_type = TText, co_nullable = False\<rparr>,
       \<lparr>co_name = ''signals'', co_type = TJSON, co_nullable = False\<rparr>,
       \<lparr>co_name = ''suggested_action'', co_type = TString 200, co_nullable = True\<rparr>,
       \<lparr>co_name = ''id'', co_type = TString 32, co_nullable = False\<rparr>,
       \<lparr>co_name = ''created_at'', co_type = TDateTime, co_nullable = False\<rparr>,
       \<lparr>co_name = ''updated_at'', co_type = TDateTime, co_nullable = False\<rparr>,
       \<lparr>co_name = ''user_id'', co_type = TString 32, co_nullable = False\<rparr>],
     tb_pk = [''id''],
     tb_fks = [\<lparr>fk_column = ''run_id'', fk_table = ''run_trajectories'', fk_ref = ''id'', fk_ondelete = ''CASCADE''\<rparr>,
       \<lparr>fk_column = ''user_id'', fk_table = ''users'', fk_ref = ''id'', fk_ondelete = ''CASCADE''\<rparr>],
     tb_uniques = [],
     tb_indexes = [\<lparr>ix_name = ''ix_run_diagnoses_run_id'', ix_columns = [''run_id''], ix_unique = False, ix_where = None\<rparr>,
       \<lparr>ix_name = ''ix_run_diagnoses_user_id'', ix_columns = [''user_id''], ix_unique = False, ix_where = None\<rparr>]\<rparr>"

definition run_verdicts_table :: table where
  "run_verdicts_table = \<lparr>tb_name = ''run_verdicts'',
     tb_columns = [\<lparr>co_name = ''run_id'', co_type = TString 32, co_nullable = False\<rparr>,
       \<lparr>co_name = ''verdict'', co_type = TEnum ''run_verdict'' [''success'', ''partial'', ''failed''], co_nullable = False\<rparr>,
       \<lparr>co_name = ''confidence'', co_type = TFloat, co_nullable = False\<rparr>,
       \<lparr>co_name = ''reason'', co_type = TText, co_nullable = False\<rparr>,
       \<lparr>co_name = ''judged_model'', co_type = TString 100, co_nullable = True\<rparr>,
       \<lparr>co_name = ''id'', co_type = TString 32, co_nullable = False\<rparr>,
       \<lparr>co_name = ''created_at'', co_type = TDateTime, co_nullable = False\<rparr>,
       \<lparr>co_name = ''updated_at'', co_type = TDateTime, co_nullable = False\<rparr>,
       \<lparr>co_name = ''user_id'', co_type = TString 32, co_nullable = False\<rparr>],
     tb_pk = [''id''],
     tb_fks = [\<lparr>fk_column = ''run_id'', fk_table = ''run_trajectories'', fk_ref = ''id'', fk_ondelete = ''CASCADE''\<rparr>,
       \<lparr>fk_column = ''user_id'', fk_table = ''users'', fk_ref = ''id'', fk_ondelete = ''CASCADE''\<rparr>],
     tb_uniques = [],
     tb_indexes = [\<lparr>ix_name = ''ix_run_verdicts_run_id'', ix_columns = [''run_id''], ix_unique = False, ix_where = None\<rparr>,
       \<lparr>ix_name = ''ix_run_verdicts_user_id'', ix_columns = [''user_id''], ix_unique = False, ix_where = None\<rparr>]\<rparr>"

definition tables_0003 :: schema where
  "tables_0003 = [domain_skills_table, system_issues_table, run_trajectories_table, skill_feedback_table, run_diagnoses_table, run_verdicts_table]"

definition upgrade_0003 :: "ddl list" where
  "upgrade_0003 = concat (map create_ops tables_0003)"

definition downgrade_0003 :: "ddl list" where
  "downgrade_0003 = [DropIndex ''run_verdicts'' ''ix_run_verdicts_user_id'',
     DropIndex ''run_verdicts'' ''ix_run_verdicts_run_id'',
     DropTable ''run_verdicts'',
     DropIndex ''run_diagnoses'' ''ix_run_diagnoses_user_id'',
     DropIndex ''run_diagnoses'' ''ix_run_diagnoses_run_id'',
     DropTable ''run_diagnoses'',
     DropIndex ''skill_feedback'' ''ix_skill_feedback_skill_id'',
     DropTable ''skill_feedback'',
     DropIndex ''run_trajectories'' ''ix_run_trajectories_user_id'',
     DropIndex ''run_trajectories'' ''ix_run_trajectories_application_id'',
     DropIndex ''run_trajectories'' ''ix_run_traj_user_created'',
     DropTable ''run_trajectories'',
     DropIndex ''system_issues'' ''ix_system_issues_user_id'',
     DropIndex ''system_issues'' ''ix_system_issue_status_detected'',
     DropTable ''system_issues'',
     DropIndex ''domain_skills'' ''ix_domain_skill_domain_status'',
     DropTable ''domain_skills'']"

section \<open>Revision 0004: a value of an enumeration\<close>

definition upgrade_0004 :: "dialect \<Rightarrow> ddl list" where
  "upgrade_0004 dia = (if dia = Postgresql then [AddEnumValue ''llm_purpose'' ''general''] else [])"

definition downgrade_0004 :: "ddl list" where
  "downgrade_0004 = []"

section \<open>Revision 0005: one active application per job\<close>

definition ACTIVE_WHERE :: str where
  "ACTIVE_WHERE = ''status NOT IN ('' @ [CHR 39] @ ''rejected'' @ [CHR 39] @ '', '' @ [CHR 39] @ ''withdrawn'' @ [CHR 39]
     @ '', '' @ [CHR 39] @ ''failed'' @ [CHR 39] @ '')''"

definition active_index :: sql_index where
  "active_index = \<lparr>ix_name = ''uq_app_active_job'', ix_columns = [''user_id'', ''job_id''], ix_unique = True,
     ix_where = Some ACTIVE_WHERE\<rparr>"

definition skills_used_column :: column where
  "skills_used_column = \<lparr>co_name = ''skills_used'', co_type = TJSON, co_nullable = True\<rparr>"

definition upgrade_0005 :: "ddl list" where
  "upgrade_0005 = [AddColumn ''run_trajectories'' skills_used_column, CreateIndex ''applications'' active_index]"

definition downgrade_0005 :: "ddl list" where
  "downgrade_0005 = [DropIndex ''applications'' ''uq_app_active_job'',
     DropColumn ''run_trajectories'' ''skills_used'']"

section \<open>Revision 0006: password reset tokens\<close>

definition password_reset_tokens_table :: table where
  "password_reset_tokens_table = \<lparr>tb_name = ''password_reset_tokens'',
     tb_columns = [\<lparr>co_name = ''user_id'', co_type = TString 32, co_nullable = False\<rparr>,
       \<lparr>co_name = ''token_hash'', co_type = TString 64, co_nullable = False\<rparr>,
       \<lparr>co_name = ''expires_at'', co_type = TDateTime, co_nullable = False\<rparr>,
       \<lparr>co_name = ''used_at'', co_type = TDateTime, co_nullable = True\<rparr>,
       \<lparr>co_name = ''id'', co_type = TString 32, co_nullable = False\<rparr>,
       \<lparr>co_name = ''created_at'', co_type = TDateTime, co_nullable = False\<rparr>,
       \<lparr>co_name = ''updated_at'', co_type = TDateTime, co_nullable = False\<rparr>],
     tb_pk = [''id''],
     tb_fks = [\<lparr>fk_column = ''user_id'', fk_table = ''users'', fk_ref = ''id'', fk_ondelete = ''CASCADE''\<rparr>],
     tb_uniques = [],
     tb_indexes = [\<lparr>ix_name = ''ix_password_reset_tokens_user_id'', ix_columns = [''user_id''], ix_unique = False, ix_where = None\<rparr>,
       \<lparr>ix_name = ''ix_password_reset_tokens_token_hash'', ix_columns = [''token_hash''], ix_unique = False, ix_where = None\<rparr>]\<rparr>"

definition tables_0006 :: schema where
  "tables_0006 = [password_reset_tokens_table]"

definition upgrade_0006 :: "ddl list" where
  "upgrade_0006 = concat (map create_ops tables_0006)"

definition downgrade_0006 :: "ddl list" where
  "downgrade_0006 = [DropIndex ''password_reset_tokens'' ''ix_password_reset_tokens_token_hash'',
     DropIndex ''password_reset_tokens'' ''ix_password_reset_tokens_user_id'',
     DropTable ''password_reset_tokens'']"

section \<open>The chain of revisions\<close>

record migration =
  mg_revision :: str
  mg_down_revision :: "str option"
  mg_upgrade :: "ddl list"
  mg_downgrade :: "ddl list"

definition migrations :: "dialect \<Rightarrow> migration list" where
  "migrations dia =
     [\<lparr>mg_revision = ''0001'', mg_down_revision = None, mg_upgrade = upgrade_0001, mg_downgrade = downgrade_0001\<rparr>,
      \<lparr>mg_revision = ''0002'', mg_down_revision = Some ''0001'', mg_upgrade = upgrade_0002, mg_downgrade = downgrade_0002\<rparr>,
      \<lparr>mg_revision = ''0003'', mg_down_revision = Some ''0002'', mg_upgrade = upgrade_0003, mg_downgrade = downgrade_0003\<rparr>,
      \<lparr>mg_revision = ''0004'', mg_down_revision = Some ''0003'', mg_upgrade = upgrade_0004 dia, mg_downgrade = downgrade_0004\<rparr>,
      \<lparr>mg_revision = ''0005'', mg_down_revision = Some ''0004'', mg_upgrade = upgrade_0005, mg_downgrade = downgrade_0005\<rparr>,
      \<lparr>mg_revision = ''0006'', mg_down_revision = Some ''0005'', mg_upgrade = upgrade_0006, mg_downgrade = downgrade_0006\<rparr>]"

text \<open>\<^verbatim>\<open>alembic upgrade head\<close> and \<^verbatim>\<open>alembic downgrade base\<close>.\<close>

definition upgrade_head :: "dialect \<Rightarrow> schema \<Rightarrow> exn + schema" where
  "upgrade_head dia s = run_ddl (concat (map mg_upgrade (migrations dia))) s"

definition downgrade_base :: "dialect \<Rightarrow> schema \<Rightarrow> exn + schema" where
  "downgrade_base dia s = run_ddl (concat (map mg_downgrade (rev (migrations dia)))) s"

section \<open>Creating and dropping tables\<close>

definition drop_ops :: "table \<Rightarrow> ddl list" where
  "drop_ops t = map (\<lambda>i. DropIndex (tb_name t) (ix_name i)) (rev (tb_indexes t)) @ [DropTable (tb_name t)]"

definition table_ok :: "str list \<Rightarrow> table \<Rightarrow> bool" where
  "table_ok names t \<longleftrightarrow> tb_name t \<notin> set names \<and> fk_table ` set (tb_fks t) \<subseteq> insert (tb_name t) (set names)
     \<and> distinct (map ix_name (tb_indexes t)) \<and> list_all (\<lambda>i. set (ix_columns i) \<subseteq> set (column_names t)) (tb_indexes t)"

fun tables_ok :: "str list \<Rightarrow> schema \<Rightarrow> bool" where
  "tables_ok names [] = True"
| "tables_ok names (t # ts) = (table_ok names t \<and> tables_ok (names @ [tb_name t]) ts)"

definition fk_closed :: "schema \<Rightarrow> bool" where
  "fk_closed s \<longleftrightarrow> (\<forall>t \<in> set s. fk_table ` set (tb_fks t) \<subseteq> set (table_names s))"

lemma table_names_simps [simp]: "table_names [] = []" "table_names (t # ts) = tb_name t # table_names ts"
  "table_names (s @ ts) = table_names s @ table_names ts"
  by (simp_all add: table_names_def)

lemma tables_ok_append: "tables_ok names (s @ ts) \<longleftrightarrow> tables_ok names s \<and> tables_ok (names @ table_names s) ts"
  by (induction s arbitrary: names) simp_all

lemma fk_closed_snoc:
  assumes "fk_closed s" and "fk_table ` set (tb_fks t) \<subseteq> insert (tb_name t) (set (table_names s))"
  shows "fk_closed (s @ [t])"
  unfolding fk_closed_def
proof
  fix x assume "x \<in> set (s @ [t])"
  then consider "x = t" | "x \<in> set s" by auto
  then show "fk_table ` set (tb_fks x) \<subseteq> set (table_names (s @ [t]))"
  proof cases
    case 2
    then have "fk_table ` set (tb_fks x) \<subseteq> set (table_names s)" using assms(1) by (simp add: fk_closed_def)
    then show ?thesis by auto
  qed (use assms(2) in simp)
qed

lemma tables_ok_closed: "tables_ok (table_names s) ts \<Longrightarrow> fk_closed s \<Longrightarrow> fk_closed (s @ ts)"
proof (induction ts arbitrary: s)
  case (Cons t ts)
  then have "fk_closed (s @ [t])" by (intro fk_closed_snoc) (simp_all add: table_ok_def)
  then show ?case using Cons.IH [of "s @ [t]"] Cons.prems by simp
qed simp

lemma tables_ok_distinct: "tables_ok (table_names s) ts \<Longrightarrow> distinct (table_names s) \<Longrightarrow> distinct (table_names (s @ ts))"
proof (induction ts arbitrary: s)
  case (Cons t ts)
  then show ?case using Cons.IH [of "s @ [t]"] by (simp add: table_ok_def)
qed simp

lemma on_table_last:
  assumes "tb_name t \<notin> set (table_names s)" and "f t = Inr t'"
  shows "on_table (tb_name t) f (s @ [t]) = Inr (s @ [t'])"
proof -
  have n: "tb_name x \<noteq> tb_name t" if "x \<in> set s" for x using assms(1) that by (auto simp: table_names_def image_iff)
  then have "List.find (\<lambda>x. tb_name x = tb_name t) (s @ [t]) = Some t"
    by (induction s) auto
  moreover have "map (\<lambda>x. if tb_name x = tb_name t then t' else x) s = s" using n by (simp add: map_idI)
  ultimately show ?thesis by (simp add: on_table_def assms(2))
qed

lemma run_create_indexes:
  assumes "tb_name t \<notin> set (table_names s)" and "distinct (map ix_name (is @ js))"
    and "list_all (\<lambda>i. set (ix_columns i) \<subseteq> set (column_names t)) js"
  shows "run_ddl (map (CreateIndex (tb_name t)) js @ ops) (s @ [t\<lparr>tb_indexes := is\<rparr>]) = run_ddl ops (s @ [t\<lparr>tb_indexes := is @ js\<rparr>])"
  using assms(2,3)
proof (induction js arbitrary: "is")
  case (Cons j js)
  have "add_index j (t\<lparr>tb_indexes := is\<rparr>) = Inr (t\<lparr>tb_indexes := is @ [j]\<rparr>)"
    using Cons.prems by (auto simp: add_index_def column_names_def)
  from on_table_last [where f = "add_index j" and t = "t\<lparr>tb_indexes := is\<rparr>" and s = s, OF _ this] assms(1)
  have "apply_ddl (CreateIndex (tb_name t) j) (s @ [t\<lparr>tb_indexes := is\<rparr>]) = Inr (s @ [t\<lparr>tb_indexes := is @ [j]\<rparr>])" by simp
  then show ?case using Cons.IH [of "is @ [j]"] Cons.prems by simp
qed simp

lemma run_create:
  assumes "table_ok (table_names s) t"
  shows "run_ddl (create_ops t @ ops) s = run_ddl ops (s @ [t])"
proof -
  have "apply_ddl (CreateTable (t\<lparr>tb_indexes := []\<rparr>)) s = Inr (s @ [t\<lparr>tb_indexes := []\<rparr>])"
    using assms by (simp add: table_ok_def)
  then show ?thesis
    using run_create_indexes [of t s "[]" "tb_indexes t" ops] assms by (simp add: create_ops_def table_ok_def)
qed

lemma run_drop_indexes:
  assumes "tb_name t \<notin> set (table_names s)" and "distinct (map ix_name is)"
  shows "run_ddl (map (\<lambda>i. DropIndex (tb_name t) (ix_name i)) (rev is) @ ops) (s @ [t\<lparr>tb_indexes := is\<rparr>])
    = run_ddl ops (s @ [t\<lparr>tb_indexes := []\<rparr>])"
  using assms(2)
proof (induction "is" rule: rev_induct)
  case (snoc i "is")
  then have "filter (\<lambda>x. ix_name x \<noteq> ix_name i) is = is" by (auto simp: filter_id_conv image_iff)
  then have "remove_index (ix_name i) (t\<lparr>tb_indexes := is @ [i]\<rparr>) = Inr (t\<lparr>tb_indexes := is\<rparr>)"
    by (simp add: remove_index_def)
  from on_table_last [where f = "remove_index (ix_name i)" and t = "t\<lparr>tb_indexes := is @ [i]\<rparr>" and s = s, OF _ this] assms(1)
  have "apply_ddl (DropIndex (tb_name t) (ix_name i)) (s @ [t\<lparr>tb_indexes := is @ [i]\<rparr>]) = Inr (s @ [t\<lparr>tb_indexes := is\<rparr>])" by simp
  then show ?case using snoc by simp
qed simp

lemma run_drop:
  assumes "table_ok (table_names s) t" and "fk_closed s"
  shows "run_ddl (drop_ops t @ ops) (s @ [t]) = run_ddl ops s"
proof -
  let ?t = "t\<lparr>tb_indexes := []\<rparr>"
  have new: "tb_name t \<notin> set (table_names s)" using assms(1) by (simp add: table_ok_def)
  have "\<not> list_ex (references (tb_name t)) (s @ [?t])"
    using assms(2) new by (fastforce simp: list_ex_iff references_def fk_closed_def)
  moreover have "filter (\<lambda>x. tb_name x \<noteq> tb_name t) s = s" using new by (auto simp: filter_id_conv table_names_def image_iff)
  ultimately have "apply_ddl (DropTable (tb_name t)) (s @ [?t]) = Inr s" by simp
  then show ?thesis
    using run_drop_indexes [OF new, of "tb_indexes t"] assms(1) by (simp add: drop_ops_def table_ok_def)
qed

lemma run_create_all:
  "tables_ok (table_names s) ts \<Longrightarrow> run_ddl (concat (map create_ops ts) @ ops) s = run_ddl ops (s @ ts)"
proof (induction ts arbitrary: s)
  case (Cons t ts)
  then show ?case using run_create [of s t] Cons.IH [of "s @ [t]"] by simp
qed simp

lemma run_drop_all:
  "tables_ok (table_names s) ts \<Longrightarrow> fk_closed s \<Longrightarrow> run_ddl (concat (map drop_ops (rev ts)) @ ops) (s @ ts) = run_ddl ops s"
proof (induction ts arbitrary: ops rule: rev_induct)
  case (snoc t ts)
  then have ok: "tables_ok (table_names s) ts" "table_ok (table_names (s @ ts)) t" by (simp_all add: tables_ok_append)
  have "fk_closed (s @ ts)" by (rule tables_ok_closed [OF ok(1) snoc.prems(2)])
  from run_drop [OF ok(2) this] show ?case using snoc.IH [OF ok(1) snoc.prems(2)] by simp
qed simp

section \<open>The downgrades mirror the upgrades\<close>

lemma downgrade_mirrors:
  "downgrade_0001 = concat (map drop_ops (rev tables_0001))" "downgrade_0002 = concat (map drop_ops (rev tables_0002))"
  "downgrade_0003 = concat (map drop_ops (rev tables_0003))" "downgrade_0006 = concat (map drop_ops (rev tables_0006))"
  by (simp_all add: downgrade_0001_def tables_0001_def downgrade_0002_def tables_0002_def downgrade_0003_def tables_0003_def
      downgrade_0006_def tables_0006_def drop_ops_def users_table_def jobs_table_def llm_usage_table_def
      refresh_tokens_table_def user_credentials_table_def user_llm_configs_table_def user_settings_table_def
      resumes_table_def applications_table_def platform_sessions_table_def domain_skills_table_def
      system_issues_table_def run_trajectories_table_def skill_feedback_table_def run_diagnoses_table_def
      run_verdicts_table_def password_reset_tokens_table_def)

text \<open>The tables of each revision fit the schema before it.\<close>

lemmas table_defs = users_table_def jobs_table_def llm_usage_table_def
  refresh_tokens_table_def user_credentials_table_def user_llm_configs_table_def user_settings_table_def
  resumes_table_def applications_table_def platform_sessions_table_def domain_skills_table_def
  system_issues_table_def run_trajectories_table_def skill_feedback_table_def run_diagnoses_table_def
  run_verdicts_table_def password_reset_tokens_table_def

lemma names_0001: "table_names tables_0001 = [''users'', ''jobs'', ''llm_usage'', ''refresh_tokens'', ''user_credentials'',
    ''user_llm_configs'', ''user_settings'', ''resumes'', ''applications'']"
  by (simp add: tables_0001_def table_defs)

lemma names_0002: "table_names tables_0002 = [''platform_sessions'']"
  by (simp add: tables_0002_def table_defs)

lemma names_0003: "table_names tables_0003 = [''domain_skills'', ''system_issues'', ''run_trajectories'', ''skill_feedback'',
    ''run_diagnoses'', ''run_verdicts'']"
  by (simp add: tables_0003_def table_defs)

lemma tables_fit:
  "tables_ok [] tables_0001" "tables_ok (table_names tables_0001) tables_0002"
  "tables_ok (table_names tables_0001 @ table_names tables_0002) tables_0003"
  "tables_ok (table_names tables_0001 @ table_names tables_0002 @ table_names tables_0003) tables_0006"
  unfolding names_0001 names_0002 names_0003 tables_0001_def tables_0002_def tables_0003_def tables_0006_def
  by (simp_all add: table_ok_def column_names_def table_defs)

section \<open>Changes that keep the shape of the tables\<close>

definition keeps_shape :: "(table \<Rightarrow> table) \<Rightarrow> bool" where
  "keeps_shape h \<longleftrightarrow> (\<forall>t. tb_name (h t) = tb_name t \<and> tb_fks (h t) = tb_fks t \<and> tb_indexes (h t) = tb_indexes t
     \<and> column_names (h t) = column_names t)"

lemma keeps_shape_simps:
  assumes "keeps_shape h"
  shows "tb_name (h t) = tb_name t" "tb_fks (h t) = tb_fks t" "tb_indexes (h t) = tb_indexes t" "column_names (h t) = column_names t"
    "drop_ops (h t) = drop_ops t" "table_ok names (h t) = table_ok names t"
  using assms by (simp_all add: keeps_shape_def drop_ops_def table_ok_def)

lemma keeps_shape_map:
  assumes "keeps_shape h"
  shows "tables_ok names (map h ts) = tables_ok names ts" "table_names (map h ts) = table_names ts" "map drop_ops (map h ts) = map drop_ops ts"
proof -
  note k = keeps_shape_simps [OF assms]
  show "tables_ok names (map h ts) = tables_ok names ts" by (induction ts arbitrary: names) (simp_all add: k)
  show "table_names (map h ts) = table_names ts" "map drop_ops (map h ts) = map drop_ops ts" by (simp_all add: table_names_def k)
qed

lemma add_value_keeps: "keeps_shape (add_value_table n v)"
proof -
  have "co_name (add_value n v c) = co_name c" for c by (simp add: add_value_def split: sql_type.split)
  then show ?thesis by (simp add: keeps_shape_def add_value_table_def column_names_def)
qed

lemma on_table_update:
  assumes "distinct (table_names s)" and "t \<in> set s" and "tb_name t = n" and "f t = Inr t'"
  shows "on_table n f s = Inr (map (\<lambda>x. if tb_name x = n then t' else x) s)"
proof -
  have "List.find (\<lambda>x. tb_name x = n) s = Some t"
    using find_key [OF assms(1) [unfolded table_names_def]] assms(2,3) by blast
  then show ?thesis by (simp add: on_table_def assms(4))
qed

lemma on_table_undo:
  assumes "distinct (table_names s)" and "t \<in> set s" and "tb_name t = n" and "tb_name t' = n" and "g t' = Inr t"
  shows "on_table n g (map (\<lambda>x. if tb_name x = n then t' else x) s) = Inr s"
proof -
  let ?s = "map (\<lambda>x. if tb_name x = n then t' else x) s"
  have names: "table_names ?s = table_names s" using assms(4) by (simp add: table_names_def)
  have "t' \<in> set ?s" using assms(2,3) by force
  from on_table_update [OF _ this assms(4), of g, OF _ assms(5)]
  have u: "on_table n g ?s = Inr (map (\<lambda>x. if tb_name x = n then t else x) ?s)" using assms(1) names by simp
  have "tb_name x = n \<Longrightarrow> x = t" if "x \<in> set s" for x
    using key_unique [OF assms(1) [unfolded table_names_def] that assms(2)] assms(3) by simp
  then have "map (\<lambda>x. if tb_name x = n then t else x) ?s = s" using assms(4) by (auto intro!: map_idI)
  with u show ?thesis by simp
qed

lemma remove_added_index: "add_index i t = Inr t' \<Longrightarrow> remove_index (ix_name i) t' = Inr t"
proof -
  assume a: "add_index i t = Inr t'"
  then have n: "ix_name i \<notin> ix_name ` set (tb_indexes t)" and t': "t' = t\<lparr>tb_indexes := tb_indexes t @ [i]\<rparr>"
    by (auto simp: add_index_def split: if_splits)
  have "filter (\<lambda>x. ix_name x \<noteq> ix_name i) (tb_indexes t) = tb_indexes t" using n by (auto simp: filter_id_conv image_iff)
  then show ?thesis by (simp add: remove_index_def t')
qed

lemma remove_added_column: "add_column c t = Inr t' \<Longrightarrow> remove_column (co_name c) t' = Inr t"
proof -
  assume a: "add_column c t = Inr t'"
  then have n: "co_name c \<notin> co_name ` set (tb_columns t)" and t': "t' = t\<lparr>tb_columns := tb_columns t @ [c]\<rparr>"
    by (auto simp: add_column_def column_names_def split: if_splits)
  have "filter (\<lambda>x. co_name x \<noteq> co_name c) (tb_columns t) = tb_columns t" using n by (auto simp: filter_id_conv image_iff)
  then show ?thesis by (simp add: remove_column_def t' column_names_def)
qed

section \<open>The schema after each revision\<close>

definition general_purpose :: "dialect \<Rightarrow> table \<Rightarrow> table" where
  "general_purpose dia t = (if dia = Postgresql then add_value_table ''llm_purpose'' ''general'' t else t)"

definition trajectories_0005 :: "dialect \<Rightarrow> table" where
  "trajectories_0005 dia = (general_purpose dia run_trajectories_table)
     \<lparr>tb_columns := tb_columns (general_purpose dia run_trajectories_table) @ [skills_used_column]\<rparr>"

definition applications_0005 :: "dialect \<Rightarrow> table" where
  "applications_0005 dia = (general_purpose dia applications_table)
     \<lparr>tb_indexes := tb_indexes (general_purpose dia applications_table) @ [active_index]\<rparr>"

definition schema_0003 :: schema where
  "schema_0003 = tables_0001 @ tables_0002 @ tables_0003"

definition schema_0004 :: "dialect \<Rightarrow> schema" where
  "schema_0004 dia = map (general_purpose dia) schema_0003"

definition schema_0005 :: "dialect \<Rightarrow> schema" where
  "schema_0005 dia = map (\<lambda>x. if tb_name x = ''applications'' then applications_0005 dia else x)
     (map (\<lambda>x. if tb_name x = ''run_trajectories'' then trajectories_0005 dia else x) (schema_0004 dia))"

definition head_schema :: "dialect \<Rightarrow> schema" where
  "head_schema dia = schema_0005 dia @ tables_0006"

definition schemas :: "dialect \<Rightarrow> schema list" where
  "schemas dia = [[], tables_0001, tables_0001 @ tables_0002, schema_0003, schema_0004 dia, schema_0005 dia, head_schema dia]"

lemma general_purpose_keeps: "keeps_shape (general_purpose dia)"
  using add_value_keeps [of "''llm_purpose''" "''general''"] by (simp add: keeps_shape_def general_purpose_def)

lemma run_ddl_append:
  "run_ddl (a @ b) s = (case run_ddl a s of Inl e \<Rightarrow> Inl e | Inr s' \<Rightarrow> run_ddl b s')"
  by (induction a arbitrary: s) (simp_all split: sum.split)

lemma closed_shape:
  assumes "map tb_name s' = map tb_name s" and "map tb_fks s' = map tb_fks s"
  shows "fk_closed s' = fk_closed s"
proof -
  have "fk_closed s \<longleftrightarrow> (\<forall>fs \<in> set (map tb_fks s). fk_table ` set fs \<subseteq> set (map tb_name s))" for s
    by (simp add: fk_closed_def table_names_def)
  then show ?thesis using assms by metis
qed

lemma schema_0003_ok: "tables_ok [] schema_0003"
  using tables_fit by (simp add: schema_0003_def tables_ok_append)

lemma schema_0004_facts:
  "table_names (schema_0004 dia) = table_names schema_0003" "distinct (table_names (schema_0004 dia))" "fk_closed (schema_0004 dia)"
proof -
  note k = keeps_shape_map [OF general_purpose_keeps]
  show n: "table_names (schema_0004 dia) = table_names schema_0003" by (simp add: schema_0004_def k)
  have ok: "tables_ok (table_names []) (schema_0004 dia)" using schema_0003_ok by (simp add: schema_0004_def k)
  show "distinct (table_names (schema_0004 dia))" using tables_ok_distinct [OF ok] by simp
  show "fk_closed (schema_0004 dia)" using tables_ok_closed [OF ok] by (simp add: fk_closed_def)
qed

lemma tables_0005:
  "general_purpose dia run_trajectories_table \<in> set (schema_0004 dia)" "general_purpose dia applications_table \<in> set (schema_0004 dia)"
  "tb_name (general_purpose dia run_trajectories_table) = ''run_trajectories''" "tb_name (trajectories_0005 dia) = ''run_trajectories''"
  "tb_name (general_purpose dia applications_table) = ''applications''" "tb_name (applications_0005 dia) = ''applications''"
  "add_column skills_used_column (general_purpose dia run_trajectories_table) = Inr (trajectories_0005 dia)"
  "add_index active_index (general_purpose dia applications_table) = Inr (applications_0005 dia)"
proof -
  note k = keeps_shape_simps [OF general_purpose_keeps]
  show "general_purpose dia run_trajectories_table \<in> set (schema_0004 dia)" "general_purpose dia applications_table \<in> set (schema_0004 dia)"
    by (simp_all add: schema_0004_def schema_0003_def tables_0001_def tables_0003_def)
  show "tb_name (general_purpose dia run_trajectories_table) = ''run_trajectories''" "tb_name (general_purpose dia applications_table) = ''applications''"
    "tb_name (trajectories_0005 dia) = ''run_trajectories''" "tb_name (applications_0005 dia) = ''applications''"
    by (simp_all add: trajectories_0005_def applications_0005_def k) (simp_all add: run_trajectories_table_def applications_table_def)
  have "co_name skills_used_column \<notin> set (column_names run_trajectories_table)"
    by (simp add: skills_used_column_def column_names_def run_trajectories_table_def)
  then show "add_column skills_used_column (general_purpose dia run_trajectories_table) = Inr (trajectories_0005 dia)"
    by (simp add: add_column_def k trajectories_0005_def)
  have "set (ix_columns active_index) \<subseteq> set (column_names applications_table)"
    "ix_name active_index \<notin> ix_name ` set (tb_indexes applications_table)"
    by (simp_all add: active_index_def column_names_def applications_table_def)
  then show "add_index active_index (general_purpose dia applications_table) = Inr (applications_0005 dia)"
    by (simp add: add_index_def k applications_0005_def)
qed

lemma schema_0005_shape:
  "map tb_name (schema_0005 dia) = map tb_name (schema_0004 dia)" "map tb_fks (schema_0005 dia) = map tb_fks (schema_0004 dia)"
proof -
  note k = keeps_shape_simps [OF general_purpose_keeps]
  have u: "x = general_purpose dia t" if "x \<in> set (schema_0004 dia)" "tb_name x = tb_name t" "general_purpose dia t \<in> set (schema_0004 dia)" for x t
    using key_unique [OF schema_0004_facts(2) [unfolded table_names_def] that(1,3)] that(2) k(1) by simp
  have n: "tb_name run_trajectories_table = ''run_trajectories''" "tb_name applications_table = ''applications''"
    by (simp_all add: run_trajectories_table_def applications_table_def)
  show "map tb_name (schema_0005 dia) = map tb_name (schema_0004 dia)"
    by (auto simp: schema_0005_def tables_0005)
  have "tb_fks (trajectories_0005 dia) = tb_fks x" if "x \<in> set (schema_0004 dia)" "tb_name x = ''run_trajectories''" for x
    using u [OF that(1) _ tables_0005(1)] that(2) n(1) by (simp add: trajectories_0005_def)
  moreover have "tb_fks (applications_0005 dia) = tb_fks x" if "x \<in> set (schema_0004 dia)" "tb_name x = ''applications''" for x
    using u [OF that(1) _ tables_0005(2)] that(2) n(2) by (simp add: applications_0005_def)
  ultimately show "map tb_fks (schema_0005 dia) = map tb_fks (schema_0004 dia)"
    by (auto simp: schema_0005_def tables_0005)
qed

section \<open>Up and down\<close>

lemma run_upgrades:
  "run_ddl upgrade_0001 [] = Inr tables_0001"
  "run_ddl upgrade_0002 tables_0001 = Inr (tables_0001 @ tables_0002)"
  "run_ddl upgrade_0003 (tables_0001 @ tables_0002) = Inr schema_0003"
  "run_ddl (upgrade_0004 dia) schema_0003 = Inr (schema_0004 dia)"
  using run_create_all [where ops = "[]" and s = "[]" and ts = tables_0001]
    run_create_all [where ops = "[]" and s = tables_0001 and ts = tables_0002]
    run_create_all [where ops = "[]" and s = "tables_0001 @ tables_0002" and ts = tables_0003] tables_fit
  by (simp_all add: upgrade_0001_def upgrade_0002_def upgrade_0003_def upgrade_0004_def schema_0003_def schema_0004_def
      general_purpose_def [abs_def])

lemma run_0005:
  "run_ddl upgrade_0005 (schema_0004 dia) = Inr (schema_0005 dia) \<and> run_ddl downgrade_0005 (schema_0005 dia) = Inr (schema_0004 dia)"
proof -
  let ?S = "schema_0004 dia"
  let ?M = "map (\<lambda>x. if tb_name x = ''run_trajectories'' then trajectories_0005 dia else x) ?S"
  note t = tables_0005 [of dia] and d = schema_0004_facts(2) [of dia]
  have names: "table_names ?M = table_names ?S" using t(4) by (simp add: table_names_def)
  then have dM: "distinct (table_names ?M)" using d by simp
  have aM: "general_purpose dia applications_table \<in> set ?M" using t(2,5) by force
  have "on_table ''run_trajectories'' (add_column skills_used_column) ?S = Inr ?M"
    using on_table_update [OF d t(1,3), of "add_column skills_used_column"] t(7) by simp
  moreover have "on_table ''applications'' (add_index active_index) ?M = Inr (schema_0005 dia)"
    using on_table_update [OF dM aM t(5), of "add_index active_index"] t(8) by (simp add: schema_0005_def)
  moreover have "on_table ''applications'' (remove_index ''uq_app_active_job'') (schema_0005 dia) = Inr ?M"
    using on_table_undo [OF dM aM t(5,6), of "remove_index ''uq_app_active_job''"] remove_added_index [OF t(8)]
    by (simp add: schema_0005_def active_index_def)
  moreover have "on_table ''run_trajectories'' (remove_column ''skills_used'') ?M = Inr ?S"
    using on_table_undo [OF d t(1,3,4), of "remove_column ''skills_used''"] remove_added_column [OF t(7)]
    by (simp add: skills_used_column_def)
  ultimately show ?thesis by (simp add: upgrade_0005_def downgrade_0005_def)
qed

lemma run_0006:
  "run_ddl upgrade_0006 (schema_0005 dia) = Inr (head_schema dia) \<and> run_ddl downgrade_0006 (head_schema dia) = Inr (schema_0005 dia)
    \<and> fk_closed (head_schema dia)"
proof -
  have "table_names (schema_0005 dia) = table_names schema_0003"
    using schema_0005_shape(1) schema_0004_facts(1) by (simp add: table_names_def)
  then have ok: "tables_ok (table_names (schema_0005 dia)) tables_0006" using tables_fit(4) by (simp add: schema_0003_def)
  have cl: "fk_closed (schema_0005 dia)" using closed_shape [OF schema_0005_shape] schema_0004_facts(3) by simp
  show ?thesis
    using run_create_all [OF ok, of "[]"] run_drop_all [OF ok cl, of "[]"] tables_ok_closed [OF ok cl]
    by (simp add: upgrade_0006_def downgrade_mirrors head_schema_def)
qed

lemma run_downgrades:
  "run_ddl downgrade_0003 (schema_0004 dia) = Inr (map (general_purpose dia) (tables_0001 @ tables_0002))"
  "run_ddl downgrade_0002 (map (general_purpose dia) (tables_0001 @ tables_0002)) = Inr (map (general_purpose dia) tables_0001)"
  "run_ddl downgrade_0001 (map (general_purpose dia) tables_0001) = Inr []"
  "run_ddl downgrade_0003 schema_0003 = Inr (tables_0001 @ tables_0002)"
  "run_ddl downgrade_0002 (tables_0001 @ tables_0002) = Inr tables_0001" "run_ddl downgrade_0001 tables_0001 = Inr []"
proof -
  have down: "run_ddl (concat (map drop_ops (rev ts))) (map h s @ map h ts) = Inr (map h s)"
    if "keeps_shape h" "tables_ok [] (s @ ts)" for h s ts
  proof -
    note k = keeps_shape_map [OF that(1)]
    have ok: "tables_ok [] (map h s)" "tables_ok (table_names (map h s)) (map h ts)" using that(2) by (simp_all add: tables_ok_append k)
    have "fk_closed (map h s)" using tables_ok_closed [of "[]" "map h s"] ok(1) by (simp add: fk_closed_def)
    have "map drop_ops (rev (map h ts)) = map drop_ops (rev ts)" unfolding rev_map [symmetric] k(3) by (rule refl)
    with run_drop_all [OF ok(2) \<open>fk_closed (map h s)\<close>, of "[]"] show ?thesis by simp
  qed
  have ok: "tables_ok [] (tables_0001 @ tables_0002 @ tables_0003)" "tables_ok [] (tables_0001 @ tables_0002)" "tables_ok [] tables_0001"
    using tables_fit by (simp_all add: tables_ok_append)
  have ident: "keeps_shape (\<lambda>t. t)" by (simp add: keeps_shape_def)
  note g = down [OF general_purpose_keeps [of dia]] and i = down [OF ident]
  show "run_ddl downgrade_0003 (schema_0004 dia) = Inr (map (general_purpose dia) (tables_0001 @ tables_0002))"
    "run_ddl downgrade_0002 (map (general_purpose dia) (tables_0001 @ tables_0002)) = Inr (map (general_purpose dia) tables_0001)"
    "run_ddl downgrade_0001 (map (general_purpose dia) tables_0001) = Inr []"
    "run_ddl downgrade_0003 schema_0003 = Inr (tables_0001 @ tables_0002)"
    "run_ddl downgrade_0002 (tables_0001 @ tables_0002) = Inr tables_0001" "run_ddl downgrade_0001 tables_0001 = Inr []"
    using g [of "tables_0001 @ tables_0002" tables_0003] g [of tables_0001 tables_0002] g [of "[]" tables_0001]
      i [of "tables_0001 @ tables_0002" tables_0003] i [of tables_0001 tables_0002] i [of "[]" tables_0001] ok
    by (simp_all add: downgrade_mirrors schema_0003_def schema_0004_def)
qed

lemma upgrade_head_runs: "upgrade_head dia [] = Inr (head_schema dia)"
  using run_upgrades(1-3) run_upgrades(4) [of dia] run_0005 [of dia] run_0006 [of dia]
  by (simp add: migrations_def upgrade_head_def run_ddl_append)


section \<open>The uniqueness constraints of the schema\<close>

text \<open>Of a table: its primary key, its unique constraints and its unique indexes, each with the columns and the WHERE.\<close>

type_synonym unique_key = "str \<times> str list \<times> str option"

definition unique_keys :: "table \<Rightarrow> unique_key list" where
  "unique_keys t = (tb_name t, tb_pk t, None) # map (\<lambda>(_, cols). (tb_name t, cols, None)) (tb_uniques t)
     @ map (\<lambda>i. (tb_name t, ix_columns i, ix_where i)) (filter ix_unique (tb_indexes t))"

definition schema_keys :: "schema \<Rightarrow> unique_key list" where
  "schema_keys s = concat (map unique_keys s)"

datatype sql_value = SqlText str | SqlInt int | SqlNone

definition sql_row :: "(str \<times> sql_value) list \<Rightarrow> str \<Rightarrow> sql_value" where
  "sql_row vs c = (case map_of vs c of None \<Rightarrow> SqlNone | Some v \<Rightarrow> v)"

text \<open>The rows of a table of the model, with the columns of its constraints.\<close>

definition sql_rows :: "db \<Rightarrow> str \<Rightarrow> (str \<Rightarrow> sql_value) list" where
  "sql_rows d t =
     (if t = ''users'' then map (\<lambda>r. sql_row [(''id'', SqlText (u_id r)), (''email'', SqlText (u_email r))]) (users d)
      else if t = ''jobs'' then map (\<lambda>r. sql_row [(''id'', SqlText (j_id r)), (''user_id'', SqlText (j_user r)),
        (''platform'', SqlText (j_platform r)), (''platform_job_id'', SqlText (j_platform_job_id r))]) (jobs d)
      else if t = ''resumes'' then map (\<lambda>r. sql_row [(''id'', SqlText (r_id r))]) (resumes d)
      else if t = ''applications'' then map (\<lambda>r. sql_row [(''id'', SqlText (a_id r)), (''user_id'', SqlText (a_user r)),
        (''job_id'', SqlText (a_job r)), (''status'', SqlText (status_value (a_status r)))]) (applications d)
      else if t = ''refresh_tokens'' then map (\<lambda>r. sql_row [(''id'', SqlText (rt_id r))]) (refresh_tokens d)
      else if t = ''password_reset_tokens'' then map (\<lambda>r. sql_row [(''id'', SqlText (pr_id r))]) (reset_tokens d)
      else if t = ''user_credentials'' then map (\<lambda>r. sql_row [(''user_id'', SqlText (uc_user r)),
        (''kind'', SqlText (uc_kind r)), (''provider'', SqlText (uc_provider r))]) (credentials d)
      else if t = ''platform_sessions'' then map (\<lambda>r. sql_row [(''user_id'', SqlText (ps_user r)),
        (''platform'', SqlText (ps_platform r))]) (platform_sessions d)
      else if t = ''domain_skills'' then map (\<lambda>r. sql_row [(''id'', SqlText (sk_id r)), (''domain'', SqlText (sk_domain r)),
        (''version'', SqlInt (sk_version r))]) (domain_skills d)
      else if t = ''user_llm_configs'' then map (\<lambda>r. sql_row [(''user_id'', SqlText (lc_user r))]) (llm_configs d)
      else if t = ''user_settings'' then map (\<lambda>r. sql_row [(''user_id'', SqlText (us_user r))]) (settings_rows d)
      else [])"

definition where_true :: "str option \<Rightarrow> (str \<Rightarrow> sql_value) \<Rightarrow> bool" where
  "where_true w r \<longleftrightarrow> (case w of None \<Rightarrow> True
     | Some x \<Rightarrow> x = ACTIVE_WHERE \<longrightarrow> r ''status'' \<notin> {SqlText ''rejected'', SqlText ''withdrawn'', SqlText ''failed''})"

definition key_holds :: "db \<Rightarrow> unique_key \<Rightarrow> bool" where
  "key_holds d k = (case k of (t, cols, w) \<Rightarrow> distinct (map (\<lambda>r. map r cols) (filter (where_true w) (sql_rows d t))))"

text \<open>The tables whose generated ids the model does not compare.\<close>

definition SURROGATES :: "str list" where
  "SURROGATES = [''llm_usage'', ''user_credentials'', ''user_llm_configs'', ''platform_sessions'', ''system_issues'',
     ''run_trajectories'', ''skill_feedback'', ''run_diagnoses'', ''run_verdicts'']"

definition checked_keys :: "schema \<Rightarrow> unique_key list" where
  "checked_keys s = filter (\<lambda>(t, cols, w). \<not> (cols = [''id''] \<and> t \<in> set SURROGATES)) (schema_keys s)"

lemma unique_keys_general: "unique_keys (general_purpose dia t) = unique_keys t"
  by (simp add: unique_keys_def general_purpose_def add_value_table_def)

lemma tables_0005_keys:
  "unique_keys (trajectories_0005 dia) = unique_keys run_trajectories_table"
  "unique_keys (applications_0005 dia) = unique_keys applications_table @ [(''applications'', [''user_id'', ''job_id''], Some ACTIVE_WHERE)]"
proof -
  note k = keeps_shape_simps [OF general_purpose_keeps]
  have pk: "tb_pk (general_purpose dia t) = tb_pk t" "tb_uniques (general_purpose dia t) = tb_uniques t" for t
    by (simp_all add: general_purpose_def add_value_table_def)
  show "unique_keys (trajectories_0005 dia) = unique_keys run_trajectories_table"
    by (simp add: unique_keys_def trajectories_0005_def k pk)
  show "unique_keys (applications_0005 dia) = unique_keys applications_table @ [(''applications'', [''user_id'', ''job_id''], Some ACTIVE_WHERE)]"
    by (simp add: unique_keys_def applications_0005_def k pk) (simp add: active_index_def applications_table_def)
qed

lemma table_name_simps:
  "tb_name users_table = ''users''" "tb_name jobs_table = ''jobs''" "tb_name llm_usage_table = ''llm_usage''"
  "tb_name refresh_tokens_table = ''refresh_tokens''" "tb_name user_credentials_table = ''user_credentials''" "tb_name user_llm_configs_table = ''user_llm_configs''"
  "tb_name user_settings_table = ''user_settings''" "tb_name resumes_table = ''resumes''" "tb_name applications_table = ''applications''"
  "tb_name platform_sessions_table = ''platform_sessions''" "tb_name domain_skills_table = ''domain_skills''" "tb_name system_issues_table = ''system_issues''"
  "tb_name run_trajectories_table = ''run_trajectories''" "tb_name skill_feedback_table = ''skill_feedback''" "tb_name run_diagnoses_table = ''run_diagnoses''"
  "tb_name run_verdicts_table = ''run_verdicts''" "tb_name password_reset_tokens_table = ''password_reset_tokens''"
  by (simp_all add: table_defs)

lemma head_keys:
  "schema_keys (head_schema dia) = concat (map unique_keys tables_0001) @ [(''applications'', [''user_id'', ''job_id''], Some ACTIVE_WHERE)]
     @ concat (map unique_keys (tables_0002 @ tables_0003 @ tables_0006))"
proof -
  have n: "tb_name (general_purpose dia t) = tb_name t" for t using keeps_shape_simps [OF general_purpose_keeps] by blast
  show ?thesis
    unfolding head_schema_def schema_0005_def schema_0004_def schema_0003_def tables_0001_def tables_0002_def tables_0003_def schema_keys_def
    by (simp add: n table_name_simps unique_keys_general tables_0005_keys tables_0005)
qed

lemma unique_keys_tables:
  "unique_keys users_table = [(''users'', [''id''], None), (''users'', [''email''], None)]"
  "unique_keys jobs_table = [(''jobs'', [''id''], None), (''jobs'', [''user_id'', ''platform'', ''platform_job_id''], None)]"
  "unique_keys llm_usage_table = [(''llm_usage'', [''id''], None)]"
  "unique_keys refresh_tokens_table = [(''refresh_tokens'', [''id''], None)]"
  "unique_keys user_credentials_table = [(''user_credentials'', [''id''], None), (''user_credentials'', [''user_id'', ''kind'', ''provider''], None)]"
  "unique_keys user_llm_configs_table = [(''user_llm_configs'', [''id''], None), (''user_llm_configs'', [''user_id''], None)]"
  "unique_keys user_settings_table = [(''user_settings'', [''user_id''], None)]"
  "unique_keys resumes_table = [(''resumes'', [''id''], None)]"
  "unique_keys applications_table = [(''applications'', [''id''], None)]"
  "unique_keys platform_sessions_table = [(''platform_sessions'', [''id''], None), (''platform_sessions'', [''user_id'', ''platform''], None)]"
  "unique_keys domain_skills_table = [(''domain_skills'', [''id''], None), (''domain_skills'', [''domain'', ''version''], None)]"
  "unique_keys system_issues_table = [(''system_issues'', [''id''], None)]"
  "unique_keys run_trajectories_table = [(''run_trajectories'', [''id''], None)]"
  "unique_keys skill_feedback_table = [(''skill_feedback'', [''id''], None)]"
  "unique_keys run_diagnoses_table = [(''run_diagnoses'', [''id''], None)]"
  "unique_keys run_verdicts_table = [(''run_verdicts'', [''id''], None)]"
  "unique_keys password_reset_tokens_table = [(''password_reset_tokens'', [''id''], None)]"
  by (simp_all add: unique_keys_def table_defs)

lemma checked_keys_head:
  "checked_keys (head_schema dia) = [
     (''users'', [''id''], None),
     (''users'', [''email''], None),
     (''jobs'', [''id''], None),
     (''jobs'', [''user_id'', ''platform'', ''platform_job_id''], None),
     (''refresh_tokens'', [''id''], None),
     (''user_credentials'', [''user_id'', ''kind'', ''provider''], None),
     (''user_llm_configs'', [''user_id''], None),
     (''user_settings'', [''user_id''], None),
     (''resumes'', [''id''], None),
     (''applications'', [''id''], None),
     (''applications'', [''user_id'', ''job_id''], Some ACTIVE_WHERE),
     (''platform_sessions'', [''user_id'', ''platform''], None),
     (''domain_skills'', [''id''], None),
     (''domain_skills'', [''domain'', ''version''], None),
     (''password_reset_tokens'', [''id''], None)]"
  unfolding checked_keys_def head_keys tables_0001_def tables_0002_def tables_0003_def tables_0006_def
  by (simp add: unique_keys_tables SURROGATES_def)

lemma distinct_map_same:
  assumes "\<And>x y. f x = f y \<longleftrightarrow> g x = g y"
  shows "distinct (map f xs) \<longleftrightarrow> distinct (map g xs)"
proof -
  have "f x \<in> f ` set ys \<longleftrightarrow> g x \<in> g ` set ys" for x ys using assms by (auto simp: image_iff)
  then show ?thesis by (induction xs) auto
qed

lemma where_active: "where_true (Some ACTIVE_WHERE) (sql_row [(''id'', SqlText (a_id a)), (''user_id'', SqlText (a_user a)),
    (''job_id'', SqlText (a_job a)), (''status'', SqlText (status_value (a_status a)))]) \<longleftrightarrow> is_active_app a"
  by (cases "a_status a") (simp_all add: where_true_def sql_row_def is_active_app_def terminal_states_def)

lemma filter_where_none [simp]: "filter (where_true None) xs = xs"
  by (simp add: where_true_def [abs_def])

lemma key_holds_tables:
  "key_holds d (''users'', [''id''], None) \<longleftrightarrow> distinct (map u_id (users d))"
  "key_holds d (''users'', [''email''], None) \<longleftrightarrow> distinct (map u_email (users d))"
  "key_holds d (''jobs'', [''id''], None) \<longleftrightarrow> distinct (map j_id (jobs d))"
  "key_holds d (''jobs'', [''user_id'', ''platform'', ''platform_job_id''], None)
     \<longleftrightarrow> distinct (map (\<lambda>j. (j_user j, j_platform j, j_platform_job_id j)) (jobs d))"
  "key_holds d (''refresh_tokens'', [''id''], None) \<longleftrightarrow> distinct (map rt_id (refresh_tokens d))"
  "key_holds d (''user_credentials'', [''user_id'', ''kind'', ''provider''], None)
     \<longleftrightarrow> distinct (map (\<lambda>c. (uc_user c, uc_kind c, uc_provider c)) (credentials d))"
  "key_holds d (''user_llm_configs'', [''user_id''], None) \<longleftrightarrow> distinct (map lc_user (llm_configs d))"
  "key_holds d (''user_settings'', [''user_id''], None) \<longleftrightarrow> distinct (map us_user (settings_rows d))"
  "key_holds d (''resumes'', [''id''], None) \<longleftrightarrow> distinct (map r_id (resumes d))"
  "key_holds d (''applications'', [''id''], None) \<longleftrightarrow> distinct (map a_id (applications d))"
  "key_holds d (''platform_sessions'', [''user_id'', ''platform''], None)
     \<longleftrightarrow> distinct (map (\<lambda>s. (ps_user s, ps_platform s)) (platform_sessions d))"
  "key_holds d (''domain_skills'', [''id''], None) \<longleftrightarrow> distinct (map sk_id (domain_skills d))"
  "key_holds d (''domain_skills'', [''domain'', ''version''], None)
     \<longleftrightarrow> distinct (map (\<lambda>s. (sk_domain s, sk_version s)) (domain_skills d))"
  "key_holds d (''password_reset_tokens'', [''id''], None) \<longleftrightarrow> distinct (map pr_id (reset_tokens d))"
  by (simp_all add: key_holds_def sql_rows_def comp_def sql_row_def, (rule distinct_map_same; simp)+)

lemma key_holds_active:
  "key_holds d (''applications'', [''user_id'', ''job_id''], Some ACTIVE_WHERE) \<longleftrightarrow> uq_app_active_job (applications d)"
proof -
  let ?row = "\<lambda>a. sql_row [(''id'', SqlText (a_id a)), (''user_id'', SqlText (a_user a)),
    (''job_id'', SqlText (a_job a)), (''status'', SqlText (status_value (a_status a)))]"
  have "filter (where_true (Some ACTIVE_WHERE)) (map ?row (applications d)) = map ?row (filter is_active_app (applications d))"
    by (simp add: filter_map comp_def where_active)
  then have "key_holds d (''applications'', [''user_id'', ''job_id''], Some ACTIVE_WHERE)
      \<longleftrightarrow> distinct (map (\<lambda>a. map (?row a) [''user_id'', ''job_id'']) (filter is_active_app (applications d)))"
    by (simp add: key_holds_def sql_rows_def comp_def)
  also have "\<dots> \<longleftrightarrow> distinct (map app_key (filter is_active_app (applications d)))"
    by (rule distinct_map_same) (simp add: sql_row_def app_key_def)
  finally show ?thesis by (simp add: uq_app_active_job_def)
qed



end
