(* ===== verification/Startup.thy ===== *)
theory Startup
  imports Migrations Tenant
begin

text \<open>
  The start of the application (\<^verbatim>\<open>main.py\<close>, \<^verbatim>\<open>config/settings.py\<close>): the validators of the settings, the guard
  against insecure production settings, the migrations that the lifespan runs, the access to the metrics, and
  the readiness probe.
\<close>

section \<open>Settings\<close>

datatype environment = DEVELOPMENT | STAGING | PRODUCTION

record app_settings =
  as_environment :: environment
  as_secret_key :: str
  as_cors_origins :: "str list"
  as_storage_provider :: str
  as_url_signing_secret :: str
  as_metrics_token :: str

text \<open>The clamping validators.\<close>

definition validate_temperature :: "real \<Rightarrow> real" where
  "validate_temperature v = max 0 (min 2 v)"

definition validate_max_tokens :: "int \<Rightarrow> int" where
  "validate_max_tokens v = max 1 v"

definition validate_max_parallel :: "int \<Rightarrow> int" where
  "validate_max_parallel v = max 1 (min 5 v)"

definition validate_min_ats_score :: "real \<Rightarrow> real" where
  "validate_min_ats_score v = max 0 (min 1 v)"

definition INSECURE_DEFAULT :: str where
  "INSECURE_DEFAULT = ''dev-insecure-change-me''"

definition production_problems :: "app_settings \<Rightarrow> str list" where
  "production_problems cfg =
     (if as_secret_key cfg \<in> {[], INSECURE_DEFAULT} \<or> length (as_secret_key cfg) < 16
      then [''AUTH__SECRET_KEY must be a strong, non-default secret''] else [])
     @ (if ''*'' \<in> set (as_cors_origins cfg)
        then [''CORS_ORIGINS must not contain '' @ [CHR 39] @ ''*'' @ [CHR 39] @ '' with credentialed CORS''] else [])
     @ (if as_storage_provider cfg = ''local'' \<and> as_url_signing_secret cfg = INSECURE_DEFAULT
        then [''STORAGE__URL_SIGNING_SECRET must be set for local storage''] else [])"

definition validate_production_settings :: "app_settings \<Rightarrow> exn + unit" where
  "validate_production_settings cfg =
     (if as_environment cfg \<noteq> PRODUCTION then Inr ()
      else if production_problems cfg \<noteq> []
      then Inl (RuntimeError (''Invalid production configuration: '' @ join_with ''; '' (production_problems cfg)))
      else Inr ())"

definition metrics_authorized :: "app_settings \<Rightarrow> str option \<Rightarrow> bool" where
  "metrics_authorized cfg authorization \<longleftrightarrow> as_environment cfg \<noteq> PRODUCTION
     \<or> (as_metrics_token cfg \<noteq> [] \<and> or_empty authorization = ''Bearer '' @ as_metrics_token cfg)"

section \<open>Lifespan\<close>

text \<open>
  The migrations from the revision at which the database stands. A failure is logged and the start goes on:
  on PostgreSQL the transaction of the migrations is rolled back, on SQLite, whose DDL Alembic runs outside
  of a transaction, what ran before the failure stays.
\<close>

fun run_ddl_until :: "ddl list \<Rightarrow> schema \<Rightarrow> schema" where
  "run_ddl_until [] s = s"
| "run_ddl_until (x # xs) s = (case apply_ddl x s of Inl _ \<Rightarrow> s | Inr s' \<Rightarrow> run_ddl_until xs s')"

definition run_migrations :: "dialect \<Rightarrow> nat \<Rightarrow> schema \<Rightarrow> schema" where
  "run_migrations dia k s =
     (let ops = concat (map mg_upgrade (drop k (migrations dia)))
      in case run_ddl ops s of
           Inl _ \<Rightarrow> (if dia = Postgresql then s else run_ddl_until ops s)
         | Inr s' \<Rightarrow> s')"

definition lifespan_start :: "app_settings \<Rightarrow> dialect \<Rightarrow> nat \<Rightarrow> (schema, exn, unit) op" where
  "lifespan_start cfg dia k s =
     (case validate_production_settings cfg of Inl e \<Rightarrow> (s, Inl e) | Inr _ \<Rightarrow> (run_migrations dia k s, Inr ()))"

record health =
  hl_status :: str
  hl_db :: bool
  hl_redis :: bool

definition health_check :: "bool \<Rightarrow> bool \<Rightarrow> nat \<times> health" where
  "health_check db_up redis_up =
     (if db_up then 200 else 503,
      \<lparr>hl_status = (if db_up then ''ok'' else ''unavailable''), hl_db = db_up, hl_redis = redis_up\<rparr>)"

section \<open>A safe start\<close>

lemma upgrade_from:
  assumes "k \<le> 6"
  shows "run_ddl (concat (map mg_upgrade (drop k (migrations dia)))) (schemas dia ! k) = Inr (head_schema dia)"
proof -
  have steps: "run_ddl (mg_upgrade (migrations dia ! i)) (schemas dia ! i) = Inr (schemas dia ! Suc i)" if "i \<in> {0, 1, 2, 3, 4, 5}" for i
    using run_upgrades(1-3) run_upgrades(4) [of dia] run_0005 [of dia] run_0006 [of dia] that
    by (auto simp: migrations_def schemas_def)
  have len: "length (migrations dia) = 6" by (simp add: migrations_def)
  show ?thesis
    using assms
  proof (induction rule: inc_induct)
    case base
    then show ?case by (simp add: len schemas_def)
  next
    case (step i)
    then have "i \<in> {0, 1, 2, 3, 4, 5}" by auto
    moreover have "drop i (migrations dia) = migrations dia ! i # drop (Suc i) (migrations dia)"
      using step.hyps len by (simp add: Cons_nth_drop_Suc)
    ultimately show ?case using steps [of i] step.IH by (simp add: run_ddl_append)
  qed
qed


definition production_settings :: app_settings where
  "production_settings = \<lparr>as_environment = PRODUCTION, as_secret_key = ''0123456789abcdef'',
     as_cors_origins = [''https://app.example''], as_storage_provider = ''s3'', as_url_signing_secret = [],
     as_metrics_token = ''t''\<rparr>"


end
