(* ===== verification/S3.thy ===== *)
theory S3
  imports Storage
begin

text \<open>
  The S3 back end (\<^verbatim>\<open>core/storage/s3.py\<close>), the choice of the back end (\<^verbatim>\<open>core/storage/factory.py\<close>) and the
  tenant's facade over it. The client of aioboto3 on the configured bucket is a parameter, with what the code
  relies on in the locale \<open>s3_service\<close>. The loop over the pages of a listing may not end for an arbitrary
  client: not returning is None.
\<close>

section \<open>Choosing the back end\<close>

record storage_settings =
  sc_provider :: str
  sc_local_root :: str
  sc_url_signing_secret :: str
  sc_bucket :: str
  sc_region :: str
  sc_endpoint_url :: str
  sc_access_key_id :: str
  sc_secret_access_key :: str

record s3_storage =
  st_bucket :: str
  st_client_kwargs :: "(str \<times> str) list"

datatype storage_choice = LocalFileStorage str str | S3FileStorage s3_storage

text \<open>The constructor: an option is passed to the client only when it is set.\<close>

definition s3_init :: "str \<Rightarrow> str option \<Rightarrow> str option \<Rightarrow> str option \<Rightarrow> str option \<Rightarrow> s3_storage" where
  "s3_init bucket region endpoint key_id secret =
     \<lparr>st_bucket = bucket,
      st_client_kwargs = [(''service_name'', ''s3'')]
        @ (if truthy region then [(''region_name'', or_empty region)] else [])
        @ (if truthy endpoint then [(''endpoint_url'', or_empty endpoint)] else [])
        @ (if truthy key_id \<and> truthy secret
           then [(''aws_access_key_id'', or_empty key_id), (''aws_secret_access_key'', or_empty secret)] else [])\<rparr>"

definition or_none :: "str \<Rightarrow> str option" where
  "or_none s = (if s = [] then None else Some s)"

definition get_storage :: "storage_settings \<Rightarrow> exn + storage_choice" where
  "get_storage cfg =
     (if sc_provider cfg = ''local'' then Inr (LocalFileStorage (sc_local_root cfg) (sc_url_signing_secret cfg))
      else if sc_provider cfg = ''s3'' then
        Inr (S3FileStorage (s3_init (sc_bucket cfg)
          (if sc_region cfg \<noteq> [] then Some (sc_region cfg) else if sc_endpoint_url cfg \<noteq> [] then Some ''auto'' else None)
          (or_none (sc_endpoint_url cfg)) (or_none (sc_access_key_id cfg)) (or_none (sc_secret_access_key cfg))))
      else Inl (ValueError (''Unknown storage provider: '' @ sc_provider cfg)))"

section \<open>The client and the operations\<close>

datatype s3_error = ClientError str | OtherFailure exn

definition s3_exn :: "s3_error \<Rightarrow> exn" where
  "s3_exn e = (case e of ClientError code \<Rightarrow> OtherError (''ClientError: '' @ code) | OtherFailure x \<Rightarrow> x)"

text \<open>
  The calls on the bucket: a page of a listing is its keys with the token of the next page, a multi-object
  delete answers with the deleted keys and the keys that failed.
\<close>

record 's s3_api =
  put_object :: "str \<Rightarrow> str \<Rightarrow> str \<Rightarrow> 's \<Rightarrow> 's \<times> (s3_error + unit)"
  get_object :: "str \<Rightarrow> 's \<Rightarrow> s3_error + str"
  head_object :: "str \<Rightarrow> 's \<Rightarrow> s3_error + unit"
  delete_object :: "str \<Rightarrow> 's \<Rightarrow> 's \<times> (s3_error + unit)"
  list_page :: "str \<Rightarrow> str option \<Rightarrow> 's \<Rightarrow> s3_error + str list \<times> str option"
  delete_objects :: "str list \<Rightarrow> 's \<Rightarrow> 's \<times> (s3_error + str list \<times> str list)"
  presign :: "(str \<times> str) list \<Rightarrow> nat \<Rightarrow> s3_error + str"

definition s3_put :: "'s s3_api \<Rightarrow> str \<Rightarrow> str \<Rightarrow> str \<Rightarrow> ('s, exn, stored_object) op" where
  "s3_put A key data content_type s =
     (case put_object A key data content_type s of
        (s', Inl e) \<Rightarrow> (s', Inl (s3_exn e))
      | (s', Inr _) \<Rightarrow> (s', Inr \<lparr>so_key = key, so_size = length data, so_content_type = content_type\<rparr>))"

definition s3_get :: "'s s3_api \<Rightarrow> str \<Rightarrow> 's \<Rightarrow> exn + str" where
  "s3_get A key s = map_sum s3_exn id (get_object A key s)"

definition NOT_FOUND_CODES :: "str list" where
  "NOT_FOUND_CODES = [''404'', ''NoSuchKey'', ''NotFound'']"

definition s3_exists :: "'s s3_api \<Rightarrow> str \<Rightarrow> 's \<Rightarrow> exn + bool" where
  "s3_exists A key s =
     (case head_object A key s of
        Inr _ \<Rightarrow> Inr True
      | Inl (ClientError code) \<Rightarrow> if code \<in> set NOT_FOUND_CODES then Inr False else Inl (s3_exn (ClientError code))
      | Inl (OtherFailure x) \<Rightarrow> Inl x)"

definition s3_delete :: "'s s3_api \<Rightarrow> str \<Rightarrow> ('s, exn, unit) op" where
  "s3_delete A key s = map_prod id (map_sum s3_exn id) (delete_object A key s)"

definition delete_page :: "'s s3_api \<Rightarrow> str list \<Rightarrow> 's \<Rightarrow> 's \<times> (s3_error + str list \<times> str list)" where
  "delete_page A ks s = (if ks = [] then (s, Inr ([], [])) else delete_objects A ks s)"

partial_function (option) delete_pages ::
  "'s s3_api \<Rightarrow> str \<Rightarrow> str option \<Rightarrow> nat \<Rightarrow> 's \<Rightarrow> ('s \<times> (exn + nat)) option" where
  "delete_pages A pfx tok deleted s =
     (case list_page A pfx tok s of
        Inl e \<Rightarrow> Some (s, Inl (s3_exn e))
      | Inr page \<Rightarrow>
          (case delete_page A (fst page) s of
             (s', res) \<Rightarrow>
               (case res of
                  Inl e \<Rightarrow> Some (s', Inl (s3_exn e))
                | Inr r \<Rightarrow>
                    (if snd r \<noteq> []
                     then Some (s', Inl (RuntimeError (''delete_prefix: '' @ show_nat (length (snd r)) @ '' object(s) failed'')))
                     else (case snd page of
                             None \<Rightarrow> Some (s', Inr (deleted + length (fst r)))
                           | Some t \<Rightarrow> delete_pages A pfx (Some t) (deleted + length (fst r)) s')))))"

definition s3_delete_prefix :: "'s s3_api \<Rightarrow> str \<Rightarrow> 's \<Rightarrow> ('s \<times> (exn + nat)) option" where
  "s3_delete_prefix A pfx s = delete_pages A pfx None 0 s"

definition s3_url_for :: "'s s3_api \<Rightarrow> s3_storage \<Rightarrow> str \<Rightarrow> nat \<Rightarrow> str option \<Rightarrow> exn + str" where
  "s3_url_for A st key expires_in download_name =
     (let params = [(''Bucket'', st_bucket st), (''Key'', key)]
        @ (if truthy download_name
           then [(''ResponseContentDisposition'', ''attachment; filename='' @ [CHR 34] @ or_empty download_name @ [CHR 34])] else [])
      in map_sum s3_exn id (presign A params expires_in))"

text \<open>The content of the temporary file.\<close>

definition s3_materialize :: "'s s3_api \<Rightarrow> str \<Rightarrow> 's \<Rightarrow> exn + str" where
  "s3_materialize A key s = s3_get A key s"

text \<open>The facade over this back end.\<close>

definition tenant_s3_put :: "'s s3_api \<Rightarrow> str \<Rightarrow> str \<Rightarrow> str \<Rightarrow> str \<Rightarrow> ('s, exn, stored_object) op" where
  "tenant_s3_put A u key data content_type s =
     (case tenant_check u key of Inl e \<Rightarrow> (s, Inl e) | Inr k \<Rightarrow> s3_put A k data content_type s)"

definition tenant_s3_get :: "'s s3_api \<Rightarrow> str \<Rightarrow> str \<Rightarrow> 's \<Rightarrow> exn + str" where
  "tenant_s3_get A u key s = (case tenant_check u key of Inl e \<Rightarrow> Inl e | Inr k \<Rightarrow> s3_get A k s)"

definition tenant_s3_delete :: "'s s3_api \<Rightarrow> str \<Rightarrow> str \<Rightarrow> ('s, exn, unit) op" where
  "tenant_s3_delete A u key s = (case tenant_check u key of Inl e \<Rightarrow> (s, Inl e) | Inr k \<Rightarrow> s3_delete A k s)"

definition tenant_s3_delete_prefix :: "'s s3_api \<Rightarrow> str \<Rightarrow> str \<Rightarrow> 's \<Rightarrow> ('s \<times> (exn + nat)) option" where
  "tenant_s3_delete_prefix A u pfx s =
     (case tenant_check u pfx of Inl e \<Rightarrow> Some (s, Inl e) | Inr k \<Rightarrow> s3_delete_prefix A k s)"

section \<open>What the service promises\<close>

text \<open>
  \<open>objs\<close> is the bucket's content, \<open>after\<close> the keys that the pages from a token on list, \<open>up\<close> that the service
  answers. A failed call has taken effect or not; a page lists keys of the prefix and every other one is in
  the pages after it; every key of a multi-object delete is reported once.
\<close>

locale s3_service =
  fixes A :: "'s s3_api"
    and objs :: "'s \<Rightarrow> str \<Rightarrow> str option"
    and after :: "str option \<Rightarrow> str \<Rightarrow> bool"
    and up :: "'s \<Rightarrow> bool"
  assumes finite_objs: "finite (dom (objs s))"
    and after_start: "after None k"
    and put_ok: "put_object A k v ct s = (s', Inr ()) \<Longrightarrow> objs s' = (objs s)(k \<mapsto> v)"
    and put_failed: "put_object A k v ct s = (s', Inl e) \<Longrightarrow> objs s' = objs s \<or> objs s' = (objs s)(k \<mapsto> v)"
    and put_up: "up s \<Longrightarrow> \<exists>s'. put_object A k v ct s = (s', Inr ()) \<and> up s'"
    and get_stored: "get_object A k s = Inr v \<Longrightarrow> objs s k = Some v"
    and get_up: "up s \<Longrightarrow> objs s k = Some v \<Longrightarrow> get_object A k s = Inr v"
    and head_present: "head_object A k s = Inr () \<Longrightarrow> objs s k \<noteq> None"
    and head_absent: "head_object A k s = Inl (ClientError c) \<Longrightarrow> c \<in> set NOT_FOUND_CODES \<Longrightarrow> objs s k = None"
    and head_up: "up s \<Longrightarrow> head_object A k s = Inr () \<or> (\<exists>c \<in> set NOT_FOUND_CODES. head_object A k s = Inl (ClientError c))"
    and delete_ok: "delete_object A k s = (s', Inr ()) \<Longrightarrow> objs s' = (objs s)(k := None)"
    and delete_failed: "delete_object A k s = (s', Inl e) \<Longrightarrow> objs s' = objs s \<or> objs s' = (objs s)(k := None)"
    and delete_up: "up s \<Longrightarrow> \<exists>s'. delete_object A k s = (s', Inr ()) \<and> up s'"
    and list_found: "list_page A p tok s = Inr (ks, nt) \<Longrightarrow>
      distinct ks \<and> (\<forall>k \<in> set ks. objs s k \<noteq> None \<and> has_prefix k p \<and> after tok k)"
    and list_rest: "list_page A p tok s = Inr (ks, nt) \<Longrightarrow> objs s k \<noteq> None \<Longrightarrow> has_prefix k p \<Longrightarrow> after tok k
      \<Longrightarrow> k \<in> set ks \<or> (\<exists>t. nt = Some t \<and> after (Some t) k)"
    and list_next: "list_page A p tok s = Inr (ks, Some t) \<Longrightarrow> ks \<noteq> [] \<and> (after (Some t) k \<longrightarrow> after tok k)"
    and list_up: "up s \<Longrightarrow> \<exists>page. list_page A p tok s = Inr page"
    and bulk_ok: "distinct ks \<Longrightarrow> delete_objects A ks s = (s', Inr (ds, es)) \<Longrightarrow>
      mset ds + mset es = mset ks \<and> objs s' = objs s |` (- set ds)"
    and bulk_failed: "delete_objects A ks s = (s', Inl e) \<Longrightarrow> \<exists>D. D \<subseteq> set ks \<and> objs s' = objs s |` (- D)"
    and bulk_up: "up s \<Longrightarrow> distinct ks \<Longrightarrow> \<exists>s' ds. delete_objects A ks s = (s', Inr (ds, [])) \<and> up s'"
begin

lemma delete_page_ok:
  assumes "distinct ks" and "delete_page A ks s = (s', Inr (ds, es))"
  shows "mset ds + mset es = mset ks \<and> objs s' = objs s |` (- set ds)"
  using assms bulk_ok [OF assms(1), of s s' ds es] by (auto simp: delete_page_def split: if_splits)

lemma delete_page_failed:
  "delete_page A ks s = (s', Inl e) \<Longrightarrow> \<exists>D. D \<subseteq> set ks \<and> objs s' = objs s |` (- D)"
  using bulk_failed by (auto simp: delete_page_def split: if_splits)

lemma delete_page_up:
  "up s \<Longrightarrow> distinct ks \<Longrightarrow> \<exists>s' ds. delete_page A ks s = (s', Inr (ds, [])) \<and> up s'"
  using bulk_up by (auto simp: delete_page_def)

text \<open>The keys of a prefix, and what one page without errors leaves of them.\<close>

lemma page_deleted:
  assumes "list_page A p tok s = Inr (ks, nt)" and "delete_page A ks s = (s', Inr (ds, []))"
  shows "distinct ks \<and> set ks \<subseteq> {k \<in> dom (objs s). has_prefix k p} \<and> length ds = card (set ks)
    \<and> objs s' = objs s |` (- set ks)"
proof -
  have d: "distinct ks" "set ks \<subseteq> {k \<in> dom (objs s). has_prefix k p}" using list_found [OF assms(1)] by auto
  have m: "mset ds = mset ks" "objs s' = objs s |` (- set ds)" using delete_page_ok [OF d(1) assms(2)] by simp_all
  have "length ds = card (set ks)" using d(1) m(1) by (metis distinct_card mset_eq_length)
  moreover have "set ds = set ks" using m(1) by (rule mset_eq_setD)
  ultimately show ?thesis using d m(2) by simp
qed

lemma count_page:
  assumes "set ks \<subseteq> {k \<in> dom (objs s). has_prefix k p}" and "objs s' = objs s |` (- set ks)"
  shows "card {k \<in> dom (objs s). has_prefix k p} = card (set ks) + card {k \<in> dom (objs s'). has_prefix k p}"
    and "card (dom (objs s)) = card (set ks) + card (dom (objs s'))"
proof -
  have d: "dom (objs s') = dom (objs s) - set ks" using assms(2) by auto
  have "{k \<in> dom (objs s). has_prefix k p} = set ks \<union> {k \<in> dom (objs s'). has_prefix k p}" using assms(1) d by auto
  then show "card {k \<in> dom (objs s). has_prefix k p} = card (set ks) + card {k \<in> dom (objs s'). has_prefix k p}"
    using d finite_objs [of s'] by (simp add: card_Un_disjoint disjoint_iff)
  have "set ks \<union> dom (objs s') = dom (objs s)" using assms(1) d by auto
  moreover have "card (set ks \<union> dom (objs s')) = card (set ks) + card (dom (objs s'))"
    using d finite_objs [of s'] by (intro card_Un_disjoint) auto
  ultimately show "card (dom (objs s)) = card (set ks) + card (dom (objs s'))" by simp
qed

definition deletes_prefix :: "str \<Rightarrow> nat \<Rightarrow> 's \<Rightarrow> 's \<Rightarrow> exn + nat \<Rightarrow> bool" where
  "deletes_prefix p d s s' r \<longleftrightarrow> (\<exists>D. (\<forall>k \<in> D. has_prefix k p) \<and> objs s' = objs s |` (- D))
    \<and> (\<forall>n. r = Inr n \<longrightarrow> objs s' = objs s |` {k. \<not> has_prefix k p} \<and> n = d + card {k \<in> dom (objs s). has_prefix k p})
    \<and> (up s \<longrightarrow> (\<exists>n. r = Inr n) \<and> up s')"

lemma page_failed:
  assumes "list_page A p tok s = Inr (ks, nt)" and "delete_page A ks s = (s', res)" and "\<nexists>ds. res = Inr (ds, [])"
  shows "\<not> up s \<and> (\<exists>D. (\<forall>k \<in> D. has_prefix k p) \<and> objs s' = objs s |` (- D))"
proof -
  have ks: "distinct ks" "\<forall>k \<in> set ks. has_prefix k p" using list_found [OF assms(1)] by auto
  obtain D where "D \<subseteq> set ks" "objs s' = objs s |` (- D)"
  proof (cases res)
    case (Inl e)
    then show ?thesis using delete_page_failed [of ks s s' e] assms(2) that by blast
  next
    case (Inr r)
    have m: "mset (fst r) + mset (snd r) = mset ks" "objs s' = objs s |` (- set (fst r))"
      using delete_page_ok [OF ks(1), of s s' "fst r" "snd r"] assms(2) Inr by simp_all
    have "set (fst r) \<subseteq> set ks" by (metis m(1) set_mset_mset set_mset_union Un_upper1)
    then show ?thesis using m(2) that by blast
  qed
  moreover have "\<not> up s" using delete_page_up [OF _ ks(1)] assms(2,3) by force
  ultimately show ?thesis using ks(2) by blast
qed

lemma deletes_after_page:
  assumes "list_page A p tok s = Inr (ks, nt)" and "delete_page A ks s = (s', Inr (ds, []))"
    and "deletes_prefix p (d + length ds) s' s2 r"
  shows "deletes_prefix p d s s2 r"
proof -
  have ks: "distinct ks" "\<forall>k \<in> set ks. has_prefix k p" using list_found [OF assms(1)] by auto
  note pd = page_deleted [OF assms(1,2)]
  note cp = count_page [OF conjunct1 [OF conjunct2 [OF pd]], of s']
  obtain D where D: "\<forall>k \<in> D. has_prefix k p" "objs s2 = objs s' |` (- D)" using assms(3) unfolding deletes_prefix_def by blast
  have "objs s2 = objs s |` (- (set ks \<union> D))" using D(2) pd by (auto simp: restrict_map_def fun_eq_iff)
  moreover have "\<forall>k \<in> set ks \<union> D. has_prefix k p" using D(1) ks(2) by blast
  ultimately have a: "\<exists>D. (\<forall>k \<in> D. has_prefix k p) \<and> objs s2 = objs s |` (- D)" by blast
  have b: "objs s2 = objs s |` {k. \<not> has_prefix k p} \<and> m = d + card {k \<in> dom (objs s). has_prefix k p}" if "r = Inr m" for m
  proof -
    have m: "objs s2 = objs s' |` {k. \<not> has_prefix k p}" "m = d + length ds + card {k \<in> dom (objs s'). has_prefix k p}"
      using assms(3) that unfolding deletes_prefix_def by simp_all
    have "objs s2 = objs s |` {k. \<not> has_prefix k p}" using m(1) pd ks(2) by (auto simp: restrict_map_def fun_eq_iff)
    then show ?thesis using m(2) cp(1) pd by simp
  qed
  have "up s \<longrightarrow> up s'" using delete_page_up [OF _ ks(1)] assms(2) by fastforce
  then show ?thesis using a b assms(3) unfolding deletes_prefix_def by blast
qed

lemma deletes_last_page:
  assumes "list_page A p tok s = Inr (ks, None)" and "delete_page A ks s = (s', Inr (ds, []))"
    and "\<And>k. objs s k \<noteq> None \<Longrightarrow> has_prefix k p \<Longrightarrow> after tok k"
  shows "deletes_prefix p d s s' (Inr (d + length ds))"
proof -
  have ks: "distinct ks" "\<forall>k \<in> set ks. has_prefix k p" using list_found [OF assms(1)] by auto
  note pd = page_deleted [OF assms(1,2)]
  have all: "{k \<in> dom (objs s). has_prefix k p} = set ks" using list_rest [OF assms(1)] assms(3) pd by auto
  then have "objs s' = objs s |` {k. \<not> has_prefix k p}" using pd by (auto simp: restrict_map_def fun_eq_iff)
  moreover have "up s \<longrightarrow> up s'" using delete_page_up [OF _ ks(1)] assms(2) by fastforce
  ultimately show ?thesis using pd ks(2) all by (auto simp: deletes_prefix_def)
qed

text \<open>
  The loop ends: every page with a successor deletes an object, and the keys that are left are after the
  token.
\<close>

lemma delete_pages_returns:
  assumes "card (dom (objs s)) < n" and "\<And>k. objs s k \<noteq> None \<Longrightarrow> has_prefix k p \<Longrightarrow> after tok k"
  shows "\<exists>s' r. delete_pages A p tok d s = Some (s', r) \<and> deletes_prefix p d s s' r"
  using assms
proof (induction n arbitrary: s tok d)
  case (Suc n)
  have none: "\<exists>D. (\<forall>k \<in> D. has_prefix k p) \<and> objs s = objs s |` (- D)" by (rule exI [of _ "{}"]) (simp add: restrict_map_def)
  show ?case
  proof (cases "list_page A p tok s")
    case (Inl e)
    then have "\<not> up s" using list_up [of s p tok] by auto
    then show ?thesis using none Inl by (subst delete_pages.simps) (simp add: deletes_prefix_def)
  next
    case (Inr page)
    obtain ks nt where page: "page = (ks, nt)" by (cases page)
    note lp = Inr [unfolded page]
    obtain s' res where dp: "delete_page A ks s = (s', res)" by (cases "delete_page A ks s")
    show ?thesis
    proof (cases "\<exists>ds. res = Inr (ds, [])")
      case False
      then have "\<exists>e. delete_pages A p tok d s = Some (s', Inl e)"
        using lp dp by (subst delete_pages.simps) (auto split: sum.split)
      then show ?thesis using page_failed [OF lp dp False] unfolding deletes_prefix_def by auto
    next
      case True
      then obtain ds where ds: "delete_page A ks s = (s', Inr (ds, []))" using dp by blast
      note pd = page_deleted [OF lp ds]
      show ?thesis
      proof (cases nt)
        case None
        then show ?thesis using lp ds deletes_last_page [OF lp [unfolded None] ds Suc.prems(2)]
          by (subst delete_pages.simps) simp
      next
        case (Some t)
        have rest: "after (Some t) k" if "objs s' k \<noteq> None" "has_prefix k p" for k
        proof -
          have k: "objs s k \<noteq> None" "k \<notin> set ks" using that(1) pd by (auto simp: restrict_map_def split: if_splits)
          show ?thesis using list_rest [OF lp k(1) that(2) Suc.prems(2) [OF k(1) that(2)]] k(2) Some by simp
        qed
        have "0 < card (set ks)" using list_next lp Some by (simp add: card_gt_0_iff)
        then have "card (dom (objs s')) < n"
          using count_page(2) [OF conjunct1 [OF conjunct2 [OF pd]], of s'] pd Suc.prems(1) by simp
        from Suc.IH [OF this rest, of "d + length ds"] obtain s2 r where
          run: "delete_pages A p (Some t) (d + length ds) s' = Some (s2, r)" and del: "deletes_prefix p (d + length ds) s' s2 r"
          by blast
        have "delete_pages A p tok d s = Some (s2, r)" using lp ds Some run by (subst delete_pages.simps) simp
        then show ?thesis using deletes_after_page [OF lp ds del] by blast
      qed
    qed
  qed
qed simp

lemma prefix_deleted: "\<exists>s' r. s3_delete_prefix A p s = Some (s', r) \<and> deletes_prefix p 0 s s' r"
  unfolding s3_delete_prefix_def by (rule delete_pages_returns [OF lessI]) (rule after_start)

lemma stored_object:
  assumes "up s"
  shows "\<exists>s1. s3_put A key data ct s = (s1, Inr \<lparr>so_key = key, so_size = length data, so_content_type = ct\<rparr>)
    \<and> objs s1 = (objs s)(key \<mapsto> data) \<and> up s1 \<and> s3_get A key s1 = Inr data"
proof -
  obtain s1 where s1: "put_object A key data ct s = (s1, Inr ())" "up s1" using put_up [OF assms] by blast
  then have o1: "objs s1 = (objs s)(key \<mapsto> data)" using put_ok by blast
  then have "get_object A key s1 = Inr data" using get_up [OF s1(2)] by simp
  then show ?thesis using s1 o1 by (simp add: s3_put_def s3_get_def)
qed

lemma exists_iff:
  "up s \<Longrightarrow> s3_exists A key s = Inr (objs s key \<noteq> None)"
  using head_up [of s key] head_present [of key s] head_absent [of key s]
  by (auto simp: s3_exists_def)

lemma deleted_object:
  "up s \<Longrightarrow> \<exists>s1. s3_delete A key s = (s1, Inr ()) \<and> objs s1 = (objs s)(key := None) \<and> up s1"
  using delete_up [of s key] delete_ok by (force simp: s3_delete_def)

end

section \<open>A tenant's objects\<close>

definition owned_key :: "str \<Rightarrow> str \<Rightarrow> bool" where
  "owned_key u k \<longleftrightarrow> has_prefix k (user_prefix u @ ''/'')"

definition bucket_files :: "('s \<Rightarrow> str \<Rightarrow> str option) \<Rightarrow> str \<Rightarrow> 's \<Rightarrow> (str \<times> str) list" where
  "bucket_files objs u s = map (\<lambda>k. (k, the (objs s k))) (sorted_list_of_set {k \<in> dom (objs s). owned_key u k})"

text \<open>What the deletion of an account does on this back end.\<close>

definition purge_bucket :: "'s s3_api \<Rightarrow> str \<Rightarrow> 's \<Rightarrow> 's \<times> (exn + nat)" where
  "purge_bucket A u s =
     (case tenant_s3_delete_prefix A u (user_prefix u @ ''/'') s of
        None \<Rightarrow> (s, Inl (OtherError ''no answer'')) | Some r \<Rightarrow> r)"

lemma owned_key_unique:
  assumes "simple_id u" and "simple_id v" and "owned_key u k" and "owned_key v k"
  shows "u = v"
proof -
  have slash: "takeWhile (\<lambda>c. c \<noteq> CHR ''/'') (w @ CHR ''/'' # r) = w" if "simple_id w" for w r
    using that by (auto simp: simple_id_def takeWhile_append)
  obtain r r' where "k = user_prefix u @ CHR ''/'' # r" "k = user_prefix v @ CHR ''/'' # r'"
    using assms(3,4) unfolding owned_key_def has_prefix_def
    by (metis append_take_drop_id append.assoc append_Cons append_Nil)
  then have "u @ CHR ''/'' # r = v @ CHR ''/'' # r'" by (simp add: user_prefix_def)
  then show ?thesis using slash [OF assms(1), of r] slash [OF assms(2), of r'] by simp
qed

lemma bucket_files_cong:
  assumes "\<And>k. owned_key u k \<Longrightarrow> objs s' k = objs s k"
  shows "bucket_files objs u s' = bucket_files objs u s"
proof -
  have "{k \<in> dom (objs s'). owned_key u k} = {k \<in> dom (objs s). owned_key u k}" using assms by (auto simp: domIff)
  moreover have "objs s' k = objs s k" if "k \<in> set (sorted_list_of_set {k \<in> dom (objs s). owned_key u k})" for k
  proof (rule assms)
    show "owned_key u k" using that by (cases "finite {k \<in> dom (objs s). owned_key u k}") auto
  qed
  ultimately show ?thesis by (simp add: bucket_files_def)
qed

lemma tenant_root: "tenant_check u (user_prefix u @ ''/'') = Inr (user_prefix u @ ''/'')"
  by (simp add: tenant_check_def)

context s3_service begin

lemma tenant_tree_deleted:
  assumes "simple_id u"
  shows "\<exists>s' r. tenant_s3_delete_prefix A u (user_prefix u @ ''/'') s = Some (s', r)
    \<and> (\<forall>k. \<not> owned_key u k \<longrightarrow> objs s' k = objs s k)
    \<and> (\<forall>v. simple_id v \<longrightarrow> v \<noteq> u \<longrightarrow> bucket_files objs v s' = bucket_files objs v s)
    \<and> (\<forall>n. r = Inr n \<longrightarrow> bucket_files objs u s' = [] \<and> n = length (bucket_files objs u s))
    \<and> (up s \<longrightarrow> (\<exists>n. r = Inr n))"
proof -
  obtain s' r where run: "s3_delete_prefix A (user_prefix u @ ''/'') s = Some (s', r)"
    and del: "deletes_prefix (user_prefix u @ ''/'') 0 s s' r" using prefix_deleted by blast
  obtain D where D: "\<forall>k \<in> D. owned_key u k" "objs s' = objs s |` (- D)"
    using del unfolding deletes_prefix_def owned_key_def by blast
  have other: "objs s' k = objs s k" if "\<not> owned_key u k" for k using D that by (auto simp: restrict_map_def)
  have "bucket_files objs v s' = bucket_files objs v s" if "simple_id v" "v \<noteq> u" for v
    by (rule bucket_files_cong [where objs = objs]) (use other owned_key_unique [OF that(1) assms] that(2) in blast)
  moreover have "bucket_files objs u s' = [] \<and> n = length (bucket_files objs u s)" if "r = Inr n" for n
  proof -
    have "objs s' = objs s |` {k. \<not> owned_key u k}" "n = card {k \<in> dom (objs s). owned_key u k}"
      using del that unfolding deletes_prefix_def owned_key_def by simp_all
    moreover from this(1) have "{k \<in> dom (objs s'). owned_key u k} = {}" by auto
    ultimately show ?thesis by (simp add: bucket_files_def)
  qed
  ultimately show ?thesis using run del other unfolding deletes_prefix_def tenant_s3_delete_prefix_def tenant_root by auto
qed

end

sublocale s3_service \<subseteq> s3_files: user_files "\<lambda>_. True" simple_id "bucket_files objs" "purge_bucket A"
proof
  fix f u f' n assume u: "simple_id u" and p: "purge_bucket A u f = (f', Inr n)"
  show "bucket_files objs u f' = [] \<and> n = length (bucket_files objs u f)"
    using tenant_tree_deleted [OF u, of f] p by (auto simp: purge_bucket_def)
next
  fix f u v assume "simple_id u" "simple_id v" "u \<noteq> v"
  then show "bucket_files objs v (fst (purge_bucket A u f)) = bucket_files objs v f"
    using tenant_tree_deleted [of u f] by (auto simp: purge_bucket_def)
qed simp

section \<open>A bucket in memory\<close>

text \<open>Pages of one key, the token being the last key.\<close>

definition mem_after :: "str option \<Rightarrow> str \<Rightarrow> bool" where
  "mem_after tok k = (case tok of None \<Rightarrow> True | Some t \<Rightarrow> t < k)"

definition mem_keys :: "str \<Rightarrow> str option \<Rightarrow> (str \<times> str) list \<Rightarrow> str list" where
  "mem_keys p tok s = sort (filter (\<lambda>k. has_prefix k p \<and> mem_after tok k) (remdups (map fst s)))"

definition first_page :: "str list \<Rightarrow> str list \<times> str option" where
  "first_page ks = (case ks of [] \<Rightarrow> ([], None) | k # rest \<Rightarrow> ([k], if rest = [] then None else Some k))"

definition mem_s3 :: "(str \<times> str) list s3_api" where
  "mem_s3 = \<lparr>put_object = (\<lambda>k v _ s. ((k, v) # filter (\<lambda>x. fst x \<noteq> k) s, Inr ())),
     get_object = (\<lambda>k s. case map_of s k of None \<Rightarrow> Inl (ClientError ''NoSuchKey'') | Some v \<Rightarrow> Inr v),
     head_object = (\<lambda>k s. if map_of s k = None then Inl (ClientError ''404'') else Inr ()),
     delete_object = (\<lambda>k s. (filter (\<lambda>x. fst x \<noteq> k) s, Inr ())),
     list_page = (\<lambda>p tok s. Inr (first_page (mem_keys p tok s))),
     delete_objects = (\<lambda>ks s. (filter (\<lambda>x. fst x \<notin> set ks) s, Inr (ks, []))),
     presign = (\<lambda>params n. Inr ''https://bucket'')\<rparr>"

lemma set_mem_keys: "set (mem_keys p tok s) = {k \<in> fst ` set s. has_prefix k p \<and> mem_after tok k}"
  by (auto simp: mem_keys_def)

lemma mem_keys_order: "mem_keys p tok s = k # rest \<Longrightarrow> distinct (k # rest) \<and> (\<forall>x \<in> set rest. k < x)"
proof -
  assume e: "mem_keys p tok s = k # rest"
  have "sorted (mem_keys p tok s)" "distinct (mem_keys p tok s)" by (simp_all add: mem_keys_def)
  then show ?thesis unfolding e by (metis distinct.simps(2) order_le_less sorted_wrt.simps(2))
qed

lemma mem_page:
  assumes "first_page (mem_keys p tok s) = (ks, nt)"
  shows "distinct ks \<and> set ks \<subseteq> set (mem_keys p tok s)
    \<and> (\<forall>k \<in> set (mem_keys p tok s). k \<in> set ks \<or> (\<exists>t. nt = Some t \<and> mem_after (Some t) k))
    \<and> (\<forall>t. nt = Some t \<longrightarrow> ks \<noteq> [] \<and> (\<forall>k. mem_after (Some t) k \<longrightarrow> mem_after tok k))"
proof (cases "mem_keys p tok s")
  case (Cons k rest)
  have "mem_after tok k" using set_mem_keys [of p tok s] Cons by auto
  then have "mem_after tok x" if "mem_after (Some k) x" for x
    using that by (auto simp: mem_after_def split: option.splits)
  moreover have "ks = [k] \<and> nt = (if rest = [] then None else Some k)"
    using assms unfolding Cons by (simp add: first_page_def)
  ultimately show ?thesis using mem_keys_order [OF Cons] unfolding Cons by (auto simp: mem_after_def split: if_splits)
qed (use assms in \<open>simp add: first_page_def\<close>)

lemma map_of_filter: "map_of (filter (\<lambda>x. fst x \<notin> D) s) = map_of s |` (- D)"
  by (rule ext) (simp add: map_of_filter_key [of "\<lambda>k. k \<notin> D"] restrict_map_def)

lemma map_of_remove: "map_of (filter (\<lambda>x. fst x \<noteq> k) s) = (map_of s)(k := None)"
  by (rule ext) (simp add: map_of_filter_key [of "\<lambda>x. x \<noteq> k"])

interpretation mem: s3_service mem_s3 map_of mem_after "\<lambda>_. True"
proof
  fix p tok s ks nt k
  assume "list_page mem_s3 p tok s = Inr (ks, nt)"
  then have pg: "first_page (mem_keys p tok s) = (ks, nt)" by (simp add: mem_s3_def)
  show "distinct ks \<and> (\<forall>k \<in> set ks. map_of s k \<noteq> None \<and> has_prefix k p \<and> mem_after tok k)"
    using mem_page [OF pg] unfolding set_mem_keys by (auto simp: map_of_eq_None_iff)
  show "k \<in> set ks \<or> (\<exists>t. nt = Some t \<and> mem_after (Some t) k)"
    if "map_of s k \<noteq> None" "has_prefix k p" "mem_after tok k"
    using mem_page [OF pg] that unfolding set_mem_keys map_of_eq_None_iff by auto
next
  fix p tok s ks t k
  assume "list_page mem_s3 p tok s = Inr (ks, Some t)"
  then show "ks \<noteq> [] \<and> (mem_after (Some t) k \<longrightarrow> mem_after tok k)"
    using mem_page [of p tok s ks "Some t"] by (simp add: mem_s3_def)
qed (auto simp: mem_s3_def finite_dom_map_of mem_after_def map_of_remove map_of_filter NOT_FOUND_CODES_def
    split: option.splits if_splits)

section \<open>Properties\<close>

text \<open>
  C26: hard deletion on S3. For any service that keeps its promises, the deletion of a tenant's tree returns
  after finitely many pages, touches no object outside the tree and so no other tenant's, and when it reports
  success the tree is empty and the number is right; it succeeds whenever the service answers.
\<close>

theorem s3_purge_returns:
  assumes "s3_service A objs after up" and "simple_id u"
  shows "\<exists>s' r. tenant_s3_delete_prefix A u (user_prefix u @ ''/'') s = Some (s', r)
    \<and> (\<forall>k. \<not> owned_key u k \<longrightarrow> objs s' k = objs s k)
    \<and> (\<forall>v. simple_id v \<longrightarrow> v \<noteq> u \<longrightarrow> bucket_files objs v s' = bucket_files objs v s)
    \<and> (\<forall>n. r = Inr n \<longrightarrow> bucket_files objs u s' = [] \<and> n = length (bucket_files objs u s))
    \<and> (up s \<longrightarrow> (\<exists>n. r = Inr n))"
  by (rule s3_service.tenant_tree_deleted [OF assms])

theorem s3_purge_returns_witness:
  "\<exists>s'. tenant_s3_delete_prefix mem_s3 ''u1'' ''users/u1/''
      [(''users/u1/a'', ''x''), (''users/u10/a'', ''y''), (''users/u1/b'', ''z'')] = Some (s', Inr 2)
    \<and> map_of s' ''users/u10/a'' = Some ''y''"
proof -
  let ?s = "[(''users/u1/a'', ''x''), (''users/u10/a'', ''y''), (''users/u1/b'', ''z'')]"
  have u: "simple_id ''u1''" by (simp add: simple_id_def)
  obtain s' n where r: "tenant_s3_delete_prefix mem_s3 ''u1'' (user_prefix ''u1'' @ ''/'') ?s = Some (s', Inr n)"
    "\<forall>k. \<not> owned_key ''u1'' k \<longrightarrow> map_of s' k = map_of ?s k" "n = length (bucket_files map_of ''u1'' ?s)"
    using s3_purge_returns [OF mem.s3_service_axioms u, of ?s] by blast
  have "{k \<in> dom (map_of ?s). owned_key ''u1'' k} = {''users/u1/a'', ''users/u1/b''}"
    by (auto simp: owned_key_def has_prefix_def user_prefix_def)
  then have "n = 2" unfolding r(3) by (simp add: bucket_files_def)
  moreover have "map_of s' ''users/u10/a'' = Some ''y''" using r(2) by (simp add: owned_key_def has_prefix_def user_prefix_def)
  ultimately show ?thesis using r(1) by (simp add: user_prefix_def)
qed



text \<open>
  The bare prefix of a tenant passes the facade's check too, but on S3 it is the prefix of the keys of every
  tenant whose id it begins: the trailing slash of the purge is what protects them.
\<close>

lemma bare_prefix_deletes_others:
  assumes "s3_service A objs after up" and "up s" and "owned_key (u @ w) k" and "tenant_s3_delete_prefix A u (user_prefix u) s = Some (s', r)"
  shows "objs s' k = None"
proof -
  have "has_prefix k (user_prefix u)"
  proof -
    obtain x where "k = user_prefix u @ (w @ ''/'' @ x)"
      using assms(3) unfolding owned_key_def has_prefix_def user_prefix_def by (metis append_take_drop_id append.assoc)
    then show ?thesis by simp
  qed
  moreover have "objs s' = objs s |` {k. \<not> has_prefix k (user_prefix u)}"
    using s3_service.prefix_deleted [OF assms(1), of "user_prefix u" s] assms(2,4)
    by (auto simp: tenant_s3_delete_prefix_def tenant_check_def s3_service.deletes_prefix_def [OF assms(1)])
  ultimately show ?thesis by simp
qed

end
