(* ===== verification/Routes.thy ===== *)
theory Routes
  imports JobSearch Analytics Monitor Auth Account
begin

text \<open>
  The HTTP interface around the services (\<^verbatim>\<open>api/v1/router.py\<close>, \<^verbatim>\<open>api/v1/jobs.py\<close>, \<^verbatim>\<open>api/v1/analytics.py\<close>,
  \<^verbatim>\<open>api/v1/admin.py\<close>, \<^verbatim>\<open>get_tenant_db\<close> of \<^verbatim>\<open>api/deps.py\<close>): the bearer token decides the tenant of the request,
  the guards of the routers come first, then the throttle of a costly route and the bounds of the query
  parameters. The application routes are in Dispatch and Api.
\<close>

record api_env =
  av_crypto :: crypto
  av_production :: bool
  av_nlp :: "nlp option"
  av_day :: "int \<Rightarrow> str"

datatype read_request =
    JobsList nat nat "job_status option"
  | JobsGet str
  | JobsAnalyze str "str option"
  | Dashboard
  | Funnel
  | AtsScores
  | LlmUsage
  | Timeline

datatype read_reply =
    JobListReply job_list_response
  | JobReply job
  | AnalysisReply job_analysis
  | StatsReply dashboard_stats
  | FunnelReply "funnel_data list"
  | BucketsReply "ats_bucket list"
  | UsageReply "llm_usage_stats list"
  | TimelineReply "timeline_entry list"

text \<open>The \<^verbatim>\<open>Query\<close> bounds of the listing.\<close>

definition page_ok :: "nat \<Rightarrow> nat \<Rightarrow> bool" where
  "page_ok page page_size \<longleftrightarrow> 1 \<le> page \<and> 1 \<le> page_size \<and> page_size \<le> 100"

definition unprocessable :: exn where
  "unprocessable = OtherError ''RequestValidationError''"

text \<open>A route in the session of a tenant.\<close>

definition read_route :: "api_env \<Rightarrow> ctx \<Rightarrow> read_request \<Rightarrow> db \<Rightarrow> exn + read_reply" where
  "read_route E c rq d =
     (case rq of
        JobsList page page_size st \<Rightarrow>
          if page_ok page page_size then Inr (JobListReply (list_jobs c page page_size st d)) else Inl unprocessable
      | JobsGet i \<Rightarrow> map_sum id JobReply (get_job c i d)
      | JobsAnalyze i resume_id \<Rightarrow> map_sum id AnalysisReply (analyze_job (av_nlp E) c i resume_id d)
      | Dashboard \<Rightarrow> Inr (StatsReply (get_dashboard_stats c d))
      | Funnel \<Rightarrow> Inr (FunnelReply (get_funnel c d))
      | AtsScores \<Rightarrow> Inr (BucketsReply (get_ats_distribution c d))
      | LlmUsage \<Rightarrow> Inr (UsageReply (get_llm_usage c d))
      | Timeline \<Rightarrow> Inr (TimelineReply (get_timeline (av_day E) c d)))"

text \<open>\<^verbatim>\<open>get_tenant_db\<close>: the session is scoped to the user of the token.\<close>

definition tenant_of :: "user \<Rightarrow> ctx" where
  "tenant_of u = Some (u_id u)"

definition api_read :: "api_env \<Rightarrow> int \<Rightarrow> str \<Rightarrow> read_request \<Rightarrow> db \<Rightarrow> exn + read_reply" where
  "api_read E now token rq d =
     (case get_current_user (av_crypto E) now token d of
        Inl e \<Rightarrow> Inl e
      | Inr u \<Rightarrow> read_route E (tenant_of u) rq d)"

definition api_delete_job :: "api_env \<Rightarrow> int \<Rightarrow> str \<Rightarrow> str \<Rightarrow> (db, exn, unit) op" where
  "api_delete_job E now token i d =
     (case get_current_user (av_crypto E) now token d of
        Inl e \<Rightarrow> (d, Inl e)
      | Inr u \<Rightarrow> delete_job (tenant_of u) i d)"

text \<open>The search, throttled to 30 requests a minute from a client's address.\<close>

definition SEARCH_PATH :: str where "SEARCH_PATH = ''/api/v1/jobs/search''"

definition api_search_jobs ::
  "api_env \<Rightarrow> search_env \<Rightarrow> (nat \<Rightarrow> str) \<Rightarrow> int \<Rightarrow> str \<Rightarrow> str option \<Rightarrow> job_search_request
    \<Rightarrow> ((pworld \<times> db) \<times> redis option, exn, job_list_response) op" where
  "api_search_jobs E S gen now token client rq w =
     (case get_current_user (av_crypto E) now token (snd (fst w)) of
        Inl e \<Rightarrow> (w, Inl e)
      | Inr u \<Rightarrow>
          (case rate_limit (av_production E) 30 60 client SEARCH_PATH (nat now) (snd w) of
             (r, Inl e) \<Rightarrow> ((fst w, r), Inl e)
           | (r, Inr _) \<Rightarrow>
               (case search_jobs S gen rq (u_id u) now (fst w) of (w', found) \<Rightarrow> ((w', r), Inr found))))"

text \<open>The administrators' router has the superuser guard only.\<close>

definition api_system_issues :: "api_env \<Rightarrow> int \<Rightarrow> str \<Rightarrow> str option \<Rightarrow> nat \<Rightarrow> db \<Rightarrow> exn + system_issue list" where
  "api_system_issues E now token st limit d =
     (case get_current_user (av_crypto E) now token d of
        Inl e \<Rightarrow> Inl e
      | Inr u \<Rightarrow> (case require_superuser u of Inl e \<Rightarrow> Inl e | Inr _ \<Rightarrow> Inr (list_system_issues st limit d)))"

section \<open>What a request sees\<close>

definition own_rows :: "str \<Rightarrow> db \<Rightarrow> job list \<times> application list \<times> resume list \<times> llm_usage list" where
  "own_rows u d = (filter (\<lambda>j. j_user j = u) (jobs d), filter (\<lambda>a. a_user a = u) (applications d),
     filter (\<lambda>r. r_user r = u) (resumes d), filter (\<lambda>x. lu_user x = u) (llm_usages d))"

lemma own_rows_select:
  assumes "own_rows u d = own_rows u d'"
  shows "select_rows (Some u) j_user (jobs d) = select_rows (Some u) j_user (jobs d')"
    "select_rows (Some u) a_user (applications d) = select_rows (Some u) a_user (applications d')"
    "select_rows (Some u) r_user (resumes d) = select_rows (Some u) r_user (resumes d')"
    "select_rows (Some u) lu_user (llm_usages d) = select_rows (Some u) lu_user (llm_usages d')"
  using assms by (simp_all add: own_rows_def)

lemma read_route_cong:
  assumes "own_rows u d = own_rows u d'"
  shows "read_route E (Some u) rq d = read_route E (Some u) rq d'"
proof -
  note s = own_rows_select [OF assms]
  have f: "find_row (Some u) j_user j_id i (jobs d) = find_row (Some u) j_user j_id i (jobs d')"
    "find_row (Some u) r_user r_id i (resumes d) = find_row (Some u) r_user r_id i (resumes d')" for i
    unfolding find_row_def s by simp_all
  show ?thesis
    unfolding read_route_def list_jobs_def get_job_def analyze_job_def get_dashboard_stats_def count_status_def
      get_funnel_def get_ats_distribution_def get_llm_usage_def get_timeline_def s f
    by (rule refl)
qed

text \<open>
  C6: the HTTP reads are guarded and isolated. A job, analysis, dashboard or usage request of an authenticated
  user is answered from the user's own rows alone: two databases in which the token belongs to the user and
  the user's rows are the same give the same answer, whatever the other users store. Without a valid token
  nothing is answered or changed, and the system's issues are for superusers only.
\<close>

theorem api_reads_isolated:
  assumes "get_current_user (av_crypto E) now token d = Inr u" and "get_current_user (av_crypto E) now token d' = Inr u'"
    and "own_rows (u_id u) d = own_rows (u_id u) d'" and "u_id u' = u_id u"
  shows "api_read E now token rq d = api_read E now token rq d'
    \<and> (case get_current_user (av_crypto E) now other d of
         Inl e \<Rightarrow> api_read E now other rq d = Inl e \<and> api_delete_job E now other i d = (d, Inl e)
           \<and> api_search_jobs E S gen now other client q ((p, d), r) = (((p, d), r), Inl e)
           \<and> api_system_issues E now other st n d = Inl e
       | Inr v \<Rightarrow> api_system_issues E now other st n d =
           (if u_is_superuser v then Inr (list_system_issues st n d) else Inl (AuthorizationError ''Superuser privileges required'')))"
proof -
  have "api_read E now token rq d = api_read E now token rq d'"
    using assms read_route_cong [OF assms(3)] by (simp add: api_read_def tenant_of_def)
  then show ?thesis
    by (auto simp: api_read_def api_delete_job_def api_search_jobs_def api_system_issues_def require_superuser_def split: sum.split)
qed

definition sample_api :: api_env where
  "sample_api = \<lparr>av_crypto = sample_crypto, av_production = True, av_nlp = None, av_day = (\<lambda>_. ''2026-01-01'')\<rparr>"

theorem api_reads_isolated_witness:
  "api_read sample_api 899 (create_access_token sample_crypto sample_auth 0 ''u1'' None) Dashboard login_db
     = api_read sample_api 899 (create_access_token sample_crypto sample_auth 0 ''u1'' None) Dashboard
         (login_db\<lparr>jobs := [sample_job\<lparr>j_user := ''u2''\<rparr>]\<rparr>)"
proof -
  let ?d = "login_db\<lparr>jobs := [sample_job\<lparr>j_user := ''u2''\<rparr>]\<rparr>"
  have dec: "decode_token sample_crypto 899 (create_access_token sample_crypto sample_auth 0 ''u1'' None) (Some ''access'') =
      Inr \<lparr>cl_sub = Some ''u1'', cl_type = ''access'', cl_iat = 0, cl_exp = 900\<rparr>"
    using jwt_signing.decode_access [OF sample_jwt.jwt_signing_axioms, of 899 sample_auth 0 "''u1''"]
    by (simp add: sample_auth_def)
  have u: "get_current_user (av_crypto sample_api) 899 (create_access_token sample_crypto sample_auth 0 ''u1'' None) x = Inr sample_user"
    if "users x = users login_db" for x
    using dec that by (simp add: sample_api_def get_current_user_def login_db_eq user_db_def sample_user_def)
  have "own_rows (u_id sample_user) login_db = own_rows (u_id sample_user) ?d"
    by (simp add: own_rows_def login_db_eq user_db_def empty_db_def sample_user_def)
  from api_reads_isolated [OF u u this refl] show ?thesis by simp
qed

end
