(* ===== verification/Mailer.thy ===== *)
theory Mailer
  imports Auth
begin

text \<open>
  The transactional mail (\<^verbatim>\<open>services/mailer.py\<close>) and the password reset from the request to the new password.
  The SMTP server is a parameter: which commands it answers with an error.
\<close>

record email_settings =
  es_provider :: str
  es_from_address :: str
  es_from_name :: str
  es_frontend_base_url :: str
  es_smtp_host :: str
  es_smtp_port :: nat
  es_smtp_username :: str
  es_smtp_password :: str
  es_smtp_starttls :: bool

record mail =
  ml_from :: str
  ml_to :: str
  ml_subject :: str
  ml_body :: str
  ml_html :: "str option"

datatype smtp_command = Connect str nat | StartTls | SmtpLogin str str | SendMessage mail | Quit

definition RESET_SUBJECT :: str where
  "RESET_SUBJECT = ''Reset your AutoApply AI password''"

definition build_reset_link :: "email_settings \<Rightarrow> str \<Rightarrow> str" where
  "build_reset_link cfg raw =
     rev (dropWhile (\<lambda>c. c = CHR ''/'') (rev (es_frontend_base_url cfg))) @ ''/reset-password?token='' @ raw"

definition BODY_INTRO :: str where
  "BODY_INTRO = ''We received a request to reset your AutoApply AI password.'' @ [CHR 10, CHR 10] @ ''Reset it here: ''"

definition BODY_END :: str where
  "BODY_END = [CHR 10, CHR 10] @ ''This link expires shortly and can be used once. If you didn'' @ [CHR 39]
     @ ''t request this, ignore this email.''"

definition reset_bodies :: "str \<Rightarrow> str \<times> str" where
  "reset_bodies link =
     (BODY_INTRO @ link @ BODY_END,
      ''<p>We received a request to reset your AutoApply AI password.</p><p><a href='' @ [CHR 34] @ link @ [CHR 34]
        @ ''>Reset your password</a></p><p>This link expires shortly and can be used once. If you didn'' @ [CHR 39]
        @ ''t request this, you can safely ignore this email.</p>'')"

definition email_message :: "email_settings \<Rightarrow> str \<Rightarrow> str \<Rightarrow> str \<Rightarrow> str option \<Rightarrow> mail" where
  "email_message cfg to subject body html =
     \<lparr>ml_from = es_from_name cfg @ '' <'' @ es_from_address cfg @ ''>'', ml_to = to, ml_subject = subject,
      ml_body = body, ml_html = (if truthy html then html else None)\<rparr>"

text \<open>The commands of one delivery, up to the first that the server refuses.\<close>

definition smtp_commands :: "email_settings \<Rightarrow> mail \<Rightarrow> smtp_command list" where
  "smtp_commands cfg m =
     [Connect (es_smtp_host cfg) (es_smtp_port cfg)]
     @ (if es_smtp_starttls cfg then [StartTls] else [])
     @ (if es_smtp_username cfg \<noteq> [] then [SmtpLogin (es_smtp_username cfg) (es_smtp_password cfg)] else [])
     @ [SendMessage m, Quit]"

fun smtp_session :: "(smtp_command \<Rightarrow> exn option) \<Rightarrow> smtp_command list \<Rightarrow> exn option" where
  "smtp_session server [] = None"
| "smtp_session server (c # cs) = (case server c of Some e \<Rightarrow> Some e | None \<Rightarrow> smtp_session server cs)"

fun smtp_accepted :: "(smtp_command \<Rightarrow> exn option) \<Rightarrow> smtp_command list \<Rightarrow> mail list" where
  "smtp_accepted server [] = []"
| "smtp_accepted server (c # cs) =
     (case server c of
        Some _ \<Rightarrow> []
      | None \<Rightarrow> (case c of SendMessage m \<Rightarrow> [m] | _ \<Rightarrow> []) @ smtp_accepted server cs)"

definition reset_mail :: "email_settings \<Rightarrow> str \<Rightarrow> str \<Rightarrow> mail" where
  "reset_mail cfg to link =
     (case reset_bodies link of (body, html) \<Rightarrow> email_message cfg to RESET_SUBJECT body (Some html))"

text \<open>The error that escapes, and the mails that the server took; the log provider sends nothing.\<close>

definition send_password_reset_email ::
  "email_settings \<Rightarrow> (smtp_command \<Rightarrow> exn option) \<Rightarrow> str \<Rightarrow> str \<Rightarrow> exn option" where
  "send_password_reset_email cfg server to link =
     (if es_provider cfg = ''smtp'' then smtp_session server (smtp_commands cfg (reset_mail cfg to link)) else None)"

definition delivered_mails :: "email_settings \<Rightarrow> (smtp_command \<Rightarrow> exn option) \<Rightarrow> str \<Rightarrow> str \<Rightarrow> mail list" where
  "delivered_mails cfg server to link =
     (if es_provider cfg = ''smtp'' then smtp_accepted server (smtp_commands cfg (reset_mail cfg to link)) else [])"

text \<open>The reset links that are written to the log.\<close>

definition logged_links :: "email_settings \<Rightarrow> str \<Rightarrow> str list" where
  "logged_links cfg link = (if es_provider cfg = ''smtp'' then [] else [link])"

text \<open>What the password reset calls.\<close>

definition reset_mailer :: "email_settings \<Rightarrow> (smtp_command \<Rightarrow> exn option) \<Rightarrow> mailer" where
  "reset_mailer cfg server email raw = send_password_reset_email cfg server email (build_reset_link cfg raw)"

section \<open>Delivery\<close>

lemma session_accepts: "smtp_session server (smtp_commands cfg m) = None \<Longrightarrow> smtp_accepted server (smtp_commands cfg m) = [m]"
  by (auto simp: smtp_commands_def split: option.splits if_splits)

lemma accepted_at_most_one: "smtp_accepted server (smtp_commands cfg m) \<in> {[], [m]}"
  by (auto simp: smtp_commands_def split: option.splits)

lemma no_plain_login:
  "es_smtp_starttls cfg \<Longrightarrow> server StartTls = Some e \<Longrightarrow> smtp_accepted server (smtp_commands cfg m) = []"
  by (auto simp: smtp_commands_def split: option.splits)

lemma link_in_mail:
  "py_in link (ml_body (reset_mail cfg to link)) \<and> ml_to (reset_mail cfg to link) = to"
proof -
  have "ml_body (reset_mail cfg to link) = BODY_INTRO @ link @ BODY_END" "ml_to (reset_mail cfg to link) = to"
    by (simp_all only: reset_mail_def reset_bodies_def email_message_def prod.case mail.select_convs)
  then show ?thesis by (simp add: py_in_iff_sublist)
qed

section \<open>From the request to the new password\<close>

lemma reset_request_known:
  assumes "db_ok d" and "fresh_nonce cr n d" and "u \<in> set (users d)" and "u_is_active u" and "u_deleted_at u = None"
    and "send (u_email u) (n_raw n) = None"
  shows "\<exists>d1 m. forgot_password cr st send n (u_email u) d = (d1, Inr m) \<and> db_ok d1
    \<and> d1 = d\<lparr>reset_tokens := reset_tokens d @ [\<lparr>pr_id = n_id n, pr_user = u_id u, pr_hash = sha cr (n_raw n),
          pr_expires = n_now n + reset_token_expire_minutes st * 60, pr_used_at = None\<rparr>]\<rparr>"
proof -
  have "distinct (map u_email (filter (\<lambda>u. u_deleted_at u = None \<and> u_is_active u) (users d)))"
    using db_ok_dist(3) [OF assms(1)] by (rule distinct_map_filter)
  then have "filter (\<lambda>x. u_email x = u_email u) (filter (\<lambda>u. u_deleted_at u = None \<and> u_is_active u) (users d)) = [u]"
    by (rule filter_key_present) (use assms in simp)
  then have q: "filter (\<lambda>x. u_email x = u_email u \<and> u_deleted_at x = None \<and> u_is_active x) (users d) = [u]"
    by (simp add: conj_commute)
  let ?t = "\<lparr>pr_id = n_id n, pr_user = u_id u, pr_hash = sha cr (n_raw n),
     pr_expires = n_now n + reset_token_expire_minutes st * 60, pr_used_at = None\<rparr>"
  have "db_ok (d\<lparr>reset_tokens := reset_tokens d @ [?t]\<rparr>)"
    using assms(1,2) by (simp add: db_ok_def pk_ok_def uq_shared_def fresh_nonce_def)
  then show ?thesis
    using q assms(6) by (simp add: forgot_password_def request_password_reset_def commit_def)
qed


definition sample_email :: email_settings where
  "sample_email = \<lparr>es_provider = ''smtp'', es_from_address = ''no-reply@x.io'', es_from_name = ''AutoApply AI'',
     es_frontend_base_url = ''https://x.io/'', es_smtp_host = ''mail'', es_smtp_port = 587, es_smtp_username = ''u'',
     es_smtp_password = ''p'', es_smtp_starttls = True\<rparr>"


end
