(* ===== verification/Connections.thy ===== *)
theory Connections
  imports Startup
begin

text \<open>
  The connections of the process: the Redis client (\<^verbatim>\<open>db/redis.py\<close>) and the Arq pool (\<^verbatim>\<open>db/arq.py\<close>) that the
  lifespan of \<^verbatim>\<open>main.py\<close> opens and closes, the database session of a request (\<^verbatim>\<open>db/session.py\<close>,
  \<^verbatim>\<open>get_tenant_db\<close> of \<^verbatim>\<open>api/deps.py\<close>), and the error mapping of \<^verbatim>\<open>core/db_resilience.py\<close>. What a call of
  the libraries raises is an argument of the step that makes it.
\<close>

section \<open>The Redis client and the Arq pool\<close>

text \<open>A \<^verbatim>\<open>RedisError\<close> of the package redis, or any other exception.\<close>

datatype conn_exn = RedisError str | OtherException str

text \<open>What was created and is to be closed, and the module globals that refer to it.\<close>

datatype conn_handle = RedisPool nat | RedisClient nat | ArqPool nat

record conns =
  cn_next :: nat
  cn_open :: "conn_handle list"
  cn_redis_pool :: "conn_handle option"
  cn_redis_client :: "conn_handle option"
  cn_arq_pool :: "conn_handle option"

definition no_conns :: conns where
  "no_conns = \<lparr>cn_next = 0, cn_open = [], cn_redis_pool = None, cn_redis_client = None, cn_arq_pool = None\<rparr>"

text \<open>The exceptions of the calls, \<^verbatim>\<open>None\<close> where a call returns.\<close>

record redis_calls =
  rc_from_url :: "conn_exn option"
  rc_ping :: "conn_exn option"
  rc_client_close :: "conn_exn option"
  rc_pool_disconnect :: "conn_exn option"

definition open_handle :: "conn_handle \<Rightarrow> conns \<Rightarrow> conns" where
  "open_handle h s = s\<lparr>cn_open := cn_open s @ [h]\<rparr>"

definition close_handle :: "conn_handle option \<Rightarrow> conn_exn option \<Rightarrow> conns \<Rightarrow> conns" where
  "close_handle h failure s =
     (case (h, failure) of (Some x, None) \<Rightarrow> s\<lparr>cn_open := removeAll x (cn_open s)\<rparr> | _ \<Rightarrow> s)"

text \<open>The handler of \<^verbatim>\<open>RedisError\<close>: both are closed, whatever that raises, and forgotten.\<close>

definition drop_redis :: "redis_calls \<Rightarrow> conns \<Rightarrow> conns" where
  "drop_redis r s =
     (close_handle (cn_redis_pool s) (rc_pool_disconnect r) (close_handle (cn_redis_client s) (rc_client_close r) s))
       \<lparr>cn_redis_pool := None, cn_redis_client := None\<rparr>"

definition redis_failed :: "redis_calls \<Rightarrow> conn_exn \<Rightarrow> conns \<Rightarrow> conns \<times> (conn_exn + unit)" where
  "redis_failed r e s = (case e of RedisError m \<Rightarrow> (drop_redis r s, Inr ()) | OtherException m \<Rightarrow> (s, Inl e))"

definition init_redis_pool :: "redis_calls \<Rightarrow> (conns, conn_exn, unit) op" where
  "init_redis_pool r s =
     (case rc_from_url r of
        Some e \<Rightarrow> redis_failed r e s
      | None \<Rightarrow>
         (let n = cn_next s;
              s1 = (open_handle (RedisClient n) (open_handle (RedisPool n) s))
                \<lparr>cn_next := n + 1, cn_redis_pool := Some (RedisPool n), cn_redis_client := Some (RedisClient n)\<rparr>
          in case rc_ping r of Some e \<Rightarrow> redis_failed r e s1 | None \<Rightarrow> (s1, Inr ())))"

definition disconnect_redis_pool :: "redis_calls \<Rightarrow> (conns, conn_exn, unit) op" where
  "disconnect_redis_pool r s =
     (case (cn_redis_pool s, rc_pool_disconnect r) of
        (None, _) \<Rightarrow> (s, Inr ())
      | (Some p, Some e) \<Rightarrow> (s, Inl e)
      | (Some p, None) \<Rightarrow> ((close_handle (Some p) None s)\<lparr>cn_redis_pool := None\<rparr>, Inr ()))"

definition close_redis_pool :: "redis_calls \<Rightarrow> (conns, conn_exn, unit) op" where
  "close_redis_pool r s =
     (case (cn_redis_client s, rc_client_close r) of
        (None, _) \<Rightarrow> disconnect_redis_pool r s
      | (Some c, Some e) \<Rightarrow> (s, Inl e)
      | (Some c, None) \<Rightarrow> disconnect_redis_pool r ((close_handle (Some c) None s)\<lparr>cn_redis_client := None\<rparr>))"

definition get_redis :: "conns \<Rightarrow> conn_handle option" where
  "get_redis s = cn_redis_client s"

definition is_redis_available :: "conn_exn option \<Rightarrow> conns \<Rightarrow> conn_exn + bool" where
  "is_redis_available ping s =
     (if cn_redis_client s = None then Inr False
      else (case ping of None \<Rightarrow> Inr True | Some (RedisError m) \<Rightarrow> Inr False | Some (OtherException m) \<Rightarrow> Inl (OtherException m)))"

text \<open>Arq's pool: any exception of \<^verbatim>\<open>create_pool\<close> leaves the process without a queue.\<close>

definition init_arq_pool :: "conn_exn option \<Rightarrow> conns \<Rightarrow> conns" where
  "init_arq_pool failure s =
     (case failure of
        Some e \<Rightarrow> s\<lparr>cn_arq_pool := None\<rparr>
      | None \<Rightarrow> (open_handle (ArqPool (cn_next s)) s)\<lparr>cn_next := cn_next s + 1, cn_arq_pool := Some (ArqPool (cn_next s))\<rparr>)"

definition get_arq_pool :: "conns \<Rightarrow> conn_handle option" where
  "get_arq_pool s = cn_arq_pool s"

definition close_arq_pool :: "conn_exn option \<Rightarrow> (conns, conn_exn, unit) op" where
  "close_arq_pool failure s =
     (case (cn_arq_pool s, failure) of
        (None, _) \<Rightarrow> (s, Inr ())
      | (Some p, Some e) \<Rightarrow> (s, Inl e)
      | (Some p, None) \<Rightarrow> ((close_handle (Some p) None s)\<lparr>cn_arq_pool := None\<rparr>, Inr ()))"

section \<open>The lifespan\<close>

record process =
  ps_schema :: schema
  ps_conns :: conns
  ps_serving :: bool

text \<open>Up to the \<^verbatim>\<open>yield\<close>: the guard, the migrations, Redis, Arq.\<close>

definition startup ::
  "app_settings \<Rightarrow> dialect \<Rightarrow> nat \<Rightarrow> redis_calls \<Rightarrow> conn_exn option \<Rightarrow> (process, exn + conn_exn, unit) op" where
  "startup cfg dia k r arq p =
     (case lifespan_start cfg dia k (ps_schema p) of
        (sch, Inl e) \<Rightarrow> (p\<lparr>ps_schema := sch\<rparr>, Inl (Inl e))
      | (sch, Inr _) \<Rightarrow>
         (case init_redis_pool r (ps_conns p) of
            (c, Inl e) \<Rightarrow> (p\<lparr>ps_schema := sch, ps_conns := c\<rparr>, Inl (Inr e))
          | (c, Inr _) \<Rightarrow> (p\<lparr>ps_schema := sch, ps_conns := init_arq_pool arq c, ps_serving := True\<rparr>, Inr ())))"

text \<open>After the \<^verbatim>\<open>yield\<close>, in this order; an exception skips what follows.\<close>

definition shutdown :: "redis_calls \<Rightarrow> conn_exn option \<Rightarrow> (process, conn_exn, unit) op" where
  "shutdown r arq p =
     (case close_arq_pool arq (ps_conns p) of
        (c, Inl e) \<Rightarrow> (p\<lparr>ps_conns := c, ps_serving := False\<rparr>, Inl e)
      | (c, Inr _) \<Rightarrow>
         (case close_redis_pool r c of (c', out) \<Rightarrow> (p\<lparr>ps_conns := c', ps_serving := False\<rparr>, out)))"

text \<open>
  The life of a process whose library calls behave as documented: Redis reports a failed connection as a
  \<^verbatim>\<open>RedisError\<close> (a bad URL may raise anything), and closing raises nothing.
\<close>

definition documented :: "redis_calls \<Rightarrow> bool" where
  "documented r \<longleftrightarrow> rc_client_close r = None \<and> rc_pool_disconnect r = None
     \<and> (case rc_ping r of Some (OtherException _) \<Rightarrow> False | _ \<Rightarrow> True)"

inductive life_step :: "process \<Rightarrow> process \<Rightarrow> bool" where
  begin_life: "\<not> ps_serving p \<Longrightarrow> documented r \<Longrightarrow> startup cfg dia k r arq p = (p', out) \<Longrightarrow> life_step p p'"
| end_life: "ps_serving p \<Longrightarrow> documented r \<Longrightarrow> shutdown r None p = (p', out) \<Longrightarrow> life_step p p'"

section \<open>Nothing leaks\<close>

definition refs :: "conns \<Rightarrow> conn_handle set" where
  "refs s = set_option (cn_redis_pool s) \<union> set_option (cn_redis_client s) \<union> set_option (cn_arq_pool s)"

lemmas conn_ops = init_redis_pool_def redis_failed_def drop_redis_def open_handle_def close_handle_def
  init_arq_pool_def close_arq_pool_def close_redis_pool_def disconnect_redis_pool_def

text \<open>The abstract state: the number of the Redis connection and of the Arq pool, if there is one.\<close>

definition connected :: "conns \<Rightarrow> nat option \<Rightarrow> nat option \<Rightarrow> bool" where
  "connected s a b \<longleftrightarrow> cn_redis_pool s = map_option RedisPool a \<and> cn_redis_client s = map_option RedisClient a
     \<and> cn_arq_pool s = map_option ArqPool b \<and> set (cn_open s) = refs s"

lemma connected_none: "connected s None None \<longleftrightarrow>
    cn_redis_pool s = None \<and> cn_redis_client s = None \<and> cn_arq_pool s = None \<and> cn_open s = []"
  by (auto simp: connected_def refs_def)

lemma init_redis_connects:
  assumes "connected s None None" and "documented r" and "init_redis_pool r s = (s', out)"
  shows "connected s' (if rc_from_url r = None \<and> rc_ping r = None then Some (cn_next s) else None) None
    \<and> (out = Inr () \<or> (\<exists>m. rc_from_url r = Some (OtherException m)))"
  using assms unfolding connected_none
  by (cases "rc_from_url r"; cases "rc_ping r")
    (auto simp: conn_ops connected_def refs_def documented_def Let_def split: conn_exn.splits)

lemma init_arq_connects:
  "connected s a None \<Longrightarrow> connected (init_arq_pool e s) a (if e = None then Some (cn_next s) else None)"
  by (auto simp: connected_def refs_def conn_ops split: option.split)

lemma shutdown_disconnects:
  assumes "connected (ps_conns p) a b" and "documented r" and "shutdown r None p = (p', out)"
  shows "connected (ps_conns p') None None \<and> \<not> ps_serving p' \<and> out = Inr ()"
proof -
  have arq: "close_arq_pool None (ps_conns p) = (c, Inr ()) \<Longrightarrow> connected c a None" for c
    using assms(1) by (cases a; cases b) (auto simp: connected_def refs_def conn_ops)
  have redis: "\<exists>c'. close_redis_pool r c = (c', Inr ()) \<and> connected c' None None" if "connected c a None" for c
    using that assms(2) by (cases a) (auto simp: connected_def refs_def conn_ops documented_def)
  obtain c where c: "close_arq_pool None (ps_conns p) = (c, Inr ())"
    by (cases "cn_arq_pool (ps_conns p)") (auto simp: close_arq_pool_def)
  from redis [OF arq [OF c]] assms(3) show ?thesis by (auto simp: shutdown_def c)
qed

definition life_inv :: "process \<Rightarrow> bool" where
  "life_inv p \<longleftrightarrow> (\<exists>a b. connected (ps_conns p) a b \<and> (ps_serving p \<or> a = None \<and> b = None))"

lemma startup_connects:
  assumes "connected (ps_conns p) None None" and "\<not> ps_serving p" and "documented r"
    and "startup cfg dia k r arq p = (p', out)"
  shows "if out = Inr ()
    then ps_serving p' \<and> connected (ps_conns p') (if rc_from_url r = None \<and> rc_ping r = None then Some (cn_next (ps_conns p)) else None)
      (map_option (\<lambda>_. cn_next (fst (init_redis_pool r (ps_conns p)))) (if arq = None then Some () else None))
    else \<not> ps_serving p' \<and> connected (ps_conns p') None None
      \<and> (validate_production_settings cfg \<noteq> Inr () \<or> (\<exists>m. rc_from_url r = Some (OtherException m)))"
proof (cases "lifespan_start cfg dia k (ps_schema p)")
  case (Pair sch o1)
  obtain c o2 where redis: "init_redis_pool r (ps_conns p) = (c, o2)" by fastforce
  show ?thesis
  proof (cases o1)
    case (Inl e)
    then have "validate_production_settings cfg \<noteq> Inr ()" using Pair by (auto simp: lifespan_start_def)
    with assms Inl Pair show ?thesis by (auto simp: startup_def)
  next
    case (Inr u)
    with assms(4) Pair redis init_redis_connects [OF assms(1,3) redis] init_arq_connects [of c _ arq] assms(2)
    show ?thesis by (auto simp: startup_def split: sum.splits)
  qed
qed

lemma life_step_inv: "life_step p p' \<Longrightarrow> life_inv p \<Longrightarrow> life_inv p'"
proof (induction rule: life_step.induct)
  case (begin_life p r cfg dia k arq p' out)
  then have "connected (ps_conns p) None None" by (auto simp: life_inv_def)
  from startup_connects [OF this begin_life.hyps] show ?case
    unfolding life_inv_def by (cases "out = Inr ()") (auto split: if_splits)
next
  case (end_life p r p' out)
  then show ?case using shutdown_disconnects unfolding life_inv_def by blast
qed

interpretation process_life: step_invariant life_step life_inv
  by unfold_locales (rule life_step_inv)

definition fresh_process :: "schema \<Rightarrow> process" where
  "fresh_process sch = \<lparr>ps_schema = sch, ps_conns = no_conns, ps_serving = False\<rparr>"

lemma fresh_inv: "life_inv (fresh_process sch)"
  by (auto simp: life_inv_def connected_def fresh_process_def no_conns_def refs_def)


definition redis_down :: redis_calls where
  "redis_down = \<lparr>rc_from_url = None, rc_ping = Some (RedisError ''refused''), rc_client_close = None, rc_pool_disconnect = None\<rparr>"


text \<open>The behaviours outside of \<open>documented\<close>.\<close>

lemma shutdown_stops_early:
  assumes "cn_arq_pool (ps_conns p) = Some h"
  shows "shutdown r (Some e) p = (p\<lparr>ps_serving := False\<rparr>, Inl e)"
  using assms by (simp add: shutdown_def close_arq_pool_def)

lemma unexpected_ping_leaks:
  assumes "rc_from_url r = None" and "rc_ping r = Some (OtherException m)"
  shows "snd (init_redis_pool r no_conns) = Inl (OtherException m)
    \<and> cn_open (fst (init_redis_pool r no_conns)) = [RedisPool 0, RedisClient 0]"
  using assms by (simp add: conn_ops no_conns_def Let_def)

section \<open>The session of a request\<close>

text \<open>What is committed, what the open session sees, and whether it was closed.\<close>

record 'd session =
  ss_committed :: 'd
  ss_view :: 'd
  ss_closed :: bool

definition open_session :: "'d \<Rightarrow> 'd session" where
  "open_session d = \<lparr>ss_committed = d, ss_view = d, ss_closed = False\<rparr>"

definition session_commit :: "'d session \<Rightarrow> 'd session" where
  "session_commit s = s\<lparr>ss_committed := ss_view s\<rparr>"

definition session_rollback :: "'d session \<Rightarrow> 'd session" where
  "session_rollback s = s\<lparr>ss_view := ss_committed s\<rparr>"

definition session_close :: "'d session \<Rightarrow> 'd session" where
  "session_close s = s\<lparr>ss_view := ss_committed s, ss_closed := True\<rparr>"

text \<open>
  \<^verbatim>\<open>get_db\<close> around the body of a request: rolled back on an exception, which goes on, and closed in
  any case. An exception of the rollback itself replaces the first.
\<close>

definition get_db :: "exn option \<Rightarrow> ('d session, exn, 'a) op \<Rightarrow> 'd \<Rightarrow> 'd session \<times> (exn + 'a)" where
  "get_db rollback body d =
     (case body (open_session d) of
        (s, Inr v) \<Rightarrow> (session_close s, Inr v)
      | (s, Inl e) \<Rightarrow>
         (case rollback of
            None \<Rightarrow> (session_close (session_rollback s), Inl e)
          | Some e' \<Rightarrow> (session_close s, Inl e')))"

text \<open>\<^verbatim>\<open>get_tenant_db\<close>: the tenant of the context is set for the request and reset, whatever the body did.\<close>

definition get_tenant_db :: "str \<Rightarrow> (ctx \<times> 'd session, exn, 'a) op \<Rightarrow> ctx \<Rightarrow> 'd \<Rightarrow> (ctx \<times> 'd session) \<times> (exn + 'a)" where
  "get_tenant_db user_id body c d =
     (case body (Some user_id, open_session d) of ((_, s), out) \<Rightarrow> ((c, session_close s), out))"

lemma get_db_settles:
  assumes "body (open_session d) = (s, out)"
  shows "ss_committed (fst (get_db rb body d)) = ss_committed s \<and> ss_view (fst (get_db rb body d)) = ss_committed s
    \<and> ss_closed (fst (get_db rb body d)) \<and> (rb = None \<longrightarrow> snd (get_db rb body d) = out)"
  using assms by (auto simp: get_db_def session_close_def session_rollback_def split: sum.split option.split)

lemma get_tenant_db_settles:
  assumes "body (Some u, open_session d) = ((c', s), out)"
  shows "get_tenant_db u body c d = ((c, session_close s), out)"
  using assms by (simp add: get_tenant_db_def)

section \<open>Database errors\<close>

text \<open>The exceptions of SQLAlchemy by what the decorators tell apart, or one of another package.\<close>

datatype call_exn =
    SAIntegrityError str
  | OperationalError str
  | OtherDBAPIError str
  | OtherSQLAlchemyError str
  | Passed exn

definition handle_db_errors :: "('s, call_exn, 'a) op \<Rightarrow> ('s, exn, 'a) op" where
  "handle_db_errors f s =
     (case f s of
        (s', Inr v) \<Rightarrow> (s', Inr v)
      | (s', Inl e) \<Rightarrow>
         (s', Inl (case e of
            SAIntegrityError m \<Rightarrow> IntegrityError m
          | OperationalError m \<Rightarrow> DatabaseConnectionError m
          | OtherDBAPIError m \<Rightarrow> QueryError m
          | OtherSQLAlchemyError m \<Rightarrow> QueryError m
          | Passed x \<Rightarrow> x)))"

text \<open>The decorator configures tenacity's loop, which is a parameter.\<close>

record retry_policy =
  rp_stop_after :: nat
  rp_multiplier :: real
  rp_max_wait :: real
  rp_retry_if :: "call_exn \<Rightarrow> bool"
  rp_reraise :: bool

fun is_dbapi_error :: "call_exn \<Rightarrow> bool" where
  "is_dbapi_error (SAIntegrityError _) = True"
| "is_dbapi_error (OperationalError _) = True"
| "is_dbapi_error (OtherDBAPIError _) = True"
| "is_dbapi_error _ = False"

definition retry_policy_of :: "nat \<Rightarrow> real \<Rightarrow> real \<Rightarrow> retry_policy" where
  "retry_policy_of max_attempts min_wait max_wait =
     \<lparr>rp_stop_after = max_attempts, rp_multiplier = min_wait, rp_max_wait = max_wait,
      rp_retry_if = is_dbapi_error, rp_reraise = True\<rparr>"

definition with_retry ::
  "(retry_policy \<Rightarrow> ('s, call_exn, 'a) op \<Rightarrow> ('s, call_exn, 'a) op) \<Rightarrow> nat \<Rightarrow> real \<Rightarrow> real
     \<Rightarrow> ('s, call_exn, 'a) op \<Rightarrow> ('s, call_exn, 'a) op" where
  "with_retry tenacity max_attempts min_wait max_wait f = tenacity (retry_policy_of max_attempts min_wait max_wait) f"

text \<open>
  A violated constraint is answered as a conflict and any other database error as an error of the server;
  but \<^verbatim>\<open>IntegrityError\<close> is a \<^verbatim>\<open>DBAPIError\<close>, so the retrying decorator repeats it too.
\<close>

lemma handled_status:
  assumes "snd (handle_db_errors f s) = Inl e"
  shows "(\<exists>x. snd (f s) = Inl (Passed x) \<and> e = x) \<or> http_status e = (case snd (f s) of Inl (SAIntegrityError _) \<Rightarrow> 409 | _ \<Rightarrow> 500)"
proof -
  have st: "http_status (IntegrityError m) = 409" "http_status (DatabaseConnectionError m) = 500"
    "http_status (QueryError m) = 500" for m
    unfolding http_status_def is_domain_error.simps exn_code.simps exn.case by code_simp+
  obtain s' out where f: "f s = (s', out)" by fastforce
  show ?thesis
  proof (cases out)
    case (Inl x)
    with assms f show ?thesis by (cases x) (auto simp: handle_db_errors_def st)
  next
    case (Inr v)
    with assms f show ?thesis by (simp add: handle_db_errors_def)
  qed
qed

lemma conflicts_are_retried: "rp_retry_if (retry_policy_of n a b) (SAIntegrityError m)"
  by (simp add: retry_policy_of_def)

end
