(* ===== verification/WebApp.thy ===== *)
theory WebApp
  imports Connections
begin

text \<open>
  The application object (\<^verbatim>\<open>create_app\<close> of \<^verbatim>\<open>main.py\<close>): the handler of the domain's exceptions, the
  middleware with the security headers, the routes of the metrics, the documentation and the readiness probe.
  The framework's part is its documented order: the exception handlers are inside of the middleware, and what
  they do not handle becomes a plain 500 outside of it.
\<close>

section \<open>Responses\<close>

datatype body =
    NoBody
  | Detail str
  | ErrorBody str str
  | MetricsText
  | HealthBody health str
  | PlainText str
  | Payload str

record response =
  hr_status :: nat
  hr_headers :: "(str \<times> str) list"
  hr_body :: body

text \<open>What ends a route: an exception, or the framework's \<^verbatim>\<open>HTTPException\<close> with its status.\<close>

datatype failure = Raised exn | HTTPException nat str

text \<open>\<^verbatim>\<open>MutableHeaders.setdefault\<close>: names are stored and compared in lower case.\<close>

definition set_default :: "str \<Rightarrow> str \<Rightarrow> (str \<times> str) list \<Rightarrow> (str \<times> str) list" where
  "set_default name v hs = (if list_ex (\<lambda>h. fst h = lower name) hs then hs else hs @ [(lower name, v)])"

definition header :: "str \<Rightarrow> response \<Rightarrow> str option" where
  "header name r = map_of (hr_headers r) name"

section \<open>The middleware and the handlers\<close>

definition security_headers :: "app_settings \<Rightarrow> exn + response \<Rightarrow> exn + response" where
  "security_headers cfg next_result =
     (case next_result of
        Inl e \<Rightarrow> Inl e
      | Inr r \<Rightarrow>
         (let h1 = set_default ''X-Content-Type-Options'' ''nosniff'' (hr_headers r);
              h2 = set_default ''X-Frame-Options'' ''DENY'' h1;
              h3 = set_default ''Referrer-Policy'' ''strict-origin-when-cross-origin'' h2;
              h4 = (if as_environment cfg = PRODUCTION
                    then set_default ''Strict-Transport-Security'' ''max-age=63072000; includeSubDomains'' h3 else h3)
          in Inr (r\<lparr>hr_headers := h4\<rparr>)))"

definition autoapply_error_handler :: "exn \<Rightarrow> response" where
  "autoapply_error_handler e = \<lparr>hr_status = http_status e, hr_headers = [], hr_body = ErrorBody (exn_message e) (exn_code e)\<rparr>"

definition exception_handlers :: "failure + response \<Rightarrow> exn + response" where
  "exception_handlers result =
     (case result of
        Inr r \<Rightarrow> Inr r
      | Inl (HTTPException n detail) \<Rightarrow> Inr \<lparr>hr_status = n, hr_headers = [], hr_body = Detail detail\<rparr>
      | Inl (Raised e) \<Rightarrow> if is_domain_error e then Inr (autoapply_error_handler e) else Inl e)"

text \<open>The framework around both.\<close>

definition serve :: "app_settings \<Rightarrow> failure + response \<Rightarrow> response" where
  "serve cfg result =
     (case security_headers cfg (exception_handlers result) of
        Inr r \<Rightarrow> r
      | Inl e \<Rightarrow> \<lparr>hr_status = 500, hr_headers = [], hr_body = PlainText ''Internal Server Error''\<rparr>)"

section \<open>The routes of the application object\<close>

definition docs_url :: "app_settings \<Rightarrow> str option" where
  "docs_url cfg = (if as_environment cfg \<noteq> PRODUCTION then Some ''/docs'' else None)"

definition redoc_url :: "app_settings \<Rightarrow> str option" where
  "redoc_url cfg = (if as_environment cfg \<noteq> PRODUCTION then Some ''/redoc'' else None)"

definition metrics_route :: "app_settings \<Rightarrow> str option \<Rightarrow> response" where
  "metrics_route cfg authorization =
     (if \<not> metrics_authorized cfg authorization
      then \<lparr>hr_status = 401, hr_headers = [], hr_body = NoBody\<rparr>
      else \<lparr>hr_status = 200, hr_headers = [], hr_body = MetricsText\<rparr>)"

definition APP_VERSION :: str where "APP_VERSION = ''2.0.0''"

definition health_route :: "bool \<Rightarrow> conn_exn option \<Rightarrow> process \<Rightarrow> conn_exn + response" where
  "health_route db_up ping p =
     (case is_redis_available ping (ps_conns p) of
        Inl e \<Rightarrow> Inl e
      | Inr redis_ok \<Rightarrow>
         (case health_check db_up redis_ok of
            (status, h) \<Rightarrow> Inr \<lparr>hr_status = status, hr_headers = [], hr_body = HealthBody h APP_VERSION\<rparr>))"

section \<open>Every answer is hardened\<close>

lemma header_set_default:
  "map_of (set_default name v hs) k =
     (case map_of hs k of Some x \<Rightarrow> Some x | None \<Rightarrow> if k = lower name then Some v else None)"
proof (cases "list_ex (\<lambda>h. fst h = lower name) hs")
  case True
  then have "lower name \<in> fst ` set hs" by (auto simp: list_ex_iff intro: rev_image_eqI)
  then show ?thesis using True by (auto simp: set_default_def map_of_eq_None_iff split: option.split)
next
  case False
  then have "lower name \<notin> fst ` set hs" by (force simp: list_ex_iff)
  then have "map_of hs (lower name) = None" by (simp add: map_of_eq_None_iff)
  then show ?thesis using False by (simp add: set_default_def map_add_def split: option.split)
qed

definition hardening :: "app_settings \<Rightarrow> str \<Rightarrow> str option" where
  "hardening cfg k =
     (if k = ''x-content-type-options'' then Some ''nosniff''
      else if k = ''x-frame-options'' then Some ''DENY''
      else if k = ''referrer-policy'' then Some ''strict-origin-when-cross-origin''
      else if k = ''strict-transport-security'' \<and> as_environment cfg = PRODUCTION
      then Some ''max-age=63072000; includeSubDomains'' else None)"

lemma header_set_defaults:
  fixes n1 n2 n3 v1 v2 v3 :: str and hs :: "(str \<times> str) list"
  defines "h3 \<equiv> set_default n3 v3 (set_default n2 v2 (set_default n1 v1 hs))"
  shows "map_of (if p then set_default n4 v4 h3 else h3) k =
     (case map_of hs k of Some v \<Rightarrow> Some v
      | None \<Rightarrow> if k = lower n1 then Some v1 else if k = lower n2 then Some v2 else if k = lower n3 then Some v3
          else if k = lower n4 \<and> p then Some v4 else None)"
proof (cases "map_of hs k")
  case None
  consider "lower n1 = k" | "k \<noteq> lower n1" "lower n2 = k" | "k \<noteq> lower n1" "k \<noteq> lower n2" "lower n3 = k"
    | "k \<noteq> lower n1" "k \<noteq> lower n2" "k \<noteq> lower n3" "lower n4 = k"
    | "k \<noteq> lower n1" "k \<noteq> lower n2" "k \<noteq> lower n3" "k \<noteq> lower n4" by blast
  then show ?thesis by cases (simp_all add: h3_def header_set_default None)
qed (cases p; simp add: h3_def header_set_default)

lemma header_names:
  "lower ''X-Content-Type-Options'' = ''x-content-type-options''" "lower ''X-Frame-Options'' = ''x-frame-options''"
  "lower ''Referrer-Policy'' = ''referrer-policy''" "lower ''Strict-Transport-Security'' = ''strict-transport-security''"
  by code_simp+

lemma security_headers_add:
  assumes "security_headers cfg (Inr r) = Inr r'"
  shows "hr_status r' = hr_status r \<and> hr_body r' = hr_body r
    \<and> header k r' = (case header k r of Some v \<Rightarrow> Some v | None \<Rightarrow> hardening cfg k)"
proof -
  let ?h3 = "set_default ''Referrer-Policy'' ''strict-origin-when-cross-origin''
    (set_default ''X-Frame-Options'' ''DENY'' (set_default ''X-Content-Type-Options'' ''nosniff'' (hr_headers r)))"
  let ?h4 = "if as_environment cfg = PRODUCTION
    then set_default ''Strict-Transport-Security'' ''max-age=63072000; includeSubDomains'' ?h3 else ?h3"
  have "r' = r\<lparr>hr_headers := ?h4\<rparr>" using assms by (simp only: security_headers_def sum.case Let_def sum.inject)
  moreover have "map_of ?h4 k = (case map_of (hr_headers r) k of Some v \<Rightarrow> Some v | None \<Rightarrow> hardening cfg k)"
    unfolding header_set_defaults header_names hardening_def by (rule refl)
  ultimately show ?thesis by (simp add: header_def)
qed

text \<open>
  every answer that the application makes is hardened and says what it should. A reply or handled error
  carries the security headers, in production HSTS too, and keeps the headers that its route set; a domain
  error is answered with its status, message and code, and any other exception with a plain 500 that tells
  nothing about it, but without the headers. In production the metrics need the token and there is no
  interactive documentation.
\<close>

theorem answers_hardened:
  assumes "as_environment cfg = PRODUCTION"
  shows "hr_status (serve cfg (Inr r)) = hr_status r \<and> hr_body (serve cfg (Inr r)) = hr_body r
    \<and> header k (serve cfg (Inr r)) = (case header k r of Some v \<Rightarrow> Some v | None \<Rightarrow> hardening cfg k)
    \<and> (if is_domain_error e
       then hr_status (serve cfg (Inl (Raised e))) = http_status e
         \<and> hr_body (serve cfg (Inl (Raised e))) = ErrorBody (exn_message e) (exn_code e)
         \<and> header k (serve cfg (Inl (Raised e))) = hardening cfg k
       else serve cfg (Inl (Raised e)) = \<lparr>hr_status = 500, hr_headers = [], hr_body = PlainText ''Internal Server Error''\<rparr>)
    \<and> hr_status (serve cfg (Inl (HTTPException n s))) = n \<and> header k (serve cfg (Inl (HTTPException n s))) = hardening cfg k
    \<and> (hr_body (metrics_route cfg h) = MetricsText \<longleftrightarrow>
        as_metrics_token cfg \<noteq> [] \<and> h = Some (''Bearer '' @ as_metrics_token cfg))
    \<and> docs_url cfg = None \<and> redoc_url cfg = None"
proof -
  have served: "hr_status (serve cfg x) = hr_status r \<and> hr_body (serve cfg x) = hr_body r
      \<and> header k (serve cfg x) = (case header k r of Some v \<Rightarrow> Some v | None \<Rightarrow> hardening cfg k)"
    if "exception_handlers x = Inr r" for x r
  proof -
    obtain r' where r': "security_headers cfg (Inr r) = Inr r'" by (simp add: security_headers_def Let_def)
    from security_headers_add [OF r', of k] show ?thesis by (simp add: serve_def that r')
  qed
  have raised: "hr_status (serve cfg (Inl (Raised e))) = http_status e
      \<and> hr_body (serve cfg (Inl (Raised e))) = ErrorBody (exn_message e) (exn_code e)
      \<and> header k (serve cfg (Inl (Raised e))) = hardening cfg k" if "is_domain_error e"
    using served [of "Inl (Raised e)" "autoapply_error_handler e"] that
    by (simp add: exception_handlers_def autoapply_error_handler_def header_def)
  have other: "serve cfg (Inl (Raised e)) = \<lparr>hr_status = 500, hr_headers = [], hr_body = PlainText ''Internal Server Error''\<rparr>"
    if "\<not> is_domain_error e"
    using that by (simp add: serve_def exception_handlers_def security_headers_def)
  have http: "hr_status (serve cfg (Inl (HTTPException n s))) = n \<and> header k (serve cfg (Inl (HTTPException n s))) = hardening cfg k"
    using served [of "Inl (HTTPException n s)"] by (simp add: exception_handlers_def header_def)
  have metrics: "hr_body (metrics_route cfg h) = MetricsText \<longleftrightarrow> as_metrics_token cfg \<noteq> [] \<and> h = Some (''Bearer '' @ as_metrics_token cfg)"
    using assms by (cases h) (auto simp: metrics_route_def metrics_authorized_def)
  have docs: "docs_url cfg = None" "redoc_url cfg = None" using assms by (simp_all add: docs_url_def redoc_url_def)
  show ?thesis
    using served [of "Inr r" r] raised other http metrics docs by (simp add: exception_handlers_def)
qed

theorem answers_hardened_witness:
  "header ''strict-transport-security'' (serve production_settings (Inl (Raised (AuthError ''no''))))
     = Some ''max-age=63072000; includeSubDomains''
   \<and> hr_status (serve production_settings (Inl (Raised (AuthError ''no'')))) = 401"
proof -
  have prod: "as_environment production_settings = PRODUCTION" by (simp add: production_settings_def)
  have st: "http_status (AuthError ''no'') = 401" by code_simp
  have hd: "hardening production_settings ''strict-transport-security'' = Some ''max-age=63072000; includeSubDomains''"
    by (simp add: hardening_def prod)
  from answers_hardened [OF prod, where e = "AuthError ''no''" and k = "''strict-transport-security''"] st hd
  show ?thesis by simp
qed

text \<open>The probe: a dead database is a 503, a dead Redis is reported only.\<close>

lemma health_answers:
  assumes "health_route db_up ping p = Inr r"
  shows "hr_status r = (if db_up then 200 else 503)
    \<and> (\<exists>h. hr_body r = HealthBody h APP_VERSION \<and> hl_db h = db_up
        \<and> hl_redis h = (get_redis (ps_conns p) \<noteq> None \<and> ping = None))"
  using assms
  by (auto simp: health_route_def is_redis_available_def health_check_def get_redis_def
      split: if_splits option.splits conn_exn.splits)

end
