(* ===== verification/Prompts.thy ===== *)
theory Prompts
  imports Resumes Harness Platforms
begin

text \<open>
  The prompts (\<^verbatim>\<open>core/llm/prompts\<close>, \<^verbatim>\<open>core/harness/judge.py\<close>, \<^verbatim>\<open>core/harness/distil.py\<close>): \<^verbatim>\<open>str.format\<close>
  over the cover letters' templates, \<^verbatim>\<open>json.dumps\<close>, the texts that the language model gets, and the review of
  a run by the client of its owner. Dashes outside Latin-1 are written as two hyphens; \<open>rp\<close> is \<^verbatim>\<open>repr\<close> of a float.
\<close>

abbreviation APOS :: str where "APOS \<equiv> [CHR 39]"
abbreviation QUOT :: str where "QUOT \<equiv> [CHR 34]"

text \<open>A text of lines, each ended by a line break.\<close>

definition unlines :: "str list \<Rightarrow> str" where
  "unlines ls = concat (map (\<lambda>l. l @ [NL]) ls)"

lemma unlines_append: "unlines (xs @ ys) = unlines xs @ unlines ys"
  by (simp add: unlines_def)

lemma unlines_Cons: "unlines (x # ys) = x @ [NL] @ unlines ys"
  by (simp add: unlines_def)

section \<open>\<^verbatim>\<open>str.format\<close> with named fields\<close>

text \<open>
  The text is read from the left, outside of a field or, with the name read so far, inside of one. Doubled
  braces stand for one. Conversions and format specifications, which no template has, are part of the name.
\<close>

datatype piece = Lit char | Field str

definition add_piece :: "piece \<Rightarrow> exn + piece list \<Rightarrow> exn + piece list" where
  "add_piece p r = map_sum id (\<lambda>ps. p # ps) r"

fun read_format :: "str option \<Rightarrow> str \<Rightarrow> exn + piece list" where
  "read_format None [] = Inr []"
| "read_format None [c] =
     (if c = CHR ''{'' \<or> c = CHR ''}'' then Inl (ValueError ''Single brace encountered in format string'')
      else Inr [Lit c])"
| "read_format None (c # d # cs) =
     (if c = CHR ''{'' then (if d = CHR ''{'' then add_piece (Lit c) (read_format None cs) else read_format (Some []) (d # cs))
      else if c = CHR ''}'' then
        (if d = CHR ''}'' then add_piece (Lit c) (read_format None cs)
         else Inl (ValueError ''Single brace encountered in format string''))
      else add_piece (Lit c) (read_format None (d # cs)))"
| "read_format (Some w) [] = Inl (ValueError ''expected a closing brace before end of string'')"
| "read_format (Some w) (c # cs) =
     (if c = CHR ''}'' then add_piece (Field w) (read_format None cs)
      else if c = CHR ''{'' then Inl (ValueError ''unexpected opening brace in field name'')
      else read_format (Some (w @ [c])) cs)"

fun fill_pieces :: "(str \<times> str) list \<Rightarrow> piece list \<Rightarrow> exn + str" where
  "fill_pieces kw [] = Inr []"
| "fill_pieces kw (Lit c # ps) = map_sum id (\<lambda>s. c # s) (fill_pieces kw ps)"
| "fill_pieces kw (Field f # ps) =
     (case map_of kw f of
        None \<Rightarrow> Inl (KeyError f)
      | Some v \<Rightarrow> map_sum id (\<lambda>s. v @ s) (fill_pieces kw ps))"

definition py_format :: "str \<Rightarrow> (str \<times> str) list \<Rightarrow> exn + str" where
  "py_format s kw = (case read_format None s of Inl e \<Rightarrow> Inl e | Inr ps \<Rightarrow> fill_pieces kw ps)"

definition plain :: "str \<Rightarrow> bool" where
  "plain s \<longleftrightarrow> list_all (\<lambda>c. c \<noteq> CHR ''{'' \<and> c \<noteq> CHR ''}'') s"

lemma plain_simps [simp]: "plain []" "plain (a @ b) = (plain a \<and> plain b)"
  "plain (c # a) = (c \<noteq> CHR ''{'' \<and> c \<noteq> CHR ''}'' \<and> plain a)"
  by (simp_all add: plain_def)

lemma read_plain: "plain a \<Longrightarrow> read_format None (a @ b) = map_sum id (\<lambda>ps. map Lit a @ ps) (read_format None b)"
proof (induction a)
  case (Cons c a)
  then have c: "c \<noteq> CHR ''{''" "c \<noteq> CHR ''}''" and a: "plain a" by (simp_all add: plain_def)
  show ?case
  proof (cases "a @ b")
    case Nil
    then show ?thesis using c by simp
  next
    case (Cons d cs)
    have "read_format None ((c # a) @ b) = add_piece (Lit c) (read_format None (a @ b))" using c Cons by simp
    with Cons.IH [OF a] show ?thesis by (cases "read_format None b") (simp_all add: add_piece_def)
  qed
qed (cases "read_format None b"; simp)

lemma read_field_name:
  "plain f \<Longrightarrow> read_format (Some w) (f @ CHR ''}'' # b) = add_piece (Field (w @ f)) (read_format None b)"
  by (induction f arbitrary: w) (simp_all add: plain_def)

lemma read_field:
  assumes "plain f" and "f \<noteq> []"
  shows "read_format None (CHR ''{'' # f @ CHR ''}'' # b) = add_piece (Field f) (read_format None b)"
proof -
  obtain d ds where f: "f = d # ds" using assms(2) by (cases f) auto
  then have d: "d \<noteq> CHR ''{''" using assms(1) by (simp add: plain_def)
  have "read_format None (CHR ''{'' # f @ CHR ''}'' # b) = read_format (Some []) (f @ CHR ''}'' # b)" using d f by simp
  also have "\<dots> = add_piece (Field f) (read_format None b)" using read_field_name [OF assms(1), of "[]"] by simp
  finally show ?thesis .
qed

lemma fill_append:
  "fill_pieces kw (map Lit a @ ps) = map_sum id (\<lambda>s. a @ s) (fill_pieces kw ps)"
proof (induction a)
  case Nil
  show ?case by (cases "fill_pieces kw ps") simp_all
next
  case (Cons c a)
  then show ?case by (cases "fill_pieces kw ps") simp_all
qed

lemma format_plain: "plain a \<Longrightarrow> py_format (a @ b) kw = map_sum id (\<lambda>s. a @ s) (py_format b kw)"
  by (cases "read_format None b") (simp_all add: py_format_def read_plain fill_append)

lemma format_field:
  assumes "plain f" and "f \<noteq> []" and "map_of kw f = Some v"
  shows "py_format (CHR ''{'' # f @ CHR ''}'' # b) kw = map_sum id (\<lambda>s. v @ s) (py_format b kw)"
  using assms by (cases "read_format None b") (simp_all add: py_format_def read_field add_piece_def)

lemma format_end: "plain a \<Longrightarrow> py_format a kw = Inr a"
  using format_plain [of a "[]" kw] by (simp add: py_format_def)

section \<open>Cover letters\<close>

definition PROMPT_STANDARD :: str where
  "PROMPT_STANDARD = unlines
    [''Write a professional cover letter for the following job posting.'',
     [],
     ''JOB DESCRIPTION:'',
     ''{job_description}'',
     [],
     ''CANDIDATE RESUME:'',
     ''{candidate_resume}'',
     [],
     ''{company_section}'',
     [],
     ''Instructions:'',
     ''- Address the hiring manager professionally (use '' @ QUOT @ ''Dear Hiring Manager'' @ QUOT @ '' if name unknown)'',
     ''- Open with a strong hook that connects the candidate'' @ APOS @ ''s experience to the role'',
     ''- Highlight 2-3 key achievements from the resume that directly match the job requirements'',
     ''- Show genuine enthusiasm for the company and the specific role'',
     ''- Close with a confident call to action requesting an interview'',
     ''- Keep the tone professional yet personable'',
     ''- Limit to 3-4 concise paragraphs (250-350 words total)'',
     ''- Do NOT fabricate experience or skills not present in the resume'']"

definition PROMPT_TECHNICAL :: str where
  "PROMPT_TECHNICAL = unlines
    [''Write a technical cover letter for the following engineering/technical role.'',
     [],
     ''JOB DESCRIPTION:'',
     ''{job_description}'',
     [],
     ''CANDIDATE RESUME:'',
     ''{candidate_resume}'',
     [],
     ''{company_section}'',
     [],
     ''Instructions:'',
     ''- Lead with the candidate'' @ APOS @ ''s most relevant technical expertise for this role'',
     ''- Reference specific technologies, frameworks, and tools from both the resume and job posting'',
     ''- Include a concrete example of a technical problem solved or system built, with measurable impact'',
     ''- Demonstrate understanding of the company'' @ APOS @ ''s technical stack or engineering challenges'',
     ''- Mention relevant open-source contributions, publications, or side projects'',
     ''- Show passion for engineering craft (code quality, scalability, testing, architecture)'',
     ''- Keep the tone technically confident but not arrogant'',
     ''- Limit to 3-4 focused paragraphs (250-400 words total)'',
     ''- Do NOT fabricate technical skills or projects not present in the resume'']"

definition PROMPT_CREATIVE :: str where
  "PROMPT_CREATIVE = unlines
    [''Write a creative and engaging cover letter for the following role.'',
     [],
     ''JOB DESCRIPTION:'',
     ''{job_description}'',
     [],
     ''CANDIDATE RESUME:'',
     ''{candidate_resume}'',
     [],
     ''{company_section}'',
     [],
     ''Instructions:'',
     ''- Open with a compelling story, bold statement, or creative hook that captures attention'',
     ''- Show personality and authentic voice while remaining professional'',
     ''- Connect the candidate'' @ APOS @ ''s unique background and experiences to the role'' @ APOS @ ''s needs'',
     ''- Demonstrate creative thinking and problem-solving ability through specific examples'',
     ''- Express genuine passion for the industry, company mission, or product'',
     ''- End with a memorable closing that reinforces the candidate'' @ APOS @ ''s unique value proposition'',
     ''- Balance creativity with substance -- every sentence should serve a purpose'',
     ''- Limit to 3-4 paragraphs (250-400 words total)'',
     ''- Do NOT fabricate experience or skills not present in the resume'']"

definition PROMPT_EXECUTIVE :: str where
  "PROMPT_EXECUTIVE = unlines
    [''Write an executive-level cover letter for the following senior leadership role.'',
     [],
     ''JOB DESCRIPTION:'',
     ''{job_description}'',
     [],
     ''CANDIDATE RESUME:'',
     ''{candidate_resume}'',
     [],
     ''{company_section}'',
     [],
     ''Instructions:'',
     ''- Open with a high-impact statement about the candidate'' @ APOS @ ''s leadership brand and vision'',
     ''- Emphasize strategic impact: revenue growth, organizational transformation, market expansion'',
     ''- Quantify achievements with specific metrics (revenue, team size, market share, cost savings)'',
     ''- Demonstrate board-level thinking and cross-functional leadership experience'',
     ''- Reference industry trends and how the candidate is positioned to address them'',
     ''- Show understanding of the company'' @ APOS @ ''s strategic challenges and growth trajectory'',
     ''- Convey executive gravitas -- confident, concise, forward-looking'',
     ''- Limit to 3-4 paragraphs (300-400 words total)'',
     ''- Do NOT fabricate achievements or metrics not supported by the resume'']"

definition PROMPT_CAREER_CHANGE :: str where
  "PROMPT_CAREER_CHANGE = unlines
    [''Write a compelling cover letter for a candidate transitioning into a new career field.'',
     [],
     ''JOB DESCRIPTION:'',
     ''{job_description}'',
     [],
     ''CANDIDATE RESUME:'',
     ''{candidate_resume}'',
     [],
     ''{company_section}'',
     [],
     ''Instructions:'',
     ''- Acknowledge the career transition directly and frame it as a deliberate, strategic move'',
     ''- Identify and emphasize transferable skills from the candidate'' @ APOS @ ''s previous career'',
     ''- Draw clear parallels between past accomplishments and the requirements of the new role'',
     ''- Highlight any relevant education, certifications, bootcamps, or self-directed learning'',
     ''- Show genuine passion and proactive steps taken toward the new field'',
     ''- Address the '' @ QUOT @ ''why'' @ QUOT @ '' -- explain what draws the candidate to this new direction'',
     ''- Demonstrate that diverse experience brings unique perspective and value'',
     ''- Convey confidence without dismissing the learning curve ahead'',
     ''- Limit to 3-4 paragraphs (300-400 words total)'',
     ''- Do NOT fabricate experience, certifications, or training not present in the resume'']"

definition PROMPT_REFERRAL :: str where
  "PROMPT_REFERRAL = unlines
    [''Write a cover letter for a candidate who has been referred to the position.'',
     [],
     ''JOB DESCRIPTION:'',
     ''{job_description}'',
     [],
     ''CANDIDATE RESUME:'',
     ''{candidate_resume}'',
     [],
     ''{company_section}'',
     [],
     ''REFERRAL INFORMATION:'',
     ''{referral_info}'',
     [],
     ''Instructions:'',
     ''- Open by mentioning the referral prominently in the first sentence'',
     ''- Briefly explain the relationship with the referrer and what they shared about the role'',
     ''- Transition naturally into the candidate'' @ APOS @ ''s relevant qualifications and achievements'',
     ''- Show that the candidate has done independent research beyond the referral connection'',
     ''- Highlight 2-3 specific strengths that align with the role'' @ APOS @ ''s requirements'',
     ''- Express enthusiasm for the team and company culture informed by the referral'' @ APOS @ ''s insights'',
     ''- Close with a call to action that leverages the referral connection'',
     ''- Keep the tone warm and collegial while remaining professional'',
     ''- Limit to 3-4 paragraphs (250-350 words total)'',
     ''- Do NOT fabricate details about the referral relationship'']"

fun template_prompt :: "cover_template \<Rightarrow> str" where
  "template_prompt STANDARD = PROMPT_STANDARD"
| "template_prompt TECHNICAL = PROMPT_TECHNICAL"
| "template_prompt CREATIVE = PROMPT_CREATIVE"
| "template_prompt EXECUTIVE = PROMPT_EXECUTIVE"
| "template_prompt CAREER_CHANGE = PROMPT_CAREER_CHANGE"
| "template_prompt REFERRAL = PROMPT_REFERRAL"

definition prompt_args :: "cover_template \<Rightarrow> str \<Rightarrow> str \<Rightarrow> str \<Rightarrow> str \<Rightarrow> (str \<times> str) list" where
  "prompt_args t job_description candidate_resume company_section referral_info =
     [(''job_description'', job_description), (''candidate_resume'', candidate_resume),
      (''company_section'', company_section)]
     @ (if t = REFERRAL
        then [(''referral_info'', if referral_info = [] then ''No referral details provided.'' else referral_info)] else [])"

definition company_section :: "str \<Rightarrow> str" where
  "company_section company_info = (if company_info = [] then [] else ''COMPANY INFORMATION:'' @ [NL] @ company_info)"

definition render_letter_prompt :: "cover_template \<Rightarrow> str \<Rightarrow> str \<Rightarrow> str \<Rightarrow> str \<Rightarrow> exn + str" where
  "render_letter_prompt t job_description candidate_resume company_info referral_info =
     py_format (template_prompt t)
       (prompt_args t job_description candidate_resume (company_section company_info) referral_info)"

section \<open>Resumes\<close>

text \<open>\<^verbatim>\<open>json.dumps\<close>: a string in ASCII with its escapes, and a value on one line or with an indent of two.\<close>

definition hex_digit :: "nat \<Rightarrow> char" where
  "hex_digit n = char_of (if n < 10 then 48 + n else 87 + n)"

definition json_char :: "char \<Rightarrow> str" where
  "json_char c =
     (let n = (of_char c :: nat) in
      if n = 34 then [CHR 92, CHR 34] else if n = 92 then [CHR 92, CHR 92] else if n = 10 then CHR 92 # ''n''
      else if n = 13 then CHR 92 # ''r'' else if n = 9 then CHR 92 # ''t'' else if n = 8 then CHR 92 # ''b''
      else if n = 12 then CHR 92 # ''f''
      else if 32 \<le> n \<and> n \<le> 126 then [c]
      else CHR 92 # ''u00'' @ [hex_digit (n div 16), hex_digit (n mod 16)])"

definition json_string :: "str \<Rightarrow> str" where
  "json_string s = QUOT @ concat (map json_char s) @ QUOT"

fun json_line :: "(real \<Rightarrow> str) \<Rightarrow> jvalue \<Rightarrow> str" where
  "json_line rp JNull = ''null''"
| "json_line rp (JBool b) = (if b then ''true'' else ''false'')"
| "json_line rp (JInt n) = show_int n"
| "json_line rp (JFloat x) = rp x"
| "json_line rp (JStr s) = json_string s"
| "json_line rp (JList xs) = ''['' @ join_with '', '' (map (json_line rp) xs) @ '']''"
| "json_line rp (JDict d) = ''{'' @ join_with '', '' (map (\<lambda>(k, v). json_string k @ '': '' @ json_line rp v) d) @ ''}''"

definition new_line :: "nat \<Rightarrow> str" where
  "new_line level = NL # replicate (2 * level) CHR '' ''"

fun json_indented :: "(real \<Rightarrow> str) \<Rightarrow> nat \<Rightarrow> jvalue \<Rightarrow> str" where
  "json_indented rp n (JList xs) =
     (if xs = [] then ''[]''
      else ''['' @ new_line (Suc n) @ join_with ('','' @ new_line (Suc n)) (map (json_indented rp (Suc n)) xs)
        @ new_line n @ '']'')"
| "json_indented rp n (JDict d) =
     (if d = [] then ''{}''
      else ''{'' @ new_line (Suc n)
        @ join_with ('','' @ new_line (Suc n)) (map (\<lambda>(k, v). json_string k @ '': '' @ json_indented rp (Suc n) v) d)
        @ new_line n @ ''}'')"
| "json_indented rp n v = json_line rp v"

definition printable :: "str \<Rightarrow> bool" where
  "printable s \<longleftrightarrow> list_all (\<lambda>c. 32 \<le> (of_char c :: nat) \<and> (of_char c :: nat) \<le> 126) s"

lemma printable_append [simp]: "printable (a @ b) = (printable a \<and> printable b)"
  by (simp add: printable_def)

lemma printable_join: "printable sep \<Longrightarrow> list_all printable xs \<Longrightarrow> printable (join_with sep xs)"
proof (induction xs rule: induct_list012)
  case 1
  show ?case by (simp add: printable_def)
qed simp_all

lemma printable_concat: "list_all printable xs \<Longrightarrow> printable (concat xs)"
  by (induction xs) (simp_all, simp add: printable_def)

lemma hex_digit_printable: "n < 16 \<Longrightarrow> 32 \<le> (of_char (hex_digit n) :: nat) \<and> (of_char (hex_digit n) :: nat) \<le> 126"
  by (simp add: hex_digit_def)

lemma json_char_printable: "printable (json_char c)"
proof -
  define n where "n = (of_char c :: nat)"
  have "n < 256" unfolding n_def using nat_of_char_less_256 by auto
  then have "n div 16 < 16" "n mod 16 < 16" by auto
  note hex = hex_digit_printable [OF this(1)] hex_digit_printable [OF this(2)]
  show ?thesis using hex unfolding json_char_def Let_def n_def [symmetric]
    by (auto simp: printable_def n_def)
qed

lemma json_string_printable: "printable (json_string s)"
proof -
  have "printable (concat (map json_char s))" by (rule printable_concat) (simp add: list_all_iff json_char_printable)
  then show ?thesis by (simp add: json_string_def) (simp add: printable_def)
qed

lemma show_nat_printable: "printable (show_nat n)"
proof (induction n rule: show_nat.induct)
  case (1 n)
  then show ?case by (subst show_nat.simps) (auto simp: printable_def)
qed

text \<open>A value on one line is one line of printable ASCII, whatever its strings hold.\<close>

lemma json_line_printable:
  assumes "\<And>x. printable (rp x)"
  shows "printable (json_line rp v)"
proof (induction v)
  case (JInt n)
  show ?case using show_nat_printable by (auto simp: show_int_def printable_def)
next
  case (JList xs)
  have "printable (join_with '', '' (map (json_line rp) xs))"
    by (rule printable_join) (use JList in \<open>auto simp: list_all_iff printable_def\<close>)
  then show ?case by simp (simp add: printable_def)
next
  case (JDict d)
  have "printable ('': '')" by (simp add: printable_def)
  then have "printable (json_string k @ '': '' @ json_line rp v)" if "(k, v) \<in> set d" for k v
    using JDict that json_string_printable by (auto simp del: append.simps)
  then have "printable (join_with '', '' (map (\<lambda>(k, v). json_string k @ '': '' @ json_line rp v) d))"
    by (intro printable_join) (auto simp: list_all_iff, simp add: printable_def)
  then show ?case by simp (simp add: printable_def)
qed (simp_all add: assms json_string_printable, simp_all add: printable_def)

definition resume_json :: "resume_data \<Rightarrow> jvalue" where
  "resume_json r = JDict
     [(''name'', JStr (rx_name r)), (''email'', JStr (rx_email r)), (''phone'', JStr (rx_phone r)),
      (''location'', JStr (rx_location r)), (''linkedin'', JStr (rx_linkedin r)), (''github'', JStr (rx_github r)),
      (''title'', JStr (rx_title r)), (''summary'', JStr (rx_summary r)), (''skills'', JList (map JStr (rx_skills r))),
      (''experience'', JList (map (\<lambda>e. JDict [(''title'', JStr (xi_title e)), (''company'', JStr (xi_company e)),
         (''duration'', JStr (xi_duration e)), (''description'', JStr (xi_description e))]) (rx_experience r))),
      (''education'', JList (map (\<lambda>e. JDict [(''degree'', JStr (ei_degree e)), (''institution'', JStr (ei_institution e)),
         (''year'', JStr (ei_year e))]) (rx_education r))),
      (''certifications'', JList (map JStr (rx_certifications r))),
      (''projects'', JList (map (\<lambda>(n, d). JDict [(''name'', JStr n), (''description'', JStr d)]) (rx_projects r)))]"

definition ATS_OPTIMIZE_SYSTEM_PROMPT :: str where
  "ATS_OPTIMIZE_SYSTEM_PROMPT = join_with [NL]
    [''You are an ATS (Applicant Tracking System) optimization specialist. Your task is to rewrite a resume to maximize its ATS compatibility score for a specific job posting.'',
     [],
     ''RULES:'',
     ''1. NEVER fabricate experience, skills, or qualifications.'',
     ''2. Incorporate missing keywords naturally into existing content where the candidate genuinely has that experience.'',
     ''3. Mirror the exact terminology from the job posting.'',
     ''4. Use standard section headings that ATS systems recognize.'',
     ''5. Front-load the most relevant skills and experience.'',
     ''6. Quantify achievements with metrics wherever the data supports it.'',
     ''7. Ensure every required skill from the job posting is mentioned if the candidate has it, even if worded differently in the original.'',
     ''8. Return ONLY valid JSON matching the required schema.'']"

definition RESUME_TAILOR_SYSTEM_PROMPT :: str where
  "RESUME_TAILOR_SYSTEM_PROMPT = join_with [NL]
    [''You are an expert resume writer and career coach. Your task is to tailor a candidate'' @ APOS @ ''s resume for a specific job posting.'',
     [],
     ''RULES:'',
     ''1. NEVER fabricate experience, skills, or qualifications not present in the original resume.'',
     ''2. Rewrite the professional summary to target the specific role.'',
     ''3. Reorder and emphasize skills that match the job requirements.'',
     ''4. Rewrite experience bullet points to highlight achievements and responsibilities relevant to the target job.'',
     ''5. Use strong action verbs and quantify achievements where the original data supports it.'',
     ''6. Preserve ALL factual content -- dates, company names, degrees, and certifications must remain unchanged.'',
     ''7. Use industry-standard terminology from the job posting where it accurately describes the candidate'' @ APOS @ ''s experience.'',
     ''8. Return ONLY valid JSON matching the required schema.'']"

definition render_resume_tailor_prompt :: "(real \<Rightarrow> str) \<Rightarrow> resume_data \<Rightarrow> str \<Rightarrow> str" where
  "render_resume_tailor_prompt rp r job_description = join_with [NL]
    [''Tailor the following resume for the job posting below.'',
     [],
     ''CURRENT RESUME DATA:'',
     json_indented rp 0 (resume_json r),
     [],
     ''TARGET JOB POSTING:'',
     job_description,
     [],
     ''Instructions:'',
     ''- Rewrite the '' @ QUOT @ ''summary'' @ QUOT @ '' field to directly address this role.'',
     ''- Reorder '' @ QUOT @ ''skills'' @ QUOT @ '' so the most relevant ones appear first.'',
     ''- In each experience entry'' @ APOS @ ''s '' @ QUOT @ ''description'' @ QUOT @ '' field, rewrite the bullet points (newline-separated) to emphasize relevant achievements.'',
     ''- Keep '' @ QUOT @ ''name'' @ QUOT @ '', '' @ QUOT @ ''email'' @ QUOT @ '', '' @ QUOT @ ''phone'' @ QUOT @ '', '' @ QUOT @ ''location'' @ QUOT @ '', '' @ QUOT @ ''linkedin'' @ QUOT @ '', '' @ QUOT @ ''github'' @ QUOT @ '' unchanged.'',
     ''- Keep all '' @ QUOT @ ''company'' @ QUOT @ '', '' @ QUOT @ ''duration'' @ QUOT @ '', '' @ QUOT @ ''degree'' @ QUOT @ '', '' @ QUOT @ ''institution'' @ QUOT @ '', '' @ QUOT @ ''year'' @ QUOT @ '' values unchanged.'',
     ''- If the candidate has skills that match the job but are worded differently, use the job posting'' @ APOS @ ''s terminology.'',
     [],
     ''Return the complete tailored resume as a JSON object.'']"

definition score_breakdown :: "score_response \<Rightarrow> jvalue" where
  "score_breakdown s = JDict
     [(''overall_score'', JFloat (sr_overall s)), (''skill_score'', JFloat (sr_skill s)),
      (''experience_score'', JFloat (sr_experience s)), (''education_score'', JFloat (sr_education s)),
      (''keyword_score'', JFloat (sr_keyword s)), (''missing_skills'', JList (map JStr (sr_missing s)))]"

definition render_ats_optimize_prompt :: "(real \<Rightarrow> str) \<Rightarrow> str \<Rightarrow> str \<Rightarrow> score_response \<Rightarrow> str list \<Rightarrow> str" where
  "render_ats_optimize_prompt rp resume_text job_description s suggestions = join_with [NL]
    [''Optimize the following resume to maximize its ATS score for the job posting below.'',
     [],
     ''CURRENT RESUME:'',
     resume_text,
     [],
     ''TARGET JOB POSTING:'',
     job_description,
     [],
     ''CURRENT ATS SCORE ANALYSIS:'',
     json_indented rp 0 (score_breakdown s),
     [],
     ''IMPROVEMENT SUGGESTIONS:'',
     join_with [NL] (map (\<lambda>x. ''- '' @ x) suggestions),
     [],
     ''Instructions:'',
     ''- Address each suggestion above in your rewrite.'',
     ''- For missing skills: if the candidate has the skill under a different name, use the job posting'' @ APOS @ ''s terminology instead.'',
     ''- For low keyword scores: weave job-specific keywords into the summary and experience descriptions naturally.'',
     ''- For experience gaps: rewrite bullet points to emphasize the most relevant responsibilities and achievements.'',
     ''- Preserve all dates, company names, degrees, and certifications.'',
     ''- Keep the same structure: name, contact info, summary, skills, experience, education, certifications, projects.'',
     [],
     ''Return the optimized resume as a JSON object.'']"

text \<open>The environments of the generator and of the optimiser with the program's own prompts.\<close>

definition filled_prompt :: "cover_template \<Rightarrow> str \<Rightarrow> str \<Rightarrow> str \<Rightarrow> str" where
  "filled_prompt t job_description candidate_resume section_text =
     (case py_format (template_prompt t) (prompt_args t job_description candidate_resume section_text []) of
        Inl _ \<Rightarrow> [] | Inr s \<Rightarrow> s)"

definition prompted :: "(real \<Rightarrow> str) \<Rightarrow> doc_env \<Rightarrow> doc_env" where
  "prompted rp E = E\<lparr>de_prompt := filled_prompt, de_tailor_prompt := render_resume_tailor_prompt rp,
     de_tailor_system := RESUME_TAILOR_SYSTEM_PROMPT\<rparr>"

definition prompted_gen :: "(real \<Rightarrow> str) \<Rightarrow> gen_env \<Rightarrow> gen_env" where
  "prompted_gen rp G = G\<lparr>ge_doc := prompted rp (ge_doc G), ge_optimize_prompt := render_ats_optimize_prompt rp,
     ge_optimize_system := ATS_OPTIMIZE_SYSTEM_PROMPT\<rparr>"

section \<open>Reviews\<close>

text \<open>The summary of a run: its trajectory and then its signals.\<close>

definition opt_json :: "str option \<Rightarrow> jvalue" where
  "opt_json x = (case x of None \<Rightarrow> JNull | Some s \<Rightarrow> JStr s)"

definition run_summary :: "run_trajectory \<Rightarrow> run_signals \<Rightarrow> jvalue" where
  "run_summary traj sg = JDict
     ([(''application_id'', JStr (tj_application traj)), (''platform'', JStr (tj_platform traj)),
       (''agent_self_report'', opt_json (tj_self_report traj)), (''status'', JStr (tj_status traj)),
       (''errors'', JList (map JStr (sg_errors sg))), (''evaluations'', JList (map JStr (sg_evaluations sg))),
       (''consecutive_failures'', JInt (int (sg_consecutive_failures sg))), (''loop_detected'', JBool (sg_loop_detected sg)),
       (''timed_out'', JBool (sg_timed_out sg)), (''llm_error'', JBool (sg_llm_error sg))]
      @ (case sg_final_url sg of None \<Rightarrow> [] | Some u \<Rightarrow> [(''final_url'', JStr u)]))"

definition evidence :: "(real \<Rightarrow> str) \<Rightarrow> run_trajectory \<Rightarrow> run_signals \<Rightarrow> str" where
  "evidence rp traj sg = take 4000 (json_line rp (run_summary traj sg))"

lemma evidence_is_one_line:
  assumes "\<And>x. printable (rp x)"
  shows "printable (evidence rp traj sg) \<and> length (evidence rp traj sg) \<le> 4000"
proof -
  have "printable (json_line rp (run_summary traj sg))" by (rule json_line_printable [OF assms])
  then show ?thesis by (auto simp: evidence_def printable_def list_all_iff dest: in_set_takeD)
qed

definition JUDGE_SYSTEM :: str where
  "JUDGE_SYSTEM =
     ''You are an impartial auditor of a job-application automation run. Decide whether the application was actually submitted, based only on the evidence in the trajectory. Do not trust the agent'' @ APOS @ ''s own claim of success. Respond with the structured verdict.''"

definition DISTIL_SYSTEM :: str where
  "DISTIL_SYSTEM =
     ''You distill durable, reusable knowledge about a website from an automation run -- the stable map of the site (selectors, URL patterns, hidden waits, traps), NOT a narration of this specific task and NEVER any personal data, credentials, emails, or tokens. If there is nothing durable worth saving, set worth_saving=false.''"

definition judge_prompt :: "(real \<Rightarrow> str) \<Rightarrow> run_trajectory \<Rightarrow> run_signals \<Rightarrow> str" where
  "judge_prompt rp traj sg = join_with [NL]
    [''Judge this application run. Evidence (final URL, last screenshot description, the agent'' @ APOS @ ''s reported result, and any errors):'',
     evidence rp traj sg,
     [],
     ''Was the application actually submitted? Give verdict, confidence (0-1), and reason.'']"

definition distil_prompt :: "(real \<Rightarrow> str) \<Rightarrow> run_trajectory \<Rightarrow> run_signals \<Rightarrow> str" where
  "distil_prompt rp traj sg = join_with [NL]
    [''Review this automation run on '' @ APOS @ tj_platform traj @ APOS @ ''. What durable site knowledge would let us complete it in 1-3 steps next time? Trajectory summary:'',
     evidence rp traj sg,
     [],
     ''Return worth_saving and the skill content (markdown). Exclude all personal data.'']"

text \<open>The reading of an answer: \<^verbatim>\<open>json.loads\<close> with pydantic's validation for the two schemas.\<close>

record review_env =
  re_repr :: "real \<Rightarrow> str"
  re_judge_schema :: str
  re_judge_parse :: "str \<Rightarrow> str + judge_output"
  re_distil_schema :: str
  re_distil_parse :: "str \<Rightarrow> str + distilled_skill"

definition judge_run :: "review_env \<Rightarrow> llm_client \<Rightarrow> run_trajectory \<Rightarrow> run_signals \<Rightarrow> (llm_world, exn, judge_output) op" where
  "judge_run V c traj sg =
     client_structured c (re_judge_schema V) (re_judge_parse V) (judge_prompt (re_repr V) traj sg) JUDGE_SYSTEM ''harness_judge''"

definition distil_skill ::
  "review_env \<Rightarrow> llm_client \<Rightarrow> run_trajectory \<Rightarrow> run_signals \<Rightarrow> (llm_world, exn, distilled_skill) op" where
  "distil_skill V c traj sg =
     client_structured c (re_distil_schema V) (re_distil_parse V) (distil_prompt (re_repr V) traj sg) DISTIL_SYSTEM ''skill_distill''"

text \<open>\<^verbatim>\<open>review_run\<close> with the client that \<^verbatim>\<open>review_application_run\<close> builds for the owner of the run.\<close>

definition record_judgement ::
  "(nat \<Rightarrow> str) \<Rightarrow> run_trajectory \<Rightarrow> run_signals \<Rightarrow> judge_output \<Rightarrow> (db, exn, failure_class option) op" where
  "record_judgement gen traj sg judge d =
     (case record_verdict (gen 0) (tj_user traj) (tj_id traj) judge d of
        (d1, Inl e) \<Rightarrow> (d1, Inl e)
      | (d1, Inr _) \<Rightarrow>
         (if jo_verdict judge = SUCCESS then (d1, Inr None)
          else
            (case record_diagnosis (gen 1) (tj_user traj) (tj_id traj) (diagnose sg) sg d1 of
               (d2, Inl e) \<Rightarrow> (d2, Inl e)
             | (d2, Inr _) \<Rightarrow> (d2, Inr (Some (dg_class (diagnose sg)))))))"

definition save_skill :: "ner \<Rightarrow> (nat \<Rightarrow> str) \<Rightarrow> run_trajectory \<Rightarrow> distilled_skill \<Rightarrow> (db, exn, str option) op" where
  "save_skill ner gen traj ds d =
     (if ds_worth_saving ds \<and> strip (ds_content ds) \<noteq> []
      then (case record_skill ner (\<lambda>_ x. x) (gen 2) (tj_platform traj) (ds_content ds) ''distiller'' d of
              (d', Inl e) \<Rightarrow> (d', Inl e)
            | (d', Inr sk) \<Rightarrow> (d', Inr (map_option sk_id sk)))
      else (d, Inr None))"

definition on_rows :: "(db, exn, 'a) op \<Rightarrow> (llm_world, exn, 'a) op" where
  "on_rows f w = (case f (lw_db w) of (d, r) \<Rightarrow> (w\<lparr>lw_db := d\<rparr>, r))"

definition review_with ::
  "review_env \<Rightarrow> ner \<Rightarrow> llm_client \<Rightarrow> (nat \<Rightarrow> str) \<Rightarrow> run_trajectory \<Rightarrow> run_signals \<Rightarrow> (llm_world, exn, review_outcome) op" where
  "review_with V ner c gen traj sg w =
     (case judge_run V c traj sg w of
        (w1, Inl e) \<Rightarrow> (w1, Inl e)
      | (w1, Inr judge) \<Rightarrow>
         (case on_rows (record_judgement gen traj sg judge) w1 of
            (w2, Inl e) \<Rightarrow> (w2, Inl e)
          | (w2, Inr fc) \<Rightarrow>
             (case distil_skill V c traj sg w2 of
                (w3, Inl e) \<Rightarrow> (w3, Inl e)
              | (w3, Inr ds) \<Rightarrow>
                 (case on_rows (save_skill ner gen traj ds) w3 of
                    (w4, Inl e) \<Rightarrow> (w4, Inl e)
                  | (w4, Inr sid) \<Rightarrow>
                      (w4, Inr \<lparr>ro_verdict = jo_verdict judge, ro_failure_class = fc, ro_skill_id = sid\<rparr>)))))"

section \<open>What the model reads\<close>

lemma frame_split:
  "unlines (l # [] # ''JOB DESCRIPTION:'' # ''{job_description}'' # [] # ''CANDIDATE RESUME:'' # ''{candidate_resume}'' # []
      # ''{company_section}'' # rest) =
   (l @ [NL, NL] @ ''JOB DESCRIPTION:'' @ [NL]) @ CHR ''{'' # ''job_description'' @ CHR ''}''
     # ([NL, NL] @ ''CANDIDATE RESUME:'' @ [NL]) @ CHR ''{'' # ''candidate_resume'' @ CHR ''}''
     # [NL, NL] @ CHR ''{'' # ''company_section'' @ CHR ''}'' # [NL] @ unlines rest"
  by (simp add: unlines_Cons)

definition letter_text :: "str \<Rightarrow> str \<Rightarrow> str \<Rightarrow> str \<Rightarrow> str \<Rightarrow> str" where
  "letter_text intro jd cv sec rest =
     intro @ [NL, NL] @ ''JOB DESCRIPTION:'' @ [NL] @ jd @ [NL, NL] @ ''CANDIDATE RESUME:'' @ [NL] @ cv
       @ [NL, NL] @ sec @ [NL] @ rest"

lemma args_found:
  "map_of (prompt_args t jd cv sec ri) ''job_description'' = Some jd"
  "map_of (prompt_args t jd cv sec ri) ''candidate_resume'' = Some cv"
  "map_of (prompt_args t jd cv sec ri) ''company_section'' = Some sec"
  "map_of (prompt_args REFERRAL jd cv sec ri) ''referral_info'' =
     Some (if ri = [] then ''No referral details provided.'' else ri)"
  by (simp_all add: prompt_args_def)

lemma plain_names: "plain ''job_description''" "plain ''candidate_resume''" "plain ''company_section''" "plain ''referral_info''"
  "plain ''JOB DESCRIPTION:''" "plain ''CANDIDATE RESUME:''" "plain ''REFERRAL INFORMATION:''" "plain [NL]" "plain [NL, NL]"
  by code_simp+

lemma format_frame:
  assumes "plain l"
    and "s = unlines (l # [] # ''JOB DESCRIPTION:'' # ''{job_description}'' # [] # ''CANDIDATE RESUME:'' # ''{candidate_resume}'' # []
      # ''{company_section}'' # rest)"
  shows "py_format s (prompt_args t jd cv sec ri) =
     map_sum id (letter_text l jd cv sec) (py_format (unlines rest) (prompt_args t jd cv sec ri))"
proof -
  have pl: "plain (l @ [NL, NL] @ ''JOB DESCRIPTION:'' @ [NL])" "plain ([NL, NL] @ ''CANDIDATE RESUME:'' @ [NL])"
    using assms(1) plain_names by simp_all
  show ?thesis
    unfolding assms(2) frame_split format_plain [OF pl(1)] format_plain [OF pl(2)] format_plain [OF plain_names(9)]
      format_plain [OF plain_names(8)] format_field [OF plain_names(1) list.discI [OF refl] args_found(1)]
      format_field [OF plain_names(2) list.discI [OF refl] args_found(2)]
      format_field [OF plain_names(3) list.discI [OF refl] args_found(3)]
    by (cases "py_format (unlines rest) (prompt_args t jd cv sec ri)") (simp_all add: letter_text_def)
qed

definition referral_part :: "cover_template \<Rightarrow> str \<Rightarrow> str" where
  "referral_part t ri =
     (if t = REFERRAL
      then [NL] @ ''REFERRAL INFORMATION:'' @ [NL] @ (if ri = [] then ''No referral details provided.'' else ri) @ [NL]
      else [])"

lemma format_referral:
  assumes "plain (unlines rest)"
  shows "py_format (unlines ([] # ''REFERRAL INFORMATION:'' # ''{referral_info}'' # rest)) (prompt_args REFERRAL jd cv sec ri) =
     Inr (referral_part REFERRAL ri @ unlines rest)"
proof -
  have pl: "plain ([NL] @ ''REFERRAL INFORMATION:'' @ [NL])" "plain ([NL] @ unlines rest)" using assms plain_names by simp_all
  have split: "unlines ([] # ''REFERRAL INFORMATION:'' # ''{referral_info}'' # rest) =
      ([NL] @ ''REFERRAL INFORMATION:'' @ [NL]) @ CHR ''{'' # ''referral_info'' @ CHR ''}'' # [NL] @ unlines rest"
    by (simp add: unlines_Cons)
  show ?thesis
    unfolding split format_plain [OF pl(1)] format_field [OF plain_names(4) list.discI [OF refl] args_found(4)]
      format_end [OF pl(2)] map_sum.simps
    by (simp add: referral_part_def)
qed

lemma plain_unlines: "list_all plain ls \<Longrightarrow> plain (unlines ls)"
  by (induction ls) (simp_all add: unlines_def)

lemma py_in_last_line: "py_in p l \<Longrightarrow> py_in p (unlines (ls @ [l]))"
  unfolding py_in_iff_sublist unlines_append by (simp add: unlines_def sublist_append)

lemma template_renders_ordinary:
  assumes "template_prompt t = unlines (l # [] # ''JOB DESCRIPTION:'' # ''{job_description}'' # [] # ''CANDIDATE RESUME:''
      # ''{candidate_resume}'' # [] # ''{company_section}'' # rest)"
    and "plain l" and "list_all plain rest" and "py_in ''Do NOT fabricate'' (last rest)" and "rest \<noteq> []" and "t \<noteq> REFERRAL"
  shows "\<exists>intro rules. py_in ''Do NOT fabricate'' rules \<and>
     (\<forall>jd cv sec ri. py_format (template_prompt t) (prompt_args t jd cv sec ri) =
        Inr (letter_text intro jd cv sec (referral_part t ri @ rules)))"
proof (rule exI [of _ l], rule exI [of _ "unlines rest"], intro conjI allI)
  show "py_in ''Do NOT fabricate'' (unlines rest)"
    using py_in_last_line [OF assms(4), of "butlast rest"] assms(5) by simp
  show "py_format (template_prompt t) (prompt_args t jd cv sec ri) = Inr (letter_text l jd cv sec (referral_part t ri @ unlines rest))"
    for jd cv sec ri
    using assms(6) by (simp add: format_frame [OF assms(2,1)] format_end [OF plain_unlines [OF assms(3)]] referral_part_def)
qed

lemma template_renders_referral:
  assumes "PROMPT_REFERRAL = unlines (l # [] # ''JOB DESCRIPTION:'' # ''{job_description}'' # [] # ''CANDIDATE RESUME:''
      # ''{candidate_resume}'' # [] # ''{company_section}'' # [] # ''REFERRAL INFORMATION:'' # ''{referral_info}'' # rest)"
    and "plain l" and "list_all plain rest" and "py_in ''Do NOT fabricate'' (last rest)" and "rest \<noteq> []"
  shows "\<exists>intro rules. py_in ''Do NOT fabricate'' rules \<and>
     (\<forall>jd cv sec ri. py_format PROMPT_REFERRAL (prompt_args REFERRAL jd cv sec ri) =
        Inr (letter_text intro jd cv sec (referral_part REFERRAL ri @ rules)))"
proof (rule exI [of _ l], rule exI [of _ "unlines rest"], intro conjI allI)
  show "py_in ''Do NOT fabricate'' (unlines rest)"
    using py_in_last_line [OF assms(4), of "butlast rest"] assms(5) by simp
  show "py_format PROMPT_REFERRAL (prompt_args REFERRAL jd cv sec ri) = Inr (letter_text l jd cv sec (referral_part REFERRAL ri @ unlines rest))"
    for jd cv sec ri
    by (simp only: format_frame [OF assms(2,1)] format_referral [OF plain_unlines [OF assms(3)]] map_sum.simps)
qed

lemma template_renders:
  "\<exists>intro rules. py_in ''Do NOT fabricate'' rules \<and>
     (\<forall>jd cv sec ri. py_format (template_prompt t) (prompt_args t jd cv sec ri) =
        Inr (letter_text intro jd cv sec (referral_part t ri @ rules)))"
proof (cases t)
  case STANDARD
  show ?thesis by (rule template_renders_ordinary [OF PROMPT_STANDARD_def [folded template_prompt.simps(1) STANDARD]])
      (simp_all only: STANDARD, (code_simp | simp)+)
next
  case TECHNICAL
  show ?thesis by (rule template_renders_ordinary [OF PROMPT_TECHNICAL_def [folded template_prompt.simps(2) TECHNICAL]])
      (simp_all only: TECHNICAL, (code_simp | simp)+)
next
  case CREATIVE
  show ?thesis by (rule template_renders_ordinary [OF PROMPT_CREATIVE_def [folded template_prompt.simps(3) CREATIVE]])
      (simp_all only: CREATIVE, (code_simp | simp)+)
next
  case EXECUTIVE
  show ?thesis by (rule template_renders_ordinary [OF PROMPT_EXECUTIVE_def [folded template_prompt.simps(4) EXECUTIVE]])
      (simp_all only: EXECUTIVE, (code_simp | simp)+)
next
  case CAREER_CHANGE
  show ?thesis by (rule template_renders_ordinary [OF PROMPT_CAREER_CHANGE_def [folded template_prompt.simps(5) CAREER_CHANGE]])
      (simp_all only: CAREER_CHANGE, (code_simp | simp)+)
next
  case REFERRAL
  show ?thesis unfolding REFERRAL template_prompt.simps
    by (rule template_renders_referral [OF PROMPT_REFERRAL_def]) (code_simp | simp)+
qed

text \<open>The requests of a call carry its messages.\<close>

lemma client_complete_sent:
  "\<exists>rqs. lw_sent (fst (client_complete c prompt purpose w)) = lw_sent w @ rqs
     \<and> list_all (\<lambda>rq. rq_messages rq = [(''user'', prompt)]) rqs"
proof -
  let ?a = "\<lparr>ca_prompt = prompt, ca_system = [], ca_model = None, ca_temperature = None, ca_max_tokens = None,
        ca_format = None, ca_purpose = purpose\<rparr>"
  let ?ms = "get_model_chain (cl_settings c) (cl_creds c) None"
  let ?k = "fst (first_answer (outcome (cl_lib c) (cl_settings c) (cl_creds c) ?a) 0 ?ms (0, Inl None))"
  have "lw_sent (fst (client_complete c prompt purpose w)) =
      lw_sent w @ map (request_for (cl_settings c) (cl_creds c) ?a) (take ?k ?ms)"
    by (simp add: client_complete_def complete_call_cases try_models_sent)
  moreover have "list_all (\<lambda>rq. rq_messages rq = [(''user'', prompt)])
      (map (request_for (cl_settings c) (cl_creds c) ?a) (take ?k ?ms))"
    by (auto simp: list_all_iff request_for_def build_messages_def)
  ultimately show ?thesis by blast
qed

text \<open>
  C31: a cover letter's prompt says what the template says. Every template renders for every text, also for
  one with braces, and the prompt is its opening, the job description, the resume and the company verbatim in
  their places, the referral where the style has one, and its rules, which forbid to fabricate; and this text
  is the one message of every request that the generation of a letter sends.
\<close>

theorem letter_prompts_faithful:
  "\<exists>intro rules. py_in ''Do NOT fabricate'' rules
     \<and> (\<forall>jd cv co ri. render_letter_prompt t jd cv co ri =
          Inr (letter_text intro jd cv (company_section co) (referral_part t ri @ rules)))
     \<and> (\<forall>E c jd cv co w. \<exists>rqs. lw_sent (fst (generate_letter_content (prompted rp E) (Some c) t jd cv co w)) = lw_sent w @ rqs
          \<and> list_all (\<lambda>rq. rq_messages rq = [(''user'', letter_text intro jd cv (company_section co) (referral_part t [] @ rules))]) rqs)"
proof -
  obtain intro rules where t: "py_in ''Do NOT fabricate'' rules"
      "\<And>jd cv sec ri. py_format (template_prompt t) (prompt_args t jd cv sec ri) =
        Inr (letter_text intro jd cv sec (referral_part t ri @ rules))"
    using template_renders [of t] by blast
  have prompt: "render_prompt (prompted rp E) t jd cv co = letter_text intro jd cv (company_section co) (referral_part t [] @ rules)"
    for E jd cv co
    by (simp add: render_prompt_def prompted_def filled_prompt_def t(2) company_section_def)
  have sent: "fst (generate_letter_content (prompted rp E) (Some c) t jd cv co w) =
      fst (client_complete c (letter_text intro jd cv (company_section co) (referral_part t [] @ rules)) ''cover_letter'' w)"
    for E c jd cv co w
    by (simp add: generate_letter_content_def prompt split: prod.split sum.split)
  show ?thesis
    by (rule exI [of _ intro], rule exI [of _ rules])
      (simp add: t render_letter_prompt_def sent client_complete_sent del: letter_text_def)
qed

section \<open>What a review costs\<close>

lemma client_structured_bills:
  assumes "db_ok (lw_db w)" and "usage_session (cl_lib c)" and "cl_user c = Some u" and "u \<noteq> []"
    and "client_structured c schema parse prompt sys purpose w = (w', out)"
  shows "\<exists>rows. lw_db w' = lw_db w\<lparr>llm_usages := llm_usages (lw_db w) @ rows\<rparr> \<and> length rows \<le> 1
    \<and> list_all (\<lambda>x. lu_user x = u \<and> lu_purpose x = coerce_purpose purpose) rows \<and> (rows = [] \<longrightarrow> (\<exists>e. out = Inl e))"
proof -
  let ?a = "\<lparr>ca_prompt = prompt, ca_system = structured_system sys schema, ca_model = None, ca_temperature = None,
     ca_max_tokens = None, ca_format = Some ''json_object'', ca_purpose = purpose\<rparr>"
  let ?t = "try_models (cl_lib c) (cl_settings c) (cl_creds c) (cl_user c) ?a 0
     (get_model_chain (cl_settings c) (cl_creds c) None) None w"
  let ?rows = "billed (cl_lib c) (Some u) purpose (answer (snd ?t))"
  have db: "lw_db (fst ?t) = lw_db w\<lparr>llm_usages := llm_usages (lw_db w) @ ?rows\<rparr>"
    using try_models_db [OF assms(1), of "cl_lib c" "cl_settings c" "cl_creds c" "cl_user c" ?a] assms(3) by simp
  have w': "w' = fst ?t" and out: "\<And>e. snd ?t = Inl e \<Longrightarrow> \<exists>e. out = Inl e"
    using assms(5) by (auto simp: client_structured_def complete_with_structured_output_def complete_call_cases
        split: prod.splits sum.splits)
  have rows: "length ?rows \<le> 1 \<and> list_all (\<lambda>x. lu_user x = u \<and> lu_purpose x = coerce_purpose purpose) ?rows
      \<and> (?rows = [] \<longrightarrow> (\<exists>e. snd ?t = Inl e))"
    using assms(2,4) by (cases "snd ?t") (simp_all add: billed_def usage_row_def)
  show ?thesis using db rows out unfolding w' by blast
qed

lemma judgement_recorded:
  assumes "db_ok d" and "record_judgement gen traj sg judge d = (d', out)"
  shows "(\<exists>v. verdicts d' = verdicts d @ [v] \<and> rv_run v = tj_id traj \<and> rv_user v = tj_user traj \<and> rv_verdict v = jo_verdict judge)
    \<and> db_ok d' \<and> llm_usages d' = llm_usages d
    \<and> out = Inr (if jo_verdict judge = SUCCESS then None else Some (dg_class (diagnose sg)))"
proof -
  let ?d1 = "d\<lparr>verdicts := verdicts d @ [\<lparr>rv_id = gen 0, rv_user = tj_user traj, rv_run = tj_id traj, rv_verdict = jo_verdict judge,
       rv_confidence = jo_confidence judge, rv_reason = jo_reason judge, rv_model = None\<rparr>]\<rparr>"
  have ok: "db_ok ?d1" "db_ok (x\<lparr>diagnoses := ds\<rparr>) = db_ok x" for x ds
    using assms(1) by (simp_all add: db_ok_def pk_ok_def uq_shared_def)
  show ?thesis
    using assms(2) record_verdict_ok [OF assms(1)] record_diagnosis_ok [OF ok(1)] ok
    by (auto simp: record_judgement_def split: if_splits)
qed

lemma skill_saved:
  assumes "save_skill ner gen traj ds d = (d', out)"
  shows "verdicts d' = verdicts d \<and> llm_usages d' = llm_usages d"
  using assms record_skill_frame [of ner "gen 2" "tj_platform traj" "ds_content ds" "''distiller''" d]
  by (auto simp: save_skill_def split: if_splits prod.splits sum.splits)

lemma purposes: "coerce_purpose ''harness_judge'' = HARNESS_JUDGE" "coerce_purpose ''skill_distill'' = SKILL_DISTILL"
  by code_simp+

text \<open>What follows the judgement.\<close>

lemma review_after_judgement:
  assumes "db_ok (lw_db w1)" and "usage_session (cl_lib c)" and "cl_user c = Some (tj_user traj)" and "tj_user traj \<noteq> []"
    and "judge_run V c traj sg w = (w1, Inr judge)" and "review_with V ner c gen traj sg w = (w', out)"
  shows "\<exists>v r2. llm_usages (lw_db w') = llm_usages (lw_db w1) @ r2 \<and> verdicts (lw_db w') = verdicts (lw_db w1) @ [v]
    \<and> rv_run v = tj_id traj \<and> rv_user v = tj_user traj \<and> length r2 \<le> 1
    \<and> list_all (\<lambda>x. lu_user x = tj_user traj \<and> lu_purpose x = SKILL_DISTILL) r2
    \<and> (case out of Inl _ \<Rightarrow> True | Inr r \<Rightarrow> r2 \<noteq> [] \<and> ro_verdict r = rv_verdict v)"
proof -
  obtain d2 o2 where d2: "record_judgement gen traj sg judge (lw_db w1) = (d2, o2)" by fastforce
  from judgement_recorded [OF assms(1) d2] obtain v fc where v: "verdicts d2 = verdicts (lw_db w1) @ [v]" "rv_run v = tj_id traj"
      "rv_user v = tj_user traj" "rv_verdict v = jo_verdict judge" "db_ok d2" "llm_usages d2 = llm_usages (lw_db w1)" "o2 = Inr fc"
    by blast
  obtain w3 ds where w3: "distil_skill V c traj sg (w1\<lparr>lw_db := d2\<rparr>) = (w3, ds)" by fastforce
  have "db_ok (lw_db (w1\<lparr>lw_db := d2\<rparr>))" using v(5) by simp
  from client_structured_bills [OF this assms(2-4) w3 [unfolded distil_skill_def]] obtain r2 where r2:
      "lw_db w3 = d2\<lparr>llm_usages := llm_usages d2 @ r2\<rparr>" "length r2 \<le> 1"
      "list_all (\<lambda>x. lu_user x = tj_user traj \<and> lu_purpose x = SKILL_DISTILL) r2" "r2 = [] \<longrightarrow> (\<exists>e. ds = Inl e)"
    unfolding purposes by auto
  have "llm_usages (lw_db w') = llm_usages (lw_db w1) @ r2 \<and> verdicts (lw_db w') = verdicts (lw_db w1) @ [v]
      \<and> (case out of Inl _ \<Rightarrow> True | Inr r \<Rightarrow> r2 \<noteq> [] \<and> ro_verdict r = rv_verdict v)"
  proof (cases ds)
    case (Inl e)
    then have "w' = w3 \<and> out = Inl e" using assms(5,6) d2 v(7) w3 by (simp add: review_with_def on_rows_def)
    then show ?thesis using r2(1) v by simp
  next
    case (Inr s)
    obtain d4 o4 where d4: "save_skill ner gen traj s (lw_db w3) = (d4, o4)" by fastforce
    then have "w' = w3\<lparr>lw_db := d4\<rparr> \<and> (case out of Inl _ \<Rightarrow> True | Inr r \<Rightarrow> ro_verdict r = jo_verdict judge)"
      using assms(5,6) d2 v(7) w3 Inr by (cases o4) (auto simp: review_with_def on_rows_def)
    with skill_saved [OF d4] show ?thesis using r2 v Inr by (auto split: sum.split)
  qed
  with v(2,3) r2(2,3) show ?thesis by blast
qed


definition sample_review :: review_env where
  "sample_review = \<lparr>re_repr = (\<lambda>_. ''0.5''), re_judge_schema = ''{}'',
     re_judge_parse = (\<lambda>_. Inr \<lparr>jo_verdict = VERDICT_FAILED, jo_confidence = 1, jo_reason = []\<rparr>), re_distil_schema = ''{}'',
     re_distil_parse = (\<lambda>_. Inr \<lparr>ds_worth_saving = False, ds_content = []\<rparr>)\<rparr>"

definition sample_reviewer :: llm_client where
  "sample_reviewer = \<lparr>cl_lib = sample_litellm, cl_settings = sample_llm_settings, cl_creds = None, cl_user = Some ''u1''\<rparr>"


end
