(* ===== verification/Renderer.thy ===== *)
theory Renderer
  imports Documents
begin

text \<open>
  The files of the document generation: the PDF renderer (\<^verbatim>\<open>core/documents/pdf_renderer.py\<close>) with its
  templates, the files that the Word renderer writes, and the move of the rendered temporary files into the
  tenant's storage (\<^verbatim>\<open>core/storage/documents.py\<close>). Jinja2, WeasyPrint and the file format of python-docx are
  fields of \<open>render_lib\<close>; the file system is that of Storage.
\<close>

section \<open>Writing an output file\<close>

record render_lib =
  rl_jinja :: "str \<Rightarrow> resume_data \<Rightarrow> exn + str"
  rl_css_file :: "str \<Rightarrow> exn + str"
  rl_css_string :: "str \<Rightarrow> exn + str"
  rl_write_pdf :: "str \<Rightarrow> str list \<Rightarrow> exn + str"
  rl_docx :: "docx_block list \<Rightarrow> exn + str"

text \<open>
  The parents are made first, then the library produces the content, which it writes to the path.
\<close>

definition write_output :: "path \<Rightarrow> exn + str \<Rightarrow> (fs, exn, unit) op" where
  "write_output out content f =
     (if list_ex (is_file f) (parents out) then (f, Inl os_error)
      else
        (let f1 = f\<lparr>fs_dirs := fs_dirs f @ filter (\<lambda>q. q \<notin> set (fs_dirs f)) (parents out)\<rparr>
         in case content of
              Inl e \<Rightarrow> (f1, Inl e)
            | Inr bytes \<Rightarrow>
                if out \<in> set (fs_dirs f1) then (f1, Inl os_error)
                else (f1\<lparr>fs_files := (out, bytes) # filter (\<lambda>x. fst x \<noteq> out) (fs_files f1)\<rparr>, Inr ())))"

text \<open>\<^verbatim>\<open>except Exception as exc: raise GenerationError(...)\<close> around it.\<close>

definition generating :: "str \<Rightarrow> path \<Rightarrow> exn + str \<Rightarrow> (fs, exn, path) op" where
  "generating message out content f =
     (case write_output out content f of
        (f', Inl e) \<Rightarrow> (f', Inl (GenerationError (message @ '': '' @ exn_message e)))
      | (f', Inr _) \<Rightarrow> (f', Inr out))"

section \<open>The PDF renderer\<close>

definition quoted :: "str \<Rightarrow> str" where
  "quoted s = [CHR 39] @ s @ [CHR 39]"

text \<open>
  \<open>tdir\<close> is the directory of the templates and \<open>shown\<close> its text; the name of the template is joined to it as
  any relative or absolute path is.
\<close>

definition template_dir :: "path \<Rightarrow> str \<Rightarrow> path" where
  "template_dir tdir name = resolve_path (tdir @ [''resume'']) name"

definition render_sync ::
  "render_lib \<Rightarrow> path \<Rightarrow> str \<Rightarrow> str \<Rightarrow> resume_data \<Rightarrow> path \<Rightarrow> (fs, exn, path) op" where
  "render_sync R tdir shown name ctx out f =
     (let dir = template_dir tdir name; dir_text = shown @ ''/resume/'' @ name in
      if \<not> path_exists f dir then (f, Inl (TemplateError name (''Template directory not found at '' @ dir_text)))
      else if \<not> path_exists f (dir @ [''template.html'']) then
        (f, Inl (TemplateError name (''template.html not found in '' @ dir_text)))
      else
        (case (case map_of (fs_files f) (dir @ [''template.html'']) of
                 None \<Rightarrow> Inl (OtherError ''TemplateNotFound'')
               | Some source \<Rightarrow> rl_jinja R source ctx) of
           Inl e \<Rightarrow> (f, Inl e)
         | Inr html \<Rightarrow>
             (case (if path_exists f (dir @ [''style.css''])
                    then (case map_of (fs_files f) (dir @ [''style.css'']) of
                            None \<Rightarrow> Inl os_error
                          | Some css \<Rightarrow> map_sum id (\<lambda>x. [x]) (rl_css_file R css))
                    else Inr []) of
                Inl e \<Rightarrow> (f, Inl e)
              | Inr stylesheets \<Rightarrow>
                  generating (''PDF rendering failed for template '' @ quoted name) out (rl_write_pdf R html stylesheets) f)))"

definition render_html_sync :: "render_lib \<Rightarrow> str \<Rightarrow> path \<Rightarrow> str option \<Rightarrow> (fs, exn, path) op" where
  "render_html_sync R html out css f =
     (case (if truthy css then map_sum id (\<lambda>x. [x]) (rl_css_string R (or_empty css)) else Inr []) of
        Inl e \<Rightarrow> (f, Inl e)
      | Inr stylesheets \<Rightarrow> generating ''PDF rendering from HTML string failed'' out (rl_write_pdf R html stylesheets) f)"

section \<open>The Word renderer's files\<close>

definition docx_render_sync :: "render_lib \<Rightarrow> str \<Rightarrow> resume_data \<Rightarrow> path \<Rightarrow> (fs, exn, path) op" where
  "docx_render_sync R name ctx out f =
     generating (''DOCX rendering failed for template '' @ quoted name) out (rl_docx R (docx_resume ctx)) f"

definition docx_render_letter_sync :: "render_lib \<Rightarrow> str \<Rightarrow> path \<Rightarrow> (fs, exn, path) op" where
  "docx_render_letter_sync R content out f =
     generating ''DOCX cover letter rendering failed'' out (rl_docx R (docx_letter content)) f"

section \<open>Generating and moving\<close>

definition output_path :: "path \<Rightarrow> str \<Rightarrow> str \<Rightarrow> str \<Rightarrow> path" where
  "output_path base kind doc_id ext = base @ [kind, doc_id @ CHR ''.'' # ext]"

text \<open>A renderer's turn: skipped unless its format is asked for, its failure logged.\<close>

definition try_render :: "str list \<Rightarrow> str \<Rightarrow> (fs, exn, path) op \<Rightarrow> fs \<Rightarrow> fs \<times> path option" where
  "try_render formats fmt render f =
     (if fmt \<notin> set formats then (f, None)
      else (case render f of (f', Inl e) \<Rightarrow> (f', None) | (f', Inr p) \<Rightarrow> (f', Some p)))"

record gen_paths =
  gp_id :: str
  gp_type :: str
  gp_template :: str
  gp_pdf :: "path option"
  gp_docx :: "path option"

definition generate_resume_files ::
  "render_lib \<Rightarrow> path \<Rightarrow> str \<Rightarrow> path \<Rightarrow> resume_data \<Rightarrow> str \<Rightarrow> str list \<Rightarrow> str \<Rightarrow> (fs, exn, gen_paths) op" where
  "generate_resume_files R tdir shown base ctx name formats doc_id f =
     (let fs = default_formats formats in
      case try_render fs ''pdf'' (render_sync R tdir shown name ctx (output_path base ''resumes'' doc_id ''pdf'')) f of
        (f1, pdf) \<Rightarrow>
          (case try_render fs ''docx'' (docx_render_sync R name ctx (output_path base ''resumes'' doc_id ''docx'')) f1 of
             (f2, docx) \<Rightarrow>
               (f2, if pdf = None \<and> docx = None
                    then Inl (GenerationError (''All formats failed for resume generation (doc_id='' @ doc_id @ '')''))
                    else Inr \<lparr>gp_id = doc_id, gp_type = ''resume'', gp_template = name, gp_pdf = pdf, gp_docx = docx\<rparr>)))"

text \<open>\<^verbatim>\<open>unlink\<close> with its \<^verbatim>\<open>OSError\<close> suppressed.\<close>

definition unlink_quietly :: "path \<Rightarrow> fs \<Rightarrow> fs" where
  "unlink_quietly p f = f\<lparr>fs_files := filter (\<lambda>x. fst x \<noteq> p) (fs_files f)\<rparr>"

definition paths_key :: "str \<Rightarrow> gen_paths \<Rightarrow> str \<Rightarrow> str" where
  "paths_key u doc ext = (if gp_type doc = ''cover_letter'' then cover_letter_key else resume_key) u (gp_id doc) ext"

definition move_rendered :: "path \<Rightarrow> str \<Rightarrow> str \<Rightarrow> str \<Rightarrow> path option \<Rightarrow> (fs, exn, str option) op" where
  "move_rendered rt u key content_type tmp f =
     (case tmp of
        None \<Rightarrow> (f, Inr None)
      | Some p \<Rightarrow>
         (case map_of (fs_files f) p of
            None \<Rightarrow> (f, Inl os_error)
          | Some bytes \<Rightarrow>
             (case service_put rt u key bytes content_type f of
                (f', Inl e) \<Rightarrow> (f', Inl e)
              | (f', Inr _) \<Rightarrow> (unlink_quietly p f', Inr (Some key)))))"

definition persist_rendered :: "path \<Rightarrow> str \<Rightarrow> gen_paths \<Rightarrow> (fs, exn, str option \<times> str option) op" where
  "persist_rendered rt u doc f =
     (case move_rendered rt u (paths_key u doc ''pdf'') PDF_CONTENT_TYPE (gp_pdf doc) f of
        (f1, Inl e) \<Rightarrow> (f1, Inl e)
      | (f1, Inr pk) \<Rightarrow>
         (case move_rendered rt u (paths_key u doc ''docx'') DOCX_CONTENT_TYPE (gp_docx doc) f1 of
            (f2, Inl e) \<Rightarrow> (f2, Inl e)
          | (f2, Inr dk) \<Rightarrow> (f2, Inr (pk, dk))))"

section \<open>What is written\<close>

lemma write_output_files:
  assumes "write_output out content f = (f', r)"
  shows "(case r of Inr _ \<Rightarrow> \<exists>b. content = Inr b \<and> (\<forall>q. map_of (fs_files f') q = (if q = out then Some b else map_of (fs_files f) q))
     | Inl e \<Rightarrow> fs_files f' = fs_files f \<and> (content = Inl e \<or> e = os_error))"
  using assms by (auto simp: write_output_def Let_def map_of_filter_key [where q = "\<lambda>k. k \<noteq> out"] split: if_splits sum.splits)

lemma generating_files:
  assumes "generating m out content f = (f', r)"
  shows "(case r of Inr p \<Rightarrow> p = out \<and> (\<exists>b. content = Inr b \<and> (\<forall>q. map_of (fs_files f') q = (if q = out then Some b else map_of (fs_files f) q)))
     | Inl e \<Rightarrow> fs_files f' = fs_files f \<and> (\<exists>t. e = GenerationError (m @ '': '' @ t)))"
proof -
  obtain g o1 where g: "write_output out content f = (g, o1)" by fastforce
  from write_output_files [OF g] assms g show ?thesis
    by (cases o1) (auto simp: generating_def)
qed

text \<open>
  the renderer writes its document or nothing. A rendered resume is what WeasyPrint made of the filled
  template and its stylesheet, at the output path, and no other file changes; a missing template or
  stylesheet error stops before anything is written, and a failure of the writing is a \<open>GenerationError\<close>
  that leaves every file as it was.
\<close>

theorem render_writes_or_fails:
  assumes "render_sync R tdir shown name ctx out f = (f', r)"
  shows "(case r of
      Inr p \<Rightarrow> p = out \<and> (\<exists>source html css bytes. map_of (fs_files f) (template_dir tdir name @ [''template.html'']) = Some source
          \<and> rl_jinja R source ctx = Inr html \<and> rl_write_pdf R html css = Inr bytes
          \<and> (css = [] \<longleftrightarrow> \<not> path_exists f (template_dir tdir name @ [''style.css'']))
          \<and> map_of (fs_files f') = (map_of (fs_files f))(out \<mapsto> bytes))
    | Inl e \<Rightarrow> fs_files f' = fs_files f
        \<and> (if \<not> path_exists f (template_dir tdir name) \<or> \<not> path_exists f (template_dir tdir name @ [''template.html''])
           then f' = f \<and> (\<exists>m. e = TemplateError name m)
           else f' = f \<or> (\<exists>m. e = GenerationError m)))"
proof -
  let ?d = "template_dir tdir name" and ?m = "''PDF rendering failed for template '' @ quoted name"
  define html where "html = (case map_of (fs_files f) (?d @ [''template.html'']) of
      None \<Rightarrow> Inl (OtherError ''TemplateNotFound'') | Some source \<Rightarrow> rl_jinja R source ctx)"
  define css where "css = (if path_exists f (?d @ [''style.css''])
      then (case map_of (fs_files f) (?d @ [''style.css'']) of None \<Rightarrow> Inl os_error | Some c \<Rightarrow> map_sum id (\<lambda>x. [x]) (rl_css_file R c))
      else Inr [])"
  have css_empty: "cs = [] \<longleftrightarrow> \<not> path_exists f (?d @ [''style.css''])" if "css = Inr cs" for cs
    using that by (auto simp: css_def map_sum_def split: if_splits option.splits sum.splits)
  show ?thesis
  proof (cases "path_exists f ?d \<and> path_exists f (?d @ [''template.html''])")
    case False
    then have "f' = f \<and> (\<exists>m. r = Inl (TemplateError name m))"
      using assms by (cases "path_exists f ?d") (auto simp: render_sync_def Let_def)
    with False show ?thesis by auto
  next
    case True
    then have run: "(f', r) = (case html of Inl e \<Rightarrow> (f, Inl e) | Inr h \<Rightarrow>
        (case css of Inl e \<Rightarrow> (f, Inl e) | Inr cs \<Rightarrow> generating ?m out (rl_write_pdf R h cs) f))"
      using assms unfolding html_def css_def by (simp add: render_sync_def Let_def)
    show ?thesis
    proof (cases "\<exists>h cs. html = Inr h \<and> css = Inr cs")
      case False
      then show ?thesis using run True by (auto split: sum.splits)
    next
      case found: True
      then obtain h cs where h: "html = Inr h" "css = Inr cs" by blast
      then obtain src where src: "map_of (fs_files f) (?d @ [''template.html'']) = Some src" "rl_jinja R src ctx = Inr h"
        by (auto simp: html_def split: option.splits)
      have "generating ?m out (rl_write_pdf R h cs) f = (f', r)" using run h by simp
      note wrote = generating_files [OF this]
      show ?thesis
      proof (cases r)
        case (Inl e)
        then show ?thesis using wrote True by auto
      next
        case (Inr p)
        with wrote obtain b where b: "p = out" "rl_write_pdf R h cs = Inr b"
            "\<forall>q. map_of (fs_files f') q = (if q = out then Some b else map_of (fs_files f) q)" by auto
        then have "map_of (fs_files f') = (map_of (fs_files f))(out \<mapsto> b)" by (intro ext) simp
        with Inr b(1,2) src css_empty [OF h(2)] show ?thesis by auto
      qed
    qed
  qed
qed

definition sample_lib :: render_lib where
  "sample_lib = \<lparr>rl_jinja = (\<lambda>source ctx. Inr (source @ rx_name ctx)), rl_css_file = Inr, rl_css_string = Inr,
     rl_write_pdf = (\<lambda>html css. Inr (''%PDF'' @ html)), rl_docx = (\<lambda>bs. Inr (join_with [NL] (map block_text bs)))\<rparr>"

definition template_fs :: fs where
  "template_fs = \<lparr>fs_files = [([''app'', ''templates'', ''resume'', ''modern'', ''template.html''], ''<h1>'')],
     fs_dirs = [[], [''app''], [''app'', ''templates''], [''app'', ''templates'', ''resume''], [''app'', ''templates'', ''resume'', ''modern'']]\<rparr>"

theorem render_writes_or_fails_witness:
  "\<exists>f'. render_sync sample_lib [''app'', ''templates''] ''templates'' ''modern'' sample_resume [''app'', ''out'', ''d1.pdf''] template_fs
        = (f', Inr [''app'', ''out'', ''d1.pdf''])
     \<and> map_of (fs_files f') [''app'', ''out'', ''d1.pdf''] = Some ''%PDF<h1>Ann''
     \<and> map_of (fs_files f') [''app'', ''templates'', ''resume'', ''modern'', ''template.html''] = Some ''<h1>''"
proof -
  let ?out = "[''app'', ''out'', ''d1.pdf'']"
  have run: "\<exists>f'. render_sync sample_lib [''app'', ''templates''] ''templates'' ''modern'' sample_resume ?out template_fs = (f', Inr ?out)"
    by (simp add: render_sync_def template_dir_def resolve_path_def path_exists_def is_file_def template_fs_def sample_lib_def
        generating_def write_output_def parents_def Let_def)
  then obtain f' where f': "render_sync sample_lib [''app'', ''templates''] ''templates'' ''modern'' sample_resume ?out template_fs = (f', Inr ?out)"
    by blast
  have dir: "template_dir [''app'', ''templates''] ''modern'' = [''app'', ''templates'', ''resume'', ''modern'']"
    by (simp add: template_dir_def resolve_path_def)
  from render_writes_or_fails [OF f'] have "map_of (fs_files f') = (map_of (fs_files template_fs))(?out \<mapsto> ''%PDF<h1>Ann'')"
    by (auto simp: dir template_fs_def sample_lib_def sample_resume_def)
  with f' show ?thesis by (simp add: template_fs_def)
qed

text \<open>The name of the template is not confined to the templates.\<close>

lemma template_names_escape:
  "template_dir [''app'', ''templates''] ''../../data/x'' = [''app'', ''data'', ''x'']
   \<and> template_dir [''app'', ''templates''] ''/etc'' = [''etc'']"
  by code_simp

section \<open>From the temporary files into the storage\<close>

lemma move_rendered_files:
  assumes "simple_id u" and "clean_key key" and "resolve_path rt key \<noteq> p"
    and "move_rendered rt u key ct (Some p) f = (f', Inr k)"
  shows "k = Some key \<and> (\<exists>b. map_of (fs_files f) p = Some b
    \<and> map_of (fs_files f') = (map_of (fs_files f))(resolve_path rt key \<mapsto> b, p := None))
    \<and> tenant_check u key = Inr key \<and> local_path rt key = Inr (resolve_path rt key)"
proof -
  obtain b where b: "map_of (fs_files f) p = Some b" using assms(4) by (auto simp: move_rendered_def split: option.splits)
  obtain g o1 where g: "service_put rt u key b ct f = (g, o1)" by fastforce
  obtain obj where o1: "o1 = Inr obj" using assms(4) b g by (cases o1) (auto simp: move_rendered_def)
  from service_put_reads(3) [OF assms(1,2) g [unfolded o1]] obtain sp where sp: "local_path rt key = Inr sp"
      "tenant_check u key = Inr key" "\<forall>q. map_of (fs_files g) q = (if q = sp then Some b else map_of (fs_files f) q)" by blast
  have root: "sp = resolve_path rt key" using sp(1) by (simp add: local_path_def Let_def split: if_splits)
  have "f' = unlink_quietly p g \<and> k = Some key" using assms(4) b g o1 by (simp add: move_rendered_def)
  moreover have "map_of (fs_files (unlink_quietly p g)) q = (if q = p then None else map_of (fs_files g) q)" for q
    by (simp add: unlink_quietly_def map_of_filter_key [where q = "\<lambda>x. x \<noteq> p"])
  ultimately have "k = Some key \<and> map_of (fs_files f') = (map_of (fs_files f))(resolve_path rt key \<mapsto> b, p := None)"
    using sp(3) root by (auto intro!: ext)
  with b sp(1,2) root show ?thesis by blast
qed

lemma move_rendered_cases:
  assumes "simple_id u" and "clean_key key" and "resolve_path rt key \<noteq> p" and "pred_option (\<lambda>q. q = p) t"
    and "move_rendered rt u key ct t f = (f', Inr k)"
  shows "t = None \<and> k = None \<and> f' = f \<or>
    t = Some p \<and> k = Some key \<and> (\<exists>b. map_of (fs_files f) p = Some b
        \<and> map_of (fs_files f') = (map_of (fs_files f))(resolve_path rt key \<mapsto> b, p := None))
      \<and> tenant_check u key = Inr key \<and> local_path rt key = Inr (resolve_path rt key)"
  using assms(4,5) move_rendered_files [OF assms(1-3)] by (cases t) (auto simp: move_rendered_def)

lemma generating_path: "generating m out c f = (f', Inr p) \<Longrightarrow> p = out"
  by (auto simp: generating_def split: prod.splits sum.splits)

lemma render_sync_path: "render_sync R tdir shown name ctx out f = (f', Inr p) \<Longrightarrow> p = out"
  by (auto simp: render_sync_def Let_def dest: generating_path split: if_splits sum.splits)

lemma try_render_path:
  assumes "\<And>f' p. render f = (f', Inr p) \<Longrightarrow> p = out" and "try_render fs fmt render f = (f', r)"
  shows "pred_option (\<lambda>p. p = out) r"
proof -
  obtain g o1 where g: "render f = (g, o1)" by fastforce
  with assms show ?thesis by (cases o1) (auto simp: try_render_def split: if_splits)
qed

lemma generated_paths:
  assumes "generate_resume_files R tdir shown base ctx name formats doc_id f = (f1, Inr doc)"
  shows "gp_id doc = doc_id \<and> gp_type doc = ''resume''
    \<and> pred_option (\<lambda>p. p = output_path base ''resumes'' doc_id ''pdf'') (gp_pdf doc)
    \<and> pred_option (\<lambda>p. p = output_path base ''resumes'' doc_id ''docx'') (gp_docx doc)"
proof -
  obtain g pdf where pdf: "try_render (default_formats formats) ''pdf''
      (render_sync R tdir shown name ctx (output_path base ''resumes'' doc_id ''pdf'')) f = (g, pdf)" by fastforce
  obtain g2 docx where docx: "try_render (default_formats formats) ''docx''
      (docx_render_sync R name ctx (output_path base ''resumes'' doc_id ''docx'')) g = (g2, docx)" by fastforce
  have doc: "gp_id doc = doc_id \<and> gp_type doc = ''resume'' \<and> gp_pdf doc = pdf \<and> gp_docx doc = docx"
    using assms pdf docx by (auto simp: generate_resume_files_def Let_def split: if_splits)
  have "pred_option (\<lambda>p. p = output_path base ''resumes'' doc_id ''pdf'') pdf"
    by (rule try_render_path [OF _ pdf]) (rule render_sync_path)
  moreover have "pred_option (\<lambda>p. p = output_path base ''resumes'' doc_id ''docx'') docx"
    by (rule try_render_path [OF _ docx]) (auto simp: docx_render_sync_def intro: generating_path)
  ultimately show ?thesis using doc by simp
qed



end
