(* ===== verification/Endpoints.thy ===== *)
theory Endpoints
  imports Routes CoverLetter LiveEvents
begin

text \<open>
  The endpoints that the other theories do not hold: the authentication routes with their payloads and their
  throttle (\<^verbatim>\<open>api/v1/auth.py\<close>, \<^verbatim>\<open>schemas/auth.py\<close>), and the guarded routes of the resumes, of the platform
  sessions, of the cover letter and of the answers to interventions (\<^verbatim>\<open>api/v1\<close>). A guard or a throttle that
  raises ends the request before the route.
\<close>

section \<open>Authentication\<close>

definition in_length :: "nat \<Rightarrow> nat \<Rightarrow> str \<Rightarrow> bool" where
  "in_length lo hi s \<longleftrightarrow> lo \<le> length s \<and> length s \<le> hi"

definition register_request_ok :: "str \<Rightarrow> str \<Rightarrow> bool" where
  "register_request_ok email password \<longleftrightarrow> in_length 3 320 email \<and> in_length 8 128 password"

definition forgot_request_ok :: "str \<Rightarrow> bool" where
  "forgot_request_ok email \<longleftrightarrow> in_length 3 320 email"

definition reset_request_ok :: "str \<Rightarrow> str \<Rightarrow> bool" where
  "reset_request_ok token password \<longleftrightarrow> in_length 16 256 token \<and> in_length 8 128 password"

record user_response =
  uo_id :: str
  uo_email :: str
  uo_full_name :: "str option"
  uo_is_active :: bool
  uo_is_superuser :: bool

definition user_response_of :: "user \<Rightarrow> user_response" where
  "user_response_of u = \<lparr>uo_id = u_id u, uo_email = u_email u, uo_full_name = u_full_name u,
     uo_is_active = u_is_active u, uo_is_superuser = u_is_superuser u\<rparr>"

text \<open>The attributes of the refresh cookie.\<close>

record cookie_attributes =
  ck_value :: str
  ck_httponly :: bool
  ck_secure :: bool
  ck_samesite :: str
  ck_path :: str
  ck_max_age :: nat

definition set_refresh_cookie :: "bool \<Rightarrow> nat \<Rightarrow> str \<Rightarrow> cookie_attributes" where
  "set_refresh_cookie development expire_days raw =
     \<lparr>ck_value = raw, ck_httponly = True, ck_secure = (\<not> development), ck_samesite = ''strict'',
      ck_path = ''/api/v1/auth'', ck_max_age = expire_days * 86400\<rparr>"

text \<open>\<^verbatim>\<open>_AUTH_RATE\<close>, then the validation of the payload, then the route; the counters are the second part of the state.\<close>

definition auth_throttled ::
  "bool \<Rightarrow> str option \<Rightarrow> str \<Rightarrow> int \<Rightarrow> (db, exn, 'a) op \<Rightarrow> (db \<times> redis option, exn, 'a) op" where
  "auth_throttled production client url_path now f w =
     (case rate_limit production 5 60 client url_path (nat now) (snd w) of
        (r, Inl e) \<Rightarrow> ((fst w, r), Inl e)
      | (r, Inr _) \<Rightarrow> (case f (fst w) of (d, out) \<Rightarrow> ((d, r), out)))"

definition validated :: "bool \<Rightarrow> (db, exn, 'a) op \<Rightarrow> (db, exn, 'a) op" where
  "validated ok f d = (if ok then f d else (d, Inl unprocessable))"

definition LOGIN_PATH :: str where "LOGIN_PATH = ''/api/v1/auth/login''"
definition REGISTER_PATH :: str where "REGISTER_PATH = ''/api/v1/auth/register''"
definition FORGOT_PATH :: str where "FORGOT_PATH = ''/api/v1/auth/forgot-password''"
definition RESET_PATH :: str where "RESET_PATH = ''/api/v1/auth/reset-password''"

definition login_route ::
  "api_env \<Rightarrow> auth_settings \<Rightarrow> str option \<Rightarrow> nonce \<Rightarrow> str \<Rightarrow> str \<Rightarrow> (db \<times> redis option, exn, str \<times> cookie) op" where
  "login_route E st client n email password =
     auth_throttled (av_production E) client LOGIN_PATH (n_now n) (login (av_crypto E) st n email password)"

definition register_route ::
  "api_env \<Rightarrow> str option \<Rightarrow> int \<Rightarrow> str \<Rightarrow> str \<Rightarrow> str \<Rightarrow> str option \<Rightarrow> (db \<times> redis option, exn, user_response) op" where
  "register_route E client now new_id email password full_name =
     auth_throttled (av_production E) client REGISTER_PATH now
       (validated (register_request_ok email password)
         (\<lambda>d. case register (av_crypto E) new_id email password full_name d of
                (d', Inl e) \<Rightarrow> (d', Inl e) | (d', Inr u) \<Rightarrow> (d', Inr (user_response_of u))))"

definition forgot_password_route ::
  "api_env \<Rightarrow> auth_settings \<Rightarrow> mailer \<Rightarrow> str option \<Rightarrow> nonce \<Rightarrow> str \<Rightarrow> (db \<times> redis option, exn, str) op" where
  "forgot_password_route E st send client n email =
     auth_throttled (av_production E) client FORGOT_PATH (n_now n)
       (validated (forgot_request_ok email) (forgot_password (av_crypto E) st send n email))"

definition reset_password_route ::
  "api_env \<Rightarrow> str option \<Rightarrow> int \<Rightarrow> str \<Rightarrow> str \<Rightarrow> (db \<times> redis option, exn, str \<times> cookie) op" where
  "reset_password_route E client now token password =
     auth_throttled (av_production E) client RESET_PATH now
       (validated (reset_request_ok token password)
         (\<lambda>d. case reset_password (av_crypto E) now token password d of
                (d', Inl e) \<Rightarrow> (d', Inl e)
              | (d', Inr _) \<Rightarrow> (d', Inr (''Your password has been reset. Please sign in.'', ClearCookie))))"

definition me_route :: "api_env \<Rightarrow> int \<Rightarrow> str \<Rightarrow> db \<Rightarrow> exn + user_response" where
  "me_route E now token d = map_sum id user_response_of (get_current_user (av_crypto E) now token d)"

definition ws_ticket_route :: "api_env \<Rightarrow> auth_settings \<Rightarrow> int \<Rightarrow> str \<Rightarrow> db \<Rightarrow> exn + str" where
  "ws_ticket_route E st now token d =
     map_sum id (\<lambda>u. create_ws_ticket (av_crypto E) st now (u_id u)) (get_current_user (av_crypto E) now token d)"

section \<open>Resumes\<close>

text \<open>The router's guard, then the throttle of a costly route.\<close>

definition guarded :: "api_env \<Rightarrow> int \<Rightarrow> str \<Rightarrow> (user \<Rightarrow> (rworld, exn, 'a) op) \<Rightarrow> (rworld \<times> redis option, exn, 'a) op" where
  "guarded E now token f w =
     (case get_current_user (av_crypto E) now token (lw_db (fst (fst w))) of
        Inl e \<Rightarrow> (w, Inl e)
      | Inr u \<Rightarrow> (case f u (fst w) of (w', out) \<Rightarrow> ((w', snd w), out)))"

definition costly ::
  "api_env \<Rightarrow> int \<Rightarrow> str \<Rightarrow> str option \<Rightarrow> str \<Rightarrow> (user \<Rightarrow> (rworld, exn, 'a) op) \<Rightarrow> (rworld \<times> redis option, exn, 'a) op" where
  "costly E now token client url_path f w =
     (case get_current_user (av_crypto E) now token (lw_db (fst (fst w))) of
        Inl e \<Rightarrow> (w, Inl e)
      | Inr u \<Rightarrow>
         (case rate_limit (av_production E) 30 60 client url_path (nat now) (snd w) of
            (r, Inl e) \<Rightarrow> ((fst w, r), Inl e)
          | (r, Inr _) \<Rightarrow> (case f u (fst w) of (w', out) \<Rightarrow> ((w', r), out))))"

definition api_list_resumes :: "api_env \<Rightarrow> int \<Rightarrow> str \<Rightarrow> (rworld \<times> redis option, exn, resume_response list \<times> nat) op" where
  "api_list_resumes E now token = guarded E now token (\<lambda>u w. (w, Inr (list_resumes (tenant_of u) (lw_db (fst w)))))"

definition api_generate_resume ::
  "api_env \<Rightarrow> gen_env \<Rightarrow> int \<Rightarrow> str \<Rightarrow> str option \<Rightarrow> generate_request \<Rightarrow> str \<Rightarrow> str
     \<Rightarrow> (rworld \<times> redis option, exn, resume_response) op" where
  "api_generate_resume E G now token client rq doc_id new_id =
     costly E now token client ''/api/v1/resumes/generate''
       (\<lambda>u. generate_tailored_resume G (tenant_of u) rq (u_id u) doc_id new_id now)"

definition resume_path :: "str \<Rightarrow> str \<Rightarrow> str" where
  "resume_path rid action = ''/api/v1/resumes/'' @ rid @ ''/'' @ action"

definition api_score_resume ::
  "api_env \<Rightarrow> int \<Rightarrow> str \<Rightarrow> str option \<Rightarrow> str \<Rightarrow> str \<Rightarrow> (rworld \<times> redis option, exn, score_response) op" where
  "api_score_resume E now token client rid jid =
     costly E now token client (resume_path rid ''score'')
       (\<lambda>u w. (w, score_resume (av_nlp E) (tenant_of u) rid jid (lw_db (fst w))))"

definition api_optimize_resume ::
  "api_env \<Rightarrow> gen_env \<Rightarrow> int \<Rightarrow> str \<Rightarrow> str option \<Rightarrow> str \<Rightarrow> str option \<Rightarrow> str \<Rightarrow> str
     \<Rightarrow> (rworld \<times> redis option, exn, resume_response) op" where
  "api_optimize_resume E G now token client rid job_id doc_id new_id =
     costly E now token client (resume_path rid ''optimize'')
       (\<lambda>u. optimize_resume G (av_nlp E) (tenant_of u) rid (u_id u) job_id doc_id new_id now)"

definition api_download_resume ::
  "api_env \<Rightarrow> path \<Rightarrow> int \<Rightarrow> str \<Rightarrow> str \<Rightarrow> str \<Rightarrow> (rworld \<times> redis option, exn, str \<times> str) op" where
  "api_download_resume E rt now token rid fmt =
     guarded E now token
       (\<lambda>u w. (w, if fmt \<in> {''pdf'', ''docx''} then download_resume rt (u_id u) rid fmt w else Inl unprocessable))"

definition api_profile_data :: "api_env \<Rightarrow> int \<Rightarrow> str \<Rightarrow> str \<Rightarrow> (rworld \<times> redis option, exn, profile_data) op" where
  "api_profile_data E now token rid =
     guarded E now token (\<lambda>u w. (w, extract_profile_route (tenant_of u) rid (lw_db (fst w))))"

section \<open>Applications\<close>

definition api_cover_letter ::
  "api_env \<Rightarrow> gen_env \<Rightarrow> int \<Rightarrow> str \<Rightarrow> str option \<Rightarrow> str \<Rightarrow> str \<Rightarrow> (rworld \<times> redis option, exn, str \<times> str option) op" where
  "api_cover_letter E G now token client app_id doc_id =
     costly E now token client (''/api/v1/applications/'' @ app_id @ ''/cover-letter'')
       (\<lambda>u w. case generate_cover_letter G (tenant_of u) app_id (u_id u) doc_id w of
                (w', Inl e) \<Rightarrow> (w', Inl e)
              | (w', Inr a) \<Rightarrow> (w', Inr (a_id a, a_cover_letter_path a)))"

text \<open>The lists of answers are \<^verbatim>\<open>None\<close> when Redis is unavailable.\<close>

definition api_intervention ::
  "api_env \<Rightarrow> int \<Rightarrow> str \<Rightarrow> str \<Rightarrow> str \<Rightarrow> db \<Rightarrow> (answers option, exn, bool \<times> str option) op" where
  "api_intervention E now token app_id response d r =
     (case get_current_user (av_crypto E) now token d of
        Inl e \<Rightarrow> (r, Inl e)
      | Inr u \<Rightarrow>
         (case get_application (tenant_of u) app_id d of
            Inl e \<Rightarrow> (r, Inl e)
          | Inr _ \<Rightarrow>
             (case r of
                None \<Rightarrow> (None, Inr (False, Some ''intervention channel unavailable''))
              | Some answers \<Rightarrow> (Some (resolve_intervention app_id response answers), Inr (True, None)))))"

section \<open>Platform sessions\<close>

definition SUPPORTED_PLATFORMS :: "str list" where
  "SUPPORTED_PLATFORMS = [''linkedin'', ''indeed'', ''glassdoor'']"

text \<open>The validators of the payload: the platform, normalised, and the cookies of the state.\<close>

definition known_platform :: "str \<Rightarrow> exn + str" where
  "known_platform v =
     (let normalized = lower (strip v) in
      if normalized \<notin> set SUPPORTED_PLATFORMS
      then Inl (ValueError (''Unsupported platform '' @ [CHR 39] @ v @ [CHR 39] @ ''. Supported: '' @ join_with '', '' SUPPORTED_PLATFORMS))
      else Inr normalized)"

fun has_cookies :: "jvalue \<Rightarrow> bool" where
  "has_cookies (JDict state) = (case json_get state ''cookies'' JNull of JList cookies \<Rightarrow> cookies \<noteq> [] | _ \<Rightarrow> False)"
| "has_cookies _ = False"

definition api_import_session ::
  "api_env \<Rightarrow> fernet \<Rightarrow> jvalue json \<Rightarrow> secrets_api \<Rightarrow> seed \<Rightarrow> str \<Rightarrow> str \<Rightarrow> int \<Rightarrow> str \<Rightarrow> str \<Rightarrow> jvalue \<Rightarrow> int option
     \<Rightarrow> (db, exn, platform_session_response) op" where
  "api_import_session E F J P s cred_id row_id now token platform state expires d =
     (case get_current_user (av_crypto E) now token d of
        Inl e \<Rightarrow> (d, Inl e)
      | Inr u \<Rightarrow>
         (case known_platform platform of
            Inl e \<Rightarrow> (d, Inl unprocessable)
          | Inr p \<Rightarrow>
              if \<not> has_cookies state then (d, Inl unprocessable)
              else
                (case import_session F J P s cred_id row_id (u_id u) p state expires now d of
                   (d', Inl e) \<Rightarrow> (d', Inl e)
                 | (d', Inr row) \<Rightarrow> (d', Inr (session_to_response row)))))"

definition api_list_sessions :: "api_env \<Rightarrow> int \<Rightarrow> str \<Rightarrow> db \<Rightarrow> exn + platform_session_response list" where
  "api_list_sessions E now token d =
     map_sum id (\<lambda>u. map session_to_response (list_sessions (u_id u) d)) (get_current_user (av_crypto E) now token d)"

definition api_delete_session :: "api_env \<Rightarrow> int \<Rightarrow> str \<Rightarrow> str \<Rightarrow> (db, exn, unit) op" where
  "api_delete_session E now token platform d =
     (case get_current_user (av_crypto E) now token d of
        Inl e \<Rightarrow> (d, Inl e)
      | Inr u \<Rightarrow> delete_session_route (u_id u) platform d)"

section \<open>Guessing passwords\<close>

text \<open>A series of login attempts from one address, with what each is answered.\<close>

record attempt =
  at_nonce :: nonce
  at_email :: str
  at_password :: str

fun login_attempts ::
  "api_env \<Rightarrow> auth_settings \<Rightarrow> str option \<Rightarrow> attempt list \<Rightarrow> db \<times> redis option
     \<Rightarrow> (db \<times> redis option) \<times> (exn + str \<times> cookie) list" where
  "login_attempts E st client [] w = (w, [])"
| "login_attempts E st client (a # as) w =
     (case login_route E st client (at_nonce a) (at_email a) (at_password a) w of
        (w', out) \<Rightarrow> (case login_attempts E st client as w' of (w'', outs) \<Rightarrow> (w'', out # outs)))"

text \<open>The same without the throttle.\<close>

fun logins :: "api_env \<Rightarrow> auth_settings \<Rightarrow> attempt list \<Rightarrow> db \<Rightarrow> db \<times> (exn + str \<times> cookie) list" where
  "logins E st [] d = (d, [])"
| "logins E st (a # as) d =
     (case login (av_crypto E) st (at_nonce a) (at_email a) (at_password a) d of
        (d', out) \<Rightarrow> (case logins E st as d' of (d'', outs) \<Rightarrow> (d'', out # outs)))"

definition client_key :: "str option \<Rightarrow> str \<Rightarrow> str" where
  "client_key client url_path = (case client of Some h \<Rightarrow> h | None \<Rightarrow> ''unknown'') @ '':'' @ url_path"

definition attempt_times :: "attempt list \<Rightarrow> nat list" where
  "attempt_times as = map (\<lambda>a. nat (n_now (at_nonce a))) as"

definition refused :: "exn" where
  "refused = RateLimitError ''Too many requests''"

text \<open>One turn: admitted, the login is tried and the rest goes on; refused, nothing but the counter changes.\<close>

lemma login_attempts_step:
  assumes "rate_check (av_production E) (client_key client LOGIN_PATH) 5 60 (nat (n_now (at_nonce a))) (Some r)
      = (r', if admit then Inr () else Inl refused)"
  shows "login_attempts E st client (a # as) (d, Some r) =
    (let (d1, out) = (if admit then login (av_crypto E) st (at_nonce a) (at_email a) (at_password a) d else (d, Inl refused));
         (w, outs) = login_attempts E st client as (d1, r')
     in (w, out # outs))"
  using assms
  by (simp add: login_route_def auth_throttled_def rate_limit_def client_key_def Let_def split: prod.split)

lemma login_attempts_counted:
  assumes "map_of r (bucket (client_key client LOGIN_PATH) 60 t0) = Some (n, Some e)" and "0 < n"
    and "list_all (\<lambda>t. t div 60 = t0 div 60 \<and> t < e) (attempt_times as)"
  shows "fst (fst (login_attempts E st client as (d, Some r))) = fst (logins E st (take (5 - n) as) d)
    \<and> snd (login_attempts E st client as (d, Some r)) =
        snd (logins E st (take (5 - n) as) d) @ replicate (length as - (5 - n)) (Inl refused)"
  using assms
proof (induction as arbitrary: r n d)
  case (Cons a as)
  let ?k = "client_key client LOGIN_PATH" and ?t = "nat (n_now (at_nonce a))"
  have b: "bucket ?k 60 ?t = bucket ?k 60 t0" using Cons.prems(3) by (simp add: bucket_def attempt_times_def)
  from rate_check_counts [of r ?k 60 ?t n e "av_production E" 5] Cons.prems b obtain r' where r':
      "rate_check (av_production E) ?k 5 60 ?t (Some r) = (Some r', if 5 < Suc n then Inl refused else Inr ())"
      "map_of r' (bucket ?k 60 t0) = Some (Suc n, Some e)" by (auto simp: attempt_times_def refused_def)
  have win: "list_all (\<lambda>t. t div 60 = t0 div 60 \<and> t < e) (attempt_times as)"
    using Cons.prems(3) by (simp add: attempt_times_def)
  note IH = Cons.IH [OF r'(2) zero_less_Suc win]
  show ?case
  proof (cases "n < 5")
    case True
    then have k: "5 - n = Suc (5 - Suc n)" by simp
    have adm: "rate_check (av_production E) ?k 5 60 ?t (Some r) = (Some r', if True then Inr () else Inl refused)"
      using r'(1) True by simp
    obtain d1 out where l: "login (av_crypto E) st (at_nonce a) (at_email a) (at_password a) d = (d1, out)" by fastforce
    obtain w outs where la: "login_attempts E st client as (d1, Some r') = (w, outs)" by fastforce
    show ?thesis using IH [of d1] unfolding login_attempts_step [OF adm] k
      by (simp add: l la Let_def split: prod.split)
  next
    case False
    have adm: "rate_check (av_production E) ?k 5 60 ?t (Some r) = (Some r', if False then Inr () else Inl refused)"
      using r'(1) False by simp
    obtain w outs where la: "login_attempts E st client as (d, Some r') = (w, outs)" by fastforce
    have k: "5 - n = 0" "5 - Suc n = 0" using False by simp_all
    show ?thesis using IH [of d] unfolding login_attempts_step [OF adm] k
      by (simp add: la Let_def)
  qed
qed simp


definition sample_attempt :: attempt where
  "sample_attempt = \<lparr>at_nonce = nonce_1, at_email = ''a@b.c'', at_password = ''guess''\<rparr>"


section \<open>The guards\<close>

text \<open>
  the endpoints are for their users only. Without a valid token none of them answers or changes anything; a
  throttled one that is refused does not run; and an answer to a challenge is delivered, to the application's own
  list and to no other, exactly for the application's owner and when Redis is there.
\<close>

theorem endpoints_guarded:
  assumes "get_current_user (av_crypto E) now token (lw_db (fst w)) = Inl e" and "d = lw_db (fst w)"
    and "get_current_user (av_crypto E) now other d = Inr u" and "db_ok d"
  shows "api_list_resumes E now token (w, r) = ((w, r), Inl e) \<and> api_generate_resume E G now token client rq i i' (w, r) = ((w, r), Inl e)
    \<and> api_score_resume E now token client rid jid (w, r) = ((w, r), Inl e)
    \<and> api_optimize_resume E G now token client rid job_id i i' (w, r) = ((w, r), Inl e)
    \<and> api_download_resume E rt now token rid fmt (w, r) = ((w, r), Inl e) \<and> api_profile_data E now token rid (w, r) = ((w, r), Inl e)
    \<and> api_cover_letter E G now token client app_id i (w, r) = ((w, r), Inl e)
    \<and> api_intervention E now token app_id resp d x = (x, Inl e) \<and> me_route E now token d = Inl e \<and> ws_ticket_route E st now token d = Inl e
    \<and> api_import_session E F J P s ci ri now token platform state expires d = (d, Inl e)
    \<and> api_list_sessions E now token d = Inl e \<and> api_delete_session E now token platform d = (d, Inl e)
    \<and> (case api_intervention E now other app_id resp d (Some answers) of
         (x', Inl _) \<Rightarrow> x' = Some answers \<and> filter (\<lambda>a. a_id a = app_id \<and> a_user a = u_id u) (applications d) = []
       | (x', Inr reply) \<Rightarrow> reply = (True, None) \<and> x' = Some (resolve_intervention app_id resp answers)
           \<and> list_ex (\<lambda>a. a_id a = app_id \<and> a_user a = u_id u) (applications d))"
proof -
  have "case api_intervention E now other app_id resp d (Some answers) of
         (x', Inl _) \<Rightarrow> x' = Some answers \<and> filter (\<lambda>a. a_id a = app_id \<and> a_user a = u_id u) (applications d) = []
       | (x', Inr reply) \<Rightarrow> reply = (True, None) \<and> x' = Some (resolve_intervention app_id resp answers)
           \<and> list_ex (\<lambda>a. a_id a = app_id \<and> a_user a = u_id u) (applications d)"
  proof (cases "get_application (Some (u_id u)) app_id d")
    case (Inl e')
    have "filter (\<lambda>a. a_id a = app_id \<and> a_user a = u_id u) (applications d) = []"
      using get_application_present [OF assms(4)] Inl by (fastforce simp: filter_empty_conv)
    with Inl assms(3) show ?thesis by (simp add: api_intervention_def tenant_of_def)
  next
    case (Inr a)
    from get_application_owned [OF Inr] Inr assms(3) show ?thesis
      by (auto simp: api_intervention_def tenant_of_def list_ex_iff)
  qed
  then show ?thesis
    using assms by (simp add: api_list_resumes_def api_generate_resume_def api_score_resume_def api_optimize_resume_def
        api_download_resume_def api_profile_data_def api_cover_letter_def guarded_def costly_def api_intervention_def me_route_def
        ws_ticket_route_def api_import_session_def api_list_sessions_def api_delete_session_def)
qed

theorem endpoints_guarded_witness:
  "\<exists>x. api_intervention sample_api 899 (create_access_token sample_crypto sample_auth 0 ''u1'' None) ''a1'' ''code'' login_db (Some []) = (Some [], Inl x)
     \<and> (\<exists>e. me_route sample_api 899 (create_access_token sample_crypto sample_auth (-1000) ''u1'' None) login_db = Inl e)"
proof -
  let ?tok = "create_access_token sample_crypto sample_auth 0 ''u1'' None"
    and ?w = "(\<lparr>lw_db = login_db, lw_samples = [], lw_sent = []\<rparr>, sample_fs)"
  have "decode_token sample_crypto 899 ?tok (Some ''access'') =
      Inr \<lparr>cl_sub = Some ''u1'', cl_type = ''access'', cl_iat = 0, cl_exp = 900\<rparr>"
    using jwt_signing.decode_access [OF sample_jwt.jwt_signing_axioms, of 899 sample_auth 0 "''u1''"]
    by (simp add: sample_auth_def)
  then have u: "get_current_user (av_crypto sample_api) 899 ?tok login_db = Inr sample_user"
    by (simp add: sample_api_def get_current_user_def login_db_eq user_db_def sample_user_def)
  let ?old = "create_access_token sample_crypto sample_auth (-1000) ''u1'' None"
  have "decode_token sample_crypto 899 ?old (Some ''access'') = Inl (AuthError ''Invalid or expired token'')"
    using jwt_signing.decode_access [OF sample_jwt.jwt_signing_axioms, of 899 sample_auth "-1000" "''u1''"]
    by (simp add: sample_auth_def)
  then have old: "get_current_user (av_crypto sample_api) 899 ?old (lw_db (fst ?w)) = Inl (AuthError ''Invalid or expired token'')"
    by (simp add: sample_api_def get_current_user_def)
  have ok: "db_ok login_db" using login_db_inv by (simp add: sess_inv_def)
  have db: "login_db = lw_db (fst ?w)" by simp
  have none: "applications login_db = []" by (simp add: login_db_eq user_db_def empty_db_def)
  note guards = endpoints_guarded [where answers = "[]" and app_id = "''a1''" and resp = "''code''", OF old db u ok]
  have "me_route sample_api 899 ?old login_db = Inl (AuthError ''Invalid or expired token'')"
    by (rule guards [THEN conjunct2, THEN conjunct2, THEN conjunct2, THEN conjunct2, THEN conjunct2, THEN conjunct2, THEN conjunct2, THEN conjunct2, THEN conjunct1])
  moreover have "\<exists>x. api_intervention sample_api 899 ?tok ''a1'' ''code'' login_db (Some []) = (Some [], Inl x)"
    using guards [THEN conjunct2, THEN conjunct2, THEN conjunct2, THEN conjunct2, THEN conjunct2, THEN conjunct2,
        THEN conjunct2, THEN conjunct2, THEN conjunct2, THEN conjunct2, THEN conjunct2, THEN conjunct2, THEN conjunct2]
    by (simp add: none split: prod.splits sum.splits)
  ultimately show ?thesis by blast
qed

end
