(* ===== verification/Pipeline.thy ===== *)
theory Pipeline
  imports Worker Harness Monitor Account
begin

text \<open>
  The worker process (\<^verbatim>\<open>workers/tasks.py\<close>): its registered functions and schedule, the pipeline around an
  apply task with the queue's metrics, the attempts and jobs that Arq runs, and the whole way of an
  application from its approval by a request to the end of its job. Arq itself is the locale \<open>arq_pool\<close>
  of Dispatch and what \<open>job_attempts\<close>, \<open>run_job\<close> and \<open>cron_due\<close> document.
\<close>

section \<open>The worker's settings\<close>

record cron_job =
  cj_task :: str
  cj_hours :: "nat list option"
  cj_minutes :: "nat list"

record arq_worker =
  aw_functions :: "str list"
  aw_cron_jobs :: "cron_job list"
  aw_max_jobs :: nat
  aw_job_timeout :: nat
  aw_max_tries :: nat

definition MONITOR_TASK :: str where "MONITOR_TASK = ''monitor_system_health''"
definition PURGE_TASK :: str where "PURGE_TASK = ''purge_deleted_accounts''"

definition WorkerSettings :: "nat \<Rightarrow> arq_worker" where
  "WorkerSettings max_parallel =
     \<lparr>aw_functions = [APPLY_TASK, REVIEW_TASK],
      aw_cron_jobs = [\<lparr>cj_task = MONITOR_TASK, cj_hours = None, cj_minutes = [0, 15, 30, 45]\<rparr>,
                      \<lparr>cj_task = PURGE_TASK, cj_hours = Some [3], cj_minutes = [30]\<rparr>],
      aw_max_jobs = max_parallel, aw_job_timeout = 600, aw_max_tries = MAX_TRIES\<rparr>"

text \<open>Arq starts a cron job at second 0 of the minutes that match, of any hour when none is given.\<close>

definition cron_due :: "cron_job \<Rightarrow> nat \<Rightarrow> bool" where
  "cron_due c t \<longleftrightarrow> t mod 60 = 0 \<and> t div 60 mod 60 \<in> set (cj_minutes c)
     \<and> (case cj_hours c of None \<Rightarrow> True | Some hs \<Rightarrow> t div 3600 mod 24 \<in> set hs)"

definition due_tasks :: "nat \<Rightarrow> nat \<Rightarrow> str list" where
  "due_tasks max_parallel t = map cj_task (filter (\<lambda>c. cron_due c t) (aw_cron_jobs (WorkerSettings max_parallel)))"

text \<open>The scheduled tasks that are due, on the database and the file store.\<close>

definition run_cron_task ::
  "(str \<Rightarrow> exn + nat) option \<Rightarrow> (str \<Rightarrow> 'f \<Rightarrow> 'f \<times> (exn + nat)) \<Rightarrow> nat \<Rightarrow> str \<Rightarrow> db \<times> 'f \<Rightarrow> db \<times> 'f" where
  "run_cron_task redis purge t task w =
     (if task = MONITOR_TASK then (fst (monitor_system_health redis (int t) (fst w)), snd w)
      else if task = PURGE_TASK then fst (purge_deleted_accounts purge (int t) w)
      else w)"

definition cron_tick ::
  "nat \<Rightarrow> (str \<Rightarrow> exn + nat) option \<Rightarrow> (str \<Rightarrow> 'f \<Rightarrow> 'f \<times> (exn + nat)) \<Rightarrow> nat \<Rightarrow> db \<times> 'f \<Rightarrow> db \<times> 'f" where
  "cron_tick max_parallel redis purge t w = fold (run_cron_task redis purge t) (due_tasks max_parallel t) w"

lemma monitor_due: "MONITOR_TASK \<in> set (due_tasks k t) \<longleftrightarrow> t mod 900 = 0"
proof -
  define mi where "mi = t div 60 mod 60"
  have "t mod 900 = 60 * (mi mod 15) + t mod 60" using mod_mult2_eq [of t 60 15] by (simp add: mi_def mod_mod_cancel)
  moreover have "mi < 60" by (simp add: mi_def)
  then have "mi \<in> {0, 15, 30, 45} \<longleftrightarrow> mi mod 15 = 0" by simp presburger
  ultimately have "t mod 60 = 0 \<and> mi \<in> {0, 15, 30, 45} \<longleftrightarrow> t mod 900 = 0" by auto
  then show ?thesis
    by (auto simp: due_tasks_def WorkerSettings_def cron_due_def MONITOR_TASK_def PURGE_TASK_def mi_def)
qed

lemma clock_time:
  assumes "mi < 60" and "s < 60"
  shows "60 * (60 * h + mi) + s = (12600::nat) \<longleftrightarrow> s = 0 \<and> mi = 30 \<and> h = 3"
proof
  assume e: "60 * (60 * h + mi) + s = 12600"
  have "s = (60 * (60 * h + mi) + s) mod 60" using assms(2) by (simp only: mod_mult_self4 mod_less)
  then have s: "s = 0" unfolding e by simp
  have "mi = (60 * h + mi) mod 60" using assms(1) by (simp only: mod_mult_self4 mod_less)
  moreover have "60 * h + mi = 210" using e s by simp
  ultimately have "mi = 30" by simp
  with e s show "s = 0 \<and> mi = 30 \<and> h = 3" by simp
qed simp

lemma purge_due: "PURGE_TASK \<in> set (due_tasks k t) \<longleftrightarrow> t mod 86400 = 12600"
proof -
  define h mi s where "h = t div 3600 mod 24" and "mi = t div 60 mod 60" and "s = t mod 60"
  have "t div 3600 = t div 60 div 60" using div_mult2_eq [of t 60 60] by simp
  then have "t mod 86400 = 60 * (60 * h + mi) + s"
    using mod_mult2_eq [of t 60 1440] mod_mult2_eq [of "t div 60" 60 24] by (simp add: h_def mi_def s_def)
  moreover have "mi < 60" "s < 60" by (simp_all add: mi_def s_def)
  ultimately have "s = 0 \<and> mi = 30 \<and> h = 3 \<longleftrightarrow> t mod 86400 = 12600" by (simp only: clock_time)
  then show ?thesis
    by (auto simp: due_tasks_def WorkerSettings_def cron_due_def MONITOR_TASK_def PURGE_TASK_def h_def mi_def s_def)
qed

section \<open>The pipeline of an apply task\<close>

record queue_metrics =
  qm_depth :: "nat option"
  qm_observed :: nat

definition update_queue_depth :: "(str \<Rightarrow> exn + nat) option \<Rightarrow> nat option \<Rightarrow> nat option" where
  "update_queue_depth redis gauge =
     (case redis of None \<Rightarrow> gauge | Some llen \<Rightarrow> (case llen ARQ_QUEUE of Inl e \<Rightarrow> gauge | Inr n \<Rightarrow> Some n))"

text \<open>
  What a worker's jobs run with: the settings and the score, the browser runs and clocks of the attempts on
  an application, the answer of Redis to LLEN, and what the reviews use.
\<close>

record worker_env =
  we_settings :: worker_settings
  we_score :: "db \<Rightarrow> str \<Rightarrow> str \<Rightarrow> exn + real"
  we_runs :: "str \<Rightarrow> nat \<Rightarrow> apply_run"
  we_clock :: "str \<Rightarrow> nat \<Rightarrow> int"
  we_redis :: "(str \<Rightarrow> exn + nat) option"
  we_max_parallel :: nat
  we_ner :: ner
  we_build :: "db \<Rightarrow> str \<Rightarrow> exn + review_llm"
  we_gen :: "str \<Rightarrow> nat \<Rightarrow> str"
  we_signals :: "str \<Rightarrow> run_signals"

definition run_apply_pipeline ::
  "worker_env \<Rightarrow> nat \<Rightarrow> str \<Rightarrow> world \<times> queue_metrics \<Rightarrow> (world \<times> queue_metrics) \<times> job_result" where
  "run_apply_pipeline E n i s =
     (let m = (snd s)\<lparr>qm_depth := update_queue_depth (we_redis E) (qm_depth (snd s))\<rparr> in
      case apply_task (we_settings E) (we_score E) (we_runs E i n) \<lparr>has_redis = (we_redis E \<noteq> None), job_try = Some n\<rparr>
             (we_clock E i n) i (fst s) of
        (w', r) \<Rightarrow> ((w', m\<lparr>qm_observed := qm_observed m + 1\<rparr>), r))"

definition apply_to_job ::
  "worker_env \<Rightarrow> nat \<Rightarrow> str \<Rightarrow> world \<times> queue_metrics \<Rightarrow> (world \<times> queue_metrics) \<times> job_result" where
  "apply_to_job E n i s = run_apply_pipeline E n i s"

section \<open>Jobs\<close>

function job_attempts ::
  "worker_env \<Rightarrow> str \<Rightarrow> nat \<Rightarrow> world \<times> queue_metrics \<Rightarrow> (world \<times> queue_metrics) \<times> job_result" where
  "job_attempts E i n s =
     (case apply_to_job E n i s of
        (s', RetryAfter k) \<Rightarrow>
          if n < aw_max_tries (WorkerSettings (we_max_parallel E)) then job_attempts E i (Suc n) s' else (s', RetryAfter k)
      | (s', r) \<Rightarrow> (s', r))"
  by pat_completeness auto
termination
  by (relation "measure (\<lambda>(E, _, n, _). aw_max_tries (WorkerSettings (we_max_parallel E)) - n)") auto

declare job_attempts.simps [simp del]

text \<open>A job with its id, its task and its argument; a task that is not registered fails.\<close>

definition run_job ::
  "worker_env \<Rightarrow> str \<times> str \<times> str \<Rightarrow> world \<times> queue_metrics \<Rightarrow> (world \<times> queue_metrics) \<times> job_result" where
  "run_job E job s =
     (case job of (jid, task, x) \<Rightarrow>
        if task \<notin> set (aw_functions (WorkerSettings (we_max_parallel E)))
        then (s, JobRaised (OtherError (''function not found: '' @ task)))
        else if task = APPLY_TASK then job_attempts E x 1 s
        else
          (case review_application_run (we_ner E) (we_build E) (we_gen E jid) x (we_signals E x) (fst (fst s)) of
             (d', r) \<Rightarrow> (((d', snd (fst s)), snd s), case r of Inl e \<Rightarrow> JobRaised e | Inr _ \<Rightarrow> Returned)))"

fun run_jobs :: "worker_env \<Rightarrow> (str \<times> str \<times> str) list \<Rightarrow> world \<times> queue_metrics \<Rightarrow> world \<times> queue_metrics" where
  "run_jobs E [] s = s"
| "run_jobs E (j # js) s = run_jobs E js (fst (run_job E j s))"

section \<open>The metrics change no job\<close>

lemma pipeline_task:
  assumes "apply_task (we_settings E) (we_score E) (we_runs E i n) \<lparr>has_redis = (we_redis E \<noteq> None), job_try = Some n\<rparr>
      (we_clock E i n) i w = (w', r)"
  shows "apply_to_job E n i (w, m) = ((w', \<lparr>qm_depth = update_queue_depth (we_redis E) (qm_depth m), qm_observed = qm_observed m + 1\<rparr>), r)"
  using assms by (simp add: apply_to_job_def run_apply_pipeline_def Let_def)

lemma job_attempts_attempts:
  assumes "n \<le> MAX_TRIES"
    and "arq_attempts (we_settings E) (we_score E) (we_runs E i) (we_redis E \<noteq> None) (we_clock E i) i n w = (w', r)"
  shows "\<exists>m'. job_attempts E i n (w, m) = ((w', m'), r) \<and> qm_observed m < qm_observed m'
    \<and> qm_observed m' \<le> qm_observed m + (MAX_TRIES - n) + 1"
  using assms
proof (induction "MAX_TRIES - n" arbitrary: n w m rule: less_induct)
  case less
  obtain v q where t: "apply_task (we_settings E) (we_score E) (we_runs E i n) \<lparr>has_redis = (we_redis E \<noteq> None), job_try = Some n\<rparr>
      (we_clock E i n) i w = (v, q)" by fastforce
  let ?m = "\<lparr>qm_depth = update_queue_depth (we_redis E) (qm_depth m), qm_observed = qm_observed m + 1\<rparr>"
  have tries: "aw_max_tries (WorkerSettings k) = MAX_TRIES" for k by (simp add: WorkerSettings_def)
  show ?case
  proof (cases "n < MAX_TRIES \<and> (\<exists>k. q = RetryAfter k)")
    case True
    then have "arq_attempts (we_settings E) (we_score E) (we_runs E i) (we_redis E \<noteq> None) (we_clock E i) i (Suc n) v = (w', r)"
      using less.prems(2) t by (subst (asm) arq_attempts.simps) auto
    moreover have lt: "MAX_TRIES - Suc n < MAX_TRIES - n" "Suc n \<le> MAX_TRIES" using True by linarith+
    ultimately obtain m' where "job_attempts E i (Suc n) (v, ?m) = ((w', m'), r)"
        "qm_observed ?m < qm_observed m'" "qm_observed m' \<le> qm_observed ?m + (MAX_TRIES - Suc n) + 1"
      using less.hyps [OF lt(1,2), of v ?m] by blast
    moreover have "job_attempts E i n (w, m) = job_attempts E i (Suc n) (v, ?m)"
      using True by (subst job_attempts.simps) (auto simp: pipeline_task [OF t] tries)
    ultimately show ?thesis using True by auto
  next
    case False
    then have "(w', r) = (v, q)" using less.prems(2) t
      by (subst (asm) arq_attempts.simps) (auto split: job_result.splits if_splits)
    moreover have "job_attempts E i n (w, m) = ((v, ?m), q)"
      using False by (subst job_attempts.simps) (auto simp: pipeline_task [OF t] tries split: job_result.split)
    ultimately show ?thesis by simp
  qed
qed

section \<open>What the other jobs leave\<close>

definition same_apps :: "db \<Rightarrow> db \<Rightarrow> bool" where
  "same_apps d d' \<longleftrightarrow> applications d' = applications d \<and> (db_ok d \<longrightarrow> db_ok d')"

lemma same_apps_refl [simp]: "same_apps d d" by (simp add: same_apps_def)

lemma same_apps_trans [trans]: "same_apps d e \<Longrightarrow> same_apps e f \<Longrightarrow> same_apps d f"
  by (simp add: same_apps_def)

lemma same_apps_commit: "applications x = applications d \<Longrightarrow> commit x d = (d', r) \<Longrightarrow> same_apps d d'"
  by (auto simp: same_apps_def commit_def split: if_splits)

lemma record_verdict_same: "record_verdict i u k j d = (d', r) \<Longrightarrow> same_apps d d'"
  unfolding record_verdict_def by (erule same_apps_commit [rotated]) simp

lemma record_diagnosis_same: "record_diagnosis i u k g sg d = (d', r) \<Longrightarrow> same_apps d d'"
  unfolding record_diagnosis_def by (erule same_apps_commit [rotated]) simp

lemma insert_skill_same: "insert_skill n k (\<lambda>_ x. x) i dm c cb d = (d', r) \<Longrightarrow> same_apps d d'"
proof (induction n arbitrary: k)
  case (Suc n)
  obtain e q where "commit (d\<lparr>domain_skills := domain_skills d @ [new_skill i dm c cb (next_version dm d)]\<rparr>) d = (e, q)" by fastforce
  with same_apps_commit [OF _ this] Suc show ?case by (cases q) (auto simp: Let_def)
qed simp

lemma record_skill_same: "record_skill ner (\<lambda>_ x. x) i dm c cb d = (d', r) \<Longrightarrow> same_apps d d'"
  by (auto simp: record_skill_def split: if_splits sum.splits option.splits prod.splits dest: insert_skill_same)

lemma add_feedback_same: "add_feedback i k rs run d = (d', r) \<Longrightarrow> same_apps d d'"
  by (auto simp: add_feedback_def split: option.splits prod.splits sum.splits dest: same_apps_commit [rotated])

lemma feed_back_same: "feed_back is k rs run d = (d', r) \<Longrightarrow> same_apps d d'"
proof (induction "is" arbitrary: d)
  case (Cons i "is")
  obtain e q where "add_feedback i k rs (Some run) d = (e, q)" by fastforce
  with Cons add_feedback_same [OF this] show ?case by (cases q) (auto intro: same_apps_trans)
qed simp

lemma score_skills_same: "score_skills_from_verdict traj v d = (d', r) \<Longrightarrow> same_apps d d'"
  by (auto simp: score_skills_from_verdict_def Let_def split: if_splits dest: feed_back_same)

lemma review_run_same:
  assumes "review_run ner llm gen traj sg d = (d', r)"
  shows "same_apps d d'"
proof (cases "llm_judge llm traj sg")
  case (Inr judge)
  obtain d1 q1 where 1: "record_verdict (gen 0) (tj_user traj) (tj_id traj) judge d = (d1, q1)" by fastforce
  obtain d2 q2 where 2: "record_diagnosis (gen 1) (tj_user traj) (tj_id traj) (diagnose sg) sg d1 = (d2, q2)" by fastforce
  note s1 = record_verdict_same [OF 1] and s2 = record_diagnosis_same [OF 2]
  then have s12: "same_apps d d2" by (rule same_apps_trans)
  have skill: "same_apps d e" if "record_skill ner (\<lambda>_ x. x) i dm c cb x = (e, q)" "x \<in> {d1, d2}" for i dm c cb x e q
    using record_skill_same [OF that(1)] that(2) s1 s12 by (auto intro: same_apps_trans)
  show ?thesis using assms s1 s12 Inr 1 2
    by (auto simp: review_run_def split: sum.splits if_splits prod.splits dest: skill)
qed (use assms in \<open>simp add: review_run_def\<close>)

lemma review_job_same: "review_application_run ner build gen i sg d = (d', r) \<Longrightarrow> same_apps d d'"
  by (auto simp: review_application_run_def split: option.splits sum.splits prod.splits
      dest!: review_run_same score_skills_same intro: same_apps_trans)

section \<open>Jobs of other applications\<close>

definition undisturbed :: "str \<Rightarrow> world \<Rightarrow> world \<Rightarrow> bool" where
  "undisturbed i w w' \<longleftrightarrow> db_ok (fst w') \<and> row_status i (fst w') = row_status i (fst w) \<and> row_owner i (fst w') = row_owner i (fst w)
     \<and> count_list (confirmed_ids (snd w')) i = count_list (confirmed_ids (snd w)) i"

lemma undisturbed_refl: "db_ok (fst w) \<Longrightarrow> undisturbed i w w"
  by (simp add: undisturbed_def)

lemma undisturbed_trans: "undisturbed i w v \<Longrightarrow> undisturbed i v x \<Longrightarrow> undisturbed i w x"
  by (simp add: undisturbed_def)

lemma mark_failed_owner: "row_owner j (fst (fst (mark_failed ctx a p msg w))) = row_owner j (fst w)"
proof -
  let ?f = "\<lambda>x. x\<lparr>a_status := FAILED, a_notes := Some msg\<rparr>"
  obtain e q where u: "update_row (a_id a) ?f (fst w) = (e, q)" by fastforce
  from update_row_owner [of ?f j "a_id a" "fst w"] u have "row_owner j e = row_owner j (fst w)" by simp
  with u show ?thesis by (cases q) (simp_all add: mark_failed_def)
qed

lemma apply_finish_owner: "row_owner j (fst (fst (apply_finish ctx a p now out w))) = row_owner j (fst w)"
proof (cases out)
  case (Confirmed c)
  let ?f = "\<lambda>x. x\<lparr>a_status := APPLIED, a_applied_at := Some now\<rparr>"
  obtain e q where u: "update_row (a_id a) ?f (fst w) = (e, q)" by fastforce
  from update_row_owner [of ?f j "a_id a" "fst w"] u have "row_owner j e = row_owner j (fst w)" by simp
  with u Confirmed show ?thesis by (cases q) (simp_all add: apply_finish_def Let_def)
qed (auto simp: apply_finish_def Let_def mark_failed_owner)

lemma apply_task_owner:
  assumes "keeps_applications run"
  shows "row_owner j (fst (fst (apply_task st score run ctx now i w))) = row_owner j (fst w)"
proof (cases "db_get None a_user a_id i (applications (fst w))")
  case (Some a)
  obtain d1 u where u: "update_row i (\<lambda>x. x\<lparr>a_status := APPLYING\<rparr>) (fst w) = (d1, u)" by fastforce
  have o1: "row_owner j d1 = row_owner j (fst w)"
    using update_row_owner [of "\<lambda>x. x\<lparr>a_status := APPLYING\<rparr>" j i "fst w"] u by simp
  have "row_owner j (fst (submit_application st run b d1)) = row_owner j d1" for b
    using assms by (auto simp: submit_application_def row_owner_def keeps_applications_def split: prod.splits run_outcome.splits)
      (metis fst_conv)+
  then show ?thesis using o1
    by (simp add: apply_task_def Some Let_def u apply_finish_owner mark_failed_owner split: sum.split prod.split)
      (metis fst_conv)
qed (simp add: apply_task_def)

lemma apply_task_other:
  assumes "db_ok (fst w)" and "keeps_applications run" and "x \<noteq> i" and "apply_task st score run ctx now x w = (w', r)"
  shows "undisturbed i w w'"
  using apply_task_step [OF assms(1,2,4)] apply_task_owner [OF assms(2), of i st score ctx now x w] assms(3,4)
  by (auto simp: undisturbed_def)

lemma arq_attempts_other:
  assumes "db_ok (fst w)" and "\<forall>k. keeps_applications (runs k)" and "x \<noteq> i" and "n \<le> MAX_TRIES"
    and "arq_attempts st score runs redis clock x n w = (w', r)"
  shows "undisturbed i w w'"
  using assms
proof (induction "MAX_TRIES - n" arbitrary: n w rule: less_induct)
  case less
  obtain v q where t: "apply_task st score (runs n) \<lparr>has_redis = redis, job_try = Some n\<rparr> (clock n) x w = (v, q)" by fastforce
  have keeps: "keeps_applications (runs n)" using less.prems(2) by simp
  have v: "undisturbed i w v" by (rule apply_task_other [OF less.prems(1) keeps less.prems(3) t])
  show ?case
  proof (cases "n < MAX_TRIES \<and> (\<exists>k. q = RetryAfter k)")
    case True
    then have "arq_attempts st score runs redis clock x (Suc n) v = (w', r)"
      using less.prems(5) t by (subst (asm) arq_attempts.simps) auto
    moreover have "MAX_TRIES - Suc n < MAX_TRIES - n" "Suc n \<le> MAX_TRIES" using True by linarith+
    moreover have "db_ok (fst v)" using v by (simp add: undisturbed_def)
    ultimately have "undisturbed i v w'" using less.hyps less.prems(2,3) by blast
    with v show ?thesis by (rule undisturbed_trans)
  next
    case False
    then have "w' = v" using less.prems(5) t
      by (subst (asm) arq_attempts.simps) (auto split: job_result.splits if_splits)
    with v show ?thesis by simp
  qed
qed

lemma arq_attempts_keeps:
  assumes "db_ok (fst w)" and "\<forall>k. keeps_applications (runs k)" and "arq_attempts st score runs redis clock x n w = (w', r)"
    and "n \<le> MAX_TRIES"
  shows "db_ok (fst w') \<and> row_owner j (fst w') = row_owner j (fst w)"
  using assms
proof (induction "MAX_TRIES - n" arbitrary: n w rule: less_induct)
  case less
  obtain v q where t: "apply_task st score (runs n) \<lparr>has_redis = redis, job_try = Some n\<rparr> (clock n) x w = (v, q)" by fastforce
  have keeps: "keeps_applications (runs n)" using less.prems(2) by simp
  have v: "db_ok (fst v)" "row_owner j (fst v) = row_owner j (fst w)"
    using apply_task_step [OF less.prems(1) keeps t] apply_task_owner [OF keeps, of j st score _ "clock n" x w] t
    by (simp, metis fst_conv)
  show ?case
  proof (cases "n < MAX_TRIES \<and> (\<exists>k. q = RetryAfter k)")
    case True
    then have "arq_attempts st score runs redis clock x (Suc n) v = (w', r)"
      using less.prems(3) t by (subst (asm) arq_attempts.simps) auto
    moreover have "MAX_TRIES - Suc n < MAX_TRIES - n" "Suc n \<le> MAX_TRIES" using True by linarith+
    ultimately show ?thesis using less.hyps v less.prems(2) by simp
  next
    case False
    then have "w' = v" using less.prems(3) t
      by (subst (asm) arq_attempts.simps) (auto split: job_result.splits if_splits)
    with v show ?thesis by simp
  qed
qed

lemma run_job_other:
  assumes "db_ok (fst w)" and "\<forall>i k. keeps_applications (we_runs E i k)" and "task = APPLY_TASK \<longrightarrow> x \<noteq> i"
    and "run_job E (jid, task, x) (w, m) = ((w', m'), r)"
  shows "undisturbed i w w'"
proof (cases "task = APPLY_TASK")
  case True
  obtain v q where a: "arq_attempts (we_settings E) (we_score E) (we_runs E x) (we_redis E \<noteq> None) (we_clock E x) x 1 w = (v, q)"
    by fastforce
  then obtain m1 where "job_attempts E x 1 (w, m) = ((v, m1), q)"
    using job_attempts_attempts [of 1 E x w v q m] by (auto simp: MAX_TRIES_def)
  then have "w' = v" using assms(4) True by (simp add: run_job_def WorkerSettings_def)
  with arq_attempts_other [OF assms(1) _ _ _ a] assms(2,3) True show ?thesis by (simp add: MAX_TRIES_def)
next
  case False
  obtain e q where rv: "review_application_run (we_ner E) (we_build E) (we_gen E jid) x (we_signals E x) (fst w) = (e, q)" by fastforce
  from assms(4) False rv have "w' = w \<or> w' = (e, snd w)" by (auto simp: run_job_def split: if_splits)
  with review_job_same [OF rv] assms(1) show ?thesis
    by (auto simp: undisturbed_def same_apps_def row_status_def row_owner_def)
qed

lemma run_jobs_other:
  assumes "db_ok (fst w)" and "\<forall>i k. keeps_applications (we_runs E i k)"
    and "list_all (\<lambda>(jid, task, x). task = APPLY_TASK \<longrightarrow> x \<noteq> i) js" and "run_jobs E js (w, m) = (w', m')"
  shows "undisturbed i w w'"
  using assms
proof (induction js arbitrary: w m)
  case Nil
  then show ?case by (simp add: undisturbed_refl)
next
  case (Cons j js)
  obtain jid task x where j: "j = (jid, task, x)" by (cases j) auto
  obtain v m1 r where v: "run_job E j (w, m) = ((v, m1), r)" by (metis prod.collapse)
  have u: "undisturbed i w v"
    by (rule run_job_other [OF Cons.prems(1,2) _ v [unfolded j]]) (use Cons.prems(3) j in simp)
  have "db_ok (fst v)" using u by (simp add: undisturbed_def)
  from Cons.IH [OF this Cons.prems(2), of m1] Cons.prems(3,4) v have "undisturbed i v w'" by simp
  with u show ?case by (rule undisturbed_trans)
qed

lemma run_jobs_append: "run_jobs E (xs @ ys) s = run_jobs E ys (run_jobs E xs s)"
  by (induction xs arbitrary: s) auto

section \<open>From the approval to the end of the job\<close>

text \<open>Every apply job in the queue has the id that its application's job gets, and Arq knows it.\<close>

definition queue_ok :: "('p \<Rightarrow> str set) \<Rightarrow> ('p \<Rightarrow> (str \<times> str \<times> str) list) \<Rightarrow> 'p \<Rightarrow> bool" where
  "queue_ok known queued p \<longleftrightarrow>
     list_all (\<lambda>(jid, task, x). task = APPLY_TASK \<longrightarrow> jid = apply_job_id x \<and> jid \<in> known p) (queued p)"

context arq_pool
begin

lemma enqueue_apply_queue_ok:
  assumes "queue_ok known queued p"
  shows "queue_ok known queued (the (fst (enqueue_apply enqueue_job (Some p) i def)))"
  using assms unfolding queue_ok_def enqueue_apply_queued enqueue_apply_known by (auto simp: list_all_iff)

end

lemma other_jobs:
  assumes "queue_ok known queued p" and "apply_job_id i \<notin> known p"
  shows "list_all (\<lambda>(jid, task, x). task = APPLY_TASK \<longrightarrow> x \<noteq> i) (queued p)"
  using assms by (auto simp: queue_ok_def list_all_iff)

lemma approve_staged:
  assumes "db_ok d" and "a \<in> set (applications d)" and "is_staged a"
  obtains d' where "approve_application (Some (a_user a)) (a_id a) d = (d', Inr (a\<lparr>a_status := APPROVED\<rparr>))"
    and "db_ok d'" and "a\<lparr>a_status := APPROVED\<rparr> \<in> set (applications d')"
proof -
  let ?d = "d\<lparr>applications := update_where (\<lambda>x. a_id x = a_id a) (\<lambda>_. a\<lparr>a_status := APPROVED\<rparr>) (applications d)\<rparr>"
  have "is_active_app a" "APPROVED \<notin> set terminal_states"
    using assms(3) by (auto simp: is_active_app_def is_staged_def terminal_iff)
  from save_active_status [OF assms(1,2) this]
  have r: "approve_application (Some (a_user a)) (a_id a) d = (?d, Inr (a\<lparr>a_status := APPROVED\<rparr>))"
    using get_application_present [OF assms(1,2)] assms(3) by (simp add: approve_application_def is_staged_def)
  moreover have "db_ok ?d" using approve_application_db_ok [OF assms(1), of "Some (a_user a)" "a_id a"] r by simp
  moreover have "a\<lparr>a_status := APPROVED\<rparr> \<in> set (applications ?d)" using assms(2) by (auto simp: in_set_update_where)
  ultimately show ?thesis by (rule that)
qed

lemma row_of_member:
  assumes "db_ok d" and "a \<in> set (applications d)"
  shows "row_status (a_id a) d = Some (a_status a) \<and> row_owner (a_id a) d = Some (a_user a)"
proof -
  have "db_get None a_user a_id (a_id a) (applications d) = Some a" using get_row [OF assms(1)] assms(2) by blast
  then show ?thesis by (simp add: row_status_def row_owner_def)
qed

lemma get_route_row:
  assumes "db_ok d" and "row_status i d = Some s" and "row_owner i d = Some u"
  shows "map_sum id (\<lambda>r. a_status (ar_app r)) (get_route u i (d, q)) = Inr s"
proof -
  obtain a where a: "db_get None a_user a_id i (applications d) = Some a" "a_status a = s" "a_user a = u"
    using assms(2,3) by (auto simp: row_status_def row_owner_def)
  then have "a \<in> set (applications d)" "a_id a = i" using get_row [OF assms(1), of i a] by simp_all
  then have "get_application (Some u) i d = Inr a"
    using get_application_present [OF assms(1), of a] a(3) by simp
  with a show ?thesis by (simp add: get_route_def application_to_response_def split: option.split)
qed

text \<open>An apply job of an approved application, alone.\<close>

lemma run_apply_job:
  assumes "db_ok (fst w)" and "\<forall>i k. keeps_applications (we_runs E i k)"
    and "row_status i (fst w) = Some APPROVED" and "row_owner i (fst w) = Some u"
  shows "\<exists>w' m' r. run_job E (jid, APPLY_TASK, i) (w, m) = ((w', m'), r) \<and> settled (we_redis E \<noteq> None) u i w w'
    \<and> db_ok (fst w') \<and> row_owner i (fst w') = Some u"
proof -
  have runs: "\<forall>k. keeps_applications (we_runs E i k)" using assms(2) by simp
  have ap: "APPROVED \<notin> set terminal_states" "APPROVED \<noteq> APPLIED" "1 \<le> MAX_TRIES" by (simp_all add: terminal_iff MAX_TRIES_def)
  obtain v q where a: "arq_attempts (we_settings E) (we_score E) (we_runs E i) (we_redis E \<noteq> None) (we_clock E i) i 1 w = (v, q)"
      "settled (we_redis E \<noteq> None) u i w v"
    using arq_attempts_settle [OF assms(1) runs assms(3,4) ap] by blast
  then obtain m1 where "job_attempts E i 1 (w, m) = ((v, m1), q)"
    using job_attempts_attempts [of 1 E i w v q m] by (auto simp: MAX_TRIES_def)
  moreover have "db_ok (fst v) \<and> row_owner i (fst v) = Some u"
    using arq_attempts_keeps [OF assms(1) runs a(1) ap(3), of i] assms(4) by simp
  ultimately show ?thesis using a(2) by (simp add: run_job_def WorkerSettings_def)
qed


definition sample_env :: worker_env where
  "sample_env = \<lparr>we_settings = placeholder_settings, we_score = (\<lambda>_ _ _. Inr 0), we_runs = (\<lambda>_ _. quiet_run), we_clock = (\<lambda>_. int),
     we_redis = Some (\<lambda>_. Inl (OtherError ''WRONGTYPE'')), we_max_parallel = 3, we_ner = (\<lambda>_. None),
     we_build = (\<lambda>_ _. Inl (OtherError ''no provider'')), we_gen = (\<lambda>_. show_nat), we_signals = (\<lambda>_. sample_signals)\<rparr>"

definition idle_queue :: "(str \<times> str \<times> str) list" where
  "idle_queue = [(''r1'', REVIEW_TASK, ''t1'')]"


end
