(* ===== verification/TaskQueue.thy ===== *)
theory TaskQueue
  imports Prompts
begin

text \<open>
  The task queue on Redis lists (\<^verbatim>\<open>services/queue.py\<close>), with \<^verbatim>\<open>json.loads\<close> as it reads what \<^verbatim>\<open>json.dumps\<close> of
  Prompts writes. \<open>pf\<close> reads the text of a float and \<open>rp\<close> writes it; the values NaN and Infinity and the escapes
  of characters outside of Latin-1 are not read. Redis is
  its lists of texts by their name.
\<close>

section \<open>\<^verbatim>\<open>json.loads\<close>\<close>

definition is_ws :: "char \<Rightarrow> bool" where
  "is_ws c \<longleftrightarrow> (of_char c :: nat) \<in> {32, 9, 10, 13}"

definition skip_ws :: "str \<Rightarrow> str" where
  "skip_ws s = dropWhile is_ws s"

definition is_dig :: "char \<Rightarrow> bool" where
  "is_dig c \<longleftrightarrow> 48 \<le> (of_char c :: nat) \<and> (of_char c :: nat) \<le> 57"

definition hex_value :: "char \<Rightarrow> nat option" where
  "hex_value c =
     (let n = (of_char c :: nat) in
      if is_dig c then Some (n - 48) else if 97 \<le> n \<and> n \<le> 102 then Some (n - 87)
      else if 65 \<le> n \<and> n \<le> 70 then Some (n - 55) else None)"

definition code_point :: "char \<Rightarrow> char \<Rightarrow> char \<Rightarrow> char \<Rightarrow> char option" where
  "code_point a b c d =
     (case (hex_value a, hex_value b, hex_value c, hex_value d) of
        (Some x, Some y, Some z, Some w) \<Rightarrow>
          (let n = 4096 * x + 256 * y + 16 * z + w in if n < 256 then Some (char_of n) else None)
      | _ \<Rightarrow> None)"

definition escape_of :: "char \<Rightarrow> char option" where
  "escape_of e =
     (if e \<in> {CHR 34, CHR 92, CHR 47} then Some e
      else if e = CHR ''n'' then Some (CHR 10) else if e = CHR ''r'' then Some (CHR 13)
      else if e = CHR ''t'' then Some (CHR 9) else if e = CHR ''b'' then Some (CHR 8)
      else if e = CHR ''f'' then Some (CHR 12) else None)"

text \<open>What follows the opening quote: the text and the rest after the closing one.\<close>

fun read_string :: "str \<Rightarrow> (str \<times> str) option" where
  "read_string [] = None"
| "read_string (c # s) =
     (if c = CHR 34 then Some ([], s)
      else if c = CHR 92 then
        (case s of
           [] \<Rightarrow> None
         | e # r \<Rightarrow>
             if e = CHR ''u'' then
               (case r of
                  a # b # c' # d # r' \<Rightarrow>
                    (case code_point a b c' d of
                       None \<Rightarrow> None | Some x \<Rightarrow> map_option (\<lambda>(t, q). (x # t, q)) (read_string r'))
                | _ \<Rightarrow> None)
             else (case escape_of e of None \<Rightarrow> None | Some x \<Rightarrow> map_option (\<lambda>(t, q). (x # t, q)) (read_string r)))
      else if (of_char c :: nat) < 32 then None
      else map_option (\<lambda>(t, q). (c # t, q)) (read_string s))"

definition nat_of_digits :: "str \<Rightarrow> nat" where
  "nat_of_digits s = foldl (\<lambda>n c. 10 * n + (of_char c - 48)) 0 s"

definition read_sign :: "str \<Rightarrow> str \<times> str" where
  "read_sign s = (case s of [] \<Rightarrow> ([], []) | c # r \<Rightarrow> if c = CHR ''-'' then (''-'', r) else ([], s))"

definition read_int_part :: "str \<Rightarrow> (str \<times> str) option" where
  "read_int_part s =
     (case s of
        [] \<Rightarrow> None
      | c # r \<Rightarrow> if c = CHR ''0'' then Some (''0'', r)
                 else if is_dig c then Some (takeWhile is_dig s, dropWhile is_dig s) else None)"

definition read_frac :: "str \<Rightarrow> str \<times> str" where
  "read_frac s =
     (case s of
        p # c # r \<Rightarrow> if p = CHR ''.'' \<and> is_dig c then (p # takeWhile is_dig (c # r), dropWhile is_dig (c # r)) else ([], s)
      | _ \<Rightarrow> ([], s))"

definition read_exp :: "str \<Rightarrow> str \<times> str" where
  "read_exp s =
     (case s of
        [] \<Rightarrow> ([], [])
      | e # r \<Rightarrow>
          if e \<noteq> CHR ''e'' \<and> e \<noteq> CHR ''E'' then ([], s)
          else
            (let sg = (case r of [] \<Rightarrow> [] | c # _ \<Rightarrow> if c = CHR ''-'' \<or> c = CHR ''+'' then [c] else []);
                 ds = drop (length sg) r
             in if takeWhile is_dig ds = [] then ([], s) else (e # sg @ takeWhile is_dig ds, dropWhile is_dig ds)))"

definition read_number :: "(str \<Rightarrow> real option) \<Rightarrow> str \<Rightarrow> (jvalue \<times> str) option" where
  "read_number pf s =
     (case read_sign s of (sg, s1) \<Rightarrow>
      case read_int_part s1 of
        None \<Rightarrow> None
      | Some (ip, s2) \<Rightarrow>
         (case read_frac s2 of (fr, s3) \<Rightarrow>
          case read_exp s3 of (ex, s4) \<Rightarrow>
            if fr = [] \<and> ex = [] then Some (JInt ((if sg = [] then 1 else - 1) * int (nat_of_digits ip)), s4)
            else map_option (\<lambda>x. (JFloat x, s4)) (pf (sg @ ip @ fr @ ex))))"

text \<open>A dict of the pairs read: a later key replaces the value of an earlier one.\<close>

definition dict_of :: "(str \<times> jvalue) list \<Rightarrow> (str \<times> jvalue) list" where
  "dict_of ps = foldl (\<lambda>d (k, v). dict_put k v d) [] ps"

text \<open>The fuel bounds the depth; the length of the text is always enough.\<close>

fun json_value :: "(str \<Rightarrow> real option) \<Rightarrow> nat \<Rightarrow> str \<Rightarrow> (jvalue \<times> str) option"
and json_items :: "(str \<Rightarrow> real option) \<Rightarrow> nat \<Rightarrow> str \<Rightarrow> (jvalue list \<times> str) option"
and json_members :: "(str \<Rightarrow> real option) \<Rightarrow> nat \<Rightarrow> str \<Rightarrow> ((str \<times> jvalue) list \<times> str) option" where
  "json_value pf 0 s = None"
| "json_value pf (Suc n) s =
     (case skip_ws s of
        [] \<Rightarrow> None
      | c # r \<Rightarrow>
          if c = CHR 34 then map_option (\<lambda>(t, q). (JStr t, q)) (read_string r)
          else if c = CHR ''['' then
            (case skip_ws r of
               [] \<Rightarrow> None
             | e # q \<Rightarrow> if e = CHR '']'' then Some (JList [], q)
                        else map_option (\<lambda>(vs, t). (JList vs, t)) (json_items pf n r))
          else if c = CHR ''{'' then
            (case skip_ws r of
               [] \<Rightarrow> None
             | e # q \<Rightarrow> if e = CHR ''}'' then Some (JDict [], q)
                        else map_option (\<lambda>(ps, t). (JDict (dict_of ps), t)) (json_members pf n r))
          else if take 4 (c # r) = ''true'' then Some (JBool True, drop 4 (c # r))
          else if take 5 (c # r) = ''false'' then Some (JBool False, drop 5 (c # r))
          else if take 4 (c # r) = ''null'' then Some (JNull, drop 4 (c # r))
          else read_number pf (c # r))"
| "json_items pf 0 s = None"
| "json_items pf (Suc n) s =
     (case json_value pf n s of
        None \<Rightarrow> None
      | Some (v, r) \<Rightarrow>
         (case skip_ws r of
            [] \<Rightarrow> None
          | e # q \<Rightarrow> if e = CHR '']'' then Some ([v], q)
                     else if e = CHR '','' then map_option (\<lambda>(vs, t). (v # vs, t)) (json_items pf n q) else None))"
| "json_members pf 0 s = None"
| "json_members pf (Suc n) s =
     (case skip_ws s of
        [] \<Rightarrow> None
      | c # r \<Rightarrow>
          if c \<noteq> CHR 34 then None
          else
            (case read_string r of
               None \<Rightarrow> None
             | Some (k, r1) \<Rightarrow>
                (case skip_ws r1 of
                   [] \<Rightarrow> None
                 | e # r2 \<Rightarrow>
                     if e \<noteq> CHR '':'' then None
                     else
                       (case json_value pf n r2 of
                          None \<Rightarrow> None
                        | Some (v, r3) \<Rightarrow>
                           (case skip_ws r3 of
                              [] \<Rightarrow> None
                            | e2 # q \<Rightarrow> if e2 = CHR ''}'' then Some ([(k, v)], q)
                                        else if e2 = CHR '','' then map_option (\<lambda>(ps, t). ((k, v) # ps, t)) (json_members pf n q)
                                        else None)))))"

definition json_loads :: "(str \<Rightarrow> real option) \<Rightarrow> str \<Rightarrow> exn + jvalue" where
  "json_loads pf s =
     (case json_value pf (length s) s of
        None \<Rightarrow> Inl (ValueError ''JSONDecodeError'')
      | Some (v, r) \<Rightarrow> if skip_ws r = [] then Inr v else Inl (ValueError ''Extra data''))"

section \<open>The queue\<close>

type_synonym redis_lists = "str \<Rightarrow> str list"

definition task_message :: "str \<Rightarrow> jvalue \<Rightarrow> str \<Rightarrow> jvalue" where
  "task_message task_id payload now = JDict [(''task_id'', JStr task_id), (''payload'', payload), (''enqueued_at'', JStr now)]"

definition enqueue ::
  "(real \<Rightarrow> str) \<Rightarrow> str \<Rightarrow> str \<Rightarrow> str \<Rightarrow> jvalue \<Rightarrow> redis_lists \<Rightarrow> redis_lists \<times> str" where
  "enqueue rp task_id now queue_name payload redis =
     (redis(queue_name := redis queue_name @ [json_line rp (task_message task_id payload now)]), task_id)"

text \<open>\<^verbatim>\<open>BLPOP\<close> whose timeout expires on an empty list; the message is gone when its text cannot be read.\<close>

definition dequeue :: "(str \<Rightarrow> real option) \<Rightarrow> str \<Rightarrow> (redis_lists, exn, jvalue option) op" where
  "dequeue pf queue_name redis =
     (case redis queue_name of
        [] \<Rightarrow> (redis, Inr None)
      | raw # rest \<Rightarrow>
          (redis(queue_name := rest),
           case json_loads pf raw of
             Inl e \<Rightarrow> Inl e
           | Inr (JDict m) \<Rightarrow> Inr (Some (JDict m))
           | Inr _ \<Rightarrow> Inl (OtherError ''AttributeError'')))"

definition get_queue_depth :: "str \<Rightarrow> redis_lists \<Rightarrow> nat" where
  "get_queue_depth queue_name redis = length (redis queue_name)"

section \<open>Reading what was written\<close>

lemma char_code: "c = d \<longleftrightarrow> (of_char c :: nat) = of_char d"
  by simp

lemma hex_digit_value: "n < 16 \<Longrightarrow> hex_value (hex_digit n) = Some n"
  by (simp add: hex_digit_def hex_value_def is_dig_def Let_def)

lemma code_point_hex: "code_point CHR ''0'' CHR ''0'' (hex_digit (of_char c div 16)) (hex_digit (of_char c mod 16)) = Some c"
proof -
  have code: "of_char c < (256 :: nat)" by simp
  have a: "of_char c div 16 < (16 :: nat)" "of_char c mod 16 < (16 :: nat)"
    using less_mult_imp_div_less [of "of_char c" 16 16] code by simp_all
  have "hex_value CHR ''0'' = Some 0" by (simp add: hex_value_def is_dig_def)
  moreover have "16 * (of_char c div 16) + of_char c mod 16 = (of_char c :: nat)" by simp
  ultimately show ?thesis using code
    by (simp add: code_point_def hex_digit_value [OF a(1)] hex_digit_value [OF a(2)] Let_def)
qed

lemma read_json_char: "read_string (json_char c @ s) = map_option (\<lambda>(t, q). (c # t, q)) (read_string s)"
proof -
  let ?n = "of_char c :: nat"
  consider (q) "c = CHR 34" | (b) "c = CHR 92" | (nl) "c = CHR 10" | (cr) "c = CHR 13" | (tab) "c = CHR 9" | (bs) "c = CHR 8"
    | (ff) "c = CHR 12" | (plain) "32 \<le> ?n" "?n \<le> 126" "?n \<noteq> 34" "?n \<noteq> 92"
    | (hex) "?n \<notin> {34, 92, 10, 13, 9, 8, 12}" "\<not> (32 \<le> ?n \<and> ?n \<le> 126)"
    unfolding char_code by auto
  then show ?thesis
  proof cases
    case plain
    then have "json_char c = [c]" by (simp add: json_char_def Let_def)
    moreover have "c \<noteq> CHR 34" "c \<noteq> CHR 92" using plain by auto
    ultimately show ?thesis using plain by simp
  next
    case hex
    then have "json_char c = CHR 92 # CHR ''u'' # CHR ''0'' # CHR ''0'' # [hex_digit (?n div 16), hex_digit (?n mod 16)]"
      by (simp add: json_char_def Let_def)
    then show ?thesis by (simp add: code_point_hex)
  qed (simp_all add: json_char_def escape_of_def)
qed

lemma read_json_string: "read_string (concat (map json_char t) @ CHR 34 # s) = Some (t, s)"
  by (induction t) (simp_all add: read_json_char)

text \<open>What may follow a value inside of a list or a dict, or at the end.\<close>

definition ends :: "str \<Rightarrow> bool" where
  "ends rest \<longleftrightarrow> rest = [] \<or> hd rest \<in> {CHR '','', CHR '']'', CHR ''}''}"

lemma ends_simps:
  assumes "ends rest"
  shows "takeWhile is_dig rest = []" "dropWhile is_dig rest = rest" "read_frac rest = ([], rest)" "read_exp rest = ([], rest)"
    "skip_ws rest = rest"
  using assms by (cases rest; auto simp: ends_def is_dig_def is_ws_def read_frac_def read_exp_def skip_ws_def split: list.split)+

lemma digits_then:
  assumes "list_all is_dig ds" and "ends rest"
  shows "takeWhile is_dig (ds @ rest) = ds" "dropWhile is_dig (ds @ rest) = rest"
  using assms by (induction ds) (simp_all add: ends_simps)

lemma digit_char:
  fixes n :: nat
  shows "n < 10 \<Longrightarrow> is_dig (char_of (48 + n)) \<and> of_char (char_of (48 + n) :: char) = 48 + n"
  by (simp add: is_dig_def)

lemma show_nat_digits:
  "list_all is_dig (show_nat n) \<and> show_nat n \<noteq> [] \<and> nat_of_digits (show_nat n) = n \<and> (0 < n \<longrightarrow> hd (show_nat n) \<noteq> CHR ''0'')"
proof (induction n rule: less_induct)
  case (less n)
  show ?case
  proof (cases "n < 10")
    case True
    then have "show_nat n = [char_of (48 + n)]" by (subst show_nat.simps) simp
    moreover have "0 < n \<longrightarrow> (of_char (char_of (48 + n) :: char) :: nat) \<noteq> 48" using digit_char [OF True] by simp
    then have "0 < n \<longrightarrow> (char_of (48 + n) :: char) \<noteq> CHR ''0''" by (auto simp: char_code)
    ultimately show ?thesis using digit_char [OF True] by (simp add: nat_of_digits_def)
  next
    case False
    then have s: "show_nat n = show_nat (n div 10) @ [char_of (48 + n mod 10)]" by (subst show_nat.simps) simp
    have "n div 10 < n" "0 < n div 10" using False by simp_all
    with less.IH [of "n div 10"] digit_char [of "n mod 10"] show ?thesis
      by (simp add: s nat_of_digits_def)
  qed
qed

lemma read_int_part_nat: "ends rest \<Longrightarrow> read_int_part (show_nat n @ rest) = Some (show_nat n, rest)"
proof -
  assume rest: "ends rest"
  show ?thesis
  proof (cases "n = 0")
    case True
    have "(of_char (char_of (48 :: nat) :: char) :: nat) = of_char CHR ''0''" by simp
    then have "char_of (48 :: nat) = CHR ''0''" unfolding char_code .
    then have "show_nat 0 = ''0''" by (subst show_nat.simps) simp
    with True show ?thesis by (simp add: read_int_part_def)
  next
    case False
    obtain c ds where c: "show_nat n = c # ds" "is_dig c" "c \<noteq> CHR ''0''"
      using show_nat_digits [of n] False by (cases "show_nat n") auto
    have "takeWhile is_dig (show_nat n @ rest) = show_nat n" "dropWhile is_dig (show_nat n @ rest) = rest"
      using digits_then [OF _ rest] show_nat_digits by blast+
    with c show ?thesis by (simp add: read_int_part_def)
  qed
qed

lemma read_number_int: "ends rest \<Longrightarrow> read_number pf (show_int k @ rest) = Some (JInt k, rest)"
proof -
  assume rest: "ends rest"
  have sign: "read_sign (show_nat n @ rest) = ([], show_nat n @ rest)" for n
  proof -
    obtain c ds where "show_nat n = c # ds" "is_dig c" using show_nat_digits [of n] by (cases "show_nat n") auto
    then show ?thesis by (auto simp: read_sign_def is_dig_def)
  qed
  show ?thesis
    by (cases "k < 0") (simp_all add: show_int_def read_number_def sign read_int_part_nat [OF rest] ends_simps [OF rest]
        show_nat_digits, simp add: read_sign_def read_int_part_nat [OF rest] ends_simps [OF rest] show_nat_digits)
qed

text \<open>A number begins with a sign or a digit.\<close>

lemma number_head: "read_number pf s = Some z \<Longrightarrow> \<exists>c r. s = c # r \<and> (c = CHR ''-'' \<or> is_dig c)"
  by (cases s) (auto simp: read_number_def read_sign_def read_int_part_def is_dig_def split: if_splits prod.splits option.splits)

lemma value_number:
  assumes "read_number pf s = Some z"
  shows "json_value pf (Suc n) s = Some z"
proof -
  obtain c r where s: "s = c # r" "c = CHR ''-'' \<or> is_dig c" using number_head [OF assms] by blast
  then have "\<not> is_ws c" "c \<noteq> CHR 34" "c \<noteq> CHR ''[''" "c \<noteq> CHR ''{''" "c \<noteq> CHR ''t''" "c \<noteq> CHR ''f''" "c \<noteq> CHR ''n''"
    by (auto simp: is_ws_def is_dig_def)
  with assms s(1) show ?thesis by (simp add: skip_ws_def)
qed

text \<open>Dicts have distinct keys, and floats are read back from their text.\<close>

fun proper :: "jvalue \<Rightarrow> bool" where
  "proper (JList xs) = list_all proper xs"
| "proper (JDict d) = (distinct (map fst d) \<and> list_all (\<lambda>(k, v). proper v) d)"
| "proper _ = True"

fun floats :: "jvalue \<Rightarrow> real list" where
  "floats (JFloat x) = [x]"
| "floats (JList xs) = concat (map floats xs)"
| "floats (JDict d) = concat (map (\<lambda>(k, v). floats v) d)"
| "floats _ = []"

definition reads_back :: "(str \<Rightarrow> real option) \<Rightarrow> (real \<Rightarrow> str) \<Rightarrow> real \<Rightarrow> bool" where
  "reads_back pf rp x \<longleftrightarrow> (\<forall>rest. ends rest \<longrightarrow> read_number pf (rp x @ rest) = Some (JFloat x, rest))"

definition readable :: "(str \<Rightarrow> real option) \<Rightarrow> (real \<Rightarrow> str) \<Rightarrow> jvalue \<Rightarrow> bool" where
  "readable pf rp v \<longleftrightarrow> proper v \<and> list_all (reads_back pf rp) (floats v)"

lemma readable_simps [simp]:
  "readable pf rp JNull" "readable pf rp (JBool b)" "readable pf rp (JInt k)" "readable pf rp (JStr t)"
  "readable pf rp (JFloat x) = reads_back pf rp x"
  "readable pf rp (JList xs) = list_all (readable pf rp) xs"
  "readable pf rp (JDict d) = (distinct (map fst d) \<and> list_all (\<lambda>(k, v). readable pf rp v) d)"
  by (auto simp: readable_def list_all_iff)

fun depth_need :: "jvalue \<Rightarrow> nat" where
  "depth_need (JList xs) = Suc (sum_list (map (\<lambda>x. Suc (depth_need x)) xs))"
| "depth_need (JDict d) = Suc (sum_list (map (\<lambda>(k, v). Suc (depth_need v)) d))"
| "depth_need _ = 1"

lemma depth_need_pos: "0 < depth_need v" by (cases v) simp_all

text \<open>Blanks before a value are skipped, and no value begins with a closing bracket.\<close>

lemma value_blank: "json_value pf n (CHR '' '' # s) = json_value pf n s"
  by (cases n) (simp_all add: skip_ws_def is_ws_def)

lemma items_blank: "json_items pf n (CHR '' '' # s) = json_items pf n s"
  by (cases n) (simp_all add: value_blank)

lemma members_blank: "json_members pf n (CHR '' '' # s) = json_members pf n s"
  by (cases n) (simp_all add: skip_ws_def is_ws_def)

lemma value_head: "json_value pf n s = Some z \<Longrightarrow> \<exists>e q. skip_ws s = e # q \<and> e \<noteq> CHR '']''"
proof (cases n)
  case (Suc m)
  assume z: "json_value pf n s = Some z"
  obtain e q where e: "skip_ws s = e # q" using z Suc by (cases "skip_ws s") simp_all
  have "e \<noteq> CHR '']''" using z Suc e number_head [of pf "e # q" z] by (auto simp: is_dig_def)
  with e show ?thesis by blast
qed simp

lemma ends_close: "ends (CHR '']'' # s)" "ends (CHR ''}'' # s)" "ends (CHR '','' # s)" "ends []"
  by (simp_all add: ends_def)

lemma skip_here: "skip_ws (CHR '']'' # s) = CHR '']'' # s" "skip_ws (CHR ''}'' # s) = CHR ''}'' # s"
  "skip_ws (CHR '','' # s) = CHR '','' # s" "skip_ws (CHR '':'' # s) = CHR '':'' # s" "skip_ws (CHR 34 # s) = CHR 34 # s"
  by (simp_all add: skip_ws_def is_ws_def)

definition reads_value :: "(str \<Rightarrow> real option) \<Rightarrow> (real \<Rightarrow> str) \<Rightarrow> jvalue \<Rightarrow> bool" where
  "reads_value pf rp v \<longleftrightarrow>
     (\<forall>n rest. depth_need v \<le> n \<longrightarrow> ends rest \<longrightarrow> json_value pf n (json_line rp v @ rest) = Some (v, rest))"

lemma items_text:
  assumes "list_all (reads_value pf rp) xs" and "xs \<noteq> []" and "sum_list (map (\<lambda>x. Suc (depth_need x)) xs) \<le> n"
  shows "json_items pf n (join_with '', '' (map (json_line rp) xs) @ CHR '']'' # rest) = Some (xs, rest)"
  using assms
proof (induction xs arbitrary: n)
  case (Cons x xs)
  obtain m where n: "n = Suc m" using Cons.prems(3) by (cases n) simp_all
  then have need: "depth_need x \<le> m" "sum_list (map (\<lambda>x. Suc (depth_need x)) xs) \<le> m" using Cons.prems(3) by simp_all
  have x: "json_value pf m (json_line rp x @ t) = Some (x, t)" if "ends t" for t
    using Cons.prems(1) need(1) that by (simp add: reads_value_def)
  show ?case
  proof (cases xs)
    case Nil
    then show ?thesis using x [OF ends_close(1), of rest] by (simp add: n skip_here)
  next
    case (Cons y ys)
    then have "json_items pf m (join_with '', '' (map (json_line rp) xs) @ CHR '']'' # rest) = Some (xs, rest)"
      using Cons.IH [of m] Cons.prems(1) need(2) by simp
    then show ?thesis using x [OF ends_close(3)] Cons by (simp add: n skip_here items_blank)
  qed
qed simp

lemma members_text:
  assumes "list_all (\<lambda>(k, v). reads_value pf rp v) d" and "d \<noteq> []" and "sum_list (map (\<lambda>(k, v). Suc (depth_need v)) d) \<le> n"
  shows "json_members pf n (join_with '', '' (map (\<lambda>(k, v). json_string k @ '': '' @ json_line rp v) d) @ CHR ''}'' # rest) = Some (d, rest)"
  using assms
proof (induction d arbitrary: n)
  case (Cons p d)
  obtain k v where p: "p = (k, v)" by (cases p)
  obtain m where n: "n = Suc m" using Cons.prems(3) p by (cases n) simp_all
  then have need: "depth_need v \<le> m" "sum_list (map (\<lambda>(k, v). Suc (depth_need v)) d) \<le> m" using Cons.prems(3) p by simp_all
  have v: "json_value pf m (json_line rp v @ t) = Some (v, t)" if "ends t" for t
    using Cons.prems(1) need(1) that p by (simp add: reads_value_def)
  show ?case
  proof (cases d)
    case Nil
    then show ?thesis using v [OF ends_close(2), of rest]
      by (simp add: n p skip_here json_string_def read_json_string value_blank)
  next
    case (Cons q ds)
    then have "json_members pf m (join_with '', '' (map (\<lambda>(k, v). json_string k @ '': '' @ json_line rp v) d) @ CHR ''}'' # rest) = Some (d, rest)"
      using Cons.IH [of m] Cons.prems(1) need(2) by simp
    then show ?thesis using v [OF ends_close(3)] Cons
      by (simp add: n p skip_here json_string_def read_json_string value_blank members_blank)
  qed
qed simp

lemma dict_put_new: "k \<notin> fst ` set d \<Longrightarrow> dict_put k v d = d @ [(k, v)]"
  by (induction d) auto

lemma dict_of_distinct: "distinct (map fst ps) \<Longrightarrow> dict_of ps = ps"
proof -
  have "distinct (map fst (d @ ps)) \<Longrightarrow> foldl (\<lambda>d (k, v). dict_put k v d) d ps = d @ ps" for d
  proof (induction ps arbitrary: d)
    case (Cons p ps)
    obtain k v where p: "p = (k, v)" by (cases p)
    with Cons.prems have "k \<notin> fst ` set d" by simp
    with Cons.IH [of "d @ [p]"] Cons.prems p show ?case by (simp add: dict_put_new)
  qed simp
  then show "distinct (map fst ps) \<Longrightarrow> dict_of ps = ps" by (simp add: dict_of_def)
qed

lemma value_text: "readable pf rp v \<Longrightarrow> reads_value pf rp v"
proof (induction rp v rule: json_line.induct)
  case (4 rp x)
  then show ?case unfolding reads_value_def
    by (intro allI impI) (auto simp: reads_back_def Suc_le_eq dest!: gr0_implies_Suc intro: value_number)
next
  case (3 rp k)
  then show ?case unfolding reads_value_def
    by (intro allI impI) (auto simp: Suc_le_eq dest!: gr0_implies_Suc intro: value_number read_number_int)
next
  case (5 rp t)
  then show ?case unfolding reads_value_def
    by (intro allI impI) (auto simp: Suc_le_eq json_string_def skip_here read_json_string dest!: gr0_implies_Suc)
next
  case (6 rp xs)
  have elems: "list_all (reads_value pf rp) xs" using 6 by (auto simp: list_all_iff)
  show ?case unfolding reads_value_def
  proof (intro allI impI)
    fix n rest assume n: "depth_need (JList xs) \<le> n" and "ends rest"
    then obtain m where m: "n = Suc m" "sum_list (map (\<lambda>x. Suc (depth_need x)) xs) \<le> m" by (cases n) simp_all
    show "json_value pf n (json_line rp (JList xs) @ rest) = Some (JList xs, rest)"
    proof (cases xs)
      case Nil
      then show ?thesis by (simp add: m(1) skip_ws_def is_ws_def)
    next
      case (Cons y ys)
      let ?text = "join_with '', '' (map (json_line rp) xs) @ CHR '']'' # rest"
      have items: "json_items pf m ?text = Some (xs, rest)" by (rule items_text [OF elems _ m(2)]) (simp add: Cons)
      then obtain e q where "skip_ws ?text = e # q" "e \<noteq> CHR '']''"
        by (cases m) (auto dest!: value_head split: option.splits)
      with items show ?thesis by (simp add: m(1) skip_ws_def is_ws_def)
    qed
  qed
next
  case (7 rp d)
  have elems: "list_all (\<lambda>(k, v). reads_value pf rp v) d" using 7 by (fastforce simp: list_all_iff)
  show ?case unfolding reads_value_def
  proof (intro allI impI)
    fix n rest assume n: "depth_need (JDict d) \<le> n" and "ends rest"
    then obtain m where m: "n = Suc m" "sum_list (map (\<lambda>(k, v). Suc (depth_need v)) d) \<le> m" by (cases n) simp_all
    show "json_value pf n (json_line rp (JDict d) @ rest) = Some (JDict d, rest)"
    proof (cases d)
      case Nil
      then show ?thesis by (simp add: m(1) skip_ws_def is_ws_def)
    next
      case (Cons p ps)
      let ?text = "join_with '', '' (map (\<lambda>(k, v). json_string k @ '': '' @ json_line rp v) d) @ CHR ''}'' # rest"
      have items: "json_members pf m ?text = Some (d, rest)" by (rule members_text [OF elems _ m(2)]) (simp add: Cons)
      then obtain q where "skip_ws ?text = CHR 34 # q"
        by (cases m) (auto split: list.splits if_splits)
      with items 7 show ?thesis by (simp add: m(1) skip_ws_def is_ws_def dict_of_distinct)
    qed
  qed
qed (auto simp: reads_value_def Suc_le_eq skip_ws_def is_ws_def dest!: gr0_implies_Suc)

text \<open>The length of a text is fuel enough to read it.\<close>

lemma join_length: "xs \<noteq> [] \<Longrightarrow> length (join_with '', '' xs) + 2 = sum_list (map (\<lambda>x. length x + 2) xs)"
  by (induction "'', ''" xs rule: join_with.induct) simp_all

lemma need_length: "readable pf rp v \<Longrightarrow> depth_need v \<le> length (json_line rp v)"
proof (induction rp v rule: json_line.induct)
  case (3 rp k)
  then show ?case using show_nat_digits [of "nat k"] show_nat_digits [of "nat (- k)"]
    by (cases "show_nat (nat k)"; cases "show_nat (nat (- k))") (simp_all add: show_int_def)
next
  case (4 rp x)
  then have "read_number pf (rp x) = Some (JFloat x, [])" using ends_close(4) by (fastforce simp: reads_back_def)
  from number_head [OF this] show ?case by auto
next
  case (6 rp xs)
  show ?case
  proof (cases xs)
    case (Cons y ys)
    have "sum_list (map (\<lambda>x. Suc (depth_need x)) xs) \<le> sum_list (map (\<lambda>x. length (json_line rp x) + 1) xs)"
      using 6 by (intro sum_list_mono) (auto simp: list_all_iff)
    moreover have "sum_list (map (\<lambda>x. length (json_line rp x) + 1) xs) + length xs = sum_list (map (\<lambda>x. length (json_line rp x) + 2) xs)"
      by (induction xs) simp_all
    moreover have "0 < length xs" by (simp add: Cons)
    ultimately show ?thesis using join_length [of "map (json_line rp) xs"] Cons by (simp add: comp_def)
  qed simp
next
  case (7 rp d)
  show ?case
  proof (cases d)
    case (Cons y ys)
    let ?t = "\<lambda>(k, v). json_string k @ '': '' @ json_line rp v"
    have "sum_list (map (\<lambda>(k, v). Suc (depth_need v)) d) \<le> sum_list (map (\<lambda>p. length (?t p) + 1) d)"
      using 7 by (intro sum_list_mono) (fastforce simp: list_all_iff)
    moreover have "sum_list (map (\<lambda>p. length (?t p) + 1) d) + length d = sum_list (map (\<lambda>p. length (?t p) + 2) d)"
      by (induction d) simp_all
    moreover have "0 < length d" by (simp add: Cons)
    ultimately show ?thesis using join_length [of "map ?t d"] Cons by (simp add: comp_def)
  qed simp
qed (simp_all add: json_string_def)

lemma loads_dumps:
  assumes "readable pf rp v"
  shows "json_loads pf (json_line rp v) = Inr v"
proof -
  have "json_value pf (length (json_line rp v)) (json_line rp v @ []) = Some (v, [])"
    using value_text [OF assms] need_length [OF assms] ends_close(4) unfolding reads_value_def by blast
  then show ?thesis by (simp add: json_loads_def skip_ws_def)
qed

section \<open>The queues are queues\<close>

datatype queue_call = Enqueue str str jvalue str | Dequeue str | Depth str

datatype queue_reply = TaskId str | Message "jvalue option" | Failure exn | DepthIs nat

text \<open>A series of calls on Redis, and on plain queues of messages.\<close>

fun run_queue ::
  "(str \<Rightarrow> real option) \<Rightarrow> (real \<Rightarrow> str) \<Rightarrow> queue_call list \<Rightarrow> redis_lists \<Rightarrow> redis_lists \<times> queue_reply list" where
  "run_queue pf rp [] r = (r, [])"
| "run_queue pf rp (Enqueue n i p t # cs) r =
     (case enqueue rp i t n p r of (r', x) \<Rightarrow> (case run_queue pf rp cs r' of (r'', out) \<Rightarrow> (r'', TaskId x # out)))"
| "run_queue pf rp (Dequeue n # cs) r =
     (case dequeue pf n r of (r', x) \<Rightarrow>
        (case run_queue pf rp cs r' of (r'', out) \<Rightarrow> (r'', (case x of Inl e \<Rightarrow> Failure e | Inr m \<Rightarrow> Message m) # out)))"
| "run_queue pf rp (Depth n # cs) r =
     (case run_queue pf rp cs r of (r', out) \<Rightarrow> (r', DepthIs (get_queue_depth n r) # out))"

fun run_fifo :: "queue_call list \<Rightarrow> (str \<Rightarrow> jvalue list) \<Rightarrow> (str \<Rightarrow> jvalue list) \<times> queue_reply list" where
  "run_fifo [] q = (q, [])"
| "run_fifo (Enqueue n i p t # cs) q =
     (case run_fifo cs (q(n := q n @ [task_message i p t])) of (q', out) \<Rightarrow> (q', TaskId i # out))"
| "run_fifo (Dequeue n # cs) q =
     (case q n of
        [] \<Rightarrow> (case run_fifo cs q of (q', out) \<Rightarrow> (q', Message None # out))
      | m # ms \<Rightarrow> (case run_fifo cs (q(n := ms)) of (q', out) \<Rightarrow> (q', Message (Some m) # out)))"
| "run_fifo (Depth n # cs) q = (case run_fifo cs q of (q', out) \<Rightarrow> (q', DepthIs (length (q n)) # out))"

definition represents :: "(str \<Rightarrow> real option) \<Rightarrow> (real \<Rightarrow> str) \<Rightarrow> (str \<Rightarrow> jvalue list) \<Rightarrow> redis_lists \<Rightarrow> bool" where
  "represents pf rp q r \<longleftrightarrow>
     (\<forall>n. r n = map (json_line rp) (q n) \<and> list_all (\<lambda>m. readable pf rp m \<and> (\<exists>d. m = JDict d)) (q n))"

definition readable_call :: "(str \<Rightarrow> real option) \<Rightarrow> (real \<Rightarrow> str) \<Rightarrow> queue_call \<Rightarrow> bool" where
  "readable_call pf rp c \<longleftrightarrow> (case c of Enqueue n i p t \<Rightarrow> readable pf rp p | _ \<Rightarrow> True)"

lemma represents_enqueue:
  assumes "represents pf rp q r" and "readable pf rp p"
  shows "represents pf rp (q(n := q n @ [task_message i p t])) (fst (enqueue rp i t n p r))"
  using assms by (auto simp: represents_def enqueue_def task_message_def)

lemma represents_dequeue:
  assumes "represents pf rp q r"
  shows "case q n of
      [] \<Rightarrow> dequeue pf n r = (r, Inr None)
    | m # ms \<Rightarrow> dequeue pf n r = (r(n := map (json_line rp) ms), Inr (Some m)) \<and> represents pf rp (q(n := ms)) (r(n := map (json_line rp) ms))"
proof (cases "q n")
  case Nil
  then show ?thesis using assms by (simp add: represents_def dequeue_def)
next
  case (Cons m ms)
  have n: "r n = map (json_line rp) (q n)" "list_all (\<lambda>m. readable pf rp m \<and> (\<exists>d. m = JDict d)) (q n)"
    using assms unfolding represents_def by blast+
  then obtain d where m: "m = JDict d" "readable pf rp m" using Cons by auto
  have "dequeue pf n r = (r(n := map (json_line rp) ms), Inr (Some m))"
    using n(1) Cons loads_dumps [OF m(2)] m(1) by (simp add: dequeue_def)
  moreover have "represents pf rp (q(n := ms)) (r(n := map (json_line rp) ms))"
    using assms n(2) Cons by (simp add: represents_def)
  ultimately show ?thesis using Cons by simp
qed

text \<open>
  C36: the Redis lists are first-in first-out queues. Whatever calls are made on whatever queues, every reply is the one
  of plain queues of messages: a task comes out once, in its turn, of its own queue only and with exactly
  the payload that went in, also with quotes, controls and characters outside of ASCII in it.
\<close>

theorem redis_queues_refine:
  assumes "represents pf rp q r" and "list_all (readable_call pf rp) cs"
  shows "snd (run_queue pf rp cs r) = snd (run_fifo cs q)
    \<and> represents pf rp (fst (run_fifo cs q)) (fst (run_queue pf rp cs r))"
  using assms
proof (induction cs arbitrary: q r)
  case step: (Cons c cs)
  show ?case
  proof (cases c)
    case (Enqueue n i p t)
    have "readable pf rp p" using step.prems(2) Enqueue by (simp add: readable_call_def)
    note rep = represents_enqueue [OF step.prems(1) this, of n i t]
    obtain r' x where e: "enqueue rp i t n p r = (r', x)" by fastforce
    obtain a b where ab: "run_queue pf rp cs r' = (a, b)" by fastforce
    obtain a' b' where ab': "run_fifo cs (q(n := q n @ [task_message i p t])) = (a', b')" by fastforce
    have "x = i" using e by (simp add: enqueue_def)
    moreover have "represents pf rp (q(n := q n @ [task_message i p t])) r'" using rep e by simp
    from step.IH [OF this] step.prems(2) have "b = b' \<and> represents pf rp a' a" unfolding ab ab' by simp
    ultimately show ?thesis by (simp only: Enqueue run_queue.simps run_fifo.simps e ab ab' prod.case snd_conv fst_conv)
  next
    case (Dequeue n)
    show ?thesis
    proof (cases "q n")
      case Nil
      then have "dequeue pf n r = (r, Inr None)" using represents_dequeue [OF step.prems(1), of n] by simp
      with step.IH [OF step.prems(1)] step.prems(2) Nil Dequeue show ?thesis by (auto split: prod.split)
    next
      case (Cons m ms)
      let ?r = "r(n := map (json_line rp) ms)" and ?q = "q(n := ms)"
      have e: "dequeue pf n r = (?r, Inr (Some m))" and rep: "represents pf rp ?q ?r"
        using represents_dequeue [OF step.prems(1), of n] Cons by simp_all
      obtain a b where ab: "run_queue pf rp cs ?r = (a, b)" by fastforce
      obtain a' b' where ab': "run_fifo cs ?q = (a', b')" by fastforce
      from step.IH [OF rep] step.prems(2) have "b = b' \<and> represents pf rp a' a" unfolding ab ab' by simp
      then show ?thesis by (simp only: Dequeue Cons run_queue.simps run_fifo.simps e ab ab' prod.case sum.case list.case snd_conv fst_conv)
    qed
  next
    case (Depth n)
    have "get_queue_depth n r = length (q n)" using step.prems(1) by (simp add: get_queue_depth_def represents_def)
    then show ?thesis using step.IH [OF step.prems(1)] step.prems(2) Depth by (auto split: prod.split)
  qed
qed simp

definition half_text :: "real \<Rightarrow> str" where "half_text x = ''0.5''"
definition half_value :: "str \<Rightarrow> real option" where "half_value s = Some (1 / 2)"

lemma half_reads_back: "reads_back half_value half_text (1 / 2)"
  by (simp add: reads_back_def half_text_def half_value_def read_number_def read_sign_def read_int_part_def read_frac_def
      is_dig_def ends_simps)

definition sample_task :: jvalue where
  "sample_task = JDict [(''note'', JStr [CHR 34, CHR 10, CHR 0xE9]), (''score'', JFloat (1 / 2)), (''ids'', JList [JInt (- 3), JNull, JBool True])]"

theorem redis_queues_refine_witness:
  "snd (run_queue half_value half_text
      [Enqueue ''jobs'' ''t1'' sample_task ''now'', Enqueue ''mail'' ''t2'' sample_task ''now'', Depth ''jobs'', Dequeue ''jobs'', Dequeue ''jobs'']
      (\<lambda>_. [])) =
    [TaskId ''t1'', TaskId ''t2'', DepthIs 1, Message (Some (task_message ''t1'' sample_task ''now'')), Message None]"
proof -
  have empty: "represents half_value half_text (\<lambda>_. []) (\<lambda>_. [])" by (simp add: represents_def)
  have "readable half_value half_text sample_task" by (simp add: sample_task_def half_reads_back)
  then have calls: "list_all (readable_call half_value half_text)
      [Enqueue ''jobs'' ''t1'' sample_task ''now'', Enqueue ''mail'' ''t2'' sample_task ''now'', Depth ''jobs'', Dequeue ''jobs'', Dequeue ''jobs'']"
    by (simp add: readable_call_def)
  from redis_queues_refine [OF empty calls] show ?thesis by simp
qed

end
