(* ===== verification/Settings.thy ===== *)
theory Settings
  imports Llm Mailer S3 Secrets Startup
begin

text \<open>
  The settings of the application (\<^verbatim>\<open>config/settings.py\<close>): the defaults of every section, their loading from the
  environment with the validators, the cache of \<^verbatim>\<open>get_settings\<close>, and the sections as the other theories use
  them. What pydantic-settings reads from a variable is a parameter (\<open>environ\<close>): nothing when it is unset, an error
  when its text is no value of the field's type. A negative SMTP port, a
  NaN, and the two Latin-1 letters whose upper case is outside Latin-1 are not represented.
\<close>

section \<open>The environment\<close>

record environ =
  ev_str :: "str \<Rightarrow> str option"
  ev_int :: "str \<Rightarrow> (exn + int) option"
  ev_real :: "str \<Rightarrow> (exn + real) option"
  ev_bool :: "str \<Rightarrow> (exn + bool) option"
  ev_strs :: "str \<Rightarrow> (exn + str list) option"

text \<open>A field: the section as it is when the variable is unset, an error, or the value put into it.\<close>

definition field :: "(exn + 'a) option \<Rightarrow> ('a \<Rightarrow> 's \<Rightarrow> 's) \<Rightarrow> exn + 's \<Rightarrow> exn + 's" where
  "field r put st =
     (case st of
        Inl e \<Rightarrow> Inl e
      | Inr s \<Rightarrow> (case r of None \<Rightarrow> Inr s | Some (Inl e) \<Rightarrow> Inl e | Some (Inr v) \<Rightarrow> Inr (put v s)))"

definition text_of :: "environ \<Rightarrow> str \<Rightarrow> (exn + str) option" where
  "text_of ev name = map_option Inr (ev_str ev name)"

definition upper_char :: "char \<Rightarrow> str" where
  "upper_char c =
     (let n = (of_char c :: nat) in
      if 97 \<le> n \<and> n \<le> 122 \<or> 224 \<le> n \<and> n \<le> 254 \<and> n \<noteq> 247 then [char_of (n - 32)]
      else if n = 223 then ''SS'' else [c])"

definition upper :: "str \<Rightarrow> str" where
  "upper s = concat (map upper_char s)"

text \<open>The two enumerations, read from their values.\<close>

definition read_environment :: "str \<Rightarrow> exn + environment" where
  "read_environment s =
     (if s = ''development'' then Inr DEVELOPMENT else if s = ''staging'' then Inr STAGING
      else if s = ''production'' then Inr PRODUCTION else Inl (ValueError ''environment''))"

definition read_apply_mode :: "str \<Rightarrow> exn + apply_mode" where
  "read_apply_mode s =
     (if s = ''autonomous'' then Inr AUTONOMOUS else if s = ''review'' then Inr REVIEW
      else if s = ''batch'' then Inr BATCH else Inl (ValueError ''apply_mode''))"

section \<open>The sections\<close>

definition default_llm :: llm_settings where
  "default_llm = \<lparr>portkey_api_key = [], llm_preferred_provider = ''openai'', fallback_providers = [''groq'', ''openrouter''],
     llm_default_model = ''gpt-4o'', llm_temperature = 7 / 10, llm_max_tokens = 4096, bedrock_region = ''us-east-1''\<rparr>"

definition load_llm :: "environ \<Rightarrow> exn + llm_settings" where
  "load_llm ev =
     (field (text_of ev ''LLM__PORTKEY_API_KEY'') (\<lambda>v s. s\<lparr>portkey_api_key := v\<rparr>)
      \<circ> field (text_of ev ''LLM__PREFERRED_PROVIDER'') (\<lambda>v s. s\<lparr>llm_preferred_provider := v\<rparr>)
      \<circ> field (ev_strs ev ''LLM__FALLBACK_PROVIDERS'') (\<lambda>v s. s\<lparr>fallback_providers := v\<rparr>)
      \<circ> field (text_of ev ''LLM__DEFAULT_MODEL'') (\<lambda>v s. s\<lparr>llm_default_model := v\<rparr>)
      \<circ> field (ev_real ev ''LLM__TEMPERATURE'') (\<lambda>v s. s\<lparr>llm_temperature := validate_temperature v\<rparr>)
      \<circ> field (ev_int ev ''LLM__MAX_TOKENS'') (\<lambda>v s. s\<lparr>llm_max_tokens := validate_max_tokens v\<rparr>)
      \<circ> field (text_of ev ''LLM__BEDROCK_REGION'') (\<lambda>v s. s\<lparr>bedrock_region := v\<rparr>)) (Inr default_llm)"

text \<open>The keys of the providers, empty unless set.\<close>

definition load_provider_keys :: "environ \<Rightarrow> (str \<times> str) list" where
  "load_provider_keys ev =
     map (\<lambda>(name, var). (name, or_empty (ev_str ev var)))
       [(''openai'', ''LLM__OPENAI_API_KEY''), (''groq'', ''LLM__GROQ_API_KEY''), (''gemini'', ''LLM__GEMINI_API_KEY''),
        (''openrouter'', ''LLM__OPENROUTER_API_KEY''), (''github'', ''LLM__GITHUB_TOKEN'')]"

record browser_settings =
  bs_headless :: bool
  bs_max_parallel :: int
  bs_user_data_dir :: str
  bs_keep_alive :: bool
  bs_max_steps :: int
  bs_max_failures :: int
  bs_step_timeout :: int
  bs_use_vision :: str
  bs_live_apply :: bool

definition default_browser :: browser_settings where
  "default_browser = \<lparr>bs_headless = True, bs_max_parallel = 3, bs_user_data_dir = ''./data/sessions/chrome_profile'',
     bs_keep_alive = True, bs_max_steps = 50, bs_max_failures = 3, bs_step_timeout = 120, bs_use_vision = ''auto'',
     bs_live_apply = False\<rparr>"

definition load_browser :: "environ \<Rightarrow> exn + browser_settings" where
  "load_browser ev =
     (field (ev_bool ev ''BROWSER__HEADLESS'') (\<lambda>v s. s\<lparr>bs_headless := v\<rparr>)
      \<circ> field (ev_int ev ''BROWSER__MAX_PARALLEL'') (\<lambda>v s. s\<lparr>bs_max_parallel := validate_max_parallel v\<rparr>)
      \<circ> field (text_of ev ''BROWSER__USER_DATA_DIR'') (\<lambda>v s. s\<lparr>bs_user_data_dir := v\<rparr>)
      \<circ> field (ev_bool ev ''BROWSER__KEEP_ALIVE'') (\<lambda>v s. s\<lparr>bs_keep_alive := v\<rparr>)
      \<circ> field (ev_int ev ''BROWSER__MAX_STEPS'') (\<lambda>v s. s\<lparr>bs_max_steps := v\<rparr>)
      \<circ> field (ev_int ev ''BROWSER__MAX_FAILURES'') (\<lambda>v s. s\<lparr>bs_max_failures := v\<rparr>)
      \<circ> field (ev_int ev ''BROWSER__STEP_TIMEOUT'') (\<lambda>v s. s\<lparr>bs_step_timeout := v\<rparr>)
      \<circ> field (text_of ev ''BROWSER__USE_VISION'') (\<lambda>v s. s\<lparr>bs_use_vision := v\<rparr>)
      \<circ> field (ev_bool ev ''BROWSER__LIVE_APPLY'') (\<lambda>v s. s\<lparr>bs_live_apply := v\<rparr>)) (Inr default_browser)"

text \<open>The expiry of a reset token is a field of the mail's section and part of the record \<open>auth_settings\<close>.\<close>

definition default_auth :: auth_settings where
  "default_auth = \<lparr>access_token_expire_minutes = 15, refresh_token_expire_days = 30, ws_ticket_expire_seconds = 60,
     reset_token_expire_minutes = 30\<rparr>"

definition load_auth :: "environ \<Rightarrow> exn + auth_settings" where
  "load_auth ev =
     (field (ev_int ev ''AUTH__ACCESS_TOKEN_EXPIRE_MINUTES'') (\<lambda>v s. s\<lparr>access_token_expire_minutes := v\<rparr>)
      \<circ> field (ev_int ev ''AUTH__REFRESH_TOKEN_EXPIRE_DAYS'') (\<lambda>v s. s\<lparr>refresh_token_expire_days := v\<rparr>)
      \<circ> field (ev_int ev ''AUTH__WS_TICKET_EXPIRE_SECONDS'') (\<lambda>v s. s\<lparr>ws_ticket_expire_seconds := v\<rparr>)
      \<circ> field (ev_int ev ''EMAIL__RESET_TOKEN_EXPIRE_MINUTES'') (\<lambda>v s. s\<lparr>reset_token_expire_minutes := v\<rparr>)) (Inr default_auth)"

definition default_email :: email_settings where
  "default_email = \<lparr>es_provider = ''log'', es_from_address = ''no-reply@autoapply.ai'', es_from_name = ''AutoApply AI'',
     es_frontend_base_url = ''http://localhost:5173'', es_smtp_host = [], es_smtp_port = 587, es_smtp_username = [],
     es_smtp_password = [], es_smtp_starttls = True\<rparr>"

definition load_email :: "environ \<Rightarrow> exn + email_settings" where
  "load_email ev =
     (field (text_of ev ''EMAIL__PROVIDER'') (\<lambda>v s. s\<lparr>es_provider := v\<rparr>)
      \<circ> field (text_of ev ''EMAIL__FROM_ADDRESS'') (\<lambda>v s. s\<lparr>es_from_address := v\<rparr>)
      \<circ> field (text_of ev ''EMAIL__FROM_NAME'') (\<lambda>v s. s\<lparr>es_from_name := v\<rparr>)
      \<circ> field (text_of ev ''EMAIL__FRONTEND_BASE_URL'') (\<lambda>v s. s\<lparr>es_frontend_base_url := v\<rparr>)
      \<circ> field (text_of ev ''EMAIL__SMTP_HOST'') (\<lambda>v s. s\<lparr>es_smtp_host := v\<rparr>)
      \<circ> field (ev_int ev ''EMAIL__SMTP_PORT'') (\<lambda>v s. s\<lparr>es_smtp_port := nat v\<rparr>)
      \<circ> field (text_of ev ''EMAIL__SMTP_USERNAME'') (\<lambda>v s. s\<lparr>es_smtp_username := v\<rparr>)
      \<circ> field (text_of ev ''EMAIL__SMTP_PASSWORD'') (\<lambda>v s. s\<lparr>es_smtp_password := v\<rparr>)
      \<circ> field (ev_bool ev ''EMAIL__SMTP_STARTTLS'') (\<lambda>v s. s\<lparr>es_smtp_starttls := v\<rparr>)) (Inr default_email)"

definition default_storage :: storage_settings where
  "default_storage = \<lparr>sc_provider = ''local'', sc_local_root = ''./data/storage'', sc_url_signing_secret = INSECURE_DEFAULT,
     sc_bucket = [], sc_region = [], sc_endpoint_url = [], sc_access_key_id = [], sc_secret_access_key = []\<rparr>"

definition load_storage :: "environ \<Rightarrow> exn + storage_settings" where
  "load_storage ev =
     (field (text_of ev ''STORAGE__PROVIDER'') (\<lambda>v s. s\<lparr>sc_provider := v\<rparr>)
      \<circ> field (text_of ev ''STORAGE__LOCAL_ROOT'') (\<lambda>v s. s\<lparr>sc_local_root := v\<rparr>)
      \<circ> field (text_of ev ''STORAGE__URL_SIGNING_SECRET'') (\<lambda>v s. s\<lparr>sc_url_signing_secret := v\<rparr>)
      \<circ> field (text_of ev ''STORAGE__BUCKET'') (\<lambda>v s. s\<lparr>sc_bucket := v\<rparr>)
      \<circ> field (text_of ev ''STORAGE__REGION'') (\<lambda>v s. s\<lparr>sc_region := v\<rparr>)
      \<circ> field (text_of ev ''STORAGE__ENDPOINT_URL'') (\<lambda>v s. s\<lparr>sc_endpoint_url := v\<rparr>)
      \<circ> field (text_of ev ''STORAGE__ACCESS_KEY_ID'') (\<lambda>v s. s\<lparr>sc_access_key_id := v\<rparr>)
      \<circ> field (text_of ev ''STORAGE__SECRET_ACCESS_KEY'') (\<lambda>v s. s\<lparr>sc_secret_access_key := v\<rparr>)) (Inr default_storage)"

section \<open>The root\<close>

record root_settings =
  rs_database_url :: str
  rs_redis_url :: str
  rs_apply_mode :: apply_mode
  rs_min_ats_score :: real
  rs_environment :: environment
  rs_log_level :: str
  rs_metrics_token :: str
  rs_sentry_dsn :: str
  rs_llm :: llm_settings
  rs_provider_keys :: "(str \<times> str) list"
  rs_browser :: browser_settings
  rs_auth :: auth_settings
  rs_secret_key :: str
  rs_algorithm :: str
  rs_secrets_provider :: str
  rs_app_keys :: str
  rs_storage :: storage_settings
  rs_email :: email_settings
  rs_exa_api_key :: str
  rs_host :: str
  rs_port :: int
  rs_cors_origins :: "str list"

definition default_root :: root_settings where
  "default_root = \<lparr>rs_database_url = ''sqlite+aiosqlite:///data/db/autoapply.db'', rs_redis_url = ''redis://localhost:6379/0'',
     rs_apply_mode = REVIEW, rs_min_ats_score = 3 / 4, rs_environment = DEVELOPMENT, rs_log_level = ''INFO'', rs_metrics_token = [],
     rs_sentry_dsn = [], rs_llm = default_llm, rs_provider_keys = [], rs_browser = default_browser, rs_auth = default_auth,
     rs_secret_key = INSECURE_DEFAULT, rs_algorithm = ''HS256'', rs_secrets_provider = ''local'', rs_app_keys = [],
     rs_storage = default_storage, rs_email = default_email, rs_exa_api_key = [], rs_host = ''0.0.0.0'', rs_port = 8000,
     rs_cors_origins = [''http://localhost:3000'', ''http://localhost:5173'']\<rparr>"

definition section_of :: "exn + 'a \<Rightarrow> ('a \<Rightarrow> 's \<Rightarrow> 's) \<Rightarrow> exn + 's \<Rightarrow> exn + 's" where
  "section_of r put st = field (Some r) put st"

definition load_settings :: "environ \<Rightarrow> exn + root_settings" where
  "load_settings ev =
     (field (text_of ev ''DATABASE_URL'') (\<lambda>v s. s\<lparr>rs_database_url := v\<rparr>)
      \<circ> field (text_of ev ''REDIS_URL'') (\<lambda>v s. s\<lparr>rs_redis_url := v\<rparr>)
      \<circ> field (map_option read_apply_mode (ev_str ev ''APPLY_MODE'')) (\<lambda>v s. s\<lparr>rs_apply_mode := v\<rparr>)
      \<circ> field (ev_real ev ''MIN_ATS_SCORE'') (\<lambda>v s. s\<lparr>rs_min_ats_score := validate_min_ats_score v\<rparr>)
      \<circ> field (map_option read_environment (ev_str ev ''ENVIRONMENT'')) (\<lambda>v s. s\<lparr>rs_environment := v\<rparr>)
      \<circ> field (text_of ev ''LOG_LEVEL'') (\<lambda>v s. s\<lparr>rs_log_level := upper v\<rparr>)
      \<circ> field (text_of ev ''METRICS_TOKEN'') (\<lambda>v s. s\<lparr>rs_metrics_token := v\<rparr>)
      \<circ> field (text_of ev ''SENTRY_DSN'') (\<lambda>v s. s\<lparr>rs_sentry_dsn := v\<rparr>)
      \<circ> section_of (load_llm ev) (\<lambda>v s. s\<lparr>rs_llm := v, rs_provider_keys := load_provider_keys ev\<rparr>)
      \<circ> section_of (load_browser ev) (\<lambda>v s. s\<lparr>rs_browser := v\<rparr>)
      \<circ> section_of (load_auth ev) (\<lambda>v s. s\<lparr>rs_auth := v\<rparr>)
      \<circ> field (text_of ev ''AUTH__SECRET_KEY'') (\<lambda>v s. s\<lparr>rs_secret_key := v\<rparr>)
      \<circ> field (text_of ev ''AUTH__ALGORITHM'') (\<lambda>v s. s\<lparr>rs_algorithm := v\<rparr>)
      \<circ> field (text_of ev ''SECRETS__PROVIDER'') (\<lambda>v s. s\<lparr>rs_secrets_provider := v\<rparr>)
      \<circ> field (text_of ev ''SECRETS__APP_KEYS'') (\<lambda>v s. s\<lparr>rs_app_keys := v\<rparr>)
      \<circ> section_of (load_storage ev) (\<lambda>v s. s\<lparr>rs_storage := v\<rparr>)
      \<circ> section_of (load_email ev) (\<lambda>v s. s\<lparr>rs_email := v\<rparr>)
      \<circ> field (text_of ev ''EXA_API_KEY'') (\<lambda>v s. s\<lparr>rs_exa_api_key := v\<rparr>)
      \<circ> field (text_of ev ''HOST'') (\<lambda>v s. s\<lparr>rs_host := v\<rparr>)
      \<circ> field (ev_int ev ''PORT'') (\<lambda>v s. s\<lparr>rs_port := v\<rparr>)
      \<circ> field (ev_strs ev ''CORS_ORIGINS'') (\<lambda>v s. s\<lparr>rs_cors_origins := v\<rparr>)) (Inr default_root)"

text \<open>\<^verbatim>\<open>lru_cache(maxsize=1)\<close>: the first settings that load are kept; an exception is not.\<close>

definition get_app_settings :: "environ \<Rightarrow> (root_settings option, exn, root_settings) op" where
  "get_app_settings ev cache =
     (case cache of
        Some s \<Rightarrow> (cache, Inr s)
      | None \<Rightarrow> (case load_settings ev of Inl e \<Rightarrow> (None, Inl e) | Inr s \<Rightarrow> (Some s, Inr s)))"

text \<open>The parts that the start, the secrets and the worker read.\<close>

definition app_settings_of :: "root_settings \<Rightarrow> app_settings" where
  "app_settings_of s = \<lparr>as_environment = rs_environment s, as_secret_key = rs_secret_key s, as_cors_origins = rs_cors_origins s,
     as_storage_provider = sc_provider (rs_storage s), as_url_signing_secret = sc_url_signing_secret (rs_storage s),
     as_metrics_token = rs_metrics_token s\<rparr>"

definition secrets_settings_of :: "root_settings \<Rightarrow> secrets_settings" where
  "secrets_settings_of s = \<lparr>ss_provider = rs_secrets_provider s, ss_app_keys = rs_app_keys s,
     ss_production = (rs_environment s = PRODUCTION)\<rparr>"

section \<open>What every configuration satisfies\<close>

lemma field_Inr:
  "field r put st = Inr s \<longleftrightarrow>
     (\<exists>s0. st = Inr s0 \<and> (r = None \<and> s = s0 \<or> (\<exists>v. r = Some (Inr v) \<and> s = put v s0)))"
  by (auto simp: field_def split: sum.splits option.splits)

text \<open>A field keeps what its update and the earlier fields keep.\<close>

definition keeps :: "('s \<Rightarrow> bool) \<Rightarrow> exn + 's \<Rightarrow> bool" where
  "keeps P r \<longleftrightarrow> (case r of Inl _ \<Rightarrow> True | Inr s \<Rightarrow> P s)"

lemma keeps_field:
  assumes "keeps P st" and "\<And>v s. r = Some (Inr v) \<Longrightarrow> P s \<Longrightarrow> P (put v s)"
  shows "keeps P (field r put st)"
  using assms by (auto simp: keeps_def field_def split: sum.splits option.splits)

lemma keeps_section:
  assumes "keeps P st" and "\<And>v s. r = Inr v \<Longrightarrow> P s \<Longrightarrow> P (put v s)"
  shows "keeps P (section_of r put st)"
  using assms by (auto simp: section_of_def intro!: keeps_field)

definition llm_in_range :: "llm_settings \<Rightarrow> bool" where
  "llm_in_range s \<longleftrightarrow> 0 \<le> llm_temperature s \<and> llm_temperature s \<le> 2 \<and> 1 \<le> llm_max_tokens s"

definition browser_in_range :: "browser_settings \<Rightarrow> bool" where
  "browser_in_range s \<longleftrightarrow> 1 \<le> bs_max_parallel s \<and> bs_max_parallel s \<le> 5"

lemma load_llm_in_range: "keeps llm_in_range (load_llm ev)"
  unfolding load_llm_def comp_def
  by (intro keeps_field) (simp_all add: keeps_def llm_in_range_def default_llm_def validate_temperature_def validate_max_tokens_def)

lemma load_browser_in_range: "keeps browser_in_range (load_browser ev)"
  unfolding load_browser_def comp_def
  by (intro keeps_field) (simp_all add: keeps_def browser_in_range_def default_browser_def validate_max_parallel_def)

definition lower_free :: "str \<Rightarrow> bool" where
  "lower_free s \<longleftrightarrow> list_all (\<lambda>c. 97 \<le> (of_char c :: nat) \<longrightarrow> \<not> (of_char c :: nat) \<le> 122) s"

lemma lower_free_INFO: "lower_free ''INFO''"
  by (simp add: lower_free_def)

lemma upper_lower_free: "lower_free (upper s)"
  by (induction s) (auto simp: upper_def lower_free_def upper_char_def Let_def)

definition root_in_range :: "root_settings \<Rightarrow> bool" where
  "root_in_range s \<longleftrightarrow> llm_in_range (rs_llm s) \<and> browser_in_range (rs_browser s) \<and> 0 \<le> rs_min_ats_score s \<and> rs_min_ats_score s \<le> 1
     \<and> lower_free (rs_log_level s)"

lemma load_in_range: "keeps root_in_range (load_settings ev)"
  unfolding load_settings_def comp_def
  using load_llm_in_range [of ev] load_browser_in_range [of ev]
  by (intro keeps_field keeps_section)
    (simp_all add: keeps_def root_in_range_def default_root_def llm_in_range_def browser_in_range_def default_llm_def default_browser_def
      validate_min_ats_score_def upper_lower_free lower_free_INFO)

lemma load_default_secret:
  assumes "ev_str ev ''AUTH__SECRET_KEY'' = None"
  shows "keeps (\<lambda>s. rs_secret_key s = INSECURE_DEFAULT) (load_settings ev)"
  unfolding load_settings_def comp_def
  by (intro keeps_field keeps_section) (simp_all add: keeps_def default_root_def text_of_def assms)

text \<open>
  The settings that a process gets are in the ranges of their validators, whatever the environment holds; they
  stay the same when the environment changes later; and production does not start unless the JWT secret was set.
\<close>

theorem settings_in_range:
  assumes "get_app_settings ev None = (cache, Inr s)"
  shows "0 \<le> llm_temperature (rs_llm s) \<and> llm_temperature (rs_llm s) \<le> 2 \<and> 1 \<le> llm_max_tokens (rs_llm s)
    \<and> 1 \<le> bs_max_parallel (rs_browser s) \<and> bs_max_parallel (rs_browser s) \<le> 5
    \<and> 0 \<le> rs_min_ats_score s \<and> rs_min_ats_score s \<le> 1 \<and> lower_free (rs_log_level s)
    \<and> get_app_settings ev' cache = (cache, Inr s)
    \<and> (rs_environment s \<noteq> PRODUCTION \<or> ev_str ev ''AUTH__SECRET_KEY'' \<noteq> None
       \<or> (\<exists>e. lifespan_start (app_settings_of s) dia k sch = (sch, Inl (RuntimeError e))))"
proof -
  have load: "load_settings ev = Inr s" "cache = Some s"
    using assms by (auto simp: get_app_settings_def split: sum.splits)
  have "root_in_range s" using load_in_range [of ev] load(1) by (simp add: keeps_def)
  moreover have "\<exists>e. lifespan_start (app_settings_of s) dia k sch = (sch, Inl (RuntimeError e))"
    if "rs_environment s = PRODUCTION" "ev_str ev ''AUTH__SECRET_KEY'' = None"
  proof -
    have "rs_secret_key s = INSECURE_DEFAULT" using load_default_secret [OF that(2)] load(1) by (simp add: keeps_def)
    with that(1) show ?thesis
      by (simp add: lifespan_start_def validate_production_settings_def production_problems_def app_settings_of_def)
  qed
  ultimately show ?thesis
    by (auto simp: root_in_range_def llm_in_range_def browser_in_range_def get_app_settings_def load(2))
qed

definition sample_environ :: environ where
  "sample_environ = \<lparr>ev_str = [''ENVIRONMENT'' \<mapsto> ''production'', ''LOG_LEVEL'' \<mapsto> ''debug''], ev_int = [''BROWSER__MAX_PARALLEL'' \<mapsto> Inr 99],
     ev_real = Map.empty, ev_bool = Map.empty, ev_strs = Map.empty\<rparr>"

theorem settings_in_range_witness:
  "\<exists>s cache. get_app_settings sample_environ None = (cache, Inr s) \<and> bs_max_parallel (rs_browser s) = 5 \<and> rs_log_level s = ''DEBUG''
     \<and> (\<exists>e. lifespan_start (app_settings_of s) Sqlite 0 [] = ([], Inl (RuntimeError e)))"
proof -
  have llm: "load_llm sample_environ = Inr default_llm" by (simp add: load_llm_def field_def text_of_def sample_environ_def)
  have browser: "load_browser sample_environ = Inr (default_browser\<lparr>bs_max_parallel := 5\<rparr>)"
    by (simp add: load_browser_def field_def text_of_def sample_environ_def validate_max_parallel_def)
  have rest: "load_auth sample_environ = Inr default_auth" "load_storage sample_environ = Inr default_storage"
      "load_email sample_environ = Inr default_email"
    by (simp_all add: load_auth_def load_storage_def load_email_def field_def text_of_def sample_environ_def)
  have up: "upper ''debug'' = ''DEBUG''" by code_simp
  obtain s where s: "load_settings sample_environ = Inr s" "bs_max_parallel (rs_browser s) = 5" "rs_log_level s = ''DEBUG''"
      "rs_environment s = PRODUCTION"
    by (simp add: load_settings_def section_of_def field_def text_of_def llm browser rest)
      (simp add: sample_environ_def read_environment_def up)
  then have get: "get_app_settings sample_environ None = (Some s, Inr s)" by (simp add: get_app_settings_def)
  have "ev_str sample_environ ''AUTH__SECRET_KEY'' = None" by (simp add: sample_environ_def)
  with settings_in_range [OF get, of sample_environ Sqlite 0 "[]"] s(4)
  have "\<exists>e. lifespan_start (app_settings_of s) Sqlite 0 [] = ([], Inl (RuntimeError e))" by blast
  with get s show ?thesis by blast
qed

end
