(* ===== verification/Spec2Isabelle.thy ===== *)
theory Spec2Isabelle
  imports Isolation Harness Auth Account Resumes JobSearch Runtime Analytics Monitor Preferences CoverLetter LiveEvents Startup S3 Routes Mailer WebApp Prompts Renderer Endpoints Pipeline TaskQueue Settings
begin

text \<open>
  \<^bold>\<open>A verification library of the AutoJobsApply backend\<close> (\<^verbatim>\<open>src/backend/app\<close>; the file names below are relative
  to it).

  The program is a multi-tenant service that searches jobs, scores and tailors resumes, and applies for its
  users. A FastAPI process answers requests: the bearer token gives the user, the user gives the tenant of
  the database session, and the services work on the tenant's rows, files and secrets. Applications that
  are approved become jobs of an Arq queue in Redis. A worker process takes them, checks the ATS gate,
  drives a browser agent with the user's own language model, records the result, publishes it to the
  user's web sockets, and reviews its runs, from which it learns site skills for the next ones. A
  schedule monitors the system and purges the accounts that were deleted.

  \<^bold>\<open>Conventions.\<close> An operation that may raise is \<open>('s, exn, 'a) op\<close>: it takes the state and returns the new
  state with \<open>Inl\<close> the exception or \<open>Inr\<close> the result, so an early return and every branch of a handler are
  visible, and what was committed before an exception stays. The database is the record \<open>db\<close> of tables,
  each a list of rows in insertion order; \<open>commit\<close> checks the constraints and unique indexes (\<open>db_ok\<close>) and
  leaves the old database with \<open>DBIntegrityError\<close> when they fail. A session's tenant is the context
  \<open>ctx\<close>, \<open>None\<close> for the unscoped sessions of the worker and of the authentication. Text is Latin-1 (a
  HOL string); a dash outside of it is written as two hyphens. Integers are Python's unbounded ones,
  times are seconds, money and scores are exact reals with Python's roundings written out. Clocks,
  generated ids and tokens are arguments of the operations that use them.

  \<^bold>\<open>Parameters.\<close> Code that is not in the repository is an argument, often a record of functions, with what
  the program relies on as a locale or a named hypothesis: Arq (\<open>arq_pool\<close>), PyJWT (\<open>jwt_signing\<close>), Argon2
  and SHA-256 (\<open>crypto\<close>), Fernet and KMS (\<open>fernet_laws\<close>, \<open>secrets_laws\<close>), the S3 client (\<open>s3_service\<close>),
  LiteLLM (\<open>litellm\<close>), browser-use, spaCy (\<open>nlp\<close>, \<open>ner\<close>), Jinja2, WeasyPrint and python-docx
  (\<open>render_lib\<close>, \<open>doc_env\<close>), exa-py, SMTP, Redis, tenacity. Every locale is interpreted on a concrete
  provider; where the repository provides it, on the repository's own.

  \<^bold>\<open>The theories\<close>, from the bottom up.

  \<^item> Prelude: Python strings and their methods, the shape of operations, list lemmas, and the locale
    \<open>step_invariant\<close> by which the invariants of all state machines are proved (it is interpreted for the
    requests of Auth, the registry of Harness, the sockets of LiveEvents, the monitor, the settings and
    the process of Connections).
  \<^item> Errors: the exceptions of \<^verbatim>\<open>core/exceptions.py\<close> and their HTTP status.
    Models: \<^verbatim>\<open>models/\<close>, the tables with their constraints. Tenant: the filter of \<^verbatim>\<open>db/tenant.py\<close> and the
    interface \<open>tenant_table\<close>, interpreted for applications, jobs and resumes. Regex and Difflib: the parts of
    Python's \<^verbatim>\<open>re\<close> and \<^verbatim>\<open>difflib\<close> that the program uses.
  \<^item> Applications (\<^verbatim>\<open>services/application.py\<close>), Dispatch (\<^verbatim>\<open>services/dispatch.py\<close>, the routes of
    \<^verbatim>\<open>api/v1/applications.py\<close>), Api and Isolation: the life cycle of an application, the queue, and the
    isolation of the tenants as noninterference: the replies to a user are a function of the user's own
    rows and requests, and no request of another user changes them.
  \<^item> Worker, Pipeline (\<^verbatim>\<open>workers/tasks.py\<close>): one attempt of the apply task, Arq's attempts with their
    termination, at most one submission under any delivery, the worker's jobs and schedule, and the whole
    way from an approval to a settled application. TaskQueue (\<^verbatim>\<open>services/queue.py\<close>): \<^verbatim>\<open>json.loads\<close> after
    \<^verbatim>\<open>json.dumps\<close>, and Redis lists as queues of messages.
  \<^item> Runtime (\<^verbatim>\<open>core/automation/runtime\<close>), Observe (\<^verbatim>\<open>observe.py\<close>, \<^verbatim>\<open>core/harness/diagnose.py\<close>),
    Harness (\<^verbatim>\<open>core/harness\<close>), Platforms (\<^verbatim>\<open>core/automation/platforms\<close>, \<^verbatim>\<open>agent.py\<close>,
    \<^verbatim>\<open>session_manager.py\<close>): the live browser run with its record and clean-up, its signals, its review, the
    registry of skills with its PII gate, and the three job boards.
  \<^item> Auth (\<^verbatim>\<open>api/v1/auth.py\<close>, \<^verbatim>\<open>core/security.py\<close>, \<^verbatim>\<open>services/password_reset.py\<close>, \<^verbatim>\<open>api/deps.py\<close>), Mailer
    (\<^verbatim>\<open>services/mailer.py\<close>), Account (\<^verbatim>\<open>services/account.py\<close>, \<^verbatim>\<open>core/ratelimit.py\<close>), Secrets
    (\<^verbatim>\<open>core/secrets\<close>, \<^verbatim>\<open>services/platform_session.py\<close>): sessions with rotating refresh tokens, password resets,
    deletion and purge, rate limits, and the encrypted store as a refinement of a map.
  \<^item> Storage (\<^verbatim>\<open>core/storage\<close>), S3 (\<^verbatim>\<open>core/storage/s3.py\<close>, \<^verbatim>\<open>factory.py\<close>): both back ends behind the tenant's
    facade; the interface \<open>user_files\<close> is what the purge of an account needs of either.
  \<^item> Skills, Scoring, Optimizer (\<^verbatim>\<open>core/ats\<close>), Parser (\<^verbatim>\<open>core/documents/parser.py\<close>), Documents
    (\<^verbatim>\<open>generator.py\<close>, \<^verbatim>\<open>docx_renderer.py\<close>), Renderer (\<^verbatim>\<open>pdf_renderer.py\<close>, \<^verbatim>\<open>core/storage/documents.py\<close>), Prompts
    (\<^verbatim>\<open>core/llm/prompts\<close>, \<^verbatim>\<open>judge.py\<close>, \<^verbatim>\<open>distil.py\<close>, \<^verbatim>\<open>review.py\<close>), Llm (\<^verbatim>\<open>core/llm\<close>), Resumes
    (\<^verbatim>\<open>services/resume.py\<close>), CoverLetter (\<^verbatim>\<open>services/cover_letter.py\<close>): the ATS score, the documents from the
    parsed text to the stored file, and every call of a language model with its bill.
  \<^item> Exa (\<^verbatim>\<open>core/job_discovery/exa_search.py\<close>), JobSearch (\<^verbatim>\<open>services/job_search.py\<close>), Analytics
    (\<^verbatim>\<open>services/analytics.py\<close>), Monitor (\<^verbatim>\<open>core/harness/anomaly.py\<close>), Preferences (\<^verbatim>\<open>api/v1/settings.py\<close>),
    LiveEvents (\<^verbatim>\<open>api/websocket\<close>, \<^verbatim>\<open>core/automation/intervention.py\<close>).
  \<^item> Migrations (\<^verbatim>\<open>db/migrations/versions\<close>), Settings (\<^verbatim>\<open>config/settings.py\<close>),
    Startup and WebApp (\<^verbatim>\<open>main.py\<close>),
    Connections (\<^verbatim>\<open>db/redis.py\<close>, \<^verbatim>\<open>db/arq.py\<close>, \<^verbatim>\<open>db/session.py\<close>, \<^verbatim>\<open>core/db_resilience.py\<close>), Routes and Endpoints
    (\<^verbatim>\<open>api/v1\<close>): the schema as a refinement of \<open>db_ok\<close>, the life of the process, and the guarded interface.

  \<^bold>\<open>What the properties show.\<close> They stand right after a text that begins with their number. Safety of the
  tenants: isolation of rows, replies, files, secrets, events and bills. Sessions: single use, families,
  resets, deletion, the bound on guesses. Applications: idempotent creation, guarded approval, at most
  one submission, and that an approved application is settled. Invariants by rule induction over step
  relations: the tokens, the settings, the skills, the issues, the connections. Refinements: credential
  store, S3 store, key rotation, schema, rendered files. Round trips: Word documents, JSON messages, migrations. Bounds:
  scores, issues, attempts, guesses. Failures: the properties of the guarded operations and of the renderers say
  what is left when they raise.

  \<^bold>\<open>Bounds and loops.\<close> Arq's attempts are a \<open>function\<close> with the measure \<open>MAX_TRIES - n\<close>. The deletion of a
  bucket's pages may not end for an arbitrary client: it is a \<open>partial_function (option)\<close>, and on a service
  that keeps its promises it is proved to return. The insertion of a skill tries \<open>VERSION_RETRIES\<close>
  times, as the code does. The other loops are structural recursions or have a measure. The reader of JSON takes the
  length of its text as fuel, which is proved to be enough for every text that \<^verbatim>\<open>json.dumps\<close> writes.

  \<^bold>\<open>Not modelled.\<close> Logging, metrics, tracing and Sentry (\<^verbatim>\<open>observability/\<close>; the metrics of the LLM client, of the
  worker's log and of its queue are modelled where a property reads them); the construction of the
  engine and Alembic's \<^verbatim>\<open>env.py\<close>; CORS and the OpenAPI metadata; the
  layout of the Word documents and the templates in HTML; rounding errors of floats; text outside of
  Latin-1; the scheduling inside of a single await; the frontend, the deployment files and the scripts.
  What a database does by itself on a deletion (cascades) is not part of the tables either.
\<close>

end
